(* ===== verification/Prelude.thy ===== *)
theory Prelude
  imports Main "HOL-Library.Word" "HOL-Library.Char_ord"
begin

text \<open>
  The vocabulary shared by every component: bytes and machine words, the results of fallible
  C++ code, little-endian and network byte order, and the generic facts about lists that the
  component theories use.  The model is that of a 64-bit little-endian host: \<open>size_t\<close> has
  eight bytes and an object representation stores its least significant byte first.
\<close>

unbundle bit_operations_syntax

section \<open>Collections of rewrite rules\<close>

named_theorems le_simps \<open>lengths and round trips of the byte encodings\<close>
named_theorems buf_simps \<open>contents of a byte buffer after an operation\<close>
named_theorems inv_intros \<open>preservation of component invariants\<close>

section \<open>Machine integers and bytes\<close>

type_synonym byte = "8 word"
type_synonym bytes = "byte list"
type_synonym u16 = "16 word"
type_synonym u32 = "32 word"
type_synonym u64 = "64 word"

abbreviation size_max :: nat where
  "size_max \<equiv> 2 ^ 64"

text \<open>Arithmetic on \<open>size_t\<close> wraps around modulo \<open>2 ^ 64\<close>.\<close>

definition szadd :: "nat \<Rightarrow> nat \<Rightarrow> nat" where
  "szadd a b = (a + b) mod size_max"

definition szsub :: "nat \<Rightarrow> nat \<Rightarrow> nat" where
  "szsub a b = (a + size_max - b) mod size_max"

definition szmul :: "nat \<Rightarrow> nat \<Rightarrow> nat" where
  "szmul a b = (a * b) mod size_max"

lemma szadd_small [simp]: "a + b < size_max \<Longrightarrow> szadd a b = a + b"
  by (simp add: szadd_def)

lemma szmul_small [simp]: "a * b < size_max \<Longrightarrow> szmul a b = a * b"
  by (simp add: szmul_def)

lemma szsub_small [simp]: "b \<le> a \<Longrightarrow> a < size_max \<Longrightarrow> szsub a b = a - b"
  by (simp add: szsub_def mod_if)

lemma szadd_less: "szadd a b < size_max"
  by (simp add: szadd_def)

section \<open>Results of code that can fail\<close>

text \<open>
  \<open>RuntimeError\<close> and \<open>RangeError\<close> are the C++ exceptions (\<open>std::runtime_error\<close>,
  \<open>BufferRangeError\<close>); \<open>AssertFail\<close> is a failed \<open>assert\<close>; \<open>OutOfBounds\<close> is an access
  outside an allocated block, which C++ leaves undefined and the model makes visible.
\<close>

datatype exn = RuntimeError string | RangeError | AssertFail | OutOfBounds

type_synonym 'a res = "exn + 'a"

definition bindR :: "'a res \<Rightarrow> ('a \<Rightarrow> 'b res) \<Rightarrow> 'b res" where
  "bindR r f = (case r of Inl e \<Rightarrow> Inl e | Inr x \<Rightarrow> f x)"

definition isOk :: "'a res \<Rightarrow> bool" where
  "isOk r = (case r of Inl _ \<Rightarrow> False | Inr _ \<Rightarrow> True)"

lemma bindR_simps [simp]:
  "bindR (Inl e) f = Inl e"
  "bindR (Inr x) f = f x"
  by (simp_all add: bindR_def)

lemma bindR_Inr_iff: "bindR r f = Inr y \<longleftrightarrow> (\<exists>x. r = Inr x \<and> f x = Inr y)"
  by (cases r) (auto simp: bindR_def)

lemma isOk_simps [simp]: "isOk (Inl e) = False" "isOk (Inr x) = True"
  by (simp_all add: isOk_def)

lemma isOk_iff: "isOk r \<longleftrightarrow> (\<exists>x. r = Inr x)"
  by (cases r) auto

section \<open>Object representations: little-endian bytes\<close>

primrec to_le :: "nat \<Rightarrow> nat \<Rightarrow> bytes" where
  "to_le 0 v = []"
| "to_le (Suc n) v = word_of_nat v # to_le n (v div 256)"

lemma to_le_numeral:
  "to_le (numeral k) v = word_of_nat v # to_le (pred_numeral k) (v div 256)"
  by (subst numeral_eq_Suc) (rule to_le.simps)

primrec of_le :: "bytes \<Rightarrow> nat" where
  "of_le [] = 0"
| "of_le (b # bs) = unat b + 256 * of_le bs"

lemma length_to_le [simp, le_simps]: "length (to_le n v) = n"
  by (induction n arbitrary: v) auto

lemma of_le_to_le [simp, le_simps]: "of_le (to_le n v) = v mod 256 ^ n"
proof (induction n arbitrary: v)
  case 0
  then show ?case by simp
next
  case (Suc n)
  have "v mod (256 * 256 ^ n) = v mod 256 + 256 * (v div 256 mod 256 ^ n)"
    by (simp add: mod_mult2_eq algebra_simps)
  with Suc show ?case by (simp add: unat_of_nat take_bit_eq_mod)
qed

lemma of_le_less: "of_le bs < 256 ^ length bs"
proof (induction bs)
  case Nil
  then show ?case by simp
next
  case (Cons b bs)
  have "unat b < 256" using unsigned_less [of b, where ?'a = nat] by simp
  with Cons show ?case by simp
qed

lemma to_le_of_le [simp, le_simps]: "length bs = n \<Longrightarrow> to_le n (of_le bs) = bs"
proof (induction bs arbitrary: n)
  case Nil
  then show ?case by simp
next
  case (Cons b bs)
  have b: "unat b < 256" using unsigned_less [of b, where ?'a = nat] by simp
  then have "(unat b + 256 * of_le bs) div 256 = of_le bs" by simp
  moreover have "(word_of_nat (unat b + 256 * of_le bs) :: byte) = b"
  proof (rule word_unat_eq_iff [THEN iffD2])
    show "unat (word_of_nat (unat b + 256 * of_le bs) :: byte) = unat b"
      using b by (simp only: unat_of_nat) simp
  qed
  ultimately show ?case using Cons by auto
qed

definition le16 :: "u16 \<Rightarrow> bytes" where "le16 w = to_le 2 (unat w)"
definition le32 :: "u32 \<Rightarrow> bytes" where "le32 w = to_le 4 (unat w)"
definition le64 :: "u64 \<Rightarrow> bytes" where "le64 w = to_le 8 (unat w)"
definition leSize :: "nat \<Rightarrow> bytes" where "leSize n = to_le 8 n"

lemma length_le_words [simp, le_simps]:
  "length (le16 a) = 2" "length (le32 b) = 4" "length (le64 c) = 8" "length (leSize n) = 8"
  by (simp_all add: le16_def le32_def le64_def leSize_def)

lemma of_le_le16 [simp, le_simps]: "of_le (le16 w) = unat w"
  using unsigned_less [of w, where ?'a = nat] by (simp add: le16_def)

lemma of_le_le32 [simp, le_simps]: "of_le (le32 w) = unat w"
  using unsigned_less [of w, where ?'a = nat] by (simp add: le32_def)

lemma of_le_le64 [simp, le_simps]: "of_le (le64 w) = unat w"
  using unsigned_less [of w, where ?'a = nat] by (simp add: le64_def)

lemma of_le_leSize [simp, le_simps]: "n < size_max \<Longrightarrow> of_le (leSize n) = n"
  by (simp add: leSize_def)

lemma le64_inj [simp]: "le64 a = le64 b \<longleftrightarrow> a = b"
  by (metis of_le_le64 word_unat_eq_iff)

lemma le64_not_Nil [simp]: "le64 a \<noteq> []" "le32 b \<noteq> []" "le16 c \<noteq> []"
  using length_le_words by (metis list.size(3) zero_neq_numeral)+

section \<open>Network byte order\<close>

text \<open>
  \<open>htons\<close> swaps the two bytes on a little-endian host; \<open>ntohs\<close> is the same function.  What
  \<open>append(htons(x))\<close> writes is therefore the big-endian representation.
\<close>

definition be16 :: "nat \<Rightarrow> bytes" where
  "be16 n = rev (to_le 2 n)"

definition of_be :: "bytes \<Rightarrow> nat" where
  "of_be bs = of_le (rev bs)"

lemma length_be16 [simp, le_simps]: "length (be16 n) = 2"
  by (simp add: be16_def)

lemma of_be_be16 [simp, le_simps]: "of_be (be16 n) = n mod 65536"
  by (simp add: of_be_def be16_def)

lemma of_be_less: "length bs = 2 \<Longrightarrow> of_be bs < 65536"
  using of_le_less [of "rev bs"] by (simp add: of_be_def)

section \<open>Facts about lists\<close>

text \<open>\<open>slice bs off len\<close> is the run of \<open>len\<close> elements at offset \<open>off\<close>.\<close>

definition slice :: "'a list \<Rightarrow> nat \<Rightarrow> nat \<Rightarrow> 'a list" where
  "slice bs off len = take len (drop off bs)"

lemma length_slice [simp]: "off + len \<le> length bs \<Longrightarrow> length (slice bs off len) = len"
  by (simp add: slice_def)

lemma slice_append_skip [simp]:
  "length xs \<le> off \<Longrightarrow> slice (xs @ ys) off len = slice ys (off - length xs) len"
  by (simp add: slice_def)

lemma slice_append_exact [simp]: "length xs = len \<Longrightarrow> slice (xs @ ys) 0 len = xs"
  by (simp add: slice_def)

lemma slice_all [simp]: "length xs = len \<Longrightarrow> slice xs 0 len = xs"
  by (simp add: slice_def)

lemma slice_Cons_skip [simp]: "0 < off \<Longrightarrow> slice (x # xs) off len = slice xs (off - 1) len"
  by (cases off) (simp_all add: slice_def)

lemma take_drop_slice: "off + len \<le> length bs \<Longrightarrow> take off bs @ slice bs off len @ drop (off + len) bs = bs"
  by (metis append_take_drop_id drop_drop add.commute slice_def)

text \<open>
  Overwriting part of a byte sequence; writing up to its end extends it.  This is what
  \<open>Buffer::write\<close> does to the data of a buffer when the offset is not beyond its end.
\<close>

definition bwrite :: "nat \<Rightarrow> 'a list \<Rightarrow> 'a list \<Rightarrow> 'a list" where
  "bwrite off d bs = take off bs @ d @ drop (off + length d) bs"

lemma length_bwrite [simp]: "off \<le> length bs \<Longrightarrow> length (bwrite off d bs) = max (length bs) (off + length d)"
  by (simp add: bwrite_def)

lemma bwrite_end [simp]: "bwrite (length bs) d bs = bs @ d"
  by (simp add: bwrite_def)

lemma slice_bwrite_same [simp]: "off \<le> length bs \<Longrightarrow> slice (bwrite off d bs) off (length d) = d"
  by (simp add: bwrite_def slice_def)

lemma slice_bwrite_before:
  "off' + len \<le> off \<Longrightarrow> off \<le> length bs \<Longrightarrow> slice (bwrite off d bs) off' len = slice bs off' len"
  by (simp add: bwrite_def slice_def take_drop min_def)

lemma slice_bwrite_after:
  "off + length d \<le> off' \<Longrightarrow> off \<le> length bs \<Longrightarrow> slice (bwrite off d bs) off' len = slice bs off' len"
  by (simp add: bwrite_def slice_def)

section \<open>Encodings with a decoder\<close>

text \<open>
  The interface of every wire or storage format of the program: an encoder, a decoder that may
  fail, and the values the encoder is meant for.  Each format interprets it.
\<close>

locale codec =
  fixes enc :: "'a \<Rightarrow> 'b"
    and dec :: "'b \<Rightarrow> 'a option"
    and wf :: "'a \<Rightarrow> bool"
  assumes dec_enc: "wf x \<Longrightarrow> dec (enc x) = Some x"
begin

lemma enc_inject: "wf x \<Longrightarrow> wf y \<Longrightarrow> enc x = enc y \<longleftrightarrow> x = y"
  using dec_enc by (metis option.inject)

lemma dec_image: "wf x \<Longrightarrow> enc x = b \<Longrightarrow> dec b = Some x"
  using dec_enc by blast

end

definition okOpt :: "'a res \<Rightarrow> 'a option" where
  "okOpt r = (case r of Inl _ \<Rightarrow> None | Inr x \<Rightarrow> Some x)"

lemma okOpt_simps [simp]: "okOpt (Inl e) = None" "okOpt (Inr x) = Some x"
  by (simp_all add: okOpt_def)

lemma okOpt_Some: "okOpt r = Some x \<longleftrightarrow> r = Inr x"
  by (cases r) auto

end
