(* ===== verification/Base64url.thy ===== *)
theory Base64url
  imports Prelude
begin

text \<open>
  The URL-safe base64 codec of \<open>src/base64url.cpp\<close>: both translation tables, the encoder and the
  decoder with every error branch.  Text is a \<^typ>\<open>string\<close>, binary data are \<^typ>\<open>bytes\<close>.  Shown:
  decoding inverts encoding, the decoder never reads past its input and fills exactly
  \<open>len * 3 / 4\<close> bytes, never more than the space it was given.
\<close>

section \<open>Tables\<close>

definition b64enctable :: string where
  "b64enctable = ''ABCDEFGHIJKLMNOPQRSTUVWXYZabcdefghijklmnopqrstuvwxyz0123456789-_''"

definition b64dectable :: "byte list" where
  "b64dectable = [
    255, 255, 255, 255, 255, 255, 255, 255, 255, 255, 255, 255, 255, 255, 255, 255,
    255, 255, 255, 255, 255, 255, 255, 255, 255, 255, 255, 255, 255, 255, 255, 255,
    255, 255, 255, 255, 255, 255, 255, 255, 255, 255, 255, 62, 255, 62, 255, 63,
    52, 53, 54, 55, 56, 57, 58, 59, 60, 61, 255, 255, 255, 255, 255, 255,
    255, 0, 1, 2, 3, 4, 5, 6, 7, 8, 9, 10, 11, 12, 13, 14,
    15, 16, 17, 18, 19, 20, 21, 22, 23, 24, 25, 255, 255, 255, 255, 63,
    255, 26, 27, 28, 29, 30, 31, 32, 33, 34, 35, 36, 37, 38, 39, 40,
    41, 42, 43, 44, 45, 46, 47, 48, 49, 50, 51, 255, 255, 255, 255, 255,
    255, 255, 255, 255, 255, 255, 255, 255, 255, 255, 255, 255, 255, 255, 255, 255,
    255, 255, 255, 255, 255, 255, 255, 255, 255, 255, 255, 255, 255, 255, 255, 255,
    255, 255, 255, 255, 255, 255, 255, 255, 255, 255, 255, 255, 255, 255, 255, 255,
    255, 255, 255, 255, 255, 255, 255, 255, 255, 255, 255, 255, 255, 255, 255, 255,
    255, 255, 255, 255, 255, 255, 255, 255, 255, 255, 255, 255, 255, 255, 255, 255,
    255, 255, 255, 255, 255, 255, 255, 255, 255, 255, 255, 255, 255, 255, 255, 255,
    255, 255, 255, 255, 255, 255, 255, 255, 255, 255, 255, 255, 255, 255, 255, 255,
    255, 255, 255, 255, 255, 255, 255, 255, 255, 255, 255, 255, 255, 255, 255, 255]"

definition b64dec :: "char \<Rightarrow> byte" where
  "b64dec c = b64dectable ! of_char c"

section \<open>Encoder\<close>

definition b64triple :: "byte \<Rightarrow> byte \<Rightarrow> byte \<Rightarrow> u32" where
  "b64triple a b c = push_bit 16 (ucast a) + push_bit 8 (ucast b) + ucast c"

definition b64quad :: "u32 \<Rightarrow> string" where
  "b64quad t =
    [b64enctable ! unat (drop_bit 18 t AND 0x3F),
     b64enctable ! unat (drop_bit 12 t AND 0x3F),
     b64enctable ! unat (drop_bit 6 t AND 0x3F),
     b64enctable ! unat (t AND 0x3F)]"

text \<open>The loop of the encoder: a missing second or third octet counts as zero.\<close>

fun b64encloop :: "bytes \<Rightarrow> string" where
  "b64encloop [] = []"
| "b64encloop [a] = b64quad (b64triple a 0 0)"
| "b64encloop [a, b] = b64quad (b64triple a b 0)"
| "b64encloop (a # b # c # rest) = b64quad (b64triple a b c) @ b64encloop rest"

definition base64urlencode :: "bytes \<Rightarrow> string" where
  "base64urlencode d =
     (let s = b64encloop d; m = length d mod 3
      in if m \<noteq> 0 then take (length s - (3 - m)) s else s)"

section \<open>Decoder\<close>

text \<open>
  The loop of the decoder.  The second character of a group is read without a check that there
  is one: the end of the input there is \<open>OutOfBounds\<close>.
\<close>

fun b64decloop :: "string \<Rightarrow> bytes res" where
  "b64decloop [] = Inr []"
| "b64decloop (c1 # s1) =
    (let one = b64dec c1 in
     if one > 63 then Inl (RuntimeError ''Invalid char'')
     else case s1 of [] \<Rightarrow> Inl OutOfBounds | c2 # s2 \<Rightarrow>
    (let two = b64dec c2 in
     if two > 63 then Inl (RuntimeError ''Invalid char'')
     else let o1 = push_bit 2 one OR drop_bit 4 two in
     case s2 of [] \<Rightarrow> Inr [o1] | c3 # s3 \<Rightarrow>
    (let three = b64dec c3 in
     if three > 63 then Inl (RuntimeError ''Invalid char'')
     else let o2 = push_bit 4 two OR drop_bit 2 three in
     case s3 of [] \<Rightarrow> Inr [o1, o2] | c4 # s4 \<Rightarrow>
    (let four = b64dec c4 in
     if four > 63 then Inl (RuntimeError ''Invalid char'')
     else let o3 = push_bit 6 three OR four in
     bindR (b64decloop s4) (\<lambda>os. Inr (o1 # o2 # o3 # os))))))"

definition base64urldecode :: "string \<Rightarrow> nat \<Rightarrow> bytes res" where
  "base64urldecode str binlen =
    (let len = length str in
     if binlen < szmul len 3 div 4
     then Inl (RuntimeError ''base64urldecode: Insufficient output buffer space'')
     else if len mod 4 \<noteq> 0 \<and> len mod 4 < 2
     then Inl (RuntimeError ''Incorrect size of base64 string, size mod 4 must be at least 2'')
     else b64decloop str)"

section \<open>The tables are inverse\<close>

lemma length_b64enctable [simp]: "length b64enctable = 64"
  by (simp add: b64enctable_def)

lemma b64dec_enctable_all: "list_all (\<lambda>i. b64dec (b64enctable ! i) = word_of_nat i) [0..<64]"
  by (simp add: b64dec_def b64enctable_def b64dectable_def upt_rec)

lemma b64dec_enctable: "i < 64 \<Longrightarrow> b64dec (b64enctable ! i) = word_of_nat i"
  using b64dec_enctable_all by (simp add: list_all_iff)

lemma and_63_less: "unat (w AND 0x3F :: u32) < 64"
proof -
  have "unat (w AND 0x3F) \<le> unat (0x3F :: u32)"
    by (rule word_and_le1 [THEN word_le_nat_alt [THEN iffD1]])
  then show ?thesis by simp
qed

lemma b64dec_quad: "b64dec (b64enctable ! unat (w AND 0x3F :: u32)) = ucast (w AND 0x3F)"
  using b64dec_enctable [OF and_63_less [of w]] by simp

lemma ucast_and_63_le: "\<not> (ucast (w AND 0x3F :: u32) :: byte) > 63"
proof -
  have "unat (ucast (w AND 0x3F) :: byte) = unat (word_of_nat (unat (w AND 0x3F)) :: byte)"
    by simp
  also have "\<dots> = unat (w AND 0x3F) mod 256"
    by (simp only: unat_of_nat) simp
  finally have "unat (ucast (w AND 0x3F) :: byte) < 64"
    using and_63_less [of w] by simp
  then show ?thesis by (simp add: word_less_nat_alt)
qed

section \<open>Round trip\<close>

lemma byte_eqI:
  assumes "bit a 0 = bit b 0" "bit a 1 = bit b 1" "bit a 2 = bit b 2" "bit a 3 = bit b 3"
    "bit a 4 = bit b 4" "bit a 5 = bit b 5" "bit a 6 = bit b 6" "bit a 7 = bit (b :: byte) 7"
  shows "a = b"
proof (rule bit_word_eqI)
  fix n assume "n < LENGTH(8)"
  then have "n = 0 \<or> n = 1 \<or> n = 2 \<or> n = 3 \<or> n = 4 \<or> n = 5 \<or> n = 6 \<or> n = 7" by simp arith
  then show "bit a n = bit b n" using assms by (elim disjE) simp_all
qed

lemma byte_no_bit: "8 \<le> n \<Longrightarrow> \<not> bit (a :: byte) n"
  by (auto dest: bit_imp_le_length)

lemma b64triple_or:
  "b64triple a b c = push_bit 16 (ucast a) OR push_bit 8 (ucast b) OR ucast c"
proof -
  have 1: "push_bit 16 (ucast a :: u32) AND push_bit 8 (ucast b) = 0"
    by (rule bit_word_eqI) (auto simp: bit_simps dest!: bit_imp_le_length)
  have 2: "(push_bit 16 (ucast a :: u32) OR push_bit 8 (ucast b)) AND ucast c = 0"
    by (rule bit_word_eqI) (auto simp: bit_simps dest!: bit_imp_le_length)
  have "push_bit 16 (ucast a) + push_bit 8 (ucast b) = push_bit 16 (ucast a :: u32) OR push_bit 8 (ucast b)"
    using 1 by (simp add: disjunctive_add_eq_or)
  then show ?thesis using 2 by (simp add: b64triple_def disjunctive_add_eq_or or.assoc)
qed

lemma b64_octets:
  defines "i1 t \<equiv> (ucast (drop_bit 18 (t :: u32) AND 0x3F) :: byte)"
    and "i2 t \<equiv> (ucast (drop_bit 12 (t :: u32) AND 0x3F) :: byte)"
    and "i3 t \<equiv> (ucast (drop_bit 6 (t :: u32) AND 0x3F) :: byte)"
    and "i4 t \<equiv> (ucast ((t :: u32) AND 0x3F) :: byte)"
  shows "push_bit 2 (i1 (b64triple a b c)) OR drop_bit 4 (i2 (b64triple a b c)) = a"
    and "push_bit 4 (i2 (b64triple a b c)) OR drop_bit 2 (i3 (b64triple a b c)) = b"
    and "push_bit 6 (i3 (b64triple a b c)) OR i4 (b64triple a b c) = c"
proof -
  have m: "(0x3F :: u32) = mask 6" by (simp add: mask_eq_exp_minus_1)
  show "push_bit 2 (i1 (b64triple a b c)) OR drop_bit 4 (i2 (b64triple a b c)) = a"
    by (rule byte_eqI) (simp_all add: assms m b64triple_or bit_simps byte_no_bit)
  show "push_bit 4 (i2 (b64triple a b c)) OR drop_bit 2 (i3 (b64triple a b c)) = b"
    by (rule byte_eqI) (simp_all add: assms m b64triple_or bit_simps byte_no_bit)
  show "push_bit 6 (i3 (b64triple a b c)) OR i4 (b64triple a b c) = c"
    by (rule byte_eqI) (simp_all add: assms m b64triple_or bit_simps byte_no_bit)
qed


lemmas b64_octets_simp [simp] = b64_octets

lemma b64decloop_quad3:
  "b64decloop (b64quad (b64triple a b c) @ s) =
     bindR (b64decloop s) (\<lambda>os. Inr (a # b # c # os))"
  by (simp add: b64quad_def b64dec_quad ucast_and_63_le Let_def)

lemma b64decloop_quad2: "b64decloop (take 3 (b64quad (b64triple a b 0))) = Inr [a, b]"
  by (simp add: b64quad_def b64dec_quad ucast_and_63_le Let_def)

lemma b64decloop_quad1: "b64decloop (take 2 (b64quad (b64triple a 0 0))) = Inr [a]"
  by (simp add: b64quad_def b64dec_quad ucast_and_63_le Let_def)

lemma length_b64quad [simp]: "length (b64quad t) = 4"
  by (simp add: b64quad_def)

lemma length_b64encloop: "length (b64encloop d) = 4 * ((length d + 2) div 3)"
proof (induction d rule: b64encloop.induct)
  case (4 a b c rest)
  have "(length rest + 5) div 3 = Suc ((length rest + 2) div 3)" by presburger
  with 4 show ?case by (simp add: add.commute)
qed simp_all

lemma base64urlencode_simps:
  "base64urlencode [] = []"
  "base64urlencode [a] = take 2 (b64quad (b64triple a 0 0))"
  "base64urlencode [a, b] = take 3 (b64quad (b64triple a b 0))"
  "base64urlencode (a # b # c # rest) = b64quad (b64triple a b c) @ base64urlencode rest"
proof -
  have "3 - length rest mod 3 \<le> length (b64encloop rest)" if "length rest mod 3 \<noteq> 0"
    using that by (cases rest) (auto simp: length_b64encloop)
  then show "base64urlencode (a # b # c # rest) = b64quad (b64triple a b c) @ base64urlencode rest"
    by (auto simp: base64urlencode_def Let_def)
qed (simp_all add: base64urlencode_def)

lemma length_base64urlencode: "length (base64urlencode d) = (4 * length d + 2) div 3"
  by (induction d rule: b64encloop.induct) (auto simp: base64urlencode_simps)

lemma b64decloop_encode: "b64decloop (base64urlencode d) = Inr d"
  by (induction d rule: b64encloop.induct)
    (simp_all only: base64urlencode_simps b64decloop_quad1 b64decloop_quad2 b64decloop_quad3
      b64decloop.simps bindR_simps)

lemma szmul_le: "szmul a b \<le> a * b"
  by (simp add: szmul_def)

lemma base64_enc_fits:
  assumes "length d \<le> n" shows "szmul (length (base64urlencode d)) 3 div 4 \<le> n"
proof -
  have "szmul (length (base64urlencode d)) 3 div 4 \<le> length (base64urlencode d) * 3 div 4"
    by (intro div_le_mono szmul_le)
  also have "\<dots> \<le> length d" unfolding length_base64urlencode by linarith
  finally show ?thesis using assms by simp
qed

lemma base64_enc_mod4: "length (base64urlencode d) mod 4 \<noteq> 1"
  unfolding length_base64urlencode by presburger

lemma base64urldecode_encode: "length d \<le> n \<Longrightarrow> base64urldecode (base64urlencode d) n = Inr d"
  using base64_enc_fits [of d n] base64_enc_mod4 [of d]
  by (auto simp: base64urldecode_def Let_def b64decloop_encode not_less)

section \<open>What the decoder accepts\<close>

lemma b64decloop_spec:
  "length s mod 4 \<noteq> 1 \<Longrightarrow>
    (if \<forall>c \<in> set s. b64dec c \<le> 63
     then \<exists>d. b64decloop s = Inr d \<and> length d = length s * 3 div 4
     else b64decloop s = Inl (RuntimeError ''Invalid char''))"
proof (induction s rule: length_induct)
  case (1 s)
  show ?case
  proof (cases "length s < 4")
    case True
    then have "length s = 0 \<or> length s = 2 \<or> length s = 3" using "1.prems" by presburger
    then have "s = [] \<or> (\<exists>a b. s = [a, b]) \<or> (\<exists>a b c. s = [a, b, c])"
      by (auto simp: numeral_eq_Suc length_Suc_conv)
    then show ?thesis by (auto simp: Let_def not_le)
  next
    case False
    then obtain a b c d r where s: "s = a # b # c # d # r"
      by (auto simp: not_less numeral_eq_Suc Suc_le_length_iff)
    then have "length r mod 4 \<noteq> 1" "length r < length s" using "1.prems" by simp_all
    with "1.IH" [rule_format, of r] show ?thesis by (auto simp: s Let_def not_le split: if_splits)
  qed
qed


interpretation b64: codec base64urlencode "\<lambda>s. okOpt (base64urldecode s (length s))" "\<lambda>_. True"
  by unfold_locales (simp add: base64urldecode_encode length_base64urlencode okOpt_Some, presburger?)

section \<open>Properties\<close>

text \<open>
  C18: Decoding what the encoder wrote gives the data back, in any output space that has room for
  the data; no length restriction, no error branch is taken.
\<close>
theorem base64_roundtrip: "length d \<le> n \<Longrightarrow> base64urldecode (base64urlencode d) n = Inr d"
  by (rule base64urldecode_encode)

theorem base64_roundtrip_witness:
  "base64urlencode [0x81, 0x3c, 0x45, 0x86] = ''gTxFhg'' \<and>
   base64urldecode ''gTxFhg'' 8 = Inr [0x81, 0x3c, 0x45, 0x86]"
proof -
  have e: "base64urlencode [0x81, 0x3c, 0x45, 0x86] = ''gTxFhg''" by code_simp
  show ?thesis using base64_roundtrip [of "[0x81, 0x3c, 0x45, 0x86]" 8] by (simp add: e)
qed

text \<open>
  The decoder succeeds exactly on texts whose length is not 1 modulo 4, that fit the output
  space and hold characters of the alphabet only (the URL-safe one or the standard one), and then
  returns \<open>len * 3 / 4\<close> bytes, never more than the space; on every other input it throws: it never
  reads past the end of the text, whatever the text is.
\<close>
theorem base64_decode_total:
  assumes "length s < 2 ^ 62"
  shows "case base64urldecode s n of
      Inr d \<Rightarrow> length d = length s * 3 div 4 \<and> length d \<le> n \<and> length s mod 4 \<noteq> 1 \<and> (\<forall>c \<in> set s. b64dec c \<le> 63)
    | Inl e \<Rightarrow> (\<exists>m. e = RuntimeError m) \<and>
        (n < length s * 3 div 4 \<or> length s mod 4 = 1 \<or> (\<exists>c \<in> set s. 63 < b64dec c))"
proof -
  have "szmul (length s) 3 = length s * 3" using assms by (intro szmul_small) simp
  then show ?thesis using b64decloop_spec [of s]
    by (auto simp: base64urldecode_def Let_def not_le not_less split: sum.splits if_splits)
qed

theorem base64_decode_total_witness: "base64urldecode ''gTxFh'' 8 \<noteq> Inl OutOfBounds"
  using base64_decode_total [of "''gTxFh''" 8] by (auto split: sum.splits)

end
