(* ===== verification/Buffer.thy ===== *)
theory Buffer
  imports Prelude
begin

text \<open>
  The byte buffers of \<open>src/buffer.h\<close>: a \<open>StaticBuffer\<close> (a pointer and a data size) and the owning
  \<open>Buffer\<close> (with the size of its allocated block).  A \<open>Buffer\<close> is a record of the block, \<open>None\<close>
  for a null pointer, and the data size; the size of the block is the length of its list.
  \<open>malloc\<close> and \<open>realloc\<close> hand out memory with unspecified contents: every operation that
  allocates takes them as the argument \<open>fr\<close>.  Allocation failure is not modelled.  Offsets are
  \<open>size_t\<close>, so that sums of offsets and lengths wrap around.

  Shown: the invariant \<open>data size \<le> block size\<close> of every operation, and that the operations
  refine plain byte sequences, whatever the fresh memory holds; the rest of the development works
  on byte sequences.
\<close>

section \<open>Reading\<close>

record Buf =
  mBuf :: "bytes option"
  mDataSize :: nat

definition bufSize :: "Buf \<Rightarrow> nat" where
  "bufSize b = (case mBuf b of None \<Rightarrow> 0 | Some blk \<Rightarrow> length blk)"

definition block :: "Buf \<Rightarrow> bytes" where
  "block b = (case mBuf b of None \<Rightarrow> [] | Some blk \<Rightarrow> blk)"

definition contents :: "Buf \<Rightarrow> bytes" where
  "contents b = take (mDataSize b) (block b)"

definition bempty :: "Buf \<Rightarrow> bool" where
  "bempty b \<longleftrightarrow> \<not> (mBuf b \<noteq> None \<and> mDataSize b \<noteq> 0)"

definition checkDataSize :: "bytes \<Rightarrow> nat \<Rightarrow> unit res" where
  "checkDataSize bs n = (if length bs < n then Inl RangeError else Inr ())"

text \<open>
  \<open>readPtr\<close> compares the wrapped sum with the data size and returns the pointer; the bytes it
  points to are there only if the run really lies inside the data.
\<close>

definition readPtr :: "bytes \<Rightarrow> nat \<Rightarrow> nat \<Rightarrow> bytes res" where
  "readPtr bs off len =
    (if szadd off len > length bs then Inl RangeError
     else if off + len \<le> length bs then Inr (slice bs off len)
     else Inl OutOfBounds)"

definition read8 :: "bytes \<Rightarrow> nat \<Rightarrow> byte res" where
  "read8 bs off = bindR (readPtr bs off 1) (\<lambda>d. Inr (word_of_nat (of_le d)))"

definition read16 :: "bytes \<Rightarrow> nat \<Rightarrow> u16 res" where
  "read16 bs off = bindR (readPtr bs off 2) (\<lambda>d. Inr (word_of_nat (of_le d)))"

definition read32 :: "bytes \<Rightarrow> nat \<Rightarrow> u32 res" where
  "read32 bs off = bindR (readPtr bs off 4) (\<lambda>d. Inr (word_of_nat (of_le d)))"

definition read64 :: "bytes \<Rightarrow> nat \<Rightarrow> u64 res" where
  "read64 bs off = bindR (readPtr bs off 8) (\<lambda>d. Inr (word_of_nat (of_le d)))"

text \<open>The reading overloads that only assert that the run lies inside the data.\<close>

definition readString :: "bytes \<Rightarrow> nat \<Rightarrow> nat \<Rightarrow> bytes res" where
  "readString bs off len = (if szadd off len \<le> length bs
     then (if off + len \<le> length bs then Inr (slice bs off len) else Inl OutOfBounds)
     else Inl AssertFail)"

definition dataEquals :: "bytes \<Rightarrow> bytes \<Rightarrow> bool" where
  "dataEquals bs d = (if length d \<noteq> length bs then False else bs = d)"

text \<open>
  \<open>find\<close> compares a \<open>char\<close> of the buffer, signed on the platforms the program targets first, with an
  \<open>unsigned char\<close>; both are promoted to \<open>int\<close>.
\<close>

function bfind :: "bytes \<Rightarrow> byte \<Rightarrow> nat \<Rightarrow> nat option" where
  "bfind bs v i = (if i < length bs
     then (if sint (bs ! i) = uint v then Some i else bfind bs v (Suc i)) else None)"
  by pat_completeness auto
termination by (relation "measure (\<lambda>(bs, v, i). length bs - i)") auto

declare bfind.simps [simp del]

definition hexChar :: "nat \<Rightarrow> char" where
  "hexChar n = ''0123456789abcdef'' ! n"

fun bdump :: "bytes \<Rightarrow> nat \<Rightarrow> nat \<Rightarrow> string" where
  "bdump [] colCount colCtr = []"
| "bdump (v # vs) colCount colCtr =
     hexChar (unat (drop_bit 4 v)) # hexChar (unat (v AND 0x0f)) #
     (if vs = [] then []
      else if colCtr + 2 \<ge> colCount then CHR 0x0A # bdump vs colCount 0
      else CHR '' '' # bdump vs colCount (colCtr + 3))"

fun showNat :: "nat \<Rightarrow> string" where
  "showNat n = (if n < 10 then [char_of (48 + n)] else showNat (n div 10) @ [char_of (48 + n mod 10)])"

declare showNat.simps [simp del]

definition bufToString :: "bytes \<Rightarrow> nat \<Rightarrow> string" where
  "bufToString bs colCount = (if bs = [] then ''(empty)''
     else ''size: '' @ showNat (length bs) @ [CHR 0x0A] @ bdump bs colCount 0)"

section \<open>Owning buffers\<close>

type_synonym fresh = "nat \<Rightarrow> byte"

abbreviation kMinBufSize :: nat where "kMinBufSize \<equiv> 64"

definition mallocB :: "fresh \<Rightarrow> nat \<Rightarrow> bytes" where
  "mallocB fr n = map fr [0..<n]"

definition reallocB :: "fresh \<Rightarrow> bytes option \<Rightarrow> nat \<Rightarrow> bytes" where
  "reallocB fr old n = (let o' = (case old of None \<Rightarrow> [] | Some blk \<Rightarrow> blk)
     in take n o' @ map fr [length (take n o')..<n])"

definition bzero :: Buf where
  "bzero = \<lparr>mBuf = None, mDataSize = 0\<rparr>"

definition newBuffer :: "fresh \<Rightarrow> nat \<Rightarrow> nat \<Rightarrow> Buf res" where
  "newBuffer fr sz dataSize =
    (if \<not> dataSize \<le> sz then Inl AssertFail
     else if sz \<noteq> 0 then Inr \<lparr>mBuf = Some (mallocB fr sz), mDataSize = dataSize\<rparr>
     else Inr bzero)"

definition bufferOf :: "bytes \<Rightarrow> Buf" where
  "bufferOf d = (if d \<noteq> [] then \<lparr>mBuf = Some d, mDataSize = length d\<rparr> else bzero)"

definition moveFrom :: "Buf \<Rightarrow> Buf \<times> Buf" where
  "moveFrom other = (\<lparr>mBuf = mBuf other, mDataSize = mDataSize other\<rparr>, bzero)"

text \<open>\<open>memcpy\<close> into a block; out of range is undefined.\<close>

definition memcpyTo :: "bytes \<Rightarrow> nat \<Rightarrow> bytes \<Rightarrow> bytes res" where
  "memcpyTo blk off d =
    (if off + length d \<le> length blk then Inr (bwrite off d blk) else Inl OutOfBounds)"

definition bassign :: "fresh \<Rightarrow> Buf \<Rightarrow> bytes \<Rightarrow> Buf res" where
  "bassign fr b d =
    (case mBuf b of
       Some blk \<Rightarrow>
         if length d \<le> length blk
         then bindR (memcpyTo blk 0 d) (\<lambda>blk'. Inr \<lparr>mBuf = Some blk', mDataSize = length d\<rparr>)
         else bindR (memcpyTo (mallocB fr (if kMinBufSize > length d then kMinBufSize else length d)) 0 d)
                (\<lambda>blk'. Inr \<lparr>mBuf = Some blk', mDataSize = length d\<rparr>)
     | None \<Rightarrow> bindR (memcpyTo (mallocB fr (if kMinBufSize > length d then kMinBufSize else length d)) 0 d)
                (\<lambda>blk'. Inr \<lparr>mBuf = Some blk', mDataSize = length d\<rparr>))"

definition breserve :: "fresh \<Rightarrow> Buf \<Rightarrow> nat \<Rightarrow> Buf res" where
  "breserve fr b sz =
    (case mBuf b of
       None \<Rightarrow> if mDataSize b = 0 then Inr (b\<lparr>mBuf := Some (mallocB fr sz)\<rparr>) else Inl AssertFail
     | Some blk \<Rightarrow>
         let newsize = szadd (mDataSize b) sz
         in if newsize \<le> length blk then Inr b
            else Inr (b\<lparr>mBuf := Some (reallocB fr (mBuf b) newsize)\<rparr>))"

definition bsetDataSize :: "Buf \<Rightarrow> nat \<Rightarrow> Buf res" where
  "bsetDataSize b sz =
    (if sz > bufSize b
     then Inl (RuntimeError ''setDataSize: Attempted to set dataSize to span beyond bufferSize'')
     else Inr (b\<lparr>mDataSize := sz\<rparr>))"

text \<open>\<open>writePtr\<close> makes room; the caller then stores \<open>dataLen\<close> bytes at the offset.\<close>

definition bwritePtr :: "fresh \<Rightarrow> Buf \<Rightarrow> nat \<Rightarrow> nat \<Rightarrow> Buf res" where
  "bwritePtr fr b off dataLen =
    (let reqdSize = szadd off dataLen
     in if reqdSize > bufSize b
        then bindR (breserve fr b reqdSize) (\<lambda>b'. Inr (b'\<lparr>mDataSize := reqdSize\<rparr>))
        else if reqdSize > mDataSize b then Inr (b\<lparr>mDataSize := reqdSize\<rparr>)
        else Inr b)"

definition bstore :: "Buf \<Rightarrow> nat \<Rightarrow> bytes \<Rightarrow> Buf res" where
  "bstore b off d = bindR (memcpyTo (block b) off d)
     (\<lambda>blk. Inr (if mBuf b = None then b else b\<lparr>mBuf := Some blk\<rparr>))"

definition bfill :: "fresh \<Rightarrow> Buf \<Rightarrow> nat \<Rightarrow> byte \<Rightarrow> nat \<Rightarrow> Buf res" where
  "bfill fr b off v count = bindR (bwritePtr fr b off count) (\<lambda>b'. bstore b' off (replicate count v))"

definition bwriteData :: "fresh \<Rightarrow> Buf \<Rightarrow> nat \<Rightarrow> bytes \<Rightarrow> Buf res" where
  "bwriteData fr b off d =
    (let reqdSize = szadd off (length d)
     in if reqdSize \<le> mDataSize b then bstore b off d
        else let b1 = (if reqdSize > bufSize b
                       then b\<lparr>mBuf := Some (reallocB fr (mBuf b) reqdSize)\<rparr> else b)
             in bindR (bstore b1 off d) (\<lambda>b2. Inr (b2\<lparr>mDataSize := reqdSize\<rparr>)))"

definition bappend :: "fresh \<Rightarrow> Buf \<Rightarrow> bytes \<Rightarrow> Buf res" where
  "bappend fr b d = bwriteData fr b (mDataSize b) d"

definition bappendFill :: "fresh \<Rightarrow> Buf \<Rightarrow> byte \<Rightarrow> nat \<Rightarrow> Buf res" where
  "bappendFill fr b v count =
     bindR (bwritePtr fr b (mDataSize b) count) (\<lambda>b'. bstore b' (mDataSize b) (replicate count v))"

definition bclear :: "Buf \<Rightarrow> Buf" where
  "bclear b = b\<lparr>mDataSize := 0\<rparr>"

definition bfree :: "Buf \<Rightarrow> Buf" where
  "bfree b = (case mBuf b of None \<Rightarrow> b | Some _ \<Rightarrow> \<lparr>mBuf = None, mDataSize = 0\<rparr>)"

section \<open>Invariant\<close>

definition buf_inv :: "Buf \<Rightarrow> bool" where
  "buf_inv b \<longleftrightarrow> mDataSize b \<le> bufSize b \<and> bufSize b < size_max"

lemma length_block [simp]: "length (block b) = bufSize b"
  by (simp add: block_def bufSize_def split: option.splits)

lemma length_contents [simp]: "buf_inv b \<Longrightarrow> length (contents b) = mDataSize b"
  by (simp add: contents_def buf_inv_def)

lemma length_mallocB [simp]: "length (mallocB fr n) = n"
  by (simp add: mallocB_def)

lemma length_reallocB [simp]: "length (reallocB fr old n) = n"
  by (auto simp: reallocB_def Let_def min_def split: option.splits)

lemma take_reallocB: "m \<le> n \<Longrightarrow> m \<le> length blk \<Longrightarrow> take m (reallocB fr (Some blk) n) = take m blk"
  by (simp add: reallocB_def Let_def min_def)


section \<open>Refinement of byte sequences\<close>

lemma contents_slice: "contents b = slice (block b) 0 (mDataSize b)"
  by (simp add: contents_def slice_def)

lemma bstore_ok:
  assumes "off + length d \<le> bufSize b" "mBuf b \<noteq> None"
  shows "bstore b off d = Inr (b\<lparr>mBuf := Some (bwrite off d (block b))\<rparr>)"
  using assms by (simp add: bstore_def memcpyTo_def)

lemma block_update [simp]: "block (b\<lparr>mBuf := Some blk\<rparr>) = blk"
  by (simp add: block_def)

lemma bufSize_update [simp]: "bufSize (b\<lparr>mBuf := Some blk\<rparr>) = length blk"
  by (simp add: bufSize_def)

lemma bufSize_dataSize [simp]: "bufSize (b\<lparr>mDataSize := n\<rparr>) = bufSize b"
  by (simp add: bufSize_def)

lemma block_dataSize [simp]: "block (b\<lparr>mDataSize := n\<rparr>) = block b"
  by (simp add: block_def)

lemma bufSize_None: "mBuf b = None \<Longrightarrow> bufSize b = 0"
  by (simp add: bufSize_def)

lemma take_bwrite_grow:
  assumes "off \<le> n" "n \<le> off + length d" "n \<le> length blk"
  shows "take (off + length d) (bwrite off d blk) = bwrite off d (take n blk)"
  using assms by (auto simp: bwrite_def min_def)

lemma take_bwrite_inside:
  assumes "off + length d \<le> n" "n \<le> length blk"
  shows "take n (bwrite off d blk) = bwrite off d (take n blk)"
proof -
  have "take (n - (off + length d)) (drop (off + length d) blk) = drop (off + length d) (take n blk)"
    by (simp add: drop_take)
  moreover have "n = off \<and> d = []" if "n \<le> off"
    using that assms by (cases d) auto
  ultimately show ?thesis using assms by (auto simp: bwrite_def min_def)
qed

text \<open>\<open>Buffer::write\<close> at an offset inside or at the end of the data is \<open>bwrite\<close> on the data.\<close>

lemma bwriteData_refines:
  assumes inv: "buf_inv b" and off: "off \<le> mDataSize b" and len: "off + length d < size_max"
  obtains b' where "bwriteData fr b off d = Inr b'" "buf_inv b'"
    "contents b' = bwrite off d (contents b)"
proof -
  let ?blk = "block b" and ?n = "off + length d"
  have n: "mDataSize b \<le> length ?blk" using inv by (simp add: buf_inv_def)
  consider (inside) "?n \<le> mDataSize b" | (fits) "mDataSize b < ?n" "?n \<le> bufSize b"
    | (grow) "bufSize b < ?n" by linarith
  then show thesis
  proof cases
    case inside
    show thesis
    proof (cases "mBuf b")
      case None
      then have "mDataSize b = 0" "contents b = []" using inv by (auto simp: buf_inv_def bufSize_def contents_def block_def)
      with None inside off len inv show thesis
        by (intro that [of b]) (simp_all add: bwriteData_def bstore_def memcpyTo_def block_def bwrite_def)
    next
      case (Some blk)
      with inside n inv len show thesis
        by (intro that [of "b\<lparr>mBuf := Some (bwrite off d ?blk)\<rparr>"])
          (simp_all add: bwriteData_def bstore_ok contents_def take_bwrite_inside buf_inv_def)
    qed
  next
    case fits
    then have "mBuf b \<noteq> None" using bufSize_None [of b] by auto
    with fits off n inv len show thesis
      by (intro that [of "b\<lparr>mBuf := Some (bwrite off d ?blk), mDataSize := ?n\<rparr>"])
        (simp_all add: bwriteData_def Let_def bstore_ok contents_def take_bwrite_grow buf_inv_def)
  next
    case grow
    let ?blk' = "reallocB fr (mBuf b) ?n"
    have t: "take (mDataSize b) ?blk' = contents b"
    proof (cases "mBuf b")
      case None
      then show ?thesis using inv by (simp add: buf_inv_def bufSize_None contents_def)
    next
      case (Some blk)
      with n off grow show ?thesis by (simp add: contents_def block_def bufSize_def take_reallocB)
    qed
    have "bwrite off d ?blk' = bwrite off d (contents b)"
      using take_bwrite_grow [of off "mDataSize b" d ?blk'] grow off n t by simp
    with grow off n inv len show thesis
      by (intro that [of "b\<lparr>mBuf := Some (bwrite off d ?blk'), mDataSize := ?n\<rparr>"])
        (simp_all add: bwriteData_def Let_def bstore_ok contents_def buf_inv_def)
  qed
qed

lemma bwritePtr_bstore_refines:
  assumes inv: "buf_inv b" and off: "off \<le> mDataSize b"
    and len: "mDataSize b + (off + length d) < size_max"
  obtains b1 b2 where "bwritePtr fr b off (length d) = Inr b1" "bstore b1 off d = Inr b2" "buf_inv b2"
    "contents b2 = bwrite off d (contents b)"
proof -
  let ?blk = "block b" and ?n = "off + length d"
  have n: "mDataSize b \<le> length ?blk" using inv by (simp add: buf_inv_def)
  consider (inside) "?n \<le> mDataSize b" | (fits) "mDataSize b < ?n" "?n \<le> bufSize b"
    | (grow) "bufSize b < ?n" by linarith
  then show thesis
  proof cases
    case inside
    show thesis
    proof (cases "mBuf b")
      case None
      then have "mDataSize b = 0" "contents b = []" using inv by (auto simp: buf_inv_def bufSize_def contents_def block_def)
      with None inside off len inv show thesis
        by (intro that [of b b]) (simp_all add: bwritePtr_def bstore_def memcpyTo_def block_def bwrite_def bufSize_None)
    next
      case (Some blk)
      with inside n inv len show thesis
        by (intro that [of b "b\<lparr>mBuf := Some (bwrite off d ?blk)\<rparr>"])
          (simp_all add: bwritePtr_def bstore_ok contents_def take_bwrite_inside buf_inv_def)
    qed
  next
    case fits
    then have "mBuf b \<noteq> None" using bufSize_None [of b] by auto
    with fits off n inv len show thesis
      by (intro that [of "b\<lparr>mDataSize := ?n\<rparr>" "b\<lparr>mBuf := Some (bwrite off d ?blk), mDataSize := ?n\<rparr>"])
        (simp_all add: bwritePtr_def Let_def bstore_ok contents_def take_bwrite_grow buf_inv_def)
  next
    case grow
    show thesis
    proof (cases "mBuf b")
      case None
      then have z: "mDataSize b = 0" "off = 0" using inv off by (auto simp: buf_inv_def bufSize_None)
      with None grow len inv show thesis
        by (intro that [of "b\<lparr>mBuf := Some (mallocB fr ?n), mDataSize := ?n\<rparr>"
              "b\<lparr>mBuf := Some (bwrite 0 d (mallocB fr ?n)), mDataSize := ?n\<rparr>"])
          (simp_all add: bwritePtr_def Let_def breserve_def bufSize_None bstore_def memcpyTo_def block_def
            contents_def buf_inv_def bwrite_def bufSize_def)
    next
      case (Some blk)
      let ?m = "mDataSize b + ?n"
      let ?blk' = "reallocB fr (Some blk) ?m"
      have t: "take (mDataSize b) ?blk' = take (mDataSize b) blk"
        using n Some by (simp add: bufSize_def take_reallocB)
      from Some grow off n inv len t show thesis
        by (intro that [of "b\<lparr>mBuf := Some ?blk', mDataSize := ?n\<rparr>"
              "b\<lparr>mBuf := Some (bwrite off d ?blk'), mDataSize := ?n\<rparr>"])
          (simp_all add: bwritePtr_def breserve_def Let_def bstore_ok contents_def take_bwrite_grow
            buf_inv_def bufSize_def block_def)
    qed
  qed
qed


lemma readPtr_ok [simp, buf_simps]:
  "off + len \<le> length bs \<Longrightarrow> length bs < size_max \<Longrightarrow> readPtr bs off len = Inr (slice bs off len)"
  by (simp add: readPtr_def)

lemma readPtr_range:
  "length bs < off + len \<Longrightarrow> off + len < size_max \<Longrightarrow> readPtr bs off len = Inl RangeError"
  by (simp add: readPtr_def)

lemma readPtr_Inr: "readPtr bs off len = Inr d \<Longrightarrow> off + len \<le> length bs \<and> d = slice bs off len"
  by (auto simp: readPtr_def split: if_splits)

lemma reads_ok [buf_simps]:
  assumes "length bs < size_max"
  shows "off + 1 \<le> length bs \<Longrightarrow> read8 bs off = Inr (word_of_nat (of_le (slice bs off 1)))"
    and "off + 2 \<le> length bs \<Longrightarrow> read16 bs off = Inr (word_of_nat (of_le (slice bs off 2)))"
    and "off + 4 \<le> length bs \<Longrightarrow> read32 bs off = Inr (word_of_nat (of_le (slice bs off 4)))"
    and "off + 8 \<le> length bs \<Longrightarrow> read64 bs off = Inr (word_of_nat (of_le (slice bs off 8)))"
  using assms by (simp_all add: read8_def read16_def read32_def read64_def)

lemma bassign_refines:
  assumes "length d < size_max" "buf_inv b"
  obtains b' where "bassign fr b d = Inr b'" "buf_inv b'" "contents b' = d"
proof -
  have new: "\<exists>b'. bindR (memcpyTo (mallocB fr (if kMinBufSize > length d then kMinBufSize else length d)) 0 d)
      (\<lambda>blk'. Inr \<lparr>mBuf = Some blk', mDataSize = length d\<rparr>) = Inr b' \<and> buf_inv b' \<and> contents b' = d"
    using assms by (auto simp: memcpyTo_def bwrite_def buf_inv_def bufSize_def contents_def block_def)
  have "\<exists>b'. bassign fr b d = Inr b' \<and> buf_inv b' \<and> contents b' = d"
  proof (cases "mBuf b")
    case None
    with new show ?thesis by (simp add: bassign_def)
  next
    case (Some blk)
    show ?thesis
    proof (cases "length d \<le> length blk")
      case True
      with Some assms show ?thesis
        by (auto simp: bassign_def memcpyTo_def bwrite_def buf_inv_def bufSize_def contents_def block_def)
    next
      case False
      with Some new show ?thesis by (simp add: bassign_def)
    qed
  qed
  then show thesis using that by blast
qed

lemma bsetDataSize_refines:
  assumes "buf_inv b" "n \<le> mDataSize b"
  obtains b' where "bsetDataSize b n = Inr b'" "buf_inv b'" "contents b' = take n (contents b)"
  using assms by (intro that [of "b\<lparr>mDataSize := n\<rparr>"])
    (simp_all add: bsetDataSize_def buf_inv_def contents_def min_def)

lemma breserve_refines:
  assumes "buf_inv b" "mDataSize b + n < size_max"
  obtains b' where "breserve fr b n = Inr b'" "buf_inv b'" "contents b' = contents b"
    "mDataSize b + n \<le> bufSize b'"
proof (cases "mBuf b")
  case None
  with assms show thesis
    by (intro that [of "b\<lparr>mBuf := Some (mallocB fr n)\<rparr>"])
      (simp_all add: breserve_def buf_inv_def bufSize_None contents_def block_def)
next
  case (Some blk)
  show thesis
  proof (cases "mDataSize b + n \<le> length blk")
    case True
    with Some assms show thesis
      by (intro that [of b]) (simp_all add: breserve_def bufSize_def)
  next
    case False
    with Some assms show thesis
      by (intro that [of "b\<lparr>mBuf := Some (reallocB fr (Some blk) (mDataSize b + n))\<rparr>"])
        (simp_all add: breserve_def buf_inv_def bufSize_def contents_def block_def take_reallocB)
  qed
qed

section \<open>The interface the wire formats are built on\<close>

text \<open>
  A store of bytes written at offsets: the contract of \<open>Buffer::write\<close>.  Everything the commands
  do to a buffer is a chain of such writes, most of them appends.
\<close>

locale byte_store =
  fixes cont :: "'b \<Rightarrow> bytes"
    and inv :: "'b \<Rightarrow> bool"
    and wr :: "'b \<Rightarrow> nat \<Rightarrow> bytes \<Rightarrow> 'b res"
  assumes write_ok: "inv b \<Longrightarrow> off \<le> length (cont b) \<Longrightarrow> off + length d < size_max \<Longrightarrow>
    \<exists>b'. wr b off d = Inr b' \<and> inv b' \<and> cont b' = bwrite off d (cont b)"
begin

lemma write_end:
  assumes "inv b" "length (cont b) + length d < size_max"
  obtains b' where "wr b (length (cont b)) d = Inr b'" "inv b'" "cont b' = cont b @ d"
  using write_ok [of b "length (cont b)" d] assms by auto

lemma write_chain:
  assumes "inv b" "length (cont b) + length (concat ds) < size_max"
  shows "\<exists>b'. foldl (\<lambda>r d. bindR r (\<lambda>b. wr b (length (cont b)) d)) (Inr b) ds = Inr b'
           \<and> inv b' \<and> cont b' = cont b @ concat ds"
  using assms
proof (induction ds arbitrary: b)
  case Nil
  then show ?case by simp
next
  case (Cons d ds)
  then have "length (cont b) + length d < size_max" by simp
  with Cons.prems(1) obtain b' where b': "wr b (length (cont b)) d = Inr b'" "inv b'" "cont b' = cont b @ d"
    by (rule write_end)
  with Cons.prems Cons.IH [of b'] show ?case by simp
qed

lemma write_read:
  assumes "inv b" "off \<le> length (cont b)" "off + length d < size_max"
  shows "\<exists>b'. wr b off d = Inr b' \<and> slice (cont b') off (length d) = d"
  using write_ok [OF assms] assms(2) by auto

end

interpretation buf: byte_store contents buf_inv "bwriteData fr" for fr
proof unfold_locales
  fix b off and d :: bytes
  assume "buf_inv b" "off \<le> length (contents b)" "off + length d < size_max"
  then show "\<exists>b'. bwriteData fr b off d = Inr b' \<and> buf_inv b' \<and> contents b' = bwrite off d (contents b)"
    using bwriteData_refines [of b off d fr] by auto
qed

text \<open>A chain of \<open>append\<close> calls.\<close>

definition bappendAll :: "fresh \<Rightarrow> Buf \<Rightarrow> bytes list \<Rightarrow> Buf res" where
  "bappendAll fr b ds = foldl (\<lambda>r d. bindR r (\<lambda>b. bappend fr b d)) (Inr b) ds"

lemma bappendAll_chain:
  assumes "buf_inv b" "mDataSize b + length (concat ds) < size_max"
  shows "\<exists>b'. bappendAll fr b ds = Inr b' \<and> buf_inv b' \<and> contents b' = contents b @ concat ds"
  using assms
proof (induction ds arbitrary: b)
  case Nil
  then show ?case by (simp add: bappendAll_def)
next
  case (Cons d ds)
  then have "length (contents b) + length d < size_max" by simp
  with Cons.prems(1) obtain b' where b': "bwriteData fr b (length (contents b)) d = Inr b'" "buf_inv b'"
      "contents b' = contents b @ d"
    by (rule buf.write_end)
  have "mDataSize b' = mDataSize b + length d"
    using b' Cons.prems(1) length_contents [of b'] by simp
  with Cons.prems Cons.IH [of b'] b' show ?case by (simp add: bappendAll_def bappend_def)
qed


section \<open>Properties\<close>

text \<open>
  C19: \<open>Buffer::write\<close> at an offset inside or at the end of the data never fails, keeps the data
  inside the allocated block and has exactly the effect of overwriting the byte sequence, whatever
  fresh memory \<open>realloc\<close> returns; bytes before the offset and after the written run are kept.
\<close>
theorem buffer_write_refines:
  assumes "buf_inv b" "off \<le> mDataSize b" "off + length d < size_max"
  shows "\<exists>b'. bwriteData fr b off d = Inr b' \<and> buf_inv b' \<and>
    contents b' = take off (contents b) @ d @ drop (off + length d) (contents b)"
  using bwriteData_refines [OF assms, of fr] by (metis bwrite_def)

theorem buffer_write_refines_witness:
  "\<exists>b'. bwriteData (\<lambda>_. 7) \<lparr>mBuf = Some [1, 2, 3], mDataSize = 2\<rparr> 1 [8, 9, 10] = Inr b' \<and>
     contents b' = [1, 8, 9, 10]"
  using buffer_write_refines [of "\<lparr>mBuf = Some [1, 2, 3], mDataSize = 2\<rparr>" 1 "[8, 9, 10]" "\<lambda>_. 7"]
  by (auto simp: buf_inv_def bufSize_def contents_def block_def)

text \<open>
  The range check of \<open>readPtr\<close> is exact unless the sum of offset and length wraps around
  \<open>size_t\<close>: it lets a read outside the data through exactly when the wrapped sum falls back inside.
\<close>
theorem readPtr_safety:
  "(off + len < size_max \<longrightarrow> readPtr bs off len =
      (if off + len \<le> length bs then Inr (slice bs off len) else Inl RangeError)) \<and>
   (readPtr bs off len = Inl OutOfBounds \<longleftrightarrow>
      length bs < off + len \<and> (off + len) mod size_max \<le> length bs)"
  by (auto simp: readPtr_def szadd_def split: if_splits)

theorem readPtr_safety_witness: "readPtr [1, 2] 1 1 = Inr [2] \<and> readPtr [1, 2] (2 ^ 64 - 1) 2 = Inl OutOfBounds"
  using readPtr_safety [of 1 1 "[1, 2]"] readPtr_safety [of "2 ^ 64 - 1" 2 "[1, 2]"]
  by (simp add: slice_def)

end
