(* ===== verification/KarereId.thy ===== *)
theory KarereId
  imports Base64url Buffer
begin

text \<open>
  The 64-bit handles of \<open>src/karereId.h\<close>: their textual form (base64 of the object representation),
  the byte-level order used for compatibility with the web client, and sets of handles with their
  serialised form.
\<close>

type_synonym Id = u64

definition Id_null :: Id where "Id_null = 0"

definition Id_inval :: Id where "Id_inval = NOT 0"

definition Id_isValid :: "Id \<Rightarrow> bool" where "Id_isValid i \<longleftrightarrow> i \<noteq> Id_inval"

definition Id_isNull :: "Id \<Rightarrow> bool" where "Id_isNull i \<longleftrightarrow> i = Id_null"

definition Id_toString :: "Id \<Rightarrow> nat \<Rightarrow> string" where
  "Id_toString i len = base64urlencode (take len (le64 i))"

text \<open>
  The constructor from text does not initialise \<open>val\<close>: bytes that the decoder does not fill keep
  what the memory held, the argument \<open>fr\<close>.
\<close>

definition Id_ofString :: "fresh \<Rightarrow> string \<Rightarrow> Id res" where
  "Id_ofString fr s = bindR (base64urldecode s 8)
     (\<lambda>d. Inr (word_of_nat (of_le (bwrite 0 d (map fr [0..<8])))))"

definition Id_COMMANDER :: Id where "Id_COMMANDER = 0xB4FC9D5386453C81"

text \<open>\<open>memcmp\<close> on the object representations, returning whether the result is positive.\<close>

fun memcmp_gt :: "bytes \<Rightarrow> bytes \<Rightarrow> bool" where
  "memcmp_gt (x # xs) (y # ys) = (if x = y then memcmp_gt xs ys else x > y)"
| "memcmp_gt _ _ = False"

definition greaterThanForJs :: "Id \<Rightarrow> Id \<Rightarrow> bool" where
  "greaterThanForJs a b = memcmp_gt (le64 a) (le64 b)"

section \<open>Sets of handles\<close>

text \<open>\<open>std::set\<close> iterates in increasing order of the handles.\<close>

definition SetOfIds_save :: "Id set \<Rightarrow> bytes" where
  "SetOfIds_save S = concat (map le64 (sorted_list_of_set S))"

fun SetOfIds_loop :: "bytes \<Rightarrow> Id set" where
  "SetOfIds_loop (a # b # c # d # e # f # g # h # rest) =
     insert (word_of_nat (of_le [a, b, c, d, e, f, g, h])) (SetOfIds_loop rest)"
| "SetOfIds_loop _ = {}"

definition SetOfIds_load :: "bytes \<Rightarrow> Id set res" where
  "SetOfIds_load bs = (if length bs mod 8 \<noteq> 0 then Inl AssertFail else Inr (SetOfIds_loop bs))"

definition SetOfIds_has :: "Id set \<Rightarrow> Id \<Rightarrow> bool" where
  "SetOfIds_has S i \<longleftrightarrow> i \<in> S"

section \<open>Lemmas\<close>

lemma word_of_le64 [simp]: "word_of_nat (of_le (le64 w)) = w"
  by simp

lemma Id_ofString_toString: "Id_ofString fr (Id_toString i 8) = Inr i"
  by (simp add: Id_ofString_def Id_toString_def base64urldecode_encode bwrite_def)

lemma memcmp_gt_of_be: "length xs = length ys \<Longrightarrow> memcmp_gt xs ys \<longleftrightarrow> of_be xs > of_be ys"
proof (induction xs ys rule: list_induct2)
  case Nil
  then show ?case by simp
next
  case (Cons x xs y ys)
  have app: "of_le (as @ [z]) = of_le as + 256 ^ length as * unat z" for as z
    by (induction as) (auto simp: algebra_simps)
  have bnd: "of_le (rev xs) < 256 ^ length xs" "of_le (rev ys) < 256 ^ length xs"
    using of_le_less [of "rev xs"] of_le_less [of "rev ys"] Cons.hyps by simp_all
  show ?case
  proof (cases "x = y")
    case True
    with Cons show ?thesis by (simp add: of_be_def app)
  next
    case False
    have step: "of_le (rev b) + 256 ^ length xs * unat v < of_le (rev a) + 256 ^ length xs * unat u"
      if "v < u" "of_le (rev b) < 256 ^ length xs" for a b and u v :: byte
    proof -
      have "Suc (unat v) \<le> unat u" using that(1) by (simp add: word_less_nat_alt)
      then have "256 ^ length xs * Suc (unat v) \<le> (256::nat) ^ length xs * unat u" by (rule mult_le_mono2)
      with that(2) show ?thesis by simp
    qed
    from False consider "y < x" | "x < y" by fastforce
    then show ?thesis
    proof cases
      case 1
      with step [of y x ys xs] bnd Cons.hyps False show ?thesis by (simp add: of_be_def app)
    next
      case 2
      with step [of x y xs ys] bnd Cons.hyps False show ?thesis by (simp add: of_be_def app)
    qed
  qed
qed

lemma list8: "length xs = 8 \<Longrightarrow> \<exists>a b c d e f g h. xs = [a, b, c, d, e, f, g, h]"
  by (auto simp: numeral_eq_Suc length_Suc_conv)

lemma le64_split: "\<exists>a b c d e f g h. le64 w = [a, b, c, d, e, f, g, h]"
  by (rule list8) simp

lemma SetOfIds_loop_le64 [simp]: "SetOfIds_loop (le64 w @ rest) = insert w (SetOfIds_loop rest)"
proof -
  obtain a b c d e f g h where eq: "le64 w = [a, b, c, d, e, f, g, h]" using le64_split by blast
  then have "word_of_nat (of_le [a, b, c, d, e, f, g, h]) = w" using word_of_le64 [of w] by simp
  then show ?thesis by (simp add: eq)
qed

lemma SetOfIds_loop_concat: "SetOfIds_loop (concat (map le64 xs)) = set xs"
  by (induction xs) auto

lemma length_concat_le64: "length (concat (map le64 xs)) = 8 * length xs"
  by (induction xs) auto

lemma SetOfIds_load_save: "finite S \<Longrightarrow> SetOfIds_load (SetOfIds_save S) = Inr S"
  by (simp add: SetOfIds_load_def SetOfIds_save_def SetOfIds_loop_concat length_concat_le64)

interpretation id_text: codec "\<lambda>i. Id_toString i 8" "\<lambda>s. okOpt (Id_ofString fr s)" "\<lambda>_. True" for fr
  by unfold_locales (simp add: Id_ofString_toString)

interpretation id_set: codec SetOfIds_save "\<lambda>bs. okOpt (SetOfIds_load bs)" finite
  by unfold_locales (simp add: SetOfIds_load_save)

section \<open>Properties\<close>

text \<open>
  Handles survive their textual form whatever the uninitialised memory held, distinct handles
  have distinct texts, and the handle of the API (COMMANDER) is the one its literal denotes.
\<close>
theorem Id_text_roundtrip:
  "Id_ofString fr (Id_toString i 8) = Inr i \<and> (Id_toString i 8 = Id_toString j 8 \<longleftrightarrow> i = j) \<and>
   Id_ofString fr ''gTxFhlOd_LQ'' = Inr Id_COMMANDER"
proof (intro conjI)
  show "Id_ofString fr (Id_toString i 8) = Inr i" by (rule Id_ofString_toString)
  show "Id_toString i 8 = Id_toString j 8 \<longleftrightarrow> i = j" using id_text.enc_inject [of i j] by simp
  have "le64 Id_COMMANDER = [0x81, 0x3c, 0x45, 0x86, 0x53, 0x9d, 0xfc, 0xb4]"
    by (simp add: le64_def Id_COMMANDER_def to_le_numeral)
  moreover have "base64urlencode [0x81, 0x3c, 0x45, 0x86, 0x53, 0x9d, 0xfc, 0xb4] = ''gTxFhlOd_LQ''"
    by code_simp
  ultimately have "Id_toString Id_COMMANDER 8 = ''gTxFhlOd_LQ''"
    by (simp add: Id_toString_def)
  then show "Id_ofString fr ''gTxFhlOd_LQ'' = Inr Id_COMMANDER"
    using Id_ofString_toString [of fr Id_COMMANDER] by simp
qed

text \<open>
  The order shared with the web client is the numeric order of the handles read as big-endian
  numbers, hence a strict total order on handles.
\<close>
theorem greaterThanForJs_order:
  "(greaterThanForJs a b \<longleftrightarrow> of_be (le64 a) > of_be (le64 b)) \<and>
   (greaterThanForJs a b \<noteq> greaterThanForJs b a \<longleftrightarrow> a \<noteq> b)"
proof -
  have inj: "of_be (le64 a) = of_be (le64 b) \<longleftrightarrow> a = b"
  proof -
    have "to_le 8 (of_le (rev (le64 w))) = rev (le64 w)" for w by simp
    then have "of_be (le64 a) = of_be (le64 b) \<Longrightarrow> rev (le64 a) = rev (le64 b)"
      by (metis of_be_def)
    then show ?thesis by auto
  qed
  have "greaterThanForJs x y \<longleftrightarrow> of_be (le64 x) > of_be (le64 y)" for x y
    by (simp add: greaterThanForJs_def memcmp_gt_of_be)
  with inj show ?thesis by (metis linorder_neqE_nat order_less_imp_not_less)
qed

end
