(* ===== verification/Tlv.thy ===== *)
theory Tlv
  imports Buffer
begin

text \<open>
  The type-length-value containers of \<open>src/strongvelope/tlvstore.h\<close>.  The parser keeps an offset,
  \<open>Buffer::kNotFound\<close> once the container is exhausted; the writer appends records to a buffer.
  Shown: parsing terminates, the records read lie inside the container, and reading what was
  written gives the records back as long as only the last one is longer than 16 bits can say.
\<close>

record TlvRecord =
  tlvType :: byte
  dataOffset :: nat
  dataLen :: nat

definition kNotFound :: nat where "kNotFound = 2 ^ 64 - 1"

definition validateDataLen :: "TlvRecord \<Rightarrow> nat \<Rightarrow> unit res" where
  "validateDataLen r expected = (if dataLen r \<noteq> expected
     then Inl (RuntimeError ''parseMessageContent: Unexpected length of TLV record'') else Inr ())"

definition tlvBuf :: "bytes \<Rightarrow> TlvRecord \<Rightarrow> bytes" where
  "tlvBuf src r = slice src (dataOffset r) (dataLen r)"

definition tlvRead8 :: "bytes \<Rightarrow> TlvRecord \<Rightarrow> byte res" where
  "tlvRead8 src r = bindR (validateDataLen r 1) (\<lambda>_. read8 src (dataOffset r))"

definition tlvRead32 :: "bytes \<Rightarrow> TlvRecord \<Rightarrow> u32 res" where
  "tlvRead32 src r = bindR (validateDataLen r 4) (\<lambda>_. read32 src (dataOffset r))"

definition tlvRead64 :: "bytes \<Rightarrow> TlvRecord \<Rightarrow> u64 res" where
  "tlvRead64 src r = bindR (validateDataLen r 8) (\<lambda>_. read64 src (dataOffset r))"

text \<open>
  \<open>getRecord\<close> returns the record, or \<open>None\<close> at the end, with the new offset.  The length field is
  read in network byte order; the value \<open>0xffff\<close> means the rest of the container.
\<close>

definition getRecord :: "bytes \<Rightarrow> nat \<Rightarrow> (TlvRecord option \<times> nat) res" where
  "getRecord src off =
    (if off = kNotFound then Inr (None, off)
     else bindR (read8 src off) (\<lambda>t.
          bindR (readPtr src (szadd off 1) 2) (\<lambda>lenbytes.
          let dOff = off + 1 + 2; valueLen = of_be lenbytes;
              r = \<lparr>tlvType = t, dataOffset = dOff,
                   dataLen = (if valueLen = 0xffff then szsub (length src) dOff else valueLen)\<rparr>;
              off' = (if valueLen = 0xffff then length src else dOff + dataLen r)
          in if off' > length src
             then Inl (RuntimeError ''TlvContainer::getRecord: Corrupt data - spans outside of physical buffer'')
             else Inr (Some r, if off' = length src then kNotFound else off'))))"

lemma getRecord_progress:
  assumes "getRecord src off = Inr (Some r, off')"
  shows "off + 3 \<le> dataOffset r + dataLen r" "dataOffset r = off + 3"
    and "off' = kNotFound \<or> off + 3 \<le> off' \<and> off' < length src"
    and "off < length src" "off \<noteq> kNotFound"
  using assms
  by (auto simp: getRecord_def read8_def bindR_Inr_iff Let_def szadd_def
      dest!: readPtr_Inr split: if_splits)

lemma getRecord_inside:
  assumes "getRecord src off = Inr (Some r, off')" "length src < size_max"
  shows "dataOffset r + dataLen r \<le> length src"
proof -
  have "off < length src" using getRecord_progress(4) [OF assms(1)] .
  then have "szadd off 1 = off + 1" using assms(2) by simp
  with assms show ?thesis
    by (auto simp: getRecord_def bindR_Inr_iff Let_def dest!: readPtr_Inr split: if_splits)
qed

text \<open>The loop of every reader: all records of a container, with their payloads.\<close>

function parseAll :: "bytes \<Rightarrow> nat \<Rightarrow> (byte \<times> bytes) list res" where
  "parseAll src off =
    (case getRecord src off of
       Inl e \<Rightarrow> Inl e
     | Inr (None, off') \<Rightarrow> Inr []
     | Inr (Some r, off') \<Rightarrow>
         bindR (parseAll src off') (\<lambda>rs. Inr ((tlvType r, tlvBuf src r) # rs)))"
  by pat_completeness auto
termination
proof (relation "measure (\<lambda>(src, off). if off = kNotFound then 0 else Suc (length src - off))")
  fix src off x and b and r :: "TlvRecord option" and off' and r'
  assume g: "getRecord src off = Inr b" and p: "(r, off') = b" and s: "r = Some r'"
  then have "getRecord src off = Inr (Some r', off')" by simp
  from getRecord_progress(3-5) [OF this]
  show "((src, off'), src, off) \<in> measure (\<lambda>(src, off). if off = kNotFound then 0 else Suc (length src - off))"
    by auto
qed simp

declare parseAll.simps [simp del]

section \<open>Writing\<close>

definition addRecord :: "byte \<Rightarrow> bytes \<Rightarrow> bytes \<Rightarrow> bytes" where
  "addRecord t v buf = buf @ [t] @ (if length v \<ge> 0xffff then [0xff, 0xff] else be16 (length v)) @ v"

definition addRecordPod :: "byte \<Rightarrow> bytes \<Rightarrow> bytes \<Rightarrow> bytes" where
  "addRecordPod t v buf = buf @ [t] @ be16 (length v) @ v"

definition writeAll :: "(byte \<times> bytes) list \<Rightarrow> bytes" where
  "writeAll rs = foldl (\<lambda>b (t, v). addRecord t v b) [] rs"

text \<open>The records the format can hold: at least one, and only the last may be long.\<close>

definition tlv_wf :: "(byte \<times> bytes) list \<Rightarrow> bool" where
  "tlv_wf rs \<longleftrightarrow> rs \<noteq> [] \<and> (\<forall>(t, v) \<in> set (butlast rs). length v < 0xffff) \<and>
     length (writeAll rs) < kNotFound"

section \<open>Lemmas\<close>

lemma addRecord_buf: "addRecord t v buf = buf @ addRecord t v []"
  by (simp add: addRecord_def)

lemma foldl_addRecord: "foldl (\<lambda>b (t, v). addRecord t v b) buf rs = buf @ writeAll rs"
proof (induction rs arbitrary: buf rule: rev_induct)
  case Nil
  then show ?case by (simp add: writeAll_def)
next
  case (snoc r rs)
  obtain t v where "r = (t, v)" by (cases r)
  with snoc [of buf] snoc [of "[]"] show ?case by (simp add: writeAll_def addRecord_def)
qed

lemma writeAll_Cons: "writeAll ((t, v) # rs) = addRecord t v [] @ writeAll rs"
  using foldl_addRecord [of "addRecord t v []" rs] by (simp add: writeAll_def)

lemma writeAll_Nil [simp]: "writeAll [] = []"
  by (simp add: writeAll_def)

lemma length_addRecord [simp]: "length (addRecord t v []) = 3 + length v"
  by (simp add: addRecord_def)

lemma writeAll_not_Nil: "rs \<noteq> [] \<Longrightarrow> writeAll rs \<noteq> []"
  by (cases rs) (auto simp: writeAll_Cons addRecord_def split: prod.splits)

lemma of_be_ffff: "of_be [0xff, 0xff] = 0xffff"
  by (simp add: of_be_def)

lemma getRecord_eq:
  assumes "read8 src off = Inr t" "readPtr src (szadd off 1) 2 = Inr lb" "off \<noteq> kNotFound"
    "len = (if of_be lb = 0xffff then length src - (off + 3) else of_be lb)"
    "off + 3 + len \<le> length src" "length src < size_max"
  shows "getRecord src off = Inr (Some \<lparr>tlvType = t, dataOffset = off + 3, dataLen = len\<rparr>,
     if off + 3 + len = length src then kNotFound else off + 3 + len)"
  using assms by (auto simp: getRecord_def Let_def add.commute add.left_commute)

lemma getRecord_written:
  assumes "length pre + 3 + length v + length post < kNotFound" "length v < 0xffff \<or> post = []"
  shows "getRecord (pre @ addRecord t v [] @ post) (length pre) =
    Inr (Some \<lparr>tlvType = t, dataOffset = length pre + 3, dataLen = length v\<rparr>,
         if post = [] then kNotFound else length pre + 3 + length v)"
proof -
  let ?src = "pre @ addRecord t v [] @ post"
  let ?lb = "if length v \<ge> 0xffff then [0xff, 0xff] else be16 (length v)"
  have len: "length ?src < size_max" "length ?src = length pre + 3 + length v + length post"
    using assms by (simp_all add: kNotFound_def)
  have "length pre + 3 + length v = length ?src \<longleftrightarrow> post = []" using len by auto
  moreover have "getRecord ?src (length pre) =
      Inr (Some \<lparr>tlvType = t, dataOffset = length pre + 3, dataLen = length v\<rparr>,
        if length pre + 3 + length v = length ?src then kNotFound else length pre + 3 + length v)"
  proof (rule getRecord_eq)
    show "read8 ?src (length pre) = Inr t"
      using len by (simp add: reads_ok slice_append_skip addRecord_def slice_def)
    show "readPtr ?src (szadd (length pre) 1) 2 = Inr ?lb"
      using len by (auto simp: addRecord_def slice_def be16_def)
    show "length v = (if of_be ?lb = 0xffff then length ?src - (length pre + 3) else of_be ?lb)"
      using assms(2) len(2) by (auto simp: of_be_ffff)
  qed (use assms len in auto)
  ultimately show ?thesis by simp
qed

lemma parseAll_written:
  assumes "rs \<noteq> []" "\<forall>(t, v) \<in> set (butlast rs). length v < 0xffff"
    "length pre + length (writeAll rs) < kNotFound"
  shows "parseAll (pre @ writeAll rs) (length pre) = Inr rs"
  using assms
proof (induction rs arbitrary: pre)
  case Nil
  then show ?case by simp
next
  case (Cons r rs)
  obtain t v where r: "r = (t, v)" by (cases r)
  let ?src = "pre @ addRecord t v [] @ writeAll rs"
  have src: "pre @ writeAll (r # rs) = ?src" by (simp add: r writeAll_Cons)
  have g: "getRecord ?src (length pre) =
    Inr (Some \<lparr>tlvType = t, dataOffset = length pre + 3, dataLen = length v\<rparr>,
         if writeAll rs = [] then kNotFound else length pre + 3 + length v)"
    using Cons.prems by (intro getRecord_written) (auto simp: r writeAll_Cons split: if_splits)
  have pay: "tlvBuf ?src \<lparr>tlvType = t, dataOffset = length pre + 3, dataLen = length v\<rparr> = v"
    by (simp add: tlvBuf_def addRecord_def slice_def)
  show ?case
  proof (cases "rs = []")
    case True
    have "parseAll ?src kNotFound = Inr []"
      by (subst parseAll.simps) (simp add: getRecord_def)
    then show ?thesis using pay True unfolding src parseAll.simps [of ?src "length pre"] g
      by (simp add: r)
  next
    case False
    have "parseAll ((pre @ addRecord t v []) @ writeAll rs) (length (pre @ addRecord t v [])) = Inr rs"
      using Cons.prems False by (intro Cons.IH) (auto simp: r writeAll_Cons)
    then show ?thesis unfolding src parseAll.simps [of ?src "length pre"] g
      using writeAll_not_Nil [OF False] by (simp add: pay r add.assoc)
  qed
qed

lemma parseAll_writeAll: "tlv_wf rs \<Longrightarrow> parseAll (writeAll rs) 0 = Inr rs"
  using parseAll_written [of rs "[]"] by (simp add: tlv_wf_def)

interpretation tlv: codec writeAll "\<lambda>src. okOpt (parseAll src 0)" tlv_wf
  by unfold_locales (simp add: parseAll_writeAll)

lemma parseAll_empty: "parseAll [] 0 = Inl RangeError"
  by (subst parseAll.simps)
    (simp add: getRecord_def kNotFound_def read8_def readPtr_def szadd_def)

section \<open>Properties\<close>

text \<open>
  Reading a container gives back exactly the records that were written to it, in order, when
  every record but the last is shorter than \<open>0xffff\<close> bytes; hence the encoding is injective.
\<close>
theorem tlv_roundtrip:
  assumes "tlv_wf rs"
  shows "parseAll (writeAll rs) 0 = Inr rs \<and> (tlv_wf rs' \<longrightarrow> (writeAll rs = writeAll rs' \<longleftrightarrow> rs = rs'))"
  using parseAll_writeAll [OF assms] tlv.enc_inject [OF assms, of rs'] by simp

theorem tlv_roundtrip_witness:
  "parseAll [1, 0, 2, 7, 8, 3, 0, 0] 0 = Inr [(1, [7, 8]), (3, [])]"
proof -
  have w: "writeAll [(1, [7, 8]), (3, [])] = [1, 0, 2, 7, 8, 3, 0, 0]"
    by (simp add: writeAll_def addRecord_def be16_def to_le_numeral)
  have "tlv_wf [(1, [7, 8]), (3, [])]" by (simp add: tlv_wf_def w kNotFound_def)
  from tlv_roundtrip [OF this] show ?thesis by (simp add: w)
qed

text \<open>
  Every record the parser accepts lies inside the container, and the next offset is strictly
  behind it or the end marker, so that reading a container terminates.
\<close>
theorem getRecord_bounds:
  assumes "length src < size_max" "getRecord src off = Inr (Some r, off')"
  shows "dataOffset r = off + 3 \<and> dataOffset r + dataLen r \<le> length src \<and>
    (off' = kNotFound \<or> off < off' \<and> off' < length src)"
  using getRecord_progress [OF assms(2)] getRecord_inside [OF assms(2,1)] by auto

theorem getRecord_bounds_witness:
  "\<exists>r off'. getRecord [1, 0, 2, 7, 8, 3, 0, 0] 0 = Inr (Some r, off') \<and> dataOffset r + dataLen r \<le> 8"
proof -
  have "getRecord [1, 0, 2, 7, 8, 3, 0, 0] 0 =
      Inr (Some \<lparr>tlvType = 1, dataOffset = 3, dataLen = 2\<rparr>, 5)"
    by (simp add: getRecord_def kNotFound_def reads_ok slice_def Let_def of_be_def)
  from getRecord_bounds [OF _ this] this show ?thesis by auto
qed

text \<open>
  A record of \<open>0xffff\<close> bytes or more that is not the last one swallows the records written after
  it: the reader returns a single record.  The assertion that guards against this in the writer
  is dead code, since the flag it tests is only set when \<open>NODEBUG\<close> is defined.
\<close>
theorem tlv_long_record_swallows:
  assumes "0xffff \<le> length v" "length (writeAll ((t, v) # rs)) < kNotFound"
  shows "parseAll (writeAll ((t, v) # rs)) 0 = Inr [(t, v @ writeAll rs)]"
proof -
  have eq: "writeAll ((t, v) # rs) = writeAll [(t, v @ writeAll rs)]"
    using assms(1) by (simp add: writeAll_Cons addRecord_def)
  show ?thesis unfolding eq
    by (rule parseAll_writeAll) (use assms eq in \<open>simp add: tlv_wf_def\<close>)
qed

theorem tlv_long_record_swallows_witness:
  "\<exists>rs. length rs = 2 \<and> (\<exists>r. parseAll (writeAll rs) 0 = Inr [r])"
proof -
  let ?v = "replicate 65535 0 :: bytes"
  have "length (writeAll [(1, ?v), (2, [])]) < kNotFound"
    by (simp add: writeAll_Cons kNotFound_def)
  then have "parseAll (writeAll [(1, ?v), (2, [])]) 0 = Inr [(1, ?v @ writeAll [(2, [])])]"
    by (intro tlv_long_record_swallows) simp_all
  then show ?thesis by (intro exI [of _ "[(1, ?v), (2, [])]"] conjI exI) simp_all
qed

end
