(* ===== verification/Url.thy ===== *)
theory Url
  imports Buffer
begin

text \<open>
  The URL parser of \<open>src/url.cpp\<close>, which every server connection goes through.  \<open>std::stol\<close> is
  modelled as the C++ library defines it: leading white space, an optional sign, decimal digits,
  anything after them ignored; it throws when there is no digit or the value is not a \<open>long\<close>.
\<close>

record Url =
  protocol :: string
  host :: string
  port :: u16
  path :: string
  isSecure :: bool

section \<open>Library functions\<close>

definition tolower :: "char \<Rightarrow> char" where
  "tolower c = (let n = (of_char c :: nat) in if 65 \<le> n \<and> n \<le> 90 then char_of (n + 32) else c)"

fun isPrefix :: "'a list \<Rightarrow> 'a list \<Rightarrow> bool" where
  "isPrefix [] ys = True"
| "isPrefix (x # xs) [] = False"
| "isPrefix (x # xs) (y # ys) = (x = y \<and> isPrefix xs ys)"

fun findSub :: "'a list \<Rightarrow> 'a list \<Rightarrow> nat option" where
  "findSub p [] = (if p = [] then Some 0 else None)"
| "findSub p (x # xs) = (if isPrefix p (x # xs) then Some 0 else map_option Suc (findSub p xs))"

definition isSpace :: "char \<Rightarrow> bool" where
  "isSpace c \<longleftrightarrow> (let n = (of_char c :: nat) in n = 32 \<or> 9 \<le> n \<and> n \<le> 13)"

definition isDigit :: "char \<Rightarrow> bool" where
  "isDigit c \<longleftrightarrow> (let n = (of_char c :: nat) in 48 \<le> n \<and> n \<le> 57)"

definition digits_val :: "string \<Rightarrow> nat" where
  "digits_val = foldl (\<lambda>v c. 10 * v + (of_char c - 48)) 0"

definition stol :: "string \<Rightarrow> int res" where
  "stol s =
    (let s1 = dropWhile isSpace s;
         neg = (s1 \<noteq> [] \<and> hd s1 = CHR ''-'');
         s2 = (if s1 \<noteq> [] \<and> (hd s1 = CHR ''-'' \<or> hd s1 = CHR ''+'') then tl s1 else s1);
         ds = takeWhile isDigit s2;
         v = (if neg then - int (digits_val ds) else int (digits_val ds))
     in if ds = [] then Inl (RuntimeError ''stol: invalid argument'')
        else if v < - (2 ^ 63) \<or> 2 ^ 63 \<le> v then Inl (RuntimeError ''stol: out of range'')
        else Inr v)"

section \<open>Parsing\<close>

definition getPortFromProtocol :: "string \<Rightarrow> u16" where
  "getPortFromProtocol p =
    (if p = ''http'' \<or> p = ''ws'' then 80
     else if p = ''https'' \<or> p = ''wss'' then 443
     else 0)"

definition isSecureProtocol :: "string \<Rightarrow> bool" where
  "isSecureProtocol p \<longleftrightarrow> p = ''https'' \<or> p = ''wss''"

definition pathStart :: "char \<Rightarrow> bool" where
  "pathStart c \<longleftrightarrow> c = CHR ''/'' \<or> c = CHR ''?''"

definition hostStop :: "char \<Rightarrow> bool" where
  "hostStop c \<longleftrightarrow> c = CHR '':'' \<or> pathStart c"

text \<open>
  The scan of what follows the protocol: the host as far as the loop sets it (empty when there is
  no port part), the port, the text consumed and the text left.
\<close>

definition scanAuthority :: "string \<Rightarrow> (string \<times> u16 \<times> string \<times> string) res" where
  "scanAuthority s =
    (let h = takeWhile (\<lambda>c. \<not> hostStop c) s; r = dropWhile (\<lambda>c. \<not> hostStop c) s
     in if r \<noteq> [] \<and> hd r = CHR '':''
        then let ps = takeWhile (\<lambda>c. \<not> pathStart c) (tl r); r' = dropWhile (\<lambda>c. \<not> pathStart c) (tl r)
             in bindR (stol ps) (\<lambda>p. Inr (h, word_of_int p, h @ CHR '':'' # ps, r'))
        else Inr ([], 0, h, r))"

definition Url_parse :: "string \<Rightarrow> Url res" where
  "Url_parse url =
    (if url = [] then Inl (RuntimeError ''Url::Parse: Url is empty'')
     else
       let (proto, rest) = (case findSub ''://'' url of
             Some ss \<Rightarrow> (map tolower (take ss url), drop (ss + 3) url)
           | None \<Rightarrow> (''http'', url))
       in bindR (scanAuthority rest) (\<lambda>(h, p, consumed, r).
          let h' = (if h = [] then consumed else h);
              pth = (if r \<noteq> [] then (if hd r = CHR ''/'' then tl r else r) else []);
              p' = (if p = 0 then getPortFromProtocol proto else p)
          in if h' = [] then Inl (RuntimeError ''Url::parse: Invalid URL, host is empty'')
             else Inr \<lparr>protocol = proto, host = h', port = p', path = pth, isSecure = isSecureProtocol proto\<rparr>))"

definition Url_ofHost :: "string \<Rightarrow> string \<Rightarrow> Url" where
  "Url_ofHost aHost aProtocol =
    \<lparr>protocol = aProtocol, host = aHost, port = getPortFromProtocol aProtocol, path = [],
     isSecure = isSecureProtocol aProtocol\<rparr>"

definition Url_isValid :: "Url \<Rightarrow> bool" where
  "Url_isValid u \<longleftrightarrow> host u \<noteq> []"

definition Url_differs :: "Url \<Rightarrow> Url \<Rightarrow> bool" where
  "Url_differs u v \<longleftrightarrow> host u \<noteq> host v \<or> protocol u \<noteq> protocol v \<or> port u \<noteq> port v \<or> path u \<noteq> path v"

section \<open>Lemmas\<close>

lemma findSub_proto: "CHR '':'' \<notin> set p \<Longrightarrow> findSub ''://'' (p @ ''://'' @ r) = Some (length p)"
  by (induction p) auto

lemma digits_val_snoc: "digits_val (ds @ [d]) = 10 * digits_val ds + (of_char d - 48)"
  by (simp add: digits_val_def)

lemma of_char_digit: "n < 10 \<Longrightarrow> of_char (char_of (48 + n :: nat)) = (48 + n :: nat)"
  by simp

lemma showNat_digits: "digits_val (showNat n) = n \<and> showNat n \<noteq> [] \<and> (\<forall>c \<in> set (showNat n). isDigit c)"
proof (induction n rule: showNat.induct)
  case (1 n)
  show ?case
  proof (cases "n < 10")
    case True
    then show ?thesis by (subst (1 2 3) showNat.simps) (simp add: digits_val_def isDigit_def)
  next
    case False
    with "1.IH" have IH: "digits_val (showNat (n div 10)) = n div 10"
      "\<forall>c \<in> set (showNat (n div 10)). isDigit c" by simp_all
    have "n mod 10 < 10" by simp
    then show ?thesis using False IH
      by (subst (1 2 3) showNat.simps) (simp add: digits_val_snoc isDigit_def)
  qed
qed

lemma isDigit_not_special:
  "isDigit c \<Longrightarrow> \<not> isSpace c \<and> c \<noteq> CHR ''-'' \<and> c \<noteq> CHR ''+'' \<and> \<not> pathStart c \<and> c \<noteq> CHR '':''"
  by (auto simp: isDigit_def isSpace_def Let_def pathStart_def)

lemma stol_showNat:
  assumes "n < 2 ^ 63" shows "stol (showNat n) = Inr (int n)"
proof -
  have d: "\<forall>c \<in> set (showNat n). isDigit c" "showNat n \<noteq> []" "digits_val (showNat n) = n"
    using showNat_digits [of n] by simp_all
  then obtain c cs where c: "showNat n = c # cs" by (cases "showNat n") auto
  with d have h: "\<not> isSpace c" "c \<noteq> CHR ''-''" "c \<noteq> CHR ''+''"
    using isDigit_not_special [of c] by auto
  have t: "takeWhile isDigit cs = cs" unfolding takeWhile_eq_all_conv using d c by simp
  from c h d assms show ?thesis by (simp add: stol_def Let_def t)
qed

lemma takeWhile_stop: "\<forall>c \<in> set h. P c \<Longrightarrow> \<not> P x \<Longrightarrow> takeWhile P (h @ x # r) = h \<and> dropWhile P (h @ x # r) = x # r"
  by (induction h) auto

lemma scanAuthority_port:
  assumes "\<forall>c \<in> set h. \<not> hostStop c" "n < 2 ^ 63"
  shows "scanAuthority (h @ '':'' @ showNat n @ ''/'' @ p) =
    Inr (h, word_of_nat n, h @ '':'' @ showNat n, CHR ''/'' # p)"
proof -
  have "\<forall>c \<in> set (showNat n). \<not> pathStart c"
    using showNat_digits [of n] isDigit_not_special by blast
  then have 1: "takeWhile (\<lambda>c. \<not> pathStart c) (showNat n @ CHR ''/'' # p) = showNat n"
    "dropWhile (\<lambda>c. \<not> pathStart c) (showNat n @ CHR ''/'' # p) = CHR ''/'' # p"
    using takeWhile_stop [of "showNat n" "\<lambda>c. \<not> pathStart c" "CHR ''/''" p] by (simp_all add: pathStart_def)
  have 2: "takeWhile (\<lambda>c. \<not> hostStop c) (h @ CHR '':'' # r) = h"
    "dropWhile (\<lambda>c. \<not> hostStop c) (h @ CHR '':'' # r) = CHR '':'' # r" for r
    using takeWhile_stop [of h "\<lambda>c. \<not> hostStop c" "CHR '':''" r] assms(1) by (simp_all add: hostStop_def)
  show ?thesis using assms(2) by (simp add: scanAuthority_def Let_def 1 2 stol_showNat)
qed

lemma scanAuthority_noport:
  assumes "\<forall>c \<in> set h. \<not> hostStop c"
  shows "scanAuthority (h @ ''/'' @ p) = Inr ([], 0, h, CHR ''/'' # p)" and "scanAuthority h = Inr ([], 0, h, [])"
proof -
  have "takeWhile (\<lambda>c. \<not> hostStop c) (h @ CHR ''/'' # p) = h"
    "dropWhile (\<lambda>c. \<not> hostStop c) (h @ CHR ''/'' # p) = CHR ''/'' # p"
    using takeWhile_stop [of h "\<lambda>c. \<not> hostStop c" "CHR ''/''" p] assms
    by (simp_all add: hostStop_def pathStart_def)
  then show "scanAuthority (h @ ''/'' @ p) = Inr ([], 0, h, CHR ''/'' # p)"
    by (simp add: scanAuthority_def Let_def)
  have "takeWhile (\<lambda>c. \<not> hostStop c) h = h" "dropWhile (\<lambda>c. \<not> hostStop c) h = []"
    using assms by (simp_all add: takeWhile_eq_all_conv dropWhile_eq_Nil_conv)
  then show "scanAuthority h = Inr ([], 0, h, [])" by (simp add: scanAuthority_def)
qed

lemma Url_parse_proto:
  "CHR '':'' \<notin> set p \<Longrightarrow> Url_parse (p @ ''://'' @ r) =
    bindR (scanAuthority r) (\<lambda>(h, q, consumed, s).
      if (if h = [] then consumed else h) = [] then Inl (RuntimeError ''Url::parse: Invalid URL, host is empty'')
      else Inr \<lparr>protocol = map tolower p, host = (if h = [] then consumed else h),
        port = (if q = 0 then getPortFromProtocol (map tolower p) else q),
        path = (if s \<noteq> [] then (if hd s = CHR ''/'' then tl s else s) else []),
        isSecure = isSecureProtocol (map tolower p)\<rparr>)"
  using findSub_proto [of p r] by (simp add: Url_parse_def Let_def)

section \<open>Properties\<close>

text \<open>
  A URL made of a protocol, a non-empty host, a decimal port and a path is taken apart into these
  parts; the port is reduced modulo \<open>65536\<close> and, when that gives zero, replaced by the default port
  of the protocol; without a port part the default port is used.
\<close>
theorem Url_parse_components:
  assumes "CHR '':'' \<notin> set p" "h \<noteq> []" "\<forall>c \<in> set h. \<not> hostStop c" "n < 2 ^ 63"
  shows "Url_parse (p @ ''://'' @ h @ '':'' @ showNat n @ ''/'' @ pth) =
      Inr \<lparr>protocol = map tolower p, host = h,
        port = (if n mod 65536 = 0 then getPortFromProtocol (map tolower p) else word_of_nat n),
        path = pth, isSecure = isSecureProtocol (map tolower p)\<rparr> \<and>
    Url_parse (p @ ''://'' @ h @ ''/'' @ pth) =
      Inr \<lparr>protocol = map tolower p, host = h, port = getPortFromProtocol (map tolower p), path = pth,
        isSecure = isSecureProtocol (map tolower p)\<rparr>"
proof -
  have z: "(word_of_nat n :: u16) = 0 \<longleftrightarrow> n mod 65536 = 0"
    by (simp add: word_of_nat_eq_0_iff mod_eq_0_iff_dvd)
  show ?thesis
    unfolding Url_parse_proto [OF assms(1)] scanAuthority_port [OF assms(3,4)] scanAuthority_noport(1) [OF assms(3)]
    using assms(2) by (simp add: z)
qed

theorem Url_parse_components_witness:
  "Url_parse ''WSS://a.b:443/x?y'' =
     Inr \<lparr>protocol = ''wss'', host = ''a.b'', port = 443, path = ''x?y'', isSecure = True\<rparr>"
proof -
  have s: "showNat 443 = ''443''" by (simp add: showNat.simps char_of_def bit_simps)
  show ?thesis
    using Url_parse_components [of "''WSS''" "''a.b''" 443 "''x?y''"]
    by (simp add: s hostStop_def pathStart_def tolower_def isSecureProtocol_def char_of_def bit_simps)
qed

text \<open>
  The check for an empty host does not cover a URL with a port: there the host becomes the port
  part itself, colon included, and the URL is accepted.
\<close>
theorem Url_parse_empty_host:
  assumes "CHR '':'' \<notin> set p" "n < 2 ^ 63"
  shows "\<exists>u. Url_parse (p @ ''://'' @ '':'' @ showNat n @ ''/'' @ pth) = Inr u \<and> host u = '':'' @ showNat n"
  using Url_parse_proto [OF assms(1), of "'':'' @ showNat n @ ''/'' @ pth"]
    scanAuthority_port [of "[]" n pth] assms(2) by simp

theorem Url_parse_empty_host_witness:
  "\<exists>u. Url_parse ''ws://:80/x'' = Inr u \<and> host u = '':80''"
proof -
  have s: "showNat 80 = ''80''" by (simp add: showNat.simps char_of_def bit_simps)
  show ?thesis using Url_parse_empty_host [of "''ws''" 80 "''x''"] by (simp add: s)
qed

end
