(* ===== verification/RetryHandler.thy ===== *)
theory RetryHandler
  imports Prelude
begin

text \<open>
  The retry controller of \<open>src/base/retryHandler.h\<close>, which runs every promise-returning operation
  that has to be repeated until it succeeds (server logins, connections, fetches).  The record holds
  the members of the controller; each operation returns the new state and the actions it performs
  on the outside world.  The callbacks of timers and of the attempt's promise are operations of
  their own.  The environment, an inductive step relation, decides which one comes next.
\<close>

datatype RetryState = kStateNotStarted | kStateInProgress | kStateRetryWait | kStateFinished

definition isRunning :: "RetryState \<Rightarrow> bool" where
  "isRunning s \<longleftrightarrow> s = kStateInProgress \<or> s = kStateRetryWait"

text \<open>\<open>mTimer\<close>: none, the delay before the next attempt, or the time limit of an attempt.\<close>

datatype Timer = NoTimer | DelayTimer | AttemptTimer nat

record RC =
  mState :: RetryState
  mCurrentAttemptNo :: nat
  mCurrentAttemptId :: nat
  mTimer :: Timer
  mRestart :: nat
  mMaxAttemptCount :: nat
  mAttemptTimeout :: u32
  mMaxAttemptTimeout :: u32
  mMaxSingleWaitTime :: nat
  mDelayRandPct :: nat
  mInitialWaitTime :: u16
  mAutoDestruct :: bool
  mDeleted :: bool

datatype Action = SetTimeout nat | CancelTimeout | CallFunc nat nat | CallCancelFunc
  | Resolve | Reject string | FreshPromise

abbreviation kBitness :: nat where "kBitness \<equiv> 22"
abbreviation kDefaultAttemptTimeoutBias :: u32 where "kDefaultAttemptTimeoutBias \<equiv> 2000"

definition newRetryController :: "u32 \<Rightarrow> u32 \<Rightarrow> nat \<Rightarrow> nat \<Rightarrow> u16 \<Rightarrow> bool \<Rightarrow> RC" where
  "newRetryController attemptTimeout maxAttemptTimeout maxSingleWaitTime maxAttemptCount backoffStart autoDestruct =
    \<lparr>mState = kStateNotStarted, mCurrentAttemptNo = 0, mCurrentAttemptId = 0, mTimer = NoTimer,
     mRestart = 0, mMaxAttemptCount = maxAttemptCount, mAttemptTimeout = attemptTimeout,
     mMaxAttemptTimeout = maxAttemptTimeout, mMaxSingleWaitTime = maxSingleWaitTime,
     mDelayRandPct = 20, mInitialWaitTime = backoffStart, mAutoDestruct = autoDestruct, mDeleted = False\<rparr>"

section \<open>Backoff times\<close>

text \<open>The product is computed in 32 unsigned bits.\<close>

definition calcAttemptTimeoutNoRandomness :: "RC \<Rightarrow> u32" where
  "calcAttemptTimeoutNoRandomness c =
    (if mCurrentAttemptNo c > kBitness
     then (if mAttemptTimeout c = 0 then 0 else mMaxAttemptTimeout c)
     else let t = push_bit (mCurrentAttemptNo c - 1) 1 * mAttemptTimeout c + kDefaultAttemptTimeoutBias
          in if t \<le> mMaxAttemptTimeout c then t else mMaxAttemptTimeout c)"

text \<open>
  The product is computed as a signed 32-bit \<open>int\<close> and converted to \<open>size_t\<close>; a signed overflow,
  undefined in C++, is taken to wrap around.
\<close>

definition calcWaitTimeNoRandomness :: "RC \<Rightarrow> nat" where
  "calcWaitTimeNoRandomness c =
    (if mCurrentAttemptNo c > kBitness
     then (if mInitialWaitTime c = 0 then 0 else mMaxSingleWaitTime c)
     else let p = push_bit (mCurrentAttemptNo c - 1) 1 * (ucast (mInitialWaitTime c) :: u32);
              t = nat (sint p mod 2 ^ 64)
          in if t \<le> mMaxSingleWaitTime c then t else mMaxSingleWaitTime c)"

definition calcWaitTime :: "RC \<Rightarrow> nat \<Rightarrow> nat" where
  "calcWaitTime c rand =
    (let t = calcWaitTimeNoRandomness c; randRange = (t * mDelayRandPct c) div 100
     in t - randRange + (rand mod 1000) * (randRange * 2) div 1000)"

section \<open>Operations\<close>

type_synonym rcResult = "(RC \<times> Action list) res"

definition cancelTimer :: "RC \<Rightarrow> RC \<times> Action list" where
  "cancelTimer c = (if mTimer c = NoTimer then (c, []) else (c\<lparr>mTimer := NoTimer\<rparr>, [CancelTimeout]))"

definition nextTry :: "RC \<Rightarrow> rcResult" where
  "nextTry c =
    (if \<not> (mState c = kStateRetryWait \<or> mState c = kStateNotStarted) then Inl AssertFail
     else if mTimer c \<noteq> NoTimer then Inl AssertFail
     else let attempt = mCurrentAttemptId c;
              (c1, a1) = (if mAttemptTimeout c \<noteq> 0
                then (c\<lparr>mTimer := AttemptTimer attempt\<rparr>, [SetTimeout (unat (calcAttemptTimeoutNoRandomness c))])
                else (c, []))
          in Inr (c1\<lparr>mState := kStateInProgress\<rparr>, a1 @ [CallFunc (mCurrentAttemptNo c) attempt]))"

definition rcStart :: "RC \<Rightarrow> nat \<Rightarrow> rcResult" where
  "rcStart c delay =
    (if mState c \<noteq> kStateNotStarted
     then Inl (RuntimeError ''RetryController: Already started or not reset after finished'')
     else if mTimer c \<noteq> NoTimer then Inl AssertFail
     else let c1 = c\<lparr>mCurrentAttemptId := mCurrentAttemptId c + 1, mCurrentAttemptNo := 1\<rparr>
          in if delay \<noteq> 0
             then Inr (c1\<lparr>mState := kStateRetryWait, mTimer := DelayTimer\<rparr>, [SetTimeout delay])
             else nextTry c1)"

text \<open>
  The cancel function may call back into the controller: it is the argument \<open>cf\<close>, \<open>None\<close> for a
  controller created without one.
\<close>

definition callCancel :: "(RC \<Rightarrow> RC) option \<Rightarrow> RC \<Rightarrow> RC \<times> Action list" where
  "callCancel cf c = (case cf of None \<Rightarrow> (c, []) | Some f \<Rightarrow> (f c, [CallCancelFunc]))"

definition destroyIfAuto :: "RC \<Rightarrow> RC" where
  "destroyIfAuto c = (if mAutoDestruct c then c\<lparr>mDeleted := True\<rparr> else c)"

definition rcAbort :: "(RC \<Rightarrow> RC) option \<Rightarrow> RC \<Rightarrow> bool \<times> RC \<times> Action list" where
  "rcAbort cf c =
    (if \<not> isRunning (mState c) then (False, c, [])
     else let (c1, a1) = cancelTimer c;
              (c2, a2) = (if mState c1 = kStateInProgress then callCancel cf c1 else (c1, []))
          in (True, destroyIfAuto c2, a1 @ a2 @ [Reject ''aborted'', FreshPromise]))"

definition rcReset :: "RC \<Rightarrow> rcResult" where
  "rcReset c =
    (if mState c = kStateNotStarted then Inr (c, [])
     else if mState c \<noteq> kStateFinished
     then Inl (RuntimeError ''RetryController::reset: Can't reset while in progress'')
     else if mTimer c \<noteq> NoTimer then Inl AssertFail
     else Inr (c\<lparr>mCurrentAttemptNo := 0, mState := kStateNotStarted\<rparr>, [FreshPromise]))"

definition rcRestart :: "RC \<Rightarrow> nat \<Rightarrow> rcResult" where
  "rcRestart c delay =
    (if mState c = kStateFinished then Inl (RuntimeError ''restart: Already in finished state'')
     else if mState c = kStateInProgress then Inr (c\<lparr>mRestart := (if delay \<noteq> 0 then delay else 1)\<rparr>, [])
     else let (c1, a1) = cancelTimer c
          in bindR (rcStart (c1\<lparr>mState := kStateNotStarted\<rparr>) delay) (\<lambda>(c2, a2). Inr (c2, a1 @ a2)))"

definition schedNextRetry :: "RC \<Rightarrow> string \<Rightarrow> nat \<Rightarrow> rcResult" where
  "schedNextRetry c err rand =
    (if mTimer c \<noteq> NoTimer then Inl AssertFail
     else if mRestart c \<noteq> 0
     then rcStart (c\<lparr>mRestart := 0, mState := kStateNotStarted\<rparr>) (mRestart c)
     else let c1 = c\<lparr>mCurrentAttemptNo := mCurrentAttemptNo c + 1, mCurrentAttemptId := mCurrentAttemptId c + 1\<rparr>
          in if mMaxAttemptCount c \<noteq> 0 \<and> mCurrentAttemptNo c1 > mMaxAttemptCount c
             then Inr (destroyIfAuto (c1\<lparr>mState := kStateFinished\<rparr>), [Reject err, FreshPromise])
             else Inr (c1\<lparr>mState := kStateRetryWait, mTimer := DelayTimer\<rparr>, [SetTimeout (calcWaitTime c1 rand)]))"

section \<open>Callbacks\<close>

definition onDelayTimer :: "RC \<Rightarrow> rcResult" where
  "onDelayTimer c = (if mDeleted c then Inr (c, []) else nextTry (c\<lparr>mTimer := NoTimer\<rparr>))"

definition onAttemptTimeout :: "(RC \<Rightarrow> RC) option \<Rightarrow> RC \<Rightarrow> nat \<Rightarrow> nat \<Rightarrow> rcResult" where
  "onAttemptTimeout cf c attempt rand =
    (if mDeleted c then Inr (c, [])
     else if attempt \<noteq> mCurrentAttemptId c then Inl AssertFail
     else let (c1, a1) = callCancel cf (c\<lparr>mTimer := NoTimer\<rparr>)
          in if mCurrentAttemptId c1 \<noteq> mCurrentAttemptId c then Inr (c1, a1)
             else bindR (schedNextRetry c1 ''timeout'' rand) (\<lambda>(c2, a2). Inr (c2, a1 @ a2)))"

definition onSuccess :: "RC \<Rightarrow> nat \<Rightarrow> rcResult" where
  "onSuccess c attempt =
    (if mDeleted c then Inl (RuntimeError ''deleted'')
     else if attempt \<noteq> mCurrentAttemptId c
     then Inr (c, [Reject ''Retry controller previous attempt succeeded''])
     else let (c1, a1) = cancelTimer c
          in Inr (destroyIfAuto (c1\<lparr>mState := kStateFinished\<rparr>), a1 @ [Resolve, FreshPromise]))"

definition onFail :: "RC \<Rightarrow> nat \<Rightarrow> string \<Rightarrow> nat \<Rightarrow> rcResult" where
  "onFail c attempt err rand =
    (if attempt \<noteq> mCurrentAttemptId c then Inr (c, [])
     else if mAttemptTimeout c \<noteq> 0 then Inr (c, [])
     else let (c1, a1) = cancelTimer c
          in bindR (schedNextRetry c1 err rand) (\<lambda>(c2, a2). Inr (c2, a1 @ a2)))"

section \<open>Runs\<close>

text \<open>
  The ids of the attempts whose promise is still open are kept beside the controller: a promise
  settles once.  A timer fires only while it is set, and nothing happens to a deleted controller.
\<close>

definition started :: "Action list \<Rightarrow> nat set" where
  "started as = {i. \<exists>n. CallFunc n i \<in> set as}"

inductive rc_step :: "RC \<times> nat set \<Rightarrow> Action list \<Rightarrow> RC \<times> nat set \<Rightarrow> bool" where
  start: "\<not> mDeleted c \<Longrightarrow> rcStart c d = Inr (c', as) \<Longrightarrow> rc_step (c, P) as (c', P \<union> started as)"
| restart: "\<not> mDeleted c \<Longrightarrow> rcRestart c d = Inr (c', as) \<Longrightarrow> rc_step (c, P) as (c', P \<union> started as)"
| reset: "\<not> mDeleted c \<Longrightarrow> rcReset c = Inr (c', as) \<Longrightarrow> rc_step (c, P) as (c', P)"
| abort: "\<not> mDeleted c \<Longrightarrow> rcAbort None c = (b, c', as) \<Longrightarrow> rc_step (c, P) as (c', P)"
| delay: "\<not> mDeleted c \<Longrightarrow> mTimer c = DelayTimer \<Longrightarrow> onDelayTimer c = Inr (c', as) \<Longrightarrow>
    rc_step (c, P) as (c', P \<union> started as)"
| timeout: "\<not> mDeleted c \<Longrightarrow> mTimer c = AttemptTimer i \<Longrightarrow> onAttemptTimeout None c i r = Inr (c', as) \<Longrightarrow>
    rc_step (c, P) as (c', P \<union> started as)"
| success: "\<not> mDeleted c \<Longrightarrow> i \<in> P \<Longrightarrow> onSuccess c i = Inr (c', as) \<Longrightarrow> rc_step (c, P) as (c', P - {i})"
| fail: "\<not> mDeleted c \<Longrightarrow> i \<in> P \<Longrightarrow> onFail c i e r = Inr (c', as) \<Longrightarrow>
    rc_step (c, P) as (c', (P - {i}) \<union> started as)"

inductive_cases rc_stepE: "rc_step s as s'"

inductive rc_reachable :: "RC \<Rightarrow> RC \<times> nat set \<Rightarrow> bool" for c0 where
  init: "rc_reachable c0 (c0, {})"
| step: "rc_reachable c0 s \<Longrightarrow> rc_step s as s' \<Longrightarrow> rc_reachable c0 s'"

definition rc_inv :: "RC \<times> nat set \<Rightarrow> bool" where
  "rc_inv s \<longleftrightarrow> (case s of (c, P) \<Rightarrow>
     (mTimer c = DelayTimer \<longrightarrow> mState c = kStateRetryWait) \<and>
     (\<forall>i. mTimer c = AttemptTimer i \<longrightarrow> i = mCurrentAttemptId c \<and> mState c = kStateInProgress \<and> mAttemptTimeout c \<noteq> 0) \<and>
     (isRunning (mState c) \<longrightarrow> 1 \<le> mCurrentAttemptNo c \<and>
        (mMaxAttemptCount c \<noteq> 0 \<longrightarrow> mCurrentAttemptNo c \<le> mMaxAttemptCount c)) \<and>
     (\<forall>i \<in> P. i \<le> mCurrentAttemptId c) \<and>
     (mCurrentAttemptId c \<in> P \<longrightarrow> mState c = kStateInProgress))"

lemma started_simps [simp]:
  "started [] = {}"
  "started (a # as) = (case a of CallFunc n i \<Rightarrow> {i} | _ \<Rightarrow> {}) \<union> started as"
  "started (as @ bs) = started as \<union> started bs"
  by (auto simp: started_def split: Action.splits)

text \<open>Attempts in the allowed range, and only old attempts open: what a new attempt needs.\<close>

definition rc_ready :: "RC \<Rightarrow> nat set \<Rightarrow> bool" where
  "rc_ready c P \<longleftrightarrow> 1 \<le> mCurrentAttemptNo c \<and>
     (mMaxAttemptCount c \<noteq> 0 \<longrightarrow> mCurrentAttemptNo c \<le> mMaxAttemptCount c) \<and> (\<forall>i \<in> P. i \<le> mCurrentAttemptId c)"

lemma nextTry_inv [inv_intros]:
  "nextTry c = Inr (c', as) \<Longrightarrow> rc_ready c P \<Longrightarrow> rc_inv (c', P \<union> started as)"
  by (auto simp: nextTry_def rc_ready_def rc_inv_def Let_def split: if_splits)

lemma rcStart_inv [inv_intros]:
  assumes "rcStart c d = Inr (c', as)" "\<forall>i \<in> P. i \<le> mCurrentAttemptId c"
  shows "rc_inv (c', P \<union> started as)"
proof -
  let ?c = "c\<lparr>mCurrentAttemptId := mCurrentAttemptId c + 1, mCurrentAttemptNo := 1\<rparr>"
  have r: "rc_ready ?c P" using assms(2) by (auto simp: rc_ready_def)
  show ?thesis
  proof (cases "d = 0")
    case True
    with assms(1) have "nextTry ?c = Inr (c', as)" by (simp add: rcStart_def split: if_splits)
    then show ?thesis using r by (rule nextTry_inv)
  next
    case False
    with assms r show ?thesis
      by (auto simp: rcStart_def rc_inv_def isRunning_def split: if_splits)
  qed
qed

lemma schedNextRetry_inv [inv_intros]:
  assumes "schedNextRetry c e r = Inr (c', as)" "1 \<le> mCurrentAttemptNo c" "\<forall>i \<in> P. i \<le> mCurrentAttemptId c"
  shows "rc_inv (c', P \<union> started as)"
proof (cases "mRestart c = 0")
  case True
  with assms show ?thesis
    by (auto simp: schedNextRetry_def rc_inv_def isRunning_def destroyIfAuto_def Let_def split: if_splits)
next
  case False
  with assms(1) have "rcStart (c\<lparr>mRestart := 0, mState := kStateNotStarted\<rparr>) (mRestart c) = Inr (c', as)"
    by (simp add: schedNextRetry_def split: if_splits)
  then show ?thesis by (rule rcStart_inv) (use assms(3) in simp)
qed

lemma rcRestart_inv:
  assumes "rcRestart c d = Inr (c', as)" "rc_inv (c, P)"
  shows "rc_inv (c', P \<union> started as)"
proof (cases "mState c = kStateInProgress")
  case True
  with assms show ?thesis by (auto simp: rcRestart_def rc_inv_def)
next
  case False
  obtain c1 a1 where c1: "cancelTimer c = (c1, a1)" by (cases "cancelTimer c")
  then have s: "started a1 = {}" "mCurrentAttemptId c1 = mCurrentAttemptId c"
    by (auto simp: cancelTimer_def split: if_splits)
  from False assms(1) c1 obtain a2 where
    st: "rcStart (c1\<lparr>mState := kStateNotStarted\<rparr>) d = Inr (c', a2)" and as: "as = a1 @ a2"
    by (auto simp: rcRestart_def bindR_Inr_iff split: if_splits)
  have "rc_inv (c', P \<union> started a2)"
    by (rule rcStart_inv [OF st]) (use assms(2) s in \<open>simp add: rc_inv_def\<close>)
  then show ?thesis by (simp add: as s)
qed

lemma rcReset_inv: "rcReset c = Inr (c', as) \<Longrightarrow> rc_inv (c, P) \<Longrightarrow> rc_inv (c', P)"
  by (auto simp: rcReset_def rc_inv_def isRunning_def split: if_splits)

lemma rcAbort_inv: "rcAbort None c = (b, c', as) \<Longrightarrow> rc_inv (c, P) \<Longrightarrow> rc_inv (c', P)"
  by (auto simp: rcAbort_def rc_inv_def isRunning_def cancelTimer_def callCancel_def destroyIfAuto_def
      split: if_splits)

lemma onDelayTimer_inv:
  assumes "onDelayTimer c = Inr (c', as)" "\<not> mDeleted c" "mTimer c = DelayTimer" "rc_inv (c, P)"
  shows "rc_inv (c', P \<union> started as)"
proof -
  have "nextTry (c\<lparr>mTimer := NoTimer\<rparr>) = Inr (c', as)" using assms(1,2) by (simp add: onDelayTimer_def)
  then show ?thesis
    by (rule nextTry_inv) (use assms(3,4) in \<open>simp add: rc_inv_def rc_ready_def isRunning_def\<close>)
qed

lemma onAttemptTimeout_inv:
  assumes "onAttemptTimeout None c i r = Inr (c', as)" "\<not> mDeleted c" "mTimer c = AttemptTimer i" "rc_inv (c, P)"
  shows "rc_inv (c', P \<union> started as)"
proof -
  have "schedNextRetry (c\<lparr>mTimer := NoTimer\<rparr>) ''timeout'' r = Inr (c', as)"
    using assms(1,2) by (auto simp: onAttemptTimeout_def callCancel_def bindR_Inr_iff split: if_splits)
  then show ?thesis
    by (rule schedNextRetry_inv) (use assms(3,4) in \<open>auto simp: rc_inv_def isRunning_def\<close>)
qed

lemma onSuccess_inv:
  "onSuccess c i = Inr (c', as) \<Longrightarrow> i \<in> P \<Longrightarrow> rc_inv (c, P) \<Longrightarrow> rc_inv (c', P - {i})"
  by (auto simp: onSuccess_def rc_inv_def isRunning_def cancelTimer_def destroyIfAuto_def split: if_splits)

lemma onFail_inv:
  assumes "onFail c i e r = Inr (c', as)" "i \<in> P" "rc_inv (c, P)"
  shows "rc_inv (c', (P - {i}) \<union> started as)"
proof (cases "i \<noteq> mCurrentAttemptId c \<or> mAttemptTimeout c \<noteq> 0")
  case True
  with assms show ?thesis by (auto simp: onFail_def rc_inv_def split: if_splits)
next
  case False
  obtain c1 a1 where c1: "cancelTimer c = (c1, a1)" by (cases "cancelTimer c")
  then have s: "started a1 = {}" "mCurrentAttemptId c1 = mCurrentAttemptId c" "mCurrentAttemptNo c1 = mCurrentAttemptNo c"
    by (auto simp: cancelTimer_def split: if_splits)
  from False assms(1) c1 obtain a2 where st: "schedNextRetry c1 e r = Inr (c', a2)" and as: "as = a1 @ a2"
    by (auto simp: onFail_def bindR_Inr_iff split: if_splits)
  have "rc_inv (c', (P - {i}) \<union> started a2)"
    by (rule schedNextRetry_inv [OF st]) (use assms(2,3) False s in \<open>auto simp: rc_inv_def isRunning_def\<close>)
  then show ?thesis by (simp add: as s)
qed

lemma rc_step_inv:
  assumes "rc_step s as s'" "rc_inv s" shows "rc_inv s'"
  using assms
proof (cases rule: rc_step.cases)
  case (start c d c' P)
  with assms(2) have "\<forall>i \<in> P. i \<le> mCurrentAttemptId c" by (simp add: rc_inv_def)
  with start show ?thesis by (simp add: rcStart_inv)
next
  case (restart c d c' P)
  with assms(2) show ?thesis by (auto intro: rcRestart_inv)
next
  case (reset c c' P)
  with assms(2) show ?thesis by (auto intro: rcReset_inv)
next
  case (abort c b c' P)
  with assms(2) show ?thesis by (auto intro: rcAbort_inv)
next
  case (delay c c' P)
  with assms(2) show ?thesis by (auto intro: onDelayTimer_inv)
next
  case (timeout c i r c' P)
  with assms(2) show ?thesis by (auto intro: onAttemptTimeout_inv)
next
  case (success c i P c')
  with assms(2) show ?thesis by (auto intro: onSuccess_inv)
next
  case (fail c i P e r c')
  with assms(2) show ?thesis by (auto intro: onFail_inv)
qed


lemma rc_reachable_inv: "rc_reachable c0 s \<Longrightarrow> rc_inv (c0, {}) \<Longrightarrow> rc_inv s"
  by (induction rule: rc_reachable.induct) (auto intro: rc_step_inv)

lemma rc_inv_new: "rc_inv (newRetryController a b w m i d, {})"
  by (simp add: newRetryController_def rc_inv_def isRunning_def)

section \<open>Attempts\<close>

lemma nextTry_calls: "nextTry c = Inr (c', as) \<Longrightarrow> CallFunc n i \<in> set as \<Longrightarrow>
    n = mCurrentAttemptNo c' \<and> i = mCurrentAttemptId c' \<and> mState c' = kStateInProgress \<and> mCurrentAttemptId c' = mCurrentAttemptId c"
  by (auto simp: nextTry_def Let_def split: if_splits)

lemma rcStart_calls: "rcStart c d = Inr (c', as) \<Longrightarrow> CallFunc n i \<in> set as \<Longrightarrow>
    n = mCurrentAttemptNo c' \<and> i = mCurrentAttemptId c' \<and> mState c' = kStateInProgress \<and> mCurrentAttemptId c' = mCurrentAttemptId c + 1"
  by (auto simp: rcStart_def Let_def dest!: nextTry_calls split: if_splits)

lemma schedNextRetry_calls: "schedNextRetry c e r = Inr (c', as) \<Longrightarrow> CallFunc n i \<notin> set as"
  by (auto simp: schedNextRetry_def rcStart_def Let_def split: if_splits)

lemma rc_step_calls:
  "rc_step s as (c', P') \<Longrightarrow> CallFunc n i \<in> set as \<Longrightarrow>
    n = mCurrentAttemptNo c' \<and> i = mCurrentAttemptId c' \<and> mState c' = kStateInProgress"
  by (erule rc_step.cases)
    (auto simp: rcRestart_def rcReset_def rcAbort_def onDelayTimer_def onAttemptTimeout_def onSuccess_def
      onFail_def cancelTimer_def callCancel_def bindR_Inr_iff
      dest!: rcStart_calls nextTry_calls dest: schedNextRetry_calls split: if_splits)

section \<open>The assertions of the code\<close>

lemma rcStart_no_assert: "mTimer c = NoTimer \<Longrightarrow> rcStart c d \<noteq> Inl AssertFail"
  by (auto simp: rcStart_def nextTry_def Let_def split: prod.splits)

lemma schedNextRetry_no_assert: "mTimer c = NoTimer \<Longrightarrow> schedNextRetry c e r \<noteq> Inl AssertFail"
  by (auto simp: schedNextRetry_def Let_def rcStart_no_assert)

lemma rc_idle_no_timer: "rc_inv (c, P) \<Longrightarrow> \<not> isRunning (mState c) \<Longrightarrow> mTimer c = NoTimer"
  by (cases "mTimer c") (auto simp: rc_inv_def isRunning_def)

lemma bindR_Inl_iff: "bindR r f = Inl e \<longleftrightarrow> r = Inl e \<or> (\<exists>x. r = Inr x \<and> f x = Inl e)"
  by (cases r) auto

lemma rc_no_assert:
  assumes "rc_inv (c, P)" "\<not> mDeleted c"
  shows "rcStart c d \<noteq> Inl AssertFail" "rcRestart c d \<noteq> Inl AssertFail" "rcReset c \<noteq> Inl AssertFail"
    "mTimer c = DelayTimer \<Longrightarrow> onDelayTimer c \<noteq> Inl AssertFail"
    "mTimer c = AttemptTimer i \<Longrightarrow> onAttemptTimeout None c i r \<noteq> Inl AssertFail"
    "onSuccess c i \<noteq> Inl AssertFail" "onFail c i e r \<noteq> Inl AssertFail"
proof -
  show "rcStart c d \<noteq> Inl AssertFail"
    using rc_idle_no_timer [OF assms(1)] by (auto simp: rcStart_def nextTry_def isRunning_def Let_def split: prod.splits)
  show "rcRestart c d \<noteq> Inl AssertFail"
    by (auto simp: rcRestart_def cancelTimer_def bindR_Inl_iff rcStart_no_assert)
  show "rcReset c \<noteq> Inl AssertFail"
    using rc_idle_no_timer [OF assms(1)] by (auto simp: rcReset_def isRunning_def)
  show "mTimer c = DelayTimer \<Longrightarrow> onDelayTimer c \<noteq> Inl AssertFail"
    using assms by (auto simp: onDelayTimer_def nextTry_def rc_inv_def Let_def split: prod.splits)
  show "mTimer c = AttemptTimer i \<Longrightarrow> onAttemptTimeout None c i r \<noteq> Inl AssertFail"
    using assms by (auto simp: onAttemptTimeout_def callCancel_def rc_inv_def bindR_Inl_iff schedNextRetry_no_assert)
  show "onSuccess c i \<noteq> Inl AssertFail"
    by (simp add: onSuccess_def split: prod.splits)
  show "onFail c i e r \<noteq> Inl AssertFail"
    by (auto simp: onFail_def cancelTimer_def bindR_Inl_iff schedNextRetry_no_assert)
qed

section \<open>Backoff\<close>

lemma uint_of_nat_small: "n < 2 ^ 31 \<Longrightarrow> uint (word_of_nat n :: u32) = int n"
  by (simp add: unsigned_of_nat take_bit_nat_eq_self flip: uint_nat)

lemma nat_int_mod_size: "n < size_max \<Longrightarrow> nat (int n mod 2 ^ 64) = n"
  by simp

lemma sint_small_product:
  assumes "2 ^ k * unat w < 2 ^ 31" "k < 31"
  shows "sint (push_bit k 1 * (ucast (w :: u16) :: u32)) = int (2 ^ k * unat w)"
proof -
  have u: "uint (push_bit k 1 * (ucast w :: u32)) = int (2 ^ k * unat w)"
  proof -
    have "push_bit k 1 * (ucast w :: u32) = word_of_nat (2 ^ k * unat w)"
      by (simp add: push_bit_eq_mult)
    then show ?thesis using uint_of_nat_small [OF assms(1)] by (simp only:)
  qed
  have "sint (push_bit k 1 * (ucast w :: u32)) = signed_take_bit 31 (int (2 ^ k * unat w))"
    using u by (simp add: sint_uint)
  also have "\<dots> = int (2 ^ k * unat w)"
  proof (rule signed_take_bit_int_eq_self)
    show "- (2 ^ 31) \<le> int (2 ^ k * unat w)" by (rule order_trans [of _ 0]) simp_all
    show "int (2 ^ k * unat w) < 2 ^ 31" using assms(1) by (metis of_nat_less_iff of_nat_numeral of_nat_power)
  qed
  finally show ?thesis .
qed

lemma calcWaitTimeNoRandomness_eq:
  assumes "1 \<le> mCurrentAttemptNo c" "mCurrentAttemptNo c \<le> kBitness"
    "2 ^ (mCurrentAttemptNo c - 1) * unat (mInitialWaitTime c) < 2 ^ 31"
  shows "calcWaitTimeNoRandomness c = min (2 ^ (mCurrentAttemptNo c - 1) * unat (mInitialWaitTime c)) (mMaxSingleWaitTime c)"
proof -
  have s: "sint (push_bit (mCurrentAttemptNo c - 1) 1 * (ucast (mInitialWaitTime c) :: u32)) =
      int (2 ^ (mCurrentAttemptNo c - 1) * unat (mInitialWaitTime c))" (is "_ = int ?t")
    using assms by (intro sint_small_product) simp_all
  have n: "nat (sint (push_bit (mCurrentAttemptNo c - 1) 1 * (ucast (mInitialWaitTime c) :: u32)) mod 2 ^ 64) = ?t"
    unfolding s by (rule nat_int_mod_size) (rule less_trans [OF assms(3)], simp)
  have m: "(mCurrentAttemptNo c > kBitness) = False" using assms(2) by simp
  show ?thesis unfolding calcWaitTimeNoRandomness_def Let_def by (simp only: m if_False min_def n)
qed

lemma calcWaitTimeNoRandomness_le: "calcWaitTimeNoRandomness c \<le> mMaxSingleWaitTime c"
  by (simp add: calcWaitTimeNoRandomness_def Let_def)

section \<open>Properties\<close>

text \<open>
  C20: Whatever the environment does, a controller with a limit calls the operation only with attempt
  numbers from one up to the limit, an attempt that is called is the current one and has a fresh
  id, and the current attempt is open only while the controller is in progress.
\<close>
theorem rc_attempts_bounded:
  assumes "rc_reachable (newRetryController a b w m i d) s" "rc_step s as (c', P')" "CallFunc n k \<in> set as"
  shows "1 \<le> n \<and> (mMaxAttemptCount c' \<noteq> 0 \<longrightarrow> n \<le> mMaxAttemptCount c') \<and> k = mCurrentAttemptId c' \<and>
    mState c' = kStateInProgress \<and> (\<forall>j \<in> P'. j \<le> k)"
proof -
  have "rc_inv (c', P')"
    using rc_step_inv [OF assms(2) rc_reachable_inv [OF assms(1) rc_inv_new]] .
  with rc_step_calls [OF assms(2,3)] show ?thesis by (simp add: rc_inv_def isRunning_def)
qed

theorem rc_attempts_bounded_witness:
  "\<exists>c' P'. rc_step (newRetryController 0 10000 60000 3 1000 False, {}) [CallFunc 1 1] (c', P') \<and> (1::nat) \<le> 3"
proof -
  let ?c = "newRetryController 0 10000 60000 3 1000 False"
  obtain c' where c': "rcStart ?c 0 = Inr (c', [CallFunc 1 1])" "mMaxAttemptCount c' = 3"
    by (simp add: rcStart_def newRetryController_def nextTry_def)
  have st: "rc_step (?c, {}) [CallFunc 1 1] (c', {} \<union> started [CallFunc 1 1])"
    by (rule rc_step.start [OF _ c'(1)]) (simp add: newRetryController_def)
  from rc_attempts_bounded [OF rc_reachable.init st, of 1 1] c'(2) st show ?thesis by auto
qed

text \<open>
  C21: In every reachable state none of the assertions of the controller fails, whichever operation
  or callback runs next.
\<close>
theorem rc_assertions_hold:
  assumes "rc_reachable (newRetryController a b w m i d) (c, P)" "\<not> mDeleted c"
  shows "rcStart c dl \<noteq> Inl AssertFail \<and> rcRestart c dl \<noteq> Inl AssertFail \<and> rcReset c \<noteq> Inl AssertFail \<and>
    (mTimer c = DelayTimer \<longrightarrow> onDelayTimer c \<noteq> Inl AssertFail) \<and>
    (mTimer c = AttemptTimer k \<longrightarrow> onAttemptTimeout None c k r \<noteq> Inl AssertFail) \<and>
    onSuccess c k \<noteq> Inl AssertFail \<and> onFail c k e r \<noteq> Inl AssertFail"
  using rc_no_assert [OF rc_reachable_inv [OF assms(1) rc_inv_new] assms(2)] by blast

theorem rc_assertions_hold_witness:
  "rcReset (newRetryController 0 10000 60000 3 1000 False) \<noteq> Inl AssertFail"
  using rc_assertions_hold [OF rc_reachable.init, of 0 10000 60000 3 1000 False]
  by (simp add: newRetryController_def)

text \<open>
  The wait before the next attempt doubles with every attempt until it reaches the maximum, as
  long as the product fits a signed 32-bit integer, never exceeds the maximum, and the random part
  changes it by at most the configured percentage in either direction.
\<close>
theorem calcWaitTime_bounds:
  assumes "mDelayRandPct c \<le> 100"
  shows "let t = calcWaitTimeNoRandomness c; rr = t * mDelayRandPct c div 100; k = mCurrentAttemptNo c in
    t \<le> mMaxSingleWaitTime c \<and> t - rr \<le> calcWaitTime c r \<and> calcWaitTime c r \<le> t + rr \<and>
    (1 \<le> k \<and> k \<le> kBitness \<and> 2 ^ (k - 1) * unat (mInitialWaitTime c) < 2 ^ 31 \<longrightarrow>
      t = min (2 ^ (k - 1) * unat (mInitialWaitTime c)) (mMaxSingleWaitTime c))"
proof -
  define t rr where "t = calcWaitTimeNoRandomness c" and "rr = calcWaitTimeNoRandomness c * mDelayRandPct c div 100"
  have rr: "rr \<le> t"
  proof -
    have "t * mDelayRandPct c \<le> t * 100" using assms by simp
    then have "t * mDelayRandPct c div 100 \<le> t * 100 div 100" by (rule div_le_mono)
    then show ?thesis by (simp add: rr_def t_def)
  qed
  have "r mod 1000 * (rr * 2) div 1000 \<le> 1000 * (rr * 2) div 1000"
    by (intro div_le_mono mult_le_mono1) simp
  then have "r mod 1000 * (rr * 2) div 1000 \<le> rr * 2" by simp
  moreover have "calcWaitTime c r = t - rr + r mod 1000 * (rr * 2) div 1000"
    by (simp only: calcWaitTime_def Let_def rr_def t_def)
  ultimately have "t - rr \<le> calcWaitTime c r" "calcWaitTime c r \<le> t + rr"
    using rr by linarith+
  then show ?thesis using calcWaitTimeNoRandomness_le [of c] calcWaitTimeNoRandomness_eq [of c]
    by (simp only: Let_def t_def rr_def) blast
qed

theorem calcWaitTime_bounds_witness:
  "calcWaitTime ((newRetryController 0 10000 60000 3 1000 False)\<lparr>mCurrentAttemptNo := 3\<rparr>) 7 \<le> 4800"
proof -
  let ?c = "(newRetryController 0 10000 60000 3 1000 False)\<lparr>mCurrentAttemptNo := 3\<rparr>"
  have t: "calcWaitTimeNoRandomness ?c = 4000"
    using calcWaitTime_bounds [of ?c 7] by (simp add: newRetryController_def Let_def)
  show ?thesis using calcWaitTime_bounds [of ?c 7] unfolding t by (simp add: newRetryController_def Let_def)
qed

text \<open>
  Aborting does not stop a controller that survives the call: its promise is rejected but the
  state and the current attempt id stay as they were, so that when the running attempt fails
  afterwards the controller schedules another one.
\<close>
theorem rc_abort_does_not_stop:
  assumes "mState c = kStateInProgress" "mTimer c = NoTimer" "mAttemptTimeout c = 0" "mRestart c = 0"
    "mMaxAttemptCount c = 0" "\<not> mAutoDestruct c" "rcAbort None c = (b, c1, as1)"
  shows "b \<and> Reject ''aborted'' \<in> set as1 \<and>
    (\<exists>c2 t. onFail c1 (mCurrentAttemptId c) err r = Inr (c2, [SetTimeout t]) \<and> mState c2 = kStateRetryWait \<and>
      mTimer c2 = DelayTimer)"
  using assms
  by (auto simp: rcAbort_def isRunning_def cancelTimer_def callCancel_def destroyIfAuto_def onFail_def
      schedNextRetry_def Let_def)

theorem rc_abort_does_not_stop_witness:
  "\<exists>c b c1 as1 c2 t. rcAbort None c = (b, c1, as1) \<and> Reject ''aborted'' \<in> set as1 \<and>
     onFail c1 (mCurrentAttemptId c) ''err'' 0 = Inr (c2, [SetTimeout t])"
proof -
  let ?c = "(newRetryController 0 10000 60000 0 1000 False)\<lparr>mState := kStateInProgress, mCurrentAttemptNo := 1, mCurrentAttemptId := 1\<rparr>"
  obtain b c1 as1 where a: "rcAbort None ?c = (b, c1, as1)" by (cases "rcAbort None ?c")
  have "b \<and> Reject ''aborted'' \<in> set as1 \<and>
    (\<exists>c2 t. onFail c1 (mCurrentAttemptId ?c) ''err'' 0 = Inr (c2, [SetTimeout t]) \<and> mState c2 = kStateRetryWait \<and>
      mTimer c2 = DelayTimer)"
    by (rule rc_abort_does_not_stop [OF _ _ _ _ _ _ a]) (simp_all add: newRetryController_def)
  then show ?thesis using a by blast
qed

end
