(* ===== verification/ChatdTypes.thy ===== *)
theory ChatdTypes
  imports Buffer KarereId
begin

text \<open>
  The enumerations of the chatd protocol, \<open>src/chatdMsg.h\<close>: command opcodes, privilege levels,
  message types, delivery states and encryption states, with their wire values.
\<close>

section \<open>Key ids\<close>

type_synonym KeyId = u32
type_synonym BackRefId = u64

definition CHATD_KEYID_INVALID :: KeyId where "CHATD_KEYID_INVALID = 0"
definition CHATD_KEYID_MAX :: KeyId where "CHATD_KEYID_MAX = 0xffffffff"
definition CHATD_KEYID_MIN :: KeyId where "CHATD_KEYID_MIN = 0xffff0000"

definition isValidKeyxId :: "KeyId \<Rightarrow> bool" where
  "isValidKeyxId k \<longleftrightarrow> k \<le> CHATD_KEYID_MAX \<and> k \<ge> CHATD_KEYID_MIN"

definition isLocalKeyId :: "KeyId \<Rightarrow> bool" where
  "isLocalKeyId k \<longleftrightarrow> k \<ge> CHATD_KEYID_MIN"

lemma isValidKeyxId_eq: "isValidKeyxId k \<longleftrightarrow> isLocalKeyId k"
  using word_le_nat_alt [of k "0xffffffff"] unsigned_less [of k, where ?'a = nat]
  by (auto simp: isValidKeyxId_def isLocalKeyId_def CHATD_KEYID_MAX_def)

section \<open>Opcodes\<close>

datatype Opcode =
  OP_KEEPALIVE | OP_JOIN | OP_OLDMSG | OP_NEWMSG | OP_MSGUPD | OP_SEEN | OP_RECEIVED | OP_RETENTION |
  OP_HIST | OP_RANGE | OP_NEWMSGID | OP_REJECT | OP_BROADCAST | OP_HISTDONE | OP_NEWKEY | OP_NEWKEYID
  | OP_JOINRANGEHIST | OP_MSGUPDX | OP_MSGID | OP_CLIENTID | OP_RTMSG_BROADCAST | OP_RTMSG_USER |
  OP_RTMSG_ENDPOINT | OP_INCALL | OP_ENDCALL | OP_KEEPALIVEAWAY | OP_CALLDATA | OP_ECHO |
  OP_ADDREACTION | OP_DELREACTION | OP_HANDLEJOIN | OP_HANDLEJOINRANGEHIST | OP_SYNC | OP_CALLTIME |
  OP_NEWNODEMSG | OP_NODEHIST | OP_NUMBYHANDLE | OP_HANDLELEAVE | OP_REACTIONSN | OP_MSGIDTIMESTAMP |
  OP_NEWMSGIDTIMESTAMP | OP_JOINEDCALL | OP_LEFTCALL | OP_CALLSTATE | OP_CALLEND | OP_DELCALLREASON |
  OP_CALLREJECT | OP_RINGUSER | OP_INVALIDCODE

fun opcodeVal :: "Opcode \<Rightarrow> byte" where
  "opcodeVal OP_KEEPALIVE = 0"
| "opcodeVal OP_JOIN = 1"
| "opcodeVal OP_OLDMSG = 2"
| "opcodeVal OP_NEWMSG = 3"
| "opcodeVal OP_MSGUPD = 4"
| "opcodeVal OP_SEEN = 5"
| "opcodeVal OP_RECEIVED = 6"
| "opcodeVal OP_RETENTION = 7"
| "opcodeVal OP_HIST = 8"
| "opcodeVal OP_RANGE = 9"
| "opcodeVal OP_NEWMSGID = 10"
| "opcodeVal OP_REJECT = 11"
| "opcodeVal OP_BROADCAST = 12"
| "opcodeVal OP_HISTDONE = 13"
| "opcodeVal OP_NEWKEY = 17"
| "opcodeVal OP_NEWKEYID = 18"
| "opcodeVal OP_JOINRANGEHIST = 19"
| "opcodeVal OP_MSGUPDX = 20"
| "opcodeVal OP_MSGID = 21"
| "opcodeVal OP_CLIENTID = 24"
| "opcodeVal OP_RTMSG_BROADCAST = 25"
| "opcodeVal OP_RTMSG_USER = 26"
| "opcodeVal OP_RTMSG_ENDPOINT = 27"
| "opcodeVal OP_INCALL = 28"
| "opcodeVal OP_ENDCALL = 29"
| "opcodeVal OP_KEEPALIVEAWAY = 30"
| "opcodeVal OP_CALLDATA = 31"
| "opcodeVal OP_ECHO = 32"
| "opcodeVal OP_ADDREACTION = 33"
| "opcodeVal OP_DELREACTION = 34"
| "opcodeVal OP_HANDLEJOIN = 36"
| "opcodeVal OP_HANDLEJOINRANGEHIST = 37"
| "opcodeVal OP_SYNC = 38"
| "opcodeVal OP_CALLTIME = 42"
| "opcodeVal OP_NEWNODEMSG = 44"
| "opcodeVal OP_NODEHIST = 45"
| "opcodeVal OP_NUMBYHANDLE = 46"
| "opcodeVal OP_HANDLELEAVE = 47"
| "opcodeVal OP_REACTIONSN = 48"
| "opcodeVal OP_MSGIDTIMESTAMP = 49"
| "opcodeVal OP_NEWMSGIDTIMESTAMP = 50"
| "opcodeVal OP_JOINEDCALL = 51"
| "opcodeVal OP_LEFTCALL = 52"
| "opcodeVal OP_CALLSTATE = 53"
| "opcodeVal OP_CALLEND = 54"
| "opcodeVal OP_DELCALLREASON = 55"
| "opcodeVal OP_CALLREJECT = 58"
| "opcodeVal OP_RINGUSER = 59"
| "opcodeVal OP_INVALIDCODE = 255"

definition allOpcodes :: "Opcode list" where
  "allOpcodes = [
    OP_KEEPALIVE, OP_JOIN, OP_OLDMSG, OP_NEWMSG, OP_MSGUPD, OP_SEEN, OP_RECEIVED, OP_RETENTION, OP_HIST,
    OP_RANGE, OP_NEWMSGID, OP_REJECT, OP_BROADCAST, OP_HISTDONE, OP_NEWKEY, OP_NEWKEYID,
    OP_JOINRANGEHIST, OP_MSGUPDX, OP_MSGID, OP_CLIENTID, OP_RTMSG_BROADCAST, OP_RTMSG_USER,
    OP_RTMSG_ENDPOINT, OP_INCALL, OP_ENDCALL, OP_KEEPALIVEAWAY, OP_CALLDATA, OP_ECHO, OP_ADDREACTION,
    OP_DELREACTION, OP_HANDLEJOIN, OP_HANDLEJOINRANGEHIST, OP_SYNC, OP_CALLTIME, OP_NEWNODEMSG,
    OP_NODEHIST, OP_NUMBYHANDLE, OP_HANDLELEAVE, OP_REACTIONSN, OP_MSGIDTIMESTAMP, OP_NEWMSGIDTIMESTAMP,
    OP_JOINEDCALL, OP_LEFTCALL, OP_CALLSTATE, OP_CALLEND, OP_DELCALLREASON, OP_CALLREJECT, OP_RINGUSER,
    OP_INVALIDCODE]"

definition opcodeOf :: "byte \<Rightarrow> Opcode option" where
  "opcodeOf b = List.find (\<lambda>op. opcodeVal op = b) allOpcodes"

lemma set_allOpcodes: "op \<in> set allOpcodes"
  by (cases op) (simp_all add: allOpcodes_def)

lemma opcodeOf_opcodeVal: "opcodeOf (opcodeVal op) = Some op"
  by (cases op) (simp_all add: opcodeOf_def allOpcodes_def)

lemma opcodeOf_Some: "opcodeOf b = Some op \<Longrightarrow> opcodeVal op = b"
  by (auto simp: opcodeOf_def find_Some_iff)

interpretation opcode: codec opcodeVal opcodeOf "\<lambda>_. True"
  by unfold_locales (simp add: opcodeOf_opcodeVal)

section \<open>Privileges\<close>

datatype Priv = PRIV_INVALID | PRIV_NOCHANGE | PRIV_NOTPRESENT | PRIV_RDONLY | PRIV_FULL | PRIV_OPER

fun privVal :: "Priv \<Rightarrow> int" where
  "privVal PRIV_INVALID = - 10"
| "privVal PRIV_NOCHANGE = - 2"
| "privVal PRIV_NOTPRESENT = - 1"
| "privVal PRIV_RDONLY = 0"
| "privVal PRIV_FULL = 2"
| "privVal PRIV_OPER = 3"

text \<open>A privilege on the wire is a signed byte; values that are no enumerator stay what they are.\<close>

type_synonym priv = int

definition privOfByte :: "byte \<Rightarrow> priv" where
  "privOfByte b = sint b"

definition privToByte :: "priv \<Rightarrow> byte" where
  "privToByte p = word_of_int p"

definition privToString :: "priv \<Rightarrow> string" where
  "privToString p =
    (if p = privVal PRIV_NOCHANGE then ''No change''
     else if p = privVal PRIV_NOTPRESENT then ''Not present''
     else if p = privVal PRIV_RDONLY then ''READONLY''
     else if p = privVal PRIV_FULL then ''READ_WRITE''
     else if p = privVal PRIV_OPER then ''OPERATOR''
     else ''(unknown privilege)'')"

section \<open>Message types\<close>

definition kMsgInvalid :: byte where "kMsgInvalid = 0x00"
definition kMsgNormal :: byte where "kMsgNormal = 0x01"
definition kMsgManagementLowest :: byte where "kMsgManagementLowest = 0x02"
definition kMsgAlterParticipants :: byte where "kMsgAlterParticipants = 0x02"
definition kMsgTruncate :: byte where "kMsgTruncate = 0x03"
definition kMsgPrivChange :: byte where "kMsgPrivChange = 0x04"
definition kMsgChatTitle :: byte where "kMsgChatTitle = 0x05"
definition kMsgCallEnd :: byte where "kMsgCallEnd = 0x06"
definition kMsgCallStarted :: byte where "kMsgCallStarted = 0x07"
definition kMsgPublicHandleCreate :: byte where "kMsgPublicHandleCreate = 0x08"
definition kMsgPublicHandleDelete :: byte where "kMsgPublicHandleDelete = 0x09"
definition kMsgSetPrivateMode :: byte where "kMsgSetPrivateMode = 0x0A"
definition kMsgSetRetentionTime :: byte where "kMsgSetRetentionTime = 0x0B"
definition kMsgSchedMeeting :: byte where "kMsgSchedMeeting = 0x0C"
definition kMsgManagementHighest :: byte where "kMsgManagementHighest = 0x0C"
definition kMsgOffset :: byte where "kMsgOffset = 0x55"
definition kMsgUserFirst :: byte where "kMsgUserFirst = 0x65"
definition kMsgAttachment :: byte where "kMsgAttachment = 0x65"
definition kMsgRevokeAttachment :: byte where "kMsgRevokeAttachment = 0x66"
definition kMsgContact :: byte where "kMsgContact = 0x67"
definition kMsgContainsMeta :: byte where "kMsgContainsMeta = 0x68"
definition kMsgVoiceClip :: byte where "kMsgVoiceClip = 0x69"

lemmas msgType_defs = kMsgInvalid_def kMsgNormal_def kMsgManagementLowest_def kMsgAlterParticipants_def
  kMsgTruncate_def kMsgPrivChange_def kMsgChatTitle_def kMsgCallEnd_def kMsgCallStarted_def
  kMsgPublicHandleCreate_def kMsgPublicHandleDelete_def kMsgSetPrivateMode_def kMsgSetRetentionTime_def
  kMsgSchedMeeting_def kMsgManagementHighest_def kMsgOffset_def kMsgUserFirst_def kMsgAttachment_def
  kMsgRevokeAttachment_def kMsgContact_def kMsgContainsMeta_def kMsgVoiceClip_def

section \<open>States\<close>

datatype Status = kSending | kSendingManual | kServerReceived | kServerRejected | kDelivered | kNotSeen | kSeen

fun statusVal :: "Status \<Rightarrow> nat" where
  "statusVal kSending = 0"
| "statusVal kSendingManual = 1"
| "statusVal kServerReceived = 2"
| "statusVal kServerRejected = 3"
| "statusVal kDelivered = 4"
| "statusVal kNotSeen = 5"
| "statusVal kSeen = 6"

text \<open>A status up to \<open>kLastOwnMessageStatus\<close> belongs to a message we created.\<close>

definition isOwnStatus :: "Status \<Rightarrow> bool" where
  "isOwnStatus s \<longleftrightarrow> statusVal s \<le> statusVal kDelivered"

definition kNotEncrypted :: byte where "kNotEncrypted = 0"
definition kEncryptedPending :: byte where "kEncryptedPending = 1"
definition kEncryptedNoKey :: byte where "kEncryptedNoKey = 2"
definition kEncryptedSignature :: byte where "kEncryptedSignature = 3"
definition kEncryptedMalformed :: byte where "kEncryptedMalformed = 4"
definition kEncryptedNoType :: byte where "kEncryptedNoType = 5"

lemmas encStatus_defs = kNotEncrypted_def kEncryptedPending_def kEncryptedNoKey_def
  kEncryptedSignature_def kEncryptedMalformed_def kEncryptedNoType_def

datatype ChatState = kChatStateOffline | kChatStateConnecting | kChatStateJoining | kChatStateOnline

datatype CallDataReason = kDefault | kEnded | kRejected | kNoAnswer | kFailed | kCancelled | kEndedByModerator

fun reasonVal :: "CallDataReason \<Rightarrow> byte" where
  "reasonVal kDefault = 0x00"
| "reasonVal kEnded = 0x01"
| "reasonVal kRejected = 0x02"
| "reasonVal kNoAnswer = 0x03"
| "reasonVal kFailed = 0x04"
| "reasonVal kCancelled = 0x05"
| "reasonVal kEndedByModerator = 0x06"

definition kTsMissingCallUnread :: u32 where "kTsMissingCallUnread = 1592222400"

section \<open>Fields of a scheduled meeting\<close>

datatype SchedField = SC_NEW_SCHED | SC_PARENT | SC_TZONE | SC_START | SC_END | SC_TITLE | SC_DESC | SC_ATTR
  | SC_OVERR | SC_CANC | SC_FLAGS | SC_RULES

end
