(* ===== verification/ChatMessage.thy ===== *)
theory ChatMessage
  imports ChatdTypes "HOL-Library.AList"
begin

text \<open>
  Chat messages, \<open>chatd::Message\<close> of \<open>src/chatdMsg.h\<close>: the record, the predicates the unread counts
  and the last-message selection rest on, the call-ended and management payloads stored inside a
  message, and the reactions.

  The reactions of a message are a list in order of arrival.  They refine a relation between
  reactions and users: adding and deleting are insertion and removal of one pair.
\<close>

type_synonym reactions = "(string \<times> Id list) list"

record Message =
  mId :: Id
  mIdIsXid :: bool
  mReactions :: reactions
  mIsEncrypted :: byte
  userid :: Id
  ts :: u32
  updated :: u16
  keyid :: KeyId
  msgType :: byte
  backRefId :: BackRefId
  backRefs :: "BackRefId list"
  userFlags :: byte
  richLinkRemoved :: bool
  mData :: bytes

definition newMessage :: "Id \<Rightarrow> Id \<Rightarrow> u32 \<Rightarrow> u16 \<Rightarrow> bytes \<Rightarrow> bool \<Rightarrow> KeyId \<Rightarrow> byte \<Rightarrow> BackRefId \<Rightarrow> BackRefId list \<Rightarrow> Message" where
  "newMessage aMsgid aUserid aTs aUpdated buf aIsSending aKeyid aType aBackRefId aBackRefs =
    \<lparr>mId = aMsgid, mIdIsXid = aIsSending, mReactions = [], mIsEncrypted = kNotEncrypted,
     userid = aUserid, ts = aTs, updated = aUpdated, keyid = aKeyid, msgType = aType,
     backRefId = aBackRefId, backRefs = aBackRefs, userFlags = 0, richLinkRemoved = False, mData = buf\<rparr>"

text \<open>The copy constructor copies every member but the reactions.\<close>

definition copyMessage :: "Message \<Rightarrow> Message" where
  "copyMessage m = m\<lparr>mReactions := []\<rparr>"

definition setId :: "Message \<Rightarrow> Id \<Rightarrow> bool \<Rightarrow> Message" where
  "setId m aId isXid = m\<lparr>mId := aId, mIdIsXid := isXid\<rparr>"

definition isSending :: "Message \<Rightarrow> bool" where
  "isSending m = mIdIsXid m"

definition isLocalKeyid :: "Message \<Rightarrow> bool" where
  "isLocalKeyid m = isLocalKeyId (keyid m)"

definition isPendingToDecrypt :: "Message \<Rightarrow> bool" where
  "isPendingToDecrypt m \<longleftrightarrow> mIsEncrypted m = kEncryptedPending"

definition isUndecryptable :: "Message \<Rightarrow> bool" where
  "isUndecryptable m \<longleftrightarrow> mIsEncrypted m = kEncryptedMalformed \<or> mIsEncrypted m = kEncryptedSignature"

section \<open>Classification\<close>

definition isManagementMessageKnownType :: "Message \<Rightarrow> bool" where
  "isManagementMessageKnownType m \<longleftrightarrow> msgType m \<ge> kMsgManagementLowest \<and> msgType m \<le> kMsgManagementHighest"

definition isManagementMessage :: "Message \<Rightarrow> bool" where
  "isManagementMessage m \<longleftrightarrow> isManagementMessageKnownType m \<or> (userid m = Id_COMMANDER \<and> keyid m = 0)"

definition throwIfNotManagementMsg :: "Message \<Rightarrow> unit res" where
  "throwIfNotManagementMsg m = (if \<not> isManagementMessage m
     then Inl (RuntimeError ''Not a management message'') else Inr ())"

definition isOwnMessage :: "Message \<Rightarrow> Id \<Rightarrow> bool" where
  "isOwnMessage m myHandle \<longleftrightarrow> userid m = myHandle"

definition isDeleted :: "Message \<Rightarrow> bool" where
  "isDeleted m \<longleftrightarrow> updated m \<noteq> 0 \<and> length (mData m) = 0 \<and> msgType m \<noteq> kMsgTruncate"

definition isValidLastMessage :: "Message \<Rightarrow> bool" where
  "isValidLastMessage m \<longleftrightarrow> \<not> isDeleted m \<and> msgType m \<noteq> kMsgRevokeAttachment \<and> msgType m \<noteq> kMsgInvalid \<and>
    (mIsEncrypted m = 0 \<or> isUndecryptable m)"

definition extractTermCodeEndCall :: "bytes \<Rightarrow> byte" where
  "extractTermCodeEndCall buf = (if length buf < 8 + 4 + 1 then 0xFF else buf ! 12)"

definition isMissingCall :: "Message \<Rightarrow> Id \<Rightarrow> bool" where
  "isMissingCall m myHandle =
    (if msgType m \<noteq> kMsgCallEnd \<or> isOwnMessage m myHandle then False
     else let termCode = extractTermCodeEndCall (mData m)
          in termCode = reasonVal kNoAnswer \<or> termCode = reasonVal kCancelled)"

definition isValidUnread :: "Message \<Rightarrow> Id \<Rightarrow> bool" where
  "isValidUnread m myHandle \<longleftrightarrow> \<not> isOwnMessage m myHandle \<and> \<not> isDeleted m \<and>
    (mIsEncrypted m = 0 \<or> isUndecryptable m) \<and>
    (msgType m = kMsgNormal \<or> msgType m = kMsgAttachment \<or> msgType m = kMsgContact \<or>
     msgType m = kMsgContainsMeta \<or> msgType m = kMsgVoiceClip \<or>
     (isMissingCall m myHandle \<and> ts m > kTsMissingCallUnread))"

definition containMetaSubtype :: "Message \<Rightarrow> byte" where
  "containMetaSubtype m = (if msgType m = kMsgContainsMeta \<and> length (mData m) > 2 then mData m ! 2 else 0xff)"

definition containsMetaJson :: "Message \<Rightarrow> bytes" where
  "containsMetaJson m = (if msgType m = kMsgContainsMeta \<and> length (mData m) > 3 then drop 3 (mData m) else [])"

definition toText :: "Message \<Rightarrow> bytes res" where
  "toText m = (if mData m = [] then Inr []
     else if msgType m = kMsgNormal then Inr (mData m)
     else if \<not> length (mData m) > 2 then Inl AssertFail
     else Inr (drop 2 (mData m)))"

definition backrefBuf :: "Message \<Rightarrow> bytes" where
  "backrefBuf m = (if backRefs m = [] then [] else concat (map le64 (backRefs m)))"

section \<open>Payloads stored in management messages\<close>

text \<open>
  \<open>ManagementInfo\<close> is stored as its object representation: the handle, the privilege byte and seven
  bytes of padding whose contents are unspecified, the argument \<open>pad\<close>.
\<close>

record ManagementInfo =
  miTarget :: Id
  miPrivilege :: priv

definition createMgmtInfo :: "bytes \<Rightarrow> Message \<Rightarrow> ManagementInfo \<Rightarrow> Message res" where
  "createMgmtInfo pad m src =
    (if mData m \<noteq> [] then Inl AssertFail
     else Inr (m\<lparr>mData := le64 (miTarget src) @ [privToByte (miPrivilege src)] @ pad\<rparr>))"

definition mgmtInfo :: "Message \<Rightarrow> ManagementInfo res" where
  "mgmtInfo m = bindR (throwIfNotManagementMsg m) (\<lambda>_.
     bindR (readPtr (mData m) 0 16) (\<lambda>d.
     Inr \<lparr>miTarget = word_of_nat (of_le (take 8 d)), miPrivilege = privOfByte (d ! 8)\<rparr>))"

record CallEndedInfo =
  ceCallid :: Id
  ceTermCode :: byte
  ceDuration :: u32
  ceParticipants :: "Id list"

definition encCallEndedInfo :: "CallEndedInfo \<Rightarrow> bytes" where
  "encCallEndedInfo i = le64 (ceCallid i) @ le32 (ceDuration i) @ [ceTermCode i] @
     leSize (length (ceParticipants i)) @ concat (map le64 (ceParticipants i))"

definition createCallEndedInfo :: "Message \<Rightarrow> CallEndedInfo \<Rightarrow> Message res" where
  "createCallEndedInfo m src =
    (if mData m \<noteq> [] then Inl AssertFail else Inr (m\<lparr>mData := encCallEndedInfo src\<rparr>))"

primrec readIds :: "bytes \<Rightarrow> nat \<Rightarrow> nat \<Rightarrow> Id list res" where
  "readIds buf position 0 = Inr []"
| "readIds buf position (Suc n) =
     (if position + 8 \<le> length buf
      then bindR (readIds buf (position + 8) n)
             (\<lambda>ids. Inr (word_of_nat (of_le (slice buf position 8)) # ids))
      else Inl OutOfBounds)"

text \<open>\<open>None\<close> is the null pointer returned for a malformed buffer; sizes are \<open>size_t\<close>.\<close>

definition CallEndedInfo_fromBuffer :: "bytes \<Rightarrow> CallEndedInfo option res" where
  "CallEndedInfo_fromBuffer buf =
    (if buf = [] \<or> length buf < 8 + 4 + 1 + 8 then Inr None
     else let numParticipants = of_le (slice buf 13 8)
          in if length buf < szadd 21 (szmul 8 numParticipants) then Inr None
             else bindR (readIds buf 21 numParticipants) (\<lambda>ids.
               Inr (Some \<lparr>ceCallid = word_of_nat (of_le (slice buf 0 8)), ceTermCode = buf ! 12,
                 ceDuration = word_of_nat (of_le (slice buf 8 4)), ceParticipants = ids\<rparr>)))"

section \<open>Reactions\<close>

abbreviation maxMessageReactions :: nat where "maxMessageReactions \<equiv> 50"
abbreviation maxOwnReactions :: nat where "maxOwnReactions \<equiv> 24"

fun findIndex :: "('a \<Rightarrow> bool) \<Rightarrow> 'a list \<Rightarrow> nat option" where
  "findIndex p [] = None"
| "findIndex p (x # xs) = (if p x then Some 0 else map_option Suc (findIndex p xs))"

text \<open>An index of \<open>-1\<close> in the code is \<open>None\<close> here.\<close>

definition userIndex :: "Id list \<Rightarrow> Id \<Rightarrow> nat option" where
  "userIndex us u = findIndex (\<lambda>v. v = u) us"

definition reactionHasReacted :: "Id list \<Rightarrow> Id \<Rightarrow> bool" where
  "reactionHasReacted us u \<longleftrightarrow> userIndex us u \<noteq> None"

definition getReactionIndex :: "reactions \<Rightarrow> string \<Rightarrow> nat option" where
  "getReactionIndex rs r = findIndex (\<lambda>p. fst p = r) rs"

fun allowReactLoop :: "reactions \<Rightarrow> Id \<Rightarrow> string \<Rightarrow> bool \<Rightarrow> nat \<Rightarrow> (bool \<times> nat) option" where
  "allowReactLoop [] my r found own = Some (found, own)"
| "allowReactLoop ((n, us) # rs) my r found own =
     (let found' = (found \<or> n = r); own' = (if my \<in> set us then Suc own else own)
      in if own' \<ge> maxOwnReactions then None else allowReactLoop rs my r found' own')"

definition allowReact :: "reactions \<Rightarrow> Id \<Rightarrow> string \<Rightarrow> int" where
  "allowReact rs my r =
    (case allowReactLoop rs my r False 0 of
       None \<Rightarrow> 1
     | Some (found, own) \<Rightarrow> if length rs \<ge> maxMessageReactions \<and> \<not> found then - 1 else 0)"

definition hasReacted :: "reactions \<Rightarrow> string \<Rightarrow> Id \<Rightarrow> bool" where
  "hasReacted rs r u = (case map_of rs r of None \<Rightarrow> False | Some us \<Rightarrow> reactionHasReacted us u)"

definition getReactionUsers :: "reactions \<Rightarrow> string \<Rightarrow> Id list" where
  "getReactionUsers rs r = (case map_of rs r of None \<Rightarrow> [] | Some us \<Rightarrow> us)"

definition getReactionCount :: "reactions \<Rightarrow> string \<Rightarrow> nat" where
  "getReactionCount rs r = (case map_of rs r of None \<Rightarrow> 0 | Some us \<Rightarrow> length us)"

definition hasConfirmedReactions :: "Message \<Rightarrow> bool" where
  "hasConfirmedReactions m \<longleftrightarrow> mReactions m \<noteq> []"

definition cleanReactions :: "Message \<Rightarrow> Message" where
  "cleanReactions m = m\<lparr>mReactions := []\<rparr>"

definition addUser :: "Id list \<Rightarrow> Id \<Rightarrow> Id list" where
  "addUser us u = (if \<not> reactionHasReacted us u then us @ [u] else us)"

definition addReaction :: "reactions \<Rightarrow> string \<Rightarrow> Id \<Rightarrow> reactions" where
  "addReaction rs r u =
    (case getReactionIndex rs r of
       Some i \<Rightarrow> rs[i := (fst (rs ! i), addUser (snd (rs ! i)) u)]
     | None \<Rightarrow> rs @ [(r, addUser [] u)])"

definition eraseAt :: "nat \<Rightarrow> 'a list \<Rightarrow> 'a list" where
  "eraseAt i xs = take i xs @ drop (Suc i) xs"

definition delReaction :: "reactions \<Rightarrow> string \<Rightarrow> Id \<Rightarrow> reactions" where
  "delReaction rs r u =
    (case getReactionIndex rs r of
       None \<Rightarrow> rs
     | Some i \<Rightarrow>
         (case userIndex (snd (rs ! i)) u of
            None \<Rightarrow> rs
          | Some j \<Rightarrow> let us = eraseAt j (snd (rs ! i))
                     in if us = [] then eraseAt i rs else rs[i := (fst (rs ! i), us)]))"


section \<open>Reactions refine a relation\<close>

definition reactions_wf :: "reactions \<Rightarrow> bool" where
  "reactions_wf rs \<longleftrightarrow> distinct (map fst rs) \<and> (\<forall>(r, us) \<in> set rs. us \<noteq> [] \<and> distinct us)"

lemma findIndex_None: "findIndex p xs = None \<longleftrightarrow> (\<forall>x \<in> set xs. \<not> p x)"
  by (induction xs) auto

lemma reactionHasReacted_iff: "reactionHasReacted us u \<longleftrightarrow> u \<in> set us"
  by (auto simp: reactionHasReacted_def userIndex_def findIndex_None)

lemma addUser_eq: "addUser us u = (if u \<in> set us then us else us @ [u])"
  by (simp add: addUser_def reactionHasReacted_iff)

lemma userIndex_remove: "userIndex us u = Some j \<Longrightarrow> eraseAt j us = remove1 u us \<and> u \<in> set us"
  by (induction us arbitrary: j) (auto simp: userIndex_def eraseAt_def split: if_splits)

lemma userIndex_None: "userIndex us u = None \<longleftrightarrow> u \<notin> set us"
  by (auto simp: userIndex_def findIndex_None)

lemma addReaction_simps:
  "addReaction [] r u = [(r, [u])]"
  "addReaction ((n, us) # rs) r u =
     (if n = r then (n, addUser us u) # rs else (n, us) # addReaction rs r u)"
  by (auto simp: addReaction_def getReactionIndex_def addUser_eq split: option.splits)

lemma delReaction_Cons_same:
  "delReaction ((r, us) # rs) r u =
     (if u \<in> set us then (if remove1 u us = [] then rs else (r, remove1 u us) # rs) else (r, us) # rs)"
proof (cases "userIndex us u")
  case None
  moreover have "u \<notin> set us" using None userIndex_None by blast
  ultimately show ?thesis by (simp add: delReaction_def getReactionIndex_def)
next
  case (Some j)
  with userIndex_remove [OF Some] show ?thesis
    by (simp add: delReaction_def getReactionIndex_def Let_def) (simp add: eraseAt_def)
qed

lemma delReaction_Cons_other:
  "n \<noteq> r \<Longrightarrow> delReaction ((n, us) # rs) r u = (n, us) # delReaction rs r u"
  by (auto simp: delReaction_def getReactionIndex_def eraseAt_def Let_def split: option.splits)

lemma delReaction_simps:
  "delReaction [] r u = []"
  "delReaction ((n, us) # rs) r u =
     (if n = r then (if u \<in> set us then (if remove1 u us = [] then rs else (n, remove1 u us) # rs) else (n, us) # rs)
      else (n, us) # delReaction rs r u)"
  using delReaction_Cons_same [of r us rs u] delReaction_Cons_other [of n r us rs u]
  by (auto simp: delReaction_def getReactionIndex_def)

lemma map_fst_addReaction:
  "map fst (addReaction rs r u) = (if r \<in> set (map fst rs) then map fst rs else map fst rs @ [r])"
proof (induction rs)
  case Nil
  then show ?case by (simp add: addReaction_simps)
next
  case (Cons x rs)
  obtain n us where x: "x = (n, us)" by (cases x)
  from Cons show ?case by (cases "n = r") (simp_all add: x addReaction_simps)
qed

lemma set_fst_addReaction: "fst ` set (addReaction rs r u) = insert r (fst ` set rs)"
  using arg_cong [OF map_fst_addReaction [of rs r u], of set] by (auto split: if_splits)

lemma set_fst_delReaction: "n \<notin> fst ` set rs \<Longrightarrow> n \<notin> fst ` set (delReaction rs r u)"
proof (induction rs)
  case Nil
  then show ?case by (simp add: delReaction_simps)
next
  case (Cons x rs)
  then show ?case by (cases x) (auto simp: delReaction_simps)
qed

lemma addReaction_wf [inv_intros]: "reactions_wf rs \<Longrightarrow> reactions_wf (addReaction rs r u)"
proof (induction rs)
  case Nil
  then show ?case by (simp add: reactions_wf_def addReaction_simps)
next
  case (Cons x rs)
  obtain n us where x: "x = (n, us)" by (cases x)
  have "r \<noteq> n \<Longrightarrow> n \<notin> fst ` set (addReaction rs r u)"
    using Cons.prems by (auto simp: set_fst_addReaction reactions_wf_def x)
  with Cons show ?case by (auto simp: x addReaction_simps reactions_wf_def addUser_eq)
qed

lemma delReaction_wf [inv_intros]: "reactions_wf rs \<Longrightarrow> reactions_wf (delReaction rs r u)"
proof (induction rs)
  case Nil
  then show ?case by (simp add: delReaction_simps)
next
  case (Cons x rs)
  obtain n us where x: "x = (n, us)" by (cases x)
  have "n \<notin> fst ` set (delReaction rs r u)"
    by (rule set_fst_delReaction) (use Cons.prems in \<open>simp add: reactions_wf_def x\<close>)
  with Cons show ?case by (auto simp: x delReaction_simps reactions_wf_def)
qed

lemma hasReacted_simps:
  "\<not> hasReacted [] r u"
  "hasReacted ((n, us) # rs) r u \<longleftrightarrow> (if n = r then u \<in> set us else hasReacted rs r u)"
  by (auto simp: hasReacted_def reactionHasReacted_iff)

lemma hasReacted_notin: "r \<notin> fst ` set rs \<Longrightarrow> \<not> hasReacted rs r u"
  by (simp add: hasReacted_def map_of_eq_None_iff [THEN iffD2])

lemma hasReacted_add: "hasReacted (addReaction rs r u) r' u' \<longleftrightarrow> (r' = r \<and> u' = u) \<or> hasReacted rs r' u'"
proof (induction rs)
  case Nil
  then show ?case by (simp add: addReaction_simps hasReacted_simps)
next
  case (Cons x rs)
  obtain n us where x: "x = (n, us)" by (cases x)
  from Cons show ?case
    by (cases "n = r"; cases "n = r'") (auto simp: x addReaction_simps hasReacted_simps addUser_eq)
qed

lemma hasReacted_del:
  "reactions_wf rs \<Longrightarrow> hasReacted (delReaction rs r u) r' u' \<longleftrightarrow> hasReacted rs r' u' \<and> \<not> (r' = r \<and> u' = u)"
proof (induction rs)
  case Nil
  then show ?case by (simp add: delReaction_simps hasReacted_simps)
next
  case (Cons x rs)
  obtain n us where x: "x = (n, us)" by (cases x)
  have n: "n \<notin> fst ` set rs" "distinct us" "reactions_wf rs" using Cons.prems by (auto simp: x reactions_wf_def)
  have e: "remove1 u us = [] \<Longrightarrow> v \<in> set us \<Longrightarrow> v = u" for v
    using n(2) set_remove1_eq [of us u] by auto
  show ?case using Cons.IH [OF n(3)] hasReacted_notin [OF n(1)] n(2) e
    by (cases "n = r"; cases "n = r'") (auto simp: x delReaction_simps hasReacted_simps)
qed

text \<open>
  The contract of a store of reactions: every change is the insertion or removal of one pair.  What
  a device sees after replaying a log of changes depends only on the last change of each pair.
\<close>

datatype ReactOp = AddR string Id | DelR string Id

locale reaction_store =
  fixes wf :: "'s \<Rightarrow> bool"
    and has :: "'s \<Rightarrow> string \<Rightarrow> Id \<Rightarrow> bool"
    and add :: "'s \<Rightarrow> string \<Rightarrow> Id \<Rightarrow> 's"
    and del :: "'s \<Rightarrow> string \<Rightarrow> Id \<Rightarrow> 's"
  assumes wf_add: "wf s \<Longrightarrow> wf (add s r u)"
    and wf_del: "wf s \<Longrightarrow> wf (del s r u)"
    and has_add: "wf s \<Longrightarrow> has (add s r u) r' u' \<longleftrightarrow> (r' = r \<and> u' = u) \<or> has s r' u'"
    and has_del: "wf s \<Longrightarrow> has (del s r u) r' u' \<longleftrightarrow> has s r' u' \<and> \<not> (r' = r \<and> u' = u)"
begin

lemma add_has: "wf s \<Longrightarrow> has (add s r u) r u"
  by (simp add: has_add)

lemma del_has: "wf s \<Longrightarrow> \<not> has (del s r u) r u"
  by (simp add: has_del)

lemma replay:
  assumes "wf s"
  shows "wf (foldl (\<lambda>s x. case x of AddR r u \<Rightarrow> add s r u | DelR r u \<Rightarrow> del s r u) s ops) \<and>
    (has (foldl (\<lambda>s x. case x of AddR r u \<Rightarrow> add s r u | DelR r u \<Rightarrow> del s r u) s ops) r u \<longleftrightarrow>
      (case filter (\<lambda>x. x = AddR r u \<or> x = DelR r u) (rev ops) of [] \<Rightarrow> has s r u | x # _ \<Rightarrow> x = AddR r u))"
  using assms
proof (induction ops rule: rev_induct)
  case Nil
  then show ?case by simp
next
  case (snoc x ops)
  then show ?case by (cases x) (auto simp: wf_add wf_del has_add has_del)
qed

end

interpretation reacts: reaction_store reactions_wf hasReacted addReaction delReaction
  by unfold_locales (simp_all add: addReaction_wf delReaction_wf hasReacted_add hasReacted_del)

definition applyReactOps :: "reactions \<Rightarrow> ReactOp list \<Rightarrow> reactions" where
  "applyReactOps = foldl (\<lambda>s x. case x of AddR r u \<Rightarrow> addReaction s r u | DelR r u \<Rightarrow> delReaction s r u)"

section \<open>Limits on reactions\<close>

definition ownReacts :: "reactions \<Rightarrow> Id \<Rightarrow> nat" where
  "ownReacts rs my = length (filter (\<lambda>(n, us). my \<in> set us) rs)"

lemma allowReactLoop_eq:
  "own < maxOwnReactions \<Longrightarrow> allowReactLoop rs my r found own =
    (if own + ownReacts rs my \<ge> maxOwnReactions then None
     else Some (found \<or> r \<in> fst ` set rs, own + ownReacts rs my))"
  by (induction rs my r found own rule: allowReactLoop.induct) (auto simp: ownReacts_def Let_def)

lemma allowReact_eq:
  "allowReact rs my r =
    (if ownReacts rs my \<ge> maxOwnReactions then 1
     else if length rs \<ge> maxMessageReactions \<and> r \<notin> fst ` set rs then - 1 else 0)"
  by (simp add: allowReact_def allowReactLoop_eq)

lemma length_addReaction: "length (addReaction rs r u) = (if r \<in> fst ` set rs then length rs else Suc (length rs))"
  using arg_cong [OF map_fst_addReaction [of rs r u], of length] by (simp split: if_splits)

section \<open>Stored payloads\<close>

lemma readIds_concat:
  "length pre = p \<Longrightarrow> readIds (pre @ concat (map le64 ids)) p (length ids) = Inr ids"
proof (induction ids arbitrary: pre p)
  case Nil
  then show ?case by simp
next
  case (Cons i ids)
  have "readIds ((pre @ le64 i) @ concat (map le64 ids)) (p + 8) (length ids) = Inr ids"
    using Cons.prems by (intro Cons.IH) simp
  with Cons.prems show ?case by (simp add: slice_def)
qed

lemma CallEndedInfo_roundtrip_aux:
  assumes "length (ceParticipants i) < 2 ^ 60"
  shows "CallEndedInfo_fromBuffer (encCallEndedInfo i) = Inr (Some i)"
proof -
  let ?n = "length (ceParticipants i)"
  let ?pre = "le64 (ceCallid i) @ le32 (ceDuration i) @ [ceTermCode i] @ leSize ?n"
  have enc: "encCallEndedInfo i = ?pre @ concat (map le64 (ceParticipants i))"
    by (simp add: encCallEndedInfo_def)
  have len: "length (encCallEndedInfo i) = 21 + 8 * ?n"
    by (simp add: enc length_concat_le64)
  have n: "of_le (slice (encCallEndedInfo i) 13 8) = ?n"
    using assms by (simp add: enc slice_def)
  have sz: "szadd 21 (szmul 8 ?n) = 21 + 8 * ?n"
    using assms by simp
  have ids: "readIds (encCallEndedInfo i) 21 ?n = Inr (ceParticipants i)"
    unfolding enc by (rule readIds_concat) simp
  show ?thesis
    using len by (auto simp: CallEndedInfo_fromBuffer_def n sz ids)
      (simp_all add: enc slice_def nth_append)
qed

lemma extractTermCode_enc: "extractTermCodeEndCall (encCallEndedInfo i) = ceTermCode i"
  by (simp add: extractTermCodeEndCall_def encCallEndedInfo_def nth_append)

interpretation callEnded: codec encCallEndedInfo "\<lambda>b. Option.bind (okOpt (CallEndedInfo_fromBuffer b)) id"
    "\<lambda>i. length (ceParticipants i) < 2 ^ 60"
  by unfold_locales (simp add: CallEndedInfo_roundtrip_aux)

lemma readIds_ok: "p + 8 * n \<le> length buf \<Longrightarrow> isOk (readIds buf p n)"
  by (induction n arbitrary: p) (auto simp: isOk_iff bindR_Inr_iff)

lemma sint_byte_of_int: "- 128 \<le> p \<Longrightarrow> p < 128 \<Longrightarrow> sint (word_of_int p :: byte) = p"
  by (simp add: sint_sbintrunc' signed_take_bit_int_eq_self)

lemma mgmtInfo_create:
  assumes "isManagementMessage m" "mData m = []" "length pad = 7" "- 128 \<le> miPrivilege i" "miPrivilege i < 128"
  shows "\<exists>m'. createMgmtInfo pad m i = Inr m' \<and> mgmtInfo m' = Inr i"
proof -
  let ?m = "m\<lparr>mData := le64 (miTarget i) @ [privToByte (miPrivilege i)] @ pad\<rparr>"
  have "isManagementMessage ?m" using assms(1) by (simp add: isManagementMessage_def isManagementMessageKnownType_def)
  moreover have "slice (mData ?m) 0 16 = mData ?m" using assms(3) by simp
  ultimately have "mgmtInfo ?m = Inr i"
    using assms by (simp add: mgmtInfo_def throwIfNotManagementMsg_def nth_append privOfByte_def privToByte_def sint_byte_of_int)
  then show ?thesis using assms(2) by (simp add: createMgmtInfo_def)
qed


section \<open>Properties\<close>

text \<open>
  C22: The reactions of a message stay well formed (each reaction once, with a non-empty list of
  distinct users) under any sequence of additions and deletions, and a user has a reaction afterwards
  exactly when the last change of that pair added it, or there was none and it was there before.
\<close>
theorem reactions_replay:
  assumes "reactions_wf rs"
  shows "reactions_wf (applyReactOps rs ops) \<and>
    (hasReacted (applyReactOps rs ops) r u \<longleftrightarrow>
      (case filter (\<lambda>x. x = AddR r u \<or> x = DelR r u) (rev ops) of [] \<Rightarrow> hasReacted rs r u | x # _ \<Rightarrow> x = AddR r u))"
  unfolding applyReactOps_def by (rule reacts.replay [OF assms])

theorem reactions_replay_witness:
  "hasReacted (applyReactOps [(''a'', [1])] [AddR ''b'' 2, DelR ''a'' 1, AddR ''b'' 2]) ''b'' 2"
proof -
  have "reactions_wf [(''a'', [1])]" by (simp add: reactions_wf_def)
  from reactions_replay [OF this, of "[AddR ''b'' 2, DelR ''a'' 1, AddR ''b'' 2]" "''b''" 2]
  show ?thesis by simp
qed

text \<open>
  The early-exit loop of \<open>allowReact\<close> decides by two counts: our own reactions on the message
  and the number of different reactions; adding an allowed reaction keeps both within their limits.
\<close>
theorem allowReact_limits:
  "allowReact rs my r =
     (if ownReacts rs my \<ge> maxOwnReactions then 1
      else if length rs \<ge> maxMessageReactions \<and> r \<notin> fst ` set rs then - 1 else 0) \<and>
   (allowReact rs my r = 0 \<and> length rs \<le> maxMessageReactions \<longrightarrow>
      length (addReaction rs r my) \<le> maxMessageReactions \<and> ownReacts rs my < maxOwnReactions)"
  by (auto simp: allowReact_eq length_addReaction split: if_splits)

theorem allowReact_limits_witness:
  "allowReact [(''a'', [1])] 2 ''b'' = 0 \<and> length (addReaction [(''a'', [1])] ''b'' 2) \<le> maxMessageReactions"
  using allowReact_limits [of "[(''a'', [1])]" 2 "''b''"] by (simp add: ownReacts_def)

text \<open>
  The call-ended payload written into a message is read back unchanged, its termination code is
  where the unread count looks for it, and reading any buffer stays inside it unless the announced
  number of participants makes the size computation wrap around \<open>size_t\<close>.
\<close>
theorem CallEndedInfo_roundtrip:
  "(length (ceParticipants i) < 2 ^ 60 \<longrightarrow> CallEndedInfo_fromBuffer (encCallEndedInfo i) = Inr (Some i)) \<and>
   extractTermCodeEndCall (encCallEndedInfo i) = ceTermCode i \<and>
   (21 + 8 * of_le (slice buf 13 8) < size_max \<longrightarrow> isOk (CallEndedInfo_fromBuffer buf))"
proof -
  have "isOk (CallEndedInfo_fromBuffer buf)" if h: "21 + 8 * of_le (slice buf 13 8) < size_max"
    using h readIds_ok [of 21 "of_le (slice buf 13 8)" buf]
    by (auto simp: CallEndedInfo_fromBuffer_def isOk_iff bindR_Inr_iff Let_def not_less)
  then show ?thesis by (simp add: CallEndedInfo_roundtrip_aux extractTermCode_enc)
qed

theorem CallEndedInfo_roundtrip_witness:
  "CallEndedInfo_fromBuffer (encCallEndedInfo \<lparr>ceCallid = 7, ceTermCode = 3, ceDuration = 60, ceParticipants = [1, 2]\<rparr>)
    = Inr (Some \<lparr>ceCallid = 7, ceTermCode = 3, ceDuration = 60, ceParticipants = [1, 2]\<rparr>)"
  using CallEndedInfo_roundtrip [of "\<lparr>ceCallid = 7, ceTermCode = 3, ceDuration = 60, ceParticipants = [1, 2]\<rparr>" "[]"]
  by simp

end
