(* ===== verification/SchedMeeting.thy ===== *)
theory SchedMeeting
  imports ChatdTypes
begin

text \<open>
  The changeset of a scheduled meeting stored in a management message,
  \<open>Message::SchedMeetingInfo::fromBuffer\<close> and \<open>createSchedMeetingInfo\<close> of \<open>src/chatdMsg.h\<close>.

  JSON text is parsed by RapidJSON, which is not part of the repository's own sources: the parser is
  the argument \<open>parse\<close>, its documents are values of \<open>json\<close> with the accessors the code uses.
  An accessor on a value of another kind is an assertion of that library (\<open>AssertFail\<close>).  The
  \<open>assert(false)\<close> statements in front of a graceful return are debugging aids: the value returned is
  what is modelled.
\<close>

section \<open>JSON values\<close>

datatype json = JNull | JBool bool | JInt int | JReal string | JStr string | JArr "json list"
  | JObj "(string \<times> json) list"

datatype jsonDoc = DocError | DocEmpty | Doc json

fun isNumber :: "json \<Rightarrow> bool" where
  "isNumber (JInt _) = True" | "isNumber (JReal _) = True" | "isNumber _ = False"

fun isIntJ :: "json \<Rightarrow> bool" where
  "isIntJ (JInt i) \<longleftrightarrow> - (2 ^ 31) \<le> i \<and> i < 2 ^ 31" | "isIntJ _ = False"

fun isUintJ :: "json \<Rightarrow> bool" where
  "isUintJ (JInt i) \<longleftrightarrow> 0 \<le> i \<and> i < 2 ^ 32" | "isUintJ _ = False"

fun isInt64J :: "json \<Rightarrow> bool" where
  "isInt64J (JInt i) \<longleftrightarrow> - (2 ^ 63) \<le> i \<and> i < 2 ^ 63" | "isInt64J _ = False"

fun intVal :: "json \<Rightarrow> int" where
  "intVal (JInt i) = i" | "intVal _ = 0"

definition getInt :: "json \<Rightarrow> int res" where
  "getInt j = (if isIntJ j then Inr (intVal j) else Inl AssertFail)"

fun findMember :: "json \<Rightarrow> string \<Rightarrow> json option res" where
  "findMember (JObj ms) k = Inr (map_of ms k)"
| "findMember _ k = Inl AssertFail"

section \<open>Recurrence rules\<close>

datatype Freq = FREQ_INVALID | FREQ_DAILY | FREQ_WEEKLY | FREQ_MONTHLY

record Rules =
  rFreq :: Freq
  rInterval :: int
  rUntil :: int
  rByWeekDay :: "int list option"
  rByMonthDay :: "int list option"
  rByMonthWeekDay :: "(int \<times> int) list option"

text \<open>\<open>std::string::compare\<close> returns zero for equal strings.\<close>

definition compareNZ :: "string \<Rightarrow> string \<Rightarrow> bool" where
  "compareNZ a b \<longleftrightarrow> a \<noteq> b"

definition getFreqVal :: "string \<Rightarrow> Freq" where
  "getFreqVal freq =
    (if compareNZ freq ''d'' then FREQ_DAILY
     else if compareNZ freq ''w'' then FREQ_WEEKLY
     else if compareNZ freq ''m'' then FREQ_MONTHLY
     else FREQ_INVALID)"

fun intList :: "json option \<Rightarrow> int list option" where
  "intList (Some (JArr vs)) = (if vs = [] then None else Some (map intVal (filter isIntJ vs)))"
| "intList _ = None"

fun pairOf :: "json \<Rightarrow> (int \<times> int) list" where
  "pairOf (JArr [a, b]) = (if \<not> isIntJ a \<or> \<not> isIntJ b then [] else [(intVal a, intVal b)])"
| "pairOf _ = []"

fun pairList :: "json option \<Rightarrow> (int \<times> int) list option" where
  "pairList (Some (JArr vs)) = (if vs = [] then None else Some (concat (map pairOf vs)))"
| "pairList _ = None"

text \<open>
  The rules in element \<open>index\<close> of the field's array, \<open>None\<close> for the null pointer.  The interval is read
  with \<open>GetInt\<close> without a check of its kind.
\<close>

definition getRulesValue :: "json list \<Rightarrow> nat \<Rightarrow> Rules option res" where
  "getRulesValue arr index =
    (if index \<ge> length arr then Inr None
     else case arr ! index of
       JStr _ \<Rightarrow> Inr None
     | JObj ms \<Rightarrow>
         (let freq = (case map_of ms ''f'' of Some (JStr s) \<Rightarrow> s | _ \<Rightarrow> []);
              until = (case map_of ms ''u'' of Some v \<Rightarrow> if isInt64J v then intVal v else 0 | None \<Rightarrow> 0)
          in bindR (case map_of ms ''i'' of None \<Rightarrow> Inr 0 | Some v \<Rightarrow> getInt v) (\<lambda>interval.
             Inr (Some \<lparr>rFreq = getFreqVal freq, rInterval = interval, rUntil = until,
               rByWeekDay = intList (map_of ms ''wd''), rByMonthDay = intList (map_of ms ''md''),
               rByMonthWeekDay = pairList (map_of ms ''mwd'')\<rparr>)))
     | _ \<Rightarrow> Inr None)"

section \<open>Changed fields\<close>

definition getFieldFromString :: "string \<Rightarrow> SchedField option" where
  "getFieldFromString s =
    (if s = ''p'' then Some SC_PARENT
     else if s = ''tz'' then Some SC_TZONE
     else if s = ''s'' then Some SC_START
     else if s = ''e'' then Some SC_END
     else if s = ''t'' then Some SC_TITLE
     else if s = ''d'' then Some SC_DESC
     else if s = ''at'' then Some SC_ATTR
     else if s = ''c'' then Some SC_CANC
     else if s = ''f'' then Some SC_FLAGS
     else if s = ''r'' then Some SC_RULES
     else None)"

record SchedInfo =
  siSchedId :: Id
  siChanged :: "SchedField list"
  siRules :: "Rules option"
  siInfo :: "(SchedField \<times> string list) list"

text \<open>\<open>map::emplace\<close> keeps an entry that is already there; a bit set in the bitset stays set.\<close>

definition emplace :: "SchedField \<Rightarrow> string list \<Rightarrow> SchedInfo \<Rightarrow> SchedInfo" where
  "emplace f vs i = (if f \<in> fst ` set (siInfo i) then i else i\<lparr>siInfo := siInfo i @ [(f, vs)]\<rparr>)"

definition setChanged :: "SchedField \<Rightarrow> SchedInfo \<Rightarrow> SchedInfo" where
  "setChanged f i = (if f \<in> set (siChanged i) then i else i\<lparr>siChanged := siChanged i @ [f]\<rparr>)"

definition getValue :: "json list \<Rightarrow> SchedField \<Rightarrow> nat \<Rightarrow> string" where
  "getValue arr field index =
    (if index \<ge> length arr then []
     else if field = SC_RULES then []
     else if field = SC_START \<or> field = SC_END \<or> field = SC_CANC \<or> field = SC_FLAGS
     then (if \<not> isUintJ (arr ! index) then [] else showNat (nat (intVal (arr ! index))))
     else (case arr ! index of JStr s \<Rightarrow> s | _ \<Rightarrow> []))"

definition checkArrFieldChanged :: "json list \<Rightarrow> SchedField \<Rightarrow> SchedInfo \<Rightarrow> (bool \<times> SchedInfo) res" where
  "checkArrFieldChanged arr field i =
    (if arr = [] \<or> length arr > 2 then Inr (False, i)
     else let hasChanged = (length arr = 2) in
       if field \<noteq> SC_RULES
       then Inr (hasChanged, emplace field (getValue arr field 0 # (if hasChanged then [getValue arr field 1] else [])) i)
       else if hasChanged
       then bindR (getRulesValue arr 1) (\<lambda>r. Inr (hasChanged, i\<lparr>siRules := r\<rparr>))
       else Inr (hasChanged, i))"

definition checkNonArrFieldChanged :: "json \<Rightarrow> SchedField \<Rightarrow> SchedInfo \<Rightarrow> (bool \<times> SchedInfo) res" where
  "checkNonArrFieldChanged v field i =
    (if isNumber v then bindR (getInt v) (\<lambda>n. Inr (n = 1, i))
     else case v of
       JStr s \<Rightarrow> Inr (False, if s = [] then i else emplace field [s] i)
     | _ \<Rightarrow> Inr (False, i))"

definition checkChanges :: "json \<Rightarrow> string \<Rightarrow> SchedInfo \<Rightarrow> SchedInfo res" where
  "checkChanges doc fieldStr i =
    bindR (findMember doc fieldStr) (\<lambda>m.
      case m of None \<Rightarrow> Inr i
      | Some v \<Rightarrow>
         (case getFieldFromString fieldStr of None \<Rightarrow> Inr i
          | Some field \<Rightarrow>
              bindR (case v of JArr arr \<Rightarrow> checkArrFieldChanged arr field i
                     | _ \<Rightarrow> checkNonArrFieldChanged v field i)
                (\<lambda>(hasChanged, i'). Inr (if hasChanged then setChanged field i' else i'))))"

definition changeKeys :: "string list" where
  "changeKeys = [''tz'', ''s'', ''e'', ''d'', ''p'', ''c'', ''f'', ''r'', ''at'', ''t'']"

primrec checkAll :: "json \<Rightarrow> string list \<Rightarrow> SchedInfo \<Rightarrow> SchedInfo res" where
  "checkAll doc [] i = Inr i"
| "checkAll doc (k # ks) i = bindR (checkChanges doc k i) (checkAll doc ks)"

section \<open>The stored form\<close>

definition encSchedMeetingInfo :: "Id \<Rightarrow> bytes \<Rightarrow> bytes" where
  "encSchedMeetingInfo i changedJson = le64 i @ leSize (length changedJson) @ changedJson"

definition SchedMeetingInfo_fromBuffer :: "(bytes \<Rightarrow> jsonDoc) \<Rightarrow> bytes \<Rightarrow> SchedInfo option res" where
  "SchedMeetingInfo_fromBuffer parse buf =
    (if buf = [] \<or> length buf < 16 then Inr None
     else let schedId = word_of_nat (of_le (slice buf 0 8)); changedLen = of_le (slice buf 8 8)
          in if length buf < szadd 16 changedLen then Inr None
             else if length buf < 16 + changedLen then Inl OutOfBounds
             else case parse (slice buf 16 changedLen) of
               DocError \<Rightarrow> Inr None
             | DocEmpty \<Rightarrow> Inr (Some \<lparr>siSchedId = schedId, siChanged = [SC_NEW_SCHED], siRules = None, siInfo = []\<rparr>)
             | Doc d \<Rightarrow> bindR (checkAll d changeKeys
                  \<lparr>siSchedId = schedId, siChanged = [], siRules = None, siInfo = []\<rparr>) (\<lambda>i. Inr (Some i)))"

section \<open>Which fields are marked\<close>

text \<open>A member marks its field as changed: an array of two values, or the number one.\<close>

definition marks :: "json \<Rightarrow> bool" where
  "marks v = (case v of JArr arr \<Rightarrow> length arr = 2 | JInt n \<Rightarrow> n = 1 | _ \<Rightarrow> False)"

lemma emplace_changed [simp]: "siChanged (emplace f vs i) = siChanged i"
  by (simp add: emplace_def)

lemma set_setChanged [simp]: "set (siChanged (setChanged f i)) = insert f (set (siChanged i))"
  by (auto simp: setChanged_def)

lemma emplace_schedId [simp]: "siSchedId (emplace f vs i) = siSchedId i"
  by (simp add: emplace_def)

lemma setChanged_schedId [simp]: "siSchedId (setChanged f i) = siSchedId i"
  by (simp add: setChanged_def)

lemma checkArr_marks:
  "checkArrFieldChanged arr f i = Inr (b, i') \<Longrightarrow> b = (length arr = 2) \<and> siChanged i' = siChanged i \<and> siSchedId i' = siSchedId i"
  by (auto simp: checkArrFieldChanged_def Let_def bindR_Inr_iff split: if_splits)

lemma checkNonArr_marks:
  "\<forall>arr. v \<noteq> JArr arr \<Longrightarrow> checkNonArrFieldChanged v f i = Inr (b, i') \<Longrightarrow>
    b = marks v \<and> siChanged i' = siChanged i \<and> siSchedId i' = siSchedId i"
  by (cases v) (auto simp: checkNonArrFieldChanged_def getInt_def marks_def split: if_splits)

lemma checkChanges_marks:
  assumes "checkChanges (JObj ms) k i = Inr i'" "getFieldFromString k = Some f"
  shows "set (siChanged i') = set (siChanged i) \<union> (case map_of ms k of Some v \<Rightarrow> if marks v then {f} else {} | None \<Rightarrow> {})
    \<and> siSchedId i' = siSchedId i"
proof (cases "map_of ms k")
  case None
  with assms show ?thesis by (simp add: checkChanges_def)
next
  case (Some v)
  show ?thesis
  proof (cases "\<exists>arr. v = JArr arr")
    case True
    then obtain arr where arr: "v = JArr arr" by blast
    with Some assms obtain b i1 where c: "checkArrFieldChanged arr f i = Inr (b, i1)"
        "i' = (if b then setChanged f i1 else i1)"
      by (force simp: checkChanges_def bindR_Inr_iff)
    from checkArr_marks [OF c(1)] show ?thesis by (auto simp: c(2) Some arr marks_def)
  next
    case False
    then have "checkChanges (JObj ms) k i = bindR (checkNonArrFieldChanged v f i)
        (\<lambda>(b, i1). Inr (if b then setChanged f i1 else i1))"
      using Some assms(2) by (cases v) (auto simp: checkChanges_def)
    with assms(1) obtain b i1 where c: "checkNonArrFieldChanged v f i = Inr (b, i1)"
        "i' = (if b then setChanged f i1 else i1)"
      by (auto simp: bindR_Inr_iff)
    have "\<forall>arr. v \<noteq> JArr arr" using False by blast
    from checkNonArr_marks [OF this c(1)] show ?thesis by (auto simp: c(2) Some)
  qed
qed

lemma checkAll_marks:
  assumes "checkAll (JObj ms) ks i = Inr i'" "\<forall>k \<in> set ks. getFieldFromString k \<noteq> None"
  shows "set (siChanged i') = set (siChanged i) \<union>
      {f. \<exists>k \<in> set ks. \<exists>v. getFieldFromString k = Some f \<and> map_of ms k = Some v \<and> marks v}
    \<and> siSchedId i' = siSchedId i"
  using assms
proof (induction ks arbitrary: i)
  case Nil
  then show ?case by simp
next
  case (Cons k ks)
  then obtain i1 f where s: "checkChanges (JObj ms) k i = Inr i1" "checkAll (JObj ms) ks i1 = Inr i'"
      "getFieldFromString k = Some f"
    by (auto simp: bindR_Inr_iff)
  from checkChanges_marks [OF s(1,3)] Cons.IH [OF s(2)] Cons.prems(2) s(3) show ?case
    by (auto split: option.splits if_splits)
qed

lemma getField_changeKeys: "\<forall>k \<in> set changeKeys. getFieldFromString k \<noteq> None"
  by (simp add: changeKeys_def getFieldFromString_def)

lemma fromBuffer_enc:
  assumes "length j < 2 ^ 63"
  shows "SchedMeetingInfo_fromBuffer parse (encSchedMeetingInfo i j) =
    (case parse j of
       DocError \<Rightarrow> Inr None
     | DocEmpty \<Rightarrow> Inr (Some \<lparr>siSchedId = i, siChanged = [SC_NEW_SCHED], siRules = None, siInfo = []\<rparr>)
     | Doc d \<Rightarrow> bindR (checkAll d changeKeys \<lparr>siSchedId = i, siChanged = [], siRules = None, siInfo = []\<rparr>) (\<lambda>i. Inr (Some i)))"
proof -
  have "of_le (slice (encSchedMeetingInfo i j) 8 8) = length j" "slice (encSchedMeetingInfo i j) 0 8 = le64 i"
    "slice (encSchedMeetingInfo i j) 16 (length j) = j" "length (encSchedMeetingInfo i j) = 16 + length j"
    using assms by (simp_all add: encSchedMeetingInfo_def slice_def)
  then show ?thesis using assms
    by (auto simp: SchedMeetingInfo_fromBuffer_def encSchedMeetingInfo_def Let_def)
qed

section \<open>Properties\<close>

text \<open>
  A changeset written into a message and read back is the one of the meeting it was written for,
  and a field is marked as changed exactly when the JSON object has a two-element array or the number
  one under its key; other keys and single values mark nothing.
\<close>
theorem sched_changeset:
  assumes "length j < 2 ^ 63" "parse j = Doc (JObj ms)"
    and "SchedMeetingInfo_fromBuffer parse (encSchedMeetingInfo i j) = Inr (Some info)"
  shows "siSchedId info = i \<and> set (siChanged info) =
    {f. \<exists>k \<in> set changeKeys. \<exists>v. getFieldFromString k = Some f \<and> map_of ms k = Some v \<and> marks v}"
proof -
  have "checkAll (JObj ms) changeKeys \<lparr>siSchedId = i, siChanged = [], siRules = None, siInfo = []\<rparr> = Inr info"
    using assms(3) unfolding fromBuffer_enc [OF assms(1)] assms(2) by (auto simp: bindR_Inr_iff)
  from checkAll_marks [OF this getField_changeKeys] show ?thesis by simp
qed

theorem sched_changeset_witness:
  "\<exists>info. SchedMeetingInfo_fromBuffer (\<lambda>_. Doc (JObj [(''t'', JArr [JStr ''a'', JStr ''b''])]))
      (encSchedMeetingInfo 5 [1]) = Inr (Some info) \<and> set (siChanged info) = {SC_TITLE}"
proof -
  let ?p = "\<lambda>_. Doc (JObj [(''t'', JArr [JStr ''a'', JStr ''b''])])"
  obtain info where i: "SchedMeetingInfo_fromBuffer ?p (encSchedMeetingInfo 5 [1]) = Inr (Some info)"
    by (auto simp: fromBuffer_enc changeKeys_def checkChanges_def getFieldFromString_def
        checkArrFieldChanged_def Let_def)
  from sched_changeset [OF _ _ this, of "[(''t'', JArr [JStr ''a'', JStr ''b''])]"] i show ?thesis
    by (auto simp: changeKeys_def getFieldFromString_def marks_def)
qed

text \<open>
  The frequency of a recurrence rule is read wrongly: \<open>std::string::compare\<close> is used as if it
  returned true for equal strings, so the key of the daily frequency gives the weekly one and every
  other text, the keys of the weekly and monthly ones included, gives the daily one.
\<close>
theorem getFreqVal_inverted:
  "getFreqVal ''d'' = FREQ_WEEKLY \<and> getFreqVal ''w'' = FREQ_DAILY \<and> getFreqVal ''m'' = FREQ_DAILY \<and>
   getFreqVal s \<in> {FREQ_DAILY, FREQ_WEEKLY}"
  by (simp add: getFreqVal_def compareNZ_def)

end
