(* ===== verification/ChatCommand.thy ===== *)
theory ChatCommand
  imports ChatdTypes
begin

text \<open>
  The commands sent to chatd: \<open>Command\<close>, \<open>KeyCommand\<close> (\<open>NEWKEY\<close>) and \<open>MsgCommand\<close> of
  \<open>src/chatdMsg.h\<close>.  A command is its byte sequence, built by appends and by writes at fixed offsets
  (\<open>bwrite\<close>, which \<open>Buffer::write\<close> refines); integers are written as their object representation.
\<close>

section \<open>Commands\<close>

definition newCommand :: "Opcode \<Rightarrow> bytes" where
  "newCommand op = [opcodeVal op]"

definition cmdAddId :: "bytes \<Rightarrow> Id \<Rightarrow> bytes" where
  "cmdAddId c i = c @ le64 i"

definition cmdAdd8 :: "bytes \<Rightarrow> byte \<Rightarrow> bytes" where
  "cmdAdd8 c b = c @ [b]"

definition cmdAdd32 :: "bytes \<Rightarrow> u32 \<Rightarrow> bytes" where
  "cmdAdd32 c w = c @ le32 w"

definition cmdAddBuffer :: "bytes \<Rightarrow> bytes \<Rightarrow> bytes" where
  "cmdAddBuffer c msg = c @ le32 (word_of_nat (length msg)) @ msg"

definition cmdAddString :: "bytes \<Rightarrow> bytes \<Rightarrow> bytes" where
  "cmdAddString c s = c @ s"

definition cmdOpcode :: "bytes \<Rightarrow> byte res" where
  "cmdOpcode c = read8 c 0"

definition isMessageOp :: "byte \<Rightarrow> bool" where
  "isMessageOp op \<longleftrightarrow> op = opcodeVal OP_NEWMSG \<or> op = opcodeVal OP_NEWNODEMSG \<or> op = opcodeVal OP_MSGUPD \<or>
     op = opcodeVal OP_MSGUPDX"

definition cmdIsMessage :: "bytes \<Rightarrow> bool res" where
  "cmdIsMessage c = bindR (cmdOpcode c) (\<lambda>op. Inr (isMessageOp op))"

section \<open>Key commands\<close>

record KeyCommand =
  mLocalKeyid :: KeyId
  kcBuf :: bytes

definition newKeyCommand :: "Id \<Rightarrow> KeyId \<Rightarrow> KeyCommand res" where
  "newKeyCommand chatid aLocalkeyid =
    (if \<not> (isValidKeyxId aLocalkeyid \<or> aLocalkeyid = CHATD_KEYID_INVALID) then Inl AssertFail
     else Inr \<lparr>mLocalKeyid = aLocalkeyid,
       kcBuf = newCommand OP_NEWKEY @ le64 chatid @ le32 aLocalkeyid @ le32 0\<rparr>)"

definition kcKeyId :: "KeyCommand \<Rightarrow> KeyId res" where
  "kcKeyId k = read32 (kcBuf k) 9"

definition kcSetChatId :: "KeyCommand \<Rightarrow> Id \<Rightarrow> KeyCommand" where
  "kcSetChatId k c = k\<lparr>kcBuf := bwrite 1 (le64 c) (kcBuf k)\<rparr>"

definition kcSetKeyId :: "KeyCommand \<Rightarrow> KeyId \<Rightarrow> KeyCommand" where
  "kcSetKeyId k i = k\<lparr>kcBuf := bwrite 9 (le32 i) (kcBuf k)\<rparr>"

text \<open>The key has a 16-bit length; \<open>keydata\<close> is the run of that many bytes.\<close>

definition addKey :: "KeyCommand \<Rightarrow> Id \<Rightarrow> bytes \<Rightarrow> KeyCommand res" where
  "addKey k u keydata =
    (if keydata = [] then Inl AssertFail
     else bindR (read32 (kcBuf k) 13) (\<lambda>payloadSize.
       Inr (k\<lparr>kcBuf := bwrite 13 (le32 (payloadSize + word_of_nat (10 + length keydata))) (kcBuf k)
          @ le64 u @ le16 (word_of_nat (length keydata)) @ keydata\<rparr>)))"

text \<open>
  The search of a user's key.  It reads the receiver and the length of an entry without looking at
  the end of the buffer.
\<close>

function seekKey :: "bytes \<Rightarrow> Id \<Rightarrow> nat \<Rightarrow> nat res" where
  "seekKey buf u pos =
    (if pos < length buf
     then (if pos + 10 > length buf then Inl OutOfBounds
           else let receiver = word_of_nat (of_le (slice buf pos 8));
                    keylen = of_le (slice buf (pos + 8) 2)
                in if receiver = u then Inr (pos + 10) else seekKey buf u (pos + 10 + keylen))
     else Inr pos)"
  by pat_completeness auto
termination by (relation "measure (\<lambda>(buf, u, pos). length buf - pos)") auto

declare seekKey.simps [simp del]

definition getKeyByUserId :: "KeyCommand \<Rightarrow> Id \<Rightarrow> bytes res" where
  "getKeyByUserId k u =
    bindR (seekKey (kcBuf k) u 17) (\<lambda>pos.
      if pos \<ge> length (kcBuf k)
      then Inl (RuntimeError ''Error getting a version of the encryption key encrypted to us'')
      else if length (kcBuf k) - pos < 16
      then Inl (RuntimeError ''Unexpected key entry length - must be 26 bytes'')
      else Inr (slice (kcBuf k) pos 16))"

definition hasKeys :: "KeyCommand \<Rightarrow> bool" where
  "hasKeys k \<longleftrightarrow> length (kcBuf k) > 17"

definition keybloblen :: "KeyCommand \<Rightarrow> u32 res" where
  "keybloblen k = read32 (kcBuf k) 13"

definition keyblob :: "KeyCommand \<Rightarrow> bytes res" where
  "keyblob k = bindR (keybloblen k) (\<lambda>len. readPtr (kcBuf k) 17 (unat len))"

text \<open>
  \<open>setKeyBlobs\<close> writes the length as a \<open>size_t\<close> of eight bytes, over the first four bytes of the
  key blob, which are then written themselves; \<open>setDataSize\<close> sets the size of the data.
\<close>

definition setKeyBlobs :: "KeyCommand \<Rightarrow> bytes \<Rightarrow> KeyCommand" where
  "setKeyBlobs k blob = k\<lparr>kcBuf := take (17 + length blob) (bwrite 17 blob (bwrite 13 (leSize (length blob)) (kcBuf k)))\<rparr>"

definition clearKeys :: "KeyCommand \<Rightarrow> KeyCommand" where
  "clearKeys k = k\<lparr>kcBuf := take 17 (kcBuf k)\<rparr>"

section \<open>Message commands\<close>

definition newMsgCommand :: "Opcode \<Rightarrow> Id \<Rightarrow> Id \<Rightarrow> Id \<Rightarrow> u32 \<Rightarrow> u16 \<Rightarrow> KeyId \<Rightarrow> bytes" where
  "newMsgCommand op chatid u msgid t upd k =
    bwrite 35 (le32 0) (bwrite 31 (le32 k) (bwrite 29 (le16 upd) (bwrite 25 (le32 t)
      (bwrite 17 (le64 msgid) (bwrite 9 (le64 u) (bwrite 1 (le64 chatid) (newCommand op)))))))"

definition mcMsgid :: "bytes \<Rightarrow> Id res" where "mcMsgid c = read64 c 17"
definition mcUserId :: "bytes \<Rightarrow> Id res" where "mcUserId c = read64 c 9"
definition mcSetId :: "bytes \<Rightarrow> Id \<Rightarrow> bytes" where "mcSetId c i = bwrite 17 (le64 i) c"
definition mcKeyId :: "bytes \<Rightarrow> KeyId res" where "mcKeyId c = read32 c 31"
definition mcSetKeyId :: "bytes \<Rightarrow> KeyId \<Rightarrow> bytes" where "mcSetKeyId c k = bwrite 31 (le32 k) c"
definition mcMsglen :: "bytes \<Rightarrow> u32 res" where "mcMsglen c = read32 c 35"
definition mcUpdated :: "bytes \<Rightarrow> u16 res" where "mcUpdated c = read16 c 29"
definition mcTs :: "bytes \<Rightarrow> u32 res" where "mcTs c = read32 c 25"

definition mcMsg :: "bytes \<Rightarrow> bytes res" where
  "mcMsg c = bindR (mcMsglen c) (\<lambda>len. readPtr c 39 (unat len))"

definition mcClearMsg :: "bytes \<Rightarrow> bytes res" where
  "mcClearMsg c = bindR (mcMsglen c) (\<lambda>len.
    if len > 0
    then (if 39 + unat len \<le> length c
          then Inr (bwrite 35 (le32 0) (bwrite 39 (replicate (unat len) 0) c)) else Inl OutOfBounds)
    else Inr (bwrite 35 (le32 0) c))"

text \<open>As in \<open>setKeyBlobs\<close>, the length is written as eight bytes, but the data size is not set.\<close>

definition mcSetMsg :: "bytes \<Rightarrow> bytes \<Rightarrow> bytes" where
  "mcSetMsg c msg = bwrite 39 msg (bwrite 35 (leSize (length msg)) c)"

definition mcUpdateMsgSize :: "bytes \<Rightarrow> bytes" where
  "mcUpdateMsgSize c = bwrite 35 (le32 (word_of_nat (szsub (length c) 39))) c"

section \<open>Layout of a message command\<close>

lemma newMsgCommand_eq:
  "newMsgCommand op chatid u msgid t upd k =
    opcodeVal op # le64 chatid @ le64 u @ le64 msgid @ le32 t @ le16 upd @ le32 k @ le32 0"
proof -
  have e: "bwrite n d (xs) = xs @ d" if "length xs = n" for n and d xs :: bytes
    using that by (simp add: bwrite_def)
  show ?thesis unfolding newMsgCommand_def newCommand_def by (simp add: e)
qed

lemma length_newMsgCommand [simp]: "length (newMsgCommand op chatid u msgid t upd k) = 39"
  by (simp add: newMsgCommand_eq)

lemma newMsgCommand_fields:
  assumes c: "c = newMsgCommand op chatid u msgid t upd k"
  shows "cmdOpcode c = Inr (opcodeVal op)" "mcMsgid c = Inr msgid" "mcUserId c = Inr u" "mcKeyId c = Inr k"
    "mcTs c = Inr t" "mcUpdated c = Inr upd" "mcMsglen c = Inr 0" "mcMsg c = Inr []"
  by (simp_all add: c newMsgCommand_eq cmdOpcode_def mcMsgid_def mcUserId_def mcKeyId_def mcTs_def
      mcUpdated_def mcMsglen_def mcMsg_def reads_ok slice_def)

lemma leSize_split: "n < 2 ^ 32 \<Longrightarrow> leSize n = le32 (word_of_nat n) @ [0, 0, 0, 0]"
proof -
  assume "n < 2 ^ 32"
  then have "unat (word_of_nat n :: u32) = n"
    by (simp add: unat_of_nat take_bit_nat_eq_self)
  moreover from \<open>n < 2 ^ 32\<close> have "n div 256 div 256 div 256 div 256 = 0" by simp
  ultimately show ?thesis by (simp add: leSize_def le32_def to_le_numeral)
qed

lemma mcSetMsg_layout:
  assumes "length c = 39" "length msg < 2 ^ 32"
  shows "mcSetMsg c msg = take 35 c @ le32 (word_of_nat (length msg)) @ msg @ replicate (4 - length msg) 0"
proof -
  have "bwrite 35 (leSize (length msg)) c = take 35 c @ le32 (word_of_nat (length msg)) @ [0, 0, 0, 0]"
    using assms by (simp add: bwrite_def leSize_split)
  moreover have "drop (length msg) [0, 0, 0, 0] = replicate (4 - length msg) (0 :: byte)"
  proof -
    have "[0, 0, 0, 0] = replicate 4 (0 :: byte)" by (simp add: numeral_eq_Suc)
    then show ?thesis by (metis drop_replicate)
  qed
  ultimately show ?thesis using assms(1) by (simp add: mcSetMsg_def bwrite_def)
qed

lemma mcMsg_setMsg:
  assumes "length c = 39" "length msg < 2 ^ 32"
  shows "mcMsg (mcSetMsg c msg) = Inr msg"
proof -
  let ?c = "mcSetMsg c msg"
  have l: "length (take 35 c) = 35" using assms(1) by simp
  have len: "length ?c = 39 + length msg + (4 - length msg)"
    using assms by (simp add: mcSetMsg_layout)
  have "slice ?c 35 4 = le32 (word_of_nat (length msg))"
    using l by (simp add: mcSetMsg_layout [OF assms] slice_def)
  then have "mcMsglen ?c = Inr (word_of_nat (length msg))"
    using len assms(2) by (simp add: mcMsglen_def reads_ok)
  moreover have "unat (word_of_nat (length msg) :: u32) = length msg"
    using assms(2) by (simp add: unat_of_nat take_bit_nat_eq_self)
  moreover have "slice ?c 39 (length msg) = msg"
    using l by (simp add: mcSetMsg_layout [OF assms] slice_def)
  ultimately show ?thesis using len assms(2) by (simp add: mcMsg_def)
qed


section \<open>Layout of a key command\<close>

definition keyEntries :: "(Id \<times> bytes) list \<Rightarrow> bytes" where
  "keyEntries ks = concat (map (\<lambda>(u, k). le64 u @ le16 (word_of_nat (length k)) @ k) ks)"

definition kcLayout :: "Id \<Rightarrow> KeyId \<Rightarrow> (Id \<times> bytes) list \<Rightarrow> bytes" where
  "kcLayout chatid keyid ks = (opcodeVal OP_NEWKEY # le64 chatid @ le32 keyid) @
     le32 (word_of_nat (length (keyEntries ks))) @ keyEntries ks"

lemma keyEntries_simps [simp]:
  "keyEntries [] = []"
  "keyEntries ((u, k) # ks) = le64 u @ le16 (word_of_nat (length k)) @ k @ keyEntries ks"
  "keyEntries (ks @ ks') = keyEntries ks @ keyEntries ks'"
  by (simp_all add: keyEntries_def)

lemma unat_u16_small: "n < 65536 \<Longrightarrow> unat (word_of_nat n :: u16) = n"
  by (simp add: unat_of_nat take_bit_nat_eq_self)

lemma unat_u32_small: "n < 2 ^ 32 \<Longrightarrow> unat (word_of_nat n :: u32) = n"
  by (simp add: unat_of_nat take_bit_nat_eq_self)

lemma seekKey_step:
  assumes "length k < 65536" "buf = pre @ (le64 v @ le16 (word_of_nat (length k)) @ k) @ post"
  shows "seekKey buf u (length pre) =
    (if v = u then Inr (length pre + 10) else seekKey buf u (length pre + 10 + length k))"
  using assms by (subst seekKey.simps) (simp add: slice_def unat_u16_small)

lemma seekKey_found:
  assumes "map_of ks u = Some k" "\<forall>(v, key) \<in> set ks. length key < 65536"
  shows "\<exists>pre' post'. pre @ keyEntries ks = pre' @ k @ post' \<and> seekKey (pre @ keyEntries ks) u (length pre) = Inr (length pre')"
  using assms
proof (induction ks arbitrary: pre)
  case Nil
  then show ?case by simp
next
  case (Cons x ks)
  obtain v key where x: "x = (v, key)" by (cases x)
  let ?e = "le64 v @ le16 (word_of_nat (length key)) @ key"
  have st: "seekKey (pre @ keyEntries (x # ks)) u (length pre) =
      (if v = u then Inr (length pre + 10) else seekKey (pre @ keyEntries (x # ks)) u (length pre + 10 + length key))"
    by (rule seekKey_step [of key _ pre v "keyEntries ks"]) (use Cons.prems(2) in \<open>auto simp: x\<close>)
  show ?case
  proof (cases "v = u")
    case True
    with Cons.prems(1) have "k = key" by (simp add: x)
    with True st show ?thesis
      by (intro exI [of _ "pre @ le64 v @ le16 (word_of_nat (length key))"] exI [of _ "keyEntries ks"]) (simp add: x)
  next
    case False
    with Cons.prems have "\<exists>pre' post'. (pre @ ?e) @ keyEntries ks = pre' @ k @ post' \<and>
        seekKey ((pre @ ?e) @ keyEntries ks) u (length (pre @ ?e)) = Inr (length pre')"
      by (intro Cons.IH) (auto simp: x)
    with False st show ?thesis by (simp add: x add.assoc)
  qed
qed

lemma seekKey_missing:
  assumes "map_of ks u = None" "\<forall>(v, key) \<in> set ks. length key < 65536"
  shows "seekKey (pre @ keyEntries ks) u (length pre) = Inr (length (pre @ keyEntries ks))"
  using assms
proof (induction ks arbitrary: pre)
  case Nil
  then show ?case by (subst seekKey.simps) simp
next
  case (Cons x ks)
  obtain v key where x: "x = (v, key)" by (cases x)
  let ?e = "le64 v @ le16 (word_of_nat (length key)) @ key"
  have st: "seekKey (pre @ keyEntries (x # ks)) u (length pre) =
      (if v = u then Inr (length pre + 10) else seekKey (pre @ keyEntries (x # ks)) u (length pre + 10 + length key))"
    by (rule seekKey_step [of key _ pre v "keyEntries ks"]) (use Cons.prems(2) in \<open>auto simp: x\<close>)
  have "v \<noteq> u" "map_of ks u = None" using Cons.prems(1) by (auto simp: x split: if_splits)
  with Cons.IH [of "pre @ ?e"] Cons.prems(2) st show ?case by (simp add: x add.assoc)
qed

lemma kcLayout_pre: "kcLayout c i ks = (opcodeVal OP_NEWKEY # le64 c @ le32 i @ le32 (word_of_nat (length (keyEntries ks)))) @ keyEntries ks"
  by (simp add: kcLayout_def)

lemma getKey_layout:
  assumes "kcBuf k = kcLayout c i ks" "\<forall>(v, key) \<in> set ks. length key = 16"
  shows "getKeyByUserId k u = (case map_of ks u of
      Some key \<Rightarrow> Inr key
    | None \<Rightarrow> Inl (RuntimeError ''Error getting a version of the encryption key encrypted to us''))"
proof -
  let ?pre = "opcodeVal OP_NEWKEY # le64 c @ le32 i @ le32 (word_of_nat (length (keyEntries ks)))"
  have l: "length ?pre = 17" by simp
  have short: "\<forall>(v, key) \<in> set ks. length key < 65536" using assms(2) by auto
  show ?thesis
  proof (cases "map_of ks u")
    case None
    from seekKey_missing [OF None short, of ?pre] show ?thesis
      unfolding getKeyByUserId_def assms(1) kcLayout_pre l by (simp add: None)
  next
    case (Some key)
    then have k16: "length key = 16" using assms(2) by (auto dest: map_of_SomeD)
    from seekKey_found [OF Some short, of ?pre] obtain pre' post' where
      e: "?pre @ keyEntries ks = pre' @ key @ post'" and s: "seekKey (?pre @ keyEntries ks) u 17 = Inr (length pre')"
      unfolding l by blast
    have s': "seekKey (pre' @ key @ post') u 17 = Inr (length pre')" using s unfolding e .
    show ?thesis
      unfolding getKeyByUserId_def assms(1) kcLayout_pre e using k16 by (simp add: s' Some slice_def)
  qed
qed

lemma newKeyCommand_layout:
  "isLocalKeyId i \<or> i = CHATD_KEYID_INVALID \<Longrightarrow>
    newKeyCommand c i = Inr \<lparr>mLocalKeyid = i, kcBuf = kcLayout c i []\<rparr>"
  by (auto simp: newKeyCommand_def isValidKeyxId_eq kcLayout_def newCommand_def)

lemma addKey_layout:
  assumes "kcBuf k = kcLayout c i ks" "key \<noteq> []" "length (keyEntries ks) + 10 + length key < 2 ^ 32"
  shows "addKey k u key = Inr (k\<lparr>kcBuf := kcLayout c i (ks @ [(u, key)])\<rparr>)"
proof -
  let ?h = "opcodeVal OP_NEWKEY # le64 c @ le32 i"
  let ?n = "length (keyEntries ks)"
  have h: "length ?h = 13" by simp
  have r: "read32 (kcBuf k) 13 = Inr (word_of_nat ?n)"
    using assms(3) by (simp add: assms(1) kcLayout_def reads_ok slice_def)
  have w: "bwrite 13 (le32 p) (kcBuf k) = ?h @ le32 p @ keyEntries ks" for p
    using h by (simp add: assms(1) kcLayout_def bwrite_def)
  show ?thesis using assms(2)
    by (simp add: addKey_def r w kcLayout_def add.assoc add.commute)
qed

lemma keyblob_layout:
  assumes "kcBuf k = kcLayout c i ks" "length (keyEntries ks) < 2 ^ 32"
  shows "keyblob k = Inr (keyEntries ks)"
proof -
  have "keybloblen k = Inr (word_of_nat (length (keyEntries ks)))"
    using assms(2) by (simp add: keybloblen_def assms(1) kcLayout_def reads_ok slice_def)
  then show ?thesis using assms(2)
    by (simp add: keyblob_def unat_u32_small assms(1) kcLayout_def slice_def)
qed

definition addKeys :: "KeyCommand \<Rightarrow> (Id \<times> bytes) list \<Rightarrow> KeyCommand res" where
  "addKeys k ks = foldl (\<lambda>r (u, key). bindR r (\<lambda>k. addKey k u key)) (Inr k) ks"

lemma addKeys_layout:
  assumes "kcBuf k = kcLayout c i ks0" "\<forall>(v, key) \<in> set ks. key \<noteq> []"
    "length (keyEntries (ks0 @ ks)) < 2 ^ 32"
  shows "addKeys k ks = Inr (k\<lparr>kcBuf := kcLayout c i (ks0 @ ks)\<rparr>)"
  using assms
proof (induction ks arbitrary: k ks0)
  case Nil
  then show ?case by (simp add: addKeys_def flip: Nil(1))
next
  case (Cons x ks)
  obtain u key where x: "x = (u, key)" by (cases x)
  have a: "addKey k u key = Inr (k\<lparr>kcBuf := kcLayout c i (ks0 @ [(u, key)])\<rparr>)"
    using Cons.prems by (intro addKey_layout) (auto simp: x)
  from Cons.IH [of "k\<lparr>kcBuf := kcLayout c i (ks0 @ [(u, key)])\<rparr>" "ks0 @ [(u, key)]"] Cons.prems
  show ?case by (simp add: addKeys_def x a)
qed

lemma keyEntries_length16: "\<forall>(v, key) \<in> set ks. length key = 16 \<Longrightarrow> length (keyEntries ks) = 26 * length ks"
  by (induction ks) auto

lemma setKeyBlobs_append:
  assumes "kcBuf k = h @ rest" "length h = 13" "4 \<le> length rest" "length blob < 2 ^ 32"
  shows "kcBuf (setKeyBlobs k blob) = h @ le32 (word_of_nat (length blob)) @ blob"
proof -
  have "bwrite 13 (leSize (length blob)) (kcBuf k) = h @ le32 (word_of_nat (length blob)) @ [0, 0, 0, 0] @ drop 8 rest"
    using assms by (simp add: bwrite_def leSize_split)
  then show ?thesis using assms(2) by (simp add: setKeyBlobs_def bwrite_def)
qed

lemmas setKeyBlobs_layout = setKeyBlobs_append [of _ "opcodeVal OP_NEWKEY # le64 c @ le32 i" for c i]

section \<open>Properties\<close>

text \<open>
  A \<open>NEWKEY\<close> command filled with one 16-byte key per user announces exactly the length of its key
  blob, the blob is the list of entries, and looking a user up gives the first key stored for that
  user or the error for a user without one, without reading outside the command.
\<close>
theorem keyCommand_lookup:
  assumes "isLocalKeyId i" "\<forall>(v, key) \<in> set ks. length key = 16" "length ks < 2 ^ 27"
  shows "\<exists>k k'. newKeyCommand c i = Inr k \<and> addKeys k ks = Inr k' \<and>
    keyblob k' = Inr (keyEntries ks) \<and>
    getKeyByUserId k' u = (case map_of ks u of Some key \<Rightarrow> Inr key
      | None \<Rightarrow> Inl (RuntimeError ''Error getting a version of the encryption key encrypted to us''))"
proof -
  let ?k = "\<lparr>mLocalKeyid = i, kcBuf = kcLayout c i []\<rparr>"
  have len: "length (keyEntries ks) < 2 ^ 32" using assms(2,3) by (simp add: keyEntries_length16)
  have add: "addKeys ?k ks = Inr (?k\<lparr>kcBuf := kcLayout c i ks\<rparr>)"
  proof (subst addKeys_layout [of ?k c i "[]" ks])
    show "\<forall>(v, key) \<in> set ks. key \<noteq> []" using assms(2) by fastforce
  qed (use len in simp_all)
  show ?thesis
    using newKeyCommand_layout [of i c] assms(1) add keyblob_layout [OF _ len, of "?k\<lparr>kcBuf := kcLayout c i ks\<rparr>" c i]
      getKey_layout [OF _ assms(2), of "?k\<lparr>kcBuf := kcLayout c i ks\<rparr>" c i u]
    by simp
qed

theorem keyCommand_lookup_witness:
  "\<exists>k k'. newKeyCommand 9 0xffff0001 = Inr k \<and> addKeys k [(1, replicate 16 7), (2, replicate 16 8)] = Inr k' \<and>
     getKeyByUserId k' 2 = Inr (replicate 16 8)"
proof -
  have "isLocalKeyId 0xffff0001" by (simp add: isLocalKeyId_def CHATD_KEYID_MIN_def)
  from keyCommand_lookup [OF this, of "[(1, replicate 16 7), (2, replicate 16 8)]" 9 2]
  show ?thesis by auto
qed

text \<open>
  The fields of a message command are read back as they were given, and after setting the message
  its length and bytes are; but a message shorter than four bytes leaves the command longer than its
  header and its message, because the length is written as eight bytes: the excess zero bytes are
  sent to the server behind the message.
\<close>
theorem msgCommand_setMsg:
  assumes "c = newMsgCommand op chatid u msgid t upd k" "length msg < 2 ^ 32"
  shows "cmdOpcode c = Inr (opcodeVal op) \<and> mcMsgid c = Inr msgid \<and> mcUserId c = Inr u \<and> mcKeyId c = Inr k \<and>
    mcTs c = Inr t \<and> mcUpdated c = Inr upd \<and> mcMsg (mcSetMsg c msg) = Inr msg \<and>
    length (mcSetMsg c msg) = 39 + max 4 (length msg)"
proof -
  have l: "length c = 39" by (simp add: assms(1))
  have "length (mcSetMsg c msg) = 39 + max 4 (length msg)"
    using l by (simp add: mcSetMsg_layout [OF l assms(2)])
  then show ?thesis using newMsgCommand_fields [OF assms(1)] mcMsg_setMsg [OF l assms(2)] by simp
qed

theorem msgCommand_setMsg_witness:
  "length (mcSetMsg (newMsgCommand OP_NEWMSG 1 2 3 4 0 0xffff0001) [65]) = 43 \<and>
   mcMsg (mcSetMsg (newMsgCommand OP_NEWMSG 1 2 3 4 0 0xffff0001) [65]) = Inr [65]"
  using msgCommand_setMsg [OF refl, of "[65]" OP_NEWMSG 1 2 3 4 0 "0xffff0001"] by simp

text \<open>
  Restoring the key blob of a stored \<open>NEWKEY\<close> command gives a command whose announced length and
  blob are those restored, whatever the command held before and however short the blob is.
\<close>
theorem setKeyBlobs_restores:
  assumes "kcBuf k = (opcodeVal OP_NEWKEY # le64 c @ le32 i) @ rest" "4 \<le> length rest" "length blob < 2 ^ 32"
  shows "keyblob (setKeyBlobs k blob) = Inr blob \<and> length (kcBuf (setKeyBlobs k blob)) = 17 + length blob \<and>
    kcKeyId (setKeyBlobs k blob) = Inr i"
proof -
  note lay = setKeyBlobs_layout [OF assms(1) _ assms(2,3), simplified]
  have "keybloblen (setKeyBlobs k blob) = Inr (word_of_nat (length blob))"
    using assms(3) by (simp add: keybloblen_def lay reads_ok slice_def)
  then show ?thesis using assms(3)
    by (simp add: keyblob_def unat_u32_small lay slice_def kcKeyId_def reads_ok)
qed

theorem setKeyBlobs_restores_witness:
  "keyblob (setKeyBlobs \<lparr>mLocalKeyid = 0xffff0001, kcBuf = kcLayout 9 0xffff0001 []\<rparr> [1, 2, 3]) = Inr [1, 2, 3]"
  using setKeyBlobs_restores [of "\<lparr>mLocalKeyid = 0xffff0001, kcBuf = kcLayout 9 0xffff0001 []\<rparr>" 9 "0xffff0001" "le32 0" "[1, 2, 3]"]
  by (simp add: kcLayout_def)

end
