(* ===== verification/ChatdDb.thy ===== *)
theory ChatdDb
  imports ChatMessage ChatCommand
begin

text \<open>
  The local cache of the chats, \<open>ChatdSqliteDb\<close> of \<open>src/chatdDb.h\<close>, with the tables of
  \<open>src/dbSchema.sql\<close> as lists of rows.  Every statement of the class is translated: the
  \<open>where\<close> clause is a filter, \<open>order by\<close> a stable sort, \<open>limit\<close> a prefix, a violated \<open>UNIQUE\<close>
  or foreign key an exception, and deleting a message deletes its reactions (\<open>on delete cascade\<close>).

  Indexes are 32-bit integers of the message buffer; \<open>CHATD_IDX_INVALID\<close> stands for none.
\<close>

type_synonym Idx = int

abbreviation CHATD_IDX_INVALID :: Idx where "CHATD_IDX_INVALID \<equiv> 0x7fffffff"
abbreviation CHATD_IDX_RANGE_MIDDLE :: Idx where "CHATD_IDX_RANGE_MIDDLE \<equiv> 0"

section \<open>Items of the sending queue\<close>

record SendingItem =
  siOpcode :: Opcode
  siMsg :: Message
  siRecipients :: "Id set"
  siRowid :: nat
  siMsgCmd :: "bytes option"
  siKeyCmd :: "KeyCommand option"

definition newSendingItem :: "Opcode \<Rightarrow> Message \<Rightarrow> Id set \<Rightarrow> nat \<Rightarrow> SendingItem" where
  "newSendingItem op m rcpts rowid =
    \<lparr>siOpcode = op, siMsg = m, siRecipients = rcpts, siRowid = rowid, siMsgCmd = None, siKeyCmd = None\<rparr>"

definition itemIsMessage :: "SendingItem \<Rightarrow> bool" where
  "itemIsMessage i \<longleftrightarrow> siOpcode i = OP_NEWMSG \<or> siOpcode i = OP_NEWNODEMSG \<or> siOpcode i = OP_MSGUPD \<or> siOpcode i = OP_MSGUPDX"

definition itemIsEdit :: "SendingItem \<Rightarrow> bool" where
  "itemIsEdit i \<longleftrightarrow> siOpcode i = OP_MSGUPD \<or> siOpcode i = OP_MSGUPDX"

datatype ManualSendReason = kManualSendInvalidReason | kManualSendUsersChanged | kManualSendTooOld
  | kManualSendGeneralReject | kManualSendNoWriteAccess | kManualSendEditNoChange

record ManualSendItem =
  msMsg :: Message
  msRowid :: nat
  msOpcode :: Opcode
  msReason :: ManualSendReason

record PendingReaction =
  prReaction :: string
  prReactionEnc :: bytes
  prMsgId :: Id
  prStatus :: byte

record ChatDbInfo =
  oldestDbId :: Id
  newestDbId :: Id
  lastSeenId :: Id
  lastRecvId :: Id
  oldestDbIdx :: Idx
  newestDbIdx :: Idx

definition emptyDbInfo :: ChatDbInfo where
  "emptyDbInfo = \<lparr>oldestDbId = Id_null, newestDbId = Id_null, lastSeenId = Id_null, lastRecvId = Id_null,
    oldestDbIdx = CHATD_IDX_INVALID, newestDbIdx = CHATD_IDX_RANGE_MIDDLE\<rparr>"

section \<open>Tables\<close>

record HistRow =
  hIdx :: Idx
  hChat :: Id
  hMsgid :: Id
  hUserid :: Id
  hKeyid :: KeyId
  hType :: byte
  hUpdated :: u16
  hTs :: u32
  hEnc :: byte
  hData :: bytes
  hBackref :: BackRefId

record SendRow =
  sRowid :: nat
  sChat :: Id
  sOpcode :: Opcode
  sTs :: u32
  sMsgid :: Id
  sMsg :: bytes
  sType :: byte
  sUpdated :: u16
  sRecipients :: bytes
  sBackref :: BackRefId
  sBackrefs :: bytes
  sKeyid :: KeyId
  sMsgCmd :: bytes
  sKeyCmd :: bytes

record ManualRow =
  mrChat :: Id
  mrRowid :: nat
  mrMsgid :: Id
  mrType :: byte
  mrTs :: u32
  mrUpdated :: u16
  mrMsg :: bytes
  mrOpcode :: Opcode
  mrReason :: ManualSendReason

record ChatRow =
  cChat :: Id
  cTsCreated :: u32
  cLastSeen :: Id
  cLastRecv :: Id
  cRsn :: string

record ReactionRow =
  rrChat :: Id
  rrMsgid :: Id
  rrUserid :: Id
  rrReaction :: string

record PendingRow =
  pdChat :: Id
  pdMsgid :: Id
  pdReaction :: string
  pdReactionEnc :: bytes
  pdStatus :: byte

record ChatdDb =
  dHistory :: "HistRow list"
  dNodeHistory :: "HistRow list"
  dSending :: "SendRow list"
  dLastRowid :: nat
  dManual :: "ManualRow list"
  dChats :: "ChatRow list"
  dVars :: "(Id \<times> string \<times> bool) list"
  dReactions :: "ReactionRow list"
  dPending :: "PendingRow list"

definition rowsOf :: "Id \<Rightarrow> HistRow list \<Rightarrow> HistRow list" where
  "rowsOf c t = filter (\<lambda>r. hChat r = c) t"

definition findRow :: "Id \<Rightarrow> Id \<Rightarrow> HistRow list \<Rightarrow> HistRow option" where
  "findRow c i t = List.find (\<lambda>r. hChat r = c \<and> hMsgid r = i) t"

definition findChat :: "ChatdDb \<Rightarrow> Id \<Rightarrow> ChatRow option" where
  "findChat d c = List.find (\<lambda>r. cChat r = c) (dChats d)"

definition noRows :: "string" where
  "noRows = ''SqliteStmt::stepMustHaveData: No rows returned''"

definition rowOf :: "Id \<Rightarrow> Idx \<Rightarrow> Message \<Rightarrow> HistRow" where
  "rowOf c idx m = \<lparr>hIdx = idx, hChat = c, hMsgid = mId m, hUserid = userid m, hKeyid = keyid m,
     hType = msgType m, hUpdated = updated m, hTs = ts m, hEnc = mIsEncrypted m, hData = mData m,
     hBackref = backRefId m\<rparr>"

text \<open>The message built from a row of \<open>history\<close> or \<open>node_history\<close>.\<close>

definition msgOfRow :: "HistRow \<Rightarrow> Message" where
  "msgOfRow r = (newMessage (hMsgid r) (hUserid r) (hTs r) (hUpdated r) (hData r) False (hKeyid r) (hType r) 0 [])
     \<lparr>backRefId := hBackref r, mIsEncrypted := hEnc r\<rparr>"

section \<open>History\<close>

definition getHistoryInfo :: "ChatdDb \<Rightarrow> Id \<Rightarrow> ChatDbInfo res" where
  "getHistoryInfo d c =
    (let rs = rowsOf c (dHistory d);
         mn = Min (hIdx ` set rs); mx = Max (hIdx ` set rs);
         idAt = \<lambda>i. (case List.find (\<lambda>r. hIdx r = i) rs of Some r \<Rightarrow> hMsgid r | None \<Rightarrow> Id_null)
     in if rs = [] then Inr emptyDbInfo
        else case findChat d c of
          None \<Rightarrow> Inl (RuntimeError noRows)
        | Some ch \<Rightarrow> Inr \<lparr>oldestDbId = (if idAt mx = Id_null then Id_null else idAt mn), newestDbId = idAt mx,
            lastSeenId = cLastSeen ch, lastRecvId = cLastRecv ch, oldestDbIdx = mn, newestDbIdx = mx\<rparr>)"

definition insertRow :: "HistRow \<Rightarrow> HistRow list \<Rightarrow> HistRow list res" where
  "insertRow n t =
    (if \<exists>r \<in> set t. hChat r = hChat n \<and> (hMsgid r = hMsgid n \<or> hIdx r = hIdx n)
     then Inl (RuntimeError ''UNIQUE constraint failed'') else Inr (t @ [n]))"

definition addMsgToHistory :: "ChatdDb \<Rightarrow> Id \<Rightarrow> Message \<Rightarrow> Idx \<Rightarrow> ChatdDb res" where
  "addMsgToHistory d c m idx = bindR (insertRow (rowOf c idx m) (dHistory d)) (\<lambda>t. Inr (d\<lparr>dHistory := t\<rparr>))"

definition updateMsgInHistory :: "ChatdDb \<Rightarrow> Id \<Rightarrow> Id \<Rightarrow> Message \<Rightarrow> ChatdDb res" where
  "updateMsgInHistory d c i m =
    (let hit = (\<lambda>r. hChat r = c \<and> hMsgid r = i);
         upd = (\<lambda>r. if msgType m = kMsgTruncate
           then r\<lparr>hType := msgType m, hData := mData m, hTs := ts m, hUpdated := 0, hUserid := userid m, hKeyid := keyid m\<rparr>
           else r\<lparr>hType := msgType m, hData := mData m, hUpdated := updated m, hUserid := userid m, hEnc := mIsEncrypted m\<rparr>)
     in if length (filter hit (dHistory d)) \<noteq> 1
        then Inl (RuntimeError ''updateMsgInHistory: unexpected number of rows affected'')
        else Inr (d\<lparr>dHistory := map (\<lambda>r. if hit r then upd r else r) (dHistory d)\<rparr>))"

definition getMessageDelta :: "ChatdDb \<Rightarrow> Id \<Rightarrow> Id \<Rightarrow> u16 res" where
  "getMessageDelta d c i = (case findRow c i (dHistory d) of None \<Rightarrow> Inl (RuntimeError noRows) | Some r \<Rightarrow> Inr (hUpdated r))"

text \<open>Two of the queries look a message up in every chat.\<close>

definition getMessageUserKeyId :: "ChatdDb \<Rightarrow> Id \<Rightarrow> (Id \<times> KeyId) res" where
  "getMessageUserKeyId d i = (case List.find (\<lambda>r. hMsgid r = i) (dHistory d) of
     None \<Rightarrow> Inl (RuntimeError noRows) | Some r \<Rightarrow> Inr (hUserid r, hKeyid r))"

definition isValidReactedMessage :: "ChatdDb \<Rightarrow> Id \<Rightarrow> bool \<times> Idx" where
  "isValidReactedMessage d i = (case List.find (\<lambda>r. hMsgid r = i) (dHistory d) of
     None \<Rightarrow> (False, CHATD_IDX_INVALID)
   | Some r \<Rightarrow> (\<not> ((hType r \<ge> kMsgManagementLowest \<and> hType r \<le> kMsgManagementHighest) \<or>
        (hUserid r = Id_COMMANDER \<and> hKeyid r = 0)), hIdx r))"

definition loadMessages :: "HistRow list \<Rightarrow> Id \<Rightarrow> nat \<Rightarrow> Idx \<Rightarrow> Message list" where
  "loadMessages t c count idx =
    map msgOfRow (take count (sort_key (\<lambda>r. - hIdx r) (filter (\<lambda>r. hChat r = c \<and> hIdx r \<le> idx) t)))"

definition fetchDbHistory :: "ChatdDb \<Rightarrow> Id \<Rightarrow> Idx \<Rightarrow> nat \<Rightarrow> Message list" where
  "fetchDbHistory d c idx count = loadMessages (dHistory d) c count idx"

definition getIdxOfMsgid :: "HistRow list \<Rightarrow> Id \<Rightarrow> Id \<Rightarrow> Idx" where
  "getIdxOfMsgid t c i = (case findRow c i t of Some r \<Rightarrow> hIdx r | None \<Rightarrow> CHATD_IDX_INVALID)"

definition getIdxOfMsgidFromHistory :: "ChatdDb \<Rightarrow> Id \<Rightarrow> Id \<Rightarrow> Idx" where
  "getIdxOfMsgidFromHistory d c i = getIdxOfMsgid (dHistory d) c i"

definition afterIdx :: "Idx \<Rightarrow> HistRow \<Rightarrow> bool" where
  "afterIdx idx r \<longleftrightarrow> (idx \<noteq> CHATD_IDX_INVALID \<longrightarrow> hIdx r > idx)"

definition getUnreadMsgCountAfterIdx :: "ChatdDb \<Rightarrow> Id \<Rightarrow> Id \<Rightarrow> Idx \<Rightarrow> nat" where
  "getUnreadMsgCountAfterIdx d c me idx =
    length (filter (\<lambda>r. hChat r = c \<and> hUserid r \<noteq> me \<and> \<not> (hUpdated r \<noteq> 0 \<and> length (hData r) = 0) \<and>
        (hEnc r = kNotEncrypted \<or> hEnc r = kEncryptedMalformed \<or> hEnc r = kEncryptedSignature) \<and>
        (hType r = kMsgNormal \<or> hType r = kMsgAttachment \<or> hType r = kMsgContact \<or>
         hType r = kMsgContainsMeta \<or> hType r = kMsgVoiceClip) \<and> afterIdx idx r) (dHistory d)) +
    length (filter (\<lambda>dat. let termCode = extractTermCodeEndCall dat
          in termCode = reasonVal kNoAnswer \<or> termCode = reasonVal kCancelled)
      (map hData (filter (\<lambda>r. hChat r = c \<and> hUserid r \<noteq> me \<and> hTs r > kTsMissingCallUnread \<and>
         hType r = kMsgCallEnd \<and> afterIdx idx r) (dHistory d))))"

text \<open>Deleting messages deletes the reactions to them.\<close>

definition deleteHistory :: "(HistRow \<Rightarrow> bool) \<Rightarrow> ChatdDb \<Rightarrow> ChatdDb" where
  "deleteHistory p d =
    (let gone = map (\<lambda>r. (hChat r, hMsgid r)) (filter p (dHistory d))
     in d\<lparr>dHistory := filter (\<lambda>r. \<not> p r) (dHistory d),
          dReactions := filter (\<lambda>r. (rrChat r, rrMsgid r) \<notin> set gone) (dReactions d),
          dPending := filter (\<lambda>r. (pdChat r, pdMsgid r) \<notin> set gone) (dPending d)\<rparr>)"

definition dbCleanReactions :: "ChatdDb \<Rightarrow> Id \<Rightarrow> Id \<Rightarrow> ChatdDb" where
  "dbCleanReactions d c i = d\<lparr>dReactions := filter (\<lambda>r. \<not> (rrChat r = c \<and> rrMsgid r = i)) (dReactions d)\<rparr>"

definition dbCleanPendingReactions :: "ChatdDb \<Rightarrow> Id \<Rightarrow> Id \<Rightarrow> ChatdDb" where
  "dbCleanPendingReactions d c i = d\<lparr>dPending := filter (\<lambda>r. \<not> (pdChat r = c \<and> pdMsgid r = i)) (dPending d)\<rparr>"

definition truncateHistory :: "ChatdDb \<Rightarrow> Id \<Rightarrow> Id \<Rightarrow> ChatdDb res" where
  "truncateHistory d c i =
    (let idx = getIdxOfMsgidFromHistory d c i
     in if idx = CHATD_IDX_INVALID then Inl (RuntimeError ''dbInterface::truncateHistory: msgid does not exist in db'')
        else Inr (dbCleanPendingReactions (dbCleanReactions
          (deleteHistory (\<lambda>r. hChat r = c \<and> hIdx r < idx) d) c i) c i))"

definition retentionHistoryTruncate :: "ChatdDb \<Rightarrow> Id \<Rightarrow> Idx \<Rightarrow> ChatdDb" where
  "retentionHistoryTruncate d c idx =
    (if idx \<noteq> CHATD_IDX_INVALID then deleteHistory (\<lambda>r. hChat r = c \<and> hIdx r \<le> idx) d else d)"

definition setHaveAllHistoryDb :: "ChatdDb \<Rightarrow> Id \<Rightarrow> bool \<Rightarrow> ChatdDb" where
  "setHaveAllHistoryDb d c b =
    d\<lparr>dVars := filter (\<lambda>(c', n, _). \<not> (c' = c \<and> n = ''have_all_history'')) (dVars d) @ [(c, ''have_all_history'', b)]\<rparr>"

definition setChatVar :: "ChatdDb \<Rightarrow> Id \<Rightarrow> string \<Rightarrow> bool \<Rightarrow> ChatdDb" where
  "setChatVar d c name b = d\<lparr>dVars := filter (\<lambda>(c', n, _). \<not> (c' = c \<and> n = name)) (dVars d) @ [(c, name, b)]\<rparr>"

definition chatVar :: "ChatdDb \<Rightarrow> Id \<Rightarrow> string \<Rightarrow> bool" where
  "chatVar d c name \<longleftrightarrow> (\<exists>(c', n, b) \<in> set (dVars d). c' = c \<and> n = name \<and> b)"

definition removeChatVar :: "ChatdDb \<Rightarrow> Id \<Rightarrow> string \<Rightarrow> ChatdDb" where
  "removeChatVar d c name = d\<lparr>dVars := filter (\<lambda>(c', n, _). \<not> (c' = c \<and> n = name)) (dVars d)\<rparr>"

definition clearHistoryDb :: "ChatdDb \<Rightarrow> Id \<Rightarrow> ChatdDb" where
  "clearHistoryDb d c = setHaveAllHistoryDb (deleteHistory (\<lambda>r. hChat r = c) d) c False"

text \<open>\<open>min\<close> over no rows is \<open>NULL\<close>, which reads as zero.\<close>

definition getOldestIdx :: "ChatdDb \<Rightarrow> Id \<Rightarrow> Idx" where
  "getOldestIdx d c = (let rs = rowsOf c (dHistory d) in if rs = [] then 0 else Min (hIdx ` set rs))"

definition getOldestMsgTs :: "ChatdDb \<Rightarrow> Id \<Rightarrow> u32" where
  "getOldestMsgTs d c = (let rs = rowsOf c (dHistory d) in if rs = [] then 0 else Min (hTs ` set rs))"

definition getIdxByRetentionTimeDb :: "ChatdDb \<Rightarrow> Id \<Rightarrow> u32 \<Rightarrow> Idx" where
  "getIdxByRetentionTimeDb d c t =
    (let rs = filter (\<lambda>r. hChat r = c \<and> hTs r \<le> t) (dHistory d)
     in if rs = [] then CHATD_IDX_INVALID else Max (hIdx ` set rs))"

definition setLastSeen :: "ChatdDb \<Rightarrow> Id \<Rightarrow> Id \<Rightarrow> ChatdDb res" where
  "setLastSeen d c i = (if findChat d c = None then Inl (RuntimeError ''setLastSeen: unexpected number of rows affected'')
     else Inr (d\<lparr>dChats := map (\<lambda>r. if cChat r = c then r\<lparr>cLastSeen := i\<rparr> else r) (dChats d)\<rparr>))"

definition setLastReceived :: "ChatdDb \<Rightarrow> Id \<Rightarrow> Id \<Rightarrow> ChatdDb res" where
  "setLastReceived d c i = (if findChat d c = None then Inl (RuntimeError ''unexpected number of rows affected'')
     else Inr (d\<lparr>dChats := map (\<lambda>r. if cChat r = c then r\<lparr>cLastRecv := i\<rparr> else r) (dChats d)\<rparr>))"

text \<open>
  The last displayable message not newer than \<open>from\<close>: \<open>Inl\<close> the creation time of the chat when there
  is none.
\<close>

definition lastTextCandidates :: "ChatdDb \<Rightarrow> Id \<Rightarrow> Idx \<Rightarrow> HistRow list" where
  "lastTextCandidates d c fromIdx = filter (\<lambda>r. hChat r = c \<and> (length (hData r) > 0 \<or> hType r = kMsgTruncate) \<and>
     hType r \<noteq> kMsgRevokeAttachment \<and> hType r \<noteq> kMsgInvalid \<and> hIdx r \<le> fromIdx) (dHistory d)"

definition getLastTextMessage :: "ChatdDb \<Rightarrow> Id \<Rightarrow> Idx \<Rightarrow> (u32 + HistRow) res" where
  "getLastTextMessage d c fromIdx =
    (case sort_key (\<lambda>r. - hIdx r) (lastTextCandidates d c fromIdx) of
       r # _ \<Rightarrow> Inr (Inr r)
     | [] \<Rightarrow> (case findChat d c of None \<Rightarrow> Inl (RuntimeError noRows) | Some ch \<Rightarrow> Inr (Inl (cTsCreated ch))))"

definition getReactionSn :: "ChatdDb \<Rightarrow> Id \<Rightarrow> string res" where
  "getReactionSn d c = (case findChat d c of None \<Rightarrow> Inl (RuntimeError noRows) | Some ch \<Rightarrow> Inr (cRsn ch))"

definition setReactionSn :: "ChatdDb \<Rightarrow> Id \<Rightarrow> string \<Rightarrow> ChatdDb res" where
  "setReactionSn d c s = (if findChat d c = None then Inl (RuntimeError ''unexpected number of rows affected'')
     else Inr (d\<lparr>dChats := map (\<lambda>r. if cChat r = c then r\<lparr>cRsn := s\<rparr> else r) (dChats d)\<rparr>))"

section \<open>Node history\<close>

text \<open>\<open>addMsgToNodeHistory\<close> gives back the index of a message that is already there.\<close>

definition addMsgToNodeHistory :: "ChatdDb \<Rightarrow> Id \<Rightarrow> Message \<Rightarrow> Idx \<Rightarrow> (ChatdDb \<times> Idx) res" where
  "addMsgToNodeHistory d c m idx =
    (let idxOnDb = getIdxOfMsgid (dNodeHistory d) c (mId m)
     in if idxOnDb = CHATD_IDX_INVALID
        then bindR (insertRow (rowOf c idx m) (dNodeHistory d)) (\<lambda>t. Inr (d\<lparr>dNodeHistory := t\<rparr>, idx))
        else Inr (d, idxOnDb))"

definition deleteMsgFromNodeHistory :: "ChatdDb \<Rightarrow> Id \<Rightarrow> Message \<Rightarrow> ChatdDb res" where
  "deleteMsgFromNodeHistory d c m =
    (let hit = (\<lambda>r. hChat r = c \<and> hMsgid r = mId m)
     in if length (filter hit (dNodeHistory d)) \<noteq> 1
        then Inl (RuntimeError ''deleteMsgFromNodeHistory: unexpected number of rows affected'')
        else Inr (d\<lparr>dNodeHistory := map (\<lambda>r. if hit r
           then r\<lparr>hData := mData m, hUpdated := updated m, hType := msgType m\<rparr> else r) (dNodeHistory d)\<rparr>))"

definition truncateNodeHistory :: "ChatdDb \<Rightarrow> Id \<Rightarrow> Id \<Rightarrow> ChatdDb" where
  "truncateNodeHistory d c i =
    (let idx = getIdxOfMsgid (dNodeHistory d) c i
     in d\<lparr>dNodeHistory := filter (\<lambda>r. \<not> (hChat r = c \<and> hIdx r \<le> idx)) (dNodeHistory d)\<rparr>)"

definition clearNodeHistory :: "ChatdDb \<Rightarrow> Id \<Rightarrow> ChatdDb" where
  "clearNodeHistory d c = d\<lparr>dNodeHistory := filter (\<lambda>r. hChat r \<noteq> c) (dNodeHistory d)\<rparr>"

text \<open>The newest and the oldest index.\<close>

definition getNodeHistoryInfo :: "ChatdDb \<Rightarrow> Id \<Rightarrow> Idx \<times> Idx" where
  "getNodeHistoryInfo d c = (let rs = rowsOf c (dNodeHistory d)
     in if rs = [] then (- 1, 0) else (Max (hIdx ` set rs), Min (hIdx ` set rs)))"

definition fetchDbNodeHistory :: "ChatdDb \<Rightarrow> Id \<Rightarrow> Idx \<Rightarrow> nat \<Rightarrow> Message list" where
  "fetchDbNodeHistory d c idx count = loadMessages (dNodeHistory d) c count idx"

section \<open>Reactions\<close>

definition dbHasMsg :: "ChatdDb \<Rightarrow> Id \<Rightarrow> Id \<Rightarrow> bool" where
  "dbHasMsg d c i \<longleftrightarrow> findRow c i (dHistory d) \<noteq> None"

definition dbAddReaction :: "ChatdDb \<Rightarrow> Id \<Rightarrow> Id \<Rightarrow> Id \<Rightarrow> string \<Rightarrow> ChatdDb res" where
  "dbAddReaction d c i u r =
    (if \<not> dbHasMsg d c i then Inl (RuntimeError ''FOREIGN KEY constraint failed'')
     else Inr (d\<lparr>dReactions := filter (\<lambda>x. x \<noteq> \<lparr>rrChat = c, rrMsgid = i, rrUserid = u, rrReaction = r\<rparr>) (dReactions d)
        @ [\<lparr>rrChat = c, rrMsgid = i, rrUserid = u, rrReaction = r\<rparr>]\<rparr>))"

definition dbAddPendingReaction :: "ChatdDb \<Rightarrow> Id \<Rightarrow> Id \<Rightarrow> string \<Rightarrow> bytes \<Rightarrow> byte \<Rightarrow> ChatdDb res" where
  "dbAddPendingReaction d c i r enc st =
    (if \<not> dbHasMsg d c i then Inl (RuntimeError ''FOREIGN KEY constraint failed'')
     else Inr (d\<lparr>dPending := filter (\<lambda>x. \<not> (pdChat x = c \<and> pdMsgid x = i \<and> pdReaction x = r)) (dPending d)
        @ [\<lparr>pdChat = c, pdMsgid = i, pdReaction = r, pdReactionEnc = enc, pdStatus = st\<rparr>]\<rparr>))"

definition dbDelReaction :: "ChatdDb \<Rightarrow> Id \<Rightarrow> Id \<Rightarrow> Id \<Rightarrow> string \<Rightarrow> ChatdDb" where
  "dbDelReaction d c i u r = d\<lparr>dReactions := filter (\<lambda>x. \<not> (rrChat x = c \<and> rrMsgid x = i \<and> rrUserid x = u \<and> rrReaction x = r)) (dReactions d)\<rparr>"

definition dbDelPendingReaction :: "ChatdDb \<Rightarrow> Id \<Rightarrow> Id \<Rightarrow> string \<Rightarrow> ChatdDb" where
  "dbDelPendingReaction d c i r = d\<lparr>dPending := filter (\<lambda>x. \<not> (pdChat x = c \<and> pdMsgid x = i \<and> pdReaction x = r)) (dPending d)\<rparr>"

definition dbGetReactions :: "ChatdDb \<Rightarrow> Id \<Rightarrow> Id \<Rightarrow> (string \<times> Id) list" where
  "dbGetReactions d c i = map (\<lambda>r. (rrReaction r, rrUserid r)) (filter (\<lambda>r. rrChat r = c \<and> rrMsgid r = i) (dReactions d))"

definition dbGetPendingReactions :: "ChatdDb \<Rightarrow> Id \<Rightarrow> PendingReaction list" where
  "dbGetPendingReactions d c = map (\<lambda>r. \<lparr>prReaction = pdReaction r, prReactionEnc = pdReactionEnc r,
     prMsgId = pdMsgid r, prStatus = pdStatus r\<rparr>) (filter (\<lambda>r. pdChat r = c) (dPending d))"

definition dbHasPendingReactions :: "ChatdDb \<Rightarrow> Id \<Rightarrow> bool" where
  "dbHasPendingReactions d c \<longleftrightarrow> length (filter (\<lambda>r. pdChat r = c) (dPending d)) \<noteq> 0"

section \<open>The sending queue\<close>

text \<open>A missing blob is an empty one: an empty buffer is bound as \<open>NULL\<close>.  The key id is set later.\<close>

definition addSendingItem :: "ChatdDb \<Rightarrow> Id \<Rightarrow> SendingItem \<Rightarrow> ChatdDb \<times> SendingItem" where
  "addSendingItem d c item =
    (let m = siMsg item; rowid = Suc (dLastRowid d)
     in (d\<lparr>dLastRowid := rowid, dSending := dSending d @
          [\<lparr>sRowid = rowid, sChat = c, sOpcode = siOpcode item, sTs = ts m, sMsgid = mId m, sMsg = mData m,
            sType = msgType m, sUpdated = updated m, sRecipients = SetOfIds_save (siRecipients item),
            sBackref = backRefId m, sBackrefs = backrefBuf m, sKeyid = 0, sMsgCmd = [], sKeyCmd = []\<rparr>]\<rparr>,
         item\<lparr>siRowid := rowid\<rparr>))"

definition updateSendingItemsKeyid :: "ChatdDb \<Rightarrow> Id \<Rightarrow> KeyId \<Rightarrow> KeyId \<Rightarrow> ChatdDb \<times> nat" where
  "updateSendingItemsKeyid d c localkeyid k =
    (let hit = (\<lambda>r. sKeyid r = localkeyid \<and> sChat r = c)
     in (d\<lparr>dSending := map (\<lambda>r. if hit r then r\<lparr>sKeyid := k, sKeyCmd := []\<rparr> else r) (dSending d)\<rparr>,
         length (filter hit (dSending d))))"

definition addBlobsToSendingItem :: "ChatdDb \<Rightarrow> nat \<Rightarrow> bytes \<Rightarrow> KeyCommand option \<Rightarrow> KeyId \<Rightarrow> ChatdDb res" where
  "addBlobsToSendingItem d rowid msgCmd keyCmd k =
    bindR (mcMsg msgCmd) (\<lambda>blob.
    bindR (case keyCmd of None \<Rightarrow> Inr [] | Some kc \<Rightarrow> keyblob kc) (\<lambda>kblob.
      if length (filter (\<lambda>r. sRowid r = rowid) (dSending d)) \<noteq> 1
      then Inl (RuntimeError ''addBlobsToSendingItem: unexpected number of rows affected'')
      else Inr (d\<lparr>dSending := map (\<lambda>r. if sRowid r = rowid
        then r\<lparr>sKeyid := k, sMsgCmd := blob, sKeyCmd := kblob\<rparr> else r) (dSending d)\<rparr>)))"

definition updateSendingItemsMsgidAndOpcode :: "ChatdDb \<Rightarrow> Id \<Rightarrow> Id \<Rightarrow> Id \<Rightarrow> ChatdDb \<times> nat" where
  "updateSendingItemsMsgidAndOpcode d c msgxid msgid =
    (let hit = (\<lambda>r. sChat r = c \<and> sOpcode r = OP_MSGUPDX \<and> sMsgid r = msgxid)
     in (d\<lparr>dSending := map (\<lambda>r. if hit r then r\<lparr>sOpcode := OP_MSGUPD, sMsgid := msgid\<rparr> else r) (dSending d)\<rparr>,
         length (filter hit (dSending d))))"

definition deleteSendingItem :: "ChatdDb \<Rightarrow> nat \<Rightarrow> ChatdDb res" where
  "deleteSendingItem d rowid =
    (if length (filter (\<lambda>r. sRowid r = rowid) (dSending d)) \<noteq> 1
     then Inl (RuntimeError ''deleteSendingItem: unexpected number of rows affected'')
     else Inr (d\<lparr>dSending := filter (\<lambda>r. sRowid r \<noteq> rowid) (dSending d)\<rparr>))"

definition updateSendingItemsContentAndDelta :: "ChatdDb \<Rightarrow> Id \<Rightarrow> Message \<Rightarrow> ChatdDb \<times> nat" where
  "updateSendingItemsContentAndDelta d c m =
    (let hit = (\<lambda>r. sMsgid r = mId m \<and> sChat r = c)
     in (d\<lparr>dSending := map (\<lambda>r. if hit r then r\<lparr>sMsg := mData m\<rparr> else r) (dSending d)\<rparr>,
         length (filter hit (dSending d))))"

definition saveItemToManualSending :: "ChatdDb \<Rightarrow> Id \<Rightarrow> SendingItem \<Rightarrow> ManualSendReason \<Rightarrow> ChatdDb res" where
  "saveItemToManualSending d c item reason =
    (let m = siMsg item
     in if \<exists>r \<in> set (dManual d). mrRowid r = siRowid item then Inl (RuntimeError ''UNIQUE constraint failed'')
        else Inr (d\<lparr>dManual := dManual d @ [\<lparr>mrChat = c, mrRowid = siRowid item, mrMsgid = mId m, mrType = msgType m,
          mrTs = ts m, mrUpdated = updated m, mrMsg = mData m, mrOpcode = siOpcode item, mrReason = reason\<rparr>]\<rparr>))"

definition manualItem :: "Id \<Rightarrow> ManualRow \<Rightarrow> ManualSendItem" where
  "manualItem me r = \<lparr>msMsg = newMessage (mrMsgid r) me (mrTs r) (mrUpdated r) (mrMsg r) True CHATD_KEYID_INVALID (mrType r) 0 [],
     msRowid = mrRowid r, msOpcode = mrOpcode r, msReason = mrReason r\<rparr>"

definition loadManualSendItems :: "ChatdDb \<Rightarrow> Id \<Rightarrow> Id \<Rightarrow> ManualSendItem list" where
  "loadManualSendItems d c me = map (manualItem me) (sort_key mrRowid (filter (\<lambda>r. mrChat r = c) (dManual d)))"

definition loadManualSendItem :: "ChatdDb \<Rightarrow> Id \<Rightarrow> Id \<Rightarrow> nat \<Rightarrow> ManualSendItem res" where
  "loadManualSendItem d c me rowid =
    (case List.find (\<lambda>r. mrChat r = c \<and> mrRowid r = rowid) (dManual d) of
       None \<Rightarrow> Inl (RuntimeError noRows) | Some r \<Rightarrow> Inr (manualItem me r))"

definition deleteManualSendItem :: "ChatdDb \<Rightarrow> nat \<Rightarrow> ChatdDb \<times> bool" where
  "deleteManualSendItem d rowid = (d\<lparr>dManual := filter (\<lambda>r. mrRowid r \<noteq> rowid) (dManual d)\<rparr>,
     \<exists>r \<in> set (dManual d). mrRowid r = rowid)"

primrec readRefs :: "nat \<Rightarrow> bytes \<Rightarrow> BackRefId list" where
  "readRefs 0 bs = []"
| "readRefs (Suc n) bs = word_of_nat (of_le (take 8 bs)) # readRefs n (drop 8 bs)"

definition sendItemOfRow :: "Id \<Rightarrow> Id \<Rightarrow> SendRow \<Rightarrow> SendingItem res" where
  "sendItemOfRow c me r =
    (let m = (newMessage (sMsgid r) me (sTs r) (sUpdated r) (sMsg r) True (sKeyid r) (sType r) 0 [])
           \<lparr>backRefId := sBackref r, backRefs := readRefs (length (sBackrefs r) div 8) (sBackrefs r)\<rparr>;
         msgCmd = (if sMsgCmd r = [] then None
           else Some (mcSetMsg (newMsgCommand (sOpcode r) c me (sMsgid r) (sTs r) (sUpdated r) (sKeyid r)) (sMsgCmd r)))
     in bindR (SetOfIds_load (sRecipients r)) (\<lambda>rcpts.
        bindR (if sKeyCmd r = [] then Inr None
               else bindR (newKeyCommand c (sKeyid r)) (\<lambda>kc. Inr (Some (setKeyBlobs kc (sKeyCmd r))))) (\<lambda>keyCmd.
        Inr \<lparr>siOpcode = sOpcode r, siMsg = m, siRecipients = rcpts, siRowid = sRowid r,
             siMsgCmd = msgCmd, siKeyCmd = keyCmd\<rparr>)))"

primrec mapR :: "('a \<Rightarrow> 'b res) \<Rightarrow> 'a list \<Rightarrow> 'b list res" where
  "mapR f [] = Inr []"
| "mapR f (x # xs) = bindR (f x) (\<lambda>y. bindR (mapR f xs) (\<lambda>ys. Inr (y # ys)))"

definition loadSendQueue :: "ChatdDb \<Rightarrow> Id \<Rightarrow> Id \<Rightarrow> SendingItem list res" where
  "loadSendQueue d c me = mapR (sendItemOfRow c me) (sort_key sRowid (filter (\<lambda>r. sChat r = c) (dSending d)))"

section \<open>Integrity\<close>

definition hist_ok :: "HistRow list \<Rightarrow> bool" where
  "hist_ok t \<longleftrightarrow> distinct (map (\<lambda>r. (hChat r, hMsgid r)) t) \<and> distinct (map (\<lambda>r. (hChat r, hIdx r)) t)"

definition db_ok :: "ChatdDb \<Rightarrow> bool" where
  "db_ok d \<longleftrightarrow> hist_ok (dHistory d) \<and> hist_ok (dNodeHistory d) \<and>
     (\<forall>r \<in> set (dReactions d). dbHasMsg d (rrChat r) (rrMsgid r)) \<and>
     (\<forall>r \<in> set (dPending d). dbHasMsg d (pdChat r) (pdMsgid r)) \<and>
     distinct (dReactions d) \<and> distinct (map (\<lambda>r. (pdChat r, pdMsgid r, pdReaction r)) (dPending d)) \<and>
     distinct (map sRowid (dSending d)) \<and> (\<forall>r \<in> set (dSending d). sRowid r \<le> dLastRowid d)"

definition emptyDb :: "ChatRow list \<Rightarrow> ChatdDb" where
  "emptyDb cs = \<lparr>dHistory = [], dNodeHistory = [], dSending = [], dLastRowid = 0, dManual = [], dChats = cs,
     dVars = [], dReactions = [], dPending = []\<rparr>"

datatype DbOp = AddMsg Message Idx | UpdMsg Id Message | Truncate Id | Retention Idx | ClearHistory
  | AddNode Message Idx | DelNode Message | TruncNode Id | ClearNode
  | AddReact Id Id string | DelReact Id Id string | AddPending Id string bytes byte | DelPending Id string
  | CleanReact Id | CleanPending Id | AddSending SendingItem | Blobs nat bytes "KeyCommand option" KeyId
  | KeyidUpd KeyId KeyId | OpcodeUpd Id Id | DelSending nat | ContentUpd Message | Manual SendingItem ManualSendReason

definition orElse :: "'a \<Rightarrow> 'a res \<Rightarrow> 'a" where
  "orElse d r = (case r of Inl _ \<Rightarrow> d | Inr x \<Rightarrow> x)"

fun runDb :: "Id \<Rightarrow> DbOp \<Rightarrow> ChatdDb \<Rightarrow> ChatdDb" where
  "runDb c (AddMsg m idx) d = orElse d (addMsgToHistory d c m idx)"
| "runDb c (UpdMsg i m) d = orElse d (updateMsgInHistory d c i m)"
| "runDb c (Truncate i) d = orElse d (truncateHistory d c i)"
| "runDb c (Retention idx) d = retentionHistoryTruncate d c idx"
| "runDb c ClearHistory d = clearHistoryDb d c"
| "runDb c (AddNode m idx) d = orElse d (bindR (addMsgToNodeHistory d c m idx) (\<lambda>(d', _). Inr d'))"
| "runDb c (DelNode m) d = orElse d (deleteMsgFromNodeHistory d c m)"
| "runDb c (TruncNode i) d = truncateNodeHistory d c i"
| "runDb c ClearNode d = clearNodeHistory d c"
| "runDb c (AddReact i u r) d = orElse d (dbAddReaction d c i u r)"
| "runDb c (DelReact i u r) d = dbDelReaction d c i u r"
| "runDb c (AddPending i r e s) d = orElse d (dbAddPendingReaction d c i r e s)"
| "runDb c (DelPending i r) d = dbDelPendingReaction d c i r"
| "runDb c (CleanReact i) d = dbCleanReactions d c i"
| "runDb c (CleanPending i) d = dbCleanPendingReactions d c i"
| "runDb c (AddSending it) d = fst (addSendingItem d c it)"
| "runDb c (Blobs rowid m k i) d = orElse d (addBlobsToSendingItem d rowid m k i)"
| "runDb c (KeyidUpd l k) d = fst (updateSendingItemsKeyid d c l k)"
| "runDb c (OpcodeUpd x i) d = fst (updateSendingItemsMsgidAndOpcode d c x i)"
| "runDb c (DelSending rowid) d = orElse d (deleteSendingItem d rowid)"
| "runDb c (ContentUpd m) d = fst (updateSendingItemsContentAndDelta d c m)"
| "runDb c (Manual it r) d = orElse d (saveItemToManualSending d c it r)"

lemma db_ok_orElse: "db_ok d \<Longrightarrow> (\<And>x. r = Inr x \<Longrightarrow> db_ok x) \<Longrightarrow> db_ok (orElse d r)"
  by (cases r) (auto simp: orElse_def)

lemma findRow_None: "findRow c i t = None \<longleftrightarrow> (\<forall>r \<in> set t. \<not> (hChat r = c \<and> hMsgid r = i))"
  by (auto simp: findRow_def find_None_iff)

lemma dbHasMsg_iff: "dbHasMsg d c i \<longleftrightarrow> (c, i) \<in> (\<lambda>r. (hChat r, hMsgid r)) ` set (dHistory d)"
  by (auto simp: dbHasMsg_def findRow_None image_iff)

lemma hist_ok_insert: "insertRow n t = Inr t' \<Longrightarrow> hist_ok t \<Longrightarrow> hist_ok t'"
  by (fastforce simp: insertRow_def hist_ok_def split: if_splits)

lemma hist_ok_filter: "hist_ok t \<Longrightarrow> hist_ok (filter p t)"
  by (auto simp: hist_ok_def distinct_map_filter)

lemma hist_ok_map: "(\<And>r. hChat (f r) = hChat r \<and> hMsgid (f r) = hMsgid r \<and> hIdx (f r) = hIdx r) \<Longrightarrow> hist_ok t \<Longrightarrow> hist_ok (map f t)"
  by (simp add: hist_ok_def comp_def)

lemma db_ok_hist_superset:
  "db_ok d \<Longrightarrow> hist_ok t \<Longrightarrow> (\<lambda>r. (hChat r, hMsgid r)) ` set (dHistory d) \<subseteq> (\<lambda>r. (hChat r, hMsgid r)) ` set t
    \<Longrightarrow> db_ok (d\<lparr>dHistory := t\<rparr>)"
  by (auto simp: db_ok_def dbHasMsg_iff)

lemma addMsg_ok: "db_ok d \<Longrightarrow> addMsgToHistory d c m idx = Inr d' \<Longrightarrow> db_ok d'"
proof -
  assume d: "db_ok d" and "addMsgToHistory d c m idx = Inr d'"
  then obtain t where t: "insertRow (rowOf c idx m) (dHistory d) = Inr t" and d': "d' = d\<lparr>dHistory := t\<rparr>"
    by (auto simp: addMsgToHistory_def bindR_Inr_iff)
  from d have "hist_ok (dHistory d)" by (simp add: db_ok_def)
  with t have "hist_ok t" by (rule hist_ok_insert)
  moreover from t have "set (dHistory d) \<subseteq> set t" by (auto simp: insertRow_def split: if_splits)
  ultimately show "db_ok d'" unfolding d' by (intro db_ok_hist_superset d image_mono)
qed

lemma updMsg_ok: "db_ok d \<Longrightarrow> updateMsgInHistory d c i m = Inr d' \<Longrightarrow> db_ok d'"
proof -
  assume d: "db_ok d" and u: "updateMsgInHistory d c i m = Inr d'"
  obtain f where d': "d' = d\<lparr>dHistory := map f (dHistory d)\<rparr>"
    and f: "\<And>r. hChat (f r) = hChat r \<and> hMsgid (f r) = hMsgid r \<and> hIdx (f r) = hIdx r"
  proof
    show "d' = d\<lparr>dHistory := map (\<lambda>r. if hChat r = c \<and> hMsgid r = i then
        (if msgType m = kMsgTruncate
           then r\<lparr>hType := msgType m, hData := mData m, hTs := ts m, hUpdated := 0, hUserid := userid m, hKeyid := keyid m\<rparr>
           else r\<lparr>hType := msgType m, hData := mData m, hUpdated := updated m, hUserid := userid m, hEnc := mIsEncrypted m\<rparr>)
        else r) (dHistory d)\<rparr>"
      using u by (auto simp: updateMsgInHistory_def Let_def split: if_splits)
  qed simp
  from d have "hist_ok (dHistory d)" by (simp add: db_ok_def)
  then have "hist_ok (map f (dHistory d))" using f by (rule hist_ok_map [rotated])
  moreover have "(\<lambda>r. (hChat r, hMsgid r)) ` set (map f (dHistory d)) = (\<lambda>r. (hChat r, hMsgid r)) ` set (dHistory d)"
    using f by (simp add: image_image)
  ultimately show "db_ok d'" unfolding d' by (intro db_ok_hist_superset d) simp_all
qed

lemma deleteHistory_ok: "db_ok d \<Longrightarrow> db_ok (deleteHistory p d)"
proof -
  assume d: "db_ok d"
  let ?k = "\<lambda>r. (hChat r, hMsgid r)"
  have keep: "k \<in> ?k ` {x \<in> set (dHistory d). \<not> p x}"
    if "k \<in> ?k ` set (dHistory d)" "k \<notin> ?k ` {x \<in> set (dHistory d). p x}" for k
    using that by fastforce
  from d show ?thesis
    by (simp add: db_ok_def deleteHistory_def Let_def dbHasMsg_iff hist_ok_filter distinct_map_filter keep)
qed

lemma cleanReactions_ok: "db_ok d \<Longrightarrow> db_ok (dbCleanReactions d c i)"
  by (auto simp: db_ok_def dbCleanReactions_def dbHasMsg_iff)

lemma cleanPending_ok: "db_ok d \<Longrightarrow> db_ok (dbCleanPendingReactions d c i)"
  by (auto simp: db_ok_def dbCleanPendingReactions_def dbHasMsg_iff distinct_map_filter)

lemma sending_update_ok:
  "db_ok d \<Longrightarrow> (\<And>r. sRowid (f r) = sRowid r) \<Longrightarrow> db_ok (d\<lparr>dSending := map f (dSending d)\<rparr>)"
  by (auto simp: db_ok_def dbHasMsg_iff comp_def)

lemma db_ok_node: "db_ok d \<Longrightarrow> hist_ok t \<Longrightarrow> db_ok (d\<lparr>dNodeHistory := t\<rparr>)"
  by (auto simp: db_ok_def dbHasMsg_iff)

lemma runDb_ok: "db_ok d \<Longrightarrow> db_ok (runDb c op d)"
proof (induction op)
  case (AddMsg m idx)
  then show ?case by (auto intro!: db_ok_orElse intro: addMsg_ok)
next
  case (UpdMsg i m)
  then show ?case by (auto intro!: db_ok_orElse intro: updMsg_ok)
next
  case (Truncate i)
  show ?case unfolding runDb.simps truncateHistory_def Let_def
    by (rule db_ok_orElse)
      (auto split: if_splits simp: Truncate cleanPending_ok cleanReactions_ok deleteHistory_ok)
next
  case (Retention idx)
  then show ?case by (simp add: retentionHistoryTruncate_def deleteHistory_ok)
next
  case ClearHistory
  then show ?case using deleteHistory_ok [of d "\<lambda>r. hChat r = c"]
    by (simp add: clearHistoryDb_def setHaveAllHistoryDb_def db_ok_def dbHasMsg_iff)
next
  case (AddNode m idx)
  then have "hist_ok (dNodeHistory d)" by (simp add: db_ok_def)
  with AddNode show ?case
    by (auto intro!: db_ok_orElse db_ok_node simp: addMsgToNodeHistory_def Let_def bindR_Inr_iff split: if_splits
        intro: hist_ok_insert)
next
  case (DelNode m)
  then have "hist_ok (dNodeHistory d)" by (simp add: db_ok_def)
  with DelNode show ?case
    by (auto intro!: db_ok_orElse db_ok_node hist_ok_map simp: deleteMsgFromNodeHistory_def Let_def split: if_splits)
next
  case (TruncNode i)
  then have "hist_ok (dNodeHistory d)" by (simp add: db_ok_def)
  with TruncNode show ?case by (auto intro!: db_ok_node hist_ok_filter simp: truncateNodeHistory_def Let_def)
next
  case ClearNode
  then have "hist_ok (dNodeHistory d)" by (simp add: db_ok_def)
  with ClearNode show ?case by (auto intro!: db_ok_node hist_ok_filter simp: clearNodeHistory_def Let_def)
next
  case (AddReact i u r)
  then show ?case unfolding runDb.simps
    by (intro db_ok_orElse) (auto simp: dbAddReaction_def db_ok_def dbHasMsg_iff split: if_splits)
next
  case (DelReact i u r)
  then show ?case by (auto simp: dbDelReaction_def db_ok_def dbHasMsg_iff)
next
  case (AddPending i r e s)
  then show ?case unfolding runDb.simps
    by (intro db_ok_orElse) (auto simp: dbAddPendingReaction_def db_ok_def dbHasMsg_iff distinct_map_filter split: if_splits)
next
  case (DelPending i r)
  then show ?case by (auto simp: dbDelPendingReaction_def db_ok_def dbHasMsg_iff distinct_map_filter)
next
  case (CleanReact i)
  then show ?case by (simp add: cleanReactions_ok)
next
  case (CleanPending i)
  then show ?case by (simp add: cleanPending_ok)
next
  case (AddSending it)
  then show ?case by (auto simp: addSendingItem_def Let_def db_ok_def dbHasMsg_iff)
next
  case (Blobs rowid m k i)
  then show ?case unfolding runDb.simps
    by (intro db_ok_orElse) (auto simp: addBlobsToSendingItem_def bindR_Inr_iff intro!: sending_update_ok split: if_splits)
next
  case (KeyidUpd l k)
  then show ?case by (auto simp: updateSendingItemsKeyid_def Let_def intro!: sending_update_ok)
next
  case (OpcodeUpd x i)
  then show ?case by (auto simp: updateSendingItemsMsgidAndOpcode_def Let_def intro!: sending_update_ok)
next
  case (DelSending rowid)
  then show ?case unfolding runDb.simps
    by (intro db_ok_orElse) (auto simp: deleteSendingItem_def db_ok_def dbHasMsg_iff distinct_map_filter split: if_splits)
next
  case (ContentUpd m)
  then show ?case by (auto simp: updateSendingItemsContentAndDelta_def Let_def intro!: sending_update_ok)
next
  case (Manual it r)
  then show ?case unfolding runDb.simps
    by (intro db_ok_orElse) (auto simp: saveItemToManualSending_def Let_def db_ok_def dbHasMsg_iff split: if_splits)
qed

section \<open>The cache agrees with the messages in memory\<close>

lemma extractTermCode_empty: "length b = 0 \<Longrightarrow> extractTermCodeEndCall b = 0xFF"
  by (simp add: extractTermCodeEndCall_def)

definition decided :: "byte \<Rightarrow> bool" where
  "decided e \<longleftrightarrow> e = kNotEncrypted \<or> e = kEncryptedMalformed \<or> e = kEncryptedSignature"

definition missedCallRow :: "Id \<Rightarrow> HistRow \<Rightarrow> bool" where
  "missedCallRow me r \<longleftrightarrow> hUserid r \<noteq> me \<and> hTs r > kTsMissingCallUnread \<and> hType r = kMsgCallEnd \<and>
     (extractTermCodeEndCall (hData r) = reasonVal kNoAnswer \<or> extractTermCodeEndCall (hData r) = reasonVal kCancelled)"

definition plainUnreadRow :: "Id \<Rightarrow> HistRow \<Rightarrow> bool" where
  "plainUnreadRow me r \<longleftrightarrow> hUserid r \<noteq> me \<and> \<not> (hUpdated r \<noteq> 0 \<and> length (hData r) = 0) \<and> decided (hEnc r) \<and>
     (hType r = kMsgNormal \<or> hType r = kMsgAttachment \<or> hType r = kMsgContact \<or>
      hType r = kMsgContainsMeta \<or> hType r = kMsgVoiceClip)"

lemma isValidUnread_row:
  "isValidUnread (msgOfRow r) me \<longleftrightarrow> plainUnreadRow me r \<or> (missedCallRow me r \<and> decided (hEnc r))"
  by (auto simp: isValidUnread_def msgOfRow_def newMessage_def isOwnMessage_def isDeleted_def isUndecryptable_def
      isMissingCall_def Let_def plainUnreadRow_def missedCallRow_def decided_def msgType_defs encStatus_defs
      extractTermCode_empty)

lemma unread_disjoint: "\<not> (plainUnreadRow me r \<and> missedCallRow me r)"
  by (auto simp: plainUnreadRow_def missedCallRow_def msgType_defs)

lemma unread_db_eq:
  "getUnreadMsgCountAfterIdx d c me idx =
     length (filter (\<lambda>r. hChat r = c \<and> plainUnreadRow me r \<and> afterIdx idx r) (dHistory d)) +
     length (filter (\<lambda>r. hChat r = c \<and> missedCallRow me r \<and> afterIdx idx r) (dHistory d))"
proof -
  have "filter (\<lambda>dat. P dat) (map f (filter Q xs)) = map f (filter (\<lambda>x. Q x \<and> P (f x)) xs)" for P :: "bytes \<Rightarrow> bool" and f :: "HistRow \<Rightarrow> bytes" and Q xs
    by (induction xs) auto
  then show ?thesis
    unfolding getUnreadMsgCountAfterIdx_def Let_def plainUnreadRow_def missedCallRow_def decided_def
    by (simp add: conj_ac conj_assoc cong: conj_cong filter_cong)
qed

lemma unread_db_ram:
  "getUnreadMsgCountAfterIdx d c me idx =
    length (filter (\<lambda>m. isValidUnread m me) (map msgOfRow (filter (afterIdx idx) (rowsOf c (dHistory d))))) +
    length (filter (\<lambda>r. missedCallRow me r \<and> \<not> decided (hEnc r)) (filter (afterIdx idx) (rowsOf c (dHistory d))))"
proof -
  let ?P = "\<lambda>r. hChat r = c \<and> plainUnreadRow me r \<and> afterIdx idx r"
  let ?Q = "\<lambda>r. hChat r = c \<and> missedCallRow me r \<and> afterIdx idx r"
  let ?D = "\<lambda>r. hChat r = c \<and> isValidUnread (msgOfRow r) me \<and> afterIdx idx r"
  let ?U = "\<lambda>r. hChat r = c \<and> (missedCallRow me r \<and> \<not> decided (hEnc r)) \<and> afterIdx idx r"
  have "length (filter ?P t) + length (filter ?Q t) = length (filter ?D t) + length (filter ?U t)" for t
    using unread_disjoint [of me] by (induction t) (auto simp: isValidUnread_row)
  moreover have "filter ?D (dHistory d) = filter (\<lambda>r. isValidUnread (msgOfRow r) me) (filter (afterIdx idx) (rowsOf c (dHistory d)))"
    and "filter ?U (dHistory d) = filter (\<lambda>r. missedCallRow me r \<and> \<not> decided (hEnc r)) (filter (afterIdx idx) (rowsOf c (dHistory d)))"
    by (auto simp: rowsOf_def conj_ac intro!: filter_cong)
  ultimately show ?thesis by (simp add: unread_db_eq filter_map comp_def)
qed

section \<open>Reading history back\<close>

lemma getIdx_row:
  assumes "hist_ok t" "r \<in> set (rowsOf c t)"
  shows "getIdxOfMsgid t c (hMsgid r) = hIdx r"
proof -
  from assms(2) have r: "r \<in> set t" "hChat r = c" by (auto simp: rowsOf_def)
  obtain r' where r': "findRow c (hMsgid r) t = Some r'"
    using r by (cases "findRow c (hMsgid r) t") (auto simp: findRow_None)
  then have "r' \<in> set t" "hChat r' = c" "hMsgid r' = hMsgid r"
    by (auto simp: findRow_def find_Some_iff)
  moreover from assms(1) have "inj_on (\<lambda>r. (hChat r, hMsgid r)) (set t)"
    by (simp add: hist_ok_def distinct_map)
  ultimately have "r' = r" using r by (auto simp: inj_on_def)
  then show ?thesis by (simp add: getIdxOfMsgid_def r')
qed

lemma rev_upto_nth: "k < nat (idx - lo + 1) \<Longrightarrow> rev [lo..idx] ! k = idx - int k"
  by (simp add: rev_nth nth_upto)

lemma rev_upto_map: "rev [lo..idx] = map (\<lambda>k. idx - int k) [0..<nat (idx - lo + 1)]"
  by (rule nth_equalityI) (auto simp: rev_upto_nth)

lemma sorted_desc_interval:
  assumes "distinct (map (hIdx) rs)" "hIdx ` set rs = {lo..idx}"
  shows "map hIdx (sort_key (\<lambda>r. - hIdx r) rs) = rev [lo..idx]"
proof -
  let ?s = "sort_key (\<lambda>r. - hIdx r) rs"
  have "sorted (map (\<lambda>r. - hIdx r) ?s)" by simp
  then have "sorted (map uminus (map hIdx ?s))" by (simp add: comp_def)
  then have "sorted (rev (map hIdx ?s))"
    by (simp add: sorted_wrt_rev sorted_map) (simp add: sorted_wrt_iff_nth_less)
  moreover have "distinct (rev (map hIdx ?s))" using assms(1) by (simp add: distinct_map)
  moreover have "set (rev (map hIdx ?s)) = set [lo..idx]" using assms(2) by simp
  ultimately have "rev (map hIdx ?s) = [lo..idx]"
    by (intro sorted_distinct_set_unique) simp_all
  then show ?thesis by (metis rev_rev_ident)
qed

lemma loadMessages_idx:
  assumes "hist_ok t" "hIdx ` set (rowsOf c t) = {lo..hi}" "idx \<le> hi"
  shows "map (\<lambda>m. getIdxOfMsgid t c (mId m)) (loadMessages t c n idx) =
    map (\<lambda>k. idx - int k) [0..<min n (nat (idx - lo + 1))]"
proof -
  let ?rs = "filter (\<lambda>r. hChat r = c \<and> hIdx r \<le> idx) t"
  have d: "distinct (map hIdx ?rs)"
    using assms(1) by (auto simp: hist_ok_def distinct_map inj_on_def)
  have "hIdx ` set ?rs = {i \<in> hIdx ` set (rowsOf c t). i \<le> idx}" by (auto simp: rowsOf_def)
  then have s: "hIdx ` set ?rs = {lo..idx}" using assms(2,3) by auto
  have "map (\<lambda>m. getIdxOfMsgid t c (mId m)) (loadMessages t c n idx) =
      map hIdx (take n (sort_key (\<lambda>r. - hIdx r) ?rs))"
    unfolding loadMessages_def map_map
  proof (rule map_cong)
    fix r assume "r \<in> set (take n (sort_key (\<lambda>r. - hIdx r) ?rs))"
    then have "r \<in> set (rowsOf c t)" by (auto simp: rowsOf_def dest: in_set_takeD)
    then show "((\<lambda>m. getIdxOfMsgid t c (mId m)) \<circ> msgOfRow) r = hIdx r"
      using getIdx_row [OF assms(1)] by (simp add: msgOfRow_def newMessage_def)
  qed simp
  also have "\<dots> = take n (rev [lo..idx])"
    using sorted_desc_interval [OF d s] by (simp add: take_map [symmetric])
  also have "\<dots> = map (\<lambda>k. idx - int k) [0..<min n (nat (idx - lo + 1))]"
    unfolding rev_upto_map by (simp add: take_map take_upt min_def)
  finally show ?thesis .
qed

lemma msgOfRow_rowOf: "msgOfRow (rowOf c idx m) =
   m\<lparr>mIdIsXid := False, mReactions := [], backRefs := [], userFlags := 0, richLinkRemoved := False\<rparr>"
  by (simp add: msgOfRow_def rowOf_def newMessage_def)

section \<open>The stored sending queue\<close>

lemma insort_key_snoc: "f y \<le> f x \<Longrightarrow> insort_key f y (ys @ [x]) = insort_key f y ys @ [x]"
  by (induction ys) auto

lemma sort_key_snoc: "\<forall>y \<in> set xs. f y \<le> f x \<Longrightarrow> sort_key f (xs @ [x]) = sort_key f xs @ [x]"
  by (induction xs) (auto simp: insort_key_snoc)

lemma mapR_append: "mapR f (xs @ ys) = bindR (mapR f xs) (\<lambda>a. bindR (mapR f ys) (\<lambda>b. Inr (a @ b)))"
proof (induction xs)
  case Nil
  then show ?case by (cases "mapR f ys") simp_all
next
  case (Cons x xs)
  then show ?case by (cases "f x"; cases "mapR f xs"; cases "mapR f ys") simp_all
qed

lemma readRefs_concat: "readRefs (length rs) (concat (map le64 rs)) = rs"
  by (induction rs) simp_all

lemma backrefs_restored: "readRefs (length (backrefBuf m) div 8) (backrefBuf m) = backRefs m"
  using readRefs_concat [of "backRefs m"] by (simp add: backrefBuf_def length_concat_le64)

lemma setKeyBlobs_kcLayout:
  assumes "length (keyEntries ks) < 2 ^ 32"
  shows "setKeyBlobs \<lparr>mLocalKeyid = k, kcBuf = kcLayout c k []\<rparr> (keyEntries ks) = \<lparr>mLocalKeyid = k, kcBuf = kcLayout c k ks\<rparr>"
proof -
  let ?k = "\<lparr>mLocalKeyid = k, kcBuf = kcLayout c k []\<rparr>"
  have "kcBuf (setKeyBlobs ?k (keyEntries ks)) = kcLayout c k ks"
    using setKeyBlobs_layout [of ?k c k "le32 0" "keyEntries ks"] assms by (simp add: kcLayout_def)
  then show ?thesis by (simp add: setKeyBlobs_def)
qed

lemma loadSendQueue_add:
  assumes "db_ok d" "loadSendQueue d c me = Inr q" "dSending d' = dSending d @ [r]"
    "sChat r = c" "sRowid r = Suc (dLastRowid d)"
  shows "loadSendQueue d' c me = bindR (sendItemOfRow c me r) (\<lambda>i. Inr (q @ [i]))"
proof -
  have "\<forall>y \<in> set (filter (\<lambda>r. sChat r = c) (dSending d)). sRowid y \<le> sRowid r"
    using assms(1,5) by (fastforce simp: db_ok_def)
  then have "sort_key sRowid (filter (\<lambda>r. sChat r = c) (dSending d')) = sort_key sRowid (filter (\<lambda>r. sChat r = c) (dSending d)) @ [r]"
    using assms(3,4) by (simp add: sort_key_snoc)
  then show ?thesis using assms(2)
    by (cases "sendItemOfRow c me r") (simp_all add: loadSendQueue_def mapR_append)
qed

definition fresh_item :: "Id \<Rightarrow> SendingItem \<Rightarrow> bool" where
  "fresh_item me it \<longleftrightarrow> (let m = siMsg it in userid m = me \<and> mIdIsXid m \<and> mReactions m = [] \<and> mIsEncrypted m = kNotEncrypted \<and>
     userFlags m = 0 \<and> \<not> richLinkRemoved m) \<and> finite (siRecipients it) \<and> siMsgCmd it = None \<and> siKeyCmd it = None"

lemma added_row:
  assumes "fresh_item me it" "addSendingItem d c it = (d', it')"
  shows "\<exists>r. dSending d' = dSending d @ [r] \<and> sChat r = c \<and> sRowid r = Suc (dLastRowid d) \<and> siRowid it' = Suc (dLastRowid d) \<and>
    sendItemOfRow c me r = Inr (it'\<lparr>siMsg := (siMsg it)\<lparr>keyid := 0\<rparr>\<rparr>) \<and>
    sendItemOfRow c me (r\<lparr>sKeyid := k, sMsgCmd := mb, sKeyCmd := kb\<rparr>) =
      bindR (if kb = [] then Inr None else bindR (newKeyCommand c k) (\<lambda>kc. Inr (Some (setKeyBlobs kc kb)))) (\<lambda>kc.
      Inr (it'\<lparr>siMsg := (siMsg it)\<lparr>keyid := k\<rparr>, siKeyCmd := kc, siMsgCmd := (if mb = [] then None else
        Some (mcSetMsg (newMsgCommand (siOpcode it) c me (mId (siMsg it)) (ts (siMsg it)) (updated (siMsg it)) k) mb))\<rparr>))"
proof -
  let ?r = "\<lparr>sRowid = Suc (dLastRowid d), sChat = c, sOpcode = siOpcode it, sTs = ts (siMsg it), sMsgid = mId (siMsg it),
     sMsg = mData (siMsg it), sType = msgType (siMsg it), sUpdated = updated (siMsg it),
     sRecipients = SetOfIds_save (siRecipients it), sBackref = backRefId (siMsg it), sBackrefs = backrefBuf (siMsg it),
     sKeyid = 0, sMsgCmd = [], sKeyCmd = []\<rparr>"
  have d': "d' = d\<lparr>dLastRowid := Suc (dLastRowid d), dSending := dSending d @ [?r]\<rparr>" and it': "it' = it\<lparr>siRowid := Suc (dLastRowid d)\<rparr>"
    using assms(2) by (simp_all add: addSendingItem_def Let_def)
  have f: "userid (siMsg it) = me" "mIdIsXid (siMsg it)" "mReactions (siMsg it) = []" "mIsEncrypted (siMsg it) = kNotEncrypted"
     "userFlags (siMsg it) = 0" "\<not> richLinkRemoved (siMsg it)" "finite (siRecipients it)" "siMsgCmd it = None" "siKeyCmd it = None"
    using assms(1) by (simp_all add: fresh_item_def Let_def)
  obtain iop im ir irow where it: "it = \<lparr>siOpcode = iop, siMsg = im, siRecipients = ir, siRowid = irow, siMsgCmd = None, siKeyCmd = None\<rparr>"
    using f(8,9) by (cases it) auto
  have m: "(newMessage (mId (siMsg it)) me (ts (siMsg it)) (updated (siMsg it)) (mData (siMsg it)) True k (msgType (siMsg it)) 0 [])
       \<lparr>backRefId := backRefId (siMsg it), backRefs := backRefs (siMsg it)\<rparr> = (siMsg it)\<lparr>keyid := k\<rparr>" for k
    using f by (simp add: newMessage_def)
  show ?thesis
    by (rule exI [of _ ?r])
      (use f m [of 0] m [of k] in \<open>simp add: d' it' it sendItemOfRow_def Let_def SetOfIds_load_save backrefs_restored\<close>)
qed

lemma db_ok_empty: "db_ok (emptyDb cs)"
  by (simp add: db_ok_def emptyDb_def hist_ok_def)

lemma db_ok_run: "db_ok d \<Longrightarrow> db_ok (fold (\<lambda>(c, op). runDb c op) ops d)"
  by (induction ops arbitrary: d) (auto intro: runDb_ok)

section \<open>Properties\<close>


text \<open>
  C24: The unread count of the cache is the number of stored messages that \<open>Message::isValidUnread\<close>
  accepts, plus the missed calls whose message could not be decrypted: those the cache counts and the
  buffer in memory does not, because the query for calls lacks the condition on the encryption state.
\<close>
theorem unread_cache_vs_memory:
  "getUnreadMsgCountAfterIdx d c me idx =
    length (filter (\<lambda>m. isValidUnread m me) (map msgOfRow (filter (afterIdx idx) (rowsOf c (dHistory d))))) +
    length (filter (\<lambda>r. missedCallRow me r \<and> \<not> decided (hEnc r)) (filter (afterIdx idx) (rowsOf c (dHistory d))))"
  by (rule unread_db_ram)

text \<open>
  When the history of a chat is stored without holes, loading \<open>n\<close> messages from index \<open>idx\<close>
  downwards gives exactly the messages at \<open>idx\<close>, \<open>idx - 1\<close>, and so on, as many as asked for or as there
  are; and a stored message is read back unchanged but for what the table has no column for.
\<close>
theorem history_fetch:
  assumes "db_ok d" "hIdx ` set (rowsOf c (dHistory d)) = {lo..hi}" "idx \<le> hi"
  shows "map (\<lambda>m. getIdxOfMsgidFromHistory d c (mId m)) (fetchDbHistory d c idx n) =
      map (\<lambda>k. idx - int k) [0..<min n (nat (idx - lo + 1))] \<and>
    msgOfRow (rowOf c idx m) =
      m\<lparr>mIdIsXid := False, mReactions := [], backRefs := [], userFlags := 0, richLinkRemoved := False\<rparr>"
  using loadMessages_idx [of "dHistory d" c lo hi idx n] assms
  by (simp add: db_ok_def getIdxOfMsgidFromHistory_def fetchDbHistory_def msgOfRow_rowOf)

definition sampleMsg :: "Id \<Rightarrow> Message" where
  "sampleMsg i = newMessage i 2 5 0 [65] False 1 kMsgNormal 9 []"

definition sampleDb :: ChatdDb where
  "sampleDb = fold (\<lambda>(c, op). runDb c op) [(7, AddMsg (sampleMsg 11) 0), (7, AddMsg (sampleMsg 12) 1), (7, AddMsg (sampleMsg 13) 2)]
     (emptyDb [])"

lemma sampleDb_history: "dHistory sampleDb = [rowOf 7 0 (sampleMsg 11), rowOf 7 1 (sampleMsg 12), rowOf 7 2 (sampleMsg 13)]"
  by (simp add: sampleDb_def emptyDb_def addMsgToHistory_def insertRow_def orElse_def rowOf_def sampleMsg_def newMessage_def)

theorem history_fetch_witness:
  "map (\<lambda>m. getIdxOfMsgidFromHistory sampleDb 7 (mId m)) (fetchDbHistory sampleDb 7 1 5) = [1, 0]"
proof -
  have ok: "db_ok sampleDb" unfolding sampleDb_def by (intro db_ok_run db_ok_empty)
  have i: "hIdx ` set (rowsOf 7 (dHistory sampleDb)) = {0..2}"
    by (auto simp: sampleDb_history rowsOf_def rowOf_def)
  show ?thesis using history_fetch [OF ok i, of 1 5] by (simp add: upt_rec numeral_eq_Suc)
qed

text \<open>
  C25: A message put into the stored sending queue is restored behind the messages already queued with its
  content, recipients and back references; its encrypted command is restored byte for byte once it
  has been stored with its key, but before that the key id it had is lost and read back as none.
\<close>
theorem sending_queue_restored:
  assumes "db_ok d" "fresh_item me it" "loadSendQueue d c me = Inr q" "addSendingItem d c it = (d', it')"
    and "cmd = mcSetMsg (newMsgCommand (siOpcode it) c me (mId (siMsg it)) (ts (siMsg it)) (updated (siMsg it)) k) blob"
    and "blob \<noteq> []" "length blob < 2 ^ 32" "addBlobsToSendingItem d' (siRowid it') cmd None k = Inr d''"
  shows "loadSendQueue d' c me = Inr (q @ [it'\<lparr>siMsg := (siMsg it)\<lparr>keyid := 0\<rparr>\<rparr>]) \<and>
    loadSendQueue d'' c me = Inr (q @ [it'\<lparr>siMsg := (siMsg it)\<lparr>keyid := k\<rparr>, siMsgCmd := Some cmd\<rparr>])"
proof -
  obtain r where r: "dSending d' = dSending d @ [r]" "sChat r = c" "sRowid r = Suc (dLastRowid d)"
      "siRowid it' = Suc (dLastRowid d)" "sendItemOfRow c me r = Inr (it'\<lparr>siMsg := (siMsg it)\<lparr>keyid := 0\<rparr>\<rparr>)"
      "sendItemOfRow c me (r\<lparr>sKeyid := k, sMsgCmd := blob, sKeyCmd := []\<rparr>) =
         Inr (it'\<lparr>siMsg := (siMsg it)\<lparr>keyid := k\<rparr>, siKeyCmd := None, siMsgCmd := Some cmd\<rparr>)"
    using added_row [OF assms(2,4), where k = k and mb = blob and kb = "[]"] assms(5,6) by auto
  have old: "sRowid y \<noteq> sRowid r" if "y \<in> set (dSending d)" for y
    using assms(1) that r(3) by (fastforce simp: db_ok_def)
  have "mcMsg cmd = Inr blob" using assms(5,7) by (simp add: mcMsg_setMsg)
  with assms(8) have "dSending d'' = map (\<lambda>y. if sRowid y = sRowid r
      then y\<lparr>sKeyid := k, sMsgCmd := blob, sKeyCmd := []\<rparr> else y) (dSending d')"
    using r(3,4) by (auto simp: addBlobsToSendingItem_def bindR_Inr_iff split: if_splits)
  also have "\<dots> = dSending d @ [r\<lparr>sKeyid := k, sMsgCmd := blob, sKeyCmd := []\<rparr>]"
    using old by (simp add: r(1) map_idI)
  finally have d'': "dSending d'' = dSending d @ [r\<lparr>sKeyid := k, sMsgCmd := blob, sKeyCmd := []\<rparr>]" .
  have n: "siKeyCmd it' = None" using assms(2,4) by (auto simp: fresh_item_def addSendingItem_def Let_def)
  show ?thesis
    using loadSendQueue_add [OF assms(1,3) r(1,2,3)] loadSendQueue_add [OF assms(1,3) d''] r n by simp
qed

definition sampleItem :: SendingItem where
  "sampleItem = newSendingItem OP_NEWMSG (newMessage 21 1 6 0 [66] True 0 kMsgNormal 8 [9]) {1, 2} 0"

theorem sending_queue_restored_witness:
  "\<exists>d' it' d'' cmd. addSendingItem (emptyDb []) 7 sampleItem = (d', it') \<and>
     addBlobsToSendingItem d' (siRowid it') cmd None 0xffff0001 = Inr d'' \<and>
     loadSendQueue d'' 7 1 = Inr [it'\<lparr>siMsg := (siMsg sampleItem)\<lparr>keyid := 0xffff0001\<rparr>, siMsgCmd := Some cmd\<rparr>]"
proof -
  let ?d = "emptyDb []" and ?blob = "[1, 2, 3, 4, 5] :: bytes"
  let ?cmd = "mcSetMsg (newMsgCommand (siOpcode sampleItem) 7 1 (mId (siMsg sampleItem)) (ts (siMsg sampleItem))
    (updated (siMsg sampleItem)) 0xffff0001) ?blob"
  have ok: "db_ok ?d" by (rule db_ok_empty)
  have fr: "fresh_item 1 sampleItem" by (simp add: fresh_item_def sampleItem_def newSendingItem_def newMessage_def)
  have q: "loadSendQueue ?d 7 1 = Inr []" by (simp add: loadSendQueue_def emptyDb_def)
  obtain d' it' where a: "addSendingItem ?d 7 sampleItem = (d', it')" by (cases "addSendingItem ?d 7 sampleItem") auto
  have "mcMsg ?cmd = Inr ?blob" by (simp add: mcMsg_setMsg)
  then obtain d'' where b: "addBlobsToSendingItem d' (siRowid it') ?cmd None 0xffff0001 = Inr d''"
    using a by (auto simp: addBlobsToSendingItem_def addSendingItem_def Let_def emptyDb_def)
  from sending_queue_restored [OF ok fr q a refl _ _ b] a b show ?thesis by (intro exI conjI) auto
qed

text \<open>
  Truncating the attachments up to a message deletes that message from the cache too, although the
  list in memory keeps it; and when the message is not in the cache all attachments of the chat are
  deleted.  Other chats keep theirs.
\<close>
theorem truncateNodeHistory_deletes_kept:
  assumes "db_ok d"
  shows "findRow c i (dNodeHistory (truncateNodeHistory d c i)) = None \<and>
   (findRow c i (dNodeHistory d) = None \<and> (\<forall>r \<in> set (dNodeHistory d). hIdx r \<le> CHATD_IDX_INVALID) \<longrightarrow>
      rowsOf c (dNodeHistory (truncateNodeHistory d c i)) = []) \<and>
   (c' \<noteq> c \<longrightarrow> rowsOf c' (dNodeHistory (truncateNodeHistory d c i)) = rowsOf c' (dNodeHistory d))"
proof (intro conjI impI)
  have ok: "hist_ok (dNodeHistory d)" using assms by (simp add: db_ok_def)
  show "findRow c i (dNodeHistory (truncateNodeHistory d c i)) = None"
    using getIdx_row [OF ok] by (fastforce simp: truncateNodeHistory_def Let_def findRow_None rowsOf_def)
qed (auto simp: truncateNodeHistory_def Let_def rowsOf_def getIdxOfMsgid_def filter_empty_conv intro!: filter_cong)

theorem truncateNodeHistory_deletes_kept_witness:
  "db_ok (runDb 7 (AddNode (sampleMsg 11) 0) (emptyDb [])) \<and>
   findRow 7 11 (dNodeHistory (truncateNodeHistory (runDb 7 (AddNode (sampleMsg 11) 0) (emptyDb [])) 7 11)) = None"
proof -
  have "db_ok (runDb 7 (AddNode (sampleMsg 11) 0) (emptyDb []))" by (intro runDb_ok db_ok_empty)
  with truncateNodeHistory_deletes_kept [OF this, of 7 11 8] show ?thesis by blast
qed

text \<open>
  For messages that are decrypted or broken for good and have content, the last-message query of the
  cache and \<open>Message::isValidLastMessage\<close> agree; they do not for a message without content that
  was never edited, such as a management message that carries nothing, which only the memory accepts,
  nor for a message whose key is missing, which only the cache accepts.
\<close>
theorem last_message_cache_vs_memory:
  assumes "hChat r = c" "hIdx r \<le> idx" "dHistory d = [r]"
  shows "(decided (hEnc r) \<and> (hData r \<noteq> [] \<or> hUpdated r \<noteq> 0) \<longrightarrow>
      (lastTextCandidates d c idx = [r] \<longleftrightarrow> isValidLastMessage (msgOfRow r))) \<and>
    (decided (hEnc r) \<and> hData r = [] \<and> hUpdated r = 0 \<and> hType r = kMsgPublicHandleDelete \<longrightarrow>
      lastTextCandidates d c idx = [] \<and> isValidLastMessage (msgOfRow r)) \<and>
    (hEnc r = kEncryptedNoKey \<and> hData r \<noteq> [] \<and> hType r = kMsgNormal \<longrightarrow>
      lastTextCandidates d c idx = [r] \<and> \<not> isValidLastMessage (msgOfRow r))"
  using assms
  by (auto simp: lastTextCandidates_def isValidLastMessage_def msgOfRow_def newMessage_def isDeleted_def
      isUndecryptable_def decided_def msgType_defs encStatus_defs)

theorem last_message_cache_vs_memory_witness:
  "lastTextCandidates ((emptyDb [])\<lparr>dHistory := [rowOf 7 0 (newMessage 3 2 5 0 [] False 1 kMsgPublicHandleDelete 0 [])]\<rparr>) 7 4 = []"
proof -
  let ?r = "rowOf 7 0 (newMessage 3 2 5 0 [] False 1 kMsgPublicHandleDelete 0 [])"
  have "hChat ?r = 7" "hIdx ?r \<le> 4" by (simp_all add: rowOf_def)
  from last_message_cache_vs_memory [OF this, of "(emptyDb [])\<lparr>dHistory := [?r]\<rparr>"] show ?thesis
    by (simp add: rowOf_def newMessage_def decided_def)
qed

end
