(* ===== verification/ChatHistory.thy ===== *)
theory ChatHistory
  imports ChatdDb
begin

text \<open>
  The history buffer of a chat in memory, class \<open>chatd::Chat\<close> of \<open>src/chatd.h\<close> and \<open>src/chatd.cpp\<close>:
  two vectors growing in opposite directions from \<open>mForwardStart\<close>, and the map from handles to indexes.

  The buffer refines a window of consecutive indexes: \<open>findOrNull\<close> is defined exactly on
  \<open>{lownum..highnum}\<close>, pushing adds one index at an end, and deleting old messages cuts the window.
  \<open>history_window\<close> is the interface the rest of the chat relies on.
\<close>

section \<open>The buffer\<close>

record HistBuf =
  mForwardStart :: Idx
  mForwardList :: "Message list"
  mBackwardList :: "Message list"
  mIdToIndexMap :: "Id \<Rightarrow> Idx option"

definition emptyBuf :: HistBuf where
  "emptyBuf = \<lparr>mForwardStart = CHATD_IDX_RANGE_MIDDLE, mForwardList = [], mBackwardList = [], mIdToIndexMap = (\<lambda>_. None)\<rparr>"

definition lownum :: "HistBuf \<Rightarrow> Idx" where
  "lownum b = mForwardStart b - int (length (mBackwardList b))"

definition highnum :: "HistBuf \<Rightarrow> Idx" where
  "highnum b = mForwardStart b + int (length (mForwardList b)) - 1"

definition histSize :: "HistBuf \<Rightarrow> Idx" where
  "histSize b = int (length (mForwardList b) + length (mBackwardList b))"

definition histEmpty :: "HistBuf \<Rightarrow> bool" where
  "histEmpty b \<longleftrightarrow> mForwardList b = [] \<and> mBackwardList b = []"

definition push_forward :: "HistBuf \<Rightarrow> Message \<Rightarrow> HistBuf" where
  "push_forward b m = b\<lparr>mForwardList := mForwardList b @ [m]\<rparr>"

definition push_back :: "HistBuf \<Rightarrow> Message \<Rightarrow> HistBuf" where
  "push_back b m = b\<lparr>mBackwardList := mBackwardList b @ [m]\<rparr>"

definition clearBuf :: "HistBuf \<Rightarrow> HistBuf" where
  "clearBuf b = b\<lparr>mBackwardList := [], mForwardList := []\<rparr>"

definition findOrNull :: "HistBuf \<Rightarrow> Idx \<Rightarrow> Message option" where
  "findOrNull b num =
    (if num < mForwardStart b
     then let idx = nat (mForwardStart b - num - 1)
          in if idx \<ge> length (mBackwardList b) then None else Some (mBackwardList b ! idx)
     else let idx = nat (num - mForwardStart b)
          in if idx \<ge> length (mForwardList b) then None else Some (mForwardList b ! idx))"

definition at :: "HistBuf \<Rightarrow> Idx \<Rightarrow> Message res" where
  "at b num = (case findOrNull b num of
     None \<Rightarrow> Inl (RuntimeError ''Chat::operator[idx]: idx is outside of range'') | Some m \<Rightarrow> Inr m)"

definition hasNum :: "HistBuf \<Rightarrow> Idx \<Rightarrow> bool" where
  "hasNum b num \<longleftrightarrow> (if num < mForwardStart b
     then nat (mForwardStart b - num) \<le> length (mBackwardList b)
     else num < mForwardStart b + int (length (mForwardList b)))"

definition msgIndexFromId :: "HistBuf \<Rightarrow> Id \<Rightarrow> Idx" where
  "msgIndexFromId b i = (case mIdToIndexMap b i of None \<Rightarrow> CHATD_IDX_INVALID | Some k \<Rightarrow> k)"

definition oldest :: "HistBuf \<Rightarrow> Message option" where
  "oldest b = (if mBackwardList b \<noteq> [] then Some (last (mBackwardList b))
     else if mForwardList b \<noteq> [] then Some (hd (mForwardList b)) else None)"

definition newest :: "HistBuf \<Rightarrow> Message option" where
  "newest b = (if mForwardList b \<noteq> [] then Some (last (mForwardList b))
     else if mBackwardList b \<noteq> [] then Some (hd (mBackwardList b)) else None)"

definition setIndex :: "HistBuf \<Rightarrow> Id \<Rightarrow> Idx \<Rightarrow> HistBuf" where
  "setIndex b i k = b\<lparr>mIdToIndexMap := (mIdToIndexMap b)(i := Some k)\<rparr>"

text \<open>Replacing the message at an index in place, as the handlers that update a message do.\<close>

definition setAt :: "HistBuf \<Rightarrow> Idx \<Rightarrow> Message \<Rightarrow> HistBuf" where
  "setAt b num m =
    (if num < mForwardStart b then b\<lparr>mBackwardList := (mBackwardList b)[nat (mForwardStart b - num - 1) := m]\<rparr>
     else b\<lparr>mForwardList := (mForwardList b)[nat (num - mForwardStart b) := m]\<rparr>)"

text \<open>
  Deleting a prefix of the history.  The map is not touched by the early returns; an index beyond the
  end of the forward list would make \<open>erase\<close> run past its end.
\<close>

definition eraseIdxUpTo :: "(Id \<Rightarrow> Idx option) \<Rightarrow> Idx \<Rightarrow> Id \<Rightarrow> Idx option" where
  "eraseIdxUpTo mp idx = (\<lambda>i. case mp i of None \<Rightarrow> None | Some k \<Rightarrow> if k \<le> idx then None else Some k)"

definition deleteOlderMessagesIncluding :: "HistBuf \<Rightarrow> Idx \<Rightarrow> HistBuf res" where
  "deleteOlderMessagesIncluding b idx =
    (if idx \<ge> mForwardStart b
     then let b' = b\<lparr>mBackwardList := []\<rparr>; endOffset = idx - mForwardStart b + 1
          in if mForwardList b = [] then Inr b'
             else if nat endOffset > length (mForwardList b) then Inl OutOfBounds
             else Inr (b'\<lparr>mForwardList := drop (nat endOffset) (mForwardList b),
                          mForwardStart := mForwardStart b + endOffset,
                          mIdToIndexMap := eraseIdxUpTo (mIdToIndexMap b) idx\<rparr>)
     else let startOffset = nat (mForwardStart b - idx - 1)
          in if startOffset \<ge> length (mBackwardList b) then Inr b
             else Inr (b\<lparr>mBackwardList := take startOffset (mBackwardList b),
                         mIdToIndexMap := eraseIdxUpTo (mIdToIndexMap b) idx\<rparr>))"

section \<open>The window of a buffer\<close>

definition bufList :: "HistBuf \<Rightarrow> Message list" where
  "bufList b = rev (mBackwardList b) @ mForwardList b"

definition buf_ok :: "HistBuf \<Rightarrow> bool" where
  "buf_ok b \<longleftrightarrow> (\<forall>i k. mIdToIndexMap b i = Some k \<longleftrightarrow> (\<exists>m. findOrNull b k = Some m \<and> mId m = i))"

lemma findOrNull_list: "findOrNull b n = (if lownum b \<le> n \<and> n \<le> highnum b then Some (bufList b ! nat (n - lownum b)) else None)"
proof (cases "n < mForwardStart b")
  case True
  then have "nat (mForwardStart b - n - 1) < length (mBackwardList b) \<longleftrightarrow> lownum b \<le> n"
    by (auto simp: lownum_def)
  moreover have "length (mBackwardList b) - Suc (nat (n - lownum b)) = nat (mForwardStart b - n - 1)" if "lownum b \<le> n"
    using True that by (auto simp: lownum_def)
  moreover have "nat (n - lownum b) < length (mBackwardList b)" if "lownum b \<le> n"
    using True that by (auto simp: lownum_def)
  moreover have "n \<le> highnum b" using True by (simp add: highnum_def)
  ultimately show ?thesis using True
    by (auto simp: findOrNull_def Let_def bufList_def nth_append rev_nth)
next
  case False
  then have "nat (n - lownum b) - length (mBackwardList b) = nat (n - mForwardStart b)" "\<not> nat (n - lownum b) < length (mBackwardList b)"
    "lownum b \<le> n"
    by (auto simp: lownum_def)
  moreover have "nat (n - mForwardStart b) < length (mForwardList b) \<longleftrightarrow> n \<le> highnum b"
    using False by (auto simp: highnum_def)
  ultimately show ?thesis using False
    by (auto simp: findOrNull_def Let_def bufList_def nth_append)
qed

lemma findOrNull_None: "findOrNull b n = None \<longleftrightarrow> n < lownum b \<or> highnum b < n"
  by (auto simp: findOrNull_list)

lemma hasNum_iff: "hasNum b n \<longleftrightarrow> findOrNull b n \<noteq> None"
  by (auto simp: hasNum_def findOrNull_None lownum_def highnum_def)

lemma histSize_window: "histSize b = highnum b - lownum b + 1"
  by (simp add: histSize_def lownum_def highnum_def)

lemma histEmpty_window: "histEmpty b \<longleftrightarrow> highnum b < lownum b"
  by (cases "mForwardList b"; cases "mBackwardList b") (simp_all add: histEmpty_def lownum_def highnum_def)

lemma window_simps [simp]:
  "lownum (push_forward b m) = lownum b" "highnum (push_forward b m) = highnum b + 1"
  "lownum (push_back b m) = lownum b - 1" "highnum (push_back b m) = highnum b"
  "lownum (setIndex b i k) = lownum b" "highnum (setIndex b i k) = highnum b"
  "lownum (setAt b n m) = lownum b" "highnum (setAt b n m) = highnum b"
  by (simp_all add: lownum_def highnum_def push_forward_def push_back_def setIndex_def setAt_def)

lemma highnum_ge: "lownum b \<le> highnum b + 1"
  by (simp add: lownum_def highnum_def)

lemma length_bufList: "length (bufList b) = nat (highnum b - lownum b + 1)"
  by (simp add: bufList_def lownum_def highnum_def)

lemma findOrNull_push_forward:
  "findOrNull (push_forward b m) n = (if n = highnum b + 1 then Some m else findOrNull b n)"
  by (auto simp: findOrNull_def push_forward_def highnum_def Let_def nth_append)

lemma findOrNull_push_back:
  "findOrNull (push_back b m) n = (if n = lownum b - 1 then Some m else findOrNull b n)"
  by (auto simp: findOrNull_def push_back_def lownum_def Let_def nth_append)

lemma findOrNull_setIndex [simp]: "findOrNull (setIndex b i k) n = findOrNull b n"
  by (simp add: findOrNull_def setIndex_def Let_def)

lemma findOrNull_setAt:
  "findOrNull b num \<noteq> None \<Longrightarrow> findOrNull (setAt b num m) n = (if n = num then Some m else findOrNull b n)"
  by (auto simp: findOrNull_def setAt_def Let_def nth_list_update split: if_splits)

lemma findOrNull_empty: "findOrNull emptyBuf n = None"
  by (simp add: findOrNull_def emptyBuf_def)

lemma findOrNull_map [simp]: "findOrNull (b\<lparr>mIdToIndexMap := f\<rparr>) n = findOrNull b n"
  by (simp add: findOrNull_def Let_def)

section \<open>The index map\<close>

lemma buf_okD: "buf_ok b \<Longrightarrow> mIdToIndexMap b i = Some k \<Longrightarrow> \<exists>m. findOrNull b k = Some m \<and> mId m = i"
  by (simp add: buf_ok_def)

lemma buf_okI: "buf_ok b \<Longrightarrow> findOrNull b k = Some m \<Longrightarrow> mIdToIndexMap b (mId m) = Some k"
  by (auto simp: buf_ok_def)

lemma buf_ok_fresh: "buf_ok b \<Longrightarrow> mIdToIndexMap b i = None \<Longrightarrow> findOrNull b k = Some m \<Longrightarrow> mId m \<noteq> i"
  using buf_okI by fastforce

lemma buf_ok_empty: "buf_ok emptyBuf"
  by (simp add: buf_ok_def findOrNull_empty) (simp add: emptyBuf_def)

lemma map_push [simp]:
  "mIdToIndexMap (push_forward b m) = mIdToIndexMap b"
  "mIdToIndexMap (push_back b m) = mIdToIndexMap b"
  "mIdToIndexMap (setIndex b i k) = (mIdToIndexMap b)(i := Some k)"
  "mIdToIndexMap (setAt b n m) = mIdToIndexMap b"
  by (simp_all add: push_forward_def push_back_def setIndex_def setAt_def)

lemma buf_ok_push_forward [inv_intros]:
  assumes "buf_ok b" "mIdToIndexMap b (mId m) = None"
  shows "buf_ok (setIndex (push_forward b m) (mId m) (highnum b + 1))"
proof -
  have n: "findOrNull b (highnum b + 1) = None" by (simp add: findOrNull_None)
  show ?thesis unfolding buf_ok_def
    using assms(1) buf_ok_fresh [OF assms] n by (auto simp: findOrNull_push_forward buf_ok_def)
qed

lemma buf_ok_push_back [inv_intros]:
  assumes "buf_ok b" "mIdToIndexMap b (mId m) = None"
  shows "buf_ok (setIndex (push_back b m) (mId m) (lownum b - 1))"
proof -
  have n: "findOrNull b (lownum b - 1) = None" by (simp add: findOrNull_None)
  show ?thesis unfolding buf_ok_def
    using assms(1) buf_ok_fresh [OF assms] n by (auto simp: findOrNull_push_back buf_ok_def)
qed

lemma buf_ok_setAt [inv_intros]:
  assumes "buf_ok b" "findOrNull b num = Some m0" "mId m = mId m0"
  shows "buf_ok (setAt b num m)"
  unfolding buf_ok_def using assms
  by (auto simp: findOrNull_setAt buf_ok_def)

section \<open>Deleting a prefix\<close>

lemma deleteOlder_window:
  assumes "idx \<le> highnum b" "deleteOlderMessagesIncluding b idx = Inr b'"
  shows "findOrNull b' n = (if n \<le> idx then None else findOrNull b n)"
proof (cases "idx \<ge> mForwardStart b")
  case True
  with assms(1) have "mForwardList b \<noteq> []" by (auto simp: highnum_def)
  with assms(2) True have b': "mBackwardList b' = []" "mForwardStart b' = idx + 1"
      "mForwardList b' = drop (nat (idx - mForwardStart b + 1)) (mForwardList b)"
    by (auto simp: deleteOlderMessagesIncluding_def Let_def split: if_splits)
  have "nat (idx - mForwardStart b + 1) + nat (n - idx - 1) = nat (n - mForwardStart b)" if "n > idx"
    using True that by simp
  moreover have "nat (idx - mForwardStart b + 1) \<le> length (mForwardList b)"
    using assms(1) True by (simp add: highnum_def)
  ultimately show ?thesis using True
    by (auto simp: findOrNull_def b' Let_def diff_diff_eq)
next
  case False
  then consider "nat (mForwardStart b - idx - 1) \<ge> length (mBackwardList b)" "b' = b"
    | "nat (mForwardStart b - idx - 1) < length (mBackwardList b)" "mForwardStart b' = mForwardStart b"
      "mForwardList b' = mForwardList b" "mBackwardList b' = take (nat (mForwardStart b - idx - 1)) (mBackwardList b)"
    using assms(2) by (auto simp: deleteOlderMessagesIncluding_def Let_def split: if_splits)
  then show ?thesis
  proof cases
    case 1
    then have "idx < lownum b" using False by (auto simp: lownum_def)
    with 1 show ?thesis by (auto simp: findOrNull_None)
  next
    case 2
    with False show ?thesis by (auto simp: findOrNull_def Let_def)
  qed
qed

lemma deleteOlder_defined:
  assumes "idx \<le> highnum b" shows "\<exists>b'. deleteOlderMessagesIncluding b idx = Inr b'"
  using assms by (auto simp: deleteOlderMessagesIncluding_def Let_def highnum_def)

lemma deleteOlder_map:
  assumes "buf_ok b" "idx \<le> highnum b" "deleteOlderMessagesIncluding b idx = Inr b'"
  shows "mIdToIndexMap b' = eraseIdxUpTo (mIdToIndexMap b) idx"
proof (cases "mIdToIndexMap b' = mIdToIndexMap b")
  case True
  have "k > idx" if mp: "mIdToIndexMap b i = Some k" for i k
  proof (rule ccontr)
    assume "\<not> k > idx"
    moreover obtain m where "findOrNull b k = Some m" using buf_okD [OF assms(1) mp] by blast
    ultimately have low: "lownum b \<le> idx" by (auto simp: findOrNull_list split: if_splits)
    have "mIdToIndexMap b' = eraseIdxUpTo (mIdToIndexMap b) idx"
      using assms(2,3) low by (auto simp: deleteOlderMessagesIncluding_def Let_def lownum_def highnum_def split: if_splits)
    with True mp \<open>\<not> k > idx\<close> show False by (auto simp: eraseIdxUpTo_def fun_eq_iff split: option.splits if_splits)
  qed
  then have "eraseIdxUpTo (mIdToIndexMap b) idx = mIdToIndexMap b"
    by (fastforce simp: eraseIdxUpTo_def split: option.splits)
  with True show ?thesis by simp
next
  case False
  with assms(3) show ?thesis
    by (auto simp: deleteOlderMessagesIncluding_def Let_def split: if_splits)
qed

lemma deleteOlder_ok [inv_intros]:
  assumes "buf_ok b" "idx \<le> highnum b" "deleteOlderMessagesIncluding b idx = Inr b'"
  shows "buf_ok b'"
proof -
  have "eraseIdxUpTo (mIdToIndexMap b) idx i = Some k \<longleftrightarrow> mIdToIndexMap b i = Some k \<and> idx < k" for i k
    by (auto simp: eraseIdxUpTo_def split: option.splits)
  then show ?thesis
    using assms(1) by (auto simp: buf_ok_def deleteOlder_map [OF assms] deleteOlder_window [OF assms(2,3)])
qed

section \<open>The interface of a history window\<close>

locale history_window =
  fixes lookup :: "'b \<Rightarrow> Idx \<Rightarrow> Message option"
    and low high :: "'b \<Rightarrow> Idx"
    and ok :: "'b \<Rightarrow> bool"
    and addNew addOld :: "'b \<Rightarrow> Message \<Rightarrow> 'b"
    and known :: "'b \<Rightarrow> Id \<Rightarrow> bool"
  assumes lookup_dom: "lookup b n \<noteq> None \<longleftrightarrow> low b \<le> n \<and> n \<le> high b"
    and lookup_new: "lookup (addNew b m) n = (if n = high b + 1 then Some m else lookup b n)"
    and lookup_old: "lookup (addOld b m) n = (if n = low b - 1 then Some m else lookup b n)"
    and bounds: "low (addNew b m) = low b" "high (addNew b m) = high b + 1"
      "low (addOld b m) = low b - 1" "high (addOld b m) = high b" "low b \<le> high b + 1"
    and known_iff: "ok b \<Longrightarrow> known b i \<longleftrightarrow> (\<exists>n m. lookup b n = Some m \<and> mId m = i)"
    and ok_new: "ok b \<Longrightarrow> \<not> known b (mId m) \<Longrightarrow> ok (addNew b m)"
    and ok_old: "ok b \<Longrightarrow> \<not> known b (mId m) \<Longrightarrow> ok (addOld b m)"
begin

text \<open>Messages arriving at either end: a new one (\<open>True\<close>) or an old one.\<close>

fun arrive :: "(bool \<times> Message) list \<Rightarrow> 'b \<Rightarrow> 'b" where
  "arrive [] b = b"
| "arrive ((True, m) # xs) b = arrive xs (addNew b m)"
| "arrive ((False, m) # xs) b = arrive xs (addOld b m)"

lemma known_new: "ok b \<Longrightarrow> \<not> known b (mId m) \<Longrightarrow> known (addNew b m) i \<longleftrightarrow> known b i \<or> i = mId m"
proof -
  assume a: "ok b" "\<not> known b (mId m)"
  have n: "lookup b (high b + 1) = None" using lookup_dom [of b "high b + 1"] by auto
  show ?thesis unfolding known_iff [OF ok_new [OF a]] known_iff [OF a(1)]
    using n by (auto simp: lookup_new) (metis option.distinct(1))
qed

lemma known_old: "ok b \<Longrightarrow> \<not> known b (mId m) \<Longrightarrow> known (addOld b m) i \<longleftrightarrow> known b i \<or> i = mId m"
proof -
  assume a: "ok b" "\<not> known b (mId m)"
  have n: "lookup b (low b - 1) = None" using lookup_dom [of b "low b - 1"] by auto
  show ?thesis unfolding known_iff [OF ok_old [OF a]] known_iff [OF a(1)]
    using n by (auto simp: lookup_old) (metis option.distinct(1))
qed

lemma arrive_ok:
  "ok b \<Longrightarrow> distinct (map (mId \<circ> snd) xs) \<Longrightarrow> \<forall>x \<in> set xs. \<not> known b (mId (snd x)) \<Longrightarrow>
    ok (arrive xs b) \<and> (\<forall>n m. lookup b n = Some m \<longrightarrow> lookup (arrive xs b) n = Some m) \<and>
    high (arrive xs b) = high b + int (length (filter fst xs)) \<and>
    low (arrive xs b) = low b - int (length (filter (\<lambda>x. \<not> fst x) xs))"
proof (induction xs b rule: arrive.induct)
  case (1 b)
  then show ?case by simp
next
  case (2 m xs b)
  have fr: "\<not> known b (mId m)" using "2.prems" by simp
  have "lookup b n = Some x \<Longrightarrow> n \<noteq> high b + 1" for n x using lookup_dom [of b n] by auto
  then have keep: "lookup b n = Some x \<Longrightarrow> lookup (addNew b m) n = Some x" for n x by (simp add: lookup_new)
  have "\<forall>x \<in> set xs. \<not> known (addNew b m) (mId (snd x))"
    using "2.prems" known_new [OF "2.prems"(1) fr] by (auto simp: image_iff)
  with "2.IH" [OF ok_new [OF "2.prems"(1) fr]] "2.prems" keep show ?case by (auto simp: bounds)
next
  case (3 m xs b)
  have fr: "\<not> known b (mId m)" using "3.prems" by simp
  have "lookup b n = Some x \<Longrightarrow> n \<noteq> low b - 1" for n x using lookup_dom [of b n] by auto
  then have keep: "lookup b n = Some x \<Longrightarrow> lookup (addOld b m) n = Some x" for n x by (simp add: lookup_old)
  have "\<forall>x \<in> set xs. \<not> known (addOld b m) (mId (snd x))"
    using "3.prems" known_old [OF "3.prems"(1) fr] by (auto simp: image_iff)
  with "3.IH" [OF ok_old [OF "3.prems"(1) fr]] "3.prems" keep show ?case by (auto simp: bounds)
qed

end

definition addNewest :: "HistBuf \<Rightarrow> Message \<Rightarrow> HistBuf" where
  "addNewest b m = (let b' = push_forward b m in setIndex b' (mId m) (highnum b'))"

definition addOldest :: "HistBuf \<Rightarrow> Message \<Rightarrow> HistBuf" where
  "addOldest b m = (let b' = push_back b m in setIndex b' (mId m) (lownum b'))"

interpretation hist: history_window findOrNull lownum highnum buf_ok addNewest addOldest
  "\<lambda>b i. mIdToIndexMap b i \<noteq> None"
proof unfold_locales
  show "mIdToIndexMap b i \<noteq> None \<longleftrightarrow> (\<exists>n m. findOrNull b n = Some m \<and> mId m = i)" if "buf_ok b" for b i
    using that by (auto simp: buf_ok_def)
  show "findOrNull b n \<noteq> None \<longleftrightarrow> lownum b \<le> n \<and> n \<le> highnum b" for b n
    by (simp add: findOrNull_list)
  show "lownum b \<le> highnum b + 1" for b by (rule highnum_ge)
qed (auto simp: addNewest_def addOldest_def Let_def findOrNull_push_forward findOrNull_push_back
    buf_ok_push_forward buf_ok_push_back)

definition arriveAll :: "(bool \<times> Message) list \<Rightarrow> HistBuf \<Rightarrow> HistBuf" where
  "arriveAll xs b = hist.arrive xs b"

section \<open>Properties\<close>

text \<open>
  C26: Whatever mixture of new and old messages arrives at the buffer, as long as no handle arrives twice,
  it stays a window of consecutive indexes in which every message keeps the index it was given, the
  map finds each message by its handle and nothing else, and the window grows by one on the side of
  each arrival.
\<close>
theorem history_buffer_stable:
  assumes "buf_ok b" "distinct (map (mId \<circ> snd) xs)" "\<forall>x \<in> set xs. mIdToIndexMap b (mId (snd x)) = None"
  shows "buf_ok (arriveAll xs b) \<and>
    (\<forall>n m. findOrNull b n = Some m \<longrightarrow> findOrNull (arriveAll xs b) n = Some m) \<and>
    highnum (arriveAll xs b) = highnum b + int (length (filter fst xs)) \<and>
    lownum (arriveAll xs b) = lownum b - int (length (filter (\<lambda>x. \<not> fst x) xs))"
  unfolding arriveAll_def using hist.arrive_ok [of b xs] assms by simp

theorem history_buffer_stable_witness:
  "buf_ok (arriveAll [(True, sampleMsg 11), (False, sampleMsg 12), (True, sampleMsg 13)] emptyBuf) \<and>
   lownum (arriveAll [(True, sampleMsg 11), (False, sampleMsg 12), (True, sampleMsg 13)] emptyBuf) = - 1"
proof -
  have "\<forall>i. mIdToIndexMap emptyBuf i = None" by (simp add: emptyBuf_def)
  with history_buffer_stable [OF buf_ok_empty, of "[(True, sampleMsg 11), (False, sampleMsg 12), (True, sampleMsg 13)]"]
  show ?thesis by (simp add: sampleMsg_def newMessage_def) (simp add: lownum_def emptyBuf_def)
qed

text \<open>
  Deleting the messages up to an index inside or below the window, for a truncation or because their
  retention time is over, never runs past a list, removes exactly those messages and their entries in
  the map, and leaves every other message at its index.
\<close>
theorem deleteOlder_cuts_window:
  assumes "buf_ok b" "idx \<le> highnum b"
  shows "\<exists>b'. deleteOlderMessagesIncluding b idx = Inr b' \<and> buf_ok b' \<and>
    (\<forall>n. findOrNull b' n = (if n \<le> idx then None else findOrNull b n)) \<and>
    (\<forall>i. mIdToIndexMap b' i = (case mIdToIndexMap b i of None \<Rightarrow> None | Some k \<Rightarrow> if k \<le> idx then None else Some k))"
  using deleteOlder_defined [OF assms(2)] deleteOlder_window [OF assms(2)] deleteOlder_ok [OF assms]
    deleteOlder_map [OF assms] by (auto simp: eraseIdxUpTo_def)

theorem deleteOlder_cuts_window_witness:
  "\<exists>b'. deleteOlderMessagesIncluding (addOldest (addNewest emptyBuf (sampleMsg 11)) (sampleMsg 12)) (- 1) = Inr b' \<and>
     findOrNull b' 0 = Some (sampleMsg 11) \<and> findOrNull b' (- 1) = None"
proof -
  let ?b = "addOldest (addNewest emptyBuf (sampleMsg 11)) (sampleMsg 12)"
  have ok: "buf_ok ?b"
    by (intro hist.ok_old hist.ok_new buf_ok_empty)
      (auto simp: emptyBuf_def addNewest_def setIndex_def push_forward_def Let_def sampleMsg_def newMessage_def)
  have h: "- 1 \<le> highnum ?b" by (simp add: hist.bounds) (simp add: highnum_def emptyBuf_def)
  have "findOrNull ?b 0 = Some (sampleMsg 11)"
    by (simp add: hist.lookup_old hist.lookup_new hist.bounds) (simp add: lownum_def highnum_def emptyBuf_def)
  with deleteOlder_cuts_window [OF ok h] show ?thesis by auto
qed

end
