(* ===== verification/ChatdFrame.thy ===== *)
theory ChatdFrame
  imports ChatMessage
begin

text \<open>
  The commands received from chatd, \<open>Connection::execCommand\<close> of \<open>src/chatd.cpp\<close>: several commands
  arrive in one frame; each is read at its position, handed to its handler, and an exception of the
  handler does not disturb the rest.  \<open>decodeCmd\<close> is the switch over the opcode, with one decoder per
  case; the handlers are the argument of \<open>execCommand\<close>.
\<close>

section \<open>Commands\<close>

datatype ChatdCmd =
    RKeepalive
  | RBroadcast Id Id byte
  | RJoin Id Id priv
  | RMsg Opcode Id Message
  | RSeen Id Id
  | RReceived Id Id
  | RRetention Id Id u32
  | RMsgId Id Id
  | RNewMsgId Id Id u32
  | RReject Id Id byte byte
  | RHistDone Id
  | RNewKeyId Id KeyId KeyId
  | RNewKey Id bytes
  | RDeprecated Opcode Id
  | RClientId u32
  | REcho
  | RReaction Opcode Id Id Id bytes
  | RReactionSn Id Id
  | RSync Id
  | RNumByHandle Id u32
  | RCallUsers Opcode Id Id "Id list"
  | RCallState Id Id Id byte
  | RCallEnd Id Id "byte option"

type_synonym 'a dec = "bytes \<Rightarrow> nat \<Rightarrow> ('a \<times> nat) res"

text \<open>\<open>READ_ID\<close>, \<open>READ_32\<close>, \<open>READ_16\<close> and \<open>READ_8\<close>: read and advance.\<close>

definition READ_ID :: "Id dec" where
  "READ_ID buf pos = bindR (read64 buf pos) (\<lambda>v. Inr (v, pos + 8))"

definition READ_32 :: "u32 dec" where
  "READ_32 buf pos = bindR (read32 buf pos) (\<lambda>v. Inr (v, pos + 4))"

definition READ_16 :: "u16 dec" where
  "READ_16 buf pos = bindR (read16 buf pos) (\<lambda>v. Inr (v, pos + 2))"

definition READ_8 :: "byte dec" where
  "READ_8 buf pos = bindR (read8 buf pos) (\<lambda>v. Inr (v, pos + 1))"

definition READ_BYTES :: "nat \<Rightarrow> bytes dec" where
  "READ_BYTES len buf pos = bindR (readPtr buf pos len) (\<lambda>v. Inr (v, pos + len))"

definition thenD :: "'a dec \<Rightarrow> ('a \<Rightarrow> 'b dec) \<Rightarrow> 'b dec" where
  "thenD d f buf pos = bindR (d buf pos) (\<lambda>(v, p). f v buf p)"

definition doneD :: "'a \<Rightarrow> 'a dec" where
  "doneD v buf pos = Inr (v, pos)"

section \<open>Decoders\<close>

definition decBroadcast :: "ChatdCmd dec" where
  "decBroadcast = thenD READ_ID (\<lambda>chatid. thenD READ_ID (\<lambda>u. thenD READ_8 (\<lambda>t. doneD (RBroadcast chatid u t))))"

definition decJoin :: "ChatdCmd dec" where
  "decJoin = thenD READ_ID (\<lambda>chatid. thenD READ_ID (\<lambda>u. thenD READ_8 (\<lambda>p. doneD (RJoin chatid u (privOfByte p)))))"

definition decMsg :: "Opcode \<Rightarrow> ChatdCmd dec" where
  "decMsg op = thenD READ_ID (\<lambda>chatid. thenD READ_ID (\<lambda>u. thenD READ_ID (\<lambda>msgid. thenD READ_32 (\<lambda>t.
     thenD READ_16 (\<lambda>upd. thenD READ_32 (\<lambda>k. thenD READ_32 (\<lambda>len. thenD (READ_BYTES (unat len)) (\<lambda>dat.
       doneD (RMsg op chatid ((newMessage msgid u t upd dat False k kMsgInvalid 0 [])\<lparr>mIsEncrypted := kEncryptedPending\<rparr>))))))))))"

definition decTwoIds :: "(Id \<Rightarrow> Id \<Rightarrow> ChatdCmd) \<Rightarrow> ChatdCmd dec" where
  "decTwoIds f = thenD READ_ID (\<lambda>a. thenD READ_ID (\<lambda>b. doneD (f a b)))"

definition decRetention :: "ChatdCmd dec" where
  "decRetention = thenD READ_ID (\<lambda>chatid. thenD READ_ID (\<lambda>u. thenD READ_32 (\<lambda>p. doneD (RRetention chatid u p))))"

definition decReject :: "ChatdCmd dec" where
  "decReject = thenD READ_ID (\<lambda>chatid. thenD READ_ID (\<lambda>i. thenD READ_8 (\<lambda>op. thenD READ_8 (\<lambda>reason.
     doneD (RReject chatid i op reason)))))"

definition decHistDone :: "ChatdCmd dec" where
  "decHistDone = thenD READ_ID (\<lambda>chatid. doneD (RHistDone chatid))"

definition decNewKeyId :: "ChatdCmd dec" where
  "decNewKeyId = thenD READ_ID (\<lambda>chatid. thenD READ_32 (\<lambda>x. thenD READ_32 (\<lambda>k. doneD (RNewKeyId chatid x k))))"

definition decNewKey :: "ChatdCmd dec" where
  "decNewKey = thenD READ_ID (\<lambda>chatid. thenD READ_32 (\<lambda>k. thenD READ_32 (\<lambda>len. thenD (READ_BYTES (unat len)) (\<lambda>keys.
     doneD (RNewKey chatid keys)))))"

definition decInCall :: "Opcode \<Rightarrow> ChatdCmd dec" where
  "decInCall op = thenD READ_ID (\<lambda>chatid. thenD READ_ID (\<lambda>u. thenD READ_32 (\<lambda>cl. doneD (RDeprecated op chatid))))"

text \<open>The payload of the deprecated call commands is skipped without looking at the end of the frame.\<close>

definition skipD :: "nat \<Rightarrow> unit dec" where
  "skipD n buf pos = Inr ((), pos + n)"

definition decCallData :: "Opcode \<Rightarrow> ChatdCmd dec" where
  "decCallData op = thenD READ_ID (\<lambda>chatid. thenD READ_ID (\<lambda>u. thenD READ_32 (\<lambda>cl. thenD READ_16 (\<lambda>len.
     thenD (skipD (unat len)) (\<lambda>_. doneD (RDeprecated op chatid))))))"

definition decClientId :: "ChatdCmd dec" where
  "decClientId = thenD READ_32 (\<lambda>c. thenD READ_32 (\<lambda>unused. doneD (RClientId c)))"

definition decReaction :: "Opcode \<Rightarrow> ChatdCmd dec" where
  "decReaction op = thenD READ_ID (\<lambda>chatid. thenD READ_ID (\<lambda>u. thenD READ_ID (\<lambda>msgid. thenD READ_8 (\<lambda>len.
     thenD (READ_BYTES (unat len)) (\<lambda>r. doneD (RReaction op chatid u msgid r))))))"

definition decSync :: "ChatdCmd dec" where
  "decSync = thenD READ_ID (\<lambda>chatid. doneD (RSync chatid))"

definition decCallTime :: "ChatdCmd dec" where
  "decCallTime = thenD READ_ID (\<lambda>chatid. thenD READ_32 (\<lambda>d. doneD (RDeprecated OP_CALLTIME chatid)))"

definition decNumByHandle :: "ChatdCmd dec" where
  "decNumByHandle = thenD READ_ID (\<lambda>chatid. thenD READ_32 (\<lambda>n. doneD (RNumByHandle chatid n)))"

definition decMsgIdTimestamp :: "(Id \<Rightarrow> Id \<Rightarrow> u32 \<Rightarrow> ChatdCmd) \<Rightarrow> ChatdCmd dec" where
  "decMsgIdTimestamp f = thenD READ_ID (\<lambda>x. thenD READ_ID (\<lambda>i. thenD READ_32 (\<lambda>t. doneD (f x i t))))"

primrec decIds :: "nat \<Rightarrow> Id list dec" where
  "decIds 0 = doneD []"
| "decIds (Suc n) = thenD READ_ID (\<lambda>i. thenD (decIds n) (\<lambda>is. doneD (i # is)))"

definition decCallUsers :: "Opcode \<Rightarrow> ChatdCmd dec" where
  "decCallUsers op = thenD READ_ID (\<lambda>chatid. thenD READ_ID (\<lambda>callid. thenD READ_8 (\<lambda>n.
     thenD (decIds (unat n)) (\<lambda>us. doneD (RCallUsers op chatid callid us)))))"

definition decCallState :: "ChatdCmd dec" where
  "decCallState = thenD READ_ID (\<lambda>chatid. thenD READ_ID (\<lambda>u. thenD READ_ID (\<lambda>callid. thenD READ_8 (\<lambda>r.
     doneD (RCallState chatid u callid r)))))"

definition decCallEnd :: "Opcode \<Rightarrow> ChatdCmd dec" where
  "decCallEnd op = thenD READ_ID (\<lambda>chatid. thenD READ_ID (\<lambda>callid.
     if op = OP_DELCALLREASON then thenD READ_8 (\<lambda>r. doneD (RCallEnd chatid callid (Some r)))
     else doneD (RCallEnd chatid callid None)))"

text \<open>The opcodes a client receives; \<open>None\<close> is the \<open>default\<close> case.\<close>

definition decodeCmd :: "Opcode \<Rightarrow> ChatdCmd dec option" where
  "decodeCmd op = (case op of
     OP_KEEPALIVE \<Rightarrow> Some (doneD RKeepalive)
   | OP_BROADCAST \<Rightarrow> Some decBroadcast
   | OP_JOIN \<Rightarrow> Some decJoin
   | OP_OLDMSG \<Rightarrow> Some (decMsg op)
   | OP_NEWMSG \<Rightarrow> Some (decMsg op)
   | OP_MSGUPD \<Rightarrow> Some (decMsg op)
   | OP_SEEN \<Rightarrow> Some (decTwoIds RSeen)
   | OP_RECEIVED \<Rightarrow> Some (decTwoIds RReceived)
   | OP_RETENTION \<Rightarrow> Some decRetention
   | OP_MSGID \<Rightarrow> Some (decTwoIds RMsgId)
   | OP_NEWMSGID \<Rightarrow> Some (decTwoIds (\<lambda>x i. RNewMsgId x i 0))
   | OP_REJECT \<Rightarrow> Some decReject
   | OP_HISTDONE \<Rightarrow> Some decHistDone
   | OP_NEWKEYID \<Rightarrow> Some decNewKeyId
   | OP_NEWKEY \<Rightarrow> Some decNewKey
   | OP_INCALL \<Rightarrow> Some (decInCall op)
   | OP_ENDCALL \<Rightarrow> Some (decInCall op)
   | OP_CALLDATA \<Rightarrow> Some (decCallData op)
   | OP_RTMSG_ENDPOINT \<Rightarrow> Some (decCallData op)
   | OP_RTMSG_USER \<Rightarrow> Some (decCallData op)
   | OP_RTMSG_BROADCAST \<Rightarrow> Some (decCallData op)
   | OP_CLIENTID \<Rightarrow> Some decClientId
   | OP_ECHO \<Rightarrow> Some (doneD REcho)
   | OP_ADDREACTION \<Rightarrow> Some (decReaction op)
   | OP_DELREACTION \<Rightarrow> Some (decReaction op)
   | OP_REACTIONSN \<Rightarrow> Some (decTwoIds RReactionSn)
   | OP_SYNC \<Rightarrow> Some decSync
   | OP_CALLTIME \<Rightarrow> Some decCallTime
   | OP_NUMBYHANDLE \<Rightarrow> Some decNumByHandle
   | OP_MSGIDTIMESTAMP \<Rightarrow> Some (decMsgIdTimestamp (\<lambda>x i t. RMsgId x i))
   | OP_NEWMSGIDTIMESTAMP \<Rightarrow> Some (decMsgIdTimestamp RNewMsgId)
   | OP_JOINEDCALL \<Rightarrow> Some (decCallUsers op)
   | OP_LEFTCALL \<Rightarrow> Some (decCallUsers op)
   | OP_CALLSTATE \<Rightarrow> Some decCallState
   | OP_CALLEND \<Rightarrow> Some (decCallEnd op)
   | OP_DELCALLREASON \<Rightarrow> Some (decCallEnd op)
   | _ \<Rightarrow> None)"

section \<open>The loop over a frame\<close>

text \<open>
  How the processing of a frame ended: at its end, at an opcode that is not known, at a command that
  does not fit the frame, or in a crash.  A handler gives the state it reached and the exception it
  threw, if any.  The list of users of a call is turned into text for the log by dropping the last two
  characters, which throws when the list is empty.
\<close>

datatype frame_end = FrameDone | FrameUnknownOpcode | FrameRangeError | FrameCrash exn

type_synonym 's handler = "ChatdCmd \<Rightarrow> 's \<Rightarrow> 's \<times> exn option"

definition dispatch :: "'s handler \<Rightarrow> 's handler" where
  "dispatch h c s = (case c of
     RCallUsers op chatid callid [] \<Rightarrow> (s, Some (RuntimeError ''basic_string::erase''))
   | _ \<Rightarrow> h c s)"

lemma dec_progress:
  "READ_ID buf pos = Inr (v, p) \<Longrightarrow> pos \<le> p"
  "READ_32 buf pos = Inr (w, p) \<Longrightarrow> pos \<le> p"
  "READ_16 buf pos = Inr (x, p) \<Longrightarrow> pos \<le> p"
  "READ_8 buf pos = Inr (y, p) \<Longrightarrow> pos \<le> p"
  "READ_BYTES n buf pos = Inr (z, p) \<Longrightarrow> pos \<le> p"
  "skipD n buf pos = Inr (u, p) \<Longrightarrow> pos \<le> p"
  "doneD a buf pos = Inr (b, p) \<Longrightarrow> pos \<le> p"
  by (auto simp: READ_ID_def READ_32_def READ_16_def READ_8_def READ_BYTES_def skipD_def doneD_def bindR_Inr_iff)

definition advances :: "'a dec \<Rightarrow> bool" where
  "advances d \<longleftrightarrow> (\<forall>buf pos v p. d buf pos = Inr (v, p) \<longrightarrow> pos \<le> p)"

lemma advances_basic [simp]:
  "advances READ_ID" "advances READ_32" "advances READ_16" "advances READ_8" "advances (READ_BYTES n)"
  "advances (skipD n)" "advances (doneD a)"
  using dec_progress by (auto simp: advances_def)

lemma advances_then [simp]: "advances d \<Longrightarrow> (\<And>v. advances (f v)) \<Longrightarrow> advances (thenD d f)"
  by (auto simp: advances_def thenD_def bindR_Inr_iff) (meson le_trans)

lemma advances_decIds [simp]: "advances (decIds n)"
  by (induction n) simp_all

lemmas decoder_defs = decBroadcast_def decJoin_def decMsg_def decTwoIds_def decRetention_def decReject_def
  decHistDone_def decNewKeyId_def decNewKey_def decInCall_def decCallData_def decClientId_def decReaction_def
  decSync_def decCallTime_def decNumByHandle_def decMsgIdTimestamp_def decCallUsers_def decCallState_def decCallEnd_def

lemma decodeCmd_advances: "decodeCmd op = Some d \<Longrightarrow> advances d"
  by (cases op) (auto simp: decodeCmd_def decoder_defs)

function execCommand :: "'s handler \<Rightarrow> bytes \<Rightarrow> nat \<Rightarrow> 's \<Rightarrow> 's \<times> frame_end" where
  "execCommand h buf pos s =
    (if pos < length buf
     then case Option.bind (opcodeOf (buf ! pos)) decodeCmd of
       None \<Rightarrow> (s, FrameUnknownOpcode)
     | Some d \<Rightarrow>
         (case d buf (pos + 1) of
            Inl RangeError \<Rightarrow> (s, FrameRangeError)
          | Inl e \<Rightarrow> (s, FrameCrash e)
          | Inr (c, p) \<Rightarrow>
              (case dispatch h c s of
                 (s', None) \<Rightarrow> execCommand h buf p s'
               | (s', Some (RuntimeError _)) \<Rightarrow> execCommand h buf p s'
               | (s', Some RangeError) \<Rightarrow> (s', FrameRangeError)
               | (s', Some e) \<Rightarrow> (s', FrameCrash e)))
     else (s, FrameDone))"
  by pat_completeness auto
termination
proof (relation "measure (\<lambda>(h, buf, pos, s). length buf - pos)", goal_cases)
  case 1
  then show ?case by simp
next
  case (2 h buf pos s d r c p)
  then have "pos + 1 \<le> p" using decodeCmd_advances by (fastforce simp: advances_def bind_eq_Some_conv)
  with 2 show ?case by simp
next
  case (3 h buf pos s d r c p)
  then have "pos + 1 \<le> p" using decodeCmd_advances by (fastforce simp: advances_def bind_eq_Some_conv)
  with 3 show ?case by simp
qed

declare execCommand.simps [simp del]

section \<open>Received keys\<close>

text \<open>
  \<open>Chat::onNewKeys\<close>: the keys handed to the crypto module, in order, and the exception that ended the
  loop.  The final assertion about the size is left to the debug build: the release build only logs.
\<close>

function onNewKeys :: "bytes \<Rightarrow> nat \<Rightarrow> (Id \<times> KeyId \<times> bytes) list \<times> exn option" where
  "onNewKeys buf pos =
    (if pos + 14 < length buf
     then case thenD READ_ID (\<lambda>u. thenD READ_32 (\<lambda>k. thenD READ_16 (\<lambda>len. thenD (READ_BYTES (unat len)) (\<lambda>key.
            doneD (u, k, key))))) buf pos of
       Inl e \<Rightarrow> ([], Some e)
     | Inr (x, p) \<Rightarrow> (let (xs, e) = onNewKeys buf p in (x # xs, e))
     else ([], None))"
  by pat_completeness auto
termination
proof (relation "measure (\<lambda>(buf, pos). length buf - pos)", goal_cases)
  case 1
  then show ?case by simp
next
  case (2 buf pos r x p)
  then have "pos + 14 \<le> p"
    by (auto simp: thenD_def doneD_def READ_ID_def READ_32_def READ_16_def READ_BYTES_def bindR_Inr_iff)
  with 2 show ?case by simp
qed

declare onNewKeys.simps [simp del]

section \<open>What a decoder reads\<close>

definition decodes :: "'a dec \<Rightarrow> bytes \<Rightarrow> 'a \<Rightarrow> bool" where
  "decodes d bs v \<longleftrightarrow> (\<forall>pre post. length (pre @ bs @ post) < size_max \<longrightarrow>
     d (pre @ bs @ post) (length pre) = Inr (v, length pre + length bs))"

lemma decodes_basic:
  "decodes READ_ID (le64 a) a" "decodes READ_32 (le32 b) b" "decodes READ_16 (le16 c) c" "decodes READ_8 [x] x"
  "decodes (READ_BYTES (length bs)) bs bs" "decodes (skipD (length bs)) bs ()"
  by (auto simp: decodes_def READ_ID_def READ_32_def READ_16_def READ_8_def READ_BYTES_def skipD_def reads_ok slice_def)

lemma decodes_done: "decodes (doneD a) [] a"
  by (simp add: decodes_def doneD_def)

lemma decodes_then:
  assumes "decodes d xs v" "decodes (f v) ys w"
  shows "decodes (thenD d f) (xs @ ys) w"
  unfolding decodes_def
proof (intro allI impI)
  fix pre post :: bytes
  assume l: "length (pre @ (xs @ ys) @ post) < size_max"
  with assms(1) have "d (pre @ (xs @ ys) @ post) (length pre) = Inr (v, length pre + length xs)"
    by (simp add: decodes_def)
  moreover from l assms(2) have "f v ((pre @ xs) @ ys @ post) (length (pre @ xs)) = Inr (w, length (pre @ xs) + length ys)"
    unfolding decodes_def by (metis append_assoc)
  ultimately show "thenD d f (pre @ (xs @ ys) @ post) (length pre) = Inr (w, length pre + length (xs @ ys))"
    by (simp add: thenD_def add.assoc)
qed

lemma decodes_map: "decodes d xs v \<Longrightarrow> decodes (thenD d (\<lambda>v. doneD (f v))) xs (f v)"
  using decodes_then [of d xs v "\<lambda>v. doneD (f v)" "[]", OF _ decodes_done] by simp

lemma decodes_bytes32: "length bs < 2 ^ 32 \<Longrightarrow> decodes (READ_BYTES (unat (word_of_nat (length bs) :: u32))) bs bs"
  using decodes_basic(5) [of bs] by (simp add: unat_of_nat take_bit_nat_eq_self)

lemma decodes_bytes16: "length bs < 2 ^ 16 \<Longrightarrow> decodes (READ_BYTES (unat (word_of_nat (length bs) :: u16))) bs bs"
  using decodes_basic(5) [of bs] by (simp add: unat_of_nat take_bit_nat_eq_self)

lemma decodes_bytes8: "length bs < 2 ^ 8 \<Longrightarrow> decodes (READ_BYTES (unat (word_of_nat (length bs) :: byte))) bs bs"
  using decodes_basic(5) [of bs] by (simp add: unat_of_nat take_bit_nat_eq_self)

lemma decodes_ids: "decodes (decIds (length is)) (concat (map le64 is)) is"
  by (induction "is") (auto intro!: decodes_done decodes_then decodes_basic decodes_map)

text \<open>A rule for each kind of field; the last field of a command is read by \<open>decodes_map\<close>.\<close>

lemmas decodes_intros = decodes_then decodes_map decodes_basic decodes_bytes32 decodes_bytes16 decodes_bytes8

section \<open>The commands as the server writes them\<close>

text \<open>The formats documented next to the opcodes; fields the client ignores are zero.\<close>

fun wireOp :: "ChatdCmd \<Rightarrow> Opcode" where
  "wireOp RKeepalive = OP_KEEPALIVE"
| "wireOp (RBroadcast _ _ _) = OP_BROADCAST"
| "wireOp (RJoin _ _ _) = OP_JOIN"
| "wireOp (RMsg op _ _) = op"
| "wireOp (RSeen _ _) = OP_SEEN"
| "wireOp (RReceived _ _) = OP_RECEIVED"
| "wireOp (RRetention _ _ _) = OP_RETENTION"
| "wireOp (RMsgId _ _) = OP_MSGID"
| "wireOp (RNewMsgId _ _ _) = OP_NEWMSGIDTIMESTAMP"
| "wireOp (RReject _ _ _ _) = OP_REJECT"
| "wireOp (RHistDone _) = OP_HISTDONE"
| "wireOp (RNewKeyId _ _ _) = OP_NEWKEYID"
| "wireOp (RNewKey _ _) = OP_NEWKEY"
| "wireOp (RDeprecated op _) = op"
| "wireOp (RClientId _) = OP_CLIENTID"
| "wireOp REcho = OP_ECHO"
| "wireOp (RReaction op _ _ _ _) = op"
| "wireOp (RReactionSn _ _) = OP_REACTIONSN"
| "wireOp (RSync _) = OP_SYNC"
| "wireOp (RNumByHandle _ _) = OP_NUMBYHANDLE"
| "wireOp (RCallUsers op _ _ _) = op"
| "wireOp (RCallState _ _ _ _) = OP_CALLSTATE"
| "wireOp (RCallEnd _ _ r) = (if r = None then OP_CALLEND else OP_DELCALLREASON)"

fun wireArgs :: "ChatdCmd \<Rightarrow> bytes" where
  "wireArgs RKeepalive = []"
| "wireArgs (RBroadcast c u t) = le64 c @ le64 u @ [t]"
| "wireArgs (RJoin c u p) = le64 c @ le64 u @ [privToByte p]"
| "wireArgs (RMsg op c m) = le64 c @ le64 (userid m) @ le64 (mId m) @ le32 (ts m) @ le16 (updated m) @ le32 (keyid m) @
     le32 (word_of_nat (length (mData m))) @ mData m"
| "wireArgs (RSeen c i) = le64 c @ le64 i"
| "wireArgs (RReceived c i) = le64 c @ le64 i"
| "wireArgs (RRetention c u p) = le64 c @ le64 u @ le32 p"
| "wireArgs (RMsgId x i) = le64 x @ le64 i"
| "wireArgs (RNewMsgId x i t) = le64 x @ le64 i @ le32 t"
| "wireArgs (RReject c i op r) = le64 c @ le64 i @ [op] @ [r]"
| "wireArgs (RHistDone c) = le64 c"
| "wireArgs (RNewKeyId c x k) = le64 c @ le32 x @ le32 k"
| "wireArgs (RNewKey c keys) = le64 c @ le32 0 @ le32 (word_of_nat (length keys)) @ keys"
| "wireArgs (RDeprecated op c) = (if op = OP_CALLTIME then le64 c @ le32 0
     else if op = OP_INCALL \<or> op = OP_ENDCALL then le64 c @ le64 0 @ le32 0
     else le64 c @ le64 0 @ le32 0 @ le16 0)"
| "wireArgs (RClientId i) = le32 i @ le32 0"
| "wireArgs REcho = []"
| "wireArgs (RReaction op c u i r) = le64 c @ le64 u @ le64 i @ [word_of_nat (length r)] @ r"
| "wireArgs (RReactionSn c i) = le64 c @ le64 i"
| "wireArgs (RSync c) = le64 c"
| "wireArgs (RNumByHandle c n) = le64 c @ le32 n"
| "wireArgs (RCallUsers op c i us) = le64 c @ le64 i @ [word_of_nat (length us)] @ concat (map le64 us)"
| "wireArgs (RCallState c u i r) = le64 c @ le64 u @ le64 i @ [r]"
| "wireArgs (RCallEnd c i r) = le64 c @ le64 i @ (case r of None \<Rightarrow> [] | Some b \<Rightarrow> [b])"

definition wire :: "ChatdCmd \<Rightarrow> bytes" where
  "wire c = opcodeVal (wireOp c) # wireArgs c"

text \<open>What a command that arrives looks like.\<close>

fun wire_wf :: "ChatdCmd \<Rightarrow> bool" where
  "wire_wf (RJoin c u p) \<longleftrightarrow> - 128 \<le> p \<and> p < 128"
| "wire_wf (RMsg op c m) \<longleftrightarrow> op \<in> {OP_OLDMSG, OP_NEWMSG, OP_MSGUPD} \<and> length (mData m) < 2 ^ 32 \<and>
     m = (newMessage (mId m) (userid m) (ts m) (updated m) (mData m) False (keyid m) kMsgInvalid 0 [])\<lparr>mIsEncrypted := kEncryptedPending\<rparr>"
| "wire_wf (RNewKey c keys) \<longleftrightarrow> length keys < 2 ^ 32"
| "wire_wf (RDeprecated op c) \<longleftrightarrow> op \<in> {OP_INCALL, OP_ENDCALL, OP_CALLDATA, OP_RTMSG_ENDPOINT, OP_RTMSG_USER, OP_RTMSG_BROADCAST, OP_CALLTIME}"
| "wire_wf (RReaction op c u i r) \<longleftrightarrow> op \<in> {OP_ADDREACTION, OP_DELREACTION} \<and> length r < 2 ^ 8"
| "wire_wf (RCallUsers op c i us) \<longleftrightarrow> op \<in> {OP_JOINEDCALL, OP_LEFTCALL} \<and> length us < 2 ^ 8"
| "wire_wf _ \<longleftrightarrow> True"

lemma unat_word_8: "n < 256 \<Longrightarrow> unat (word_of_nat n :: byte) = n"
  by (simp add: unat_of_nat take_bit_nat_eq_self)

lemma priv_roundtrip: "- 128 \<le> p \<Longrightarrow> p < 128 \<Longrightarrow> privOfByte (privToByte p) = p"
  by (simp add: privOfByte_def privToByte_def sint_byte_of_int)

lemma decode_msg:
  assumes "length (mData m) < 2 ^ 32"
    "m = (newMessage (mId m) (userid m) (ts m) (updated m) (mData m) False (keyid m) kMsgInvalid 0 [])\<lparr>mIsEncrypted := kEncryptedPending\<rparr>"
  shows "decodes (decMsg op) (wireArgs (RMsg op c m)) (RMsg op c m)"
proof -
  have "decodes (decMsg op) (wireArgs (RMsg op c m)) (RMsg op c ((newMessage (mId m) (userid m) (ts m) (updated m) (mData m) False (keyid m) kMsgInvalid 0 [])
      \<lparr>mIsEncrypted := kEncryptedPending\<rparr>))"
    unfolding decMsg_def wireArgs.simps by (rule decodes_intros assms(1))+
  then show ?thesis using assms(2) by simp
qed

lemma decode_ids:
  assumes "length us < 2 ^ 8"
  shows "decodes (decCallUsers op) (wireArgs (RCallUsers op c i us)) (RCallUsers op c i us)"
proof -
  have "decodes (decIds (unat (word_of_nat (length us) :: byte))) (concat (map le64 us)) us"
    using assms decodes_ids [of us] by (simp add: unat_word_8)
  then show ?thesis unfolding decCallUsers_def wireArgs.simps by - (rule decodes_intros | assumption)+
qed

lemma decode_deprecated:
  assumes "wire_wf (RDeprecated op c)"
  shows "\<exists>d. decodeCmd op = Some d \<and> decodes d (wireArgs (RDeprecated op c)) (RDeprecated op c)"
proof -
  have sk: "decodes (thenD (skipD (unat (0 :: u16))) (\<lambda>_. doneD (RDeprecated op c))) [] (RDeprecated op c)"
    using decodes_basic(6) [of "[]"] by (intro decodes_map) simp
  have "decodes (decCallData op) (le64 c @ le64 0 @ le32 0 @ le16 0 @ []) (RDeprecated op c)"
    unfolding decCallData_def by (rule decodes_then decodes_basic sk)+
  moreover have "decodes (decInCall op) (le64 c @ le64 0 @ le32 0) (RDeprecated op c)"
    unfolding decInCall_def by (rule decodes_intros)+
  moreover have "decodes decCallTime (le64 c @ le32 0) (RDeprecated OP_CALLTIME c)"
    unfolding decCallTime_def by (rule decodes_intros)+
  ultimately show ?thesis using assms by (auto simp: decodeCmd_def)
qed

lemma decode_wire:
  assumes "wire_wf c"
  shows "\<exists>d. decodeCmd (wireOp c) = Some d \<and> decodes d (wireArgs c) c"
proof (cases c)
  case RKeepalive
  then show ?thesis by (simp add: decodeCmd_def decodes_done)
next
  case (RBroadcast x1 x2 x3)
  then show ?thesis by (auto simp: decodeCmd_def decoder_defs intro!: decodes_intros)
next
  case (RJoin x1 x2 x3)
  have "decodes decJoin (le64 x1 @ le64 x2 @ [privToByte x3]) (RJoin x1 x2 (privOfByte (privToByte x3)))"
    unfolding decJoin_def by (rule decodes_intros)+
  with RJoin assms show ?thesis by (simp add: decodeCmd_def priv_roundtrip)
next
  case (RMsg x1 x2 x3)
  with assms show ?thesis using decode_msg [of x3 x1 x2] by (auto simp: decodeCmd_def)
next
  case (RReject x1 x2 x3 x4)
  have "decodes decReject (le64 x1 @ le64 x2 @ [x3] @ [x4]) (RReject x1 x2 x3 x4)"
    unfolding decReject_def by (rule decodes_intros)+
  with RReject show ?thesis by (simp add: decodeCmd_def)
next
  case (RDeprecated x1 x2)
  with assms decode_deprecated show ?thesis by simp
next
  case (RNewKey x1 x2)
  with assms show ?thesis by (auto simp: decodeCmd_def decoder_defs intro!: decodes_intros)
next
  case (RReaction x1 x2 x3 x4 x5)
  with assms have "decodes (decReaction x1) (wireArgs c) c"
    unfolding RReaction decReaction_def wireArgs.simps by - ((rule decodes_intros)+, simp)
  with RReaction assms show ?thesis by (auto simp: decodeCmd_def)
next
  case (RCallUsers x1 x2 x3 x4)
  with assms show ?thesis using decode_ids [of x4 x1 x2 x3] by (auto simp: decodeCmd_def)
next
  case (RCallEnd x1 x2 x3)
  have "decodes (decCallEnd OP_CALLEND) (le64 x1 @ le64 x2) (RCallEnd x1 x2 None)"
    unfolding decCallEnd_def by (auto intro!: decodes_intros)
  moreover have "decodes (decCallEnd OP_DELCALLREASON) (le64 x1 @ le64 x2 @ [b]) (RCallEnd x1 x2 (Some b))" for b
    unfolding decCallEnd_def by (auto intro!: decodes_intros)
  ultimately show ?thesis using RCallEnd by (cases x3) (auto simp: decodeCmd_def)
qed (auto simp: decodeCmd_def decoder_defs decodes_done intro!: decodes_intros)

section \<open>Safety of the decoders\<close>

text \<open>
  A decoder started inside the frame either fails with the range error or, when it is \<open>inside\<close>, ends
  inside the frame; no decoder reads outside.
\<close>

definition safe :: "'a dec \<Rightarrow> bool" where
  "safe d \<longleftrightarrow> (\<forall>buf pos e. length buf < 2 ^ 63 \<longrightarrow> pos \<le> length buf \<longrightarrow> d buf pos = Inl e \<longrightarrow> e = RangeError)"

definition inside :: "'a dec \<Rightarrow> bool" where
  "inside d \<longleftrightarrow> safe d \<and> (\<forall>buf pos v p. length buf < 2 ^ 63 \<longrightarrow> pos \<le> length buf \<longrightarrow> d buf pos = Inr (v, p) \<longrightarrow> p \<le> length buf)"

lemma readPtr_cases:
  assumes "length buf < 2 ^ 63" "pos \<le> length buf" "len < 2 ^ 32"
  shows "readPtr buf pos len = (if pos + len \<le> length buf then Inr (slice buf pos len) else Inl RangeError)"
  using assms by (simp add: readPtr_def)

lemma inside_basic:
  "inside READ_ID" "inside READ_32" "inside READ_16" "inside READ_8"
  unfolding inside_def safe_def READ_ID_def READ_32_def READ_16_def READ_8_def read64_def read32_def read16_def read8_def
  by (auto simp: readPtr_cases split: if_splits)

lemma inside_bytes: "n < 2 ^ 32 \<Longrightarrow> inside (READ_BYTES n)"
  unfolding inside_def safe_def READ_BYTES_def by (auto simp: readPtr_cases split: if_splits)

lemma inside_done: "inside (doneD a)"
  by (simp add: inside_def safe_def doneD_def)

lemma safeD: "safe d \<Longrightarrow> length buf < 2 ^ 63 \<Longrightarrow> pos \<le> length buf \<Longrightarrow> d buf pos = Inl e \<Longrightarrow> e = RangeError"
  unfolding safe_def by blast

lemma inside_safe: "inside d \<Longrightarrow> safe d"
  unfolding inside_def by blast

lemma insideE: "inside d \<Longrightarrow> length buf < 2 ^ 63 \<Longrightarrow> pos \<le> length buf \<Longrightarrow> d buf pos = Inr (v, p) \<Longrightarrow> p \<le> length buf"
  unfolding inside_def by blast

lemma insideD:
  assumes "inside d" "length buf < 2 ^ 63" "pos \<le> length buf"
  obtains "d buf pos = Inl RangeError" | v p where "d buf pos = Inr (v, p)" "p \<le> length buf"
proof (cases "d buf pos")
  case (Inl e)
  with safeD [OF inside_safe [OF assms(1)] assms(2,3)] that(1) show ?thesis by blast
next
  case (Inr x)
  with insideE [OF assms] that(2) show ?thesis by (cases x) blast
qed

lemma safe_then:
  assumes "inside d" "\<And>v. safe (f v)"
  shows "safe (thenD d f)"
  unfolding safe_def
proof (intro allI impI)
  fix buf pos e
  assume a: "length buf < 2 ^ 63" "pos \<le> length buf" and e: "thenD d f buf pos = Inl e"
  show "e = RangeError" using insideD [OF assms(1) a]
  proof cases
    case 1
    with e show ?thesis by (simp add: thenD_def)
  next
    case (2 v p)
    with e safeD [OF assms(2) [of v] a(1)] show ?thesis by (simp add: thenD_def)
  qed
qed

lemma inside_then:
  assumes "inside d" "\<And>v. inside (f v)"
  shows "inside (thenD d f)"
proof -
  have "p \<le> length buf" if a: "length buf < 2 ^ 63" "pos \<le> length buf" and e: "thenD d f buf pos = Inr (w, p)" for buf pos w p
    using insideD [OF assms(1) a]
  proof cases
    case 1
    with e show ?thesis by (simp add: thenD_def)
  next
    case (2 v p)
    with e insideE [OF assms(2) [of v] a(1)] show ?thesis by (simp add: thenD_def)
  qed
  moreover have "safe (thenD d f)" by (rule safe_then [OF assms(1) inside_safe [OF assms(2)]])
  ultimately show ?thesis unfolding inside_def by blast
qed

lemma inside_ids: "inside (decIds n)"
  by (induction n) (auto intro: inside_then inside_basic inside_done)

lemma safe_done: "safe (doneD a)"
  by (simp add: safe_def doneD_def)

lemma safe_skip: "safe (thenD (skipD n) (\<lambda>_. doneD c))"
  by (simp add: safe_def thenD_def skipD_def doneD_def)

lemma inside_bytes_word:
  "inside (READ_BYTES (unat (w :: u32)))" "inside (READ_BYTES (unat (b :: byte)))"
  using unsigned_less [of w, where ?'a = nat] unsigned_less [of b, where ?'a = nat] by (simp_all add: inside_bytes)

lemma decodeCmd_safe: "decodeCmd op = Some d \<Longrightarrow> safe d"
  by (cases op) (auto simp: decodeCmd_def decoder_defs
      intro!: safe_then inside_basic safe_done safe_skip inside_bytes_word inside_ids)

section \<open>The loop\<close>

definition polite :: "'s handler \<Rightarrow> bool" where
  "polite h \<longleftrightarrow> (\<forall>c s. case snd (h c s) of None \<Rightarrow> True | Some (RuntimeError _) \<Rightarrow> True | _ \<Rightarrow> False)"

lemma polite_dispatch: "polite h \<Longrightarrow> polite (dispatch h)"
  by (auto simp: polite_def dispatch_def split: ChatdCmd.split list.split)

lemma exec_step:
  assumes "pos < length buf" "opcodeOf (buf ! pos) = Some op" "decodeCmd op = Some d"
    "d buf (pos + 1) = Inr (c, p)" "polite h"
  shows "execCommand h buf pos s = execCommand h buf p (fst (dispatch h c s))"
proof -
  have "case snd (dispatch h c s) of None \<Rightarrow> True | Some (RuntimeError _) \<Rightarrow> True | _ \<Rightarrow> False"
    using polite_dispatch [OF assms(5)] by (simp add: polite_def)
  then show ?thesis using assms(1-4)
    by (subst execCommand.simps) (auto split: prod.split option.splits exn.splits)
qed

lemma exec_wire:
  assumes "polite h" "\<forall>c \<in> set cs. wire_wf c" "length (pre @ concat (map wire cs) @ post) < size_max"
  shows "execCommand h (pre @ concat (map wire cs) @ post) (length pre) s =
    execCommand h (pre @ concat (map wire cs) @ post) (length (pre @ concat (map wire cs))) (fold (\<lambda>c s. fst (dispatch h c s)) cs s)"
  using assms
proof (induction cs arbitrary: pre s)
  case Nil
  then show ?case by simp
next
  case (Cons c cs)
  obtain d where d: "decodeCmd (wireOp c) = Some d" "decodes d (wireArgs c) c"
    using decode_wire [of c] Cons.prems(2) by auto
  let ?rest = "concat (map wire cs) @ post"
  let ?buf = "pre @ concat (map wire (c # cs)) @ post"
  have buf: "?buf = (pre @ [opcodeVal (wireOp c)]) @ wireArgs c @ ?rest" by (simp add: wire_def)
  have "d ((pre @ [opcodeVal (wireOp c)]) @ wireArgs c @ ?rest) (length (pre @ [opcodeVal (wireOp c)])) =
      Inr (c, length (pre @ [opcodeVal (wireOp c)]) + length (wireArgs c))"
    using Cons.prems(3) unfolding buf by (rule d(2) [unfolded decodes_def, rule_format])
  then have dec: "d ?buf (length pre + 1) = Inr (c, length (pre @ wire c))"
    unfolding buf by (simp add: wire_def)
  have "execCommand h ?buf (length pre) s = execCommand h ?buf (length (pre @ wire c)) (fst (dispatch h c s))"
    by (rule exec_step [OF _ _ d(1) dec Cons.prems(1)]) (simp_all add: wire_def opcodeOf_opcodeVal)
  also have "?buf = (pre @ wire c) @ concat (map wire cs) @ post" by simp
  finally show ?case
    using Cons.IH [of "pre @ wire c"] Cons.prems by simp
qed

lemma exec_end:
  assumes "polite h" "length buf < 2 ^ 63"
  shows "snd (execCommand h buf pos s) \<in> {FrameDone, FrameUnknownOpcode, FrameRangeError}"
  using assms
proof (induction h buf pos s rule: execCommand.induct)
  case (1 h buf pos s)
  show ?case
  proof (cases "pos < length buf")
    case False
    then show ?thesis by (subst execCommand.simps) simp
  next
    case pos: True
    show ?thesis
    proof (cases "Option.bind (opcodeOf (buf ! pos)) decodeCmd")
      case None
      with pos show ?thesis by (subst execCommand.simps) simp
    next
      case (Some d)
      then obtain op where op: "opcodeOf (buf ! pos) = Some op" "decodeCmd op = Some d"
        by (auto simp: bind_eq_Some_conv)
      show ?thesis
      proof (cases "d buf (pos + 1)")
        case (Inl e)
        have "pos + 1 \<le> length buf" using pos by simp
        from safeD [OF decodeCmd_safe [OF op(2)] "1.prems"(2) this Inl] have "e = RangeError" .
        with pos Some Inl show ?thesis by (subst execCommand.simps) simp
      next
        case (Inr x)
        obtain c p where x: "x = (c, p)" by (cases x)
        obtain s' r where r: "dispatch h c s = (s', r)" by (cases "dispatch h c s")
        have "case r of None \<Rightarrow> True | Some (RuntimeError _) \<Rightarrow> True | _ \<Rightarrow> False"
          using polite_dispatch [OF "1.prems"(1)] r by (metis polite_def snd_conv)
        then consider "r = None" | m where "r = Some (RuntimeError m)" by (auto split: option.splits exn.splits)
        then have "snd (execCommand h buf p s') \<in> {FrameDone, FrameUnknownOpcode, FrameRangeError}"
          using "1.IH" [OF pos Some Inr x [symmetric] r [symmetric]] "1.prems" by cases blast+
        moreover have "execCommand h buf pos s = execCommand h buf p s'"
          using exec_step [OF pos op _ "1.prems"(1)] Inr x r by simp
        ultimately show ?thesis by simp
      qed
    qed
  qed
qed

section \<open>Keys\<close>

definition keyBlob :: "(Id \<times> KeyId \<times> bytes) list \<Rightarrow> bytes" where
  "keyBlob ks = concat (map (\<lambda>(u, k, key). le64 u @ le32 k @ le16 (word_of_nat (length key)) @ key) ks)"

lemma onNewKeys_blob:
  "\<forall>(u, k, key) \<in> set ks. key \<noteq> [] \<and> length key < 2 ^ 16 \<Longrightarrow> length (pre @ keyBlob ks) < size_max \<Longrightarrow>
    onNewKeys (pre @ keyBlob ks) (length pre) = (ks, None)"
proof (induction ks arbitrary: pre)
  case Nil
  then show ?case by (subst onNewKeys.simps) (simp add: keyBlob_def)
next
  case (Cons x ks)
  obtain u k key where x: "x = (u, k, key)" by (cases x)
  let ?e = "le64 u @ le32 k @ le16 (word_of_nat (length key)) @ key"
  have blob: "keyBlob ((u, k, key) # ks) = ?e @ keyBlob ks" by (simp add: keyBlob_def)
  have l: "length key < 2 ^ 16" "key \<noteq> []" using Cons.prems(1) by (auto simp: x)
  have "decodes (thenD READ_ID (\<lambda>u. thenD READ_32 (\<lambda>k. thenD READ_16 (\<lambda>len. thenD (READ_BYTES (unat len)) (\<lambda>key.
      doneD (u, k, key)))))) ?e (u, k, key)"
    by (rule decodes_intros l(1))+
  moreover have "length (pre @ ?e @ keyBlob ks) < size_max" using Cons.prems(2) by (simp add: x blob)
  ultimately have "thenD READ_ID (\<lambda>u. thenD READ_32 (\<lambda>k. thenD READ_16 (\<lambda>len. thenD (READ_BYTES (unat len)) (\<lambda>key.
      doneD (u, k, key))))) (pre @ ?e @ keyBlob ks) (length pre) = Inr ((u, k, key), length (pre @ ?e))"
    unfolding decodes_def length_append by blast
  moreover have "onNewKeys ((pre @ ?e) @ keyBlob ks) (length (pre @ ?e)) = (ks, None)"
    using Cons.prems blob by (intro Cons.IH) (simp_all add: x add.assoc)
  moreover have "length pre + 14 < length (pre @ ?e @ keyBlob ks)" using l(2) by (cases key) simp_all
  ultimately show ?case unfolding x blob by (subst onNewKeys.simps) simp
qed

section \<open>Properties\<close>

text \<open>
  A frame made of any commands the server can send is cut into exactly these commands: each reaches
  its handler once, in order and with its fields as sent, whether or not handlers throw on the way,
  and the processing ends at the end of the frame.
\<close>
theorem frame_delivers_all:
  assumes "polite h" "\<forall>c \<in> set cs. wire_wf c" "length (concat (map wire cs)) < size_max"
  shows "execCommand h (concat (map wire cs)) 0 s = (fold (\<lambda>c s. fst (dispatch h c s)) cs s, FrameDone)"
proof -
  let ?b = "concat (map wire cs)"
  have "execCommand h ?b (length ?b) t = (t, FrameDone)" for t by (subst execCommand.simps) simp
  with exec_wire [OF assms(1,2), of "[]" "[]" s] assms(3) show ?thesis by simp
qed

definition logHandler :: "ChatdCmd list handler" where
  "logHandler c s = (s @ [c], if c = REcho then Some (RuntimeError ''echo'') else None)"

theorem frame_delivers_all_witness:
  "execCommand logHandler (concat (map wire [REcho, RSeen 7 8, RCallUsers OP_JOINEDCALL 7 9 []])) 0 [] =
    ([REcho, RSeen 7 8], FrameDone)"
proof -
  have "polite logHandler" by (simp add: polite_def logHandler_def)
  from frame_delivers_all [OF this, of "[REcho, RSeen 7 8, RCallUsers OP_JOINEDCALL 7 9 []]" "[]"]
  show ?thesis by (simp add: wire_def dispatch_def logHandler_def)
qed

text \<open>
  C27: Whatever bytes arrive, processing a frame ends without reading outside it: at its end, at an
  unknown opcode, or at the range check of a command that is cut off.
\<close>
theorem frame_never_crashes:
  assumes "polite h" "length buf < 2 ^ 63"
  shows "snd (execCommand h buf 0 s) \<in> {FrameDone, FrameUnknownOpcode, FrameRangeError}"
  by (rule exec_end [OF assms])

theorem frame_never_crashes_witness:
  "snd (execCommand logHandler [5, 1, 2, 3] 0 []) \<in> {FrameDone, FrameUnknownOpcode, FrameRangeError}"
  by (rule frame_never_crashes) (simp_all add: polite_def logHandler_def)

text \<open>
  Every key of a received key blob reaches the crypto module, with its user and key id, as long as
  no key is empty; an empty key at the end of the blob is dropped, because the loop asks for more than
  the fourteen bytes of an entry without key.
\<close>
theorem received_keys_delivered:
  assumes "\<forall>(u, k, key) \<in> set ks. key \<noteq> [] \<and> length key < 2 ^ 16" "length (keyBlob ks) + 14 < size_max"
  shows "onNewKeys (keyBlob ks) 0 = (ks, None) \<and> onNewKeys (keyBlob [(u, k, [])]) 0 = ([], None)"
proof
  show "onNewKeys (keyBlob ks) 0 = (ks, None)" using onNewKeys_blob [OF assms(1), of "[]"] assms(2) by simp
  show "onNewKeys (keyBlob [(u, k, [])]) 0 = ([], None)" by (subst onNewKeys.simps) (simp add: keyBlob_def)
qed

theorem received_keys_delivered_witness:
  "onNewKeys (keyBlob [(1, 2, [3, 4]), (5, 6, [7])]) 0 = ([(1, 2, [3, 4]), (5, 6, [7])], None)"
  using received_keys_delivered [of "[(1, 2, [3, 4]), (5, 6, [7])]" 1 2] by (simp add: keyBlob_def)

end
