(* ===== verification/ChatdRoute.thy ===== *)
theory ChatdRoute
  imports ChatdFrame
begin

text \<open>
  What each case of \<open>Connection::execCommand\<close> of \<open>src/chatd.cpp\<close> does with the command it has read: the
  calls of the chat, the client and the call module, in order.  What the case asks of them before is the
  environment \<open>RouteEnv\<close>.  \<open>routeH\<close> is the handler made of these calls.
\<close>

section \<open>Calls\<close>

record RouteEnv =
  knownChat :: "Id \<Rightarrow> bool"
  fetchingNodes :: "Id \<Rightarrow> bool"
  chatidFromPh :: "Id \<Rightarrow> Id"
  echoTimer :: bool
  rtcExists :: bool
  previewMode :: "Id \<Rightarrow> bool"
  isPublicChat :: "Id \<Rightarrow> bool"
  isGroupChat :: "Id \<Rightarrow> bool"
  findCall :: "Id \<Rightarrow> bool"
  findCallByChatid :: "Id \<Rightarrow> bool"
  callParticipating :: "Id \<Rightarrow> bool"
  callOwnCaller :: "Id \<Rightarrow> bool"
  callOutgoingRinging :: "Id \<Rightarrow> bool"

datatype (plugins only: code) ChatdCall =
    CSendKeepalive
  | CHandleBroadcast Id Id byte
  | COnUserLeave Id Id
  | COnUserJoin Id Id priv
  | COnMsgUpdated Id Message
  | CMsgIncoming Id bool Message
  | CMsgNodeHistIncoming Id Message
  | COnLastSeen Id Id
  | COnLastReceived Id Id
  | COnRetentionTimeUpdated Id u32
  | COnMsgAlreadySent Id Id
  | CClientMsgConfirm Id Id u32
  | COnHandleJoinRejected Id
  | COnReactionReject Id Id
  | CMsgConfirm Id Id Id
  | CRejectMsgupd Id Id byte
  | COnJoinRejected Id
  | CClearHistory Id
  | CSetServerOldHistCb Id
  | CRequestInitialHistory Id
  | COnKeyReject Id
  | COnHistReject Id
  | CRejectGeneric Id byte byte
  | COnHistDone Id
  | CKeyConfirm Id KeyId KeyId
  | COnNewKeys Id bytes
  | CSetClientId u32
  | CCancelEchoTimer
  | COnAddReaction Id Id Id bytes
  | COnDelReaction Id Id Id bytes
  | COnReactionSn Id Id
  | COnSyncReceived Id
  | COnPreviewersUpdate Id u32
  | CNewCallWhenKey Id Id bool "ChatdCmd"
  | CHandleJoinedCall Id Id "Id list"
  | CHandleLeftCall Id Id "Id list"
  | CSetCallerId Id Id
  | CSetRinging Id byte
  | CStopOutgoingRinging Id
  | COnDestroyCall Id byte byte

definition kUserHangup :: byte where "kUserHangup = 0"
definition kApiEndCall :: byte where "kApiEndCall = 4"
definition kUnKnownTermCode :: byte where "kUnKnownTermCode = 254"
definition kFailedReason :: byte where "kFailedReason = 4"
definition kEndedReason :: byte where "kEndedReason = 1"

text \<open>\<open>Client::chats\<close> throws for a chat that is not known.\<close>

definition inChat :: "RouteEnv \<Rightarrow> Id \<Rightarrow> ChatdCall list res \<Rightarrow> ChatdCall list res" where
  "inChat env c k = (if knownChat env c then k else Inl (RuntimeError ''chatidChat: Unknown chatid''))"

section \<open>Routing\<close>

definition routeMsg :: "RouteEnv \<Rightarrow> Opcode \<Rightarrow> Id \<Rightarrow> Message \<Rightarrow> ChatdCall list res" where
  "routeMsg env op c m = inChat env c (Inr
     (if op = OP_MSGUPD then [COnMsgUpdated c m]
      else if \<not> fetchingNodes env c \<or> op = OP_NEWMSG then [CMsgIncoming c (op = OP_NEWMSG) m]
      else [CMsgNodeHistIncoming c m]))"

definition routeReject :: "RouteEnv \<Rightarrow> Id \<Rightarrow> Id \<Rightarrow> byte \<Rightarrow> byte \<Rightarrow> ChatdCall list res" where
  "routeReject env c i op reason =
    (if op = opcodeVal OP_HANDLEJOIN
     then let actual = chatidFromPh env c
          in if Id_isValid actual then inChat env actual (Inr [COnHandleJoinRejected actual]) else Inr []
     else inChat env c (Inr
       (if op = opcodeVal OP_ADDREACTION \<or> op = opcodeVal OP_DELREACTION then [COnReactionReject c i]
        else if op = opcodeVal OP_NEWMSG \<or> op = opcodeVal OP_NEWNODEMSG then [CMsgConfirm c i Id_null]
        else if op = opcodeVal OP_MSGUPD \<or> op = opcodeVal OP_MSGUPDX then [CRejectMsgupd c i reason]
        else if op = opcodeVal OP_JOIN then [COnJoinRejected c]
        else if op = opcodeVal OP_RANGE \<and> reason = 1 then [CClearHistory c, CSetServerOldHistCb c, CRequestInitialHistory c]
        else if op = opcodeVal OP_NEWKEY then [COnKeyReject c]
        else if op = opcodeVal OP_HIST then [COnHistReject c]
        else [CRejectGeneric c op reason])))"

text \<open>
  A call that is not known is created once the unified key of the chat is there (at once in a private
  chat); \<open>CNewCallWhenKey\<close> holds the command whose continuation then runs.
\<close>

definition routeCallUsers :: "RouteEnv \<Rightarrow> Opcode \<Rightarrow> Id \<Rightarrow> Id \<Rightarrow> Id list \<Rightarrow> ChatdCall list res" where
  "routeCallUsers env op c call us =
    (if us = [] then Inl (RuntimeError ''basic_string::erase'')
     else if \<not> rtcExists env then Inr []
     else inChat env c (Inr
       (if previewMode env c then []
        else if \<not> findCall env call
        then (if op = OP_LEFTCALL then [] else [CNewCallWhenKey c call (isPublicChat env c) (RCallUsers op c call us)])
        else [if op = OP_JOINEDCALL then CHandleJoinedCall c call us else CHandleLeftCall c call us])))"

definition routeCallState :: "RouteEnv \<Rightarrow> Id \<Rightarrow> Id \<Rightarrow> Id \<Rightarrow> byte \<Rightarrow> ChatdCall list res" where
  "routeCallState env c u call ringing =
    (if \<not> rtcExists env then Inr []
     else inChat env c (Inr
       (if previewMode env c then []
        else if \<not> findCall env call then [CNewCallWhenKey c call (isPublicChat env c) (RCallState c u call ringing)]
        else [CSetCallerId call u, CSetRinging call (if callParticipating env call then 0 else ringing)] @
          (if ringing = 0 \<and> \<not> isGroupChat env c \<and> callOwnCaller env call \<and> callOutgoingRinging env call
           then [CStopOutgoingRinging call] else []))))"

text \<open>The end of a call asks the call module for the call before it asks whether there is a call module.\<close>

definition routeCallEnd :: "RouteEnv \<Rightarrow> Id \<Rightarrow> Id \<Rightarrow> byte option \<Rightarrow> ChatdCall list res" where
  "routeCallEnd env c call r =
    (let termCode = (case r of None \<Rightarrow> kUnKnownTermCode | Some b \<Rightarrow> if b = kFailedReason then kApiEndCall else kUserHangup);
         reason = (case r of None \<Rightarrow> kEndedReason | Some b \<Rightarrow> b)
     in if \<not> rtcExists env then Inl OutOfBounds
        else Inr (if findCallByChatid env c then [COnDestroyCall c reason termCode] else []))"

fun route :: "RouteEnv \<Rightarrow> ChatdCmd \<Rightarrow> ChatdCall list res" where
  "route env RKeepalive = Inr [CSendKeepalive]"
| "route env (RBroadcast c u t) = inChat env c (Inr [CHandleBroadcast c u t])"
| "route env (RJoin c u p) =
     (if u = Id_COMMANDER then Inr []
      else inChat env c (Inr [if p = privVal PRIV_NOTPRESENT then COnUserLeave c u else COnUserJoin c u p]))"
| "route env (RMsg op c m) = routeMsg env op c m"
| "route env (RSeen c i) = inChat env c (Inr [COnLastSeen c i])"
| "route env (RReceived c i) = inChat env c (Inr [COnLastReceived c i])"
| "route env (RRetention c u p) = inChat env c (Inr [COnRetentionTimeUpdated c p])"
| "route env (RMsgId x i) = Inr [COnMsgAlreadySent x i]"
| "route env (RNewMsgId x i t) = Inr [CClientMsgConfirm x i t]"
| "route env (RReject c i op reason) = routeReject env c i op reason"
| "route env (RHistDone c) = inChat env c (Inr [COnHistDone c])"
| "route env (RNewKeyId c x k) = inChat env c (Inr [CKeyConfirm c x k])"
| "route env (RNewKey c keys) = inChat env c (Inr [COnNewKeys c keys])"
| "route env (RDeprecated op c) = Inr []"
| "route env (RClientId c) = Inr [CSetClientId c]"
| "route env REcho = Inr (if echoTimer env then [CCancelEchoTimer] else [])"
| "route env (RReaction op c u i r) =
     inChat env c (Inr [if op = OP_ADDREACTION then COnAddReaction c i u r else COnDelReaction c i u r])"
| "route env (RReactionSn c i) = inChat env c (Inr [COnReactionSn c i])"
| "route env (RSync c) = Inr [COnSyncReceived c]"
| "route env (RNumByHandle c n) = inChat env c (Inr [COnPreviewersUpdate c n])"
| "route env (RCallUsers op c call us) = routeCallUsers env op c call us"
| "route env (RCallState c u call r) = routeCallState env c u call r"
| "route env (RCallEnd c call r) = routeCallEnd env c call r"

text \<open>The handler of \<open>execCommand\<close>: the calls run one after the other until one throws.\<close>

type_synonym 's callee = "ChatdCall \<Rightarrow> 's \<Rightarrow> 's \<times> exn option"

primrec runCalls :: "'s callee \<Rightarrow> ChatdCall list \<Rightarrow> 's \<Rightarrow> 's \<times> exn option" where
  "runCalls k [] s = (s, None)"
| "runCalls k (c # cs) s = (case k c s of (s', None) \<Rightarrow> runCalls k cs s' | (s', Some e) \<Rightarrow> (s', Some e))"

definition routeH :: "('s \<Rightarrow> RouteEnv) \<Rightarrow> 's callee \<Rightarrow> 's handler" where
  "routeH env k c s = (case route (env s) c of Inl e \<Rightarrow> (s, Some e) | Inr calls \<Rightarrow> runCalls k calls s)"

section \<open>Routed handlers\<close>

definition onlyRuntime :: "exn option \<Rightarrow> bool" where
  "onlyRuntime e \<longleftrightarrow> (case e of None \<Rightarrow> True | Some (RuntimeError _) \<Rightarrow> True | _ \<Rightarrow> False)"

lemma polite_alt: "polite h \<longleftrightarrow> (\<forall>c s. onlyRuntime (snd (h c s)))"
  by (simp add: polite_def onlyRuntime_def)

lemma onlyRuntime_simps [simp]: "onlyRuntime None" "onlyRuntime (Some (RuntimeError m))"
  by (simp_all add: onlyRuntime_def)

lemma runCalls_polite: "(\<And>c s. onlyRuntime (snd (k c s))) \<Longrightarrow> onlyRuntime (snd (runCalls k cs s))"
proof (induction cs arbitrary: s)
  case (Cons c cs)
  have "onlyRuntime (snd (k c s))" by (rule Cons.prems)
  then show ?case using Cons.IH Cons.prems by (cases "k c s"; cases "snd (k c s)") auto
qed simp

lemma inChat_Inl: "inChat env c (Inr cs) = Inl e \<Longrightarrow> onlyRuntime (Some e)"
  by (auto simp: inChat_def split: if_splits)

lemma route_exn: "rtcExists env \<Longrightarrow> route env c = Inl e \<Longrightarrow> onlyRuntime (Some e)"
  by (cases c) (auto simp: routeMsg_def routeReject_def routeCallUsers_def routeCallState_def routeCallEnd_def Let_def
      split: if_splits dest: inChat_Inl)

lemma routeH_polite:
  assumes "\<And>c s. onlyRuntime (snd (k c s))" "\<And>s. rtcExists (env s)"
  shows "polite (routeH env k)"
  using route_exn [OF assms(2)] runCalls_polite [of k, OF assms(1)]
  by (auto simp: polite_alt routeH_def split: sum.splits)

definition callsOf :: "RouteEnv \<Rightarrow> ChatdCmd \<Rightarrow> ChatdCall list" where
  "callsOf env c = (case route env c of Inl _ \<Rightarrow> [] | Inr cs \<Rightarrow> cs)"

definition recordCall :: "ChatdCall list callee" where
  "recordCall c s = (s @ [c], None)"

lemma runCalls_record: "runCalls recordCall cs s = (s @ cs, None)"
  by (induction cs arbitrary: s) (simp_all add: recordCall_def)

lemma dispatch_record:
  "fst (dispatch (routeH (\<lambda>_. env) recordCall) c s) = s @ callsOf env c"
proof (cases "\<exists>op ch call. c = RCallUsers op ch call []")
  case True
  then show ?thesis by (auto simp: dispatch_def callsOf_def routeCallUsers_def)
next
  case False
  then have "dispatch (routeH (\<lambda>_. env) recordCall) c s = routeH (\<lambda>_. env) recordCall c s"
    by (auto simp: dispatch_def split: ChatdCmd.split list.split)
  then show ?thesis by (simp add: routeH_def callsOf_def runCalls_record split: sum.split)
qed

lemma fold_dispatch_record:
  "fold (\<lambda>c s. fst (dispatch (routeH (\<lambda>_. env) recordCall) c s)) cs s = s @ concat (map (callsOf env) cs)"
  by (induction cs arbitrary: s) (simp_all add: dispatch_record)

lemma exec_frame:
  assumes "polite h" "\<forall>c \<in> set cs. wire_wf c" "length (concat (map wire cs)) < size_max"
  shows "execCommand h (concat (map wire cs)) 0 s = (fold (\<lambda>c s. fst (dispatch h c s)) cs s, FrameDone)"
proof -
  let ?b = "concat (map wire cs)"
  have "execCommand h ?b (length ?b) t = (t, FrameDone)" for t by (subst execCommand.simps) simp
  with exec_wire [OF assms(1,2), of "[]" "[]" s] assms(3) show ?thesis by simp
qed

section \<open>Properties\<close>


definition sampleEnv :: RouteEnv where
  "sampleEnv = \<lparr>knownChat = (\<lambda>c. c = 7), fetchingNodes = (\<lambda>_. True), chatidFromPh = (\<lambda>_. Id_inval), echoTimer = False, rtcExists = True,
     previewMode = (\<lambda>_. False), isPublicChat = (\<lambda>_. False), isGroupChat = (\<lambda>_. False), findCall = (\<lambda>_. False),
     findCallByChatid = (\<lambda>_. True), callParticipating = (\<lambda>_. False), callOwnCaller = (\<lambda>_. False), callOutgoingRinging = (\<lambda>_. False)\<rparr>"


end
