(* ===== verification/FilteredHist.thy ===== *)
theory FilteredHist
  imports ChatHistory
begin

text \<open>
  The list of attachments of a chat, \<open>chatd::FilteredHistory\<close> of \<open>src/chatd.h\<close> and \<open>src/chatd.cpp\<close>:
  a buffer with the newest attachment in front, mirrored in the table \<open>node_history\<close> of the cache.

  The iterator \<open>mNextMsgToNotify\<close> into the \<open>std::list\<close> is its distance from the front, the length of
  the buffer standing for \<open>end()\<close>; it stays on its element when the list grows at either side.  An entry
  of \<open>mIdToMsgMap\<close> refers to the first element with its handle.
\<close>

datatype HistSource = kHistSourceNone | kHistSourceRam | kHistSourceDb | kHistSourceServer | kHistSourceNotLoggedIn

record FilteredHistory =
  fhBuffer :: "Message list"
  fhIdToMsg :: "Id \<Rightarrow> bool"
  fhNewestIdx :: Idx
  fhOldestIdx :: Idx
  fhOldestIdxInDb :: Idx
  fhNextMsgToNotify :: nat
  fhListener :: bool
  fhHaveAllHistory :: bool
  fhFetchingFromServer :: bool

text \<open>Calls of the registered handler and of the chat; a null message ends a batch.\<close>

datatype FhEvent = FhReceived Message Idx | FhLoaded "Message option" Idx | FhDeleted Id | FhTruncated Id
  | FhRequest Id nat

type_synonym fh_state = "FilteredHistory \<times> ChatdDb \<times> FhEvent list"

definition fhInit :: "FilteredHistory \<Rightarrow> FilteredHistory" where
  "fhInit fh = fh\<lparr>fhNewestIdx := - 1, fhOldestIdx := 0, fhOldestIdxInDb := 0, fhNextMsgToNotify := 0, fhHaveAllHistory := False\<rparr>"

definition newFilteredHistory :: "ChatdDb \<Rightarrow> Id \<Rightarrow> FilteredHistory" where
  "newFilteredHistory d c =
    (let (nw, old) = getNodeHistoryInfo d c;
         fh = fhInit \<lparr>fhBuffer = [], fhIdToMsg = (\<lambda>_. False), fhNewestIdx = - 1, fhOldestIdx = 0, fhOldestIdxInDb = 0,
            fhNextMsgToNotify = 0, fhListener = False, fhHaveAllHistory = False, fhFetchingFromServer = False\<rparr>
     in fh\<lparr>fhNewestIdx := nw, fhOldestIdxInDb := old, fhOldestIdx := (if nw < 0 then 0 else nw + 1)\<rparr>)"

definition fhCall :: "FilteredHistory \<Rightarrow> FhEvent \<Rightarrow> FhEvent list" where
  "fhCall fh e = (if fhListener fh then [e] else [])"

text \<open>The type of an attachment is recomputed from its second byte; a one-byte message is read past its end.\<close>

definition fhRetype :: "Message \<Rightarrow> Message res" where
  "fhRetype m = (if mData m = [] then Inr m
     else if length (mData m) < 2 then Inl OutOfBounds
     else Inr (m\<lparr>msgType := mData m ! 1 + kMsgOffset\<rparr>))"

text \<open>\<open>CALL_DB_FH\<close> logs an exception and goes on; the index may be replaced by the one in the cache.\<close>

definition fhStore :: "ChatdDb \<Rightarrow> Id \<Rightarrow> Message \<Rightarrow> Idx \<Rightarrow> ChatdDb \<times> Idx" where
  "fhStore d c m idx = (case addMsgToNodeHistory d c m idx of Inl _ \<Rightarrow> (d, idx) | Inr (d', i) \<Rightarrow> (d', i))"

text \<open>\<open>addMessage\<close> gives back the message too, whose type it may have changed.\<close>

definition fhAddMessage :: "Id \<Rightarrow> fh_state \<Rightarrow> Message \<Rightarrow> bool \<Rightarrow> bool \<Rightarrow> (fh_state \<times> Message) res" where
  "fhAddMessage c st m0 isNew isLocal = bindR (fhRetype m0) (\<lambda>m.
    (let (fh, d, ev) = st in
     if isNew
     then let (d', idx) = fhStore d c m (fhNewestIdx fh + 1);
              fh' = fh\<lparr>fhBuffer := copyMessage m # fhBuffer fh, fhIdToMsg := (fhIdToMsg fh)(mId m := True),
                       fhNextMsgToNotify := Suc (fhNextMsgToNotify fh), fhNewestIdx := idx\<rparr>
          in Inr ((fh', d', ev @ fhCall fh' (FhReceived (copyMessage m) idx)), m)
     else if fhIdToMsg fh (mId m) then Inr ((fh, d, ev), m)
     else let stored = (if isLocal then m else copyMessage m);
              atEnd = (fhNextMsgToNotify fh = length (fhBuffer fh));
              fh1 = fh\<lparr>fhBuffer := fhBuffer fh @ [stored], fhIdToMsg := (fhIdToMsg fh)(mId m := True),
                       fhNextMsgToNotify := (if atEnd then Suc (fhNextMsgToNotify fh) else fhNextMsgToNotify fh),
                       fhOldestIdx := fhOldestIdx fh - 1\<rparr>;
              (d', fh2) = (if isLocal then (d, fh1)
                 else let (d1, idx) = fhStore d c m (fhOldestIdx fh1)
                      in (d1, fh1\<lparr>fhOldestIdx := idx,
                            fhOldestIdxInDb := (if idx < fhOldestIdxInDb fh1 then idx else fhOldestIdxInDb fh1)\<rparr>))
          in Inr (if fhListener fh2 \<and> (fhFetchingFromServer fh2 \<or> isLocal)
             then ((fh2\<lparr>fhNextMsgToNotify := length (fhBuffer fh2)\<rparr>, d', ev @ [FhLoaded (Some stored) (fhOldestIdx fh2)]), m)
             else ((fh2, d', ev), m))))"

definition fhDeleteMessage :: "Id \<Rightarrow> fh_state \<Rightarrow> Message \<Rightarrow> fh_state" where
  "fhDeleteMessage c st m =
    (let (fh, d, ev) = st;
         (fh', ev') = (if fhIdToMsg fh (mId m)
            then (case findIndex (\<lambda>x. mId x = mId m) (fhBuffer fh) of
                    Some i \<Rightarrow> (fh\<lparr>fhBuffer := (fhBuffer fh)[i := (fhBuffer fh ! i)\<lparr>mData := [], updated := updated m, msgType := msgType m\<rparr>]\<rparr>,
                              ev @ fhCall fh (FhDeleted (mId m)))
                  | None \<Rightarrow> (fh, ev))
            else (fh, ev))
     in (fh', orElse d (deleteMsgFromNodeHistory d c m), ev'))"

definition fhClear :: "Id \<Rightarrow> fh_state \<Rightarrow> fh_state" where
  "fhClear c st = (let (fh, d, ev) = st in (fhInit (fh\<lparr>fhBuffer := [], fhIdToMsg := (\<lambda>_. False)\<rparr>), clearNodeHistory d c, ev))"

text \<open>
  Truncation after the message \<open>i\<close>: the loop over the removed messages dereferences the iterator in every
  round, which is not allowed when it is at the end, where it is put when it was on a removed message.
\<close>

primrec fhTruncLoop :: "nat \<Rightarrow> (Id \<Rightarrow> bool) \<Rightarrow> nat \<Rightarrow> nat \<Rightarrow> Message list \<Rightarrow> ((Id \<Rightarrow> bool) \<times> nat) res" where
  "fhTruncLoop e mp nx k [] = Inr (mp, nx)"
| "fhTruncLoop e mp nx k (m # ms) =
    (if nx = e then Inl OutOfBounds
     else fhTruncLoop e (mp(mId m := False)) (if nx = k then e else nx) (Suc k) ms)"

definition fhTruncateBuffer :: "FilteredHistory \<Rightarrow> Id \<Rightarrow> FilteredHistory res" where
  "fhTruncateBuffer fh i =
    (if \<not> fhIdToMsg fh i then Inr fh
     else case findIndex (\<lambda>x. mId x = i) (fhBuffer fh) of
       None \<Rightarrow> Inr fh
     | Some k \<Rightarrow>
        bindR (fhTruncLoop (length (fhBuffer fh)) (fhIdToMsg fh) (fhNextMsgToNotify fh) (Suc k) (drop (Suc k) (fhBuffer fh)))
          (\<lambda>(mp, nx). Inr (fh\<lparr>fhBuffer := take (Suc k) (fhBuffer fh), fhIdToMsg := mp,
             fhNextMsgToNotify := (if nx = length (fhBuffer fh) then Suc k else nx)\<rparr>)))"

definition fhTruncateHistory :: "Id \<Rightarrow> fh_state \<Rightarrow> Id \<Rightarrow> fh_state res" where
  "fhTruncateHistory c st i =
    (let (fh, d, ev) = st in
     if Id_isValid i
     then bindR (fhTruncateBuffer fh i)
      (\<lambda>fh1. let d' = truncateNodeHistory d c i; (nw, old) = getNodeHistoryInfo d' c;
                 fh2 = fh1\<lparr>fhNewestIdx := nw, fhOldestIdxInDb := old\<rparr>
             in Inr (fh2\<lparr>fhOldestIdx := (if fhOldestIdx fh2 < old then old else fhOldestIdx fh2), fhHaveAllHistory := True\<rparr>,
                     d', ev @ fhCall fh2 (FhTruncated i)))
     else let ev' = (if fhBuffer fh = [] then ev else ev @ fhCall fh (FhTruncated (mId (hd (fhBuffer fh)))));
              (fh', d', ev'') = fhClear c (fh, d, ev')
          in Inr (fh'\<lparr>fhHaveAllHistory := True\<rparr>, d', ev''))"

definition fhSetHaveAllHistory :: "FilteredHistory \<Rightarrow> bool \<Rightarrow> FilteredHistory" where
  "fhSetHaveAllHistory fh b = fh\<lparr>fhHaveAllHistory := b\<rparr>"

definition fhSetHandler :: "FilteredHistory \<Rightarrow> FilteredHistory res" where
  "fhSetHandler fh = (if fhListener fh then Inl (RuntimeError ''App node history handler is already set, remove it first'')
     else Inr (fh\<lparr>fhNextMsgToNotify := 0, fhListener := True\<rparr>))"

definition fhUnsetHandler :: "FilteredHistory \<Rightarrow> FilteredHistory" where
  "fhUnsetHandler fh = fh\<lparr>fhListener := False\<rparr>"

definition fhFinishFetchingFromServer :: "fh_state \<Rightarrow> fh_state res" where
  "fhFinishFetchingFromServer st = (let (fh, d, ev) = st
     in if \<not> fhFetchingFromServer fh then Inl AssertFail
        else Inr (fh\<lparr>fhFetchingFromServer := False\<rparr>, d, ev @ fhCall fh (FhLoaded None 0)))"

definition fhGetMessage :: "FilteredHistory \<Rightarrow> Id \<Rightarrow> Message option" where
  "fhGetMessage fh i = (if fhIdToMsg fh i then List.find (\<lambda>m. mId m = i) (fhBuffer fh) else None)"

definition fhGetMessageIdx :: "ChatdDb \<Rightarrow> Id \<Rightarrow> Id \<Rightarrow> Idx" where
  "fhGetMessageIdx d c i = getIdxOfMsgid (dNodeHistory d) c i"

section \<open>Loading for the app\<close>

definition fhFromRam :: "FilteredHistory \<Rightarrow> nat \<Rightarrow> (FilteredHistory \<times> FhEvent list) option" where
  "fhFromRam fh count =
    (let n = min count (length (fhBuffer fh) - fhNextMsgToNotify fh); p = fhNextMsgToNotify fh
     in if n = 0 then None
        else Some (fh\<lparr>fhNextMsgToNotify := p + n\<rparr>,
          concat (map (\<lambda>i. fhCall fh (FhLoaded (Some (fhBuffer fh ! i)) (fhNewestIdx fh - int i))) [p..<p + n]) @
          fhCall fh (FhLoaded None 0)))"

primrec fhAddLocals :: "Id \<Rightarrow> fh_state \<Rightarrow> Message list \<Rightarrow> fh_state res" where
  "fhAddLocals c st [] = Inr st"
| "fhAddLocals c st (m # ms) = bindR (fhAddMessage c st m False True) (\<lambda>(st', _). fhAddLocals c st' ms)"

definition fhOldestId :: "FilteredHistory \<Rightarrow> Message option \<Rightarrow> Id" where
  "fhOldestId fh msgText =
    (let msgNode = (if fhBuffer fh = [] then None else Some (last (fhBuffer fh)))
     in case (msgNode, msgText) of
       (Some n, Some t) \<Rightarrow> if ts n \<le> ts t then mId n else mId t
     | (Some n, None) \<Rightarrow> mId n
     | (None, Some t) \<Rightarrow> mId t
     | (None, None) \<Rightarrow> Id_inval)"

definition fhFromDb :: "Id \<Rightarrow> fh_state \<Rightarrow> nat \<Rightarrow> Message list" where
  "fhFromDb c st count =
    (let (fh, d, ev) = st in
     if fhOldestIdx fh > fhOldestIdxInDb fh
     then fetchDbNodeHistory d c (if fhBuffer fh = [] then fhNewestIdx fh else fhOldestIdx fh - 1) count
     else [])"

definition fhGetHistory :: "Id \<Rightarrow> bool \<Rightarrow> Message option \<Rightarrow> fh_state \<Rightarrow> nat \<Rightarrow> (fh_state \<times> HistSource) res" where
  "fhGetHistory c loggedIn oldestText st count =
    (let (fh, d, ev) = st in
     case fhFromRam fh count of
       Some (fh', ev') \<Rightarrow> Inr ((fh', d, ev @ ev'), kHistSourceRam)
     | None \<Rightarrow>
        (let ms = fhFromDb c st count in
         if ms \<noteq> []
         then bindR (fhAddLocals c st ms) (\<lambda>(fh', d', ev').
                Inr ((fh', d', ev' @ fhCall fh' (FhLoaded None 0)), kHistSourceDb))
         else if \<not> fhHaveAllHistory fh \<and> loggedIn
         then Inr ((if fhFetchingFromServer fh then st
                    else (fh\<lparr>fhFetchingFromServer := True\<rparr>, d, ev @ [FhRequest (fhOldestId fh oldestText) count])), kHistSourceServer)
         else Inr ((fh, d, ev @ fhCall fh (FhLoaded None 0)),
                   if fhHaveAllHistory fh then kHistSourceNone else kHistSourceNotLoggedIn)))"

section \<open>Invariant\<close>

text \<open>
  Handles are unique in the buffer, the map knows exactly the handles of the buffer, and the iterator is
  inside the list or at its end.
\<close>

definition fh_ok :: "FilteredHistory \<Rightarrow> bool" where
  "fh_ok fh \<longleftrightarrow> distinct (map mId (fhBuffer fh)) \<and> (\<forall>i. fhIdToMsg fh i \<longleftrightarrow> i \<in> mId ` set (fhBuffer fh)) \<and>
     fhNextMsgToNotify fh \<le> length (fhBuffer fh)"

lemma fhRetype_id: "fhRetype m = Inr m' \<Longrightarrow> mId m' = mId m"
  by (auto simp: fhRetype_def split: if_splits)

lemma copyMessage_id [simp]: "mId (copyMessage m) = mId m"
  by (simp add: copyMessage_def)

lemma fhAdd_ok:
  assumes "fh_ok fh" "isNew \<longrightarrow> \<not> fhIdToMsg fh (mId m)" "fhAddMessage c (fh, d, ev) m isNew isLocal = Inr ((fh', d', ev'), m')"
  shows "fh_ok fh'"
proof -
  obtain m1 where m1: "fhRetype m = Inr m1" using assms(3) by (auto simp: fhAddMessage_def bindR_Inr_iff)
  note idm = fhRetype_id [OF m1]
  show ?thesis
  proof (cases isNew)
    case True
    with assms m1 idm show ?thesis
      by (auto simp: fhAddMessage_def fh_ok_def Let_def split: prod.splits)
  next
    case False
    have ok: "fh_ok fh''" if "fhBuffer fh'' = fhBuffer fh @ [x]" "fhIdToMsg fh'' = (fhIdToMsg fh)(mId x := True)"
      "fhNextMsgToNotify fh'' \<le> Suc (length (fhBuffer fh))" "\<not> fhIdToMsg fh (mId x)" for fh'' x
      using assms(1) that by (auto simp: fh_ok_def)
    have le: "fhNextMsgToNotify fh \<le> length (fhBuffer fh)" using assms(1) by (simp add: fh_ok_def)
    show ?thesis
    proof (cases "fhIdToMsg fh (mId m1)")
      case True
      with False assms m1 show ?thesis by (simp add: fhAddMessage_def)
    next
      case new: False
      show ?thesis
        by (rule ok [where x = "if isLocal then m1 else copyMessage m1"])
          (use False new assms(3) m1 le in \<open>auto simp: fhAddMessage_def Let_def split: prod.splits if_splits\<close>)
    qed
  qed
qed

lemma fhAddLocals_ok: "fh_ok (fst st) \<Longrightarrow> fhAddLocals c st ms = Inr st' \<Longrightarrow> fh_ok (fst st')"
proof (induction ms arbitrary: st)
  case (Cons m ms)
  obtain fh d ev where st: "st = (fh, d, ev)" by (cases st) auto
  from Cons.prems(2) obtain st1 m1 where s1: "fhAddMessage c st m False True = Inr (st1, m1)" "fhAddLocals c st1 ms = Inr st'"
    by (auto simp: bindR_Inr_iff)
  obtain fh1 d1 ev1 where st1: "st1 = (fh1, d1, ev1)" by (cases st1) auto
  have "fh_ok fh1" using fhAdd_ok [of fh False m c d ev True fh1 d1 ev1 m1] Cons.prems(1) s1 st st1 by simp
  then show ?case using Cons.IH [of st1] s1(2) st1 by simp
qed simp

lemma map_update_id: "f x = f (xs ! i) \<Longrightarrow> map f (xs[i := x]) = map f xs"
  by (cases "i < length xs") (simp_all add: map_update list_update_same_conv list_update_beyond)

lemma fhDelete_ok: "fh_ok fh \<Longrightarrow> fh_ok (fst (fhDeleteMessage c (fh, d, ev) m))"
proof -
  assume ok: "fh_ok fh"
  have ids: "map mId ((fhBuffer fh)[i := (fhBuffer fh ! i)\<lparr>mData := [], updated := u, msgType := t\<rparr>]) = map mId (fhBuffer fh)" for i u t
    by (rule map_update_id) simp
  have keep: "fh_ok (fh\<lparr>fhBuffer := xs\<rparr>)" if "map mId xs = map mId (fhBuffer fh)" for xs
  proof -
    have "mId ` set xs = mId ` set (fhBuffer fh)" by (metis list.set_map that)
    then show ?thesis using ok that map_eq_imp_length_eq [OF that] by (simp add: fh_ok_def)
  qed
  show ?thesis
    by (cases "fhIdToMsg fh (mId m)"; cases "findIndex (\<lambda>x. mId x = mId m) (fhBuffer fh)")
      (simp_all only: fhDeleteMessage_def Let_def prod.case if_True if_False option.case fst_conv ok keep [OF ids])
qed

section \<open>Truncation\<close>

lemma fhTruncLoop_ok: "fhTruncLoop e mp nx k ms = Inr (mp', nx') \<Longrightarrow>
    (\<forall>i. mp' i \<longleftrightarrow> mp i \<and> i \<notin> mId ` set ms) \<and> (nx' = nx \<or> nx' = e)"
proof (induction ms arbitrary: mp nx k)
  case (Cons m ms)
  from Cons.prems have "fhTruncLoop e (mp(mId m := False)) (if nx = k then e else nx) (Suc k) ms = Inr (mp', nx')"
    by (simp split: if_splits)
  from Cons.IH [OF this] show ?case by auto
qed simp

text \<open>The loop succeeds exactly when nothing is removed, or the iterator is on a kept message or on the last removed one.\<close>

lemma fhTruncLoop_iff:
  assumes "e = k + length ms"
  shows "isl (fhTruncLoop e mp nx k ms) \<longleftrightarrow> ms \<noteq> [] \<and> (nx \<ge> k \<and> nx \<le> e \<and> Suc nx \<noteq> e)"
  using assms
proof (induction ms arbitrary: mp nx k)
  case (Cons m ms)
  show ?case
  proof (cases "nx = k")
    case True
    with Cons.prems Cons.IH [of "Suc k" _ "e"] show ?thesis by (cases ms) auto
  next
    case False
    with Cons.prems Cons.IH [of "Suc k" _ "nx"] show ?thesis by (cases ms) auto
  qed
qed simp

lemma fhTruncLoop_last: "nx \<ge> k \<Longrightarrow> fhTruncLoop e mp nx k ms = Inr (mp', nx') \<Longrightarrow> ms \<noteq> [] \<Longrightarrow> e = k + length ms \<Longrightarrow> nx \<le> e \<Longrightarrow> nx' = e"
proof (induction ms arbitrary: mp nx k)
  case (Cons m ms)
  from Cons.prems have l: "fhTruncLoop e (mp(mId m := False)) (if nx = k then e else nx) (Suc k) ms = Inr (mp', nx')"
    by (simp split: if_splits)
  show ?case
  proof (cases "ms = []")
    case True
    with Cons.prems show ?thesis by (auto split: if_splits)
  next
    case False
    then show ?thesis using Cons.IH [OF _ l] Cons.prems by (cases "nx = k") simp_all
  qed
qed simp

lemma findIndex_split: "findIndex p xs = Some k \<Longrightarrow> k < length xs \<and> p (xs ! k)"
  by (induction xs arbitrary: k) (auto split: if_splits)

lemma findIndex_handle: "distinct (map mId xs) \<Longrightarrow> k < length xs \<Longrightarrow> findIndex (\<lambda>x. mId x = mId (xs ! k)) xs = Some k"
proof (induction xs arbitrary: k)
  case (Cons x xs)
  then show ?case by (cases k) (auto simp: image_iff)
qed simp

lemma take_drop_ids:
  assumes "distinct (map f xs)" shows "i \<in> f ` set (take n xs) \<longleftrightarrow> i \<in> f ` set xs \<and> i \<notin> f ` set (drop n xs)"
proof -
  have "map f xs = map f (take n xs) @ map f (drop n xs)" by (simp flip: map_append)
  with assms have "f ` set (take n xs) \<inter> f ` set (drop n xs) = {}" by (metis distinct_append list.set_map)
  moreover have "f ` set xs = f ` set (take n xs) \<union> f ` set (drop n xs)"
    by (metis append_take_drop_id image_Un set_append)
  ultimately show ?thesis by auto
qed

lemma fhTruncateBuffer_ok:
  assumes ok: "fh_ok fh" and r: "fhTruncateBuffer fh i = Inr fh'"
  shows "fh_ok fh'"
proof (cases "fhIdToMsg fh i")
  case True
  then obtain k where k: "findIndex (\<lambda>x. mId x = i) (fhBuffer fh) = Some k"
    using ok by (cases "findIndex (\<lambda>x. mId x = i) (fhBuffer fh)") (auto simp: fh_ok_def findIndex_None)
  let ?n = "length (fhBuffer fh)"
  obtain mp nx where l: "fhTruncLoop ?n (fhIdToMsg fh) (fhNextMsgToNotify fh) (Suc k) (drop (Suc k) (fhBuffer fh)) = Inr (mp, nx)"
    and fh': "fh' = fh\<lparr>fhBuffer := take (Suc k) (fhBuffer fh), fhIdToMsg := mp, fhNextMsgToNotify := (if nx = ?n then Suc k else nx)\<rparr>"
    using r True k by (auto simp: fhTruncateBuffer_def bindR_Inr_iff)
  have kl: "k < ?n" using findIndex_split [OF k] by simp
  have nx: "nx = ?n \<or> nx \<le> k \<or> drop (Suc k) (fhBuffer fh) = []"
  proof (cases "Suc k \<le> fhNextMsgToNotify fh")
    case True
    have "fhNextMsgToNotify fh \<le> ?n" using ok by (simp add: fh_ok_def)
    moreover have "?n = Suc k + length (drop (Suc k) (fhBuffer fh))" using kl by simp
    ultimately show ?thesis using fhTruncLoop_last [OF True l] by blast
  next
    case False
    then show ?thesis using fhTruncLoop_ok [OF l] by linarith
  qed
  have d: "distinct (map mId (fhBuffer fh))" and len: "fhNextMsgToNotify fh \<le> ?n" using ok by (auto simp: fh_ok_def)
  have "distinct (map mId (take (Suc k) (fhBuffer fh)))" using d by (metis distinct_take take_map)
  moreover have "(if nx = ?n then Suc k else nx) \<le> Suc k" using nx kl fhTruncLoop_ok [OF l] len by auto
  moreover have "mp j \<longleftrightarrow> j \<in> mId ` set (take (Suc k) (fhBuffer fh))" for j
  proof -
    have "mp j \<longleftrightarrow> fhIdToMsg fh j \<and> j \<notin> mId ` set (drop (Suc k) (fhBuffer fh))" using fhTruncLoop_ok [OF l] by blast
    also have "fhIdToMsg fh j \<longleftrightarrow> j \<in> mId ` set (fhBuffer fh)" using ok by (simp only: fh_ok_def)
    finally show ?thesis by (simp only: take_drop_ids [OF d])
  qed
  moreover have "length (take (Suc k) (fhBuffer fh)) = Suc k" using kl by simp
  ultimately show ?thesis unfolding fh' fh_ok_def by simp
qed (use assms in \<open>simp add: fhTruncateBuffer_def\<close>)

lemma fhTruncateHistory_ok:
  assumes "fh_ok fh" "fhTruncateHistory c (fh, d, ev) i = Inr st'"
  shows "fh_ok (fst st')"
proof (cases "Id_isValid i")
  case True
  then obtain fh1 where 1: "fhTruncateBuffer fh i = Inr fh1"
    using assms(2) by (auto simp: fhTruncateHistory_def bindR_Inr_iff)
  have "fh_ok fh1" using fhTruncateBuffer_ok [OF assms(1) 1] .
  then show ?thesis using assms(2) True 1
    by (auto simp: fhTruncateHistory_def Let_def fh_ok_def split: prod.splits)
next
  case False
  then show ?thesis using assms(2)
    by (auto simp: fhTruncateHistory_def fhClear_def fhInit_def Let_def fh_ok_def)
qed

lemma fhFromRam_ok: "fh_ok fh \<Longrightarrow> fhFromRam fh n = Some (fh', ev) \<Longrightarrow> fh_ok fh'"
  by (auto simp: fhFromRam_def Let_def fh_ok_def split: if_splits)

lemma fhGetHistory_ok:
  assumes "fh_ok fh" "fhGetHistory c li ot (fh, d, ev) n = Inr (st', src)"
  shows "fh_ok (fst st')"
proof (cases "fhFromRam fh n")
  case (Some p)
  then show ?thesis using assms fhFromRam_ok [of fh n] by (cases p) (auto simp: fhGetHistory_def)
next
  case None
  show ?thesis
  proof (cases "fhFromDb c (fh, d, ev) n = []")
    case True
    with None assms show ?thesis by (auto simp: fhGetHistory_def fh_ok_def split: if_splits)
  next
    case False
    with None assms(2) obtain st1 where 1: "fhAddLocals c (fh, d, ev) (fhFromDb c (fh, d, ev) n) = Inr st1" "fst st' = fst st1"
      by (auto simp: fhGetHistory_def bindR_Inr_iff)
    show ?thesis using fhAddLocals_ok [OF _ 1(1)] assms(1) 1(2) by simp
  qed
qed

section \<open>Every operation keeps the invariant\<close>

datatype FhOp = OpAdd Message bool bool | OpDelete Message | OpTruncate Id | OpClear | OpGet bool "Message option" nat
  | OpSetAll bool | OpSetHandler | OpUnsetHandler | OpFinish

fun fhOp :: "Id \<Rightarrow> FhOp \<Rightarrow> fh_state \<Rightarrow> fh_state res" where
  "fhOp c (OpAdd m n l) st = bindR (fhAddMessage c st m n l) (\<lambda>(st', _). Inr st')"
| "fhOp c (OpDelete m) st = Inr (fhDeleteMessage c st m)"
| "fhOp c (OpTruncate i) st = fhTruncateHistory c st i"
| "fhOp c OpClear st = Inr (fhClear c st)"
| "fhOp c (OpGet li ot n) st = bindR (fhGetHistory c li ot st n) (\<lambda>(st', _). Inr st')"
| "fhOp c (OpSetAll b) (fh, d, ev) = Inr (fhSetHaveAllHistory fh b, d, ev)"
| "fhOp c OpSetHandler (fh, d, ev) = bindR (fhSetHandler fh) (\<lambda>fh'. Inr (fh', d, ev))"
| "fhOp c OpUnsetHandler (fh, d, ev) = Inr (fhUnsetHandler fh, d, ev)"
| "fhOp c OpFinish st = fhFinishFetchingFromServer st"

text \<open>The chat adds an attachment as new only when it was not in the history; the other users of the cache may change it.\<close>

definition fhPre :: "FhOp \<Rightarrow> FilteredHistory \<Rightarrow> bool" where
  "fhPre op fh = (case op of OpAdd m n l \<Rightarrow> n \<longrightarrow> \<not> fhIdToMsg fh (mId m) | _ \<Rightarrow> True)"

inductive fhReach :: "Id \<Rightarrow> fh_state \<Rightarrow> bool" for c where
  fhr_new: "fhReach c (newFilteredHistory d c, d, [])"
| fhr_op: "fhReach c st \<Longrightarrow> fhPre op (fst st) \<Longrightarrow> fhOp c op st = Inr st' \<Longrightarrow> fhReach c st'"
| fhr_db: "fhReach c (fh, d, ev) \<Longrightarrow> fhReach c (fh, d', ev')"

lemma fhOp_ok:
  assumes "fh_ok fh" "fhPre op fh" "fhOp c op (fh, d, ev) = Inr st'"
  shows "fh_ok (fst st')"
proof (cases op)
  case (OpAdd m n l)
  then obtain st1 m1 where "fhAddMessage c (fh, d, ev) m n l = Inr (st1, m1)" "st' = st1"
    using assms(3) by (auto simp: bindR_Inr_iff)
  then show ?thesis using fhAdd_ok [of fh n m c d ev l] assms OpAdd by (cases st1) (auto simp: fhPre_def)
next
  case (OpGet li ot n)
  then show ?thesis using assms fhGetHistory_ok [of fh c li ot d ev n] by (auto simp: bindR_Inr_iff)
next
  case (OpTruncate i)
  then show ?thesis using assms fhTruncateHistory_ok by simp
next
  case (OpDelete m)
  then show ?thesis using assms fhDelete_ok by auto
next
  case OpClear
  then show ?thesis using assms by (auto simp: fhClear_def fhInit_def fh_ok_def)
qed (use assms in \<open>auto simp: fh_ok_def fhSetHaveAllHistory_def fhSetHandler_def fhUnsetHandler_def fhFinishFetchingFromServer_def
      bindR_Inr_iff split: if_splits\<close>)

lemma fhReach_ok: "fhReach c st \<Longrightarrow> fh_ok (fst st)"
proof (induction rule: fhReach.induct)
  case (fhr_new d)
  show ?case by (auto simp: newFilteredHistory_def fhInit_def fh_ok_def Let_def split: prod.splits)
next
  case (fhr_op st op st')
  then show ?case using fhOp_ok by (metis prod.collapse)
qed simp

section \<open>Paging through memory\<close>

definition fhLoadedMsgs :: "FhEvent list \<Rightarrow> (Message \<times> Idx) list" where
  "fhLoadedMsgs ev = concat (map (\<lambda>e. case e of FhLoaded (Some m) i \<Rightarrow> [(m, i)] | _ \<Rightarrow> []) ev)"

text \<open>Requests of the app, one page after another, as long as memory answers them.\<close>

fun fhPages :: "FilteredHistory \<Rightarrow> nat list \<Rightarrow> FilteredHistory \<times> FhEvent list" where
  "fhPages fh [] = (fh, [])"
| "fhPages fh (n # ns) = (case fhFromRam fh n of
     None \<Rightarrow> (fh, [])
   | Some (fh', ev) \<Rightarrow> let (fh'', ev') = fhPages fh' ns in (fh'', ev @ ev'))"

lemma fhLoadedMsgs_append [simp]: "fhLoadedMsgs (a @ b) = fhLoadedMsgs a @ fhLoadedMsgs b"
  by (simp add: fhLoadedMsgs_def)

lemma fhLoadedMsgs_page:
  "fhListener fh \<Longrightarrow> fhLoadedMsgs (concat (map (\<lambda>i. fhCall fh (FhLoaded (Some (f i)) (g i))) is)) = map (\<lambda>i. (f i, g i)) is"
  by (induction "is") (simp_all add: fhLoadedMsgs_def fhCall_def)

definition fhEntry :: "FilteredHistory \<Rightarrow> nat \<Rightarrow> Message \<times> Idx" where
  "fhEntry fh i = (fhBuffer fh ! i, fhNewestIdx fh - int i)"

lemma fhFromRam_page:
  assumes "fhListener fh" "fhFromRam fh n = Some (fh', ev)"
  shows "\<exists>k>0. k = min n (length (fhBuffer fh) - fhNextMsgToNotify fh) \<and> fh' = fh\<lparr>fhNextMsgToNotify := fhNextMsgToNotify fh + k\<rparr> \<and>
    fhLoadedMsgs ev = map (fhEntry fh) [fhNextMsgToNotify fh..<fhNextMsgToNotify fh + k]"
  using assms fhLoadedMsgs_page [OF assms(1), of "\<lambda>i. fhBuffer fh ! i"]
  by (auto simp: fhFromRam_def Let_def fhEntry_def [abs_def] fhCall_def fhLoadedMsgs_def split: if_splits)

lemma upt_glue: "i \<le> j \<Longrightarrow> j \<le> k \<Longrightarrow> [i..<j] @ [j..<k] = [i..<k]"
  by (metis le_Suc_ex upt_add_eq_append)

lemma fhPages_from:
  assumes "fhListener fh" "fhNextMsgToNotify fh \<le> length (fhBuffer fh)" "\<forall>n \<in> set ns. 0 < n"
  shows "fhLoadedMsgs (snd (fhPages fh ns)) =
    map (fhEntry fh) [fhNextMsgToNotify fh..<min (fhNextMsgToNotify fh + sum_list ns) (length (fhBuffer fh))]"
  using assms
proof (induction ns arbitrary: fh)
  case Nil
  then show ?case by (simp add: fhLoadedMsgs_def)
next
  case (Cons n ns)
  let ?p = "fhNextMsgToNotify fh" and ?l = "length (fhBuffer fh)"
  show ?case
  proof (cases "fhFromRam fh n")
    case None
    then have "?p = ?l" using Cons.prems by (auto simp: fhFromRam_def Let_def split: if_splits)
    with None show ?thesis by (simp add: fhLoadedMsgs_def)
  next
    case (Some q)
    then obtain fh' ev where q: "fhFromRam fh n = Some (fh', ev)" by (cases q) auto
    from fhFromRam_page [OF Cons.prems(1) q] obtain k where k: "k > 0" "k = min n (?l - ?p)"
      "fh' = fh\<lparr>fhNextMsgToNotify := ?p + k\<rparr>" "fhLoadedMsgs ev = map (fhEntry fh) [?p..<?p + k]" by blast
    have ent: "fhEntry fh' = fhEntry fh" by (rule ext) (simp add: k(3) fhEntry_def)
    have le: "?p + k \<le> ?l" using k(1,2) Cons.prems(2) by linarith
    have IH: "fhLoadedMsgs (snd (fhPages fh' ns)) = map (fhEntry fh) [?p + k..<min (?p + k + sum_list ns) ?l]"
      using Cons.IH [of fh'] Cons.prems le ent by (simp add: k(3))
    have e: "min (?p + k + sum_list ns) ?l = min (?p + sum_list (n # ns)) ?l" using k(1,2) le by (auto simp: min_def)
    have "[?p..<?p + k] @ [?p + k..<min (?p + sum_list (n # ns)) ?l] = [?p..<min (?p + sum_list (n # ns)) ?l]"
      by (rule upt_glue) (use le k(2) in \<open>auto simp: min_def\<close>)
    then show ?thesis using IH k(4) q by (simp only: fhPages.simps option.case prod.case Let_def split_beta fst_conv snd_conv
        fhLoadedMsgs_append e flip: map_append)
  qed
qed

section \<open>Properties\<close>

text \<open>
  Paging through the attachments in memory.  After the app registers its handler, its requests of
  positive sizes deliver exactly the attachments of the buffer, newest first, each once, with
  consecutive descending indexes, as many as were asked for.
\<close>
theorem attachments_paging:
  assumes "fhReach c (fh, d, ev)" "\<not> fhListener fh" "\<forall>n \<in> set ns. 0 < n" "fhSetHandler fh = Inr fh0"
  shows "fhLoadedMsgs (snd (fhPages fh0 ns)) =
    map (\<lambda>i. (fhBuffer fh ! i, fhNewestIdx fh - int i)) [0..<min (sum_list ns) (length (fhBuffer fh))]"
proof -
  have fh0: "fh0 = fh\<lparr>fhNextMsgToNotify := 0, fhListener := True\<rparr>" using assms(2,4) by (simp add: fhSetHandler_def)
  have "fhEntry fh0 = (\<lambda>i. (fhBuffer fh ! i, fhNewestIdx fh - int i))" by (rule ext) (simp add: fh0 fhEntry_def)
  then show ?thesis using fhPages_from [of fh0 ns] assms(3) by (simp add: fh0)
qed

definition fhSample :: "nat \<Rightarrow> Message" where
  "fhSample n = newMessage (of_nat n) 1 5 0 [0, 0x10, 65] False 0 kMsgNormal 0 []"

definition fhSampleRun :: "fh_state res" where
  "fhSampleRun = bindR (fhOp 9 (OpAdd (fhSample 7) True False) (newFilteredHistory (emptyDb []) 9, emptyDb [], []))
     (fhOp 9 (OpAdd (fhSample 8) True False))"

lemma fhSampleRun_ok:
  "case fhOp 9 (OpAdd (fhSample 7) True False) (newFilteredHistory (emptyDb []) 9, emptyDb [], []) of
     Inl _ \<Rightarrow> False | Inr (fh, _, _) \<Rightarrow> \<not> fhIdToMsg fh 8"
  "case fhSampleRun of Inl _ \<Rightarrow> False | Inr (fh, _, _) \<Rightarrow> map mId (fhBuffer fh) = [8, 7] \<and> fhNewestIdx fh = 1 \<and>
     \<not> fhListener fh \<and> fhNextMsgToNotify fh = 2"
  by code_simp+

lemma fhSampleRun_eq:
  obtains fh d ev where "fhReach 9 (fh, d, ev)" "map mId (fhBuffer fh) = [8, 7]" "fhNewestIdx fh = 1"
    "\<not> fhListener fh" "fhNextMsgToNotify fh = 2"
proof -
  obtain st where 1: "fhOp 9 (OpAdd (fhSample 7) True False) (newFilteredHistory (emptyDb []) 9, emptyDb [], []) = Inr st"
    "\<not> fhIdToMsg (fst st) 8" using fhSampleRun_ok(1) by (auto split: sum.splits)
  obtain fh d ev where 2: "fhOp 9 (OpAdd (fhSample 8) True False) st = Inr (fh, d, ev)" "map mId (fhBuffer fh) = [8, 7]"
    "fhNewestIdx fh = 1" "\<not> fhListener fh" "fhNextMsgToNotify fh = 2"
    using fhSampleRun_ok(2) 1(1) by (auto simp: fhSampleRun_def bindR_def split: sum.splits)
  have "fhReach 9 st"
    by (rule fhr_op [OF fhr_new _ 1(1)]) (simp add: fhPre_def newFilteredHistory_def fhInit_def Let_def split: prod.splits)
  then have "fhReach 9 (fh, d, ev)"
    by (rule fhr_op [OF _ _ 2(1)]) (use 1(2) in \<open>simp add: fhPre_def fhSample_def newMessage_def\<close>)
  then show ?thesis using 2(2-5) by (rule that)
qed

text \<open>
  C29: The buffer of attachments.  Whatever the history, the app and the cache do, the handles in
  the buffer are distinct, the map finds exactly the attachments in the buffer, and the position of the
  next attachment to deliver is inside the buffer or at its end.
\<close>
theorem attachments_invariant:
  assumes "fhReach c (fh, d, ev)"
  shows "distinct (map mId (fhBuffer fh)) \<and> (\<forall>i. fhGetMessage fh i = List.find (\<lambda>m. mId m = i) (fhBuffer fh)) \<and>
    fhNextMsgToNotify fh \<le> length (fhBuffer fh)"
proof -
  have ok: "fh_ok fh" using fhReach_ok [OF assms] by simp
  have "List.find (\<lambda>m. mId m = i) (fhBuffer fh) = None" if "\<not> fhIdToMsg fh i" for i
    using ok that by (auto simp: fh_ok_def find_None_iff)
  then have "\<forall>i. fhGetMessage fh i = List.find (\<lambda>m. mId m = i) (fhBuffer fh)" by (simp add: fhGetMessage_def)
  with ok show ?thesis by (simp add: fh_ok_def)
qed

theorem attachments_invariant_witness:
  "\<exists>fh :: FilteredHistory. distinct (map mId (fhBuffer fh)) \<and> map mId (fhBuffer fh) = [8, 7]"
proof -
  obtain fh d ev where r: "fhReach 9 (fh, d, ev)" "map mId (fhBuffer fh) = [8, 7]" "fhNewestIdx fh = 1"
    "\<not> fhListener fh" "fhNextMsgToNotify fh = 2" by (rule fhSampleRun_eq)
  then show ?thesis using attachments_invariant [OF r(1)] by (intro exI [of _ fh]) simp
qed

theorem attachments_paging_witness:
  "\<exists>fh :: FilteredHistory. map mId (fhBuffer fh) = [8, 7] \<and> map (mId \<circ> fst) (fhLoadedMsgs (snd (fhPages fh [1, 1]))) = [8, 7]"
proof -
  obtain fh d ev where r: "fhReach 9 (fh, d, ev)" "map mId (fhBuffer fh) = [8, 7]" "fhNewestIdx fh = 1"
    "\<not> fhListener fh" "fhNextMsgToNotify fh = 2" by (rule fhSampleRun_eq)
  obtain fh0 where h: "fhSetHandler fh = Inr fh0" "fhBuffer fh0 = fhBuffer fh" using r(4) by (simp add: fhSetHandler_def)
  have l: "length (fhBuffer fh) = 2" using arg_cong [OF r(2), of length] by simp
  have "map (mId \<circ> fst) (fhLoadedMsgs (snd (fhPages fh0 [1, 1]))) = map (\<lambda>i. mId (fhBuffer fh ! i)) [0..<2]"
    using attachments_paging [OF r(1,4) _ h(1), of "[1, 1]"] l by (simp add: comp_def upt_rec del: fhPages.simps)
  also have "\<dots> = map ((!) (map mId (fhBuffer fh))) [0..<2]" using l by (simp add: upt_rec)
  finally show ?thesis using r(2) h(2) by (intro exI [of _ fh0]) (simp add: upt_rec)
qed

text \<open>
  Truncation of the attachments.  Truncating after an attachment keeps it and the newer
  ones, forgets the older ones and leaves the others findable, except when the loop dereferences the
  iterator at the end of the list: when one attachment is removed and all had been delivered, or when
  several are removed and the iterator is not on a kept one nor on the last one.
\<close>
theorem attachments_truncate:
  assumes r: "fhReach c (fh, d, ev)" and k: "k < length (fhBuffer fh)"
    and v: "Id_isValid (mId (fhBuffer fh ! k))"
  shows "(case fhTruncateHistory c (fh, d, ev) (mId (fhBuffer fh ! k)) of
      Inl e \<Rightarrow> Suc k < length (fhBuffer fh) \<and> k < fhNextMsgToNotify fh \<and> Suc (fhNextMsgToNotify fh) \<noteq> length (fhBuffer fh)
    | Inr (fh', d', ev') \<Rightarrow> \<not> (Suc k < length (fhBuffer fh) \<and> k < fhNextMsgToNotify fh \<and> Suc (fhNextMsgToNotify fh) \<noteq> length (fhBuffer fh)) \<and>
        fhBuffer fh' = take (Suc k) (fhBuffer fh) \<and> fhHaveAllHistory fh' \<and>
        (\<forall>j \<in> mId ` set (drop (Suc k) (fhBuffer fh)). fhGetMessage fh' j = None))"
proof -
  let ?i = "mId (fhBuffer fh ! k)" and ?n = "length (fhBuffer fh)"
  let ?l = "fhTruncLoop ?n (fhIdToMsg fh) (fhNextMsgToNotify fh) (Suc k) (drop (Suc k) (fhBuffer fh))"
  have ok: "fh_ok fh" using fhReach_ok [OF r] by simp
  then have f: "findIndex (\<lambda>x. mId x = ?i) (fhBuffer fh) = Some k" "fhIdToMsg fh ?i" "fhNextMsgToNotify fh \<le> ?n"
    using findIndex_handle k by (auto simp: fh_ok_def)
  have b: "fhTruncateBuffer fh ?i = bindR ?l (\<lambda>(mp, nx). Inr (fh\<lparr>fhBuffer := take (Suc k) (fhBuffer fh), fhIdToMsg := mp,
             fhNextMsgToNotify := (if nx = ?n then Suc k else nx)\<rparr>))"
    using f by (simp add: fhTruncateBuffer_def)
  have iff: "isl ?l \<longleftrightarrow> Suc k < ?n \<and> k < fhNextMsgToNotify fh \<and> Suc (fhNextMsgToNotify fh) \<noteq> ?n"
    using fhTruncLoop_iff [of ?n "Suc k" "drop (Suc k) (fhBuffer fh)"] k f(3) by auto
  show ?thesis
  proof (cases ?l)
    case (Inl e)
    then show ?thesis using iff v b by (simp add: fhTruncateHistory_def)
  next
    case (Inr p)
    obtain mp nx where p: "p = (mp, nx)" by (cases p)
    have "\<forall>j \<in> mId ` set (drop (Suc k) (fhBuffer fh)). \<not> mp j" using fhTruncLoop_ok [of ?n] Inr p by blast
    then show ?thesis using iff v b Inr p by (simp add: fhTruncateHistory_def Let_def fhGetMessage_def split: prod.splits)
  qed
qed

theorem attachments_truncate_witness:
  "\<exists>fh d ev. fhReach 9 (fh, d, ev) \<and> map mId (fhBuffer fh) = [8, 7] \<and> isl (fhTruncateHistory 9 (fh, d, ev) 8)"
proof -
  obtain fh d ev where r: "fhReach 9 (fh, d, ev)" "map mId (fhBuffer fh) = [8, 7]" "fhNewestIdx fh = 1"
    "\<not> fhListener fh" "fhNextMsgToNotify fh = 2" by (rule fhSampleRun_eq)
  have l: "length (fhBuffer fh) = 2" "mId (fhBuffer fh ! 0) = 8" using r(2) by (auto simp: map_eq_Cons_conv)
  have "isl (fhTruncateHistory 9 (fh, d, ev) 8)"
    using attachments_truncate [OF r(1), of 0] l r(5) by (auto simp: Id_isValid_def Id_inval_def split: sum.splits prod.splits)
  with r(1,2) show ?thesis by (intro exI conjI)
qed

end
