(* ===== verification/ChatProg.thy ===== *)
theory ChatProg
  imports Prelude
begin

text \<open>
  Handlers that change a state and may throw half way: a step gives the state it reached and the
  exception that ended it, if any, as C++ leaves them.  Programs are lists of steps; \<open>wp\<close> reads off
  what they do, and \<open>keeps\<close> is the preservation of an invariant, whether a step returns or throws.
\<close>

type_synonym 's step = "'s \<Rightarrow> 's \<times> exn option"

primrec doS :: "'s step list \<Rightarrow> 's step" where
  "doS [] s = (s, None)"
| "doS (x # xs) s = (case x s of (s', None) \<Rightarrow> doS xs s' | (s', Some e) \<Rightarrow> (s', Some e))"

definition modS :: "('s \<Rightarrow> 's) \<Rightarrow> 's step" where
  "modS f s = (f s, None)"

definition throwS :: "exn \<Rightarrow> 's step" where
  "throwS e s = (s, Some e)"

text \<open>Reading a value, and reading one whose computation may throw.\<close>

definition readS :: "('s \<Rightarrow> 'a) \<Rightarrow> ('a \<Rightarrow> 's step) \<Rightarrow> 's step" where
  "readS f k s = k (f s) s"

definition getS :: "('s \<Rightarrow> 'a res) \<Rightarrow> ('a \<Rightarrow> 's step) \<Rightarrow> 's step" where
  "getS f k s = (case f s of Inl e \<Rightarrow> (s, Some e) | Inr x \<Rightarrow> k x s)"

definition ifS :: "('s \<Rightarrow> bool) \<Rightarrow> 's step list \<Rightarrow> 's step list \<Rightarrow> 's step" where
  "ifS b xs ys s = (if b s then doS xs s else doS ys s)"

abbreviation whenS :: "('s \<Rightarrow> bool) \<Rightarrow> 's step list \<Rightarrow> 's step" where
  "whenS b xs \<equiv> ifS b xs []"

definition forS :: "'a list \<Rightarrow> ('a \<Rightarrow> 's step) \<Rightarrow> 's step" where
  "forS xs body = doS (map body xs)"

text \<open>A fallible update.\<close>

definition updS :: "('s \<Rightarrow> 's res) \<Rightarrow> 's step" where
  "updS f s = (case f s of Inl e \<Rightarrow> (s, Some e) | Inr s' \<Rightarrow> (s', None))"

text \<open>
  \<open>try ... catch (std::exception&)\<close>: the exceptions of the C++ library are caught, undefined behaviour
  and failed assertions are not.
\<close>

definition catchable :: "exn \<Rightarrow> bool" where
  "catchable e = (case e of RuntimeError _ \<Rightarrow> True | RangeError \<Rightarrow> True | _ \<Rightarrow> False)"

definition tryS :: "'s step \<Rightarrow> 's step" where
  "tryS st s = (case st s of (s', Some e) \<Rightarrow> (s', if catchable e then None else Some e) | r \<Rightarrow> r)"

section \<open>What a program does\<close>

definition wp :: "'s step \<Rightarrow> ('s \<Rightarrow> bool) \<Rightarrow> ('s \<Rightarrow> bool) \<Rightarrow> 's \<Rightarrow> bool" where
  "wp st Q R s = (case st s of (s', None) \<Rightarrow> Q s' | (s', Some e) \<Rightarrow> R s')"

named_theorems wp_simps \<open>the effect of each construct\<close>

lemma wp_doS [wp_simps]:
  "wp (doS []) Q R s = Q s"
  "wp (doS (x # xs)) Q R s = wp x (wp (doS xs) Q R) R s"
  by (auto simp: wp_def split: prod.splits option.splits)

lemma wp_basic [wp_simps]:
  "wp (modS f) Q R s = Q (f s)"
  "wp (throwS e) Q R s = R s"
  "wp (readS v kv) Q R s = wp (kv (v s)) Q R s"
  "wp (getS g kg) Q R s = (case g s of Inl e \<Rightarrow> R s | Inr x \<Rightarrow> wp (kg x) Q R s)"
  "wp (updS h) Q R s = (case h s of Inl e \<Rightarrow> R s | Inr s' \<Rightarrow> Q s')"
  by (simp_all add: wp_def modS_def throwS_def readS_def getS_def updS_def split: sum.split)

lemma wp_ifS [wp_simps]: "wp (ifS b xs ys) Q R s = (if b s then wp (doS xs) Q R s else wp (doS ys) Q R s)"
  by (simp add: wp_def ifS_def)

lemma doS_append: "doS (xs @ ys) s = (case doS xs s of (s', None) \<Rightarrow> doS ys s' | (s', Some e) \<Rightarrow> (s', Some e))"
  by (induction xs arbitrary: s) (auto split: prod.split option.split)

lemma doS_simps [simp]: "doS [x] = x"
  by (rule ext) (simp split: prod.split option.split)

lemma forS_simps [simp]: "forS [] f = doS []" "forS (x # xs) f = doS [f x, forS xs f]"
  by (rule ext, simp add: forS_def split: prod.split option.split)+

lemma wp_mono: "wp st Q R s \<Longrightarrow> (\<And>s. Q s \<Longrightarrow> Q' s) \<Longrightarrow> (\<And>s. R s \<Longrightarrow> R' s) \<Longrightarrow> wp st Q' R' s"
  by (auto simp: wp_def split: prod.splits option.splits)

text \<open>A step that cannot throw is replaced by what it guarantees; a loop by what every round keeps.\<close>

lemma wp_step: "wp st P (\<lambda>_. False) s \<Longrightarrow> (\<And>t. P t \<Longrightarrow> wp (doS xs) Q R t) \<Longrightarrow> wp (doS (st # xs)) Q R s"
  unfolding wp_doS by (erule wp_mono) simp_all

lemma wp_forS:
  assumes "\<And>x t. x \<in> set xs \<Longrightarrow> V t = v \<Longrightarrow> wp (f x) (\<lambda>t. V t = v) (\<lambda>_. False) t" "V s = v"
  shows "wp (forS xs f) (\<lambda>t. V t = v) (\<lambda>_. False) s"
  using assms
proof (induction xs arbitrary: s)
  case Nil
  then show ?case by (simp add: wp_def)
next
  case (Cons x xs)
  show ?case
    unfolding forS_simps(2)
    by (rule wp_step [OF Cons.prems(1)]) (use Cons in \<open>auto intro!: Cons.IH\<close>)
qed

section \<open>Invariants\<close>

definition keeps :: "('s \<Rightarrow> bool) \<Rightarrow> 's step \<Rightarrow> bool" where
  "keeps P st \<longleftrightarrow> (\<forall>s. P s \<longrightarrow> wp st P P s)"

named_theorems keeps_intros \<open>preservation of an invariant, construct by construct\<close>

lemma wp_same: "wp st P P s \<longleftrightarrow> P (fst (st s))"
  by (cases "st s"; cases "snd (st s)") (simp_all add: wp_def)

lemma keeps_wp: "keeps P st \<longleftrightarrow> (\<forall>s. P s \<longrightarrow> P (fst (st s)))"
  by (simp add: keeps_def wp_same)

lemma keepsD: "keeps P st \<Longrightarrow> P s \<Longrightarrow> P (fst (st s))"
  by (simp add: keeps_wp)

lemma keepsI: "(\<And>s. P s \<Longrightarrow> P (fst (st s))) \<Longrightarrow> keeps P st"
  by (simp add: keeps_wp)

lemma keeps_doS_Nil [keeps_intros]: "keeps P (doS [])"
  by (simp add: keeps_def wp_simps)

lemma keeps_doS_Cons [keeps_intros]: "keeps P x \<Longrightarrow> keeps P (doS xs) \<Longrightarrow> keeps P (doS (x # xs))"
  by (fastforce simp: keeps_def wp_simps elim: wp_mono)

lemma keeps_modS [keeps_intros]: "(\<And>s. P s \<Longrightarrow> P (f s)) \<Longrightarrow> keeps P (modS f)"
  by (simp add: keeps_def wp_simps)

lemma keeps_throwS [keeps_intros]: "keeps P (throwS e)"
  by (simp add: keeps_def wp_simps)

lemma keeps_readS [keeps_intros]: "(\<And>x. keeps P (k x)) \<Longrightarrow> keeps P (readS f k)"
  by (simp add: keeps_def wp_simps)

lemma keeps_getS [keeps_intros]: "(\<And>x. keeps P (k x)) \<Longrightarrow> keeps P (getS f k)"
  by (simp add: keeps_def wp_simps split: sum.split)

lemma keeps_ifS [keeps_intros]: "keeps P (doS xs) \<Longrightarrow> keeps P (doS ys) \<Longrightarrow> keeps P (ifS b xs ys)"
  by (simp add: keeps_def wp_simps)

lemma keeps_forS [keeps_intros]: "(\<And>x. keeps P (f x)) \<Longrightarrow> keeps P (forS xs f)"
  by (induction xs) (simp_all add: keeps_doS_Nil keeps_doS_Cons)

lemma keeps_updS [keeps_intros]: "(\<And>s s'. P s \<Longrightarrow> f s = Inr s' \<Longrightarrow> P s') \<Longrightarrow> keeps P (updS f)"
  by (simp add: keeps_def wp_simps split: sum.split)

lemma keeps_tryS [keeps_intros]: "keeps P st \<Longrightarrow> keeps P (tryS st)"
  by (fastforce simp: keeps_wp tryS_def split: prod.splits option.splits)

lemma keeps_if [keeps_intros]: "keeps P a \<Longrightarrow> keeps P b \<Longrightarrow> keeps P (if c then a else b)"
  by simp

lemma keeps_option [keeps_intros]: "keeps P a \<Longrightarrow> (\<And>x. keeps P (b x)) \<Longrightarrow> keeps P (case x of None \<Rightarrow> a | Some x \<Rightarrow> b x)"
  by (simp split: option.split)

lemma keeps_cases [keeps_intros]:
  "(\<And>a b. keeps P (f a b)) \<Longrightarrow> keeps P (case p of (a, b) \<Rightarrow> f a b)"
  "keeps P g \<Longrightarrow> (\<And>x xs. keeps P (h x xs)) \<Longrightarrow> keeps P (case l of [] \<Rightarrow> g | x # xs \<Rightarrow> h x xs)"
  "(\<And>x. keeps P (k x)) \<Longrightarrow> keeps P (Let y k)"
  by (simp_all split: prod.split list.split)

text \<open>When the value read matters, or the condition of a branch.\<close>

lemma keeps_readS_dep: "(\<And>s. P s \<Longrightarrow> P (fst (k (f s) s))) \<Longrightarrow> keeps P (readS f k)"
  by (simp add: keeps_wp readS_def)

lemma keeps_getS_dep: "(\<And>s x. P s \<Longrightarrow> f s = Inr x \<Longrightarrow> P (fst (k x s))) \<Longrightarrow> keeps P (getS f k)"
  by (simp add: keeps_wp getS_def split: sum.split)

lemma keeps_ifS_dep:
  "(\<And>s. P s \<Longrightarrow> b s \<Longrightarrow> P (fst (doS xs s))) \<Longrightarrow> (\<And>s. P s \<Longrightarrow> \<not> b s \<Longrightarrow> P (fst (doS ys s))) \<Longrightarrow> keeps P (ifS b xs ys)"
  by (simp add: keeps_wp ifS_def)

lemma keeps_conj: "keeps P st \<Longrightarrow> keeps Q st \<Longrightarrow> keeps (\<lambda>s. P s \<and> Q s) st"
  by (simp add: keeps_wp)

text \<open>A step that leaves a part of the state alone keeps what only depends on it.\<close>

definition preserves :: "('s \<Rightarrow> 'v) \<Rightarrow> 's step \<Rightarrow> bool" where
  "preserves v st \<longleftrightarrow> (\<forall>s. v (fst (st s)) = v s)"

lemma preserves_keeps: "preserves v st \<longleftrightarrow> (\<forall>a. keeps (\<lambda>s. v s = a) st)"
  by (auto simp: preserves_def keeps_wp)

lemma preservesI: "(\<And>a. keeps (\<lambda>s. v s = a) st) \<Longrightarrow> preserves v st"
  by (simp add: preserves_keeps)

lemma keeps_preserved: "preserves v st \<Longrightarrow> keeps (\<lambda>s. P (v s)) st"
  by (simp add: keeps_wp preserves_def)

section \<open>Programs that return\<close>

definition returns :: "'s step \<Rightarrow> 's \<Rightarrow> bool" where
  "returns st s \<longleftrightarrow> snd (st s) = None"

lemma returns_wp: "returns st s \<longleftrightarrow> wp st (\<lambda>_. True) (\<lambda>_. False) s"
  by (auto simp: returns_def wp_def split: prod.splits option.splits)

end
