(* ===== verification/ChatState.thy ===== *)
theory ChatState
  imports ChatProg ChatHistory FilteredHist
begin

text \<open>
  The state of a chat room, class \<open>chatd::Chat\<close> of \<open>src/chatd.h\<close>, and the operations its handlers
  share: the last text message, the count of unread messages and the pending reactions
  (\<open>src/chatd.cpp\<close>).

  Handlers are steps of \<open>ChatProg\<close>.  What they ask of the client, the crypto module, the application
  and the clock is the environment \<open>ChatEnv\<close>, what they tell them goes to \<open>cOut\<close> in the order of the
  calls.  Listeners are called and return; they do not call the chat back.  An assertion is
  modelled, as \<open>AssertFail\<close>, where the code relies on it to leave a branch or a loop, and dropped elsewhere.
\<close>

section \<open>State\<close>

text \<open>\<open>LastTextMsgState\<close>.\<close>

record LastTextMsg =
  ltState :: byte
  ltIsNotified :: bool
  ltType :: byte
  ltContents :: bytes
  ltSender :: Id
  ltIdx :: Idx
  ltId :: Id

abbreviation ltNone :: byte where "ltNone \<equiv> 0x0"
abbreviation ltFetching :: byte where "ltFetching \<equiv> 0xff"
abbreviation ltHave :: byte where "ltHave \<equiv> 0x1"

definition newLastTextMsg :: LastTextMsg where
  "newLastTextMsg = \<lparr>ltState = ltNone, ltIsNotified = False, ltType = kMsgInvalid, ltContents = [], ltSender = 0,
     ltIdx = CHATD_IDX_INVALID, ltId = 0\<rparr>"

definition ltIsValid :: "LastTextMsg \<Rightarrow> bool" where
  "ltIsValid l \<longleftrightarrow> ltState l = ltHave"

definition ltIsFetching :: "LastTextMsg \<Rightarrow> bool" where
  "ltIsFetching l \<longleftrightarrow> ltState l = ltFetching"

definition ltAssign :: "LastTextMsg \<Rightarrow> bytes \<Rightarrow> byte \<Rightarrow> Id \<Rightarrow> Idx \<Rightarrow> Id \<Rightarrow> LastTextMsg" where
  "ltAssign l dat t i idx sender = \<lparr>ltState = ltHave, ltIsNotified = False, ltType = t, ltContents = dat,
     ltSender = sender, ltIdx = idx, ltId = i\<rparr>"

definition ltAssignMsg :: "LastTextMsg \<Rightarrow> Message \<Rightarrow> Idx \<Rightarrow> LastTextMsg" where
  "ltAssignMsg l m idx = ltAssign l (mData m) (msgType m) (mId m) idx (userid m)"

definition ltConfirm :: "LastTextMsg \<Rightarrow> Idx \<Rightarrow> Id \<Rightarrow> LastTextMsg" where
  "ltConfirm l idx i = l\<lparr>ltIdx := idx, ltId := i\<rparr>"

definition ltClear :: "LastTextMsg \<Rightarrow> LastTextMsg" where
  "ltClear l = l\<lparr>ltState := ltNone, ltType := kMsgInvalid, ltContents := []\<rparr>"

text \<open>\<open>ServerHistFetchState\<close> is a set of flags; \<open>HistSource\<close> gives the lowest two bits.\<close>

definition kHistNotFetching :: byte where "kHistNotFetching = 4"
definition kHistOldFlag :: byte where "kHistOldFlag = 8"
definition kHistDecryptingFlag :: byte where "kHistDecryptingFlag = 16"
definition kHistFetchingOldFromServer :: byte where "kHistFetchingOldFromServer = 3 OR 8"
definition kHistFetchingNewFromServer :: byte where "kHistFetchingNewFromServer = 3"
definition kHistDecryptingOld :: byte where "kHistDecryptingOld = 16 OR 8"
definition kHistDecryptingNew :: byte where "kHistDecryptingNew = 16"

datatype FetchType = kFetchMessages | kFetchNodeHistory

datatype (plugins only: code) ListenerCall =
    LRecvNewMessage Idx Message Status
  | LRecvHistoryMessage Idx Message Status bool
  | LHistoryDone HistSource
  | LHistoryTruncatedByRetentionTime Message Idx Status
  | LUnsentMsgLoaded Message
  | LUnsentEditLoaded Message bool
  | LMessageConfirmed Id Message Idx bool
  | LMessageRejected Message byte
  | LMessageStatusChange Idx Status Message
  | LMessageEdited Message Idx
  | LEditRejected Message ManualSendReason
  | LOnlineStateChange ChatState
  | LUserJoin Id priv
  | LUserLeave Id
  | LUnreadChanged
  | LManualSendRequired Message nat ManualSendReason
  | LHistoryTruncated Message Idx
  | LMsgOrderVerificationFail Message Idx
  | LLastTextMessageUpdated LastTextMsg
  | LLastMessageTsUpdated u32
  | LReactionUpdate Id string nat
  | LHistoryReloaded
  | LPreviewersUpdate
  | LRetentionTimeUpdated u32

text \<open>
  Everything a handler starts outside the chat: commands given to the connection, calls of the listener
  and of the crypto module, requests to the client, work put off to another turn of the event loop.
\<close>

datatype (plugins only: code) ChatOut =
    OSend bytes
  | OListener ListenerCall
  | OAttachments FhEvent
  | OCryptoResetSendKey
  | OCryptoHistoryReload
  | OCryptoKeyConfirmed KeyId KeyId
  | OCryptoKeyRejected
  | OCryptoUserJoin Id
  | OCryptoUserLeave Id
  | OCryptoOnlineState ChatState
  | OCryptoDecrypt Idx bool
  | OCryptoDecryptUpdate Message
  | OCryptoDecryptNode Message
  | OCryptoDecryptReaction Opcode Id Idx Id
  | OCryptoEncrypt Message nat
  | ORequestRichLink Id
  | ORequestUserAttributes Id
  | OLastGreen Id u32
  | ORetentionCheck nat
  | OLastTextFetch
  | OFetchHistory nat
  | OSeenTimer Idx Id
  | OSubmit Message "Id set"
  | OEdit Message "Id set"
  | OStats nat
  | ODecryptUnifiedKey
  | OClientOnline
  | ORtcDisconnect
  | ORtcLeave
  | OUserTyping Id bool

record Chat =
  cBuf :: HistBuf
  cDb :: ChatdDb
  cFh :: FilteredHistory
  mSending :: "SendingItem list"
  mNextUnsent :: "nat option"
  mPendingReactions :: "PendingReaction list"
  mIsFirstJoin :: bool
  mLastReceivedId :: Id
  mLastReceivedIdx :: Idx
  mLastSeenId :: Id
  mLastSeenIdx :: Idx
  mLastIdxReceivedFromServer :: Idx
  mOnlineState :: ChatState
  mOwnPrivilege :: priv
  mUsers :: "Id set"
  mOldestKnownMsgId :: Id
  mLastServerHistFetchCount :: nat
  mLastHistDecryptCount :: nat
  mServerFetchState :: byte
  mLastServerRequested :: int
  mHasMoreHistoryInDb :: bool
  mServerOldHistCbEnabled :: bool
  mHaveAllHistory :: bool
  mIsDisabled :: bool
  mNextHistFetchIdx :: Idx
  mOldestIdxInDb :: Idx
  mLastTextMsg :: LastTextMsg
  mUnreadCount :: int
  mEncryptionHalted :: bool
  mDecryptNewHaltedAt :: Idx
  mDecryptOldHaltedAt :: Idx
  mLastMsgTs :: u32
  mMsgsToUpdateWithRichLink :: "Id set"
  mNumPreviewers :: u32
  mFetchRequest :: "FetchType list"
  mAttachNodesRequestedToServer :: u32
  mAttachNodesReceived :: u32
  mAttachmentHistDoneReceived :: bool
  mAttachmentsPendingToDecrypt :: "Message list"
  mDecryptionAttachmentsHalted :: bool
  mTruncateAttachment :: bool
  mReactionSn :: Id
  mRetentionTime :: u32
  mPendingEdits :: "Id \<Rightarrow> nat option"
  mRefidToIdxMap :: "BackRefId \<Rightarrow> Idx option"
  cOut :: "ChatOut list"

text \<open>The iterator \<open>mNextUnsent\<close> is its distance from the front, none when its element has been erased; an entry of \<open>mPendingEdits\<close> is the row of the item whose message it points to.\<close>

record ChatEnv =
  eChatId :: Id
  eMyHandle :: Id
  eIsGroup :: bool
  eIsPublic :: bool
  ePreviewMode :: bool
  ePublicHandle :: Id
  eConnOnline :: bool
  eNow :: nat
  eRoomOpened :: bool
  eReceivedConfirmation :: bool
  eRichLinkState :: byte
  eHasUrl :: "bytes \<Rightarrow> bool"
  eUserLastMsgTs :: "Id \<Rightarrow> nat"
  eRtcExists :: bool
  eRtcCall :: bool

type_synonym chat_step = "Chat step"

abbreviation initialHistoryFetchCount :: nat where "initialHistoryFetchCount \<equiv> 32"

definition kRichLinkEnabled :: byte where "kRichLinkEnabled = 1"
definition kRichLinkNotDefined :: byte where "kRichLinkNotDefined = 0"

section \<open>Calls\<close>

definition outS :: "(Chat \<Rightarrow> ChatOut list) \<Rightarrow> chat_step" where
  "outS f = modS (\<lambda>s. s\<lparr>cOut := cOut s @ f s\<rparr>)"

definition listenS :: "(Chat \<Rightarrow> ListenerCall) \<Rightarrow> chat_step" where
  "listenS f = outS (\<lambda>s. [OListener (f s)])"

text \<open>\<open>Chat::sendCommand\<close>: nothing leaves while the connection is not online.\<close>

definition sendCommand :: "ChatEnv \<Rightarrow> (Chat \<Rightarrow> bytes) \<Rightarrow> chat_step" where
  "sendCommand env f = outS (\<lambda>s. if eConnOnline env then [OSend (f s)] else [])"

text \<open>\<open>CALL_DB\<close>: an exception of the cache is logged and dropped.\<close>

definition dbS :: "(ChatdDb \<Rightarrow> ChatdDb res) \<Rightarrow> chat_step" where
  "dbS f = modS (\<lambda>s. s\<lparr>cDb := orElse (cDb s) (f (cDb s))\<rparr>)"

text \<open>A call of the attachment list, which works on the same cache.\<close>

definition fhS :: "(fh_state \<Rightarrow> fh_state res) \<Rightarrow> chat_step" where
  "fhS f = updS (\<lambda>s. bindR (f (cFh s, cDb s, [])) (\<lambda>(fh, d, ev).
     Inr (s\<lparr>cFh := fh, cDb := d, cOut := cOut s @ map OAttachments ev\<rparr>)))"

text \<open>\<open>addMessage\<close> may change the type of the message it is given, which is the one of the history.\<close>

definition fhAddS :: "ChatEnv \<Rightarrow> Message \<Rightarrow> bool \<Rightarrow> bool \<Rightarrow> (Message \<Rightarrow> chat_step) \<Rightarrow> chat_step" where
  "fhAddS env m isNew isLocal k s = (case fhAddMessage (eChatId env) (cFh s, cDb s, []) m isNew isLocal of
     Inl e \<Rightarrow> (s, Some e)
   | Inr ((fh, d, ev), m') \<Rightarrow> k m' (s\<lparr>cFh := fh, cDb := d, cOut := cOut s @ map OAttachments ev\<rparr>))"

section \<open>Queries\<close>

definition isLoggedIn :: "Chat \<Rightarrow> bool" where
  "isLoggedIn s \<longleftrightarrow> mOnlineState s = kChatStateOnline"

definition isJoining :: "Chat \<Rightarrow> bool" where
  "isJoining s \<longleftrightarrow> mOnlineState s = kChatStateJoining"

definition isFetchingFromServer :: "Chat \<Rightarrow> bool" where
  "isFetchingFromServer s \<longleftrightarrow> mServerFetchState s AND kHistNotFetching = 0"

definition isNotifyingOldHistFromServer :: "Chat \<Rightarrow> bool" where
  "isNotifyingOldHistFromServer s \<longleftrightarrow> mServerOldHistCbEnabled s \<and> mServerFetchState s AND kHistOldFlag \<noteq> 0"

definition isServerFetchDecrypting :: "Chat \<Rightarrow> bool" where
  "isServerFetchDecrypting s \<longleftrightarrow> mServerFetchState s AND kHistDecryptingFlag \<noteq> 0"

definition isFetchingNodeHistory :: "Chat \<Rightarrow> bool" where
  "isFetchingNodeHistory s \<longleftrightarrow> mFetchRequest s \<noteq> [] \<and> hd (mFetchRequest s) = kFetchNodeHistory"

definition isFetchingHistory :: "Chat \<Rightarrow> bool" where
  "isFetchingHistory s \<longleftrightarrow> mFetchRequest s \<noteq> [] \<and> hd (mFetchRequest s) = kFetchMessages"

definition decryptedLownum :: "Chat \<Rightarrow> Idx" where
  "decryptedLownum s = (if mDecryptOldHaltedAt s = CHATD_IDX_INVALID then lownum (cBuf s) else mDecryptOldHaltedAt s + 1)"

definition decryptedHighnum :: "Chat \<Rightarrow> Idx" where
  "decryptedHighnum s = (if mDecryptNewHaltedAt s = CHATD_IDX_INVALID then highnum (cBuf s) else mDecryptNewHaltedAt s - 1)"

definition getMsgByXid :: "Chat \<Rightarrow> Id \<Rightarrow> Message option" where
  "getMsgByXid s i = map_option siMsg (List.find (\<lambda>it. mId (siMsg it) = i \<and> siOpcode it \<noteq> OP_MSGUPD) (mSending s))"

definition haveAllHistoryNotified :: "Chat \<Rightarrow> bool" where
  "haveAllHistoryNotified s \<longleftrightarrow> mHaveAllHistory s \<and> \<not> mHasMoreHistoryInDb s \<and>
     (mNextHistFetchIdx s < lownum (cBuf s) \<or> histEmpty (cBuf s))"

definition getMsgStatus :: "ChatEnv \<Rightarrow> Chat \<Rightarrow> Message \<Rightarrow> Idx \<Rightarrow> Status" where
  "getMsgStatus env s m idx =
    (if userid m = eMyHandle env
     then if isSending m then kSending
          else if \<exists>it \<in> set (mSending s). mId (siMsg it) = mId m \<and> (siOpcode it = OP_MSGUPD \<or> siOpcode it = OP_MSGUPDX) then kSending
          else if idx \<le> mLastReceivedIdx s then kDelivered else kServerReceived
     else if mLastSeenIdx s = CHATD_IDX_INVALID then kNotSeen
     else if idx \<le> mLastSeenIdx s then kSeen else kNotSeen)"

section \<open>The last text message\<close>

definition notifyLastTextMsg :: chat_step where
  "notifyLastTextMsg = doS [
     listenS (\<lambda>s. LLastTextMessageUpdated (mLastTextMsg s)),
     modS (\<lambda>s. s\<lparr>mLastTextMsg := (mLastTextMsg s)\<lparr>ltIsNotified := True\<rparr>\<rparr>),
     whenS (\<lambda>s. findOrNull (cBuf s) (ltIdx (mLastTextMsg s)) \<noteq> None \<or> getMsgByXid s (ltId (mLastTextMsg s)) \<noteq> None)
       [listenS (\<lambda>s. LLastMessageTsUpdated (mLastMsgTs s))]]"

definition setLastText :: "Message \<Rightarrow> Idx \<Rightarrow> Chat \<Rightarrow> Chat" where
  "setLastText m idx s = s\<lparr>mLastTextMsg := ltAssignMsg (mLastTextMsg s) m idx, mLastMsgTs := ts m\<rparr>"

definition onLastTextMsgUpdated :: "Message \<Rightarrow> Idx \<Rightarrow> chat_step" where
  "onLastTextMsgUpdated m idx = doS [modS (setLastText m idx), notifyLastTextMsg]"

text \<open>The indexes from \<open>a\<close> down to \<open>b\<close> and up from \<open>a\<close> to \<open>b\<close>.\<close>

definition downTo :: "Idx \<Rightarrow> Idx \<Rightarrow> Idx list" where
  "downTo a b = rev [b..a]"

definition newestValid :: "HistBuf \<Rightarrow> (Idx \<times> Message) option" where
  "newestValid b = List.find (isValidLastMessage \<circ> snd)
     (concat (map (\<lambda>i. case findOrNull b i of None \<Rightarrow> [] | Some m \<Rightarrow> [(i, m)]) (downTo (highnum b) (lownum b))))"

text \<open>
  The search in the sending queue, in memory and in the cache, which tells whether it is over: \<open>False\<close>
  when the history has to be fetched first.  A cache without a message leaves the creation time of the
  chat as time of the last message.
\<close>

definition lastTextFromDb :: "ChatEnv \<Rightarrow> Chat \<Rightarrow> Chat" where
  "lastTextFromDb env s = (case getLastTextMessage (cDb s) (eChatId env) (lownum (cBuf s) - 1) of
     Inl _ \<Rightarrow> s\<lparr>mLastTextMsg := ltClear (mLastTextMsg s)\<rparr>
   | Inr (Inl created) \<Rightarrow> s\<lparr>mLastTextMsg := ltClear (mLastTextMsg s), mLastMsgTs := created\<rparr>
   | Inr (Inr r) \<Rightarrow> s\<lparr>mLastTextMsg := ltAssign (mLastTextMsg s) (hData r) (hType r) (hMsgid r) (hIdx r) (hUserid r),
       mLastMsgTs := hTs r\<rparr>)"

definition findLastTextMsg :: "ChatEnv \<Rightarrow> Chat \<Rightarrow> bool \<times> Chat" where
  "findLastTextMsg env s =
    (case List.find (isValidLastMessage \<circ> siMsg) (rev (mSending s)) of
       Some it \<Rightarrow> (True, setLastText (siMsg it) CHATD_IDX_INVALID s)
     | None \<Rightarrow>
         (case (if histEmpty (cBuf s) then None else newestValid (cBuf s)) of
            Some (i, m) \<Rightarrow> (True, setLastText m i s)
          | None \<Rightarrow>
              (let s' = (if histEmpty (cBuf s) then s else lastTextFromDb env s)
               in if \<not> histEmpty (cBuf s) \<and> ltIsValid (mLastTextMsg s') then (True, s')
                  else if mHaveAllHistory s' then (True, s')
                  else (False, s'\<lparr>cOut := cOut s' @ [OLastTextFetch]\<rparr>))))"

definition findAndNotifyLastTextMsg :: "ChatEnv \<Rightarrow> chat_step" where
  "findAndNotifyLastTextMsg env =
    readS (\<lambda>s. findLastTextMsg env s) (\<lambda>(done, s'). doS [modS (\<lambda>_. s'), whenS (\<lambda>_. done) [notifyLastTextMsg]])"

definition lastTextMessage :: "ChatEnv \<Rightarrow> Chat \<Rightarrow> byte \<times> LastTextMsg option \<times> Chat" where
  "lastTextMessage env s =
    (if ltIsValid (mLastTextMsg s) then (ltHave, Some (mLastTextMsg s), s)
     else if ltIsFetching (mLastTextMsg s) then (ltFetching, None, s)
     else let (done, s') = findLastTextMsg env s
          in if \<not> done then (ltFetching, None, s')
             else if ltIsValid (mLastTextMsg s') then (ltHave, Some (mLastTextMsg s'), s')
             else (ltState (mLastTextMsg s'), None, s'))"

section \<open>Unread messages\<close>

primrec countUnread :: "Id \<Rightarrow> HistBuf \<Rightarrow> Idx list \<Rightarrow> nat res" where
  "countUnread me b [] = Inr 0"
| "countUnread me b (i # is) = bindR (at b i) (\<lambda>m. bindR (countUnread me b is) (\<lambda>n.
     Inr (if isValidUnread m me then Suc n else n)))"

definition unreadCount :: "ChatEnv \<Rightarrow> Chat \<Rightarrow> int res" where
  "unreadCount env s =
    (let db = (\<lambda>i. int (getUnreadMsgCountAfterIdx (cDb s) (eChatId env) (eMyHandle env) i))
     in if mLastSeenIdx s = CHATD_IDX_INVALID
        then Inr (if mHaveAllHistory s then db (mLastSeenIdx s) else - db CHATD_IDX_INVALID)
        else if mLastSeenIdx s < lownum (cBuf s) then Inr (db (mLastSeenIdx s))
        else bindR (countUnread (eMyHandle env) (cBuf s) [mLastSeenIdx s + 1..highnum (cBuf s)]) (\<lambda>n. Inr (int n)))"

definition calculateUnreadCount :: "ChatEnv \<Rightarrow> chat_step" where
  "calculateUnreadCount env = getS (unreadCount env) (\<lambda>n.
     whenS (\<lambda>s. n \<noteq> mUnreadCount s) [modS (\<lambda>s. s\<lparr>mUnreadCount := n\<rparr>), listenS (\<lambda>s. LUnreadChanged)])"

section \<open>Pending reactions\<close>

definition addPendingReactionList :: "PendingReaction list \<Rightarrow> PendingReaction \<Rightarrow> PendingReaction list" where
  "addPendingReactionList ps p =
    (case findIndex (\<lambda>q. prMsgId q = prMsgId p \<and> prReaction q = prReaction p) ps of
       Some i \<Rightarrow> ps[i := (ps ! i)\<lparr>prStatus := prStatus p\<rparr>] | None \<Rightarrow> ps @ [p])"

definition addPendingReaction :: "PendingReaction \<Rightarrow> chat_step" where
  "addPendingReaction p = modS (\<lambda>s. s\<lparr>mPendingReactions := addPendingReactionList (mPendingReactions s) p\<rparr>)"

definition getPendingReactionStatus :: "Chat \<Rightarrow> string \<Rightarrow> Id \<Rightarrow> int" where
  "getPendingReactionStatus s r i = (case List.find (\<lambda>q. prMsgId q = i \<and> prReaction q = r) (mPendingReactions s) of
     None \<Rightarrow> - 1 | Some q \<Rightarrow> uint (prStatus q))"

definition removePendingReaction :: "string \<Rightarrow> Id \<Rightarrow> chat_step" where
  "removePendingReaction r i = modS (\<lambda>s. s\<lparr>mPendingReactions :=
     (case findIndex (\<lambda>q. prMsgId q = i \<and> prReaction q = r) (mPendingReactions s) of
        None \<Rightarrow> mPendingReactions s | Some k \<Rightarrow> eraseAt k (mPendingReactions s))\<rparr>)"

definition reactionCommand :: "ChatEnv \<Rightarrow> byte \<Rightarrow> Id \<Rightarrow> bytes \<Rightarrow> bytes" where
  "reactionCommand env op i enc = cmdAddString (cmdAdd8 (cmdAddId (cmdAddId (cmdAddId [op] (eChatId env)) (eMyHandle env)) i)
     (word_of_nat (length enc))) enc"

definition retryPendingReactions :: "ChatEnv \<Rightarrow> chat_step" where
  "retryPendingReactions env = readS mPendingReactions (\<lambda>ps. forS ps (\<lambda>p.
     sendCommand env (\<lambda>s. reactionCommand env (prStatus p) (prMsgId p) (prReactionEnc p))))"

definition cleanPendingReactions :: "Id \<Rightarrow> chat_step" where
  "cleanPendingReactions i = modS (\<lambda>s. s\<lparr>mPendingReactions := filter (\<lambda>q. prMsgId q \<noteq> i) (mPendingReactions s)\<rparr>)"

definition cleanPendingReactionsOlderThan :: "Idx \<Rightarrow> chat_step" where
  "cleanPendingReactionsOlderThan idx = modS (\<lambda>s. s\<lparr>mPendingReactions :=
     filter (\<lambda>q. \<not> msgIndexFromId (cBuf s) (prMsgId q) \<le> idx) (mPendingReactions s)\<rparr>)"

definition onReactionReject :: "ChatEnv \<Rightarrow> Id \<Rightarrow> chat_step" where
  "onReactionReject env i = doS [
     readS (\<lambda>s. (findOrNull (cBuf s) (msgIndexFromId (cBuf s) i), filter (\<lambda>q. prMsgId q = i) (mPendingReactions s))) (\<lambda>(m, qs).
       doS [cleanPendingReactions i,
         forS qs (\<lambda>q. case m of None \<Rightarrow> doS [] | Some msg \<Rightarrow>
           listenS (\<lambda>s. LReactionUpdate i (prReaction q) (getReactionCount (mReactions msg) (prReaction q))))]),
     dbS (\<lambda>d. Inr (dbCleanPendingReactions d (eChatId env) i))]"

definition flushChatPendingReactions :: "ChatEnv \<Rightarrow> chat_step" where
  "flushChatPendingReactions env = doS [
     readS mPendingReactions (\<lambda>ps. forS ps (\<lambda>p. doS [
       readS (\<lambda>s. msgIndexFromId (cBuf s) (prMsgId p)) (\<lambda>idx.
         if idx = CHATD_IDX_INVALID then doS []
         else getS (\<lambda>s. at (cBuf s) idx) (\<lambda>m.
           listenS (\<lambda>s. LReactionUpdate (mId m) (prReaction p) (getReactionCount (mReactions m) (prReaction p))))),
       dbS (\<lambda>d. Inr (dbCleanPendingReactions d (eChatId env) (prMsgId p)))])),
     modS (\<lambda>s. s\<lparr>mPendingReactions := []\<rparr>)]"

text \<open>The reaction encrypted by the crypto module is an argument.\<close>

definition manageReaction :: "ChatEnv \<Rightarrow> Message \<Rightarrow> string \<Rightarrow> bytes \<Rightarrow> Opcode \<Rightarrow> chat_step" where
  "manageReaction env m r enc op = doS [
     addPendingReaction \<lparr>prReaction = r, prReactionEnc = enc, prMsgId = mId m, prStatus = opcodeVal op\<rparr>,
     dbS (\<lambda>d. dbAddPendingReaction d (eChatId env) (mId m) r enc (opcodeVal op)),
     sendCommand env (\<lambda>s. reactionCommand env (opcodeVal op) (mId m) enc)]"

section \<open>Rich links\<close>

definition manageRichLinkMessage :: "ChatEnv \<Rightarrow> Message \<Rightarrow> chat_step" where
  "manageRichLinkMessage env m = getS (\<lambda>s. toText m) (\<lambda>t. modS (\<lambda>s.
     (let hasURL = eHasUrl env t; queued = mId m \<in> mMsgsToUpdateWithRichLink s
      in if \<not> queued \<and> hasURL then s\<lparr>mMsgsToUpdateWithRichLink := insert (mId m) (mMsgsToUpdateWithRichLink s)\<rparr>
         else if queued \<and> \<not> hasURL then s\<lparr>mMsgsToUpdateWithRichLink := mMsgsToUpdateWithRichLink s - {mId m}\<rparr>
         else s)))"

definition requestRichLink :: "ChatEnv \<Rightarrow> Message \<Rightarrow> chat_step" where
  "requestRichLink env m = getS (\<lambda>s. toText m) (\<lambda>t. outS (\<lambda>s. if eHasUrl env t then [ORequestRichLink (mId m)] else []))"

definition removePendingRichLinks :: "Idx \<Rightarrow> chat_step" where
  "removePendingRichLinks idx = modS (\<lambda>s. s\<lparr>mMsgsToUpdateWithRichLink :=
     {i \<in> mMsgsToUpdateWithRichLink s. \<not> msgIndexFromId (cBuf s) i \<le> idx}\<rparr>)"

definition removeMessageReactions :: "Idx \<Rightarrow> bool \<Rightarrow> chat_step" where
  "removeMessageReactions idx cleanPrevious = readS (\<lambda>s. findOrNull (cBuf s) idx) (\<lambda>m. case m of
     None \<Rightarrow> doS []
   | Some msg \<Rightarrow> doS [
       modS (\<lambda>s. s\<lparr>cBuf := setAt (cBuf s) idx (cleanReactions msg)\<rparr>),
       if cleanPrevious then cleanPendingReactionsOlderThan idx else cleanPendingReactions (mId msg)])"

end
