(* ===== verification/ChatPointers.thy ===== *)
theory ChatPointers
  imports ChatState
begin

text \<open>
  The pointers of a chat into its history and what moves or cuts them (\<open>src/chatd.cpp\<close>): the last message
  received by the peers, the last message seen by us, truncation and the retention time.
\<close>

section \<open>Received and seen\<close>

definition notifyStatus :: "ChatEnv \<Rightarrow> Status \<Rightarrow> bool \<Rightarrow> Idx \<Rightarrow> Idx \<Rightarrow> chat_step" where
  "notifyStatus env st own a b = forS [a..b] (\<lambda>i. getS (\<lambda>s. at (cBuf s) i) (\<lambda>m.
     if (userid m = eMyHandle env) = own then listenS (\<lambda>s. LMessageStatusChange i st m) else doS []))"

definition onLastReceived :: "ChatEnv \<Rightarrow> Id \<Rightarrow> chat_step" where
  "onLastReceived env msgid = doS [
     modS (\<lambda>s. s\<lparr>mLastReceivedId := msgid\<rparr>),
     dbS (\<lambda>d. setLastReceived d (eChatId env) msgid),
     readS (\<lambda>s. mIdToIndexMap (cBuf s) msgid) (\<lambda>it. case it of
       None \<Rightarrow> modS (\<lambda>s.
         (let idx = getIdxOfMsgidFromHistory (cDb s) (eChatId env) msgid
          in if idx = CHATD_IDX_INVALID \<or> (mLastReceivedIdx s \<noteq> CHATD_IDX_INVALID \<and> idx < mLastReceivedIdx s) then s
             else s\<lparr>mLastReceivedIdx := idx\<rparr>))
     | Some idx \<Rightarrow> whenS (\<lambda>s. idx \<noteq> mLastReceivedIdx s) [
         getS (\<lambda>s. at (cBuf s) idx) (\<lambda>_.
         whenS (\<lambda>s. mLastReceivedIdx s = CHATD_IDX_INVALID \<or> mLastReceivedIdx s \<le> idx) [
           readS (\<lambda>s. if mLastReceivedIdx s = CHATD_IDX_INVALID then lownum (cBuf s)
                      else max (mLastReceivedIdx s + 1) (lownum (cBuf s))) (\<lambda>notifyOldest.
             doS [modS (\<lambda>s. s\<lparr>mLastReceivedIdx := idx\<rparr>), notifyStatus env kDelivered True notifyOldest idx])])])]"

text \<open>An increment of the highest 32-bit value wraps around.\<close>

definition idxAdd :: "Idx \<Rightarrow> Idx \<Rightarrow> Idx" where
  "idxAdd a b = sint (word_of_int (a + b) :: u32)"

definition onLastSeen :: "ChatEnv \<Rightarrow> Id \<Rightarrow> bool \<Rightarrow> chat_step" where
  "onLastSeen env msgid resend =
     getS (\<lambda>s. case mIdToIndexMap (cBuf s) msgid of
         None \<Rightarrow> Inr (getIdxOfMsgidFromHistory (cDb s) (eChatId env) msgid)
       | Some idx \<Rightarrow> bindR (at (cBuf s) idx) (\<lambda>_. Inr idx)) (\<lambda>idx.
     ifS (\<lambda>s. idx = CHATD_IDX_INVALID \<and> mLastSeenIdx s = CHATD_IDX_INVALID)
       [modS (\<lambda>s. s\<lparr>mLastSeenId := msgid\<rparr>), dbS (\<lambda>d. setLastSeen d (eChatId env) msgid), calculateUnreadCount env]
       [ifS (\<lambda>s. idx \<noteq> CHATD_IDX_INVALID \<and> mLastSeenIdx s \<noteq> CHATD_IDX_INVALID \<and> idx < mLastSeenIdx s)
          [if resend then sendCommand env (\<lambda>s. cmdAddId (cmdAddId (newCommand OP_SEEN) (eChatId env)) (mLastSeenId s)) else doS []]
          [whenS (\<lambda>s. idx \<noteq> mLastSeenIdx s) [
             modS (\<lambda>s. s\<lparr>mLastSeenId := msgid\<rparr>),
             dbS (\<lambda>d. setLastSeen d (eChatId env) msgid),
             (if idx = CHATD_IDX_INVALID then doS []
              else readS (\<lambda>s. max (idxAdd (mLastSeenIdx s) 1) (lownum (cBuf s))) (\<lambda>notifyOldest.
                doS [modS (\<lambda>s. s\<lparr>mLastSeenIdx := idx\<rparr>), notifyStatus env kSeen False notifyOldest idx])),
             calculateUnreadCount env]]])"

text \<open>\<open>setMessageSeen\<close> starts a timer (\<open>OSeenTimer\<close>) and tells whether it did; \<open>onSeenTimer\<close> is its callback.\<close>

definition setMessageSeen :: "ChatEnv \<Rightarrow> Idx \<Rightarrow> Chat \<Rightarrow> (Chat \<times> bool) res" where
  "setMessageSeen env idx s =
    (if mLastSeenIdx s \<noteq> CHATD_IDX_INVALID \<and> idx \<le> mLastSeenIdx s then Inr (s, False)
     else bindR (at (cBuf s) idx) (\<lambda>m.
       if userid m = eMyHandle env then Inr (s, False)
       else Inr (s\<lparr>cOut := cOut s @ [OSeenTimer idx (mId m)]\<rparr>, True)))"

definition setMessageSeenId :: "ChatEnv \<Rightarrow> Id \<Rightarrow> Chat \<Rightarrow> (Chat \<times> bool) res" where
  "setMessageSeenId env msgid s = (case mIdToIndexMap (cBuf s) msgid of None \<Rightarrow> Inr (s, False) | Some i \<Rightarrow> setMessageSeen env i s)"

definition onSeenTimer :: "ChatEnv \<Rightarrow> Idx \<Rightarrow> Id \<Rightarrow> chat_step" where
  "onSeenTimer env idx i = whenS (\<lambda>s. \<not> (mLastSeenIdx s \<noteq> CHATD_IDX_INVALID \<and> idx \<le> mLastSeenIdx s)) [
     sendCommand env (\<lambda>s. cmdAddId (cmdAddId (newCommand OP_SEEN) (eChatId env)) i),
     readS (\<lambda>s. if mLastSeenIdx s = CHATD_IDX_INVALID then lownum (cBuf s) - 1 else max (mLastSeenIdx s) (lownum (cBuf s) - 1)) (\<lambda>start.
     doS [modS (\<lambda>s. s\<lparr>mLastSeenIdx := idx\<rparr>),
       readS (\<lambda>s. min idx (highnum (cBuf s))) (\<lambda>end. notifyStatus env kSeen False (start + 1) end),
       modS (\<lambda>s. s\<lparr>mLastSeenId := i\<rparr>),
       dbS (\<lambda>d. setLastSeen d (eChatId env) i),
       calculateUnreadCount env])]"

definition handleLastReceivedSeen :: "ChatEnv \<Rightarrow> Id \<Rightarrow> chat_step" where
  "handleLastReceivedSeen env msgid = doS [
     whenS (\<lambda>s. msgid = mLastSeenId s) [onLastSeen env msgid True],
     whenS (\<lambda>s. mLastReceivedId s = msgid) [onLastReceived env msgid]]"

definition seenImport :: "ChatEnv \<Rightarrow> Id \<Rightarrow> chat_step" where
  "seenImport env i = whenS (\<lambda>s. i \<noteq> mLastSeenId s) [onLastSeen env i False]"

section \<open>Truncation and retention\<close>

definition getDbHistInfoAndInitOldestKnownMsgId :: "ChatEnv \<Rightarrow> (ChatDbInfo \<Rightarrow> chat_step) \<Rightarrow> chat_step" where
  "getDbHistInfoAndInitOldestKnownMsgId env k = getS (\<lambda>s. getHistoryInfo (cDb s) (eChatId env)) (\<lambda>info.
     doS [modS (\<lambda>s. s\<lparr>mOldestKnownMsgId := oldestDbId info, mOldestIdxInDb := oldestDbIdx info\<rparr>), k info])"

definition hasMoreHistoryInDb :: "Chat \<Rightarrow> bool" where
  "hasMoreHistoryInDb s \<longleftrightarrow> mOldestKnownMsgId s \<noteq> Id_null \<and>
     (case findOrNull (cBuf s) (lownum (cBuf s)) of None \<Rightarrow> True | Some m \<Rightarrow> mId m \<noteq> mOldestKnownMsgId s)"

text \<open>The first attachment from the oldest message on, the newest message not being looked at.\<close>

primrec firstAttachment :: "HistBuf \<Rightarrow> Idx list \<Rightarrow> Id res" where
  "firstAttachment b [] = Inr Id_inval"
| "firstAttachment b (i # is) = bindR (at b i) (\<lambda>m. if msgType m = kMsgAttachment then Inr (mId m) else firstAttachment b is)"

definition truncateAttachmentHistory :: "ChatEnv \<Rightarrow> chat_step" where
  "truncateAttachmentHistory env = getS (\<lambda>s. firstAttachment (cBuf s) [lownum (cBuf s)..highnum (cBuf s) - 1]) (\<lambda>i. doS [
     fhS (\<lambda>st. fhTruncateHistory (eChatId env) st i),
     whenS mDecryptionAttachmentsHalted [modS (\<lambda>s. s\<lparr>mAttachmentsPendingToDecrypt := [], mTruncateAttachment := True\<rparr>)]])"

definition deleteOlder :: "Idx \<Rightarrow> chat_step" where
  "deleteOlder idx = updS (\<lambda>s. bindR (deleteOlderMessagesIncluding (cBuf s) idx) (\<lambda>b. Inr (s\<lparr>cBuf := b\<rparr>)))"

definition handleTruncate :: "ChatEnv \<Rightarrow> Message \<Rightarrow> Idx \<Rightarrow> chat_step" where
  "handleTruncate env msg idx = doS [
     outS (\<lambda>s. [OCryptoResetSendKey]),
     dbS (\<lambda>d. truncateHistory d (eChatId env) (mId msg)),
     modS (\<lambda>s. s\<lparr>mOldestIdxInDb := idx\<rparr>),
     (if idx = CHATD_IDX_INVALID then doS [] else doS [
       listenS (\<lambda>s. LHistoryTruncated msg idx),
       removeMessageReactions idx True,
       deleteOlder (idx - 1),
       removePendingRichLinks idx,
       whenS (\<lambda>s. mLastSeenIdx s \<noteq> CHATD_IDX_INVALID \<and> mLastSeenIdx s \<le> idx) [
         modS (\<lambda>s. s\<lparr>mLastSeenIdx := CHATD_IDX_INVALID, mLastSeenId := 0\<rparr>),
         dbS (\<lambda>d. setLastSeen d (eChatId env) 0)],
       whenS (\<lambda>s. mLastReceivedIdx s \<noteq> CHATD_IDX_INVALID \<and> mLastReceivedIdx s \<le> idx) [
         modS (\<lambda>s. s\<lparr>mLastReceivedIdx := CHATD_IDX_INVALID, mLastReceivedId := 0\<rparr>),
         dbS (\<lambda>d. setLastReceived d (eChatId env) 0)],
       whenS (\<lambda>s. eReceivedConfirmation env \<and> mLastIdxReceivedFromServer s \<le> idx) [
         modS (\<lambda>s. s\<lparr>mLastIdxReceivedFromServer := CHATD_IDX_INVALID\<rparr>)]]),
     dbS (\<lambda>d. Inr (setHaveAllHistoryDb d (eChatId env) True)),
     modS (\<lambda>s. s\<lparr>mHaveAllHistory := True, mOldestKnownMsgId := mId msg\<rparr>),
     modS (\<lambda>s. s\<lparr>mHasMoreHistoryInDb := hasMoreHistoryInDb s\<rparr>),
     truncateAttachmentHistory env,
     calculateUnreadCount env]"

text \<open>
  The newest message whose retention time is over: in memory, else in the cache unless memory holds all of
  it.  Times are seconds; the expiry is computed in 64 bits and compared with the 32-bit time of a message.
\<close>

definition expireRetentionTs :: "ChatEnv \<Rightarrow> Chat \<Rightarrow> int" where
  "expireRetentionTs env s = int (eNow env) - uint (mRetentionTime s)"

definition newestExpired :: "HistBuf \<Rightarrow> int \<Rightarrow> Idx option" where
  "newestExpired b t = List.find (\<lambda>i. case findOrNull b i of None \<Rightarrow> False | Some m \<Rightarrow> uint (ts m) \<le> t)
     (downTo (highnum b) (lownum b))"

definition getIdxByRetentionTime :: "ChatEnv \<Rightarrow> Chat \<Rightarrow> Idx" where
  "getIdxByRetentionTime env s =
    (case newestExpired (cBuf s) (expireRetentionTs env s) of
       Some i \<Rightarrow> i
     | None \<Rightarrow> if lownum (cBuf s) = mOldestIdxInDb s then CHATD_IDX_INVALID
               else getIdxByRetentionTimeDb (cDb s) (eChatId env) (word_of_int (expireRetentionTs env s)))"

definition nextRetentionHistCheck :: "ChatEnv \<Rightarrow> bool \<Rightarrow> chat_step" where
  "nextRetentionHistCheck env updateTimer = whenS (\<lambda>s. mRetentionTime s \<noteq> 0 \<and> mOldestIdxInDb s \<noteq> CHATD_IDX_INVALID \<and> updateTimer)
     [outS (\<lambda>s. [ORetentionCheck (unat ((case findOrNull (cBuf s) (mOldestIdxInDb s) of
        Some m \<Rightarrow> ts m | None \<Rightarrow> getOldestMsgTs (cDb s) (eChatId env)) + mRetentionTime s))])]"

definition handleRetentionTime :: "ChatEnv \<Rightarrow> bool \<Rightarrow> chat_step" where
  "handleRetentionTime env updateTimer = whenS (\<lambda>s. mRetentionTime s \<noteq> 0 \<and> mOldestIdxInDb s \<noteq> CHATD_IDX_INVALID) [
     readS (getIdxByRetentionTime env) (\<lambda>idx.
       if idx = CHATD_IDX_INVALID then nextRetentionHistCheck env updateTimer
       else readS (\<lambda>s. idx \<ge> mLastSeenIdx s \<or> mLastSeenIdx s = CHATD_IDX_INVALID) (\<lambda>notifyUnreadChanged. doS [
         readS (\<lambda>s. findOrNull (cBuf s) idx) (\<lambda>m. case m of None \<Rightarrow> doS []
           | Some msg \<Rightarrow> listenS (\<lambda>s. LHistoryTruncatedByRetentionTime msg idx (getMsgStatus env s msg idx))),
         dbS (\<lambda>d. Inr (retentionHistoryTruncate d (eChatId env) idx)),
         cleanPendingReactionsOlderThan idx,
         deleteOlder idx,
         removePendingRichLinks idx,
         getDbHistInfoAndInitOldestKnownMsgId env (\<lambda>_. doS []),
         whenS (\<lambda>s. mOldestIdxInDb s = CHATD_IDX_INVALID) [
           modS (\<lambda>s. s\<lparr>mLastIdxReceivedFromServer := CHATD_IDX_INVALID, mHaveAllHistory := True, mHasMoreHistoryInDb := False\<rparr>),
           dbS (\<lambda>d. Inr (setHaveAllHistoryDb d (eChatId env) True))],
         ifS (\<lambda>s. histEmpty (cBuf s)) [
           modS (\<lambda>s. s\<lparr>cBuf := (cBuf s)\<lparr>mForwardStart := CHATD_IDX_RANGE_MIDDLE\<rparr>, mLastSeenIdx := CHATD_IDX_INVALID, mLastSeenId := 0\<rparr>),
           dbS (\<lambda>d. setLastSeen d (eChatId env) 0),
           modS (\<lambda>s. s\<lparr>mLastReceivedIdx := CHATD_IDX_INVALID, mLastReceivedId := 0\<rparr>),
           dbS (\<lambda>d. setLastReceived d (eChatId env) 0),
           fhS (\<lambda>st. fhTruncateHistory (eChatId env) st Id_inval),
           modS (\<lambda>s. s\<lparr>mNextHistFetchIdx := CHATD_IDX_INVALID\<rparr>)]
         [truncateAttachmentHistory env],
         (if notifyUnreadChanged then calculateUnreadCount env else doS []),
         nextRetentionHistCheck env updateTimer]))]"

definition onRetentionTimeUpdated :: "ChatEnv \<Rightarrow> u32 \<Rightarrow> chat_step" where
  "onRetentionTimeUpdated env period = doS [
     whenS (\<lambda>s. mRetentionTime s \<noteq> period) [
       modS (\<lambda>s. s\<lparr>mRetentionTime := period\<rparr>), listenS (\<lambda>s. LRetentionTimeUpdated period)],
     handleRetentionTime env True]"

end
