(* ===== verification/ChatSending.thy ===== *)
theory ChatSending
  imports ChatPointers
begin

text \<open>
  The sending queue of a chat (\<open>src/chatd.cpp\<close>): posting, encryption, sending, confirmation, rejection
  and edits.  The crypto module gives each message's commands at once, later (\<open>onEncrypted\<close>) or never
  (\<open>onEncryptFailed\<close>); the random choices of the back references are the order in which the offsets of a
  range are tried.

  The queue is a \<open>std::list\<close> with the iterator \<open>mNextUnsent\<close>: erasing the element it refers to leaves it
  dangling, and using it then is an access out of bounds.
\<close>

section \<open>The queue as a list with an iterator\<close>

definition itErase :: "nat \<Rightarrow> nat option \<Rightarrow> nat option" where
  "itErase k it = (case it of None \<Rightarrow> None | Some i \<Rightarrow> if i = k then None else if i > k then Some (i - 1) else Some i)"

definition eraseItem :: "nat \<Rightarrow> Chat \<Rightarrow> Chat" where
  "eraseItem k s = s\<lparr>mSending := eraseAt k (mSending s), mNextUnsent := itErase k (mNextUnsent s)\<rparr>"

text \<open>Appending moves the end, and with it an iterator at the end.\<close>

definition appendItem :: "SendingItem \<Rightarrow> Chat \<Rightarrow> Chat" where
  "appendItem it s = s\<lparr>mSending := mSending s @ [it],
     mNextUnsent := (if mNextUnsent s = Some (length (mSending s)) then Some (Suc (length (mSending s))) else mNextUnsent s)\<rparr>"

definition setItem :: "nat \<Rightarrow> SendingItem \<Rightarrow> Chat \<Rightarrow> Chat" where
  "setItem k it s = s\<lparr>mSending := (mSending s)[k := it]\<rparr>"

section \<open>Back references\<close>

text \<open>Offset 0 is the last of the queue up to the message itself; behind the queue comes the history.\<close>

definition backRefCand :: "SendingItem list \<Rightarrow> HistBuf \<Rightarrow> nat \<Rightarrow> Message res" where
  "backRefCand q b i = (if i < length q then Inr (siMsg (q ! (length q - 1 - i)))
     else at b (highnum b - (int i - int (length q))))"

primrec pickRef :: "(nat \<Rightarrow> Message res) \<Rightarrow> nat \<Rightarrow> nat list \<Rightarrow> BackRefId option res" where
  "pickRef cand start [] = Inr None"
| "pickRef cand start (off # offs) = bindR (cand (start + off)) (\<lambda>m.
     if \<not> isManagementMessage m then Inr (Some (backRefId m)) else pickRef cand start offs)"

text \<open>The remaining ranges \<open>is\<close>; \<open>order i span\<close> is the order of the offsets in a range.\<close>

primrec backRefRanges :: "(nat \<Rightarrow> nat \<Rightarrow> nat list) \<Rightarrow> (nat \<Rightarrow> Message res) \<Rightarrow> nat \<Rightarrow> nat list \<Rightarrow> nat \<Rightarrow> BackRefId list res" where
  "backRefRanges order cand maxEnd [] start = Inr []"
| "backRefRanges order cand maxEnd (i # is) start =
    (let rangeEnd = min (2 ^ i) maxEnd
     in bindR (pickRef cand start (order i (rangeEnd - start))) (\<lambda>r.
        bindR (if rangeEnd = maxEnd then Inr [] else backRefRanges order cand maxEnd is rangeEnd) (\<lambda>rs.
        Inr ((case r of None \<Rightarrow> [] | Some x \<Rightarrow> [x]) @ rs))))"

definition createMsgBackRefs :: "(nat \<Rightarrow> nat \<Rightarrow> nat list) \<Rightarrow> SendingItem list \<Rightarrow> HistBuf \<Rightarrow> BackRefId list res" where
  "createMsgBackRefs order q b =
    (let maxEnd = histSize b - int (length q)
     in if maxEnd \<le> 0 then Inr [] else backRefRanges order (backRefCand q b) (nat maxEnd) [0..<7] 0)"

definition generateRefId :: "ChatEnv \<Rightarrow> u64 \<Rightarrow> BackRefId" where
  "generateRefId env rand = (word_of_nat (eNow env) AND 0xffffff) OR push_bit 40 rand"

section \<open>Sending\<close>

definition sendKeyAndMessage :: "ChatEnv \<Rightarrow> bytes \<Rightarrow> KeyCommand option \<Rightarrow> chat_step" where
  "sendKeyAndMessage env cmd kc = doS [
     (case kc of None \<Rightarrow> doS [] | Some k \<Rightarrow> sendCommand env (\<lambda>s. kcBuf k)),
     sendCommand env (\<lambda>s. cmd)]"

text \<open>
  \<open>moveItemToManualSending\<close>, and \<open>msgRemoveFromSending\<close>, which gives the confirmed message of the front
  item; a null handle is a rejection.
\<close>

definition moveItemToManualSending :: "ChatEnv \<Rightarrow> nat \<Rightarrow> ManualSendReason \<Rightarrow> chat_step" where
  "moveItemToManualSending env k reason = readS (\<lambda>s. mSending s ! k) (\<lambda>it. doS [
     dbS (\<lambda>d. deleteSendingItem d (siRowid it)),
     dbS (\<lambda>d. saveItemToManualSending d (eChatId env) it reason),
     listenS (\<lambda>s. LManualSendRequired (siMsg it) (siRowid it) reason),
     modS (eraseItem k)])"

definition takesConfirm :: "Chat \<Rightarrow> Id \<Rightarrow> bool" where
  "takesConfirm s msgxid = (case mSending s of [] \<Rightarrow> False
     | it # _ \<Rightarrow> \<not> (siOpcode it = OP_MSGUPDX \<or>
         ((siOpcode it = OP_NEWMSG \<or> siOpcode it = OP_NEWNODEMSG) \<and> mId (siMsg it) \<noteq> msgxid)))"

definition msgRemoveFromSending :: "ChatEnv \<Rightarrow> Id \<Rightarrow> Id \<Rightarrow> (Message option \<Rightarrow> chat_step) \<Rightarrow> chat_step" where
  "msgRemoveFromSending env msgxid msgid k = ifS (\<lambda>s. takesConfirm s msgxid)
     [modS (\<lambda>s. s\<lparr>mNextUnsent := (if mNextUnsent s = Some 0 then Some 1 else mNextUnsent s)\<rparr>),
      (if msgid = 0
       then doS [readS (\<lambda>s. if mOwnPrivilege s < privVal PRIV_FULL then kManualSendNoWriteAccess else kManualSendGeneralReject)
                   (\<lambda>r. moveItemToManualSending env 0 r), k None]
       else readS (\<lambda>s. mSending s ! 0) (\<lambda>it. doS [
              dbS (\<lambda>d. deleteSendingItem d (siRowid it)), modS (eraseItem 0), k (Some (siMsg it))]))]
     [k None]"

text \<open>
  The answer of the crypto module to a message: its commands and the key id it gave the message, an
  encryption that takes time, or a failure.
\<close>

datatype EncResult = EncNow bytes "KeyCommand option" KeyId | EncLater | EncFail

type_synonym encrypter = "Message \<Rightarrow> Id set \<Rightarrow> bytes \<Rightarrow> EncResult"

record SendEnv =
  seEnv :: ChatEnv
  seEncrypt :: encrypter
  seOrder :: "nat \<Rightarrow> nat \<Rightarrow> nat list"

definition onEncryptFailed :: "ChatEnv \<Rightarrow> Id \<Rightarrow> chat_step" where
  "onEncryptFailed env msgid = doS [
     modS (\<lambda>s. s\<lparr>mEncryptionHalted := False\<rparr>),
     msgRemoveFromSending env msgid 0 (\<lambda>_. doS []),
     outS (\<lambda>s. [OStats 99015])]"

definition addBackRefs :: "SendEnv \<Rightarrow> nat \<Rightarrow> Chat \<Rightarrow> Chat res" where
  "addBackRefs e k s =
    (let it = mSending s ! k; m = siMsg it
     in if (siOpcode it = OP_NEWMSG \<or> siOpcode it = OP_NEWNODEMSG) \<and> backRefs m = []
        then bindR (createMsgBackRefs (seOrder e) (take (Suc k) (mSending s)) (cBuf s)) (\<lambda>rs.
               Inr (setItem k (it\<lparr>siMsg := m\<lparr>backRefs := rs\<rparr>\<rparr>) s))
        else Inr s)"

text \<open>\<open>msgEncryptAndSend\<close> for the item at \<open>k\<close>; the continuation gets its result.\<close>

definition msgEncryptAndSend :: "SendEnv \<Rightarrow> nat \<Rightarrow> (bool \<Rightarrow> chat_step) \<Rightarrow> chat_step" where
  "msgEncryptAndSend e k cont = readS (\<lambda>s. mSending s ! k) (\<lambda>it0.
     case siMsgCmd it0 of
       Some cmd \<Rightarrow> doS [sendKeyAndMessage (seEnv e) cmd (siKeyCmd it0), cont True]
     | None \<Rightarrow> doS [
         updS (addBackRefs e k),
         ifS mEncryptionHalted [cont False] [
           readS (\<lambda>s. mSending s ! k) (\<lambda>it. let m = siMsg it in
             (case seEncrypt e m (siRecipients it) (newMsgCommand (siOpcode it) (eChatId (seEnv e)) (eMyHandle (seEnv e)) (mId m)
                     (ts m) (updated m) CHATD_KEYID_INVALID) of
                EncNow cmd kc kid \<Rightarrow> doS [
                  modS (setItem k (it\<lparr>siMsg := m\<lparr>keyid := kid\<rparr>, siMsgCmd := Some cmd, siKeyCmd := kc\<rparr>)),
                  dbS (\<lambda>d. addBlobsToSendingItem d (siRowid it) cmd kc kid),
                  sendKeyAndMessage (seEnv e) cmd kc,
                  cont True]
              | EncLater \<Rightarrow> doS [
                  modS (\<lambda>s. s\<lparr>mEncryptionHalted := True\<rparr>),
                  outS (\<lambda>s. [OCryptoEncrypt m (siRowid it)]),
                  cont False]
              | EncFail \<Rightarrow> doS [onEncryptFailed (seEnv e) (mId m), cont False]))]])"

text \<open>
  The loop over the unsent items, with a bound on its rounds; \<open>flushOutputQueue\<close> starts it with enough of
  them.  A dangling iterator is compared and then followed.
\<close>

primrec flushLoop :: "SendEnv \<Rightarrow> nat \<Rightarrow> chat_step" where
  "flushLoop e 0 = doS []"
| "flushLoop e (Suc n) = readS mNextUnsent (\<lambda>it. case it of
     None \<Rightarrow> throwS OutOfBounds
   | Some i \<Rightarrow> whenS (\<lambda>s. i < length (mSending s)) [
       modS (\<lambda>s. s\<lparr>mNextUnsent := Some (Suc i)\<rparr>),
       msgEncryptAndSend e i (\<lambda>ok. if ok then flushLoop e n else doS [])])"

definition flushOutputQueue :: "SendEnv \<Rightarrow> bool \<Rightarrow> chat_step" where
  "flushOutputQueue e fromStart = whenS isLoggedIn [
     (if fromStart then modS (\<lambda>s. s\<lparr>mNextUnsent := Some 0\<rparr>) else doS []),
     readS (\<lambda>s. Suc (length (mSending s))) (\<lambda>n. flushLoop e n)]"

definition postMsgToSending :: "SendEnv \<Rightarrow> Opcode \<Rightarrow> Message \<Rightarrow> Id set \<Rightarrow> chat_step" where
  "postMsgToSending e op msg rcpts = doS [
     modS (\<lambda>s. let (d, it) = addSendingItem (cDb s) (eChatId (seEnv e)) (newSendingItem op msg rcpts 0)
               in (appendItem it s)\<lparr>cDb := d\<rparr>),
     modS (\<lambda>s. if mNextUnsent s = Some (length (mSending s)) then s\<lparr>mNextUnsent := Some (length (mSending s) - 1)\<rparr> else s),
     flushOutputQueue e False]"

text \<open>
  The answer of a delayed encryption.  The commands are stored in the front item, the key id in the
  message that was encrypted, whose item must still be there.
\<close>

definition itemOfRow :: "nat \<Rightarrow> Chat \<Rightarrow> nat option" where
  "itemOfRow rowid s = findIndex (\<lambda>it. siRowid it = rowid) (mSending s)"

definition onEncrypted :: "SendEnv \<Rightarrow> nat \<Rightarrow> bytes \<Rightarrow> KeyCommand option \<Rightarrow> KeyId \<Rightarrow> chat_step" where
  "onEncrypted e rowid cmd kc kid = readS (itemOfRow rowid) (\<lambda>pos. case pos of
     None \<Rightarrow> throwS OutOfBounds
   | Some k \<Rightarrow> doS [
       modS (\<lambda>s. let it = mSending s ! k in setItem k (it\<lparr>siMsg := (siMsg it)\<lparr>keyid := kid\<rparr>\<rparr>) s),
       modS (\<lambda>s. setItem 0 ((mSending s ! 0)\<lparr>siMsgCmd := Some cmd, siKeyCmd := kc\<rparr>) s),
       dbS (\<lambda>d. addBlobsToSendingItem d rowid cmd kc kid),
       sendKeyAndMessage (seEnv e) cmd kc,
       modS (\<lambda>s. s\<lparr>mEncryptionHalted := False\<rparr>),
       flushOutputQueue e False])"

section \<open>New messages\<close>

definition kMaxMsgSize :: nat where "kMaxMsgSize = 120000"

text \<open>The new message gets a random id and reference; \<open>OSubmit\<close> is the call put off to the next turn.\<close>

definition msgSubmit :: "ChatEnv \<Rightarrow> Id \<Rightarrow> u64 \<Rightarrow> bytes \<Rightarrow> byte \<Rightarrow> Chat \<Rightarrow> Chat \<times> Message option" where
  "msgSubmit env randomId rand msg t s =
    (if length msg > kMaxMsgSize \<or> mOwnPrivilege s = privVal PRIV_NOTPRESENT then (s, None)
     else let m = newMessage randomId (eMyHandle env) (word_of_nat (eNow env)) 0 msg True CHATD_KEYID_INVALID t (generateRefId env rand) []
          in (s\<lparr>cOut := cOut s @ [OSubmit m (mUsers s)]\<rparr>, Some m))"

text \<open>
  The deferred submission.  The last text message is updated when the queue is not empty afterwards,
  whichever item is its last.
\<close>

definition onSubmit :: "SendEnv \<Rightarrow> Message \<Rightarrow> Id set \<Rightarrow> chat_step" where
  "onSubmit e m rcpts = doS [
     postMsgToSending e (if msgType m = kMsgAttachment then OP_NEWNODEMSG else OP_NEWMSG) m rcpts,
     whenS (\<lambda>s. mSending s \<noteq> [] \<and> isValidLastMessage m) [onLastTextMsgUpdated m CHATD_IDX_INVALID]]"

section \<open>Edits\<close>

definition CHATD_MAX_EDIT_AGE :: u32 where "CHATD_MAX_EDIT_AGE = 3600"

definition lastItemOf :: "Id \<Rightarrow> Chat \<Rightarrow> SendingItem option" where
  "lastItemOf i s = List.find (\<lambda>it. mId (siMsg it) = i) (rev (mSending s))"

text \<open>The age of an edit of an unconfirmed message: \<open>None\<close> is the unexpected opcode.\<close>

definition editAge :: "SendingItem \<Rightarrow> u32 \<Rightarrow> u32 option" where
  "editAge it age =
    (if siOpcode it = OP_NEWMSG \<or> siOpcode it = OP_NEWNODEMSG then Some (if age = 0 then age + 1 else age)
     else if siOpcode it = OP_MSGUPD \<or> siOpcode it = OP_MSGUPDX
     then Some (if (ucast (updated (siMsg it)) :: u32) = age then age + 1 else age)
     else None)"

text \<open>
  \<open>m\<close> is a message of the history, or the one in the sending queue that \<open>getMsgByXid\<close> gives.  Editing
  an unconfirmed message also changes the queued ones; \<open>OEdit\<close> is the call put off to the next turn.
\<close>

definition editQueued :: "Message \<Rightarrow> bytes \<Rightarrow> u32 \<Rightarrow> SendingItem list \<Rightarrow> SendingItem list" where
  "editQueued m dat age q =
    (let k = findIndex (\<lambda>it. mId (siMsg it) = mId m \<and> siOpcode it \<noteq> OP_MSGUPD) q
     in map (\<lambda>(i, it). if mId (siMsg it) = mId m
          then it\<lparr>siMsg := (siMsg it)\<lparr>mData := dat, updated := (if k = Some i then ucast age else updated (siMsg it))\<rparr>\<rparr>
          else it) (enumerate 0 q))"

definition msgModify :: "ChatEnv \<Rightarrow> Message \<Rightarrow> bytes \<Rightarrow> byte \<Rightarrow> Chat \<Rightarrow> (Chat \<times> Message option) res" where
  "msgModify env m dat newtype s =
    (let age = word_of_nat (eNow env) - ts m
     in if \<not> isSending m \<and> age > CHATD_MAX_EDIT_AGE then Inr (s, None)
        else if length dat > kMaxMsgSize then Inr (s, None)
        else if userid m \<noteq> eMyHandle env then Inr (s, None)
        else if isSending m
        then (case lastItemOf (mId m) s of
                None \<Rightarrow> Inl OutOfBounds
              | Some it \<Rightarrow>
                  (case editAge it age of
                     None \<Rightarrow> Inr (s, None)
                   | Some age' \<Rightarrow>
                       (let s' = s\<lparr>mSending := editQueued m dat age' (mSending s),
                                   cDb := fst (updateSendingItemsContentAndDelta (cDb s) (eChatId env) (m\<lparr>mData := dat\<rparr>))\<rparr>;
                            upd = newMessage (mId m) (userid m) (ts m) (ucast age') dat True (keyid m) newtype (backRefId m) (backRefs m)
                        in Inr (s'\<lparr>cOut := cOut s' @ [OEdit upd (siRecipients it)]\<rparr>, Some upd))))
        else let age' = (if age \<le> ucast (updated m) then ucast (updated m) + 1 else age);
                 upd = newMessage (mId m) (userid m) (ts m) (ucast age') dat False (keyid m) newtype (backRefId m) (backRefs m)
             in Inr (s\<lparr>cOut := cOut s @ [OEdit upd {}]\<rparr>, Some upd))"

definition onEdit :: "SendEnv \<Rightarrow> Message \<Rightarrow> Id set \<Rightarrow> chat_step" where
  "onEdit e upd rcpts = readS (\<lambda>s. ltId (mLastTextMsg s)) (\<lambda>lastMsgId. doS [
     postMsgToSending e (if isSending upd then OP_MSGUPDX else OP_MSGUPD) upd rcpts,
     (if lastMsgId = mId upd
      then if isValidLastMessage upd
           then readS (\<lambda>s. msgIndexFromId (cBuf s) (mId upd)) (\<lambda>idx. onLastTextMsgUpdated upd idx)
           else findAndNotifyLastTextMsg (seEnv e)
      else doS [])])"

text \<open>Removing a rich link is an edit that asks for no new one; \<open>OEdit\<close> refers to the same message.\<close>

definition markRemoved :: "ChatOut \<Rightarrow> ChatOut" where
  "markRemoved o' = (case o' of OEdit m r \<Rightarrow> OEdit (m\<lparr>richLinkRemoved := True\<rparr>) r | _ \<Rightarrow> o')"

definition removeRichLink :: "ChatEnv \<Rightarrow> Message \<Rightarrow> bytes \<Rightarrow> Chat \<Rightarrow> (Chat \<times> Message option) res" where
  "removeRichLink env m content s = bindR (msgModify env m content kMsgNormal s) (\<lambda>(s', upd). case upd of
     None \<Rightarrow> Inr (s', None)
   | Some u \<Rightarrow> Inr (s'\<lparr>cOut := butlast (cOut s') @ [markRemoved (last (cOut s'))]\<rparr>, Some (u\<lparr>richLinkRemoved := True\<rparr>)))"

section \<open>Confirmations\<close>

definition confirmEdits :: "Id \<Rightarrow> Id \<Rightarrow> SendingItem list \<Rightarrow> SendingItem list" where
  "confirmEdits msgxid msgid = map (\<lambda>it. if mId (siMsg it) = msgxid
     then it\<lparr>siMsg := setId (siMsg it) msgid False, siOpcode := OP_MSGUPD\<rparr> else it)"

definition confirmLastText :: "ChatEnv \<Rightarrow> Id \<Rightarrow> Message \<Rightarrow> Idx \<Rightarrow> chat_step" where
  "confirmLastText env msgxid m idx =
    (if \<not> isValidLastMessage m then doS []
     else readS mLastTextMsg (\<lambda>l.
       if ltIdx l = CHATD_IDX_INVALID
       then if ltId l \<noteq> msgxid then onLastTextMsgUpdated m idx
            else doS [modS (\<lambda>s. s\<lparr>mLastTextMsg := ltConfirm (mLastTextMsg s) idx (mId m)\<rparr>),
                      (if \<not> ltIsNotified l then notifyLastTextMsg else doS [])]
       else if idx > ltIdx l then onLastTextMsgUpdated m idx
       else if idx = ltIdx l \<and> \<not> ltIsNotified l then notifyLastTextMsg
       else doS []))"

definition richLinkOf :: "ChatEnv \<Rightarrow> Message \<Rightarrow> chat_step" where
  "richLinkOf env m =
    (if eRichLinkState env = kRichLinkEnabled then requestRichLink env m
     else if eRichLinkState env = kRichLinkNotDefined then manageRichLinkMessage env m else doS [])"

text \<open>The back references of all messages are kept; a reference that is already there is not replaced.\<close>

definition addRefid :: "BackRefId \<Rightarrow> Idx \<Rightarrow> Message \<Rightarrow> chat_step" where
  "addRefid ref idx m = ifS (\<lambda>s. mRefidToIdxMap s ref \<noteq> None)
     [listenS (\<lambda>s. LMsgOrderVerificationFail m idx)]
     [modS (\<lambda>s. s\<lparr>mRefidToIdxMap := (mRefidToIdxMap s)(ref := Some idx)\<rparr>)]"

definition withAttachment :: "ChatEnv \<Rightarrow> Message \<Rightarrow> bool \<Rightarrow> Idx \<Rightarrow> (Message \<Rightarrow> chat_step) \<Rightarrow> chat_step" where
  "withAttachment env m isNew idx k =
    (if msgType m = kMsgAttachment
     then fhAddS env m isNew False (\<lambda>m'. doS [modS (\<lambda>s. s\<lparr>cBuf := setAt (cBuf s) idx m'\<rparr>), k m'])
     else k m)"

text \<open>The retention time may delete the message that is being added, which is used again afterwards.\<close>

definition stillAlive :: "Idx \<Rightarrow> chat_step" where
  "stillAlive idx = ifS (\<lambda>s. findOrNull (cBuf s) idx = None) [throwS OutOfBounds] []"

definition msgConfirm :: "ChatEnv \<Rightarrow> Id \<Rightarrow> Id \<Rightarrow> u32 \<Rightarrow> chat_step" where
  "msgConfirm env msgxid msgid timestamp = msgRemoveFromSending env msgxid msgid (\<lambda>r. case r of
     None \<Rightarrow> doS []
   | Some m0 \<Rightarrow>
       (let m1 = setId m0 msgid False; m0' = (if timestamp \<noteq> 0 then m1\<lparr>ts := timestamp\<rparr> else m1) in
        doS [
          modS (\<lambda>s. s\<lparr>cBuf := addNewest (cBuf s) m0'\<rparr>),
          readS (\<lambda>s. highnum (cBuf s)) (\<lambda>idx. doS [
            withAttachment env m0' True idx (\<lambda>m. doS [
            dbS (\<lambda>d. addMsgToHistory d (eChatId env) m idx),
            whenS (\<lambda>s. mOldestIdxInDb s = CHATD_IDX_INVALID) [
              modS (\<lambda>s. s\<lparr>mOldestIdxInDb := idx\<rparr>), handleRetentionTime env True],
            stillAlive idx,
            addRefid (backRefId m) idx m,
            whenS (\<lambda>s. \<exists>it \<in> set (mSending s). mId (siMsg it) = msgxid) [
              modS (\<lambda>s. s\<lparr>mSending := confirmEdits msgxid msgid (mSending s),
                          cDb := fst (updateSendingItemsMsgidAndOpcode (cDb s) (eChatId env) msgxid msgid)\<rparr>)],
            listenS (\<lambda>s. LMessageConfirmed msgxid m idx (timestamp \<noteq> 0)),
            whenS (\<lambda>s. mNextHistFetchIdx s = CHATD_IDX_INVALID \<and> histSize (cBuf s) = 1) [
              modS (\<lambda>s. s\<lparr>mNextHistFetchIdx := - 1\<rparr>)],
            confirmLastText env msgxid m idx,
            (if msgType m = kMsgNormal then richLinkOf env m else doS [])])])]))"

definition msgAlreadySent :: "ChatEnv \<Rightarrow> Id \<Rightarrow> Id \<Rightarrow> chat_step" where
  "msgAlreadySent env msgxid msgid = msgRemoveFromSending env msgxid msgid (\<lambda>r. case r of
     None \<Rightarrow> doS [] | Some m \<Rightarrow> listenS (\<lambda>s. LMessageRejected m 0))"

text \<open>
  The key of the front item is confirmed; every message encrypted to it gets the new id, and its command
  too, which must be there.
\<close>

primrec confirmKeys :: "KeyId \<Rightarrow> KeyId \<Rightarrow> SendingItem list \<Rightarrow> SendingItem list res" where
  "confirmKeys localKeyid kid [] = Inr []"
| "confirmKeys localKeyid kid (it # its) =
    bindR (if keyid (siMsg it) = localKeyid
           then (case siMsgCmd it of None \<Rightarrow> Inl OutOfBounds
                 | Some c \<Rightarrow> Inr (it\<lparr>siMsg := (siMsg it)\<lparr>keyid := kid\<rparr>, siKeyCmd := None, siMsgCmd := Some (mcSetKeyId c kid)\<rparr>))
           else Inr it) (\<lambda>it'.
    bindR (confirmKeys localKeyid kid its) (\<lambda>its'. Inr (it' # its')))"

definition keyConfirm :: "ChatEnv \<Rightarrow> KeyId \<Rightarrow> KeyId \<Rightarrow> chat_step" where
  "keyConfirm env keyxid kid = whenS (\<lambda>s. isValidKeyxId keyxid \<and> mSending s \<noteq> []) [
     getS (\<lambda>s. case siKeyCmd (hd (mSending s)) of None \<Rightarrow> Inl OutOfBounds | Some kc \<Rightarrow> Inr (mLocalKeyid kc)) (\<lambda>localKeyid. doS [
       outS (\<lambda>s. [OCryptoKeyConfirmed localKeyid kid]),
       readS (\<lambda>s. \<exists>it \<in> set (mSending s). keyid (siMsg it) = localKeyid) (\<lambda>found. doS [
         updS (\<lambda>s. bindR (confirmKeys localKeyid kid (mSending s)) (\<lambda>q. Inr (s\<lparr>mSending := q\<rparr>))),
         (if found then modS (\<lambda>s. s\<lparr>cDb := fst (updateSendingItemsKeyid (cDb s) (eChatId env) localKeyid kid)\<rparr>) else doS [])])])]"

definition onKeyReject :: chat_step where
  "onKeyReject = outS (\<lambda>s. [OCryptoKeyRejected])"

section \<open>Rejected edits\<close>

definition dropFront :: chat_step where
  "dropFront = readS (\<lambda>s. siRowid (hd (mSending s))) (\<lambda>r. doS [dbS (\<lambda>d. deleteSendingItem d r), modS (eraseItem 0)])"

definition rejectMsgupd :: "ChatEnv \<Rightarrow> Id \<Rightarrow> byte \<Rightarrow> chat_step" where
  "rejectMsgupd env i serverReason = readS mSending (\<lambda>q. case q of
     [] \<Rightarrow> throwS (RuntimeError ''rejectMsgupd: Send queue is empty'')
   | front # _ \<Rightarrow>
       (if siOpcode front \<noteq> OP_MSGUPD \<and> siOpcode front \<noteq> OP_MSGUPDX
        then throwS (RuntimeError ''rejectMsgupd: Front of send queue does not match'')
        else if mId (siMsg front) \<noteq> i
        then throwS (RuntimeError ''rejectMsgupd: Message msgid/msgxid does not match the one at the front of send queue'')
        else if msgType (siMsg front) = kMsgContainsMeta then dropFront
        else if serverReason = 2
        then doS [listenS (\<lambda>s. LEditRejected (siMsg front) kManualSendEditNoChange), dropFront]
        else moveItemToManualSending env 0 (if serverReason = 0 then kManualSendNoWriteAccess else kManualSendTooOld)))"

text \<open>
  A message update of our own user removes the queued edits it confirms or outdates: which ones, and what
  the handler remembers of the last of them.
\<close>

definition editConfirmed :: "Message \<Rightarrow> SendingItem \<Rightarrow> bool" where
  "editConfirmed c it \<longleftrightarrow> (siOpcode it = OP_MSGUPD \<or> siOpcode it = OP_MSGUPDX) \<and> mId (siMsg it) = mId c \<and>
     (msgType c = kMsgTruncate \<or> updated (siMsg it) \<le> updated c)"

fun eraseEdits :: "Message \<Rightarrow> nat \<Rightarrow> nat \<Rightarrow> Chat \<Rightarrow> u16 \<times> bool \<Rightarrow> Chat \<times> u16 \<times> bool" where
  "eraseEdits c 0 k s acc = (s, acc)"
| "eraseEdits c (Suc n) k s acc =
    (if k < length (mSending s)
     then let it = mSending s ! k
          in if editConfirmed c it
             then eraseEdits c n k (eraseItem k (s\<lparr>cDb := orElse (cDb s) (deleteSendingItem (cDb s) (siRowid it)),
                    mPendingEdits := (mPendingEdits s)(mId c := None)\<rparr>)) (updated (siMsg it), richLinkRemoved (siMsg it))
             else eraseEdits c n (Suc k) s acc
     else (s, acc))"

definition removeOwnEdits :: "ChatEnv \<Rightarrow> Message \<Rightarrow> Chat \<Rightarrow> Chat \<times> u16 \<times> bool" where
  "removeOwnEdits env c s = (if userid c = eMyHandle env then eraseEdits c (length (mSending s)) 0 s (0, False) else (s, 0, False))"

section \<open>Restart and manual sending\<close>

definition replayUnsent :: "SendingItem \<Rightarrow> chat_step" where
  "replayUnsent it =
    (if siOpcode it = OP_NEWMSG \<or> siOpcode it = OP_NEWNODEMSG then listenS (\<lambda>s. LUnsentMsgLoaded (siMsg it))
     else if siOpcode it = OP_MSGUPD
     then doS [modS (\<lambda>s. s\<lparr>mPendingEdits := (mPendingEdits s)(mId (siMsg it) := Some (siRowid it))\<rparr>),
               listenS (\<lambda>s. LUnsentEditLoaded (siMsg it) False)]
     else if siOpcode it = OP_MSGUPDX then listenS (\<lambda>s. LUnsentEditLoaded (siMsg it) True)
     else doS [])"

definition replayUnsentNotifications :: chat_step where
  "replayUnsentNotifications = readS mSending (\<lambda>q. forS q replayUnsent)"

definition loadAndProcessUnsent :: "ChatEnv \<Rightarrow> chat_step" where
  "loadAndProcessUnsent env = doS [
     modS (\<lambda>s. case loadSendQueue (cDb s) (eChatId env) (eMyHandle env) of Inl _ \<Rightarrow> s | Inr q \<Rightarrow> s\<lparr>mSending := q\<rparr>),
     whenS (\<lambda>s. mSending s \<noteq> []) [
       modS (\<lambda>s. s\<lparr>mNextUnsent := Some 0\<rparr>),
       replayUnsentNotifications,
       readS (\<lambda>s. List.find (isValidLastMessage \<circ> siMsg) (rev (mSending s))) (\<lambda>r. case r of
         None \<Rightarrow> doS [] | Some it \<Rightarrow> onLastTextMsgUpdated (siMsg it) CHATD_IDX_INVALID)]]"

definition loadManualSending :: "ChatEnv \<Rightarrow> chat_step" where
  "loadManualSending env = readS (\<lambda>s. loadManualSendItems (cDb s) (eChatId env) (eMyHandle env)) (\<lambda>items.
     forS items (\<lambda>it. listenS (\<lambda>s. LManualSendRequired (msMsg it) (msRowid it) (msReason it))))"

definition resetGetHistory :: chat_step where
  "resetGetHistory = modS (\<lambda>s. s\<lparr>mNextHistFetchIdx := CHATD_IDX_INVALID, mServerOldHistCbEnabled := False\<rparr>)"

definition resetListenerState :: "ChatEnv \<Rightarrow> chat_step" where
  "resetListenerState env = doS [resetGetHistory, replayUnsentNotifications, loadManualSending env]"

text \<open>
  An unknown row leaves the null message of the default item, which is followed.
\<close>

definition removeManualSend :: "ChatEnv \<Rightarrow> nat \<Rightarrow> chat_step" where
  "removeManualSend env rowid = getS (\<lambda>s. case loadManualSendItem (cDb s) (eChatId env) (eMyHandle env) rowid of
       Inl _ \<Rightarrow> Inl OutOfBounds | Inr it \<Rightarrow> Inr (msMsg it)) (\<lambda>m. doS [
     whenS (\<lambda>s. mId m = ltId (mLastTextMsg s)) [findAndNotifyLastTextMsg env],
     modS (\<lambda>s. s\<lparr>cDb := fst (deleteManualSendItem (cDb s) rowid)\<rparr>)])"

end
