(* ===== verification/ChatIncoming.thy ===== *)
theory ChatIncoming
  imports ChatSending
begin

text \<open>
  Messages that arrive (\<open>src/chatd.cpp\<close>): adding to the history, decryption in order, what follows it,
  updates of messages, attachments fetched on their own, reactions.

  The crypto module decrypts at once, later or not at all.  A delayed decryption halts the ones behind it
  and is continued by \<open>onDecrypted\<close> or \<open>onDecryptFailed\<close>; a failure that is known at once continues
  at once, as the callbacks of a promise that has already failed do.
\<close>

datatype DecErr = EExpired | ENoMsg | ENoKey | ESignature | ENoType | EMalformed

datatype DecResult = DecNow Message | DecLater | DecFail DecErr

record RecvEnv =
  reEnv :: ChatEnv
  reDecrypt :: "Message \<Rightarrow> DecResult"

text \<open>The encryption state after a failure; none when the message is not processed further.\<close>

definition encOfErr :: "DecErr \<Rightarrow> byte option" where
  "encOfErr e = (case e of EExpired \<Rightarrow> None | ENoMsg \<Rightarrow> None | ENoKey \<Rightarrow> Some kEncryptedNoKey
     | ESignature \<Rightarrow> Some kEncryptedSignature | ENoType \<Rightarrow> Some kEncryptedNoType | EMalformed \<Rightarrow> Some kEncryptedMalformed)"

section \<open>After decryption\<close>

text \<open>A decrypted normal message that starts with a null byte has its type in the second one.\<close>

definition specialType :: "Message \<Rightarrow> Message" where
  "specialType m = (if mData m \<noteq> [] \<and> msgType m = kMsgNormal \<and> hd (mData m) = 0 \<and> \<not> length (mData m) < 2
     then m\<lparr>msgType := mData m ! 1 + kMsgOffset\<rparr> else m)"

definition verifyMsgOrder :: "Message \<Rightarrow> Idx \<Rightarrow> chat_step" where
  "verifyMsgOrder m idx = whenS (\<lambda>s. \<exists>ref \<in> set (backRefs m). ref \<noteq> 0 \<and>
       (case mRefidToIdxMap s ref of None \<Rightarrow> False | Some t \<Rightarrow> t \<ge> idx))
     [listenS (\<lambda>s. LMsgOrderVerificationFail m idx), outS (\<lambda>s. [OStats 99000])]"

definition lastTextOnIncoming :: "ChatEnv \<Rightarrow> Message \<Rightarrow> Idx \<Rightarrow> chat_step" where
  "lastTextOnIncoming env m idx =
    (if \<not> isValidLastMessage m then doS []
     else readS mLastTextMsg (\<lambda>l.
       if \<not> ltIsValid l \<or> ltIdx l = CHATD_IDX_INVALID \<or> idx > ltIdx l then onLastTextMsgUpdated m idx
       else if idx = ltIdx l \<and> \<not> ltIsNotified l then notifyLastTextMsg
       else doS []))"

text \<open>Everything that follows the cache, for the message as it is now.\<close>

definition deliverMsg :: "ChatEnv \<Rightarrow> bool \<Rightarrow> bool \<Rightarrow> Message \<Rightarrow> Idx \<Rightarrow> chat_step" where
  "deliverMsg env isNew isLocal m idx = doS [
     (if backRefId m \<noteq> 0 then addRefid (backRefId m) idx m else doS []),
     (if eIsPublic env \<and> userid m \<noteq> eMyHandle env then outS (\<lambda>s. [ORequestUserAttributes (userid m)]) else doS []),
     readS (\<lambda>s. getMsgStatus env s m idx) (\<lambda>status.
       if isNew then doS [
         (if unat (ts m) > eUserLastMsgTs env (userid m) then outS (\<lambda>s. [OLastGreen (userid m) (ts m)]) else doS []),
         listenS (\<lambda>s. LRecvNewMessage idx m status)]
       else whenS (\<lambda>s. isLocal \<or> (mServerOldHistCbEnabled s \<and> eRoomOpened env)) [
         listenS (\<lambda>s. LRecvHistoryMessage idx m status isLocal)]),
     (if msgType m = kMsgTruncate \<and> isNew then handleTruncate env m idx else doS []),
     whenS (\<lambda>s. isValidUnread m (eMyHandle env) \<and> (isNew \<or> mLastSeenIdx s = CHATD_IDX_INVALID)) [calculateUnreadCount env],
     lastTextOnIncoming env m idx]"

definition storeIncoming :: "ChatEnv \<Rightarrow> bool \<Rightarrow> Message \<Rightarrow> Idx \<Rightarrow> chat_step" where
  "storeIncoming env checkRetentionHist m idx = doS [
     verifyMsgOrder m idx,
     dbS (\<lambda>d. addMsgToHistory d (eChatId env) m idx),
     (if checkRetentionHist then handleRetentionTime env True else doS []),
     stillAlive idx,
     whenS (\<lambda>s. eReceivedConfirmation env \<and> \<not> eIsGroup env \<and> userid m \<noteq> eMyHandle env \<and>
         (mLastIdxReceivedFromServer s = CHATD_IDX_INVALID \<or> idx > mLastIdxReceivedFromServer s)) [
       modS (\<lambda>s. s\<lparr>mLastIdxReceivedFromServer := idx\<rparr>),
       sendCommand env (\<lambda>s. cmdAddId (cmdAddId (newCommand OP_RECEIVED) (eChatId env)) (mId m))]]"

definition msgIncomingAfterDecrypt :: "ChatEnv \<Rightarrow> bool \<Rightarrow> bool \<Rightarrow> Message \<Rightarrow> Idx \<Rightarrow> chat_step" where
  "msgIncomingAfterDecrypt env isNew isLocal m0 idx = doS [
     (if \<not> isNew then modS (\<lambda>s. s\<lparr>mLastHistDecryptCount := Suc (mLastHistDecryptCount s)\<rparr>) else doS []),
     readS (\<lambda>s. mOldestIdxInDb s = CHATD_IDX_INVALID) (\<lambda>checkRetentionHist.
     let m = (if isLocal then m0 else specialType m0) in doS [
       whenS (\<lambda>s. mOldestIdxInDb s = CHATD_IDX_INVALID \<or> idx < mOldestIdxInDb s) [modS (\<lambda>s. s\<lparr>mOldestIdxInDb := idx\<rparr>)],
       (if isLocal then doS []
        else doS [modS (\<lambda>s. s\<lparr>cBuf := setAt (cBuf s) idx m\<rparr>), storeIncoming env checkRetentionHist m idx]),
       (if \<not> isNew \<and> isLocal
        then doS [(if msgType m = kMsgAttachment then fhAddS env (copyMessage m) isNew isLocal (\<lambda>_. doS []) else doS []),
                  deliverMsg env isNew isLocal m idx]
        else withAttachment env m isNew idx (\<lambda>m'. deliverMsg env isNew isLocal m' idx))])]"

section \<open>Decryption in order\<close>

definition haltedAt :: "bool \<Rightarrow> Chat \<Rightarrow> Idx" where
  "haltedAt isNew s = (if isNew then mDecryptNewHaltedAt s else mDecryptOldHaltedAt s)"

definition setHalted :: "bool \<Rightarrow> Idx \<Rightarrow> Chat \<Rightarrow> Chat" where
  "setHalted isNew i s = (if isNew then s\<lparr>mDecryptNewHaltedAt := i\<rparr> else s\<lparr>mDecryptOldHaltedAt := i\<rparr>)"

text \<open>
  The callback after a delayed decryption: the message goes on, then \<open>loop last first\<close> tries the ones
  behind it; when all are done, the fetch is over.
\<close>

definition decryptDone :: "bool \<Rightarrow> chat_step" where
  "decryptDone isNew =
    (if isNew then whenS (\<lambda>s. mServerFetchState s = kHistDecryptingNew \<and> mDecryptNewHaltedAt s = CHATD_IDX_INVALID) [
       modS (\<lambda>s. s\<lparr>mServerFetchState := kHistNotFetching\<rparr>)]
     else whenS (\<lambda>s. mServerFetchState s = kHistDecryptingOld \<and> mDecryptOldHaltedAt s = CHATD_IDX_INVALID) [
       modS (\<lambda>s. s\<lparr>mServerFetchState := kHistNotFetching\<rparr>),
       whenS mServerOldHistCbEnabled [listenS (\<lambda>s. LHistoryDone kHistSourceServer)]])"

definition decryptRest :: "ChatEnv \<Rightarrow> bool \<Rightarrow> (Idx \<Rightarrow> Idx \<Rightarrow> chat_step) \<Rightarrow> Idx \<Rightarrow> chat_step" where
  "decryptRest env isNew loop idx = getS (\<lambda>s. at (cBuf s) idx) (\<lambda>m. doS [
     msgIncomingAfterDecrypt env isNew False m idx,
     readS (haltedAt isNew) (\<lambda>h. doS [
       modS (setHalted isNew CHATD_IDX_INVALID),
       readS (\<lambda>s. if isNew then highnum (cBuf s) else lownum (cBuf s)) (\<lambda>lst.
         loop lst (if isNew then h + 1 else h - 1))]),
     decryptDone isNew])"

definition decryptFailed :: "ChatEnv \<Rightarrow> bool \<Rightarrow> (Idx \<Rightarrow> Idx \<Rightarrow> chat_step) \<Rightarrow> Idx \<Rightarrow> DecErr \<Rightarrow> chat_step" where
  "decryptFailed env isNew loop idx err = (case encOfErr err of
     None \<Rightarrow> doS []
   | Some enc \<Rightarrow> doS [
       getS (\<lambda>s. at (cBuf s) idx) (\<lambda>m. modS (\<lambda>s. s\<lparr>cBuf := setAt (cBuf s) idx (m\<lparr>mIsEncrypted := enc\<rparr>)\<rparr>)),
       decryptRest env isNew loop idx])"

text \<open>\<open>msgIncomingAfterAdd\<close> for a message from the server; the continuation gets its result.\<close>

definition afterAdd :: "RecvEnv \<Rightarrow> bool \<Rightarrow> (Idx \<Rightarrow> Idx \<Rightarrow> chat_step) \<Rightarrow> Idx \<Rightarrow> (bool \<Rightarrow> chat_step) \<Rightarrow> chat_step" where
  "afterAdd e isNew loop idx cont = getS (\<lambda>s. at (cBuf s) idx) (\<lambda>m.
     if mIsEncrypted m = kNotEncrypted then doS [msgIncomingAfterDecrypt (reEnv e) isNew False m idx, cont True]
     else if \<not> isPendingToDecrypt m \<and> mIsEncrypted m \<noteq> kEncryptedNoType then cont True
     else ifS (\<lambda>s. haltedAt isNew s \<noteq> CHATD_IDX_INVALID) [cont False] [
       (case reDecrypt e m of
          DecNow m' \<Rightarrow> doS [
            modS (\<lambda>s. s\<lparr>cBuf := setAt (cBuf s) idx m'\<rparr>),
            msgIncomingAfterDecrypt (reEnv e) isNew False m' idx, cont True]
        | DecLater \<Rightarrow> doS [modS (setHalted isNew idx), outS (\<lambda>s. [OCryptoDecrypt idx isNew]), cont False]
        | DecFail err \<Rightarrow> doS [modS (setHalted isNew idx), decryptFailed (reEnv e) isNew loop idx err, cont False])])"

text \<open>The loop over the messages behind; \<open>n\<close> bounds its rounds, the messages in memory being enough.\<close>

primrec decryptLoop :: "RecvEnv \<Rightarrow> bool \<Rightarrow> nat \<Rightarrow> Idx \<Rightarrow> Idx \<Rightarrow> chat_step" where
  "decryptLoop e isNew 0 lst i = doS []"
| "decryptLoop e isNew (Suc n) lst i =
    (if (if isNew then i \<le> lst else i \<ge> lst)
     then afterAdd e isNew (decryptLoop e isNew n) i
       (\<lambda>ok. if ok then decryptLoop e isNew n lst (if isNew then i + 1 else i - 1) else doS [])
     else doS [])"

definition withLoop :: "RecvEnv \<Rightarrow> bool \<Rightarrow> ((Idx \<Rightarrow> Idx \<Rightarrow> chat_step) \<Rightarrow> chat_step) \<Rightarrow> chat_step" where
  "withLoop e isNew k = readS (\<lambda>s. Suc (nat (histSize (cBuf s)))) (\<lambda>n. k (decryptLoop e isNew n))"

definition onDecrypted :: "RecvEnv \<Rightarrow> bool \<Rightarrow> Idx \<Rightarrow> Message \<Rightarrow> chat_step" where
  "onDecrypted e isNew idx m' = withLoop e isNew (\<lambda>loop. doS [
     modS (\<lambda>s. s\<lparr>cBuf := setAt (cBuf s) idx m'\<rparr>), decryptRest (reEnv e) isNew loop idx])"

definition onDecryptFailed :: "RecvEnv \<Rightarrow> bool \<Rightarrow> Idx \<Rightarrow> DecErr \<Rightarrow> chat_step" where
  "onDecryptFailed e isNew idx err = withLoop e isNew (\<lambda>loop. decryptFailed (reEnv e) isNew loop idx err)"

text \<open>
  A message from the cache is decrypted already, except one of a management type that was not known:
  the decryption is tried again.
\<close>

definition localDecrypted :: "ChatEnv \<Rightarrow> bool \<Rightarrow> Message \<Rightarrow> Idx \<Rightarrow> chat_step" where
  "localDecrypted env isNew m idx = doS [
     modS (\<lambda>s. s\<lparr>cBuf := setAt (cBuf s) idx m\<rparr>),
     (if mIsEncrypted m \<noteq> kEncryptedNoType then dbS (\<lambda>d. updateMsgInHistory d (eChatId env) (mId m) m) else doS []),
     msgIncomingAfterDecrypt env isNew True m idx]"

definition afterAddLocal :: "RecvEnv \<Rightarrow> bool \<Rightarrow> Message \<Rightarrow> Idx \<Rightarrow> chat_step" where
  "afterAddLocal e isNew m idx =
    (if mIsEncrypted m \<noteq> kEncryptedNoType then msgIncomingAfterDecrypt (reEnv e) isNew True m idx
     else case reDecrypt e m of
       DecNow m' \<Rightarrow> localDecrypted (reEnv e) isNew m' idx
     | DecLater \<Rightarrow> outS (\<lambda>s. [OCryptoDecrypt idx isNew])
     | DecFail err \<Rightarrow>
         (if err = EExpired then doS []
          else localDecrypted (reEnv e) isNew (if err = ENoType then m else m\<lparr>mIsEncrypted := kEncryptedMalformed\<rparr>) idx))"

section \<open>Arrival\<close>

text \<open>
  A history message while the cache holds older ones is a case the code takes for impossible
  (\<open>assert(false)\<close>).
\<close>

definition msgIncoming :: "RecvEnv \<Rightarrow> bool \<Rightarrow> Message \<Rightarrow> bool \<Rightarrow> chat_step" where
  "msgIncoming e isNew m isLocal =
    (if isNew
     then whenS (\<lambda>s. mIdToIndexMap (cBuf s) (mId m) = None) [
       modS (\<lambda>s. s\<lparr>cBuf := addNewest (cBuf s) m\<rparr>),
       readS (\<lambda>s. highnum (cBuf s)) (\<lambda>idx. doS [
         whenS (\<lambda>s. mOldestKnownMsgId s = Id_null) [modS (\<lambda>s. s\<lparr>mOldestKnownMsgId := mId m\<rparr>)],
         whenS (\<lambda>s. mNextHistFetchIdx s = CHATD_IDX_INVALID \<and> histSize (cBuf s) = 1) [
           modS (\<lambda>s. s\<lparr>mNextHistFetchIdx := - 1\<rparr>)],
         handleLastReceivedSeen (reEnv e) (mId m),
         withLoop e True (\<lambda>loop. afterAdd e True loop idx (\<lambda>_. doS []))])]
     else if \<not> isLocal
     then doS [
       modS (\<lambda>s. s\<lparr>mLastServerHistFetchCount := Suc (mLastServerHistFetchCount s)\<rparr>),
       ifS mHasMoreHistoryInDb [throwS AssertFail] [
         modS (\<lambda>s. s\<lparr>cBuf := addOldest (cBuf s) m\<rparr>),
         readS (\<lambda>s. lownum (cBuf s)) (\<lambda>idx. doS [
           modS (\<lambda>s. s\<lparr>mOldestKnownMsgId := mId m\<rparr>),
           handleLastReceivedSeen (reEnv e) (mId m),
           withLoop e False (\<lambda>loop. afterAdd e False loop idx (\<lambda>_. doS []))])]]
     else doS [
       modS (\<lambda>s. s\<lparr>cBuf := addOldest (cBuf s) m\<rparr>),
       readS (\<lambda>s. lownum (cBuf s)) (\<lambda>idx. doS [
         whenS (\<lambda>s. mId m = mOldestKnownMsgId s) [modS (\<lambda>s. s\<lparr>mHasMoreHistoryInDb := False\<rparr>)],
         handleLastReceivedSeen (reEnv e) (mId m),
         afterAddLocal e False m idx])])"

section \<open>Updates\<close>

text \<open>What follows an update of a message in memory; \<open>h0\<close> is the message before, \<open>h\<close> after it.\<close>

definition updatedInRam :: "ChatEnv \<Rightarrow> Message \<Rightarrow> Message \<Rightarrow> Message \<Rightarrow> Idx \<Rightarrow> chat_step" where
  "updatedInRam env m h0 h idx = doS [
     modS (\<lambda>s. s\<lparr>cBuf := setAt (cBuf s) idx h\<rparr>),
     whenS (\<lambda>s. idx > mNextHistFetchIdx s) [listenS (\<lambda>s. LMessageEdited h idx)],
     (if isDeleted m then doS [
        (if \<not> isOwnMessage m (eMyHandle env) then calculateUnreadCount env else doS []),
        (if msgType h0 = kMsgAttachment then fhS (\<lambda>st. Inr (fhDeleteMessage (eChatId env) st m)) else doS []),
        readS (\<lambda>s. msgIndexFromId (cBuf s) (mId m)) (\<lambda>i. removeMessageReactions i False),
        dbS (\<lambda>d. Inr (dbCleanReactions d (eChatId env) (mId m))),
        dbS (\<lambda>d. Inr (dbCleanPendingReactions d (eChatId env) (mId m)))] else doS []),
     (if msgType m = kMsgTruncate then handleTruncate env m idx else doS []),
     whenS (\<lambda>s. ltIdx (mLastTextMsg s) = idx) [
       readS (\<lambda>s. findOrNull (cBuf s) idx) (\<lambda>h'. case h' of None \<Rightarrow> throwS OutOfBounds
         | Some h' \<Rightarrow> if isValidLastMessage h' then onLastTextMsgUpdated h' idx else findAndNotifyLastTextMsg env)]]"

definition onMsgUpdatedAfterDecrypt :: "ChatEnv \<Rightarrow> u16 \<Rightarrow> bool \<Rightarrow> Message \<Rightarrow> chat_step" where
  "onMsgUpdatedAfterDecrypt env updateTs richRemoved m0 = (let m = specialType m0 in
     readS (\<lambda>s. mIdToIndexMap (cBuf s) (mId m)) (\<lambda>it. case it of
       Some idx \<Rightarrow> getS (\<lambda>s. at (cBuf s) idx) (\<lambda>h0.
         if (msgType m = kMsgTruncate \<and> msgType h0 = msgType m \<and> ts h0 = ts m) \<or>
            (msgType m \<noteq> kMsgTruncate \<and> updated h0 = updated m)
         then doS []
         else doS [
           (if mData m \<noteq> [] \<and> msgType m = kMsgNormal \<and> \<not> richRemoved \<and> updateTs \<noteq> 0 \<and> updateTs = updated m
            then richLinkOf env m else doS []),
           dbS (\<lambda>d. updateMsgInHistory d (eChatId env) (mId m) m),
           (let h1 = h0\<lparr>mData := mData m, updated := updated m, msgType := msgType m, userid := userid m, mIsEncrypted := mIsEncrypted m\<rparr>;
                h = (if msgType m = kMsgTruncate then h1\<lparr>ts := ts m, keyid := keyid m\<rparr> else h1)
            in updatedInRam env m h0 h idx)])
     | None \<Rightarrow> doS [
         readS (\<lambda>s. case getMessageDelta (cDb s) (eChatId env) (mId m) of Inl _ \<Rightarrow> 0 | Inr d \<Rightarrow> d) (\<lambda>delta.
           if delta < updated m then dbS (\<lambda>d. updateMsgInHistory d (eChatId env) (mId m) m) else doS []),
         (if isDeleted m then fhS (\<lambda>st. Inr (fhDeleteMessage (eChatId env) st m)) else doS [])]))"

definition onMsgUpdated :: "RecvEnv \<Rightarrow> Message \<Rightarrow> chat_step" where
  "onMsgUpdated e c = readS (\<lambda>s. removeOwnEdits (reEnv e) c s) (\<lambda>(s', updateTs, richRemoved). doS [
     modS (\<lambda>_. s'),
     (if mIsEncrypted c = kNotEncrypted then onMsgUpdatedAfterDecrypt (reEnv e) updateTs richRemoved c
      else case reDecrypt e c of
        DecNow m \<Rightarrow> onMsgUpdatedAfterDecrypt (reEnv e) updateTs richRemoved m
      | DecLater \<Rightarrow> outS (\<lambda>s. [OCryptoDecryptUpdate c])
      | DecFail err \<Rightarrow> (case encOfErr err of None \<Rightarrow> doS []
          | Some enc \<Rightarrow> onMsgUpdatedAfterDecrypt (reEnv e) updateTs richRemoved (c\<lparr>mIsEncrypted := enc\<rparr>)))])"

section \<open>Attachments fetched on their own\<close>

definition attachmentHistDone :: chat_step where
  "attachmentHistDone = doS [
     whenS (\<lambda>s. mAttachNodesReceived s < mAttachNodesRequestedToServer s) [
       modS (\<lambda>s. s\<lparr>cFh := fhSetHaveAllHistory (cFh s) True\<rparr>)],
     modS (\<lambda>s. s\<lparr>mAttachNodesReceived := 0, mAttachNodesRequestedToServer := 0\<rparr>),
     fhS fhFinishFetchingFromServer]"

text \<open>
  \<open>msgNodeHistIncoming\<close>.  The queue of messages waiting for decryption is worked off with its front still
  in it: a message that fails at once is deleted by its callback, which then finds it at the front again.
\<close>

definition nodeAdd :: "ChatEnv \<Rightarrow> Message \<Rightarrow> chat_step" where
  "nodeAdd env m = fhS (\<lambda>st. bindR (fhAddMessage (eChatId env) st m False False) (\<lambda>(st', _). Inr st'))"

definition nodeInLoop :: "RecvEnv \<Rightarrow> Message \<Rightarrow> (bool \<Rightarrow> chat_step) \<Rightarrow> chat_step" where
  "nodeInLoop e m cont = doS [
     modS (\<lambda>s. s\<lparr>mAttachNodesReceived := mAttachNodesReceived s + 1\<rparr>),
     (case reDecrypt e m of
        DecNow m' \<Rightarrow> doS [nodeAdd (reEnv e) m', cont True]
      | DecLater \<Rightarrow> doS [modS (\<lambda>s. s\<lparr>mDecryptionAttachmentsHalted := True\<rparr>), outS (\<lambda>s. [OCryptoDecryptNode m]), cont False]
      | DecFail _ \<Rightarrow> throwS OutOfBounds)]"

primrec nodeLoop :: "RecvEnv \<Rightarrow> nat \<Rightarrow> (bool \<Rightarrow> chat_step) \<Rightarrow> chat_step" where
  "nodeLoop e 0 cont = cont True"
| "nodeLoop e (Suc n) cont = readS mAttachmentsPendingToDecrypt (\<lambda>q. case q of
     [] \<Rightarrow> cont True
   | m # _ \<Rightarrow> nodeInLoop e m (\<lambda>ok. doS [
       modS (\<lambda>s. s\<lparr>mAttachmentsPendingToDecrypt := tl (mAttachmentsPendingToDecrypt s)\<rparr>),
       if ok then nodeLoop e n cont else cont False]))"

definition nodeResume :: "RecvEnv \<Rightarrow> bool \<Rightarrow> chat_step" where
  "nodeResume e failed = doS [
     modS (\<lambda>s. s\<lparr>mTruncateAttachment := False, mDecryptionAttachmentsHalted := False\<rparr>),
     readS (\<lambda>s. length (mAttachmentsPendingToDecrypt s)) (\<lambda>n. nodeLoop e n (\<lambda>decrypt.
       whenS (\<lambda>s. (mAttachmentsPendingToDecrypt s = []) = (\<not> failed) \<and> decrypt \<and> mAttachmentHistDoneReceived s)
         [attachmentHistDone]))]"

definition msgNodeHistIncoming :: "RecvEnv \<Rightarrow> Message \<Rightarrow> chat_step" where
  "msgNodeHistIncoming e m = doS [
     modS (\<lambda>s. s\<lparr>mAttachNodesReceived := mAttachNodesReceived s + 1\<rparr>),
     ifS mDecryptionAttachmentsHalted [
       modS (\<lambda>s. s\<lparr>mAttachmentsPendingToDecrypt := mAttachmentsPendingToDecrypt s @ [m]\<rparr>)]
     [(case reDecrypt e m of
         DecNow m' \<Rightarrow> nodeAdd (reEnv e) m'
       | DecLater \<Rightarrow> doS [modS (\<lambda>s. s\<lparr>mDecryptionAttachmentsHalted := True\<rparr>), outS (\<lambda>s. [OCryptoDecryptNode m])]
       | DecFail _ \<Rightarrow> nodeResume e True)]]"

definition onNodeDecrypted :: "RecvEnv \<Rightarrow> Message \<Rightarrow> chat_step" where
  "onNodeDecrypted e m = doS [whenS (\<lambda>s. \<not> mTruncateAttachment s) [nodeAdd (reEnv e) m], nodeResume e False]"

definition onNodeDecryptFailed :: "RecvEnv \<Rightarrow> chat_step" where
  "onNodeDecryptFailed e = nodeResume e True"

section \<open>Reactions\<close>

text \<open>
  A reaction decrypted at once is added or removed; the callback of a delayed decryption refers to
  variables of a call that has returned.
\<close>

datatype ReactResult = ReactNow string | ReactLater | ReactFail

definition reactionDecrypted :: "ChatEnv \<Rightarrow> Opcode \<Rightarrow> Id \<Rightarrow> Idx \<Rightarrow> Id \<Rightarrow> string \<Rightarrow> chat_step" where
  "reactionDecrypted env op msgid idx u r = doS [
     (if op = OP_ADDREACTION then dbS (\<lambda>d. dbAddReaction d (eChatId env) msgid u r)
      else dbS (\<lambda>d. Inr (dbDelReaction d (eChatId env) msgid u r))),
     whenS (\<lambda>s. u = eMyHandle env \<and> \<not> isFetchingHistory s) [
       removePendingReaction r msgid,
       dbS (\<lambda>d. Inr (dbDelPendingReaction d (eChatId env) msgid r))],
     (if idx = CHATD_IDX_INVALID then doS []
      else getS (\<lambda>s. at (cBuf s) idx) (\<lambda>m.
        let rs = (if op = OP_ADDREACTION then addReaction (mReactions m) r u else delReaction (mReactions m) r u) in doS [
          modS (\<lambda>s. s\<lparr>cBuf := setAt (cBuf s) idx (m\<lparr>mReactions := rs\<rparr>)\<rparr>),
          listenS (\<lambda>s. LReactionUpdate msgid r (getReactionCount rs r))]))]"

definition onReaction :: "ChatEnv \<Rightarrow> (Id \<Rightarrow> Id \<Rightarrow> KeyId \<Rightarrow> bytes \<Rightarrow> ReactResult) \<Rightarrow> Opcode \<Rightarrow> Id \<Rightarrow> Id \<Rightarrow> bytes \<Rightarrow> chat_step" where
  "onReaction env dec op msgid u reaction =
    (if reaction = [] then doS []
     else readS (\<lambda>s. msgIndexFromId (cBuf s) msgid) (\<lambda>i.
       let proceed = (\<lambda>idx author k. case dec msgid author k reaction of
             ReactNow r \<Rightarrow> reactionDecrypted env op msgid idx u r
           | ReactLater \<Rightarrow> outS (\<lambda>s. [OCryptoDecryptReaction op msgid idx u])
           | ReactFail \<Rightarrow> doS [])
       in if i \<noteq> CHATD_IDX_INVALID
          then getS (\<lambda>s. at (cBuf s) i) (\<lambda>m. if isManagementMessage m then doS [] else proceed i (userid m) (keyid m))
          else readS (\<lambda>s. isValidReactedMessage (cDb s) msgid) (\<lambda>(valid, idx).
            if \<not> valid then doS []
            else getS (\<lambda>s. getMessageUserKeyId (cDb s) msgid) (\<lambda>(author, k). proceed idx author k))))"

definition onReactionDecryptedLater :: chat_step where
  "onReactionDecryptedLater = throwS OutOfBounds"

definition onReactionSn :: "ChatEnv \<Rightarrow> Id \<Rightarrow> chat_step" where
  "onReactionSn env rsn = whenS (\<lambda>s. mReactionSn s \<noteq> rsn) [
     modS (\<lambda>s. s\<lparr>mReactionSn := rsn\<rparr>), dbS (\<lambda>d. setReactionSn d (eChatId env) (Id_toString rsn 8))]"

end
