(* ===== verification/ChatFetch.thy ===== *)
theory ChatFetch
  imports ChatIncoming
begin

text \<open>
  Fetching the history, logging into chatd and the members of a chat (\<open>src/chatd.cpp\<close>), and the creation
  of a chat.  Work put off to another turn of the event loop is an entry of \<open>cOut\<close>, its execution a step
  of its own.
\<close>

section \<open>Requests to the server\<close>

definition le32s :: "int \<Rightarrow> u32" where
  "le32s i = word_of_int i"

definition requestHistoryFromServer :: "ChatEnv \<Rightarrow> int \<Rightarrow> chat_step" where
  "requestHistoryFromServer env count = doS [
     modS (\<lambda>s. s\<lparr>mLastServerHistFetchCount := 0, mLastHistDecryptCount := 0,
       mServerFetchState := (if count > 0 then kHistFetchingNewFromServer else kHistFetchingOldFromServer),
       mLastServerRequested := count, mFetchRequest := mFetchRequest s @ [kFetchMessages]\<rparr>),
     sendCommand env (\<lambda>s. cmdAdd32 (cmdAddId (newCommand OP_HIST) (eChatId env)) (le32s count))]"

text \<open>\<open>OFetchHistory\<close> and \<open>OAttachments (FhRequest ..)\<close> are executed by these two.\<close>

definition onFetchHistory :: "ChatEnv \<Rightarrow> nat \<Rightarrow> chat_step" where
  "onFetchHistory env count = requestHistoryFromServer env (- int count)"

definition onNodeHistoryRequest :: "ChatEnv \<Rightarrow> Id \<Rightarrow> u32 \<Rightarrow> chat_step" where
  "onNodeHistoryRequest env oldestMsgid count = ifS (\<lambda>s. \<not> isLoggedIn s) [fhS fhFinishFetchingFromServer] [
     modS (\<lambda>s. s\<lparr>mFetchRequest := mFetchRequest s @ [kFetchNodeHistory], mAttachNodesRequestedToServer := count,
       mAttachmentHistDoneReceived := False\<rparr>),
     sendCommand env (\<lambda>s. cmdAdd32 (cmdAddId (cmdAddId (newCommand OP_NODEHIST) (eChatId env)) oldestMsgid) (- count))]"

definition onLastTextFetch :: "ChatEnv \<Rightarrow> chat_step" where
  "onLastTextFetch env = whenS (\<lambda>s. \<not> ltIsValid (mLastTextMsg s)) [
     ifS isFetchingFromServer [modS (\<lambda>s. s\<lparr>mLastTextMsg := (mLastTextMsg s)\<lparr>ltState := ltFetching\<rparr>\<rparr>)] [
       whenS isLoggedIn [
         modS (\<lambda>s. s\<lparr>mServerOldHistCbEnabled := False\<rparr>),
         requestHistoryFromServer env (- int initialHistoryFetchCount),
         modS (\<lambda>s. s\<lparr>mLastTextMsg := (mLastTextMsg s)\<lparr>ltState := ltFetching\<rparr>\<rparr>)]]]"

section \<open>History for the application\<close>

definition loadReactions :: "ChatdDb \<Rightarrow> Id \<Rightarrow> Message \<Rightarrow> Message" where
  "loadReactions d c m = m\<lparr>mReactions := foldl (\<lambda>rs (r, u). addReaction rs r u) (mReactions m) (dbGetReactions d c (mId m))\<rparr>"

definition getHistoryFromDb :: "RecvEnv \<Rightarrow> nat \<Rightarrow> chat_step" where
  "getHistoryFromDb e count = (let env = reEnv e in
     readS (\<lambda>s. fetchDbHistory (cDb s) (eChatId env) (lownum (cBuf s) - 1) count) (\<lambda>messages. doS [
       forS messages (\<lambda>m. readS (\<lambda>s. loadReactions (cDb s) (eChatId env) m) (\<lambda>m'. msgIncoming e False m' True)),
       modS (\<lambda>s. s\<lparr>mNextHistFetchIdx := (if mNextHistFetchIdx s = CHATD_IDX_INVALID
         then mForwardStart (cBuf s) - 1 - int (length messages) else mNextHistFetchIdx s - int (length messages))\<rparr>),
       readS (\<lambda>s. dbGetPendingReactions (cDb s) (eChatId env)) (\<lambda>ps. forS ps addPendingReaction),
       listenS (\<lambda>s. LHistoryDone kHistSourceDb),
       whenS (\<lambda>s. length messages < count \<and> mHasMoreHistoryInDb s) [
         outS (\<lambda>s. [OStats 99018]),
         getDbHistInfoAndInitOldestKnownMsgId env (\<lambda>_. doS []),
         modS (\<lambda>s. s\<lparr>mHasMoreHistoryInDb := hasMoreHistoryInDb s\<rparr>)]]))"

definition getHistoryFromDbOrServer :: "RecvEnv \<Rightarrow> nat \<Rightarrow> (HistSource \<Rightarrow> chat_step) \<Rightarrow> chat_step" where
  "getHistoryFromDbOrServer e count cont = ifS mHasMoreHistoryInDb
     [getHistoryFromDb e count, cont kHistSourceDb]
     [ifS mHaveAllHistory [cont kHistSourceNone]
       [ifS (\<lambda>s. (ePreviewMode (reEnv e) \<and> mOwnPrivilege s = privVal PRIV_NOTPRESENT) \<or> \<not> isLoggedIn s) [cont kHistSourceNotLoggedIn] [
          whenS (\<lambda>s. mServerFetchState s AND kHistOldFlag = 0) [outS (\<lambda>s. [OFetchHistory count])],
          modS (\<lambda>s. s\<lparr>mServerOldHistCbEnabled := True\<rparr>),
          cont kHistSourceServer]]]"

text \<open>
  \<open>getHistory\<close>: first what memory holds.  The loop ends early at a message that is still encrypted, the
  count and the position do not.
\<close>

definition historyFromRam :: "ChatEnv \<Rightarrow> Idx \<Rightarrow> Idx \<Rightarrow> chat_step" where
  "historyFromRam env start fetchEnd = readS (\<lambda>s. takeWhile (\<lambda>i. case findOrNull (cBuf s) i of
         None \<Rightarrow> False | Some m \<Rightarrow> \<not> isPendingToDecrypt m) (downTo start (fetchEnd + 1))) (\<lambda>is.
     forS is (\<lambda>i. getS (\<lambda>s. at (cBuf s) i) (\<lambda>m. listenS (\<lambda>s. LRecvHistoryMessage i m (getMsgStatus env s m i) True))))"

definition getHistory :: "RecvEnv \<Rightarrow> nat \<Rightarrow> (HistSource \<Rightarrow> chat_step) \<Rightarrow> chat_step" where
  "getHistory e count cont = ifS isNotifyingOldHistFromServer [cont kHistSourceServer] [
     whenS (\<lambda>s. mNextHistFetchIdx s = CHATD_IDX_INVALID \<and> \<not> histEmpty (cBuf s)) [
       modS (\<lambda>s. s\<lparr>mNextHistFetchIdx := highnum (cBuf s)\<rparr>)],
     readS (\<lambda>s. (mNextHistFetchIdx s, lownum (cBuf s) - 1)) (\<lambda>(next, end).
       let inRam = (next \<noteq> CHATD_IDX_INVALID \<and> next > end);
           fetchEnd = max (next - int count) end;
           countSoFar = (if inRam then nat (next - fetchEnd) else 0)
       in doS [
         (if inRam then doS [historyFromRam (reEnv e) next fetchEnd,
            modS (\<lambda>s. s\<lparr>mNextHistFetchIdx := mNextHistFetchIdx s - int countSoFar\<rparr>)] else doS []),
         (if inRam \<and> countSoFar \<ge> count
          then doS [listenS (\<lambda>s. LHistoryDone kHistSourceRam), cont kHistSourceRam]
          else getHistoryFromDbOrServer e (count - countSoFar) (\<lambda>nextSource.
            if nextSource = kHistSourceNone
            then (let source = (if countSoFar > 0 then kHistSourceRam else kHistSourceNone)
                  in doS [listenS (\<lambda>s. LHistoryDone source), cont source])
            else doS [(if nextSource = kHistSourceDb \<or> nextSource = kHistSourceNotLoggedIn
                       then listenS (\<lambda>s. LHistoryDone nextSource) else doS []), cont nextSource]))])]"

section \<open>The end of a fetch\<close>

definition onFetchHistDone :: "RecvEnv \<Rightarrow> chat_step" where
  "onFetchHistDone e = (let env = reEnv e in
     readS (\<lambda>s. mServerFetchState s AND kHistOldFlag \<noteq> 0) (\<lambda>fetchingOld. doS [
       (if fetchingOld then doS [
          ifS (\<lambda>s. mDecryptOldHaltedAt s \<noteq> CHATD_IDX_INVALID) [modS (\<lambda>s. s\<lparr>mServerFetchState := kHistDecryptingOld\<rparr>)] [
            modS (\<lambda>s. s\<lparr>mServerFetchState := kHistNotFetching\<rparr>),
            whenS (\<lambda>s. \<not> mIsFirstJoin s) [modS (\<lambda>s. s\<lparr>mNextHistFetchIdx := lownum (cBuf s) - 1\<rparr>)]],
          readS (\<lambda>s. int (mLastServerHistFetchCount s) \<ge> \<bar>mLastServerRequested s\<bar>) (\<lambda>allRequestedMsgRecv.
            whenS (\<lambda>s. mLastServerHistFetchCount s = 0 \<or> (mLastServerRequested s \<le> 0 \<and> \<not> allRequestedMsgRecv)) [
              modS (\<lambda>s. s\<lparr>mHaveAllHistory := True, cFh := fhSetHaveAllHistory (cFh s) True\<rparr>),
              dbS (\<lambda>d. Inr (setHaveAllHistoryDb d (eChatId env) True)),
              whenS (\<lambda>s. ltIsFetching (mLastTextMsg s)) [
                modS (\<lambda>s. s\<lparr>mLastTextMsg := ltClear (mLastTextMsg s)\<rparr>), notifyLastTextMsg],
              whenS (\<lambda>s. mLastServerRequested s \<le> 0 \<and> \<not> allRequestedMsgRecv) [calculateUnreadCount env]])]
        else modS (\<lambda>s. s\<lparr>mServerFetchState := (if mDecryptNewHaltedAt s \<noteq> CHATD_IDX_INVALID then kHistDecryptingNew else kHistNotFetching)\<rparr>)),
       whenS (\<lambda>s. mServerFetchState s = kHistNotFetching \<and> fetchingOld \<and> mServerOldHistCbEnabled s) [
         listenS (\<lambda>s. LHistoryDone kHistSourceServer)],
       whenS (\<lambda>s. ltIsFetching (mLastTextMsg s)) [getHistory e initialHistoryFetchCount (\<lambda>_. doS [])],
       modS (\<lambda>s. s\<lparr>mLastServerRequested := 0\<rparr>)]))"

section \<open>Online state\<close>

text \<open>What the client does when a chat gets online (statistics, the sync promise, calls) is \<open>OClientOnline\<close>.\<close>

definition setOnlineState :: "ChatState \<Rightarrow> chat_step" where
  "setOnlineState st = whenS (\<lambda>s. st \<noteq> mOnlineState s) [
     modS (\<lambda>s. s\<lparr>mOnlineState := st\<rparr>),
     outS (\<lambda>s. [OCryptoOnlineState st]),
     listenS (\<lambda>s. LOnlineStateChange st),
     (if st = kChatStateOnline then outS (\<lambda>s. [OClientOnline]) else doS [])]"

definition disable :: "bool \<Rightarrow> chat_step" where
  "disable b = whenS (\<lambda>s. mIsDisabled s \<noteq> b) [
     modS (\<lambda>s. s\<lparr>mIsDisabled := b\<rparr>),
     (if b then doS [modS (\<lambda>s. s\<lparr>mServerFetchState := kHistNotFetching\<rparr>), setOnlineState kChatStateOffline] else doS [])]"

definition onPreviewersUpdate :: "ChatEnv \<Rightarrow> u32 \<Rightarrow> chat_step" where
  "onPreviewersUpdate env n = whenS (\<lambda>s. mNumPreviewers s \<noteq> n \<and> eIsPublic env) [
     modS (\<lambda>s. s\<lparr>mNumPreviewers := n\<rparr>), listenS (\<lambda>s. LPreviewersUpdate)]"

definition onJoinRejected :: chat_step where
  "onJoinRejected = disable True"

definition onHandleJoinRejected :: chat_step where
  "onHandleJoinRejected = doS [disable True, listenS (\<lambda>s. LUserLeave Id_null)]"

definition onHistReject :: chat_step where
  "onHistReject = doS [disable True, listenS (\<lambda>s. LHistoryDone kHistSourceNotLoggedIn)]"

text \<open>The requests in flight are dropped one by one.\<close>

definition dropFetch :: "FetchType \<Rightarrow> chat_step" where
  "dropFetch ft = (case ft of
     kFetchMessages \<Rightarrow> whenS (\<lambda>s. mServerOldHistCbEnabled s \<and> mServerFetchState s AND kHistFetchingOldFromServer \<noteq> 0) [
       listenS (\<lambda>s. LHistoryDone kHistSourceServer)]
   | kFetchNodeHistory \<Rightarrow> doS [
       modS (\<lambda>s. s\<lparr>mAttachNodesReceived := 0, mAttachNodesRequestedToServer := 0\<rparr>), fhS fhFinishFetchingFromServer])"

definition onDisconnect :: "ChatEnv \<Rightarrow> chat_step" where
  "onDisconnect env = doS [
     readS mFetchRequest (\<lambda>q. forS q (\<lambda>ft. doS [modS (\<lambda>s. s\<lparr>mFetchRequest := tl (mFetchRequest s)\<rparr>), dropFetch ft])),
     (if eIsPublic env then onPreviewersUpdate env 0 else doS []),
     modS (\<lambda>s. s\<lparr>mServerFetchState := kHistNotFetching\<rparr>),
     setOnlineState kChatStateOffline,
     (if eRtcExists env \<and> eRtcCall env then outS (\<lambda>s. [ORtcDisconnect]) else doS [])]"

definition onJoinComplete :: "SendEnv \<Rightarrow> chat_step" where
  "onJoinComplete e = doS [
     setOnlineState kChatStateOnline,
     flushOutputQueue e True,
     whenS mIsFirstJoin [
       modS (\<lambda>s. s\<lparr>mIsFirstJoin := False\<rparr>),
       whenS (\<lambda>s. \<not> ltIsValid (mLastTextMsg s)) [findAndNotifyLastTextMsg (seEnv e)]]]"

text \<open>\<open>HISTDONE\<close> ends the oldest request; without a request the front of an empty queue is read.\<close>

definition onHistDone :: "RecvEnv \<Rightarrow> SendEnv \<Rightarrow> chat_step" where
  "onHistDone e se = readS mFetchRequest (\<lambda>q. case q of
     [] \<Rightarrow> throwS OutOfBounds
   | ft # _ \<Rightarrow> doS [
       modS (\<lambda>s. s\<lparr>mFetchRequest := tl (mFetchRequest s)\<rparr>),
       (case ft of
          kFetchMessages \<Rightarrow> doS [
            whenS isFetchingFromServer [onFetchHistDone e, handleRetentionTime (reEnv e) True],
            whenS isJoining [onJoinComplete se],
            flushChatPendingReactions (reEnv e)]
        | kFetchNodeHistory \<Rightarrow> doS [
            whenS (\<lambda>s. \<not> mDecryptionAttachmentsHalted s) [attachmentHistDone],
            modS (\<lambda>s. s\<lparr>mAttachmentHistDoneReceived := True\<rparr>)])])"

section \<open>Login\<close>

definition sendReactionSn :: "ChatEnv \<Rightarrow> chat_step" where
  "sendReactionSn env = whenS (\<lambda>s. Id_isValid (mReactionSn s)) [
     sendCommand env (\<lambda>s. cmdAddId (cmdAddId (newCommand OP_REACTIONSN) (eChatId env)) (mReactionSn s))]"

definition phBytes :: "Id \<Rightarrow> bytes" where
  "phBytes ph = take 6 (le64 ph)"

definition join :: "ChatEnv \<Rightarrow> chat_step" where
  "join env = doS [
     modS (\<lambda>s. s\<lparr>mServerFetchState := kHistNotFetching\<rparr>),
     sendCommand env (\<lambda>s. cmdAdd8 (cmdAddId (cmdAddId (newCommand OP_JOIN) (eChatId env)) (eMyHandle env)) (privToByte (privVal PRIV_NOCHANGE))),
     requestHistoryFromServer env (- int initialHistoryFetchCount)]"

definition handlejoin :: "ChatEnv \<Rightarrow> chat_step" where
  "handlejoin env = doS [
     modS (\<lambda>s. s\<lparr>mServerFetchState := kHistNotFetching\<rparr>),
     sendCommand env (\<lambda>s. cmdAdd8 (cmdAddId (newCommand OP_HANDLEJOIN @ phBytes (ePublicHandle env)) (eMyHandle env)) (privToByte (privVal PRIV_RDONLY))),
     requestHistoryFromServer env (- int initialHistoryFetchCount)]"

definition handleleave :: "ChatEnv \<Rightarrow> chat_step" where
  "handleleave env = sendCommand env (\<lambda>s. newCommand OP_HANDLELEAVE @ phBytes (ePublicHandle env))"

definition joinRangeHist :: "ChatEnv \<Rightarrow> ChatDbInfo \<Rightarrow> chat_step" where
  "joinRangeHist env info = doS [
     modS (\<lambda>s. s\<lparr>mServerFetchState := kHistFetchingNewFromServer, mFetchRequest := mFetchRequest s @ [kFetchMessages]\<rparr>),
     getS (\<lambda>s. at (cBuf s) (highnum (cBuf s))) (\<lambda>m. sendCommand env (\<lambda>s.
       cmdAddId (cmdAddId (cmdAddId (newCommand OP_JOINRANGEHIST) (eChatId env)) (oldestDbId info)) (mId m)))]"

definition handlejoinRangeHist :: "ChatEnv \<Rightarrow> ChatDbInfo \<Rightarrow> chat_step" where
  "handlejoinRangeHist env info = doS [
     modS (\<lambda>s. s\<lparr>mServerFetchState := kHistFetchingNewFromServer, mFetchRequest := mFetchRequest s @ [kFetchMessages]\<rparr>),
     getS (\<lambda>s. at (cBuf s) (highnum (cBuf s))) (\<lambda>m. sendCommand env (\<lambda>s.
       cmdAddId (cmdAddId (newCommand OP_HANDLEJOINRANGEHIST @ phBytes (ePublicHandle env)) (oldestDbId info)) (mId m)))]"

definition login :: "ChatEnv \<Rightarrow> chat_step" where
  "login env = doS [
     setOnlineState kChatStateJoining,
     modS (\<lambda>s. s\<lparr>mServerOldHistCbEnabled := False\<rparr>),
     getDbHistInfoAndInitOldestKnownMsgId env (\<lambda>info. doS [
       sendReactionSn env,
       ifS (\<lambda>s. mOldestKnownMsgId s \<noteq> Id_null)
         (if ePreviewMode env then [handlejoinRangeHist env info] else [joinRangeHist env info, retryPendingReactions env])
         (if ePreviewMode env then [handlejoin env] else [join env]),
       modS (\<lambda>s. s\<lparr>mHasMoreHistoryInDb := hasMoreHistoryInDb s\<rparr>)])]"

section \<open>Members\<close>

text \<open>The states of a chat in their order.\<close>

primrec stateVal :: "ChatState \<Rightarrow> nat" where
  "stateVal kChatStateOffline = 0"
| "stateVal kChatStateConnecting = 1"
| "stateVal kChatStateJoining = 2"
| "stateVal kChatStateOnline = 3"

definition onUserJoin :: "ChatEnv \<Rightarrow> Id \<Rightarrow> priv \<Rightarrow> chat_step" where
  "onUserJoin env u p = ifS (\<lambda>s. stateVal (mOnlineState s) < stateVal kChatStateJoining)
     [throwS (RuntimeError ''onUserJoin received while not joining and not online'')] [
     (if u = eMyHandle env then modS (\<lambda>s. s\<lparr>mOwnPrivilege := p\<rparr>) else doS []),
     modS (\<lambda>s. s\<lparr>mUsers := insert u (mUsers s)\<rparr>),
     (if \<not> eIsPublic env then outS (\<lambda>s. [OCryptoUserJoin u]) else doS []),
     listenS (\<lambda>s. LUserJoin u p)]"

text \<open>The members are told one by one, in the order of their handles; the call module is asked before it is looked for.\<close>

definition onUserLeave :: "ChatEnv \<Rightarrow> Id \<Rightarrow> chat_step" where
  "onUserLeave env u =
    (if u = eMyHandle env \<or> u = Id_null
     then if u = Id_null \<and> \<not> ePreviewMode env then doS []
          else doS [
            modS (\<lambda>s. s\<lparr>mOwnPrivilege := privVal PRIV_NOTPRESENT\<rparr>),
            disable (u = Id_null),
            onPreviewersUpdate env 0,
            (if u = Id_null then listenS (\<lambda>s. LUserLeave u) else doS []),
            readS (\<lambda>s. sorted_list_of_set (mUsers s)) (\<lambda>us. forS us (\<lambda>v. doS [
              outS (\<lambda>s. [OCryptoUserLeave v]), listenS (\<lambda>s. LUserLeave v)])),
            modS (\<lambda>s. s\<lparr>mUsers := {}\<rparr>),
            (if \<not> eRtcExists env then throwS OutOfBounds
             else if eRtcCall env \<and> \<not> ePreviewMode env then outS (\<lambda>s. [ORtcLeave]) else doS [])]
     else doS [
       modS (\<lambda>s. s\<lparr>mUsers := mUsers s - {u}\<rparr>),
       outS (\<lambda>s. [OCryptoUserLeave u]),
       listenS (\<lambda>s. LUserLeave u)])"

definition setPublicHandle :: "Id \<Rightarrow> chat_step" where
  "setPublicHandle ph = (if Id_isValid ph then modS (\<lambda>s. s\<lparr>mOwnPrivilege := privVal PRIV_RDONLY\<rparr>) else doS [])"

text \<open>Typing notices.\<close>

definition kBroadcastUserTyping :: byte where "kBroadcastUserTyping = 1"
definition kBroadcastUserStopTyping :: byte where "kBroadcastUserStopTyping = 2"

definition handleBroadcast :: "ChatEnv \<Rightarrow> Id \<Rightarrow> byte \<Rightarrow> chat_step" where
  "handleBroadcast env u t =
    (if t = kBroadcastUserTyping then doS [
       outS (\<lambda>s. [OUserTyping u True]),
       (if eIsPublic env \<and> u \<noteq> eMyHandle env then outS (\<lambda>s. [ORequestUserAttributes u]) else doS [])]
     else if t = kBroadcastUserStopTyping then outS (\<lambda>s. [OUserTyping u False])
     else doS [])"

definition sendBroadcast :: "ChatEnv \<Rightarrow> byte \<Rightarrow> chat_step" where
  "sendBroadcast env t = sendCommand env (\<lambda>s. cmdAdd8 (cmdAddId (cmdAddId (newCommand OP_BROADCAST) (eChatId env)) Id_null) t)"

text \<open>Commands that leave the chat as it is, and messages imported from another process.\<close>

definition sendSync :: "ChatEnv \<Rightarrow> chat_step" where
  "sendSync env = sendCommand env (\<lambda>s. cmdAddId (newCommand OP_SYNC) (eChatId env))"

definition ringIndividualInACall :: "ChatEnv \<Rightarrow> Id \<Rightarrow> Id \<Rightarrow> u16 \<Rightarrow> chat_step" where
  "ringIndividualInACall env u callId ringTimeout = sendCommand env (\<lambda>s.
     cmdAdd8 (cmdAddId (cmdAddId (cmdAddId (newCommand OP_RINGUSER) (eChatId env)) u) callId) 1 @ le16 ringTimeout)"

definition rejectCall :: "ChatEnv \<Rightarrow> Id \<Rightarrow> chat_step" where
  "rejectCall env callId = sendCommand env (\<lambda>s. cmdAddId (cmdAddId (newCommand OP_CALLREJECT) (eChatId env)) callId)"

definition resetOldestKnownMsgId :: chat_step where
  "resetOldestKnownMsgId = modS (\<lambda>s. s\<lparr>mOldestKnownMsgId := Id_null\<rparr>)"

definition msgImport :: "RecvEnv \<Rightarrow> Message \<Rightarrow> bool \<Rightarrow> chat_step" where
  "msgImport e m isUpdate = (if isUpdate then onMsgUpdated e m else msgIncoming e True m False)"

section \<open>Creation and reload\<close>

definition initChat :: "ChatEnv \<Rightarrow> bool \<Rightarrow> chat_step" where
  "initChat env haveAttachments = doS [
     modS (\<lambda>s. s\<lparr>cBuf := (cBuf s)\<lparr>mBackwardList := [], mForwardList := [], mIdToIndexMap := (\<lambda>_. None)\<rparr>\<rparr>),
     (if haveAttachments then fhS (\<lambda>st. Inr (fhClear (eChatId env) st)) else doS []),
     modS (\<lambda>s. s\<lparr>cBuf := (cBuf s)\<lparr>mForwardStart := CHATD_IDX_RANGE_MIDDLE\<rparr>, mOldestKnownMsgId := Id_null,
       mLastSeenIdx := CHATD_IDX_INVALID, mLastReceivedIdx := CHATD_IDX_INVALID, mNextHistFetchIdx := CHATD_IDX_INVALID,
       mOldestIdxInDb := CHATD_IDX_INVALID, mLastIdxReceivedFromServer := CHATD_IDX_INVALID, mLastServerHistFetchCount := 0,
       mLastServerRequested := 0, mLastHistDecryptCount := 0, mRetentionTime := 0, mLastTextMsg := ltClear (mLastTextMsg s),
       mEncryptionHalted := False, mDecryptNewHaltedAt := CHATD_IDX_INVALID, mDecryptOldHaltedAt := CHATD_IDX_INVALID,
       mRefidToIdxMap := (\<lambda>_. None), mHasMoreHistoryInDb := False, mHaveAllHistory := False\<rparr>)]"

definition clearHistory :: "ChatEnv \<Rightarrow> chat_step" where
  "clearHistory env = doS [
     initChat env True,
     dbS (\<lambda>d. Inr (clearHistoryDb d (eChatId env))),
     outS (\<lambda>s. [OCryptoHistoryReload]),
     listenS (\<lambda>s. LHistoryReloaded)]"

text \<open>The fields as the class initialises them.\<close>

definition blankChat :: "ChatdDb \<Rightarrow> Id \<Rightarrow> Id set \<Rightarrow> u32 \<Rightarrow> Chat" where
  "blankChat d c users chatCreationTs =
    \<lparr>cBuf = emptyBuf, cDb = d, cFh = newFilteredHistory d c, mSending = [], mNextUnsent = Some 0, mPendingReactions = [],
     mIsFirstJoin = True, mLastReceivedId = 0, mLastReceivedIdx = CHATD_IDX_INVALID, mLastSeenId = 0, mLastSeenIdx = CHATD_IDX_INVALID,
     mLastIdxReceivedFromServer = CHATD_IDX_INVALID, mOnlineState = kChatStateOffline, mOwnPrivilege = privVal PRIV_INVALID, mUsers = users,
     mOldestKnownMsgId = 0, mLastServerHistFetchCount = 0, mLastHistDecryptCount = 0, mServerFetchState = kHistNotFetching,
     mLastServerRequested = 0, mHasMoreHistoryInDb = False, mServerOldHistCbEnabled = False, mHaveAllHistory = False,
     mIsDisabled = False, mNextHistFetchIdx = CHATD_IDX_INVALID, mOldestIdxInDb = CHATD_IDX_INVALID, mLastTextMsg = newLastTextMsg,
     mUnreadCount = 0, mEncryptionHalted = False, mDecryptNewHaltedAt = CHATD_IDX_INVALID, mDecryptOldHaltedAt = CHATD_IDX_INVALID,
     mLastMsgTs = chatCreationTs, mMsgsToUpdateWithRichLink = {}, mNumPreviewers = 0, mFetchRequest = [],
     mAttachNodesRequestedToServer = 0, mAttachNodesReceived = 0, mAttachmentHistDoneReceived = False,
     mAttachmentsPendingToDecrypt = [], mDecryptionAttachmentsHalted = False, mTruncateAttachment = False, mReactionSn = Id_inval,
     mRetentionTime = 0, mPendingEdits = (\<lambda>_. None), mRefidToIdxMap = (\<lambda>_. None), cOut = []\<rparr>"

text \<open>\<open>fr\<close> is what an uninitialised handle holds.\<close>

definition startChat :: "(nat \<Rightarrow> byte) \<Rightarrow> RecvEnv \<Rightarrow> chat_step" where
  "startChat fr e = (let env = reEnv e; c = eChatId env in doS [
     (if eIsPublic env then outS (\<lambda>s. [ODecryptUnifiedKey]) else doS []),
     initChat env False,
     modS (\<lambda>s. s\<lparr>cFh := newFilteredHistory (cDb s) c\<rparr>),
     getDbHistInfoAndInitOldestKnownMsgId env (\<lambda>info. doS [
       modS (\<lambda>s. s\<lparr>mLastSeenId := lastSeenId info, mLastReceivedId := lastRecvId info,
         mLastSeenIdx := getIdxOfMsgidFromHistory (cDb s) c (lastSeenId info),
         mLastReceivedIdx := getIdxOfMsgidFromHistory (cDb s) c (lastRecvId info)\<rparr>),
       getS (\<lambda>s. getReactionSn (cDb s) c) (\<lambda>rsn. if rsn = [] then doS []
         else getS (\<lambda>s. Id_ofString fr rsn) (\<lambda>i. modS (\<lambda>s. s\<lparr>mReactionSn := i\<rparr>))),
       whenS (\<lambda>s. chatVar (cDb s) c ''have_all_history'') [modS (\<lambda>s. s\<lparr>cFh := fhSetHaveAllHistory (cFh s) True\<rparr>)],
       modS (\<lambda>s. s\<lparr>mHaveAllHistory := chatVar (cDb s) c ''have_all_history''\<rparr>),
       ifS (\<lambda>s. mOldestKnownMsgId s = Id_null) [
         modS (\<lambda>s. s\<lparr>mHasMoreHistoryInDb := False, cBuf := (cBuf s)\<lparr>mForwardStart := CHATD_IDX_RANGE_MIDDLE\<rparr>\<rparr>),
         loadAndProcessUnsent env] [
         modS (\<lambda>s. s\<lparr>mHasMoreHistoryInDb := True, cBuf := (cBuf s)\<lparr>mForwardStart := newestDbIdx info + 1\<rparr>\<rparr>),
         loadAndProcessUnsent env,
         getHistoryFromDb e initialHistoryFetchCount],
       calculateUnreadCount env])])"

definition newChat :: "(nat \<Rightarrow> byte) \<Rightarrow> RecvEnv \<Rightarrow> ChatdDb \<Rightarrow> Id set \<Rightarrow> u32 \<Rightarrow> Chat \<times> exn option" where
  "newChat fr e d users chatCreationTs = startChat fr e (blankChat d (eChatId (reEnv e)) users chatCreationTs)"

end
