(* ===== verification/ChatClient.thy ===== *)
theory ChatClient
  imports ChatFetch ChatdRoute
begin

text \<open>
  The client of chatd, class \<open>chatd::Client\<close> of \<open>src/chatd.h\<close> and \<open>src/chatd.cpp\<close>: the chats it owns, by
  increasing handle as \<open>mChatForChatId\<close> iterates over them, the connections they use, the timer of the
  retention time, and the execution of the calls that a frame of the server makes (\<open>ChatdRoute\<close>).

  All chats share one cache.  What a call asks for outside is the environment \<open>ClientEnv\<close>; calls that only
  concern the connection, the call module or the keys are kept in \<open>clOther\<close>.
\<close>

section \<open>State\<close>

record Client =
  clDb :: ChatdDb
  clChats :: "(Id \<times> Chat) list"
  clConnOf :: "Id \<Rightarrow> nat option"
  clShards :: "nat \<Rightarrow> Id set option"
  clRetentionTimer :: "nat option"
  clRetentionCheckTs :: u32
  clOther :: "ChatdCall list"

record ClientEnv =
  cnNow :: nat
  cnChat :: "Id \<Rightarrow> ChatEnv"
  cnDecrypt :: "Id \<Rightarrow> Message \<Rightarrow> DecResult"
  cnEncrypt :: "Id \<Rightarrow> encrypter"
  cnOrder :: "nat \<Rightarrow> nat \<Rightarrow> nat list"
  cnReaction :: "Id \<Rightarrow> Id \<Rightarrow> Id \<Rightarrow> KeyId \<Rightarrow> bytes \<Rightarrow> ReactResult"

type_synonym client_step = "Client step"

definition newClient :: "ChatdDb \<Rightarrow> Client" where
  "newClient d = \<lparr>clDb = d, clChats = [], clConnOf = (\<lambda>_. None), clShards = (\<lambda>_. None), clRetentionTimer = None,
     clRetentionCheckTs = 0, clOther = []\<rparr>"

definition recvEnv :: "ClientEnv \<Rightarrow> Id \<Rightarrow> RecvEnv" where
  "recvEnv e c = \<lparr>reEnv = cnChat e c, reDecrypt = cnDecrypt e c\<rparr>"

definition sendEnv :: "ClientEnv \<Rightarrow> Id \<Rightarrow> SendEnv" where
  "sendEnv e c = \<lparr>seEnv = cnChat e c, seEncrypt = cnEncrypt e c, seOrder = cnOrder e\<rparr>"

definition chatFromId :: "Client \<Rightarrow> Id \<Rightarrow> Chat option" where
  "chatFromId cl c = map_of (clChats cl) c"

definition chatidFromPhC :: "ClientEnv \<Rightarrow> Client \<Rightarrow> Id \<Rightarrow> Id" where
  "chatidFromPhC e cl ph = (case List.find (\<lambda>(c, _). ePublicHandle (cnChat e c) = ph) (clChats cl) of
     None \<Rightarrow> Id_inval | Some (c, _) \<Rightarrow> c)"

definition areAllChatsLoggedIn :: "Client \<Rightarrow> nat option \<Rightarrow> bool" where
  "areAllChatsLoggedIn cl shard \<longleftrightarrow> (\<forall>(c, ch) \<in> set (clChats cl).
     isLoggedIn ch \<or> mIsDisabled ch \<or> (shard \<noteq> None \<and> clConnOf cl c \<noteq> shard))"

section \<open>The timer of the retention time\<close>

definition kMinRetentionTimeout :: nat where "kMinRetentionTimeout = 60"

definition setRetentionTimer :: "ClientEnv \<Rightarrow> Client \<Rightarrow> Client" where
  "setRetentionTimer e cl =
    (let p = uint (clRetentionCheckTs cl) - int (cnNow e);
         p' = (if p \<le> 0 \<or> (clRetentionTimer cl = None \<and> p < int kMinRetentionTimeout) then int kMinRetentionTimeout else p)
     in cl\<lparr>clRetentionTimer := Some (nat p')\<rparr>)"

definition updateRetentionCheckTs :: "ClientEnv \<Rightarrow> nat \<Rightarrow> bool \<Rightarrow> Client \<Rightarrow> Client" where
  "updateRetentionCheckTs e nextCheckTs force cl =
    (if force \<or> (nextCheckTs \<noteq> 0 \<and> (clRetentionCheckTs cl = 0 \<or> nextCheckTs < unat (clRetentionCheckTs cl)))
     then let cl' = cl\<lparr>clRetentionCheckTs := word_of_nat nextCheckTs\<rparr>
          in if clRetentionCheckTs cl' \<noteq> 0 then setRetentionTimer e cl' else cl'
     else cl)"

definition cancelRetentionTimer :: "bool \<Rightarrow> Client \<Rightarrow> Client" where
  "cancelRetentionTimer resetTs cl = (let cl' = cl\<lparr>clRetentionTimer := None\<rparr>
     in if resetTs then cl'\<lparr>clRetentionCheckTs := 0\<rparr> else cl')"

section \<open>Steps of a chat\<close>

text \<open>A chat works on the shared cache; the next checks of its retention time it asks for are set afterwards.\<close>

definition retentionChecks :: "ChatOut list \<Rightarrow> nat list" where
  "retentionChecks out = concat (map (\<lambda>o'. case o' of ORetentionCheck t \<Rightarrow> [t] | _ \<Rightarrow> []) out)"

definition putChat :: "Id \<Rightarrow> Chat \<Rightarrow> Client \<Rightarrow> Client" where
  "putChat c ch cl = cl\<lparr>clDb := cDb ch, clChats := map (\<lambda>(i, x). (i, if i = c then ch else x)) (clChats cl)\<rparr>"

definition runChat :: "ClientEnv \<Rightarrow> Id \<Rightarrow> chat_step \<Rightarrow> client_step" where
  "runChat e c st cl = (case chatFromId cl c of
     None \<Rightarrow> (cl, Some (RuntimeError ''chatidChat: Unknown chatid''))
   | Some ch \<Rightarrow> (case st (ch\<lparr>cDb := clDb cl\<rparr>) of (ch', r) \<Rightarrow>
       (fold (\<lambda>t. updateRetentionCheckTs e t False) (retentionChecks (drop (length (cOut ch)) (cOut ch'))) (putChat c ch' cl), r)))"

text \<open>
  A confirmation is offered to every chat until one takes it; a chat that gets a rejection this way does
  not report that it has taken it.
\<close>

definition clientMsgConfirm :: "ClientEnv \<Rightarrow> Id \<Rightarrow> Id \<Rightarrow> u32 \<Rightarrow> client_step" where
  "clientMsgConfirm e msgxid msgid timestamp = readS (\<lambda>cl. map fst (clChats cl)) (\<lambda>cs.
     foldr (\<lambda>c rest. readS (\<lambda>cl. msgid \<noteq> 0 \<and> (\<exists>ch. chatFromId cl c = Some ch \<and> takesConfirm ch msgxid)) (\<lambda>taken.
       doS [runChat e c (msgConfirm (cnChat e c) msgxid msgid timestamp), if taken then doS [] else rest])) cs (doS []))"

definition clientMsgAlreadySent :: "ClientEnv \<Rightarrow> Id \<Rightarrow> Id \<Rightarrow> client_step" where
  "clientMsgAlreadySent e msgxid msgid = readS (\<lambda>cl. map fst (clChats cl)) (\<lambda>cs.
     foldr (\<lambda>c rest. readS (\<lambda>cl. msgid \<noteq> 0 \<and> (\<exists>ch. chatFromId cl c = Some ch \<and> takesConfirm ch msgxid)) (\<lambda>taken.
       doS [runChat e c (msgAlreadySent (cnChat e c) msgxid msgid), if taken then doS [] else rest])) cs (doS []))"

text \<open>The callback of the retention timer; \<open>nextRetentionTs\<close> is what \<open>handleRetentionTime\<close> returns.\<close>

definition nextRetentionTs :: "ChatEnv \<Rightarrow> Chat \<Rightarrow> nat" where
  "nextRetentionTs env s = (if mRetentionTime s = 0 \<or> mOldestIdxInDb s = CHATD_IDX_INVALID then 0
     else unat ((case findOrNull (cBuf s) (mOldestIdxInDb s) of
        Some m \<Rightarrow> ts m | None \<Rightarrow> getOldestMsgTs (cDb s) (eChatId env)) + mRetentionTime s))"

definition minTs :: "nat \<Rightarrow> nat \<Rightarrow> nat" where
  "minTs t a = (if t \<noteq> 0 \<and> (t < a \<or> a = 0) then t else a)"

primrec retentionLoop :: "ClientEnv \<Rightarrow> Id list \<Rightarrow> nat \<Rightarrow> client_step" where
  "retentionLoop e [] a = modS (updateRetentionCheckTs e a True)"
| "retentionLoop e (c # cs) a = doS [
     runChat e c (handleRetentionTime (cnChat e c) False),
     readS (\<lambda>cl. case chatFromId cl c of None \<Rightarrow> a | Some ch \<Rightarrow> minTs (nextRetentionTs (cnChat e c) (ch\<lparr>cDb := clDb cl\<rparr>)) a) (\<lambda>a'.
       retentionLoop e cs a')]"

definition onRetentionTimer :: "ClientEnv \<Rightarrow> client_step" where
  "onRetentionTimer e = doS [modS (\<lambda>cl. cl\<lparr>clRetentionTimer := None\<rparr>),
     readS (\<lambda>cl. map fst (clChats cl)) (\<lambda>cs. retentionLoop e cs 0)]"

section \<open>Chats\<close>

definition createChat :: "(nat \<Rightarrow> byte) \<Rightarrow> ClientEnv \<Rightarrow> Id \<Rightarrow> nat \<Rightarrow> Id set \<Rightarrow> u32 \<Rightarrow> client_step" where
  "createChat fr e c shard users chatCreationTs = whenS (\<lambda>cl. chatFromId cl c = None) [
     modS (\<lambda>cl. cl\<lparr>clShards := (clShards cl)(shard := Some (case clShards cl shard of None \<Rightarrow> {} | Some cs \<Rightarrow> cs)),
       clConnOf := (clConnOf cl)(c := Some shard)\<rparr>),
     (\<lambda>cl. case newChat fr (recvEnv e c) (clDb cl) users chatCreationTs of
        (ch, Some err) \<Rightarrow> (cl\<lparr>clDb := cDb ch\<rparr>, Some err)
      | (ch, None) \<Rightarrow> (cl\<lparr>clDb := cDb ch, clChats := insort_key fst (c, ch) (clChats cl),
          clShards := (clShards cl)(shard := map_option (insert c) (clShards cl shard))\<rparr>, None))]"

definition leaveChat :: "ClientEnv \<Rightarrow> Id \<Rightarrow> client_step" where
  "leaveChat e c = readS (\<lambda>cl. clConnOf cl c) (\<lambda>conn. case conn of
     None \<Rightarrow> doS []
   | Some shard \<Rightarrow> doS [
       modS (\<lambda>cl. cl\<lparr>clShards := (clShards cl)(shard := map_option (\<lambda>cs. cs - {c}) (clShards cl shard)),
         clConnOf := (clConnOf cl)(c := None)\<rparr>),
       whenS (\<lambda>cl. chatFromId cl c \<noteq> None) [
         (if ePreviewMode (cnChat e c) then runChat e c (handleleave (cnChat e c)) else doS []),
         modS (\<lambda>cl. cl\<lparr>clChats := filter (\<lambda>(i, _). i \<noteq> c) (clChats cl)\<rparr>)]])"

text \<open>The setting for rich links has changed.\<close>

definition requestPendingRichLinks :: "ChatEnv \<Rightarrow> chat_step" where
  "requestPendingRichLinks env = doS [
     readS (\<lambda>s. sorted_list_of_set (mMsgsToUpdateWithRichLink s)) (\<lambda>ids. forS ids (\<lambda>i.
       readS (\<lambda>s. findOrNull (cBuf s) (msgIndexFromId (cBuf s) i)) (\<lambda>m.
         case m of None \<Rightarrow> doS [] | Some msg \<Rightarrow> requestRichLink env msg))),
     modS (\<lambda>s. s\<lparr>mMsgsToUpdateWithRichLink := {}\<rparr>)]"

definition onRichLinkState :: "ClientEnv \<Rightarrow> client_step" where
  "onRichLinkState e = readS (\<lambda>cl. map fst (clChats cl)) (\<lambda>cs. forS cs (\<lambda>c.
     if eRichLinkState (cnChat e c) = kRichLinkEnabled then runChat e c (requestPendingRichLinks (cnChat e c))
     else if eRichLinkState (cnChat e c) = kRichLinkNotDefined then doS []
     else runChat e c (modS (\<lambda>s. s\<lparr>mMsgsToUpdateWithRichLink := {}\<rparr>))))"

section \<open>The calls of a frame\<close>

fun clientCall :: "ClientEnv \<Rightarrow> ChatdCall \<Rightarrow> client_step" where
  "clientCall e (CHandleBroadcast c u t) = runChat e c (handleBroadcast (cnChat e c) u t)"
| "clientCall e (COnUserLeave c u) = runChat e c (onUserLeave (cnChat e c) u)"
| "clientCall e (COnUserJoin c u p) = runChat e c (onUserJoin (cnChat e c) u p)"
| "clientCall e (COnMsgUpdated c m) = runChat e c (onMsgUpdated (recvEnv e c) m)"
| "clientCall e (CMsgIncoming c isNew m) = runChat e c (msgIncoming (recvEnv e c) isNew m False)"
| "clientCall e (CMsgNodeHistIncoming c m) = runChat e c (msgNodeHistIncoming (recvEnv e c) m)"
| "clientCall e (COnLastSeen c i) = runChat e c (onLastSeen (cnChat e c) i True)"
| "clientCall e (COnLastReceived c i) = runChat e c (onLastReceived (cnChat e c) i)"
| "clientCall e (COnRetentionTimeUpdated c p) = runChat e c (onRetentionTimeUpdated (cnChat e c) p)"
| "clientCall e (COnMsgAlreadySent x i) = clientMsgAlreadySent e x i"
| "clientCall e (CClientMsgConfirm x i t) = clientMsgConfirm e x i t"
| "clientCall e (COnHandleJoinRejected c) = runChat e c onHandleJoinRejected"
| "clientCall e (COnReactionReject c i) = runChat e c (onReactionReject (cnChat e c) i)"
| "clientCall e (CMsgConfirm c x i) = runChat e c (msgConfirm (cnChat e c) x i 0)"
| "clientCall e (CRejectMsgupd c i r) = runChat e c (rejectMsgupd (cnChat e c) i r)"
| "clientCall e (COnJoinRejected c) = runChat e c onJoinRejected"
| "clientCall e (CClearHistory c) = runChat e c (clearHistory (cnChat e c))"
| "clientCall e (CSetServerOldHistCb c) = runChat e c (modS (\<lambda>s. s\<lparr>mServerOldHistCbEnabled := eRoomOpened (cnChat e c)\<rparr>))"
| "clientCall e (CRequestInitialHistory c) = runChat e c (requestHistoryFromServer (cnChat e c) (- int initialHistoryFetchCount))"
| "clientCall e (COnKeyReject c) = runChat e c onKeyReject"
| "clientCall e (COnHistReject c) = runChat e c onHistReject"
| "clientCall e (COnHistDone c) = runChat e c (onHistDone (recvEnv e c) (sendEnv e c))"
| "clientCall e (CKeyConfirm c x k) = runChat e c (keyConfirm (cnChat e c) x k)"
| "clientCall e (COnAddReaction c i u r) = runChat e c (onReaction (cnChat e c) (cnReaction e c) OP_ADDREACTION i u r)"
| "clientCall e (COnDelReaction c i u r) = runChat e c (onReaction (cnChat e c) (cnReaction e c) OP_DELREACTION i u r)"
| "clientCall e (COnReactionSn c i) = runChat e c (onReactionSn (cnChat e c) i)"
| "clientCall e (COnPreviewersUpdate c n) = runChat e c (onPreviewersUpdate (cnChat e c) n)"
| "clientCall e other = modS (\<lambda>cl. cl\<lparr>clOther := clOther cl @ [other]\<rparr>)"

definition clientRoutes :: "RouteEnv \<Rightarrow> ClientEnv \<Rightarrow> Client \<Rightarrow> RouteEnv" where
  "clientRoutes r e cl = r\<lparr>
     knownChat := (\<lambda>c. chatFromId cl c \<noteq> None),
     fetchingNodes := (\<lambda>c. case chatFromId cl c of None \<Rightarrow> False | Some ch \<Rightarrow> isFetchingNodeHistory ch),
     chatidFromPh := chatidFromPhC e cl,
     previewMode := (\<lambda>c. ePreviewMode (cnChat e c)),
     isPublicChat := (\<lambda>c. eIsPublic (cnChat e c)),
     isGroupChat := (\<lambda>c. eIsGroup (cnChat e c))\<rparr>"

text \<open>A frame of the server.\<close>

definition clientFrame :: "RouteEnv \<Rightarrow> ClientEnv \<Rightarrow> bytes \<Rightarrow> Client \<Rightarrow> Client \<times> frame_end" where
  "clientFrame r e b cl = execCommand (routeH (clientRoutes r e) (clientCall e)) b 0 cl"

end
