(* ===== verification/ChatInv.thy ===== *)
theory ChatInv
  imports ChatClient
begin

text \<open>
  The invariant of a chat and of the client, kept by every handler whether it returns or throws: the
  tables of the cache are intact, the sending queue in memory holds the rows of the cache in their order
  and those of other chats are not touched, the iterator \<open>mNextUnsent\<close> is inside the queue or at its end,
  and the state flags have one of their values.
\<close>

section \<open>The invariant\<close>

definition sendKeys :: "ChatdDb \<Rightarrow> (Id \<times> nat) list" where
  "sendKeys d = map (\<lambda>r. (sChat r, sRowid r)) (dSending d)"

definition ownKeys :: "Id \<Rightarrow> ChatdDb \<Rightarrow> nat list" where
  "ownKeys c d = map snd (filter (\<lambda>k. fst k = c) (sendKeys d))"

definition otherKeys :: "Id \<Rightarrow> ChatdDb \<Rightarrow> (Id \<times> nat) list" where
  "otherKeys c d = filter (\<lambda>k. fst k \<noteq> c) (sendKeys d)"

definition flags_ok :: "Chat \<Rightarrow> bool" where
  "flags_ok s \<longleftrightarrow>
     mServerFetchState s \<in> {kHistNotFetching, kHistFetchingOldFromServer, kHistFetchingNewFromServer, kHistDecryptingOld, kHistDecryptingNew} \<and>
     ltState (mLastTextMsg s) \<in> {ltNone, ltFetching, ltHave}"

definition queue_ok :: "Id \<Rightarrow> Chat \<Rightarrow> bool" where
  "queue_ok c s \<longleftrightarrow> map siRowid (mSending s) = ownKeys c (cDb s) \<and> sorted (map snd (sendKeys (cDb s))) \<and>
     (\<forall>i. mNextUnsent s = Some i \<longrightarrow> i \<le> length (mSending s))"

definition chat_inv :: "Id \<Rightarrow> (Id \<times> nat) list \<Rightarrow> Chat \<Rightarrow> bool" where
  "chat_inv c others s \<longleftrightarrow> db_ok (cDb s) \<and> queue_ok c s \<and> otherKeys c (cDb s) = others \<and> flags_ok s"

lemmas inv_defs = chat_inv_def queue_ok_def flags_ok_def

section \<open>Operations of the cache\<close>

text \<open>Everything but the rows of the queue.\<close>

definition db_safe :: "(ChatdDb \<Rightarrow> ChatdDb res) \<Rightarrow> bool" where
  "db_safe f \<longleftrightarrow> (\<forall>d d'. db_ok d \<longrightarrow> f d = Inr d' \<longrightarrow> db_ok d' \<and> sendKeys d' = sendKeys d)"

named_theorems db_safes \<open>operations of the cache that leave the queue alone\<close>

lemma db_safeI: "(\<And>d d'. f d = Inr d' \<Longrightarrow> d' = runDb c op d \<and> dSending d' = dSending d) \<Longrightarrow> db_safe f"
  using runDb_ok by (metis db_safe_def sendKeys_def)

lemma db_safe_sending [db_safes]:
  "db_safe (\<lambda>d. addBlobsToSendingItem d rowid m k i)"
  unfolding db_safe_def
proof (intro allI impI)
  fix d d' assume d: "db_ok d" and r: "addBlobsToSendingItem d rowid m k i = Inr d'"
  then obtain f where f: "d' = d\<lparr>dSending := map f (dSending d)\<rparr>" "\<And>r. sRowid (f r) = sRowid r" "\<And>r. sChat (f r) = sChat r"
    by (auto simp: addBlobsToSendingItem_def bindR_Inr_iff split: if_splits intro!: that)
  then show "db_ok d' \<and> sendKeys d' = sendKeys d" using sending_update_ok [OF d, of f] by (simp add: sendKeys_def)
qed

lemma db_safe_history [db_safes]:
  "db_safe (\<lambda>d. addMsgToHistory d c m idx)"
  "db_safe (\<lambda>d. updateMsgInHistory d c i m)"
  "db_safe (\<lambda>d. truncateHistory d c i)"
  "db_safe (\<lambda>d. Inr (retentionHistoryTruncate d c idx))"
  "db_safe (\<lambda>d. Inr (clearHistoryDb d c))"
  by (rule db_safeI [where op = "AddMsg m idx" and c = c]
      db_safeI [where op = "UpdMsg i m" and c = c] db_safeI [where op = "Truncate i" and c = c]
      db_safeI [where op = "Retention idx" and c = c] db_safeI [where op = ClearHistory and c = c];
      auto simp: orElse_def addMsgToHistory_def updateMsgInHistory_def truncateHistory_def retentionHistoryTruncate_def
        deleteHistory_def clearHistoryDb_def setHaveAllHistoryDb_def dbCleanReactions_def dbCleanPendingReactions_def
        Let_def bindR_Inr_iff split: if_splits option.splits)+

lemma db_safe_reactions [db_safes]:
  "db_safe (\<lambda>d. dbAddReaction d c i u r)"
  "db_safe (\<lambda>d. Inr (dbDelReaction d c i u r))"
  "db_safe (\<lambda>d. dbAddPendingReaction d c i r e st)"
  "db_safe (\<lambda>d. Inr (dbDelPendingReaction d c i r))"
  "db_safe (\<lambda>d. Inr (dbCleanReactions d c i))"
  "db_safe (\<lambda>d. Inr (dbCleanPendingReactions d c i))"
  by (rule db_safeI [where op = "AddReact i u r" and c = c] db_safeI [where op = "DelReact i u r" and c = c]
      db_safeI [where op = "AddPending i r e st" and c = c] db_safeI [where op = "DelPending i r" and c = c]
      db_safeI [where op = "CleanReact i" and c = c] db_safeI [where op = "CleanPending i" and c = c];
      auto simp: orElse_def dbAddReaction_def dbDelReaction_def dbAddPendingReaction_def dbDelPendingReaction_def
        dbCleanReactions_def dbCleanPendingReactions_def split: if_splits)+

lemma db_ok_other: "db_ok d \<Longrightarrow> db_ok (d\<lparr>dChats := x\<rparr>)" "db_ok d \<Longrightarrow> db_ok (d\<lparr>dVars := y\<rparr>)" "db_ok d \<Longrightarrow> db_ok (d\<lparr>dManual := z\<rparr>)"
  by (auto simp: db_ok_def dbHasMsg_iff)

lemma db_safe_chat [db_safes]:
  "db_safe (\<lambda>d. setLastSeen d c i)"
  "db_safe (\<lambda>d. setLastReceived d c i)"
  "db_safe (\<lambda>d. setReactionSn d c t)"
  "db_safe (\<lambda>d. Inr (setHaveAllHistoryDb d c b))"
  "db_safe (\<lambda>d. saveItemToManualSending d c it reason)"
  by (auto simp: db_safe_def setLastSeen_def setLastReceived_def setReactionSn_def setHaveAllHistoryDb_def saveItemToManualSending_def
      sendKeys_def db_ok_other Let_def split: if_splits option.splits)

lemma chat_inv_db: "chat_inv c ks s \<Longrightarrow> db_ok d \<Longrightarrow> sendKeys d = sendKeys (cDb s) \<Longrightarrow> chat_inv c ks (s\<lparr>cDb := d\<rparr>)"
  by (simp add: inv_defs ownKeys_def otherKeys_def)

lemma chat_inv_ok: "chat_inv c ks s \<Longrightarrow> db_ok (cDb s)"
  by (simp add: chat_inv_def)

lemma keeps_dbS [keeps_intros]: "db_safe f \<Longrightarrow> keeps (chat_inv c ks) (dbS f)"
proof (unfold dbS_def, rule keeps_modS)
  fix s assume f: "db_safe f" and s: "chat_inv c ks s"
  show "chat_inv c ks (s\<lparr>cDb := orElse (cDb s) (f (cDb s))\<rparr>)"
    using f chat_inv_ok [OF s] by (cases "f (cDb s)") (auto simp: orElse_def db_safe_def intro!: chat_inv_db s)
qed

end
