(* ===== verification/ChatKeeps.thy ===== *)
theory ChatKeeps
  imports ChatInv
begin

text \<open>Every handler of a chat keeps its invariant.\<close>

section \<open>Steps that leave the relevant state alone\<close>

lemma keeps_outS [keeps_intros]: "keeps (chat_inv c ks) (outS f)"
  unfolding outS_def by (rule keeps_modS) (simp add: inv_defs)

lemma keeps_listenS [keeps_intros]: "keeps (chat_inv c ks) (listenS f)"
  unfolding listenS_def by (rule keeps_outS)

lemma keeps_sendCommand [keeps_intros]: "keeps (chat_inv c ks) (sendCommand env f)"
  unfolding sendCommand_def by (rule keeps_outS)

section \<open>Attachments\<close>

text \<open>The attachment list changes the cache only by operations that leave the queue alone.\<close>

definition fh_safe :: "(fh_state \<Rightarrow> fh_state res) \<Rightarrow> bool" where
  "fh_safe f \<longleftrightarrow> (\<forall>fh d ev fh' d' ev'. db_ok d \<longrightarrow> f (fh, d, ev) = Inr (fh', d', ev') \<longrightarrow> db_ok d' \<and> sendKeys d' = sendKeys d)"

lemma keeps_fhS [keeps_intros]: "fh_safe f \<Longrightarrow> keeps (chat_inv c ks) (fhS f)"
  unfolding fhS_def
proof (rule keeps_updS)
  fix s s' assume f: "fh_safe f" and s: "chat_inv c ks s"
    and "bindR (f (cFh s, cDb s, [])) (\<lambda>(fh, d, ev). Inr (s\<lparr>cFh := fh, cDb := d, cOut := cOut s @ map OAttachments ev\<rparr>)) = Inr s'"
  then obtain fh d ev where r: "f (cFh s, cDb s, []) = Inr (fh, d, ev)"
    and s': "s' = s\<lparr>cFh := fh, cDb := d, cOut := cOut s @ map OAttachments ev\<rparr>"
    by (auto simp: bindR_Inr_iff)
  have "db_ok d \<and> sendKeys d = sendKeys (cDb s)" using f r chat_inv_ok [OF s] unfolding fh_safe_def by blast
  then show "chat_inv c ks s'" using s unfolding s' by (simp add: inv_defs ownKeys_def otherKeys_def)
qed

lemma fhStore_safe: "db_ok d \<Longrightarrow> fhStore d c m idx = (d', i) \<Longrightarrow> db_ok d' \<and> sendKeys d' = sendKeys d"
  using runDb_ok [of d c "AddNode m idx"]
  by (auto simp: fhStore_def orElse_def sendKeys_def addMsgToNodeHistory_def bindR_Inr_iff Let_def split: sum.splits if_splits)

lemma fhAdd_safe: "db_ok d \<Longrightarrow> fhAddMessage c (fh, d, ev) m isNew isLocal = Inr ((fh', d', ev'), m') \<Longrightarrow> db_ok d' \<and> sendKeys d' = sendKeys d"
  by (auto simp: fhAddMessage_def bindR_Inr_iff Let_def split: if_splits prod.splits dest: fhStore_safe)

lemma fh_safe_add: "fh_safe (\<lambda>st. bindR (fhAddMessage c st m isNew isLocal) (\<lambda>(st', _). Inr st'))"
  by (auto simp: fh_safe_def bindR_Inr_iff dest: fhAdd_safe)

lemma clearNode_safe: "db_ok d \<Longrightarrow> db_ok (clearNodeHistory d c) \<and> sendKeys (clearNodeHistory d c) = sendKeys d"
  using runDb_ok [of d c ClearNode] by (simp add: clearNodeHistory_def sendKeys_def)

lemma truncNode_safe: "db_ok d \<Longrightarrow> db_ok (truncateNodeHistory d c i) \<and> sendKeys (truncateNodeHistory d c i) = sendKeys d"
  using runDb_ok [of d c "TruncNode i"] by (simp add: truncateNodeHistory_def sendKeys_def Let_def)

lemma fh_safe_ops [db_safes]:
  "fh_safe (\<lambda>st. fhTruncateHistory c st i)"
  "fh_safe (\<lambda>st. Inr (fhClear c st))"
  "fh_safe (\<lambda>st. Inr (fhDeleteMessage c st m))"
  "fh_safe fhFinishFetchingFromServer"
proof -
  have r: "fst (snd st') = (if Id_isValid i then truncateNodeHistory d c i else clearNodeHistory d c)"
    if "fhTruncateHistory c (fh, d, ev) i = Inr st'" for fh d ev st'
    using that by (cases "getNodeHistoryInfo (truncateNodeHistory d c i) c")
      (auto simp: fhTruncateHistory_def fhClear_def Let_def bindR_Inr_iff split: if_splits)
  show "fh_safe (\<lambda>st. fhTruncateHistory c st i)"
    unfolding fh_safe_def
  proof (intro allI impI)
    fix fh d ev fh' d' ev' assume "db_ok d" "fhTruncateHistory c (fh, d, ev) i = Inr (fh', d', ev')"
    with r [OF this(2)] show "db_ok d' \<and> sendKeys d' = sendKeys d"
      using truncNode_safe [of d c i] clearNode_safe [of d c] by (simp split: if_splits)
  qed
  show "fh_safe (\<lambda>st. Inr (fhClear c st))"
    using clearNode_safe by (simp add: fh_safe_def fhClear_def)
  have "db_ok (orElse d (deleteMsgFromNodeHistory d c m)) \<and> sendKeys (orElse d (deleteMsgFromNodeHistory d c m)) = sendKeys d"
    if "db_ok d" for d
    using runDb_ok [OF that, of c "DelNode m"]
    by (auto simp: orElse_def deleteMsgFromNodeHistory_def sendKeys_def Let_def split: sum.splits if_splits)
  then show "fh_safe (\<lambda>st. Inr (fhDeleteMessage c st m))"
    by (auto simp: fh_safe_def fhDeleteMessage_def Let_def split: prod.splits)
  show "fh_safe fhFinishFetchingFromServer"
    by (auto simp: fh_safe_def fhFinishFetchingFromServer_def Let_def split: if_splits)
qed

lemma keeps_fhAddS [keeps_intros]: "(\<And>m'. keeps (chat_inv c ks) (k m')) \<Longrightarrow> keeps (chat_inv c ks) (fhAddS env m isNew isLocal k)"
proof (rule keepsI)
  fix s assume k: "\<And>m'. keeps (chat_inv c ks) (k m')" and s: "chat_inv c ks s"
  show "chat_inv c ks (fst (fhAddS env m isNew isLocal k s))"
  proof (cases "fhAddMessage (eChatId env) (cFh s, cDb s, []) m isNew isLocal")
    case (Inr r)
    then obtain fh d ev m' where r: "r = ((fh, d, ev), m')" by (metis prod.collapse)
    have "db_ok d \<and> sendKeys d = sendKeys (cDb s)" using fhAdd_safe [OF chat_inv_ok [OF s]] Inr r by blast
    then have "chat_inv c ks (s\<lparr>cFh := fh, cDb := d, cOut := cOut s @ map OAttachments ev\<rparr>)"
      using s by (simp add: inv_defs ownKeys_def otherKeys_def)
    then show ?thesis using keepsD [OF k] Inr r by (simp add: fhAddS_def)
  qed (simp add: fhAddS_def s)
qed

section \<open>Shared operations and pointers\<close>

lemma keeps_updBuf [keeps_intros]: "keeps (chat_inv c ks) (modS (\<lambda>s. s\<lparr>cBuf := f s\<rparr>))"
  by (rule keeps_modS) (simp add: inv_defs)

lemma keeps_notifyLast [keeps_intros]: "keeps (chat_inv c ks) notifyLastTextMsg"
  unfolding notifyLastTextMsg_def by (intro keeps_intros) (simp add: inv_defs)

lemma setLastText_inv: "chat_inv c ks s \<Longrightarrow> chat_inv c ks (setLastText m i s)"
  by (simp add: inv_defs setLastText_def ltAssignMsg_def ltAssign_def)

lemma keeps_lastText [keeps_intros]: "keeps (chat_inv c ks) (onLastTextMsgUpdated m i)"
  unfolding onLastTextMsgUpdated_def by (intro keeps_intros) (rule setLastText_inv)

lemma lastTextFromDb_inv: "chat_inv c ks s \<Longrightarrow> chat_inv c ks (lastTextFromDb env s)"
  by (simp add: inv_defs lastTextFromDb_def ltClear_def ltAssign_def split: sum.split)

lemma chat_inv_out [simp]: "chat_inv c ks (s\<lparr>cOut := x\<rparr>) = chat_inv c ks s"
  by (simp add: inv_defs)

lemma findLastTextMsg_inv: "chat_inv c ks s \<Longrightarrow> chat_inv c ks (snd (findLastTextMsg env s))"
  using setLastText_inv [of c ks s] lastTextFromDb_inv [of c ks s env]
  by (simp add: findLastTextMsg_def Let_def split: option.split prod.split)

lemma keeps_findAndNotify [keeps_intros]: "keeps (chat_inv c ks) (findAndNotifyLastTextMsg env)"
  unfolding findAndNotifyLastTextMsg_def
proof (rule keeps_readS_dep)
  fix s assume s: "chat_inv c ks s"
  obtain fin s' where r: "findLastTextMsg env s = (fin, s')" by fastforce
  have "chat_inv c ks s'" using findLastTextMsg_inv [OF s, of env] r by simp
  moreover have "keeps (chat_inv c ks) (whenS (\<lambda>_. fin) [notifyLastTextMsg])" by (intro keeps_intros)
  ultimately show "chat_inv c ks (fst ((case findLastTextMsg env s of (done, s') \<Rightarrow>
      doS [modS (\<lambda>_. s'), whenS (\<lambda>_. done) [notifyLastTextMsg]]) s))"
    using r keepsD by (simp add: modS_def)
qed

lemma keeps_unread [keeps_intros]: "keeps (chat_inv c ks) (calculateUnreadCount env)"
  unfolding calculateUnreadCount_def by (intro keeps_intros) (simp add: inv_defs)

lemma keeps_pending [keeps_intros]:
  "keeps (chat_inv c ks) (addPendingReaction p)"
  "keeps (chat_inv c ks) (removePendingReaction r i)"
  "keeps (chat_inv c ks) (cleanPendingReactions i)"
  "keeps (chat_inv c ks) (cleanPendingReactionsOlderThan idx)"
  unfolding addPendingReaction_def removePendingReaction_def cleanPendingReactions_def cleanPendingReactionsOlderThan_def
  by (intro keeps_intros; simp add: inv_defs)+

lemma keeps_reactions [keeps_intros]:
  "keeps (chat_inv c ks) (retryPendingReactions env)"
  "keeps (chat_inv c ks) (onReactionReject env i)"
  "keeps (chat_inv c ks) (flushChatPendingReactions env)"
  "keeps (chat_inv c ks) (manageReaction env m r enc op)"
  unfolding retryPendingReactions_def onReactionReject_def flushChatPendingReactions_def manageReaction_def
  by (intro keeps_intros db_safes; simp add: keeps_intros inv_defs split: prod.split option.split)+

lemma keeps_links [keeps_intros]:
  "keeps (chat_inv c ks) (manageRichLinkMessage env m)"
  "keeps (chat_inv c ks) (requestRichLink env m)"
  "keeps (chat_inv c ks) (removePendingRichLinks idx)"
  "keeps (chat_inv c ks) (removeMessageReactions idx b)"
  unfolding manageRichLinkMessage_def requestRichLink_def removePendingRichLinks_def removeMessageReactions_def
  by (intro keeps_intros; simp add: keeps_intros inv_defs Let_def split: option.split)+


lemma keeps_pointers [keeps_intros]:
  "keeps (chat_inv c ks) (notifyStatus env st own a b)"
  "keeps (chat_inv c ks) (onLastReceived env i)"
  "keeps (chat_inv c ks) (onLastSeen env i resend)"
  "keeps (chat_inv c ks) (onSeenTimer env idx i)"
proof -
  show n: "keeps (chat_inv c ks) (notifyStatus env st own a b)" for st own a b
    unfolding notifyStatus_def by (intro keeps_intros)
  show "keeps (chat_inv c ks) (onLastReceived env i)" "keeps (chat_inv c ks) (onLastSeen env i resend)"
    "keeps (chat_inv c ks) (onSeenTimer env idx i)"
    unfolding onLastReceived_def onLastSeen_def onSeenTimer_def
    by (intro keeps_intros db_safes n; simp add: inv_defs Let_def)+
qed

lemma keeps_handleLast [keeps_intros]:
  "keeps (chat_inv c ks) (handleLastReceivedSeen env i)"
  "keeps (chat_inv c ks) (seenImport env i)"
  unfolding handleLastReceivedSeen_def seenImport_def by (intro keeps_intros)+

lemma keeps_history [keeps_intros]:
  "(\<And>info. keeps (chat_inv c ks) (k info)) \<Longrightarrow> keeps (chat_inv c ks) (getDbHistInfoAndInitOldestKnownMsgId env k)"
  "keeps (chat_inv c ks) (truncateAttachmentHistory env)"
  "keeps (chat_inv c ks) (deleteOlder idx)"
  unfolding getDbHistInfoAndInitOldestKnownMsgId_def truncateAttachmentHistory_def deleteOlder_def
  by (intro keeps_intros db_safes; auto simp: inv_defs bindR_Inr_iff)+

lemma keeps_truncate [keeps_intros]: "keeps (chat_inv c ks) (handleTruncate env m idx)"
  unfolding handleTruncate_def by (intro keeps_intros db_safes; simp add: inv_defs)

lemma keeps_retention [keeps_intros]:
  "keeps (chat_inv c ks) (nextRetentionHistCheck env b)"
  "keeps (chat_inv c ks) (handleRetentionTime env b)"
  "keeps (chat_inv c ks) (onRetentionTimeUpdated env period)"
proof -
  show n: "keeps (chat_inv c ks) (nextRetentionHistCheck env b)" for b
    unfolding nextRetentionHistCheck_def by (intro keeps_intros)
  show h: "keeps (chat_inv c ks) (handleRetentionTime env b)" for b
    unfolding handleRetentionTime_def by (intro keeps_intros db_safes n; simp add: inv_defs)
  show "keeps (chat_inv c ks) (onRetentionTimeUpdated env period)"
    unfolding onRetentionTimeUpdated_def by (intro keeps_intros h; simp add: inv_defs)
qed

end
