(* ===== verification/ChatKeepsQueue.thy ===== *)
theory ChatKeepsQueue
  imports ChatKeeps
begin

text \<open>The operations of the sending queue keep the invariant of a chat: every change of the queue in memory has its counterpart in the cache.\<close>

section \<open>Rows\<close>

lemma filter_nth_distinct: "distinct ys \<Longrightarrow> k < length ys \<Longrightarrow> filter (\<lambda>y. y \<noteq> ys ! k) ys = eraseAt k ys"
proof (induction ys arbitrary: k)
  case (Cons y ys)
  then show ?case
  proof (cases k)
    case 0
    with Cons.prems show ?thesis by (auto simp: eraseAt_def intro!: filter_True)
  next
    case (Suc j)
    with Cons show ?thesis by (auto simp: eraseAt_def dest: nth_mem)
  qed
qed simp

lemma keys_erase:
  assumes "distinct (map snd xs)" "map snd (filter (\<lambda>x. fst x = c) xs) = ys" "k < length ys"
  shows "map snd (filter (\<lambda>x. fst x = c) (filter (\<lambda>x. snd x \<noteq> ys ! k) xs)) = eraseAt k ys \<and>
    filter (\<lambda>x. fst x \<noteq> c) (filter (\<lambda>x. snd x \<noteq> ys ! k) xs) = filter (\<lambda>x. fst x \<noteq> c) xs"
proof
  have d: "distinct ys" using assms(1,2) distinct_map_filter by blast
  have "map snd (filter (\<lambda>x. fst x = c) (filter (\<lambda>x. snd x \<noteq> ys ! k) xs)) =
      filter (\<lambda>y. y \<noteq> ys ! k) (map snd (filter (\<lambda>x. fst x = c) xs))"
    by (simp add: filter_map comp_def conj_commute)
  then show "map snd (filter (\<lambda>x. fst x = c) (filter (\<lambda>x. snd x \<noteq> ys ! k) xs)) = eraseAt k ys"
    using assms(2,3) filter_nth_distinct [OF d] by simp
  have "ys ! k \<in> set ys" using assms(3) by simp
  then obtain z where z: "z \<in> set xs" "fst z = c" "snd z = ys ! k" using assms(2) by auto
  have "snd x \<noteq> ys ! k" if "x \<in> set xs" "fst x \<noteq> c" for x
    using assms(1) that z by (metis distinct_map inj_on_def)
  then show "filter (\<lambda>x. fst x \<noteq> c) (filter (\<lambda>x. snd x \<noteq> ys ! k) xs) = filter (\<lambda>x. fst x \<noteq> c) xs"
    by (auto intro!: filter_cong)
qed

lemma sendKeys_sorted_distinct: "db_ok d \<Longrightarrow> distinct (map snd (sendKeys d))"
  by (simp add: db_ok_def sendKeys_def comp_def)

lemma filter_rowid_one: "distinct (map sRowid t) \<Longrightarrow> r \<in> set t \<Longrightarrow> length (filter (\<lambda>x. sRowid x = sRowid r) t) = 1"
proof (induction t)
  case (Cons a t)
  have "sRowid x \<noteq> sRowid a" if "x \<in> set t" for x using Cons.prems(1) that by (metis distinct.simps(2) imageI list.simps(9) list.set_map)
  with Cons show ?case by (cases "r = a") (auto simp: filter_empty_conv)
qed simp

lemma deleteSendingItem_keys:
  assumes "db_ok d" "rowid \<in> snd ` set (sendKeys d)"
  obtains d' where "deleteSendingItem d rowid = Inr d'" "sendKeys d' = filter (\<lambda>k. snd k \<noteq> rowid) (sendKeys d)" "db_ok d'"
proof
  let ?d = "d\<lparr>dSending := filter (\<lambda>r. sRowid r \<noteq> rowid) (dSending d)\<rparr>"
  from assms(2) obtain r where "r \<in> set (dSending d)" "sRowid r = rowid" by (auto simp: sendKeys_def)
  then show "deleteSendingItem d rowid = Inr ?d"
    using filter_rowid_one [of "dSending d" r] assms(1) by (simp add: deleteSendingItem_def db_ok_def)
  then show "db_ok ?d" using runDb_ok [OF assms(1), of _ "DelSending rowid"] by (simp add: orElse_def)
  show "sendKeys ?d = filter (\<lambda>k. snd k \<noteq> rowid) (sendKeys d)" by (simp add: sendKeys_def filter_map comp_def)
qed

text \<open>An item leaves the queue and the cache.\<close>

definition dropRow :: "nat \<Rightarrow> ChatdDb \<Rightarrow> ChatdDb" where
  "dropRow rowid d = orElse d (deleteSendingItem d rowid)"

lemma erase_inv:
  assumes s: "chat_inv c ks s" and k: "k < length (mSending s)"
    and d: "db_ok d" "sendKeys d = sendKeys (dropRow (siRowid (mSending s ! k)) (cDb s))"
  shows "chat_inv c ks (eraseItem k (s\<lparr>cDb := d\<rparr>))"
proof -
  let ?r = "siRowid (mSending s ! k)" and ?x = "sendKeys (cDb s)"
  have own: "map snd (filter (\<lambda>x. fst x = c) ?x) = map siRowid (mSending s)"
    using s by (simp add: inv_defs ownKeys_def)
  have r: "map siRowid (mSending s) ! k = ?r" using k by simp
  have "?r \<in> set (map siRowid (mSending s))" using k nth_mem by auto
  then have "?r \<in> snd ` set ?x" unfolding own [symmetric] by auto
  then have keys: "sendKeys d = filter (\<lambda>x. snd x \<noteq> ?r) ?x"
    using deleteSendingItem_keys [OF chat_inv_ok [OF s], of ?r] d(2) by (metis dropRow_def orElse_def sum.simps(6))
  have e: "map snd (filter (\<lambda>x. fst x = c) (sendKeys d)) = eraseAt k (map siRowid (mSending s))"
    "filter (\<lambda>x. fst x \<noteq> c) (sendKeys d) = filter (\<lambda>x. fst x \<noteq> c) ?x"
    using keys_erase [OF sendKeys_sorted_distinct [OF chat_inv_ok [OF s]] own, of k] k unfolding keys r by simp_all
  have "sorted (map snd (sendKeys d))" unfolding keys using s by (simp add: inv_defs sorted_filter)
  moreover have "map siRowid (eraseAt k (mSending s)) = eraseAt k (map siRowid (mSending s))"
    by (simp add: eraseAt_def take_map drop_map)
  ultimately have "queue_ok c (eraseItem k (s\<lparr>cDb := d\<rparr>))"
    using s e(1) k by (auto simp: inv_defs ownKeys_def eraseItem_def itErase_def eraseAt_def split: option.splits)
  moreover have "flags_ok (eraseItem k (s\<lparr>cDb := d\<rparr>))" "otherKeys c d = ks"
    using s e(2) by (simp_all add: inv_defs eraseItem_def otherKeys_def)
  ultimately show ?thesis using d(1) by (simp add: chat_inv_def eraseItem_def)
qed

lemma dropRow_ok: "db_ok d \<Longrightarrow> db_ok (dropRow r d)"
  using runDb_ok [of d 0 "DelSending r"] by (simp add: dropRow_def)

lemma chat_inv_sends: "chat_inv c ks s \<Longrightarrow> map siRowid q = map siRowid (mSending s) \<Longrightarrow> chat_inv c ks (s\<lparr>mSending := q\<rparr>)"
  by (simp add: inv_defs ownKeys_def) (metis length_map)

lemma setItem_inv:
  assumes "chat_inv c ks s" "k < length (mSending s) \<Longrightarrow> siRowid it = siRowid (mSending s ! k)"
  shows "chat_inv c ks (setItem k it s)"
  unfolding setItem_def
proof (rule chat_inv_sends [OF assms(1)])
  show "map siRowid ((mSending s)[k := it]) = map siRowid (mSending s)"
    using assms(2) by (cases "k < length (mSending s)") (simp_all add: map_update list_update_same_conv list_update_beyond)
qed

section \<open>Leaving the queue\<close>

lemma step_simps: "dbS f s = (s\<lparr>cDb := orElse (cDb s) (f (cDb s))\<rparr>, None)" "modS g s = (g s, None)"
  "listenS h s = (s\<lparr>cOut := cOut s @ [OListener (h s)]\<rparr>, None)" "outS o' s = (s\<lparr>cOut := cOut s @ o' s\<rparr>, None)"
  by (simp_all add: dbS_def modS_def listenS_def outS_def)

lemma eraseItem_out: "eraseItem k (s\<lparr>cDb := d, cOut := x\<rparr>) = (eraseItem k (s\<lparr>cDb := d\<rparr>))\<lparr>cOut := x\<rparr>"
  by (simp add: eraseItem_def)

lemma drop_inv: "chat_inv c ks s \<Longrightarrow> k < length (mSending s) \<Longrightarrow>
    chat_inv c ks (eraseItem k (s\<lparr>cDb := dropRow (siRowid (mSending s ! k)) (cDb s)\<rparr>))"
  by (rule erase_inv) (simp_all add: dropRow_ok chat_inv_ok)

lemma move_inv:
  assumes "chat_inv c ks s" "k < length (mSending s)"
  shows "chat_inv c ks (fst (moveItemToManualSending env k reason s))"
proof -
  let ?it = "mSending s ! k"
  let ?d1 = "dropRow (siRowid ?it) (cDb s)"
  let ?d2 = "orElse ?d1 (saveItemToManualSending ?d1 (eChatId env) ?it reason)"
  have "db_ok ?d2 \<and> sendKeys ?d2 = sendKeys ?d1"
    using db_safe_chat(5) [of "eChatId env" ?it reason] dropRow_ok [OF chat_inv_ok [OF assms(1)], of "siRowid ?it"]
    unfolding db_safe_def by (cases "saveItemToManualSending ?d1 (eChatId env) ?it reason") (auto simp: orElse_def)
  then have "chat_inv c ks (eraseItem k (s\<lparr>cDb := ?d2\<rparr>))" by (intro erase_inv assms) simp_all
  then show ?thesis
    by (simp add: moveItemToManualSending_def readS_def step_simps eraseItem_out flip: dropRow_def)
qed

lemma nextUnsent_inv: "chat_inv c ks s \<Longrightarrow> mSending s \<noteq> [] \<Longrightarrow>
    chat_inv c ks (s\<lparr>mNextUnsent := (if mNextUnsent s = Some 0 then Some 1 else mNextUnsent s)\<rparr>)"
  by (cases "mSending s") (auto simp: inv_defs)

lemma keeps_remove [keeps_intros]:
  assumes "\<And>r. keeps (chat_inv c ks) (k r)"
  shows "keeps (chat_inv c ks) (msgRemoveFromSending env x i k)"
  unfolding msgRemoveFromSending_def
proof (rule keeps_ifS_dep)
  let ?nx = "\<lambda>s. s\<lparr>mNextUnsent := (if mNextUnsent s = Some 0 then Some 1 else mNextUnsent s)\<rparr>"
  fix s assume s: "chat_inv c ks s" "takesConfirm s x"
  then have ne: "mSending s \<noteq> []" by (auto simp: takesConfirm_def)
  have s1: "chat_inv c ks (?nx s)" and l: "0 < length (mSending (?nx s))" using nextUnsent_inv [OF s(1) ne] ne by simp_all
  note m = move_inv [OF s1 l]
  note dr = drop_inv [OF s1 l]
  show "chat_inv c ks (fst (doS [modS ?nx,
      if i = 0 then doS [readS (\<lambda>s. if mOwnPrivilege s < privVal PRIV_FULL then kManualSendNoWriteAccess else kManualSendGeneralReject)
                          (\<lambda>r. moveItemToManualSending env 0 r), k None]
      else readS (\<lambda>s. mSending s ! 0) (\<lambda>it. doS [dbS (\<lambda>d. deleteSendingItem d (siRowid it)), modS (eraseItem 0), k (Some (siMsg it))])] s))"
  proof (cases "i = 0")
    case True
    let ?r = "if mOwnPrivilege s < privVal PRIV_FULL then kManualSendNoWriteAccess else kManualSendGeneralReject"
    obtain s2 e where "moveItemToManualSending env 0 ?r (?nx s) = (s2, e)" by fastforce
    with m [of env ?r] True keepsD [OF assms, of s2 None] show ?thesis
      by (simp add: step_simps readS_def split: prod.split option.split)
  next
    case False
    with keepsD [OF assms dr] show ?thesis
      by (simp add: step_simps readS_def dropRow_def split: prod.split option.split)
  qed
next
  fix s assume "chat_inv c ks s"
  then show "chat_inv c ks (fst (doS [k None] s))" using keepsD [OF assms] by simp
qed

lemma keeps_dropFront: "chat_inv c ks s \<Longrightarrow> mSending s \<noteq> [] \<Longrightarrow> chat_inv c ks (fst (dropFront s))"
  using drop_inv [of c ks s 0] by (simp add: dropFront_def readS_def step_simps dropRow_def hd_conv_nth)

lemma if_step: "chat_inv c ks (fst (x s)) \<Longrightarrow> chat_inv c ks (fst (y s)) \<Longrightarrow> chat_inv c ks (fst ((if b then x else y) s))"
  by simp

lemma keeps_rejectMsgupd [keeps_intros]: "keeps (chat_inv c ks) (rejectMsgupd env i reason)"
  unfolding rejectMsgupd_def
proof (rule keeps_readS_dep)
  fix s assume s: "chat_inv c ks s"
  show "chat_inv c ks (fst ((case mSending s of
     [] \<Rightarrow> throwS (RuntimeError ''rejectMsgupd: Send queue is empty'')
   | front # _ \<Rightarrow>
       (if siOpcode front \<noteq> OP_MSGUPD \<and> siOpcode front \<noteq> OP_MSGUPDX
        then throwS (RuntimeError ''rejectMsgupd: Front of send queue does not match'')
        else if mId (siMsg front) \<noteq> i
        then throwS (RuntimeError ''rejectMsgupd: Message msgid/msgxid does not match the one at the front of send queue'')
        else if msgType (siMsg front) = kMsgContainsMeta then dropFront
        else if reason = 2
        then doS [listenS (\<lambda>s. LEditRejected (siMsg front) kManualSendEditNoChange), dropFront]
        else moveItemToManualSending env 0 (if reason = 0 then kManualSendNoWriteAccess else kManualSendTooOld))) s))"
  proof (cases "mSending s")
    case (Cons front q)
    have ne: "mSending s \<noteq> []" "0 < length (mSending s)" by (simp_all add: Cons)
    have t: "chat_inv c ks (fst (throwS e s))" for e by (simp add: throwS_def s)
    have "chat_inv c ks (fst (dropFront (s\<lparr>cOut := x\<rparr>)))" for x using s ne by (intro keeps_dropFront) simp_all
    then have l: "chat_inv c ks (fst (doS [listenS h, dropFront] s))" for h by (simp add: step_simps)
    show ?thesis unfolding Cons list.case
      by (intro if_step t l keeps_dropFront move_inv s ne)
  qed (simp add: throwS_def s)
qed

lemma keeps_mapQueue:
  "(\<And>s. chat_inv c ks s \<Longrightarrow> map siRowid (f s) = map siRowid (mSending s)) \<Longrightarrow>
   (\<And>s. db_ok (cDb s) \<Longrightarrow> db_ok (g s) \<and> sendKeys (g s) = sendKeys (cDb s)) \<Longrightarrow>
   keeps (chat_inv c ks) (modS (\<lambda>s. s\<lparr>mSending := f s, cDb := g s\<rparr>))"
proof (rule keeps_modS)
  fix s assume s: "chat_inv c ks s" and f: "\<And>s. chat_inv c ks s \<Longrightarrow> map siRowid (f s) = map siRowid (mSending s)"
    and g: "\<And>s. db_ok (cDb s) \<Longrightarrow> db_ok (g s) \<and> sendKeys (g s) = sendKeys (cDb s)"
  show "chat_inv c ks (s\<lparr>mSending := f s, cDb := g s\<rparr>)"
    using chat_inv_db [OF chat_inv_sends [OF s f [OF s]], of "g s"] g [OF chat_inv_ok [OF s]] by simp
qed

end
