(* ===== verification/ChatKeepsSend.thy ===== *)
theory ChatKeepsSend
  imports ChatKeepsQueue
begin

text \<open>Encrypting, sending, confirming and rejecting messages keep the invariant of a chat.\<close>

section \<open>Encrypting and sending\<close>

lemma chat_inv_more [simp]:
  "chat_inv c ks (s\<lparr>mEncryptionHalted := b\<rparr>) = chat_inv c ks s"
  by (simp add: inv_defs)

lemma addBackRefs_inv:
  assumes "chat_inv c ks s" "addBackRefs e k s = Inr s'"
  shows "chat_inv c ks s'"
proof (cases "s' = s")
  case False
  then obtain rs where "s' = setItem k ((mSending s ! k)\<lparr>siMsg := (siMsg (mSending s ! k))\<lparr>backRefs := rs\<rparr>\<rparr>) s"
    using assms(2) by (auto simp: addBackRefs_def Let_def bindR_Inr_iff split: if_splits)
  then show ?thesis using setItem_inv [OF assms(1)] by simp
qed (use assms in simp)

lemma keeps_sendKeyAndMessage [keeps_intros]: "keeps (chat_inv c ks) (sendKeyAndMessage env cmd kc)"
  unfolding sendKeyAndMessage_def by (intro keeps_intros)

lemma keeps_onEncryptFailed [keeps_intros]: "keeps (chat_inv c ks) (onEncryptFailed env i)"
  unfolding onEncryptFailed_def by (intro keeps_intros) simp

lemma keeps_first: "P (f s) \<Longrightarrow> keeps P (doS xs) \<Longrightarrow> P (fst (doS (modS f # xs) s))"
  by (simp add: keeps_wp modS_def)

lemma keeps_encrypt [keeps_intros]:
  assumes "\<And>ok. keeps (chat_inv c ks) (cont ok)"
  shows "keeps (chat_inv c ks) (msgEncryptAndSend e k cont)"
proof -
  have now: "keeps (chat_inv c ks) (readS (\<lambda>s. mSending s ! k) (\<lambda>it. let m = siMsg it in
       (case seEncrypt e m (siRecipients it) (newMsgCommand (siOpcode it) (eChatId (seEnv e)) (eMyHandle (seEnv e)) (mId m)
                (ts m) (updated m) CHATD_KEYID_INVALID) of
          EncNow cmd kc kid \<Rightarrow> doS [
            modS (setItem k (it\<lparr>siMsg := m\<lparr>keyid := kid\<rparr>, siMsgCmd := Some cmd, siKeyCmd := kc\<rparr>)),
            dbS (\<lambda>d. addBlobsToSendingItem d (siRowid it) cmd kc kid),
            sendKeyAndMessage (seEnv e) cmd kc,
            cont True]
        | EncLater \<Rightarrow> doS [
            modS (\<lambda>s. s\<lparr>mEncryptionHalted := True\<rparr>),
            outS (\<lambda>s. [OCryptoEncrypt m (siRowid it)]),
            cont False]
        | EncFail \<Rightarrow> doS [onEncryptFailed (seEnv e) (mId m), cont False])))" (is "keeps _ (readS _ ?k)")
  proof (rule keeps_readS_dep)
    fix s assume s: "chat_inv c ks s"
    let ?it = "mSending s ! k"
    have fail: "keeps (chat_inv c ks) (doS [onEncryptFailed (seEnv e) i, cont False])" for i
      by (intro keeps_intros assms)
    have later: "keeps (chat_inv c ks) (doS [modS (\<lambda>s. s\<lparr>mEncryptionHalted := True\<rparr>), outS o', cont False])" for o'
      by (intro keeps_intros assms) simp
    have send: "chat_inv c ks (fst (doS [modS (setItem k (?it\<lparr>siMsg := m', siMsgCmd := Some cmd, siKeyCmd := kc\<rparr>)),
        dbS (\<lambda>d. addBlobsToSendingItem d r cmd kc kid), sendKeyAndMessage (seEnv e) cmd kc, cont True] s))" for m' cmd kc kid r
      by (rule keeps_first, rule setItem_inv [OF s]) (simp, intro keeps_intros db_safes assms)
    show "chat_inv c ks (fst (?k ?it s))"
      using keepsD [OF fail s] keepsD [OF later s] send
      by (simp only: Let_def split: EncResult.split) blast
  qed
  show ?thesis unfolding msgEncryptAndSend_def
    by (intro keeps_intros assms now) (rule addBackRefs_inv)
qed

lemma keeps_flushLoop [keeps_intros]: "keeps (chat_inv c ks) (flushLoop e n)"
proof (induction n)
  case (Suc n)
  have step: "keeps (chat_inv c ks) (msgEncryptAndSend e i (\<lambda>ok. if ok then flushLoop e n else doS []))" for i
    by (intro keeps_intros Suc)
  show ?case unfolding flushLoop.simps
  proof (rule keeps_readS_dep)
    fix s assume s: "chat_inv c ks s"
    show "chat_inv c ks (fst ((case mNextUnsent s of None \<Rightarrow> throwS OutOfBounds
        | Some i \<Rightarrow> whenS (\<lambda>s. i < length (mSending s)) [modS (\<lambda>s. s\<lparr>mNextUnsent := Some (Suc i)\<rparr>),
            msgEncryptAndSend e i (\<lambda>ok. if ok then flushLoop e n else doS [])]) s))"
    proof (cases "mNextUnsent s")
      case (Some i)
      have "chat_inv c ks (s\<lparr>mNextUnsent := Some (Suc i)\<rparr>)" if "i < length (mSending s)" using s that by (simp add: inv_defs)
      then show ?thesis using s Some keepsD [OF step] by (simp add: ifS_def modS_def)
    qed (simp add: throwS_def s)
  qed
qed (simp only: flushLoop.simps keeps_doS_Nil)

lemma keeps_flush [keeps_intros]: "keeps (chat_inv c ks) (flushOutputQueue e b)"
  unfolding flushOutputQueue_def by (intro keeps_intros) (simp add: inv_defs)

lemma append_inv:
  assumes "chat_inv c ks s" "addSendingItem (cDb s) c it = (d, it')"
  shows "chat_inv c ks ((appendItem it' s)\<lparr>cDb := d\<rparr>)"
proof -
  have db: "db_ok (cDb s)" by (rule chat_inv_ok [OF assms(1)])
  have d: "sendKeys d = sendKeys (cDb s) @ [(c, Suc (dLastRowid (cDb s)))]" and it': "siRowid it' = Suc (dLastRowid (cDb s))"
    using assms(2) by (auto simp: addSendingItem_def sendKeys_def Let_def)
  have "db_ok d" using runDb_ok [OF db, of c "AddSending it"] assms(2) by simp
  moreover have "\<forall>k \<in> set (sendKeys (cDb s)). snd k \<le> dLastRowid (cDb s)" using db by (simp add: db_ok_def sendKeys_def)
  then have "sorted (map snd (sendKeys d))" using assms(1) unfolding d by (auto simp: inv_defs sorted_append le_Suc_eq)
  ultimately show ?thesis using assms(1) it'
    by (simp add: inv_defs ownKeys_def otherKeys_def appendItem_def d split: if_splits) (metis le_SucI)
qed

lemma keeps_post [keeps_intros]:
  assumes "eChatId (seEnv e) = c"
  shows "keeps (chat_inv c ks) (postMsgToSending e op m rcpts)"
  unfolding postMsgToSending_def
proof (intro keeps_doS_Cons keeps_doS_Nil keeps_flush)
  show "keeps (chat_inv c ks) (modS (\<lambda>s. let (d, it) = addSendingItem (cDb s) (eChatId (seEnv e)) (newSendingItem op m rcpts 0)
               in (appendItem it s)\<lparr>cDb := d\<rparr>))"
    unfolding assms by (rule keeps_modS) (auto simp: Let_def split: prod.split intro: append_inv)
  show "keeps (chat_inv c ks) (modS (\<lambda>s. if mNextUnsent s = Some (length (mSending s)) then s\<lparr>mNextUnsent := Some (length (mSending s) - 1)\<rparr> else s))"
    by (rule keeps_modS) (simp add: inv_defs)
qed

lemma keeps_onEncrypted [keeps_intros]: "keeps (chat_inv c ks) (onEncrypted e rowid cmd kc kid)"
  unfolding onEncrypted_def
proof (rule keeps_readS, rule keeps_option, rule keeps_throwS)
  fix k
  show "keeps (chat_inv c ks) (doS [
       modS (\<lambda>s. let it = mSending s ! k in setItem k (it\<lparr>siMsg := (siMsg it)\<lparr>keyid := kid\<rparr>\<rparr>) s),
       modS (\<lambda>s. setItem 0 ((mSending s ! 0)\<lparr>siMsgCmd := Some cmd, siKeyCmd := kc\<rparr>) s),
       dbS (\<lambda>d. addBlobsToSendingItem d rowid cmd kc kid), sendKeyAndMessage (seEnv e) cmd kc,
       modS (\<lambda>s. s\<lparr>mEncryptionHalted := False\<rparr>), flushOutputQueue e False])"
    by (intro keeps_intros db_safes) (simp_all add: setItem_inv Let_def)
qed

section \<open>Submission, edits, confirmations\<close>

lemma keeps_onSubmit [keeps_intros]: "eChatId (seEnv e) = c \<Longrightarrow> keeps (chat_inv c ks) (onSubmit e m rcpts)"
  unfolding onSubmit_def by (intro keeps_intros)

lemma keeps_onEdit [keeps_intros]: "eChatId (seEnv e) = c \<Longrightarrow> keeps (chat_inv c ks) (onEdit e m rcpts)"
  unfolding onEdit_def by (intro keeps_intros)

lemma msgSubmit_inv: "chat_inv c ks s \<Longrightarrow> chat_inv c ks (fst (msgSubmit env x r t k s))"
  by (simp add: msgSubmit_def Let_def)

lemma runDb_keys:
  "db_ok d \<Longrightarrow> db_ok (fst (updateSendingItemsContentAndDelta d c m)) \<and> sendKeys (fst (updateSendingItemsContentAndDelta d c m)) = sendKeys d"
  "db_ok d \<Longrightarrow> db_ok (fst (updateSendingItemsMsgidAndOpcode d c x i)) \<and> sendKeys (fst (updateSendingItemsMsgidAndOpcode d c x i)) = sendKeys d"
  "db_ok d \<Longrightarrow> db_ok (fst (updateSendingItemsKeyid d c l k)) \<and> sendKeys (fst (updateSendingItemsKeyid d c l k)) = sendKeys d"
  "db_ok d \<Longrightarrow> db_ok (fst (deleteManualSendItem d n)) \<and> sendKeys (fst (deleteManualSendItem d n)) = sendKeys d"
  using runDb_ok [of d c "ContentUpd m"] runDb_ok [of d c "OpcodeUpd x i"] runDb_ok [of d c "KeyidUpd l k"]
  by (simp_all add: updateSendingItemsContentAndDelta_def updateSendingItemsMsgidAndOpcode_def updateSendingItemsKeyid_def
      deleteManualSendItem_def sendKeys_def db_ok_other Let_def)

lemma editQueued_rows: "map siRowid (editQueued m dat age q) = map siRowid q"
  by (rule nth_equalityI) (simp_all add: editQueued_def Let_def nth_enumerate_eq split: prod.split)

lemma chat_inv_both: "chat_inv c ks s \<Longrightarrow> map siRowid q = map siRowid (mSending s) \<Longrightarrow> db_ok d \<Longrightarrow> sendKeys d = sendKeys (cDb s) \<Longrightarrow>
    chat_inv c ks (s\<lparr>mSending := q, cDb := d\<rparr>)"
  using chat_inv_db [OF chat_inv_sends, of c ks s q d] by simp

lemma msgModify_inv:
  assumes "chat_inv c ks s" "msgModify env m dat t s = Inr (s', r)"
  shows "chat_inv c ks s'"
proof -
  have e: "chat_inv c ks (s\<lparr>mSending := editQueued m dat a (mSending s),
      cDb := fst (updateSendingItemsContentAndDelta (cDb s) (eChatId env) (m\<lparr>mData := dat\<rparr>))\<rparr>)" for a
    by (intro chat_inv_both assms(1) editQueued_rows) (simp_all add: runDb_keys chat_inv_ok [OF assms(1)])
  show ?thesis using assms e
    by (auto simp: msgModify_def Let_def split: if_splits option.splits)
qed

lemma keeps_addRefid [keeps_intros]: "keeps (chat_inv c ks) (addRefid ref idx m)"
  unfolding addRefid_def by (intro keeps_intros) (simp add: inv_defs)

lemma keeps_withAttachment [keeps_intros]:
  "(\<And>m'. keeps (chat_inv c ks) (k m')) \<Longrightarrow> keeps (chat_inv c ks) (withAttachment env m isNew idx k)"
  unfolding withAttachment_def by (intro keeps_intros)

lemma keeps_stillAlive [keeps_intros]: "keeps (chat_inv c ks) (stillAlive idx)"
  unfolding stillAlive_def by (intro keeps_intros)

lemma keeps_confirmLast [keeps_intros]:
  "keeps (chat_inv c ks) (confirmLastText env x m idx)"
  "keeps (chat_inv c ks) (richLinkOf env m)"
  unfolding confirmLastText_def richLinkOf_def by (intro keeps_intros; simp add: inv_defs ltConfirm_def)+

lemma confirmEdits_rows: "map siRowid (confirmEdits x i q) = map siRowid q"
  by (simp add: confirmEdits_def)

lemma keeps_msgConfirm [keeps_intros]: "keeps (chat_inv c ks) (msgConfirm env x i t)"
proof -
  have upd: "keeps (chat_inv c ks) (modS (\<lambda>s. s\<lparr>mSending := confirmEdits x i (mSending s),
      cDb := fst (updateSendingItemsMsgidAndOpcode (cDb s) (eChatId env) x i)\<rparr>))"
    by (rule keeps_mapQueue) (simp_all add: confirmEdits_rows runDb_keys)
  show ?thesis unfolding msgConfirm_def Let_def
    by (intro keeps_intros db_safes upd; simp add: inv_defs)
qed

lemma keeps_msgAlreadySent [keeps_intros]: "keeps (chat_inv c ks) (msgAlreadySent env x i)"
  unfolding msgAlreadySent_def by (intro keeps_intros)

lemma confirmKeys_rows: "confirmKeys l k q = Inr q' \<Longrightarrow> map siRowid q' = map siRowid q"
  by (induction q arbitrary: q') (auto simp: bindR_Inr_iff split: if_splits option.splits)

lemma keeps_keyConfirm [keeps_intros]: "keeps (chat_inv c ks) (keyConfirm env x k)"
  unfolding keyConfirm_def
  by (intro keeps_intros) (auto simp: bindR_Inr_iff runDb_keys chat_inv_ok intro!: chat_inv_sends chat_inv_db dest: confirmKeys_rows)

lemma keeps_onKeyReject [keeps_intros]: "keeps (chat_inv c ks) onKeyReject"
  unfolding onKeyReject_def by (intro keeps_intros)

lemma chat_inv_edits [simp]: "chat_inv c ks (s\<lparr>mPendingEdits := x\<rparr>) = chat_inv c ks s"
  by (simp add: inv_defs)

lemma eraseEdits_inv: "chat_inv c ks s \<Longrightarrow> chat_inv c ks (fst (eraseEdits m n k s acc))"
proof (induction m n k s acc rule: eraseEdits.induct)
  case (2 m n k s acc)
  show ?case
  proof (cases "k < length (mSending s) \<and> editConfirmed m (mSending s ! k)")
    case True
    let ?s = "s\<lparr>mPendingEdits := (mPendingEdits s)(mId m := None)\<rparr>"
    have "chat_inv c ks (eraseItem k (?s\<lparr>cDb := dropRow (siRowid (mSending ?s ! k)) (cDb ?s)\<rparr>))"
      using drop_inv [of c ks ?s k] "2.prems" True by simp
    also have "?s\<lparr>cDb := dropRow (siRowid (mSending ?s ! k)) (cDb ?s)\<rparr> =
        s\<lparr>cDb := orElse (cDb s) (deleteSendingItem (cDb s) (siRowid (mSending s ! k))), mPendingEdits := (mPendingEdits s)(mId m := None)\<rparr>"
      by (simp add: dropRow_def)
    finally show ?thesis using 2 True by (simp add: Let_def)
  qed (use 2 in \<open>auto simp: Let_def\<close>)
qed simp

lemma removeOwnEdits_inv: "chat_inv c ks s \<Longrightarrow> removeOwnEdits env m s = (s', a, b) \<Longrightarrow> chat_inv c ks s'"
  using eraseEdits_inv [of c ks s m "length (mSending s)" 0 "(0, False)"] by (auto simp: removeOwnEdits_def split: if_splits)

lemma keeps_replay [keeps_intros]:
  "keeps (chat_inv c ks) replayUnsentNotifications"
  "keeps (chat_inv c ks) (loadManualSending env)"
  "keeps (chat_inv c ks) (resetListenerState env)"
  "keeps (chat_inv c ks) resetGetHistory"
  unfolding replayUnsentNotifications_def replayUnsent_def loadManualSending_def resetListenerState_def resetGetHistory_def
  by (intro keeps_intros; simp add: inv_defs)+

lemma keeps_removeManualSend [keeps_intros]: "keeps (chat_inv c ks) (removeManualSend env rowid)"
  unfolding removeManualSend_def
  by (intro keeps_intros) (simp add: runDb_keys chat_inv_ok chat_inv_db)

end
