(* ===== verification/ChatKeepsRecv.thy ===== *)
theory ChatKeepsRecv
  imports ChatKeepsSend
begin

text \<open>Arrival of messages, the fetch of the history, logging in and the members keep the invariant of a chat.\<close>

section \<open>Arrival\<close>

lemma keeps_deliver [keeps_intros]:
  "keeps (chat_inv c ks) (verifyMsgOrder m idx)"
  "keeps (chat_inv c ks) (lastTextOnIncoming env m idx)"
  "keeps (chat_inv c ks) (deliverMsg env isNew isLocal m idx)"
  "keeps (chat_inv c ks) (storeIncoming env chk m idx)"
proof -
  show v: "keeps (chat_inv c ks) (verifyMsgOrder m idx)"
    unfolding verifyMsgOrder_def by (intro keeps_intros)
  show l: "keeps (chat_inv c ks) (lastTextOnIncoming env m idx)"
    unfolding lastTextOnIncoming_def by (intro keeps_intros)
  show "keeps (chat_inv c ks) (deliverMsg env isNew isLocal m idx)"
    unfolding deliverMsg_def by (intro keeps_intros l)
  show "keeps (chat_inv c ks) (storeIncoming env chk m idx)"
    unfolding storeIncoming_def by (intro keeps_intros db_safes v; simp add: inv_defs)
qed

lemma keeps_afterDecrypt [keeps_intros]: "keeps (chat_inv c ks) (msgIncomingAfterDecrypt env isNew isLocal m idx)"
  unfolding msgIncomingAfterDecrypt_def by (intro keeps_intros; simp add: inv_defs)

lemma keeps_setHalted [keeps_intros]: "keeps (chat_inv c ks) (modS (setHalted isNew i))"
  by (rule keeps_modS) (simp add: inv_defs setHalted_def)

lemma keeps_decryptRest [keeps_intros]:
  assumes "\<And>a b. keeps (chat_inv c ks) (loop a b)"
  shows "keeps (chat_inv c ks) (decryptRest env isNew loop idx)" "keeps (chat_inv c ks) (decryptFailed env isNew loop idx err)"
proof -
  show r: "keeps (chat_inv c ks) (decryptRest env isNew loop idx)"
    unfolding decryptRest_def decryptDone_def by (intro keeps_intros assms; simp add: inv_defs)
  show "keeps (chat_inv c ks) (decryptFailed env isNew loop idx err)"
    unfolding decryptFailed_def by (intro keeps_intros r)
qed

lemma keeps_afterAdd [keeps_intros]:
  assumes "\<And>a b. keeps (chat_inv c ks) (loop a b)" "\<And>ok. keeps (chat_inv c ks) (cont ok)"
  shows "keeps (chat_inv c ks) (afterAdd e isNew loop idx cont)"
proof -
  have dec: "keeps (chat_inv c ks) (case reDecrypt e m of
          DecNow m' \<Rightarrow> doS [modS (\<lambda>s. s\<lparr>cBuf := setAt (cBuf s) idx m'\<rparr>),
            msgIncomingAfterDecrypt (reEnv e) isNew False m' idx, cont True]
        | DecLater \<Rightarrow> doS [modS (setHalted isNew idx), outS (\<lambda>s. [OCryptoDecrypt idx isNew]), cont False]
        | DecFail err \<Rightarrow> doS [modS (setHalted isNew idx), decryptFailed (reEnv e) isNew loop idx err, cont False])" for m
    by (cases "reDecrypt e m") (simp_all only: DecResult.case, (intro keeps_intros assms)+)
  show ?thesis unfolding afterAdd_def by (intro keeps_intros assms dec)
qed

lemma keeps_decryptLoop [keeps_intros]: "keeps (chat_inv c ks) (decryptLoop e isNew n lst i)"
proof (induction n arbitrary: lst i)
  case (Suc n)
  show ?case unfolding decryptLoop.simps by (intro keeps_intros Suc)
qed (simp only: decryptLoop.simps keeps_doS_Nil)

lemma keeps_withLoop [keeps_intros]:
  "(\<And>loop. (\<And>a b. keeps (chat_inv c ks) (loop a b)) \<Longrightarrow> keeps (chat_inv c ks) (k loop)) \<Longrightarrow> keeps (chat_inv c ks) (withLoop e isNew k)"
  unfolding withLoop_def by (intro keeps_readS) (simp add: keeps_decryptLoop)

lemma keeps_onDecrypted [keeps_intros]:
  "keeps (chat_inv c ks) (onDecrypted e isNew idx m)"
  "keeps (chat_inv c ks) (onDecryptFailed e isNew idx err)"
  unfolding onDecrypted_def onDecryptFailed_def by (intro keeps_withLoop; intro keeps_intros; assumption)+

lemma keeps_local [keeps_intros]:
  "keeps (chat_inv c ks) (localDecrypted env isNew m idx)"
  "keeps (chat_inv c ks) (afterAddLocal e isNew m idx)"
proof -
  show l: "keeps (chat_inv c ks) (localDecrypted env isNew m idx)" for env m
    unfolding localDecrypted_def by (intro keeps_intros db_safes)
  show "keeps (chat_inv c ks) (afterAddLocal e isNew m idx)"
    unfolding afterAddLocal_def by (cases "reDecrypt e m") (simp_all only: DecResult.case, (intro keeps_intros l)+)
qed

lemma keeps_msgIncoming [keeps_intros]: "keeps (chat_inv c ks) (msgIncoming e isNew m isLocal)"
  unfolding msgIncoming_def
  by (intro keeps_intros; simp add: inv_defs)

section \<open>Updates\<close>

lemma keeps_updatedInRam [keeps_intros]: "keeps (chat_inv c ks) (updatedInRam env m h0 h idx)"
  unfolding updatedInRam_def by (intro keeps_intros db_safes)

lemma keeps_msgUpdated [keeps_intros]: "keeps (chat_inv c ks) (onMsgUpdatedAfterDecrypt env t b m)"
  unfolding onMsgUpdatedAfterDecrypt_def by (intro keeps_intros db_safes)

lemma keeps_onMsgUpdated [keeps_intros]: "keeps (chat_inv c ks) (onMsgUpdated e m)"
  unfolding onMsgUpdated_def
proof (rule keeps_readS_dep)
  fix s assume s: "chat_inv c ks s"
  obtain s' t b where r: "removeOwnEdits (reEnv e) m s = (s', t, b)" by (metis prod.collapse)
  have s': "chat_inv c ks s'" by (rule removeOwnEdits_inv [OF s r])
  have k: "keeps (chat_inv c ks) (doS [if mIsEncrypted m = kNotEncrypted then onMsgUpdatedAfterDecrypt (reEnv e) t b m
      else case reDecrypt e m of
        DecNow m \<Rightarrow> onMsgUpdatedAfterDecrypt (reEnv e) t b m
      | DecLater \<Rightarrow> outS (\<lambda>s. [OCryptoDecryptUpdate m])
      | DecFail err \<Rightarrow> (case encOfErr err of None \<Rightarrow> doS []
          | Some enc \<Rightarrow> onMsgUpdatedAfterDecrypt (reEnv e) t b (m\<lparr>mIsEncrypted := enc\<rparr>))])"
    by (cases "reDecrypt e m") (simp_all only: DecResult.case, (intro keeps_intros)+)
  show "chat_inv c ks (fst ((case removeOwnEdits (reEnv e) m s of (s', t, b) \<Rightarrow> doS [modS (\<lambda>_. s'),
     (if mIsEncrypted m = kNotEncrypted then onMsgUpdatedAfterDecrypt (reEnv e) t b m
      else case reDecrypt e m of
        DecNow m \<Rightarrow> onMsgUpdatedAfterDecrypt (reEnv e) t b m
      | DecLater \<Rightarrow> outS (\<lambda>s. [OCryptoDecryptUpdate m])
      | DecFail err \<Rightarrow> (case encOfErr err of None \<Rightarrow> doS []
          | Some enc \<Rightarrow> onMsgUpdatedAfterDecrypt (reEnv e) t b (m\<lparr>mIsEncrypted := enc\<rparr>)))]) s))"
    unfolding r prod.case by (rule keeps_first) (rule s', rule k)
qed

section \<open>Attachments and reactions\<close>

lemma keeps_nodeAdd [keeps_intros]: "keeps (chat_inv c ks) (nodeAdd env m)"
  unfolding nodeAdd_def by (rule keeps_fhS) (rule fh_safe_add)

lemma keeps_attachmentHistDone [keeps_intros]: "keeps (chat_inv c ks) attachmentHistDone"
  unfolding attachmentHistDone_def by (intro keeps_intros db_safes; simp add: inv_defs)

lemma keeps_nodeInLoop:
  "(\<And>b. keeps (chat_inv c ks) (cont b)) \<Longrightarrow> keeps (chat_inv c ks) (nodeInLoop e m cont)"
proof -
  assume k: "\<And>b. keeps (chat_inv c ks) (cont b)"
  have "keeps (chat_inv c ks) (case reDecrypt e m of
        DecNow m' \<Rightarrow> doS [nodeAdd (reEnv e) m', cont True]
      | DecLater \<Rightarrow> doS [modS (\<lambda>s. s\<lparr>mDecryptionAttachmentsHalted := True\<rparr>), outS (\<lambda>s. [OCryptoDecryptNode m]), cont False]
      | DecFail _ \<Rightarrow> throwS OutOfBounds)"
    by (cases "reDecrypt e m") (simp_all only: DecResult.case, (intro keeps_intros k; simp add: inv_defs)+)
  then show ?thesis unfolding nodeInLoop_def by (intro keeps_intros; simp add: inv_defs)
qed

lemma keeps_nodeLoop: "(\<And>b. keeps (chat_inv c ks) (cont b)) \<Longrightarrow> keeps (chat_inv c ks) (nodeLoop e n cont)"
proof (induction n)
  case (Suc n)
  show ?case unfolding nodeLoop.simps
    by (intro keeps_intros keeps_nodeInLoop Suc; simp add: inv_defs)
qed simp

lemma keeps_node [keeps_intros]:
  "keeps (chat_inv c ks) (nodeResume e b)"
  "keeps (chat_inv c ks) (msgNodeHistIncoming e m)"
  "keeps (chat_inv c ks) (onNodeDecrypted e m)"
  "keeps (chat_inv c ks) (onNodeDecryptFailed e)"
proof -
  show r: "keeps (chat_inv c ks) (nodeResume e b)" for b
    unfolding nodeResume_def by (intro keeps_intros keeps_nodeLoop; simp add: inv_defs)
  have "keeps (chat_inv c ks) (case reDecrypt e m of
         DecNow m' \<Rightarrow> nodeAdd (reEnv e) m'
       | DecLater \<Rightarrow> doS [modS (\<lambda>s. s\<lparr>mDecryptionAttachmentsHalted := True\<rparr>), outS (\<lambda>s. [OCryptoDecryptNode m])]
       | DecFail _ \<Rightarrow> nodeResume e True)"
    by (cases "reDecrypt e m") (simp_all only: DecResult.case, (intro keeps_intros r; simp add: inv_defs)+)
  then show "keeps (chat_inv c ks) (msgNodeHistIncoming e m)"
    unfolding msgNodeHistIncoming_def by (intro keeps_intros; simp add: inv_defs)
  show "keeps (chat_inv c ks) (onNodeDecrypted e m)" "keeps (chat_inv c ks) (onNodeDecryptFailed e)"
    unfolding onNodeDecrypted_def onNodeDecryptFailed_def by (intro keeps_intros r)+
qed

lemma keeps_reaction [keeps_intros]:
  "keeps (chat_inv c ks) (reactionDecrypted env op i idx u r)"
  "keeps (chat_inv c ks) (onReaction env dec op i u b)"
  "keeps (chat_inv c ks) (onReactionSn env rsn)"
proof -
  show d: "keeps (chat_inv c ks) (reactionDecrypted env op i idx u r)" for idx r
    unfolding reactionDecrypted_def by (intro keeps_intros db_safes)
  have "keeps (chat_inv c ks) (case x of ReactNow r \<Rightarrow> reactionDecrypted env op i idx u r
           | ReactLater \<Rightarrow> outS (\<lambda>s. [OCryptoDecryptReaction op i idx u]) | ReactFail \<Rightarrow> doS [])" for x idx
    by (cases x) (simp_all only: ReactResult.case, (intro keeps_intros d)+)
  then show "keeps (chat_inv c ks) (onReaction env dec op i u b)"
    unfolding onReaction_def Let_def by (intro keeps_intros)
  show "keeps (chat_inv c ks) (onReactionSn env rsn)"
    unfolding onReactionSn_def by (intro keeps_intros db_safes; simp add: inv_defs)
qed

section \<open>Fetching\<close>

lemma keeps_request [keeps_intros]:
  "keeps (chat_inv c ks) (requestHistoryFromServer env count)"
  "keeps (chat_inv c ks) (onFetchHistory env n)"
  "keeps (chat_inv c ks) (onNodeHistoryRequest env i n32)"
  "keeps (chat_inv c ks) (onLastTextFetch env)"
proof -
  show r: "keeps (chat_inv c ks) (requestHistoryFromServer env count)" for count
    unfolding requestHistoryFromServer_def by (intro keeps_intros; simp add: inv_defs)
  show "keeps (chat_inv c ks) (onFetchHistory env n)" "keeps (chat_inv c ks) (onNodeHistoryRequest env i n32)"
    "keeps (chat_inv c ks) (onLastTextFetch env)"
    unfolding onFetchHistory_def onNodeHistoryRequest_def onLastTextFetch_def
    by (intro keeps_intros db_safes r; simp add: inv_defs)+
qed

lemma keeps_getHistory [keeps_intros]:
  "keeps (chat_inv c ks) (getHistoryFromDb e count)"
  "(\<And>x. keeps (chat_inv c ks) (cont x)) \<Longrightarrow> keeps (chat_inv c ks) (getHistoryFromDbOrServer e count cont)"
  "(\<And>x. keeps (chat_inv c ks) (cont x)) \<Longrightarrow> keeps (chat_inv c ks) (getHistory e count cont)"
proof -
  show d: "keeps (chat_inv c ks) (getHistoryFromDb e count)" for count
    unfolding getHistoryFromDb_def Let_def by (intro keeps_intros; simp add: inv_defs)
  have s: "keeps (chat_inv c ks) (getHistoryFromDbOrServer e count cont)" if "\<And>x. keeps (chat_inv c ks) (cont x)" for cont count
    unfolding getHistoryFromDbOrServer_def by (intro keeps_intros d that; simp add: inv_defs)
  then show "(\<And>x. keeps (chat_inv c ks) (cont x)) \<Longrightarrow> keeps (chat_inv c ks) (getHistoryFromDbOrServer e count cont)" .
  have h: "keeps (chat_inv c ks) (historyFromRam env a b)" for env a b
    unfolding historyFromRam_def by (intro keeps_intros)
  show "keeps (chat_inv c ks) (getHistory e count cont)" if "\<And>x. keeps (chat_inv c ks) (cont x)"
    unfolding getHistory_def by (intro keeps_intros s h that; simp add: inv_defs)
qed

lemma keeps_fetchDone [keeps_intros]: "keeps (chat_inv c ks) (onFetchHistDone e)"
  unfolding onFetchHistDone_def Let_def by (intro keeps_intros db_safes; simp add: inv_defs ltClear_def)

section \<open>Online state and members\<close>

lemma keeps_online [keeps_intros]:
  "keeps (chat_inv c ks) (setOnlineState st)"
  "keeps (chat_inv c ks) (disable b)"
  "keeps (chat_inv c ks) (onPreviewersUpdate env n)"
  "keeps (chat_inv c ks) onJoinRejected"
  "keeps (chat_inv c ks) onHandleJoinRejected"
  "keeps (chat_inv c ks) onHistReject"
  "keeps (chat_inv c ks) (onDisconnect env)"
  "keeps (chat_inv c ks) (onJoinComplete se)"
  "keeps (chat_inv c ks) (onHistDone e se)"
proof -
  show o': "keeps (chat_inv c ks) (setOnlineState st)" for st
    unfolding setOnlineState_def by (intro keeps_intros; simp add: inv_defs)
  show d: "keeps (chat_inv c ks) (disable b)" for b
    unfolding disable_def by (intro keeps_intros o'; simp add: inv_defs)
  show p: "keeps (chat_inv c ks) (onPreviewersUpdate env n)" for n
    unfolding onPreviewersUpdate_def by (intro keeps_intros; simp add: inv_defs)
  show "keeps (chat_inv c ks) onJoinRejected" "keeps (chat_inv c ks) onHandleJoinRejected" "keeps (chat_inv c ks) onHistReject"
    unfolding onJoinRejected_def onHandleJoinRejected_def onHistReject_def by (intro keeps_intros d)+
  have f: "keeps (chat_inv c ks) (dropFetch ft)" for ft
    unfolding dropFetch_def by (cases ft) (simp_all only: FetchType.case, (intro keeps_intros db_safes; simp add: inv_defs)+)
  show "keeps (chat_inv c ks) (onDisconnect env)"
    unfolding onDisconnect_def by (intro keeps_intros o' p f; simp add: inv_defs)
  show j: "keeps (chat_inv c ks) (onJoinComplete se)"
    unfolding onJoinComplete_def by (intro keeps_intros o'; simp add: inv_defs)
  have "keeps (chat_inv c ks) (case ft of
          kFetchMessages \<Rightarrow> doS [whenS isFetchingFromServer [onFetchHistDone e, handleRetentionTime (reEnv e) True],
            whenS isJoining [onJoinComplete se], flushChatPendingReactions (reEnv e)]
        | kFetchNodeHistory \<Rightarrow> doS [whenS (\<lambda>s. \<not> mDecryptionAttachmentsHalted s) [attachmentHistDone],
            modS (\<lambda>s. s\<lparr>mAttachmentHistDoneReceived := True\<rparr>)])" for ft
    by (cases ft) (simp_all only: FetchType.case, (intro keeps_intros j; simp add: inv_defs)+)
  then show "keeps (chat_inv c ks) (onHistDone e se)"
    unfolding onHistDone_def by (intro keeps_intros; simp add: inv_defs)
qed

lemma keeps_commands [keeps_intros]:
  "keeps (chat_inv c ks) (sendReactionSn env)"
  "keeps (chat_inv c ks) (handleleave env)"
  "keeps (chat_inv c ks) (sendBroadcast env t)"
  "keeps (chat_inv c ks) (sendSync env)"
  "keeps (chat_inv c ks) (ringIndividualInACall env u i w)"
  "keeps (chat_inv c ks) (rejectCall env i)"
  "keeps (chat_inv c ks) resetOldestKnownMsgId"
  "keeps (chat_inv c ks) (msgImport e m b)"
  "keeps (chat_inv c ks) (handleBroadcast env u t)"
  "keeps (chat_inv c ks) (setPublicHandle u)"
  unfolding sendReactionSn_def handleleave_def sendBroadcast_def sendSync_def ringIndividualInACall_def rejectCall_def
    resetOldestKnownMsgId_def msgImport_def handleBroadcast_def setPublicHandle_def
  by (intro keeps_intros; simp add: inv_defs)+

lemma keeps_login [keeps_intros]: "keeps (chat_inv c ks) (login env)"
proof -
  have j: "keeps (chat_inv c ks) (join env)" "keeps (chat_inv c ks) (handlejoin env)"
    "keeps (chat_inv c ks) (joinRangeHist env info)" "keeps (chat_inv c ks) (handlejoinRangeHist env info)" for info
    unfolding join_def handlejoin_def joinRangeHist_def handlejoinRangeHist_def
    by (intro keeps_intros; simp add: inv_defs)+
  have b: "keeps (chat_inv c ks) (doS (if b then x else y))" if "keeps (chat_inv c ks) (doS x)" "keeps (chat_inv c ks) (doS y)" for b x y
    using that by simp
  show ?thesis unfolding login_def by (intro keeps_intros j b; simp add: inv_defs)
qed

lemma keeps_members [keeps_intros]:
  "keeps (chat_inv c ks) (onUserJoin env u p)"
  "keeps (chat_inv c ks) (onUserLeave env u)"
  unfolding onUserJoin_def onUserLeave_def by (intro keeps_intros; simp add: inv_defs)+

lemma keeps_clear [keeps_intros]:
  "keeps (chat_inv c ks) (initChat env b)"
  "keeps (chat_inv c ks) (clearHistory env)"
proof -
  show i: "keeps (chat_inv c ks) (initChat env b)" for b
    unfolding initChat_def by (intro keeps_intros db_safes; simp add: inv_defs ltClear_def)
  show "keeps (chat_inv c ks) (clearHistory env)"
    unfolding clearHistory_def by (intro keeps_intros db_safes i)
qed

end
