(* ===== verification/ChatClientInv.thy ===== *)
theory ChatClientInv
  imports ChatKeepsRecv
begin

text \<open>
  The invariant of the client: what the application, the timers, the crypto module and the frames of the
  server do to it, in any order, keeps the invariants of all its chats.
\<close>

section \<open>Creation of a chat\<close>

lemma sendItemOfRow_rowid: "sendItemOfRow c me r = Inr it \<Longrightarrow> siRowid it = sRowid r"
  by (auto simp: sendItemOfRow_def Let_def bindR_Inr_iff split: if_splits)

lemma mapR_sendItems: "mapR (sendItemOfRow c me) rs = Inr q \<Longrightarrow> map siRowid q = map sRowid rs"
  by (induction rs arbitrary: q) (auto simp: bindR_Inr_iff dest: sendItemOfRow_rowid)

lemma ownKeys_rows: "ownKeys c d = map sRowid (filter (\<lambda>r. sChat r = c) (dSending d))"
  by (simp add: ownKeys_def sendKeys_def filter_map comp_def)

lemma loadSendQueue_rows:
  assumes "sorted (map snd (sendKeys d))" "loadSendQueue d c me = Inr q"
  shows "map siRowid q = ownKeys c d"
proof -
  have "sorted (map sRowid (filter (\<lambda>r. sChat r = c) (dSending d)))"
    using assms(1) by (simp add: sendKeys_def comp_def sorted_filter)
  then have "sort_key sRowid (filter (\<lambda>r. sChat r = c) (dSending d)) = filter (\<lambda>r. sChat r = c) (dSending d)"
    by (rule sort_key_id_if_sorted)
  then show ?thesis using assms(2) mapR_sendItems by (simp add: loadSendQueue_def ownKeys_rows)
qed

text \<open>Before the queue is loaded it is empty and the cache untouched.\<close>

definition unloaded :: "ChatdDb \<Rightarrow> Chat \<Rightarrow> bool" where
  "unloaded d s \<longleftrightarrow> cDb s = d \<and> mSending s = [] \<and> mNextUnsent s = Some 0 \<and> flags_ok s"

lemma wp_keeps: "keeps P x \<Longrightarrow> P s \<Longrightarrow> (\<And>s. P s \<Longrightarrow> Q s) \<Longrightarrow> (\<And>s. P s \<Longrightarrow> R s) \<Longrightarrow> wp x Q R s"
  unfolding keeps_def by (erule allE [where x = s], drule mp, assumption) (erule wp_mono)

lemma keeps_unloaded:
  "keeps (unloaded d) (outS f)"
  "keeps (unloaded d) (initChat env False)"
  unfolding outS_def initChat_def if_False
  by (intro keeps_doS_Cons keeps_doS_Nil keeps_modS; simp add: unloaded_def flags_ok_def ltClear_def)+

lemma wp_seq:
  assumes "keeps P x" "\<And>s. P s \<Longrightarrow> R s" "\<And>s. P s \<Longrightarrow> wp (doS xs) Q R s" "P s"
  shows "wp (doS (x # xs)) Q R s"
  unfolding wp_doS by (rule wp_keeps [OF assms(1,4,3,2)])

lemma wp_get: "R s \<Longrightarrow> (\<And>x. wp (k x) Q R s) \<Longrightarrow> wp (getS f k) Q R s"
  by (simp add: wp_basic split: sum.split)

lemma load_inv:
  assumes "unloaded d s" "db_ok d" "sorted (map snd (sendKeys d))" "loadSendQueue d (eChatId env) (eMyHandle env) = Inr q" "otherKeys (eChatId env) d = ks"
  shows "wp (loadAndProcessUnsent env) (chat_inv (eChatId env) ks) (chat_inv (eChatId env) ks) s"
proof -
  let ?c = "eChatId env"
  let ?s = "s\<lparr>mSending := q\<rparr>"
  have inv: "chat_inv ?c ks ?s"
    using assms loadSendQueue_rows [OF assms(3,4)] by (simp add: unloaded_def inv_defs)
  have k: "keeps (chat_inv ?c ks) (whenS (\<lambda>s. mSending s \<noteq> []) [
       modS (\<lambda>s. s\<lparr>mNextUnsent := Some 0\<rparr>),
       replayUnsentNotifications,
       readS (\<lambda>s. List.find (isValidLastMessage \<circ> siMsg) (rev (mSending s))) (\<lambda>r. case r of
         None \<Rightarrow> doS [] | Some it \<Rightarrow> onLastTextMsgUpdated (siMsg it) CHATD_IDX_INVALID)])" (is "keeps _ ?W")
    by (intro keeps_intros; simp add: inv_defs)
  have "wp (doS [?W]) (chat_inv ?c ks) (chat_inv ?c ks) ?s"
    by (rule wp_seq [OF k _ _ inv]) (simp_all add: wp_doS)
  then show ?thesis using assms(1,4)
    by (simp only: loadAndProcessUnsent_def wp_doS(2) [of "modS x" for x] wp_basic(1) unloaded_def) simp
qed

lemma start_inv:
  assumes "unloaded d s" "db_ok d" "sorted (map snd (sendKeys d))"
    "loadSendQueue d (eChatId (reEnv e)) (eMyHandle (reEnv e)) = Inr q" "otherKeys (eChatId (reEnv e)) d = ks"
  shows "wp (startChat fr e) (chat_inv (eChatId (reEnv e)) ks) (\<lambda>s. unloaded d s \<or> chat_inv (eChatId (reEnv e)) ks s) s"
proof -
  let ?env = "reEnv e" and ?c = "eChatId (reEnv e)"
  let ?R = "\<lambda>s. unloaded d s \<or> chat_inv ?c ks s"
  have load: "wp (loadAndProcessUnsent ?env) (chat_inv ?c ks) ?R t" if "unloaded d t" for t
    using load_inv [OF that assms(2-5)] by (rule wp_mono) simp_all
  have rest: "keeps (chat_inv ?c ks) (getHistoryFromDb e n)" "keeps (chat_inv ?c ks) (calculateUnreadCount ?env)" for n
    by (intro keeps_intros)+
  have wr: "wp x (chat_inv ?c ks) ?R t" if "keeps (chat_inv ?c ks) x" "chat_inv ?c ks t" for x t
    using that by (auto intro: wp_keeps)
  have load_calc: "wp (doS [ifS p [f, loadAndProcessUnsent ?env] [g, loadAndProcessUnsent ?env, getHistoryFromDb e n], calculateUnreadCount ?env])
      (chat_inv ?c ks) ?R t"
    if "unloaded d t" "keeps (unloaded d) f" "keeps (unloaded d) g" for p f g n t
  proof -
    have calc: "wp (doS [calculateUnreadCount ?env]) (chat_inv ?c ks) ?R t" if "chat_inv ?c ks t" for t
      using rest(2) that by (intro wp_seq [where P = "chat_inv ?c ks"]) (simp_all add: wp_doS)
    have hist: "wp (doS [getHistoryFromDb e n]) (wp (doS [calculateUnreadCount ?env]) (chat_inv ?c ks) ?R) ?R t" if "chat_inv ?c ks t" for t
      using rest(1) that by (intro wp_seq [where P = "chat_inv ?c ks"]) (simp_all add: wp_doS(1) calc del: doS_simps)
    have ld: "wp (doS (loadAndProcessUnsent ?env # xs)) Q ?R t"
      if "unloaded d t" "\<And>t. chat_inv ?c ks t \<Longrightarrow> wp (doS xs) Q ?R t" for xs Q t
      unfolding wp_doS using load [OF that(1)] by (rule wp_mono) (simp_all add: that(2))
    show ?thesis
      unfolding wp_doS(2) [of "ifS x y z" for x y z] wp_ifS
      using that by (auto intro!: wp_seq [where P = "unloaded d"] ld calc hist simp: wp_doS(1) simp del: doS_simps)
  qed
  show ?thesis
    unfolding startChat_def Let_def getDbHistInfoAndInitOldestKnownMsgId_def
    apply (rule wp_seq [where P = "unloaded d", OF _ _ _ assms(1)])
      apply (intro keeps_if keeps_unloaded keeps_doS_Nil)
     apply simp
    apply (rule wp_seq [where P = "unloaded d", OF keeps_unloaded(2)])
      apply simp
     prefer 2 apply assumption
    apply (rule wp_seq [where P = "unloaded d"])
       apply (rule keeps_modS, simp add: unloaded_def flags_ok_def)
      apply simp
     prefer 2 apply assumption
    apply (simp only: doS_simps)
    apply (rule wp_get)
     apply simp
    apply (rule wp_seq [where P = "unloaded d"])
       apply (rule keeps_modS, simp add: unloaded_def flags_ok_def)
      apply simp
     prefer 2 apply assumption
    apply (simp only: doS_simps)
    apply (rule wp_seq [where P = "unloaded d"])
       apply (rule keeps_modS, simp add: unloaded_def flags_ok_def)
      apply simp
     prefer 2 apply assumption
    apply (rule wp_seq [where P = "unloaded d"])
       apply (intro keeps_getS keeps_if keeps_doS_Nil keeps_modS, simp add: unloaded_def flags_ok_def)
      apply simp
     prefer 2 apply assumption
    apply (rule wp_seq [where P = "unloaded d"])
       apply (intro keeps_ifS keeps_doS_Cons keeps_doS_Nil keeps_modS, simp add: unloaded_def flags_ok_def)
      apply simp
     prefer 2 apply assumption
    apply (rule wp_seq [where P = "unloaded d"])
       apply (rule keeps_modS, simp add: unloaded_def flags_ok_def)
      apply simp
     prefer 2 apply assumption
    apply (rule load_calc, assumption)
     apply (rule keeps_modS, simp add: unloaded_def flags_ok_def)+
    done
qed

section \<open>What happens to a client\<close>

text \<open>Everything a chat is asked to do besides the calls of a frame.\<close>

datatype (plugins only: code) ChatOp =
    ASubmit Id u64 bytes byte | AOnSubmit Message "Id set" | AModify Message bytes byte | ARemoveRichLink Message bytes
  | AOnEdit Message "Id set" | AEncrypted nat bytes "KeyCommand option" KeyId | AEncryptFailed Id
  | ARemoveManualSend nat | AMessageSeen Idx | ASeenTimer Idx Id | ASeenImport Id | AGetHistory nat | AFetchHistory nat
  | ANodeHistory Id u32 | ALastTextFetch | ALastText | ADecrypted bool Idx Message | ADecryptFailed bool Idx DecErr
  | ALocalDecrypted bool Message Idx | AUpdateDecrypted u16 bool Message | ANodeDecrypted Message | ANodeDecryptFailed
  | AReactionDecrypted | AManageReaction Message string bytes Opcode | AImport Message bool | AResetListener
  | ALogin | ADisconnect | ABroadcast byte | ASync | ARing Id Id u16 | ARejectCall Id | ADisable bool | APublicHandle Id
  | AResetOldest

text \<open>The operations that are not steps: their result is the chat, or an exception that leaves it as it was.\<close>

definition updR :: "(Chat \<Rightarrow> (Chat \<times> 'a) res) \<Rightarrow> chat_step" where
  "updR f = updS (\<lambda>s. bindR (f s) (\<lambda>(s', _). Inr s'))"

fun chatOp :: "ClientEnv \<Rightarrow> Id \<Rightarrow> ChatOp \<Rightarrow> chat_step" where
  "chatOp e c (ASubmit i r t k) = updR (\<lambda>s. Inr (msgSubmit (cnChat e c) i r t k s))"
| "chatOp e c (AOnSubmit m us) = onSubmit (sendEnv e c) m us"
| "chatOp e c (AModify m t k) = updR (msgModify (cnChat e c) m t k)"
| "chatOp e c (ARemoveRichLink m t) = updR (removeRichLink (cnChat e c) m t)"
| "chatOp e c (AOnEdit m us) = onEdit (sendEnv e c) m us"
| "chatOp e c (AEncrypted row cmd kc k) = onEncrypted (sendEnv e c) row cmd kc k"
| "chatOp e c (AEncryptFailed i) = onEncryptFailed (cnChat e c) i"
| "chatOp e c (ARemoveManualSend row) = removeManualSend (cnChat e c) row"
| "chatOp e c (AMessageSeen idx) = updR (setMessageSeen (cnChat e c) idx)"
| "chatOp e c (ASeenTimer idx i) = onSeenTimer (cnChat e c) idx i"
| "chatOp e c (ASeenImport i) = seenImport (cnChat e c) i"
| "chatOp e c (AGetHistory n) = getHistory (recvEnv e c) n (\<lambda>_. doS [])"
| "chatOp e c (AFetchHistory n) = onFetchHistory (cnChat e c) n"
| "chatOp e c (ANodeHistory i n) = onNodeHistoryRequest (cnChat e c) i n"
| "chatOp e c ALastTextFetch = onLastTextFetch (cnChat e c)"
| "chatOp e c ALastText = updR (\<lambda>s. case lastTextMessage (cnChat e c) s of (st, l, s') \<Rightarrow> Inr (s', st, l))"
| "chatOp e c (ADecrypted n idx m) = onDecrypted (recvEnv e c) n idx m"
| "chatOp e c (ADecryptFailed n idx err) = onDecryptFailed (recvEnv e c) n idx err"
| "chatOp e c (ALocalDecrypted n m idx) = localDecrypted (cnChat e c) n m idx"
| "chatOp e c (AUpdateDecrypted t b m) = onMsgUpdatedAfterDecrypt (cnChat e c) t b m"
| "chatOp e c (ANodeDecrypted m) = onNodeDecrypted (recvEnv e c) m"
| "chatOp e c ANodeDecryptFailed = onNodeDecryptFailed (recvEnv e c)"
| "chatOp e c AReactionDecrypted = onReactionDecryptedLater"
| "chatOp e c (AManageReaction m r enc op) = manageReaction (cnChat e c) m r enc op"
| "chatOp e c (AImport m b) = msgImport (recvEnv e c) m b"
| "chatOp e c AResetListener = resetListenerState (cnChat e c)"
| "chatOp e c ALogin = login (cnChat e c)"
| "chatOp e c ADisconnect = onDisconnect (cnChat e c)"
| "chatOp e c (ABroadcast t) = sendBroadcast (cnChat e c) t"
| "chatOp e c ASync = sendSync (cnChat e c)"
| "chatOp e c (ARing u i t) = ringIndividualInACall (cnChat e c) u i t"
| "chatOp e c (ARejectCall i) = rejectCall (cnChat e c) i"
| "chatOp e c (ADisable b) = disable b"
| "chatOp e c (APublicHandle i) = setPublicHandle i"
| "chatOp e c AResetOldest = resetOldestKnownMsgId"

definition env_ok :: "ClientEnv \<Rightarrow> bool" where
  "env_ok e \<longleftrightarrow> (\<forall>c. eChatId (cnChat e c) = c)"

lemma keeps_updR: "(\<And>s s' x. chat_inv c ks s \<Longrightarrow> f s = Inr (s', x) \<Longrightarrow> chat_inv c ks s') \<Longrightarrow> keeps (chat_inv c ks) (updR f)"
  unfolding updR_def by (rule keeps_updS) (auto simp: bindR_Inr_iff)

lemma removeRichLink_inv: "chat_inv c ks s \<Longrightarrow> removeRichLink env m t s = Inr (s', r) \<Longrightarrow> chat_inv c ks s'"
  using msgModify_inv [of c ks s env m t kMsgNormal] by (auto simp: removeRichLink_def bindR_Inr_iff split: option.splits)

lemma setMessageSeen_inv: "chat_inv c ks s \<Longrightarrow> setMessageSeen env idx s = Inr (s', r) \<Longrightarrow> chat_inv c ks s'"
  by (auto simp: setMessageSeen_def bindR_Inr_iff split: if_splits)

lemma lastTextMessage_inv: "chat_inv c ks s \<Longrightarrow> lastTextMessage env s = (st, l, s') \<Longrightarrow> chat_inv c ks s'"
  using findLastTextMsg_inv [of c ks s env] by (auto simp: lastTextMessage_def Let_def split: if_splits prod.splits)

lemma sendEnv_id [simp]: "seEnv (sendEnv e c) = cnChat e c" "reEnv (recvEnv e c) = cnChat e c"
  by (simp_all add: sendEnv_def recvEnv_def)

lemma keeps_results:
  "keeps (chat_inv c ks) (updR (\<lambda>s. Inr (msgSubmit env i r t k s)))"
  "keeps (chat_inv c ks) (updR (msgModify env m t k))"
  "keeps (chat_inv c ks) (updR (removeRichLink env m t))"
  "keeps (chat_inv c ks) (updR (setMessageSeen env idx))"
  "keeps (chat_inv c ks) (updR (\<lambda>s. case lastTextMessage env s of (st, l, s') \<Rightarrow> Inr (s', st, l)))"
proof -
  show "keeps (chat_inv c ks) (updR (\<lambda>s. Inr (msgSubmit env i r t k s)))"
    using msgSubmit_inv [of c ks _ env i r t k] by (intro keeps_updR) (metis fst_conv sum.inject(2))
  show "keeps (chat_inv c ks) (updR (\<lambda>s. case lastTextMessage env s of (st, l, s') \<Rightarrow> Inr (s', st, l)))"
    by (intro keeps_updR) (auto split: prod.splits intro: lastTextMessage_inv)
qed (rule keeps_updR, erule msgModify_inv removeRichLink_inv setMessageSeen_inv, assumption)+

lemma keeps_chatOp: "env_ok e \<Longrightarrow> keeps (chat_inv c ks) (chatOp e c op)"
  by (cases op) (simp_all only: chatOp.simps onReactionDecryptedLater_def,
    (intro keeps_intros keeps_results; simp add: env_ok_def)+)

section \<open>The invariant of a client\<close>

definition client_inv :: "Client \<Rightarrow> bool" where
  "client_inv cl \<longleftrightarrow> db_ok (clDb cl) \<and> sorted (map snd (sendKeys (clDb cl))) \<and> distinct (map fst (clChats cl)) \<and>
     (\<forall>(c, ch) \<in> set (clChats cl). chat_inv c (otherKeys c (clDb cl)) (ch\<lparr>cDb := clDb cl\<rparr>))"

lemma otherKeys_own: "c' \<noteq> c \<Longrightarrow> ownKeys c' d = map snd (filter (\<lambda>k. fst k = c') (otherKeys c d))"
  unfolding ownKeys_def otherKeys_def by (auto intro!: arg_cong [where f = "map snd"] filter_cong)

text \<open>A chat whose own rows have not changed is not concerned by a change of the cache.\<close>

lemma chat_inv_other:
  assumes "chat_inv c' (otherKeys c' d) (ch\<lparr>cDb := d\<rparr>)" "ownKeys c' d' = ownKeys c' d" "db_ok d'" "sorted (map snd (sendKeys d'))"
  shows "chat_inv c' (otherKeys c' d') (ch\<lparr>cDb := d'\<rparr>)"
  using assms by (simp add: inv_defs)

lemma update_retention [simp]:
  "clDb (updateRetentionCheckTs e t f cl) = clDb cl" "clChats (updateRetentionCheckTs e t f cl) = clChats cl"
  by (simp_all add: updateRetentionCheckTs_def setRetentionTimer_def Let_def)

lemma fold_update_retention [simp]:
  "clDb (fold (\<lambda>t. updateRetentionCheckTs e t False) xs cl) = clDb cl"
  "clChats (fold (\<lambda>t. updateRetentionCheckTs e t False) xs cl) = clChats cl"
  by (induction xs arbitrary: cl) simp_all

lemma client_inv_same: "client_inv cl \<Longrightarrow> clDb cl' = clDb cl \<Longrightarrow> clChats cl' = clChats cl \<Longrightarrow> client_inv cl'"
  by (simp add: client_inv_def)

lemma put_inv:
  assumes cl: "client_inv cl" and ch: "chat_inv c (otherKeys c (clDb cl)) ch'"
  shows "client_inv (putChat c ch' cl)"
proof -
  have d: "db_ok (cDb ch')" "sorted (map snd (sendKeys (cDb ch')))" "otherKeys c (cDb ch') = otherKeys c (clDb cl)"
    using ch by (simp_all add: inv_defs)
  have "chat_inv i (otherKeys i (cDb ch')) ((if i = c then ch' else x)\<lparr>cDb := cDb ch'\<rparr>)" if "(i, x) \<in> set (clChats cl)" for i x
  proof (cases "i = c")
    case False
    have "ownKeys i (cDb ch') = ownKeys i (clDb cl)" using otherKeys_own [OF False] d(3) by simp
    then show ?thesis using False cl that d(1,2) by (auto simp: client_inv_def intro: chat_inv_other)
  qed (use ch d(3) in simp)
  moreover have "fst \<circ> (\<lambda>(i, x). (i, if i = c then ch' else x)) = fst"
    by auto
  ultimately show ?thesis using cl d(1,2) by (auto simp: client_inv_def putChat_def)
qed

lemma keeps_runChat:
  assumes "\<And>ks. keeps (chat_inv c ks) st"
  shows "keeps client_inv (runChat e c st)"
proof (rule keepsI)
  fix cl assume cl: "client_inv cl"
  show "client_inv (fst (runChat e c st cl))"
  proof (cases "chatFromId cl c")
    case (Some ch)
    then have "(c, ch) \<in> set (clChats cl)" by (simp add: chatFromId_def map_of_SomeD)
    then have "chat_inv c (otherKeys c (clDb cl)) (ch\<lparr>cDb := clDb cl\<rparr>)" using cl by (auto simp: client_inv_def)
    then have "chat_inv c (otherKeys c (clDb cl)) (fst (st (ch\<lparr>cDb := clDb cl\<rparr>)))" by (rule keepsD [OF assms])
    from put_inv [OF cl this] show ?thesis
      by (auto simp: runChat_def Some split: prod.split intro: client_inv_same)
  qed (simp add: runChat_def cl)
qed

lemma keeps_client_other: "keeps client_inv (modS (\<lambda>cl. cl\<lparr>clOther := f cl\<rparr>))"
  by (rule keeps_modS) (simp add: client_inv_def)

lemma keeps_foldr: "(\<And>c rest. keeps P rest \<Longrightarrow> keeps P (f c rest)) \<Longrightarrow> keeps P z \<Longrightarrow> keeps P (foldr f cs z)"
  by (induction cs) simp_all

lemma keeps_confirms:
  "keeps client_inv (clientMsgConfirm e x i t)"
  "keeps client_inv (clientMsgAlreadySent e x i)"
  unfolding clientMsgConfirm_def clientMsgAlreadySent_def
  by (intro keeps_readS keeps_foldr keeps_doS_Cons keeps_doS_Nil keeps_if keeps_runChat keeps_msgConfirm keeps_msgAlreadySent; assumption)+

lemma keeps_clientCall: "env_ok e \<Longrightarrow> keeps client_inv (clientCall e call)"
  by (cases call) (simp_all only: clientCall.simps,
    (intro keeps_confirms keeps_client_other keeps_runChat keeps_intros; simp add: env_ok_def inv_defs)+)

lemma keeps_runCalls: "(\<And>c. keeps P (k c)) \<Longrightarrow> keeps P (runCalls k cs)"
proof (induction cs)
  case (Cons c cs)
  show ?case
  proof (rule keepsI)
    fix s assume s: "P s"
    obtain s' r where r: "k c s = (s', r)" by fastforce
    have "P s'" using keepsD [OF Cons.prems s] r by (metis fst_conv)
    then show "P (fst (runCalls k (c # cs) s))" using keepsD [OF Cons.IH [OF Cons.prems], of s'] r by (cases r) simp_all
  qed
qed (simp add: keepsI)

lemma keeps_dispatch: "(\<And>c. keeps P (h c)) \<Longrightarrow> keeps P (dispatch h c)"
  unfolding dispatch_def by (rule keepsI) (auto simp: keeps_wp split: ChatdCmd.split list.split)

lemma keeps_exec: "(\<And>c. keeps P (h c)) \<Longrightarrow> P s \<Longrightarrow> P (fst (execCommand h b pos s))"
proof (induction h b pos s rule: execCommand.induct)
  case (1 h b pos s)
  note h = "1.prems"(1) and s = "1.prems"(2)
  show ?case
  proof (cases "pos < length b \<and> Option.bind (opcodeOf (b ! pos)) decodeCmd \<noteq> None")
    case True
    then obtain d where d: "Option.bind (opcodeOf (b ! pos)) decodeCmd = Some d" and pos: "pos < length b" by auto
    show ?thesis
    proof (cases "d b (pos + 1)")
      case (Inl e)
      then show ?thesis using d pos s by (subst execCommand.simps) (simp split: exn.split)
    next
      case (Inr r)
      obtain c p where r: "r = (c, p)" by fastforce
      obtain s' x where x: "dispatch h c s = (s', x)" by fastforce
      have s': "P s'" using keepsD [OF keeps_dispatch [where h = h, OF h] s, of c] x by simp
      note IH = "1.IH" [OF pos d Inr [unfolded r] refl x [symmetric]]
      show ?thesis
      proof (cases x)
        case None
        with IH(1) [OF _ h s'] show ?thesis using d pos Inr r x by (subst execCommand.simps) simp
      next
        case (Some e)
        show ?thesis
        proof (cases "\<exists>m. e = RuntimeError m")
          case True
          with Some IH(2) [OF _ _ h s'] show ?thesis using d pos Inr r x by (subst execCommand.simps) auto
        next
          case False
          then show ?thesis using d pos Inr r x s' Some by (subst execCommand.simps) (auto split: exn.split)
        qed
      qed
    qed
  next
    case False
    then show ?thesis using s by (subst execCommand.simps) auto
  qed
qed

lemma keeps_routeH: "(\<And>call. keeps P (k call)) \<Longrightarrow> keeps P (routeH env k c)"
proof (rule keepsI)
  fix s assume k: "\<And>call. keeps P (k call)" and s: "P s"
  show "P (fst (routeH env k c s))"
    using keepsD [OF keeps_runCalls [where k = k, OF k] s] s by (cases "route (env s) c") (simp_all add: routeH_def)
qed

lemma clientFrame_inv: "env_ok e \<Longrightarrow> client_inv cl \<Longrightarrow> client_inv (fst (clientFrame r e b cl))"
  unfolding clientFrame_def by (rule keeps_exec) (rule keeps_routeH, erule keeps_clientCall)

lemma keeps_leave: "keeps client_inv (leaveChat e c)"
proof -
  have "client_inv (cl\<lparr>clChats := filter (\<lambda>(i, _). i \<noteq> c) (clChats cl)\<rparr>)" if "client_inv cl" for cl
    using that by (auto simp: client_inv_def distinct_map_filter)
  moreover have "client_inv (cl\<lparr>clShards := a, clConnOf := b\<rparr>)" if "client_inv cl" for cl a b
    using that by (simp add: client_inv_def)
  ultimately show ?thesis unfolding leaveChat_def
    by (intro keeps_readS keeps_option keeps_doS_Cons keeps_doS_Nil keeps_modS keeps_ifS keeps_if keeps_runChat keeps_commands) simp_all
qed

lemma keeps_pendingLinks:
  "keeps (chat_inv c ks) (requestPendingRichLinks env)"
  "keeps (chat_inv c ks) (modS (\<lambda>s. s\<lparr>mMsgsToUpdateWithRichLink := {}\<rparr>))"
proof -
  show m: "keeps (chat_inv c ks) (modS (\<lambda>s. s\<lparr>mMsgsToUpdateWithRichLink := {}\<rparr>))"
    by (rule keeps_modS) (simp add: inv_defs)
  show "keeps (chat_inv c ks) (requestPendingRichLinks env)"
    unfolding requestPendingRichLinks_def by (intro m keeps_intros)
qed

lemma keeps_richLinkState: "keeps client_inv (onRichLinkState e)"
  unfolding onRichLinkState_def
  by (intro keeps_readS keeps_forS keeps_if keeps_runChat keeps_doS_Nil keeps_pendingLinks)

lemma keeps_retentionLoop: "keeps client_inv (retentionLoop e cs a)"
proof (induction cs arbitrary: a)
  case Nil
  show ?case unfolding retentionLoop.simps by (rule keeps_modS) (auto intro: client_inv_same)
next
  case (Cons c cs)
  show ?case unfolding retentionLoop.simps
    by (intro keeps_doS_Cons keeps_doS_Nil keeps_readS keeps_runChat keeps_retention Cons)
qed

lemma keeps_retentionTimer: "keeps client_inv (onRetentionTimer e)"
  unfolding onRetentionTimer_def
  by (intro keeps_doS_Cons keeps_doS_Nil keeps_readS keeps_retentionLoop keeps_modS) (simp add: client_inv_def)

lemma chat_inv_cDb: "chat_inv c ks ch \<Longrightarrow> chat_inv c ks (ch\<lparr>cDb := cDb ch\<rparr>)"
  by simp

lemma create_inv:
  assumes cl: "client_inv cl" and e: "env_ok e" and q: "loadSendQueue (clDb cl) c (eMyHandle (cnChat e c)) = Inr q"
  shows "client_inv (fst (createChat fr e c shard users t cl))"
proof (cases "chatFromId cl c = None")
  case True
  then have new: "c \<notin> fst ` set (clChats cl)" by (simp add: chatFromId_def map_of_eq_None_iff)
  let ?cl = "cl\<lparr>clShards := (clShards cl)(shard := Some (case clShards cl shard of None \<Rightarrow> {} | Some cs \<Rightarrow> cs)),
       clConnOf := (clConnOf cl)(c := Some shard)\<rparr>"
  obtain ch r where n: "newChat fr (recvEnv e c) (clDb cl) users t = (ch, r)" by fastforce
  have d: "db_ok (clDb cl)" "sorted (map snd (sendKeys (clDb cl)))" using cl by (simp_all add: client_inv_def)
  have id: "eChatId (cnChat e c) = c" using e by (simp add: env_ok_def)
  have "unloaded (clDb cl) (blankChat (clDb cl) c users t)"
    by (simp add: unloaded_def blankChat_def flags_ok_def newLastTextMsg_def)
  from start_inv [OF this d, of "recvEnv e c" q "otherKeys c (clDb cl)" fr]
  have w: "wp (startChat fr (recvEnv e c)) (chat_inv c (otherKeys c (clDb cl)))
      (\<lambda>s. unloaded (clDb cl) s \<or> chat_inv c (otherKeys c (clDb cl)) s) (blankChat (clDb cl) c users t)"
    using q id by simp
  have st: "startChat fr (recvEnv e c) (blankChat (clDb cl) c users t) = (ch, r)" using n id by (simp add: newChat_def)
  have ch: "if r = None then chat_inv c (otherKeys c (clDb cl)) ch else cDb ch = clDb cl \<or> chat_inv c (otherKeys c (clDb cl)) ch"
    using w unfolding wp_def st by (auto simp: unloaded_def split: option.splits)
  have old: "client_inv (cl'\<lparr>clDb := cDb ch\<rparr>)" if "cDb ch = clDb cl \<or> chat_inv c (otherKeys c (clDb cl)) ch" "clDb cl' = clDb cl" "clChats cl' = clChats cl" for cl'
  proof -
    have k: "db_ok (cDb ch)" "sorted (map snd (sendKeys (cDb ch)))" "otherKeys c (cDb ch) = otherKeys c (clDb cl)"
      using that(1) d by (auto simp: inv_defs)
    have "chat_inv i (otherKeys i (cDb ch)) (x\<lparr>cDb := cDb ch\<rparr>)" if "(i, x) \<in> set (clChats cl)" for i x
    proof -
      have "i \<noteq> c" using new that by force
      from otherKeys_own [OF this] have "ownKeys i (cDb ch) = ownKeys i (clDb cl)" using k(3) by simp
      then show ?thesis using cl that k(1,2) by (auto simp: client_inv_def intro: chat_inv_other)
    qed
    then show ?thesis using that(2,3) k(1,2) cl by (auto simp: client_inv_def)
  qed
  show ?thesis
  proof (cases r)
    case None
    have inv: "chat_inv c (otherKeys c (clDb cl)) ch" using ch None by simp
    then have ks: "otherKeys c (cDb ch) = otherKeys c (clDb cl)" by (simp add: inv_defs)
    have ins: "set (insort_key fst (c, ch) (clChats cl)) = insert (c, ch) (set (clChats cl))" by (simp add: set_insort_key)
    have "distinct (map fst (insort_key fst (c, ch) xs))" if "distinct (map fst xs)" "c \<notin> fst ` set xs" for xs :: "(Id \<times> Chat) list"
      using that by (induction xs) (auto simp: set_insort_key)
    then have "distinct (map fst (insort_key fst (c, ch) (clChats cl)))" using new cl by (simp add: client_inv_def)
    moreover have "client_inv (?cl\<lparr>clDb := cDb ch\<rparr>)" using old [of ?cl] inv by simp
    ultimately show ?thesis using True n None inv ks
      by (auto simp: createChat_def ifS_def modS_def client_inv_def ins)
  next
    case (Some x)
    then show ?thesis using old [of ?cl] True n ch by (simp add: createChat_def ifS_def modS_def)
  qed
next
  case False
  then obtain x where "chatFromId cl c = Some x" by auto
  then show ?thesis by (simp add: createChat_def ifS_def cl)
qed

text \<open>
  The reachable states: the client starts with a cache, chats are created from it and left, the server sends
  frames of any bytes, and the application, the timers and the crypto module do what \<open>ChatOp\<close> lists.  The
  environment may change at every step.  A chat whose queue cannot be read back is not created.
\<close>

inductive client_reach :: "Client \<Rightarrow> bool" where
  cr_start: "db_ok d \<Longrightarrow> sorted (map snd (sendKeys d)) \<Longrightarrow> client_reach (newClient d)"
| cr_frame: "client_reach cl \<Longrightarrow> env_ok e \<Longrightarrow> client_reach (fst (clientFrame r e b cl))"
| cr_op: "client_reach cl \<Longrightarrow> env_ok e \<Longrightarrow> client_reach (fst (runChat e c (chatOp e c op) cl))"
| cr_create: "client_reach cl \<Longrightarrow> env_ok e \<Longrightarrow> loadSendQueue (clDb cl) c (eMyHandle (cnChat e c)) = Inr q \<Longrightarrow>
    client_reach (fst (createChat fr e c shard users t cl))"
| cr_leave: "client_reach cl \<Longrightarrow> client_reach (fst (leaveChat e c cl))"
| cr_timer: "client_reach cl \<Longrightarrow> client_reach (fst (onRetentionTimer e cl))"
| cr_links: "client_reach cl \<Longrightarrow> client_reach (fst (onRichLinkState e cl))"

lemma client_reach_inv: "client_reach cl \<Longrightarrow> client_inv cl"
proof (induction rule: client_reach.induct)
  case (cr_start d)
  then show ?case by (simp add: client_inv_def newClient_def)
next
  case (cr_op cl e c op)
  then show ?case by (intro keepsD [OF keeps_runChat] keeps_chatOp)
qed (auto intro: clientFrame_inv create_inv keepsD [OF keeps_leave] keepsD [OF keeps_retentionTimer] keepsD [OF keeps_richLinkState])

end
