(* ===== verification/ChatFlush.thy ===== *)
theory ChatFlush
  imports ChatClientInv
begin

text \<open>
  The loop that sends the queue (\<open>flushOutputQueue\<close>): it ends, and when the crypto module answers at once
  it sends every unsent item, in order, each key before its message.  The back references of a message
  are always found.
\<close>

section \<open>Back references\<close>

text \<open>The random choices of the code: every offset of a range is tried, in some order.\<close>

definition order_ok :: "(nat \<Rightarrow> nat \<Rightarrow> nat list) \<Rightarrow> bool" where
  "order_ok order \<longleftrightarrow> (\<forall>i n. set (order i n) = {..<n})"

definition candidates :: "SendingItem list \<Rightarrow> HistBuf \<Rightarrow> nat \<Rightarrow> Message set" where
  "candidates q b n = {m. \<exists>j < n. backRefCand q b j = Inr m}"

lemma backRefCand_defined:
  assumes "int j < histSize b"
  shows "\<exists>m. backRefCand q b j = Inr m"
proof (cases "j < length q")
  case False
  with assms have "lownum b \<le> highnum b - (int j - int (length q))" by (simp add: histSize_window)
  then show ?thesis using False by (simp add: backRefCand_def at_def findOrNull_list)
qed (simp add: backRefCand_def)

lemma pickRef_defined:
  assumes "\<And>off. off \<in> set offs \<Longrightarrow> \<exists>m. cand (start + off) = Inr m"
  shows "\<exists>r. pickRef cand start offs = Inr r \<and>
    (\<forall>x. r = Some x \<longrightarrow> (\<exists>off \<in> set offs. \<exists>m. cand (start + off) = Inr m \<and> \<not> isManagementMessage m \<and> x = backRefId m))"
  using assms
proof (induction offs)
  case (Cons off offs)
  obtain m where m: "cand (start + off) = Inr m" using Cons.prems by auto
  show ?case
  proof (cases "isManagementMessage m")
    case True
    then show ?thesis using Cons.IH Cons.prems m by (auto simp: bindR_def)
  next
    case False
    then show ?thesis using m by (auto simp: bindR_def)
  qed
qed simp

lemma ranges_defined:
  assumes "order_ok order" "\<And>j. j < maxEnd \<Longrightarrow> \<exists>m. cand j = Inr m"
  shows "\<exists>rs. backRefRanges order cand maxEnd rngs start = Inr rs \<and> length rs \<le> length rngs \<and>
    (\<forall>x \<in> set rs. \<exists>j < maxEnd. \<exists>m. cand j = Inr m \<and> \<not> isManagementMessage m \<and> x = backRefId m)"
proof (induction rngs arbitrary: start)
  case (Cons i rngs)
  let ?e = "min (2 ^ i) maxEnd"
  have "\<exists>m. cand (start + off) = Inr m" if "off \<in> set (order i (?e - start))" for off
    using assms that by (auto simp: order_ok_def)
  from pickRef_defined [where cand = cand and start = start, OF this] obtain r where r: "pickRef cand start (order i (?e - start)) = Inr r"
    and x: "\<forall>x. r = Some x \<longrightarrow> (\<exists>off \<in> set (order i (?e - start)). \<exists>m. cand (start + off) = Inr m \<and> \<not> isManagementMessage m \<and> x = backRefId m)"
    by blast
  have off: "start + off < maxEnd" if "off \<in> set (order i (?e - start))" for off
    using assms(1) that by (auto simp: order_ok_def)
  have hit: "\<exists>j < maxEnd. \<exists>m. cand j = Inr m \<and> \<not> isManagementMessage m \<and> y = backRefId m" if "r = Some y" for y
    using x that off by blast
  show ?case
  proof (cases "?e = maxEnd")
    case True
    then show ?thesis using r hit by (cases r) (auto simp: bindR_def Let_def)
  next
    case False
    from Cons.IH [of ?e] obtain rs where "backRefRanges order cand maxEnd rngs ?e = Inr rs" "length rs \<le> length rngs"
      "\<forall>x \<in> set rs. \<exists>j < maxEnd. \<exists>m. cand j = Inr m \<and> \<not> isManagementMessage m \<and> x = backRefId m"
      by blast
    then show ?thesis using r hit False by (cases r) (auto simp: bindR_def Let_def)
  qed
qed simp

lemma createMsgBackRefs_defined:
  assumes "order_ok order"
  shows "\<exists>rs. createMsgBackRefs order q b = Inr rs \<and> length rs \<le> 7 \<and>
    (\<forall>x \<in> set rs. \<exists>j m. int j < histSize b - int (length q) \<and> backRefCand q b j = Inr m \<and> \<not> isManagementMessage m \<and> x = backRefId m)"
proof (cases "histSize b - int (length q) \<le> 0")
  case False
  have "\<exists>m. backRefCand q b j = Inr m" if "j < nat (histSize b - int (length q))" for j
    using that by (intro backRefCand_defined) linarith
  from ranges_defined [where rngs = "[0..<7]" and start = 0 and cand = "backRefCand q b" and maxEnd = "nat (histSize b - int (length q))", OF assms this] False show ?thesis
    by (auto simp: createMsgBackRefs_def zless_nat_eq_int_zless)
qed (simp add: createMsgBackRefs_def)

lemma firstRef_self:
  assumes "order_ok order" "createMsgBackRefs order q b = Inr rs" "int (length q) < histSize b" "q \<noteq> []" "\<not> isManagementMessage (siMsg (last q))"
  shows "rs \<noteq> [] \<and> hd rs = backRefId (siMsg (last q))"
proof -
  let ?n = "nat (histSize b - int (length q))"
  have n: "min 1 ?n = 1" "\<not> histSize b - int (length q) \<le> 0" using assms(3) by auto
  have "set (order 0 1) = {..<1}" using assms(1) by (simp only: order_ok_def)
  then have o: "set (order 0 1) = {0}" by (simp add: lessThan_Suc)
  then have "order 0 1 \<noteq> []" by (metis empty_iff insertI1 list.set(1))
  then obtain x offs where x: "order 0 1 = x # offs" by (meson list.exhaust)
  then have "x \<in> {0}" using o by (metis list.set_intros(1))
  with x have offs: "order 0 1 = 0 # offs" by simp
  have c: "backRefCand q b 0 = Inr (siMsg (last q))" using assms(4) by (simp add: backRefCand_def last_conv_nth)
  have u: "[0..<7] = (0::nat) # [1..<7]" by (simp add: upt_conv_Cons)
  have "backRefRanges order (backRefCand q b) ?n (0 # [1..<7]) 0 = Inr rs"
    using assms(2) unfolding createMsgBackRefs_def Let_def if_not_P [OF n(2)] u .
  then obtain r rs' where "pickRef (backRefCand q b) 0 (0 # offs) = Inr r" "rs = (case r of None \<Rightarrow> [] | Some x \<Rightarrow> [x]) @ rs'"
    unfolding backRefRanges.simps using offs n(1) by (auto simp: bindR_Inr_iff Let_def simp del: pickRef.simps)
  moreover have "pickRef (backRefCand q b) 0 (0 # offs) = Inr (Some (backRefId (siMsg (last q))))"
    using c assms(5) by (simp add: bindR_def)
  ultimately show ?thesis by simp
qed

section \<open>The loop ends\<close>

text \<open>A continuation is called with the queue and the iterator as they were, but for the item.\<close>

definition sentCmds :: "ChatEnv \<Rightarrow> bytes \<Rightarrow> KeyCommand option \<Rightarrow> ChatOut list" where
  "sentCmds env cmd kc = (if eConnOnline env then (case kc of None \<Rightarrow> [] | Some k \<Rightarrow> [OSend (kcBuf k)]) @ [OSend cmd] else [])"

lemma sendKey_eq: "sendKeyAndMessage env cmd kc s = (s\<lparr>cOut := cOut s @ sentCmds env cmd kc\<rparr>, None)"
  by (simp add: sendKeyAndMessage_def sendCommand_def step_simps sentCmds_def split: option.split)

lemma encrypt_Some: "siMsgCmd (mSending s ! k) = Some cmd \<Longrightarrow>
    msgEncryptAndSend e k c s = c True (s\<lparr>cOut := cOut s @ sentCmds (seEnv e) cmd (siKeyCmd (mSending s ! k))\<rparr>)"
  by (simp add: msgEncryptAndSend_def readS_def sendKey_eq)

definition encryptItem :: "SendEnv \<Rightarrow> SendingItem \<Rightarrow> EncResult" where
  "encryptItem e it = (let m = siMsg it in seEncrypt e m (siRecipients it)
     (newMsgCommand (siOpcode it) (eChatId (seEnv e)) (eMyHandle (seEnv e)) (mId m) (ts m) (updated m) CHATD_KEYID_INVALID))"

definition encryptedItem :: "SendingItem \<Rightarrow> bytes \<Rightarrow> KeyCommand option \<Rightarrow> KeyId \<Rightarrow> SendingItem" where
  "encryptedItem it cmd kc kid = it\<lparr>siMsg := (siMsg it)\<lparr>keyid := kid\<rparr>, siMsgCmd := Some cmd, siKeyCmd := kc\<rparr>"

lemma encrypt_None:
  assumes "siMsgCmd (mSending s ! k) = None" "addBackRefs e k s = Inr s1"
  shows "msgEncryptAndSend e k c s =
    (if mEncryptionHalted s1 then c False s1
     else case encryptItem e (mSending s1 ! k) of
       EncNow cmd kc kid \<Rightarrow> c True (setItem k (encryptedItem (mSending s1 ! k) cmd kc kid) s1
         \<lparr>cDb := orElse (cDb s1) (addBlobsToSendingItem (cDb s1) (siRowid (mSending s1 ! k)) cmd kc kid),
          cOut := cOut s1 @ sentCmds (seEnv e) cmd kc\<rparr>)
     | EncLater \<Rightarrow> c False (s1\<lparr>mEncryptionHalted := True, cOut := cOut s1 @ [OCryptoEncrypt (siMsg (mSending s1 ! k)) (siRowid (mSending s1 ! k))]\<rparr>)
     | EncFail \<Rightarrow> doS [onEncryptFailed (seEnv e) (mId (siMsg (mSending s1 ! k))), c False] s1)"
  using assms
  by (simp add: msgEncryptAndSend_def readS_def updS_def ifS_def Let_def encryptItem_def encryptedItem_def step_simps sendKey_eq setItem_def
      split: EncResult.split)

lemma addBackRefs_shape: "addBackRefs e k s = Inr s1 \<Longrightarrow> \<exists>rs. s1 = s\<lparr>mSending := (mSending s)[k := (mSending s ! k)\<lparr>siMsg := (siMsg (mSending s ! k))\<lparr>backRefs := rs\<rparr>\<rparr>]\<rparr>"
  by (auto simp: addBackRefs_def Let_def bindR_Inr_iff setItem_def split: if_splits
      intro: exI [where x = "backRefs (siMsg (mSending s ! k))"])

lemma encrypt_cont:
  assumes "c1 False = c2 False"
    and "\<And>s'. length (mSending s') = length (mSending s) \<Longrightarrow> mNextUnsent s' = mNextUnsent s \<Longrightarrow> c1 True s' = c2 True s'"
  shows "msgEncryptAndSend e k c1 s = msgEncryptAndSend e k c2 s"
proof (cases "siMsgCmd (mSending s ! k)")
  case (Some cmd)
  show ?thesis unfolding encrypt_Some [OF Some] by (rule assms(2)) simp_all
next
  case None
  show ?thesis
  proof (cases "addBackRefs e k s")
    case (Inr s1)
    from addBackRefs_shape [OF this] have sh: "length (mSending s1) = length (mSending s)" "mNextUnsent s1 = mNextUnsent s" by auto
    show ?thesis unfolding encrypt_None [OF None Inr]
      using assms(1) assms(2) sh by (simp add: setItem_def split: EncResult.split)
  qed (simp add: msgEncryptAndSend_def readS_def updS_def None)
qed

lemma flushLoop_bound:
  "mNextUnsent s = Some i \<Longrightarrow> length (mSending s) < i + n \<Longrightarrow> length (mSending s) < i + m \<Longrightarrow> flushLoop e n s = flushLoop e m s"
proof (induction n arbitrary: m s i)
  case 0
  then show ?case by (cases m) (simp_all add: readS_def ifS_def)
next
  case (Suc n)
  show ?case
  proof (cases "i < length (mSending s)")
    case True
    with Suc.prems(3) obtain m' where m: "m = Suc m'" by (cases m) auto
    have "msgEncryptAndSend e i (\<lambda>ok. if ok then flushLoop e n else doS []) (s\<lparr>mNextUnsent := Some (Suc i)\<rparr>) =
        msgEncryptAndSend e i (\<lambda>ok. if ok then flushLoop e m' else doS []) (s\<lparr>mNextUnsent := Some (Suc i)\<rparr>)"
    proof (rule encrypt_cont)
      fix s' :: Chat assume "length (mSending s') = length (mSending (s\<lparr>mNextUnsent := Some (Suc i)\<rparr>))"
        "mNextUnsent s' = mNextUnsent (s\<lparr>mNextUnsent := Some (Suc i)\<rparr>)"
      then have "flushLoop e n s' = flushLoop e m' s'" using Suc.prems(2,3) m by (intro Suc.IH [where i = "Suc i"]) simp_all
      then show "(if True then flushLoop e n else doS []) s' = (if True then flushLoop e m' else doS []) s'" by simp
    qed simp
    then show ?thesis using Suc.prems(1) True m by (simp add: readS_def ifS_def modS_def)
  next
    case False
    then show ?thesis using Suc.prems(1) by (cases m) (simp_all add: readS_def ifS_def)
  qed
qed

section \<open>Everything is sent\<close>

text \<open>The crypto module answers every message at once.\<close>

definition immediate :: "SendEnv \<Rightarrow> bool" where
  "immediate e \<longleftrightarrow> (\<forall>m us c. \<exists>cmd kc kid. seEncrypt e m us c = EncNow cmd kc kid)"

definition itemKey :: "SendingItem \<Rightarrow> nat \<times> Opcode \<times> Id \<times> bytes" where
  "itemKey it = (siRowid it, siOpcode it, mId (siMsg it), mData (siMsg it))"

definition sentItem :: "ChatEnv \<Rightarrow> SendingItem \<Rightarrow> ChatOut list" where
  "sentItem env it = (case siMsgCmd it of None \<Rightarrow> [] | Some cmd \<Rightarrow> sentCmds env cmd (siKeyCmd it))"

lemma addBackRefs_defined: "order_ok (seOrder e) \<Longrightarrow> \<exists>s1. addBackRefs e k s = Inr s1"
  using createMsgBackRefs_defined [of "seOrder e" "take (Suc k) (mSending s)" "cBuf s"]
  by (auto simp: addBackRefs_def Let_def bindR_def)

lemma encrypt_step:
  assumes "immediate e" "order_ok (seOrder e)" "\<not> mEncryptionHalted s" "k < length (mSending s)"
  obtains s' it where "\<And>c. msgEncryptAndSend e k c s = c True s'" "mSending s' = (mSending s)[k := it]" "itemKey it = itemKey (mSending s ! k)"
    "siMsgCmd it \<noteq> None" "cOut s' = cOut s @ sentItem (seEnv e) it" "mNextUnsent s' = mNextUnsent s" "\<not> mEncryptionHalted s'"
proof (cases "siMsgCmd (mSending s ! k)")
  case (Some cmd)
  show ?thesis
    by (rule that [OF encrypt_Some [OF Some], of "mSending s ! k"]) (use assms Some in \<open>simp_all add: sentItem_def\<close>)
next
  case None
  obtain s1 where s1: "addBackRefs e k s = Inr s1" using addBackRefs_defined [OF assms(2)] by blast
  from addBackRefs_shape [OF this] obtain rs where
    sh: "s1 = s\<lparr>mSending := (mSending s)[k := (mSending s ! k)\<lparr>siMsg := (siMsg (mSending s ! k))\<lparr>backRefs := rs\<rparr>\<rparr>]\<rparr>" by blast
  obtain cmd kc kid where enc: "encryptItem e (mSending s1 ! k) = EncNow cmd kc kid"
    using assms(1) unfolding encryptItem_def immediate_def Let_def by blast
  let ?it = "encryptedItem (mSending s1 ! k) cmd kc kid"
  let ?s' = "setItem k ?it s1\<lparr>cDb := orElse (cDb s1) (addBlobsToSendingItem (cDb s1) (siRowid (mSending s1 ! k)) cmd kc kid),
      cOut := cOut s1 @ sentCmds (seEnv e) cmd kc\<rparr>"
  have "msgEncryptAndSend e k c s = c True ?s'" for c
    unfolding encrypt_None [OF None s1] using assms(3) sh enc by simp
  moreover have "mSending ?s' = (mSending s)[k := ?it]" "itemKey ?it = itemKey (mSending s ! k)" "siMsgCmd ?it \<noteq> None"
    "cOut ?s' = cOut s @ sentItem (seEnv e) ?it" "mNextUnsent ?s' = mNextUnsent s" "\<not> mEncryptionHalted ?s'"
    using assms(3,4) sh by (simp_all add: setItem_def encryptedItem_def itemKey_def sentItem_def)
  ultimately show ?thesis by (rule that)
qed

lemma flushLoop_all:
  assumes "immediate e" "order_ok (seOrder e)"
  shows "\<not> mEncryptionHalted s \<Longrightarrow> mNextUnsent s = Some i \<Longrightarrow> i \<le> length (mSending s) \<Longrightarrow> length (mSending s) < i + n \<Longrightarrow>
    \<exists>s' q. flushLoop e n s = (s', None) \<and> mSending s' = take i (mSending s) @ q \<and> map itemKey q = map itemKey (drop i (mSending s)) \<and>
      (\<forall>it \<in> set q. siMsgCmd it \<noteq> None) \<and> cOut s' = cOut s @ concat (map (sentItem (seEnv e)) q) \<and>
      mNextUnsent s' = Some (length (mSending s')) \<and> \<not> mEncryptionHalted s'"
proof (induction n arbitrary: s i)
  case 0
  then show ?case by simp
next
  case (Suc n)
  show ?case
  proof (cases "i < length (mSending s)")
    case True
    let ?s = "s\<lparr>mNextUnsent := Some (Suc i)\<rparr>"
    obtain s1 it where st: "\<And>c. msgEncryptAndSend e i c ?s = c True s1" and q: "mSending s1 = (mSending s)[i := it]"
      and it: "itemKey it = itemKey (mSending s ! i)" "siMsgCmd it \<noteq> None" "cOut s1 = cOut s @ sentItem (seEnv e) it"
      and nx: "mNextUnsent s1 = Some (Suc i)" "\<not> mEncryptionHalted s1"
      using encrypt_step [OF assms, of ?s i] Suc.prems(1) True by auto
    from Suc.IH [OF nx(2) nx(1)] q True Suc.prems(4) obtain s' q' where
      r: "flushLoop e n s1 = (s', None)" "mSending s' = take (Suc i) (mSending s1) @ q'" "map itemKey q' = map itemKey (drop (Suc i) (mSending s1))"
        "\<forall>it \<in> set q'. siMsgCmd it \<noteq> None" "cOut s' = cOut s1 @ concat (map (sentItem (seEnv e)) q')"
        "mNextUnsent s' = Some (length (mSending s'))" "\<not> mEncryptionHalted s'"
      by auto
    have "take (Suc i) (mSending s1) = take i (mSending s) @ [it]" using q True by (simp add: take_Suc_conv_app_nth)
    moreover have "drop i (mSending s) = mSending s ! i # drop (Suc i) (mSending s)" using True by (simp add: Cons_nth_drop_Suc)
    moreover have "flushLoop e (Suc n) s = (s', None)" using Suc.prems(2) True r(1) st by (simp add: readS_def ifS_def modS_def)
    ultimately show ?thesis using r it q by (intro exI [of _ s'] exI [of _ "it # q'"]) simp
  next
    case False
    then show ?thesis using Suc.prems by (intro exI [of _ s] exI [of _ "[]"]) (simp add: readS_def ifS_def)
  qed
qed

end
