(* ===== verification/ChatSample.thy ===== *)
theory ChatSample
  imports ChatClientInv
begin

text \<open>A small chat, its environment and a client, on which the theorems about chats are applied.\<close>

definition sampleChatEnv :: "Id \<Rightarrow> ChatEnv" where
  "sampleChatEnv c = \<lparr>eChatId = c, eMyHandle = 1, eIsGroup = True, eIsPublic = False, ePreviewMode = False, ePublicHandle = Id_inval,
     eConnOnline = True, eNow = 1000, eRoomOpened = True, eReceivedConfirmation = False, eRichLinkState = 2, eHasUrl = (\<lambda>_. False),
     eUserLastMsgTs = (\<lambda>_. 0), eRtcExists = True, eRtcCall = False\<rparr>"

definition textMsg :: "Id \<Rightarrow> Id \<Rightarrow> u32 \<Rightarrow> bool \<Rightarrow> Message" where
  "textMsg i u t sending = newMessage i u t 0 [104, 105] sending 5 kMsgNormal (i + 100) []"

definition sampleEncrypt :: encrypter where
  "sampleEncrypt m us cmd = EncNow (mcSetMsg cmd (mData m)) None 5"

definition sampleClientEnv :: ClientEnv where
  "sampleClientEnv = \<lparr>cnNow = 1000, cnChat = sampleChatEnv, cnDecrypt = (\<lambda>_ m. DecNow (m\<lparr>mIsEncrypted := kNotEncrypted\<rparr>)),
     cnEncrypt = (\<lambda>_. sampleEncrypt), cnOrder = (\<lambda>_ n. [0..<n]), cnReaction = (\<lambda>_ _ _ _ _. ReactFail)\<rparr>"

definition sampleChatDb :: ChatdDb where
  "sampleChatDb = emptyDb [\<lparr>cChat = 7, cTsCreated = 900, cLastSeen = 0, cLastRecv = 0, cRsn = []\<rparr>]"

abbreviation sampleChat :: Chat where
  "sampleChat \<equiv> blankChat sampleChatDb 7 {1, 2} 900"

lemma sample_simps:
  "dHistory sampleChatDb = []" "dNodeHistory sampleChatDb = []" "dSending sampleChatDb = []" "dVars sampleChatDb = []"
  "dLastRowid sampleChatDb = 0" "findChat sampleChatDb 7 = Some \<lparr>cChat = 7, cTsCreated = 900, cLastSeen = 0, cLastRecv = 0, cRsn = []\<rparr>"
  by (simp_all add: sampleChatDb_def emptyDb_def findChat_def)

lemma newChat_sample: "newChat fr (recvEnv sampleClientEnv 7) sampleChatDb {1, 2} 900 = (sampleChat, None)"
proof -
  have u: "unreadCount (sampleChatEnv 7) sampleChat = Inr 0"
    by (simp add: unreadCount_def blankChat_def getUnreadMsgCountAfterIdx_def rowsOf_def sample_simps Let_def)
  have q: "loadSendQueue sampleChatDb 7 1 = Inr []"
    by (simp add: loadSendQueue_def sample_simps)
  have i: "getIdxOfMsgidFromHistory sampleChatDb 7 0 = CHATD_IDX_INVALID"
    by (simp add: getIdxOfMsgidFromHistory_def getIdxOfMsgid_def findRow_def sample_simps)
  have c: "calculateUnreadCount (sampleChatEnv 7) sampleChat = (sampleChat, None)"
    using u by (simp add: calculateUnreadCount_def getS_def ifS_def blankChat_def)
  show ?thesis
    using c q i
    by (simp add: newChat_def startChat_def recvEnv_def sampleClientEnv_def sampleChatEnv_def Let_def initChat_def modS_def blankChat_def
        emptyBuf_def ltClear_def newLastTextMsg_def getDbHistInfoAndInitOldestKnownMsgId_def getS_def getHistoryInfo_def rowsOf_def
        sample_simps ifS_def emptyDbInfo_def Id_null_def getReactionSn_def chatVar_def loadAndProcessUnsent_def)
qed

definition sampleClient :: Client where
  "sampleClient = fst (runChat sampleClientEnv 7 (chatOp sampleClientEnv 7 (AOnSubmit (textMsg 40 1 990 True) {1, 2}))
     (fst (createChat (\<lambda>_. 0) sampleClientEnv 7 0 {1, 2} 900 (newClient sampleChatDb))))"


lemma sample_created:
  "clDb (fst (createChat fr sampleClientEnv 7 0 {1, 2} 900 (newClient sampleChatDb))) = sampleChatDb"
  "clChats (fst (createChat fr sampleClientEnv 7 0 {1, 2} 900 (newClient sampleChatDb))) = [(7, sampleChat)]"
  using newChat_sample [of fr]
  by (simp_all add: createChat_def ifS_def modS_def newClient_def chatFromId_def blankChat_def)

lemma lastText_queue: "mSending (fst (onLastTextMsgUpdated m i s)) = mSending s" "cDb (fst (onLastTextMsgUpdated m i s)) = cDb s"
  by (simp_all add: onLastTextMsgUpdated_def notifyLastTextMsg_def setLastText_def listenS_def outS_def modS_def ifS_def)

text \<open>The chat is not logged in yet: the message waits in the queue and in the cache.\<close>

lemma sampleClient_chat:
  "map (\<lambda>(c, ch). (c, map siRowid (mSending ch))) (clChats sampleClient) = [(7, [1])]"
  "map (\<lambda>r. (sChat r, sRowid r, sRecipients r, sMsgCmd r, sKeyCmd r)) (dSending (clDb sampleClient)) = [(7, 1, SetOfIds_save {1, 2}, [], [])]"
proof -
  let ?cl = "fst (createChat (\<lambda>_. 0) sampleClientEnv 7 0 {1, 2} 900 (newClient sampleChatDb))"
  obtain ch x where r: "onSubmit (sendEnv sampleClientEnv 7) (textMsg 40 1 990 True) {1, 2} (sampleChat\<lparr>cDb := sampleChatDb\<rparr>) = (ch, x)" by fastforce
  have "map siRowid (mSending (fst (onSubmit (sendEnv sampleClientEnv 7) (textMsg 40 1 990 True) {1, 2} (sampleChat\<lparr>cDb := sampleChatDb\<rparr>)))) = [1] \<and>
      map (\<lambda>r. (sChat r, sRowid r, sRecipients r, sMsgCmd r, sKeyCmd r)) (dSending (cDb (fst (onSubmit (sendEnv sampleClientEnv 7) (textMsg 40 1 990 True) {1, 2} (sampleChat\<lparr>cDb := sampleChatDb\<rparr>))))) = [(7, 1, SetOfIds_save {1, 2}, [], [])]"
    by (simp add: onSubmit_def postMsgToSending_def sendEnv_def sampleClientEnv_def sampleChatEnv_def modS_def
       addSendingItem_def appendItem_def newSendingItem_def blankChat_def flushOutputQueue_def ifS_def isLoggedIn_def sample_simps
       Let_def lastText_queue)
  then have q: "map siRowid (mSending ch) = [1]" "map (\<lambda>r. (sChat r, sRowid r, sRecipients r, sMsgCmd r, sKeyCmd r)) (dSending (cDb ch)) = [(7, 1, SetOfIds_save {1, 2}, [], [])]" unfolding r by simp_all
  have "chatFromId ?cl 7 = Some sampleChat" by (simp add: chatFromId_def sample_created)
  then have "clChats sampleClient = map (\<lambda>(i, y). (i, if i = 7 then ch else y)) (clChats ?cl) \<and> clDb sampleClient = cDb ch"
    using r by (simp add: sampleClient_def runChat_def sample_created putChat_def)
  then show "map (\<lambda>(c, ch). (c, map siRowid (mSending ch))) (clChats sampleClient) = [(7, [1])]"
    "map (\<lambda>r. (sChat r, sRowid r, sRecipients r, sMsgCmd r, sKeyCmd r)) (dSending (clDb sampleClient)) = [(7, 1, SetOfIds_save {1, 2}, [], [])]"
    using q by (simp_all add: sample_created)
qed

end
