(* ===== verification/ChatViews.thy ===== *)
theory ChatViews
  imports ChatClientInv
begin

text \<open>
  What a handler leaves alone.  A view is a part of the state of a chat; a locale lists the fields it does
  not depend on, and gives the handlers that only change those: they preserve the view, whether they return
  or throw.  The interpretations at the end are the views the theorems about single handlers look at.
\<close>

section \<open>Notifications and bookkeeping\<close>

locale notify_view =
  fixes v :: "Chat \<Rightarrow> 'v"
  assumes v_out [simp]: "v (cOut_update f1 s) = v s"
    and v_db [simp]: "v (cDb_update f2 s) = v s"
    and v_fh [simp]: "v (cFh_update f3 s) = v s"
    and v_last [simp]: "v (mLastTextMsg_update f4 s) = v s" "v (mLastMsgTs_update f5 s) = v s"
    and v_unread [simp]: "v (mUnreadCount_update f6 s) = v s"
    and v_pending [simp]: "v (mPendingReactions_update f7 s) = v s"
    and v_links [simp]: "v (mMsgsToUpdateWithRichLink_update f8 s) = v s"
    and v_refs [simp]: "v (mRefidToIdxMap_update f9 s) = v s"
    and v_nodes [simp]: "v (mAttachmentsPendingToDecrypt_update f10 s) = v s" "v (mTruncateAttachment_update f11 s) = v s"
begin

lemma view_outS [keeps_intros]: "keeps (\<lambda>s. v s = a) (outS f)"
  unfolding outS_def by (rule keeps_modS) simp

lemma view_listenS [keeps_intros]: "keeps (\<lambda>s. v s = a) (listenS f)"
  unfolding listenS_def by (rule view_outS)

lemma view_sendCommand [keeps_intros]: "keeps (\<lambda>s. v s = a) (sendCommand env f)"
  unfolding sendCommand_def by (rule view_outS)

lemma view_dbS [keeps_intros]: "keeps (\<lambda>s. v s = a) (dbS f)"
  unfolding dbS_def by (rule keeps_modS) simp

lemma view_fhS [keeps_intros]: "keeps (\<lambda>s. v s = a) (fhS f)"
  unfolding fhS_def by (rule keeps_updS) (auto simp: bindR_Inr_iff)

lemma view_lastText [keeps_intros]:
  "keeps (\<lambda>s. v s = a) notifyLastTextMsg"
  "keeps (\<lambda>s. v s = a) (onLastTextMsgUpdated m idx)"
  unfolding onLastTextMsgUpdated_def notifyLastTextMsg_def setLastText_def
  by (intro keeps_intros; simp)+

lemma view_findLastTextMsg [simp]: "v (snd (findLastTextMsg env s)) = v s"
  by (auto simp: findLastTextMsg_def lastTextFromDb_def setLastText_def Let_def split: option.split sum.split prod.split)

lemma view_findAndNotify [keeps_intros]: "keeps (\<lambda>s. v s = a) (findAndNotifyLastTextMsg env)"
proof (unfold findAndNotifyLastTextMsg_def, rule keeps_readS_dep)
  fix s assume s: "v s = a"
  obtain d s' where r: "findLastTextMsg env s = (d, s')" by fastforce
  have k: "keeps (\<lambda>s. v s = a) (whenS (\<lambda>_. d) [notifyLastTextMsg])" by (intro keeps_intros)
  have "v s' = a" using view_findLastTextMsg [of env s] r s by simp
  from keepsD [OF k this]
  have "v (fst (doS [modS (\<lambda>_. s'), whenS (\<lambda>_. d) [notifyLastTextMsg]] s)) = a"
    by (simp add: modS_def split: prod.split option.split)
  then show "v (fst ((case findLastTextMsg env s of (d, s') \<Rightarrow> doS [modS (\<lambda>_. s'), whenS (\<lambda>_. d) [notifyLastTextMsg]]) s)) = a"
    unfolding r prod.case .
qed

lemma view_unread [keeps_intros]: "keeps (\<lambda>s. v s = a) (calculateUnreadCount env)"
  unfolding calculateUnreadCount_def by (intro keeps_intros; simp)

lemma view_reactions [keeps_intros]:
  "keeps (\<lambda>s. v s = a) (addPendingReaction p)"
  "keeps (\<lambda>s. v s = a) (removePendingReaction r i)"
  "keeps (\<lambda>s. v s = a) (retryPendingReactions env)"
  "keeps (\<lambda>s. v s = a) (cleanPendingReactions i)"
  "keeps (\<lambda>s. v s = a) (cleanPendingReactionsOlderThan idx)"
  "keeps (\<lambda>s. v s = a) (manageReaction env m r e op)"
  unfolding addPendingReaction_def removePendingReaction_def retryPendingReactions_def cleanPendingReactions_def
    cleanPendingReactionsOlderThan_def manageReaction_def
  by (intro keeps_intros; simp)+

lemma view_reject [keeps_intros]:
  "keeps (\<lambda>s. v s = a) (onReactionReject env i)"
  "keeps (\<lambda>s. v s = a) (flushChatPendingReactions env)"
  unfolding onReactionReject_def flushChatPendingReactions_def by (intro keeps_intros; simp)+

lemma view_links [keeps_intros]:
  "keeps (\<lambda>s. v s = a) (manageRichLinkMessage env m)"
  "keeps (\<lambda>s. v s = a) (requestRichLink env m)"
  "keeps (\<lambda>s. v s = a) (removePendingRichLinks idx)"
  unfolding manageRichLinkMessage_def requestRichLink_def removePendingRichLinks_def
  by (intro keeps_intros; simp add: Let_def)+

lemma view_richLinkOf [keeps_intros]: "keeps (\<lambda>s. v s = a) (richLinkOf env m)"
  unfolding richLinkOf_def by (intro keeps_intros)

lemma view_addRefid [keeps_intros]: "keeps (\<lambda>s. v s = a) (addRefid r idx m)"
  unfolding addRefid_def by (intro keeps_intros; simp)

lemma view_stillAlive [keeps_intros]: "keeps (\<lambda>s. v s = a) (stillAlive idx)"
  unfolding stillAlive_def by (intro keeps_intros)

lemma view_confirmLastText [keeps_intros]: "keeps (\<lambda>s. v s = a) (confirmLastText env x m idx)"
  unfolding confirmLastText_def by (intro keeps_intros; simp)

lemma view_notifyStatus [keeps_intros]: "keeps (\<lambda>s. v s = a) (notifyStatus env st own i j)"
  unfolding notifyStatus_def by (intro keeps_intros)

lemma view_truncateAttachments [keeps_intros]: "keeps (\<lambda>s. v s = a) (truncateAttachmentHistory env)"
  unfolding truncateAttachmentHistory_def by (intro keeps_intros; simp)

lemma view_retentionCheck [keeps_intros]: "keeps (\<lambda>s. v s = a) (nextRetentionHistCheck env b)"
  unfolding nextRetentionHistCheck_def by (intro keeps_intros)

end

section \<open>The history and its pointers\<close>

locale history_view = notify_view +
  assumes v_buf [simp]: "v (cBuf_update g1 s) = v s"
    and v_known [simp]: "v (mOldestKnownMsgId_update g2 s) = v s" "v (mOldestIdxInDb_update g3 s) = v s"
    and v_seen [simp]: "v (mLastSeenIdx_update g4 s) = v s" "v (mLastSeenId_update g5 s) = v s"
    and v_received [simp]: "v (mLastReceivedIdx_update g6 s) = v s" "v (mLastReceivedId_update g7 s) = v s"
      "v (mLastIdxReceivedFromServer_update g8 s) = v s"
    and v_have [simp]: "v (mHaveAllHistory_update g9 s) = v s" "v (mHasMoreHistoryInDb_update g10 s) = v s"
    and v_next [simp]: "v (mNextHistFetchIdx_update g11 s) = v s"
begin

lemma view_deleteOlder [keeps_intros]: "keeps (\<lambda>s. v s = a) (deleteOlder idx)"
  unfolding deleteOlder_def by (rule keeps_updS) (auto simp: bindR_Inr_iff)

lemma view_removeReactions [keeps_intros]: "keeps (\<lambda>s. v s = a) (removeMessageReactions idx b)"
  unfolding removeMessageReactions_def by (intro keeps_intros; simp)

lemma view_dbInfo [keeps_intros]: "(\<And>i. keeps (\<lambda>s. v s = a) (k i)) \<Longrightarrow> keeps (\<lambda>s. v s = a) (getDbHistInfoAndInitOldestKnownMsgId env k)"
  unfolding getDbHistInfoAndInitOldestKnownMsgId_def by (intro keeps_intros; simp)

lemma view_pointers [keeps_intros]:
  "keeps (\<lambda>s. v s = a) (onLastReceived env i)"
  "keeps (\<lambda>s. v s = a) (onLastSeen env i b)"
  "keeps (\<lambda>s. v s = a) (onSeenTimer env idx i)"
  unfolding onLastReceived_def onLastSeen_def onSeenTimer_def by (intro keeps_intros; simp add: Let_def)+

lemma view_handleLast [keeps_intros]:
  "keeps (\<lambda>s. v s = a) (handleLastReceivedSeen env i)"
  "keeps (\<lambda>s. v s = a) (seenImport env i)"
  unfolding handleLastReceivedSeen_def seenImport_def by (intro keeps_intros)+

lemma view_truncate [keeps_intros]: "keeps (\<lambda>s. v s = a) (handleTruncate env m idx)"
  unfolding handleTruncate_def by (intro keeps_intros; simp)

lemma view_retention [keeps_intros]: "keeps (\<lambda>s. v s = a) (handleRetentionTime env b)"
  unfolding handleRetentionTime_def by (intro keeps_intros; simp)

lemma view_fhAddS [keeps_intros]:
  assumes "\<And>m'. keeps (\<lambda>s. v s = a) (k m')" shows "keeps (\<lambda>s. v s = a) (fhAddS env m isNew isLocal k)"
proof (rule keepsI)
  fix s assume "v s = a"
  then show "v (fst (fhAddS env m isNew isLocal k s)) = a"
    by (auto simp: fhAddS_def keepsD [OF assms] split: sum.split prod.split)
qed

lemma view_withAttachment [keeps_intros]:
  "(\<And>m'. keeps (\<lambda>s. v s = a) (k m')) \<Longrightarrow> keeps (\<lambda>s. v s = a) (withAttachment env m isNew idx k)"
  unfolding withAttachment_def by (intro keeps_intros; simp)

end

end
