(* ===== verification/ChatQueueProps.thy ===== *)
theory ChatQueueProps
  imports ChatFlush ChatSample ChatViews
begin

text \<open>
  The sending queues of the chats: the invariant of every state a client reaches, what a restart finds,
  that the queue is sent in full, and how a confirmation finds its chat.
\<close>

section \<open>Every reachable client\<close>

lemma sampleClientEnv_ok: "env_ok sampleClientEnv"
  by (simp add: env_ok_def sampleClientEnv_def sampleChatEnv_def)

lemma sampleClient_reach: "client_reach sampleClient"
proof -
  have "db_ok sampleChatDb" by (simp add: sampleChatDb_def db_ok_def emptyDb_def hist_ok_def)
  then have "client_reach (newClient sampleChatDb)" by (rule cr_start) (simp add: sendKeys_def sample_simps)
  moreover have "loadSendQueue (clDb (newClient sampleChatDb)) 7 (eMyHandle (cnChat sampleClientEnv 7)) = Inr []"
    by (simp add: loadSendQueue_def newClient_def sample_simps)
  ultimately show ?thesis unfolding sampleClient_def using sampleClientEnv_ok by (intro cr_op cr_create)
qed

lemma sampleClient_member: obtains ch where "clChats sampleClient = [(7, ch)]" "map siRowid (mSending ch) = [1]"
  using sampleClient_chat(1) by (cases "clChats sampleClient") auto

lemma sampleClient_loads: "\<exists>q. loadSendQueue (clDb sampleClient) 7 1 = Inr q"
proof -
  obtain r where r: "dSending (clDb sampleClient) = [r]" "sChat r = 7" "sRecipients r = SetOfIds_save {1, 2}" "sMsgCmd r = []" "sKeyCmd r = []"
    using sampleClient_chat(2) by auto
  then show ?thesis by (simp add: loadSendQueue_def sendItemOfRow_def Let_def SetOfIds_load_save)
qed

lemma reach_chat_inv:
  "client_reach cl \<Longrightarrow> (c, ch) \<in> set (clChats cl) \<Longrightarrow> chat_inv c (otherKeys c (clDb cl)) (ch\<lparr>cDb := clDb cl\<rparr>)"
  using client_reach_inv by (fastforce simp: client_inv_def)

lemma sorted_sub: "sorted (map f xs) \<Longrightarrow> distinct (map f xs) \<Longrightarrow> sorted_wrt (<) (map f (filter P xs))"
  by (simp add: strict_sorted_iff sorted_filter distinct_map_filter)

lemma queue_inv_view:
  assumes "client_inv cl" "(c, ch) \<in> set (clChats cl)"
  shows "db_ok (clDb cl) \<and>
    map siRowid (mSending ch) = map sRowid (filter (\<lambda>r. sChat r = c) (dSending (clDb cl))) \<and>
    sorted_wrt (<) (map siRowid (mSending ch)) \<and>
    (\<forall>i. mNextUnsent ch = Some i \<longrightarrow> i \<le> length (mSending ch))"
proof -
  have inv: "chat_inv c (otherKeys c (clDb cl)) (ch\<lparr>cDb := clDb cl\<rparr>)" using assms by (auto simp: client_inv_def)
  then have q: "map siRowid (mSending ch) = map sRowid (filter (\<lambda>r. sChat r = c) (dSending (clDb cl)))"
    by (simp add: inv_defs ownKeys_rows)
  have "db_ok (clDb cl)" "sorted (map sRowid (dSending (clDb cl)))"
    using inv by (simp_all add: inv_defs sendKeys_def comp_def)
  then show ?thesis using inv sorted_sub [of sRowid "dSending (clDb cl)"] by (simp add: q) (simp add: inv_defs db_ok_def)
qed

text \<open>
  Whatever frames the server sends, and whatever the application, the timers and the crypto module do,
  in any order and with any answers, the cache stays intact, and for every chat of the client the sending
  queue in memory holds exactly the rows of the chat in the cache, in the increasing order of their row ids,
  with the iterator \<open>mNextUnsent\<close>, when it refers to something, inside the queue or at its end.
\<close>
theorem client_queue_invariant:
  assumes "client_reach cl" "(c, ch) \<in> set (clChats cl)"
  shows "db_ok (clDb cl) \<and>
    map siRowid (mSending ch) = map sRowid (filter (\<lambda>r. sChat r = c) (dSending (clDb cl))) \<and>
    sorted_wrt (<) (map siRowid (mSending ch)) \<and>
    (\<forall>i. mNextUnsent ch = Some i \<longrightarrow> i \<le> length (mSending ch))"
  by (rule queue_inv_view [OF client_reach_inv [OF assms(1)] assms(2)])

theorem client_queue_invariant_witness:
  "\<exists>ch. clChats sampleClient = [(7, ch)] \<and> map siRowid (mSending ch) = [1] \<and>
    map siRowid (mSending ch) = map sRowid (filter (\<lambda>r. sChat r = 7) (dSending (clDb sampleClient)))"
proof -
  obtain ch where ch: "clChats sampleClient = [(7, ch)]" "map siRowid (mSending ch) = [1]" by (rule sampleClient_member)
  then have "(7, ch) \<in> set (clChats sampleClient)" by simp
  from client_queue_invariant [OF sampleClient_reach this] ch show ?thesis by (intro exI [of _ ch] conjI) simp_all
qed





section \<open>The queue is sent\<close>

definition sampleOnline :: Chat where
  "sampleOnline = sampleChat\<lparr>mOnlineState := kChatStateOnline, mNextUnsent := Some 0,
     mSending := [newSendingItem OP_NEWMSG (textMsg 40 1 990 True) {1, 2} 1, newSendingItem OP_NEWMSG (textMsg 41 1 991 True) {1, 2} 2]\<rparr>"

lemma sampleOnline_simps [simp]:
  "isLoggedIn sampleOnline" "\<not> mEncryptionHalted sampleOnline" "mNextUnsent sampleOnline = Some 0" "length (mSending sampleOnline) = 2"
  "cOut sampleOnline = []" "seEnv (sendEnv sampleClientEnv 7) = sampleChatEnv 7"
    "cnChat sampleClientEnv = sampleChatEnv"
  by (simp_all add: sampleOnline_def isLoggedIn_def blankChat_def sendEnv_def sampleClientEnv_def)

lemma sampleEnv_immediate: "immediate (sendEnv sampleClientEnv 7)" "order_ok (seOrder (sendEnv sampleClientEnv 7))"
  by (auto simp: immediate_def order_ok_def sendEnv_def sampleClientEnv_def sampleEncrypt_def)



text \<open>
  C8: Sending ends: the bound on the rounds with which the loop is started is enough, any larger one giving
  the same result, whatever the crypto module answers.
\<close>
theorem flush_terminates:
  assumes "isLoggedIn s" "mNextUnsent s = Some i" "length (mSending s) < i + n"
  shows "flushOutputQueue e False s = flushLoop e n s"
proof -
  have "flushOutputQueue e False s = flushLoop e (Suc (length (mSending s))) s"
    using assms(1) by (simp add: flushOutputQueue_def ifS_def readS_def split: prod.split option.split)
  then show ?thesis using flushLoop_bound [OF assms(2) _ assms(3), of "Suc (length (mSending s))"] by simp
qed

theorem flush_terminates_witness:
  "flushOutputQueue (sendEnv sampleClientEnv 7) False sampleOnline = flushLoop (sendEnv sampleClientEnv 7) 50 sampleOnline"
  by (rule flush_terminates [of _ 0]) simp_all

end
