(* ===== verification/ChatConfirm.thy ===== *)
theory ChatConfirm
  imports ChatQueueProps
begin

text \<open>
  How the confirmation of a message finds its chat, and what happens to the queues that it passes.
\<close>

section \<open>Confirmations\<close>

definition queueRows :: "Chat \<Rightarrow> nat list" where
  "queueRows s = map siRowid (mSending s)"

interpretation rows: history_view queueRows
  by unfold_locales (simp_all add: queueRows_def)

lemma takesConfirm_cDb [simp]: "takesConfirm (s\<lparr>cDb := d\<rparr>) x = takesConfirm s x" "queueRows (s\<lparr>cDb := d\<rparr>) = queueRows s"
  by (simp_all add: takesConfirm_def queueRows_def)

lemma dbS_returns [simp]: "dbS f s = (s\<lparr>cDb := orElse (cDb s) (f (cDb s))\<rparr>, None)"
  by (simp add: dbS_def modS_def)

text \<open>A chat that does not take the confirmation is left alone; one that does loses the front of its queue.\<close>

lemma msgConfirm_other: "\<not> takesConfirm s x \<Longrightarrow> msgConfirm env x i t s = (s, None)"
  by (simp add: msgConfirm_def msgRemoveFromSending_def ifS_def)

lemma eraseItem_rows [simp]: "queueRows (eraseItem 0 s) = tl (queueRows s)"
  by (cases "mSending s") (simp_all add: queueRows_def eraseItem_def eraseAt_def)


lemma queueRows_simps [simp]: "queueRows (mNextUnsent_update f s) = queueRows s"
  "queueRows (s\<lparr>mSending := confirmEdits x i (mSending s)\<rparr>) = queueRows s"
  by (simp_all add: queueRows_def confirmEdits_rows)

lemma remove_taken:
  assumes "takesConfirm s x" "\<And>a r. keeps (\<lambda>s. queueRows s = a) (k r)"
  shows "queueRows (fst (msgRemoveFromSending env x i k s)) = tl (queueRows s)"
  using assms(1) keepsD [OF assms(2)]
  by (simp add: msgRemoveFromSending_def moveItemToManualSending_def ifS_def readS_def modS_def listenS_def outS_def
      split: prod.split option.split)

lemma remove_rejected:
  "k None = doS [] \<Longrightarrow> snd (msgRemoveFromSending env x 0 k s) = None"
  by (simp add: msgRemoveFromSending_def moveItemToManualSending_def ifS_def readS_def modS_def listenS_def outS_def)

lemma msgConfirm_taken:
  assumes "takesConfirm s x"
  shows "queueRows (fst (msgConfirm env x i t s)) = tl (queueRows s)"
  unfolding msgConfirm_def Let_def
  by (rule remove_taken [OF assms]) (intro keeps_intros rows.view_outS rows.view_listenS rows.view_dbS rows.view_withAttachment
    rows.view_retention rows.view_stillAlive rows.view_addRefid rows.view_confirmLastText rows.view_richLinkOf; simp)

lemma msgConfirm_rejected: "snd (msgConfirm env x 0 t s) = None"
  unfolding msgConfirm_def by (rule remove_rejected) simp

section \<open>The client\<close>

text \<open>The rows of a chat's queue.\<close>

definition rowsOfChat :: "Client \<Rightarrow> Id \<Rightarrow> nat list option" where
  "rowsOfChat cl c = map_option queueRows (chatFromId cl c)"

lemma chatFromId_put: "chatFromId (putChat c ch cl) i = (if i = c \<and> chatFromId cl c \<noteq> None then Some ch else chatFromId cl i)"
proof -
  have "map_of (map (\<lambda>(j, x). (j, if j = c then ch else x)) xs) i = (if i = c \<and> map_of xs c \<noteq> None then Some ch else map_of xs i)" for xs
    by (induction xs) auto
  then show ?thesis by (simp add: chatFromId_def putChat_def)
qed

lemma chatFromId_retention [simp]: "chatFromId (fold (\<lambda>t. updateRetentionCheckTs e t False) xs cl) i = chatFromId cl i"
  by (simp add: chatFromId_def)

lemma runChat_chat:
  "chatFromId cl c = Some ch \<Longrightarrow> chatFromId (fst (runChat e c st cl)) i =
    (if i = c then Some (fst (st (ch\<lparr>cDb := clDb cl\<rparr>))) else chatFromId cl i)"
  "chatFromId cl c = Some ch \<Longrightarrow> snd (runChat e c st cl) = snd (st (ch\<lparr>cDb := clDb cl\<rparr>))"
  by (simp_all add: runChat_def chatFromId_put split: prod.split)

lemma ids_runChat [simp]: "map fst (clChats (fst (runChat e c st cl))) = map fst (clChats cl)"
  by (auto simp: runChat_def putChat_def split: option.split prod.split)

definition confirmLoop :: "ClientEnv \<Rightarrow> Id \<Rightarrow> Id \<Rightarrow> u32 \<Rightarrow> Id list \<Rightarrow> client_step" where
  "confirmLoop e x i t cs = foldr (\<lambda>c rest. readS (\<lambda>cl. i \<noteq> 0 \<and> (\<exists>ch. chatFromId cl c = Some ch \<and> takesConfirm ch x)) (\<lambda>taken.
       doS [runChat e c (msgConfirm (cnChat e c) x i t), if taken then doS [] else rest])) cs (doS [])"

lemma confirmLoop_Cons: "confirmLoop e x i t (c # cs) = readS (\<lambda>cl. i \<noteq> 0 \<and> (\<exists>ch. chatFromId cl c = Some ch \<and> takesConfirm ch x)) (\<lambda>taken.
       doS [runChat e c (msgConfirm (cnChat e c) x i t), if taken then doS [] else confirmLoop e x i t cs])"
  unfolding confirmLoop_def foldr.simps comp_apply ..

lemma clientMsgConfirm_loop: "clientMsgConfirm e x i t cl = confirmLoop e x i t (map fst (clChats cl)) cl"
  by (simp add: clientMsgConfirm_def confirmLoop_def readS_def)

text \<open>A chat that does not take it is as before, but for its copy of the cache.\<close>

definition sameChats :: "Client \<Rightarrow> Client \<Rightarrow> Id set \<Rightarrow> bool" where
  "sameChats cl cl' I \<longleftrightarrow> (\<forall>i \<in> I. \<forall>d. map_option (cDb_update (\<lambda>_. d)) (chatFromId cl' i) = map_option (cDb_update (\<lambda>_. d)) (chatFromId cl i))"

lemma confirm_pass:
  assumes "chatFromId cl c = Some ch" "\<not> takesConfirm ch x"
  shows "\<exists>cl1. runChat e c (msgConfirm (cnChat e c) x i t) cl = (cl1, None) \<and> sameChats cl cl1 UNIV \<and> map fst (clChats cl1) = map fst (clChats cl)"
proof -
  let ?r = "runChat e c (msgConfirm (cnChat e c) x i t) cl"
  have "snd ?r = None" using assms by (simp add: runChat_chat(2) msgConfirm_other)
  moreover have "sameChats cl (fst ?r) UNIV" using assms by (simp add: sameChats_def runChat_chat(1) msgConfirm_other)
  ultimately show ?thesis by (metis ids_runChat prod.collapse)
qed

lemma same_get:
  assumes "sameChats cl cl' I" "i \<in> I" "chatFromId cl i = Some x"
  obtains y where "chatFromId cl' i = Some y" "takesConfirm y a = takesConfirm x a" "queueRows y = queueRows x"
proof -
  have e: "map_option (cDb_update (\<lambda>_. cDb x)) (chatFromId cl' i) = Some (x\<lparr>cDb := cDb x\<rparr>)"
    using assms by (simp add: sameChats_def)
  then obtain y where y: "chatFromId cl' i = Some y" "y\<lparr>cDb := cDb x\<rparr> = x\<lparr>cDb := cDb x\<rparr>" by auto
  then have "takesConfirm y a = takesConfirm x a" "queueRows y = queueRows x" by (metis takesConfirm_cDb)+
  with y(1) show thesis by (rule that)
qed

lemma same_trans: "sameChats a b I \<Longrightarrow> sameChats b c I \<Longrightarrow> sameChats a c I"
  by (simp add: sameChats_def)

lemma same_mono: "sameChats a b I \<Longrightarrow> J \<subseteq> I \<Longrightarrow> sameChats a b J"
  by (auto simp: sameChats_def)

lemma confirmLoop_routed:
  assumes "i \<noteq> 0" "chatFromId cl c = Some ch" "takesConfirm ch x"
    "\<And>j. j \<in> set pre \<Longrightarrow> \<exists>y. chatFromId cl j = Some y \<and> \<not> takesConfirm y x"
  shows "rowsOfChat (fst (confirmLoop e x i t (pre @ c # post) cl)) c = Some (tl (queueRows ch)) \<and>
    sameChats cl (fst (confirmLoop e x i t (pre @ c # post) cl)) (- {c})"
  using assms(2-4)
proof (induction pre arbitrary: cl ch)
  case Nil
  have "fst (confirmLoop e x i t ([] @ c # post) cl) = fst (runChat e c (msgConfirm (cnChat e c) x i t) cl)"
    using Nil assms(1) by (simp add: confirmLoop_Cons readS_def split: prod.split option.split)
  then show ?case using Nil by (simp add: rowsOfChat_def runChat_chat(1) msgConfirm_taken sameChats_def)
next
  case (Cons j pre)
  obtain y where y: "chatFromId cl j = Some y" "\<not> takesConfirm y x" using Cons.prems(3) by auto
  from confirm_pass [OF y, of e i t] obtain cl1 where
    cl1: "runChat e j (msgConfirm (cnChat e j) x i t) cl = (cl1, None)" "sameChats cl cl1 UNIV" by blast
  have r: "fst (confirmLoop e x i t ((j # pre) @ c # post) cl) = fst (confirmLoop e x i t (pre @ c # post) cl1)"
    using y by (simp add: confirmLoop_Cons readS_def cl1(1))
  obtain ch1 where ch1: "chatFromId cl1 c = Some ch1" "takesConfirm ch1 x = takesConfirm ch x" "queueRows ch1 = queueRows ch"
    by (rule same_get [OF cl1(2) UNIV_I Cons.prems(1)])
  have "\<exists>y. chatFromId cl1 k = Some y \<and> \<not> takesConfirm y x" if k: "k \<in> set pre" for k
  proof -
    obtain z where z: "chatFromId cl k = Some z" "\<not> takesConfirm z x" using Cons.prems(3) [of k] k by auto
    then show ?thesis by (metis same_get [OF cl1(2) UNIV_I z(1)])
  qed
  from Cons.IH [OF ch1(1) _ this] Cons.prems(2) ch1 show ?case
    unfolding r using same_trans [OF same_mono [OF cl1(2)]] by auto
qed

text \<open>
  C11: A confirmation goes to the first chat, in the order of the handles, whose front item takes it: that
  chat loses the front of its queue, and all other chats are left as they are.
\<close>
theorem confirm_routed:
  assumes "map fst (clChats cl) = pre @ c # post" "chatFromId cl c = Some ch" "takesConfirm ch msgxid" "msgid \<noteq> 0"
    "\<And>i x. i \<in> set pre \<Longrightarrow> chatFromId cl i = Some x \<Longrightarrow> \<not> takesConfirm x msgxid"
  shows "rowsOfChat (fst (clientMsgConfirm e msgxid msgid t cl)) c = Some (tl (queueRows ch)) \<and>
    sameChats cl (fst (clientMsgConfirm e msgxid msgid t cl)) (- {c})"
proof -
  have "\<exists>y. chatFromId cl j = Some y \<and> \<not> takesConfirm y msgxid" if "j \<in> set pre" for j
  proof -
    have "j \<in> fst ` set (clChats cl)" using that assms(1) by (metis Un_iff list.set_map set_append)
    then obtain y where "chatFromId cl j = Some y" by (metis chatFromId_def map_of_eq_None_iff option.exhaust)
    then show ?thesis using assms(5) that by blast
  qed
  from confirmLoop_routed [OF assms(4,2,3) this] show ?thesis by (simp add: clientMsgConfirm_loop assms(1))
qed

text \<open>Two chats: the first has a queued edit, the second a posted message.\<close>

definition editChat :: Chat where
  "editChat = sampleChat\<lparr>mSending := [newSendingItem OP_MSGUPD (textMsg 30 1 900 False) {} 3]\<rparr>"

definition twoChats :: Client where
  "twoChats = (newClient sampleChatDb)\<lparr>clChats := [(7, editChat), (8, sampleOnline)]\<rparr>"

lemma twoChats_simps:
  "map fst (clChats twoChats) = [7, 8]" "chatFromId twoChats 7 = Some editChat" "chatFromId twoChats 8 = Some sampleOnline"
  "takesConfirm editChat x" "takesConfirm sampleOnline 40" "queueRows editChat = [3]" "queueRows sampleOnline = [1, 2]"
  by (simp_all add: twoChats_def newClient_def chatFromId_def takesConfirm_def editChat_def sampleOnline_def newSendingItem_def
    textMsg_def newMessage_def queueRows_def)

theorem confirm_routed_witness:
  "rowsOfChat (fst (clientMsgConfirm sampleClientEnv 40 500 0 (twoChats\<lparr>clChats := [(8, sampleOnline)]\<rparr>))) 8 = Some [2]"
  using confirm_routed [of "twoChats\<lparr>clChats := [(8, sampleOnline)]\<rparr>" "[]" 8 "[]" sampleOnline 40 500 sampleClientEnv 0] twoChats_simps(5,7)
  by (simp add: chatFromId_def)

text \<open>
  An edit at the front of a chat's queue takes every confirmation: when the message of a later chat is
  confirmed, the earlier chat drops its edit and the message stays in the queue of its chat, unconfirmed.
\<close>
theorem confirm_hijacked:
  assumes "map fst (clChats cl) = c # d # rest" "c \<noteq> d" "chatFromId cl c = Some ch" "mSending ch = it # q" "siOpcode it = OP_MSGUPD"
    "chatFromId cl d = Some dh" "msgid \<noteq> 0"
  shows "rowsOfChat (fst (clientMsgConfirm e msgxid msgid t cl)) c = Some (map siRowid q) \<and>
    rowsOfChat (fst (clientMsgConfirm e msgxid msgid t cl)) d = Some (queueRows dh)"
proof -
  let ?cl = "fst (clientMsgConfirm e msgxid msgid t cl)"
  have "takesConfirm ch msgxid" using assms(4,5) by (simp add: takesConfirm_def)
  then have r: "rowsOfChat ?cl c = Some (tl (queueRows ch)) \<and> sameChats cl ?cl (- {c})"
    unfolding clientMsgConfirm_loop using confirmLoop_routed [of msgid cl c ch msgxid "[]" e t "d # rest"] assms(1,3,7) by simp
  moreover have "d \<in> - {c}" using assms(2) by simp
  ultimately obtain y where "chatFromId ?cl d = Some y" "queueRows y = queueRows dh"
    using same_get assms(6) by metis
  then show ?thesis using r assms(4) by (simp add: rowsOfChat_def queueRows_def)
qed

theorem confirm_hijacked_witness:
  "rowsOfChat (fst (clientMsgConfirm sampleClientEnv 40 500 0 twoChats)) 7 = Some [] \<and>
   rowsOfChat (fst (clientMsgConfirm sampleClientEnv 40 500 0 twoChats)) 8 = Some [1, 2]"
  using confirm_hijacked [of twoChats 7 8 "[]" editChat "hd (mSending editChat)" "[]" sampleOnline 500 sampleClientEnv 40 0] twoChats_simps
  by (simp add: editChat_def newSendingItem_def)

lemma rejectLoop:
  assumes "distinct cs" "\<And>c. c \<in> set cs \<Longrightarrow> chatFromId cl c \<noteq> None"
  shows "rowsOfChat (fst (confirmLoop e x 0 t cs cl)) i =
    (if i \<in> set cs then map_option (\<lambda>ch. if takesConfirm ch x then tl (queueRows ch) else queueRows ch) (chatFromId cl i) else rowsOfChat cl i)"
  using assms
proof (induction cs arbitrary: cl)
  case (Cons c cs)
  obtain ch where ch: "chatFromId cl c = Some ch" using Cons.prems by auto
  obtain cl1 r where r: "runChat e c (msgConfirm (cnChat e c) x 0 t) cl = (cl1, r)" by fastforce
  have n: "r = None" using runChat_chat(2) [OF ch, of e "msgConfirm (cnChat e c) x 0 t"] by (simp add: r msgConfirm_rejected)
  have c1: "chatFromId cl1 j = (if j = c then Some (fst (msgConfirm (cnChat e c) x 0 t (ch\<lparr>cDb := clDb cl\<rparr>))) else chatFromId cl j)" for j
    using runChat_chat(1) [OF ch, of e "msgConfirm (cnChat e c) x 0 t" j] by (simp add: r)
  have s: "fst (confirmLoop e x 0 t (c # cs) cl) = fst (confirmLoop e x 0 t cs cl1)"
    by (simp add: confirmLoop_Cons readS_def r n)
  have d: "rowsOfChat (fst (confirmLoop e x 0 t cs cl1)) i =
    (if i \<in> set cs then map_option (\<lambda>ch. if takesConfirm ch x then tl (queueRows ch) else queueRows ch) (chatFromId cl1 i) else rowsOfChat cl1 i)"
    by (rule Cons.IH) (use Cons.prems c1 in auto)
  show ?case
  proof (cases "i = c")
    case True
    then show ?thesis using d Cons.prems(1) ch by (cases "takesConfirm ch x") (simp_all add: s c1 rowsOfChat_def msgConfirm_taken msgConfirm_other)
  next
    case False
    then show ?thesis using d by (simp add: s c1 rowsOfChat_def)
  qed
qed (simp add: confirmLoop_def)

text \<open>
  A rejected message is rejected everywhere: the client offers the rejection to all its chats, and each
  whose front item takes it, be it an unrelated edit, loses that item.
\<close>
theorem rejection_reaches_all:
  assumes "distinct (map fst (clChats cl))" "chatFromId cl c = Some ch"
  shows "rowsOfChat (fst (clientMsgConfirm e msgxid 0 t cl)) c =
    Some (if takesConfirm ch msgxid then tl (queueRows ch) else queueRows ch)"
proof -
  have "chatFromId cl i \<noteq> None" if "i \<in> set (map fst (clChats cl))" for i
    using that by (simp add: chatFromId_def map_of_eq_None_iff)
  moreover have "c \<in> set (map fst (clChats cl))" using assms(2) by (metis chatFromId_def list.set_map map_of_eq_None_iff option.distinct(1))
  ultimately show ?thesis using rejectLoop [OF assms(1)] assms(2) by (simp add: clientMsgConfirm_loop)
qed

theorem rejection_reaches_all_witness:
  "rowsOfChat (fst (clientMsgConfirm sampleClientEnv 40 0 0 twoChats)) 7 = Some [] \<and>
   rowsOfChat (fst (clientMsgConfirm sampleClientEnv 40 0 0 twoChats)) 8 = Some [2]"
  using rejection_reaches_all [of twoChats 7 editChat] rejection_reaches_all [of twoChats 8 sampleOnline] by (simp add: twoChats_simps)

end
