(* ===== verification/ChatPointerProps.thy ===== *)
theory ChatPointerProps
  imports ChatViews ChatSample
begin

text \<open>
  What single handlers do to the history of a chat and to its pointers: the status of own messages, the last
  seen message, truncation, the retention time and the pages of history given to the application.
\<close>

section \<open>Status of own messages\<close>

text \<open>
  Before any of our messages has been received by a peer, and again after a truncation has reset the
  pointer, every confirmed own message without unconfirmed edit is shown as delivered: the missing index
  is the largest one.
\<close>
theorem undelivered_shown_delivered:
  assumes "mLastReceivedIdx s = CHATD_IDX_INVALID" "userid m = eMyHandle env" "\<not> isSending m" "idx \<le> CHATD_IDX_INVALID"
    "\<forall>it \<in> set (mSending s). mId (siMsg it) \<noteq> mId m"
  shows "getMsgStatus env s m idx = kDelivered"
  using assms by (auto simp: getMsgStatus_def)

theorem undelivered_shown_delivered_witness:
  "mLastReceivedIdx sampleChat = CHATD_IDX_INVALID \<and> getMsgStatus (sampleChatEnv 7) sampleChat (textMsg 50 1 990 False) 3 = kDelivered"
  by (intro conjI undelivered_shown_delivered)
    (simp_all add: blankChat_def sampleChatEnv_def textMsg_def newMessage_def isSending_def)

section \<open>The last seen message\<close>

interpretation seen: notify_view mLastSeenIdx
  by unfold_locales simp_all

lemma seen_ge: "(\<And>a. keeps (\<lambda>s. mLastSeenIdx s = a) st) \<Longrightarrow> keeps (\<lambda>s. k \<le> mLastSeenIdx s) st"
  by (simp add: keeps_wp)

lemmas seen_ges = seen_ge [OF seen.view_dbS] seen_ge [OF seen.view_unread] seen_ge [OF seen.view_sendCommand] seen_ge [OF seen.view_notifyStatus]

lemma seen_set: "k \<le> idx \<Longrightarrow> keeps (\<lambda>s. k \<le> mLastSeenIdx s) (modS (\<lambda>s. s\<lparr>mLastSeenIdx := idx\<rparr>))"
  "keeps (\<lambda>s. k \<le> mLastSeenIdx s) (modS (\<lambda>s. s\<lparr>mLastSeenId := i\<rparr>))"
  by (rule keeps_modS, simp)+

lemma onLastSeen_ge:
  assumes "mLastSeenIdx s \<noteq> CHATD_IDX_INVALID"
  shows "mLastSeenIdx s \<le> mLastSeenIdx (fst (onLastSeen env i b s))"
proof (cases "case mIdToIndexMap (cBuf s) i of None \<Rightarrow> Inr (getIdxOfMsgidFromHistory (cDb s) (eChatId env) i)
       | Some idx \<Rightarrow> bindR (at (cBuf s) idx) (\<lambda>_. Inr idx)")
  case (Inl e)
  then show ?thesis by (simp add: onLastSeen_def getS_def)
next
  case (Inr idx)
  let ?k = "mLastSeenIdx s"
  let ?new = "[modS (\<lambda>s. s\<lparr>mLastSeenId := i\<rparr>), dbS (\<lambda>d. setLastSeen d (eChatId env) i),
     (if idx = CHATD_IDX_INVALID then doS []
      else readS (\<lambda>s. max (idxAdd (mLastSeenIdx s) 1) (lownum (cBuf s))) (\<lambda>notifyOldest.
        doS [modS (\<lambda>s. s\<lparr>mLastSeenIdx := idx\<rparr>), notifyStatus env kSeen False notifyOldest idx])),
     calculateUnreadCount env]"
  have new: "keeps (\<lambda>s. ?k \<le> mLastSeenIdx s) (doS ?new)" if "idx \<noteq> CHATD_IDX_INVALID \<longrightarrow> ?k \<le> idx"
    using that by (cases "idx = CHATD_IDX_INVALID")
      (simp_all only: if_True if_False, (intro keeps_doS_Cons keeps_doS_Nil keeps_readS seen_ges seen_set; simp)+)
  show ?thesis
  proof (cases "idx \<noteq> CHATD_IDX_INVALID \<and> idx < ?k")
    case True
    have "keeps (\<lambda>s. ?k \<le> mLastSeenIdx s) (if b then sendCommand env (\<lambda>s. cmdAddId (cmdAddId (newCommand OP_SEEN) (eChatId env)) (mLastSeenId s)) else doS [])"
      by (intro keeps_if keeps_doS_Nil seen_ges)
    from keepsD [OF this, of s] True Inr assms show ?thesis
      by (simp add: onLastSeen_def getS_def ifS_def)
  next
    case False
    from keepsD [OF new, of s] False Inr assms show ?thesis
      by (auto simp add: onLastSeen_def getS_def ifS_def simp del: doS.simps(2))
  qed
qed

lemma onSeenTimer_ge:
  assumes "mLastSeenIdx s \<noteq> CHATD_IDX_INVALID"
  shows "mLastSeenIdx s \<le> mLastSeenIdx (fst (onSeenTimer env idx i s))"
proof (cases "idx \<le> mLastSeenIdx s")
  case False
  let ?k = "mLastSeenIdx s"
  have "keeps (\<lambda>s. ?k \<le> mLastSeenIdx s) (doS [
     sendCommand env (\<lambda>s. cmdAddId (cmdAddId (newCommand OP_SEEN) (eChatId env)) i),
     readS (\<lambda>s. if mLastSeenIdx s = CHATD_IDX_INVALID then lownum (cBuf s) - 1 else max (mLastSeenIdx s) (lownum (cBuf s) - 1)) (\<lambda>start.
     doS [modS (\<lambda>s. s\<lparr>mLastSeenIdx := idx\<rparr>),
       readS (\<lambda>s. min idx (highnum (cBuf s))) (\<lambda>end. notifyStatus env kSeen False (start + 1) end),
       modS (\<lambda>s. s\<lparr>mLastSeenId := i\<rparr>),
       dbS (\<lambda>d. setLastSeen d (eChatId env) i),
       calculateUnreadCount env])])"
    using False by (intro keeps_doS_Cons keeps_doS_Nil keeps_readS seen_ges seen_set) simp
  from keepsD [OF this, of s] False assms show ?thesis
    by (simp add: onSeenTimer_def ifS_def del: doS.simps(2))
qed (simp add: onSeenTimer_def ifS_def assms)

text \<open>
  C14: Once known, the index of the last seen message never goes back: neither the server's \<open>SEEN\<close> with an
  older or unknown message, nor a timer started for an older message, lowers it.
\<close>
theorem seen_never_goes_back:
  assumes "mLastSeenIdx s \<noteq> CHATD_IDX_INVALID"
  shows "mLastSeenIdx s \<le> mLastSeenIdx (fst (onLastSeen env i b s)) \<and> mLastSeenIdx s \<le> mLastSeenIdx (fst (onSeenTimer env idx j s))"
  using onLastSeen_ge [OF assms] onSeenTimer_ge [OF assms] by simp

theorem seen_never_goes_back_witness:
  "5 \<le> mLastSeenIdx (fst (onLastSeen (sampleChatEnv 7) 99 True (sampleChat\<lparr>mLastSeenIdx := 5\<rparr>)))"
  using seen_never_goes_back [of "sampleChat\<lparr>mLastSeenIdx := 5\<rparr>" "sampleChatEnv 7" 99 True 0 0] by simp

section \<open>Truncation\<close>

abbreviation historyView :: "Chat \<Rightarrow> HistBuf \<times> Id \<times> bool \<times> Idx \<times> Idx \<times> Idx" where
  "historyView s \<equiv> (cBuf s, mOldestKnownMsgId s, mHaveAllHistory s, mLastSeenIdx s, mLastReceivedIdx s, mOldestIdxInDb s)"

interpretation hview: notify_view historyView
  by unfold_locales simp_all

lemma wp_view: "(\<And>a. keeps (\<lambda>s. v s = a) st) \<Longrightarrow> Q (v s) \<Longrightarrow> wp st (\<lambda>s. Q (v s)) (\<lambda>s. Q (v s)) s"
  unfolding wp_same [of st "\<lambda>s. Q (v s)"] by (simp add: keeps_wp)

lemmas plain_steps = wp_simps outS_def dbS_def listenS_def cleanPendingReactionsOlderThan_def

definition truncatedAt :: "HistBuf \<Rightarrow> Idx \<Rightarrow> Message \<Rightarrow> HistBuf \<times> Id \<times> bool \<times> Idx \<times> Idx \<times> Idx \<Rightarrow> bool" where
  "truncatedAt b idx m = (\<lambda>(b', known, allHist, seen, received, oldestIdx).
     (\<forall>n. findOrNull b' n = (if n < idx then None else if n = idx then map_option cleanReactions (findOrNull b idx) else findOrNull b n)) \<and>
     known = mId m \<and> allHist \<and> (seen = CHATD_IDX_INVALID \<or> idx < seen) \<and> (received = CHATD_IDX_INVALID \<or> idx < received) \<and>
     oldestIdx = idx)"

lemma handleTruncate_wp:
  assumes "findOrNull (cBuf s) idx = Some h" "idx \<noteq> CHATD_IDX_INVALID"
  shows "wp (handleTruncate env m idx) (\<lambda>s'. truncatedAt (cBuf s) idx m (historyView s')) (\<lambda>s'. truncatedAt (cBuf s) idx m (historyView s')) s"
proof -
  let ?b = "setAt (cBuf s) idx (cleanReactions h)"
  have w: "lownum (cBuf s) \<le> idx" "idx \<le> highnum (cBuf s)" using assms(1) by (auto simp: findOrNull_list split: if_splits)
  then have le: "idx - 1 \<le> highnum ?b" by simp
  then obtain b' where b': "deleteOlderMessagesIncluding ?b (idx - 1) = Inr b'" using deleteOlder_defined by blast
  have r: "findOrNull b' n = (if n < idx then None else if n = idx then Some (cleanReactions h) else findOrNull (cBuf s) n)" for n
    using deleteOlder_window [OF le b'] findOrNull_setAt [of "cBuf s" idx] assms(1) by auto
  note tail = wp_view [where v = historyView and Q = "truncatedAt (cBuf s) idx m", OF hview.view_unread]
    wp_view [where v = historyView and Q = "truncatedAt (cBuf s) idx m", OF hview.view_truncateAttachments]
  have last: "wp (doS [truncateAttachmentHistory env, calculateUnreadCount env]) (\<lambda>s'. truncatedAt (cBuf s) idx m (historyView s'))
      (\<lambda>s'. truncatedAt (cBuf s) idx m (historyView s')) t"
    if "truncatedAt (cBuf s) idx m (historyView t)" for t
    unfolding wp_doS by (rule wp_mono [OF tail(2) [OF that]]) (simp_all add: tail(1) wp_doS(1) del: doS_simps)
  let ?P1 = "\<lambda>t. cBuf t = cBuf s \<and> mOldestIdxInDb t = idx"
  let ?P2 = "\<lambda>t. cBuf t = ?b \<and> mOldestIdxInDb t = idx"
  let ?P3 = "\<lambda>t. cBuf t = b' \<and> mOldestIdxInDb t = idx"
  let ?P4 = "\<lambda>t. ?P3 t \<and> (mLastSeenIdx t = CHATD_IDX_INVALID \<or> idx < mLastSeenIdx t)"
  let ?P5 = "\<lambda>t. ?P4 t \<and> (mLastReceivedIdx t = CHATD_IDX_INVALID \<or> idx < mLastReceivedIdx t)"
  show ?thesis
    unfolding handleTruncate_def if_not_P [OF assms(2)]
    apply (rule wp_step [where P = "\<lambda>t. cBuf t = cBuf s"], simp add: plain_steps)
    apply (rule wp_step [where P = "\<lambda>t. cBuf t = cBuf s"], simp add: plain_steps)
    apply (rule wp_step [where P = ?P1], simp add: plain_steps)
    apply (rule wp_step [where P = ?P5])
     apply (rule wp_step [where P = ?P1], simp add: plain_steps)
     apply (rule wp_step [where P = ?P2], simp add: removeMessageReactions_def plain_steps assms(1))
     apply (rule wp_step [where P = ?P3], simp add: deleteOlder_def plain_steps b' bindR_def)
     apply (rule wp_step [where P = ?P3], simp add: removePendingRichLinks_def plain_steps)
     apply (rule wp_step [where P = ?P4], simp add: plain_steps)
     apply (rule wp_step [where P = ?P5], simp add: plain_steps)
     apply (simp add: plain_steps)
    apply (rule wp_step [where P = ?P5], simp add: plain_steps)
    apply (rule wp_step [where P = "\<lambda>t. truncatedAt (cBuf s) idx m (historyView t)"], simp add: plain_steps truncatedAt_def r assms(1))
    apply (rule wp_step [where P = "\<lambda>t. truncatedAt (cBuf s) idx m (historyView t)"], simp add: plain_steps)
    apply (erule last)
    done
qed

text \<open>
  C12: A truncation at a message in memory leaves exactly that message, without its reactions, and the newer
  ones, each at its index; the message is the oldest known one, all history is there, and the pointers to the
  last seen and last received message do not refer to a deleted message.  This holds even when the update of
  the attachments or of the unread counter throws.
\<close>
theorem truncate_effect:
  assumes "findOrNull (cBuf s) idx = Some h" "idx \<noteq> CHATD_IDX_INVALID"
  shows "truncatedAt (cBuf s) idx m (historyView (fst (handleTruncate env m idx s)))"
  using handleTruncate_wp [OF assms, of env m] wp_same [of "handleTruncate env m idx" "\<lambda>t. truncatedAt (cBuf s) idx m (historyView t)" s] by simp

definition threeMessages :: Chat where
  "threeMessages = sampleChat\<lparr>cBuf := addNewest (addNewest (addNewest emptyBuf (textMsg 50 2 900 False)) (textMsg 51 1 910 False)) (textMsg 52 2 920 False),
     mLastSeenIdx := 0, mLastReceivedIdx := 2\<rparr>"

lemma threeMessages_find: "findOrNull (cBuf threeMessages) n =
    (if n = 0 then Some (textMsg 50 2 900 False) else if n = 1 then Some (textMsg 51 1 910 False) else if n = 2 then Some (textMsg 52 2 920 False) else None)"
  by (auto simp: threeMessages_def addNewest_def setIndex_def push_forward_def emptyBuf_def findOrNull_def Let_def nth_Cons' split: if_splits)

theorem truncate_effect_witness:
  "let s' = fst (handleTruncate (sampleChatEnv 7) (textMsg 51 1 910 False) 1 threeMessages)
   in findOrNull (cBuf s') 0 = None \<and> findOrNull (cBuf s') 2 = Some (textMsg 52 2 920 False) \<and> mOldestKnownMsgId s' = 51"
  using truncate_effect [of threeMessages 1 "textMsg 51 1 910 False" "textMsg 51 1 910 False" "sampleChatEnv 7"]
  by (simp add: threeMessages_find Let_def truncatedAt_def textMsg_def newMessage_def)

section \<open>Retention time\<close>

lemma find_downTo:
  assumes "List.find P (downTo a b) = Some i"
  shows "b \<le> i \<and> i \<le> a \<and> P i \<and> (\<forall>j. i < j \<and> j \<le> a \<longrightarrow> \<not> P j)"
proof -
  from assms obtain k where k: "k < length (downTo a b)" "P (downTo a b ! k)" "i = downTo a b ! k" "\<forall>j < k. \<not> P (downTo a b ! j)"
    by (auto simp: find_Some_iff)
  have n: "downTo a b ! j = a - int j" if "j < length (downTo a b)" for j
    using that by (simp add: downTo_def rev_nth)
  have len: "length (downTo a b) = nat (a - b + 1)" by (simp add: downTo_def)
  have "\<not> P j" if "i < j" "j \<le> a" for j
  proof -
    have "nat (a - j) < k" using that k(1,3) n len by simp
    moreover have "downTo a b ! nat (a - j) = j" using n [of "nat (a - j)"] that k(1) calculation by simp
    ultimately show ?thesis using k(4) by metis
  qed
  then show ?thesis using k(1,2,3) n len by auto
qed

interpretation finds: notify_view "\<lambda>s. findOrNull (cBuf s)"
  by unfold_locales simp_all

lemma findOrNull_empty_start: "histEmpty b \<Longrightarrow> findOrNull (b\<lparr>mForwardStart := x\<rparr>) n = findOrNull b n"
  by (simp add: findOrNull_def histEmpty_def Let_def)

lemma finds_simps: "findOrNull (cBuf s) = F \<Longrightarrow> histEmpty (cBuf s) \<Longrightarrow> findOrNull ((cBuf s)\<lparr>mForwardStart := x\<rparr>) = F"
  by (rule ext) (auto simp: findOrNull_empty_start)

lemma doS_modS: "doS (modS f # xs) s = doS xs (f s)"
  by (simp add: modS_def)

lemma keeps_reset_empty:
  "keeps (\<lambda>s. findOrNull (cBuf s) = F) (ifS (\<lambda>s. histEmpty (cBuf s)) [
     modS (\<lambda>s. s\<lparr>cBuf := (cBuf s)\<lparr>mForwardStart := CHATD_IDX_RANGE_MIDDLE\<rparr>, mLastSeenIdx := CHATD_IDX_INVALID, mLastSeenId := 0\<rparr>),
     dbS f, modS (\<lambda>s. s\<lparr>mLastReceivedIdx := CHATD_IDX_INVALID, mLastReceivedId := 0\<rparr>), dbS g, fhS h,
     modS (\<lambda>s. s\<lparr>mNextHistFetchIdx := CHATD_IDX_INVALID\<rparr>)] [truncateAttachmentHistory env])"
proof (rule keeps_ifS_dep)
  fix s :: Chat assume s: "findOrNull (cBuf s) = F" "histEmpty (cBuf s)"
  let ?xs = "[dbS f, modS (\<lambda>s. s\<lparr>mLastReceivedIdx := CHATD_IDX_INVALID, mLastReceivedId := 0\<rparr>), dbS g, fhS h,
     modS (\<lambda>s. s\<lparr>mNextHistFetchIdx := CHATD_IDX_INVALID\<rparr>)]"
  have k: "keeps (\<lambda>s. findOrNull (cBuf s) = F) (doS ?xs)"
    by (intro keeps_intros finds.view_dbS finds.view_fhS; simp)
  show "findOrNull (cBuf (fst (doS (modS (\<lambda>s. s\<lparr>cBuf := (cBuf s)\<lparr>mForwardStart := CHATD_IDX_RANGE_MIDDLE\<rparr>,
      mLastSeenIdx := CHATD_IDX_INVALID, mLastSeenId := 0\<rparr>) # ?xs) s))) = F"
    unfolding doS_modS by (rule keepsD [OF k]) (simp add: finds_simps [OF s])
next
  fix s :: Chat assume "findOrNull (cBuf s) = F"
  then show "findOrNull (cBuf (fst (doS [truncateAttachmentHistory env] s))) = F"
    using keepsD [OF finds.view_truncateAttachments] by simp
qed

lemma handleRetention_cuts:
  assumes "mRetentionTime s \<noteq> 0" "mOldestIdxInDb s \<noteq> CHATD_IDX_INVALID" "getIdxByRetentionTime env s = idx" "idx \<noteq> CHATD_IDX_INVALID"
    "idx \<le> highnum (cBuf s)"
  shows "findOrNull (cBuf (fst (handleRetentionTime env u s))) n = (if n \<le> idx then None else findOrNull (cBuf s) n)"
proof -
  obtain b' where b': "deleteOlderMessagesIncluding (cBuf s) idx = Inr b'" using deleteOlder_defined [OF assms(5)] by blast
  let ?F = "\<lambda>n. if n \<le> idx then None else findOrNull (cBuf s) n"
  let ?P = "\<lambda>t. findOrNull (cBuf t) = ?F"
  have r: "findOrNull b' = ?F" using deleteOlder_window [OF assms(5) b'] by (intro ext) auto
  have ls: "wp (readS (\<lambda>s. findOrNull (cBuf s) idx) (\<lambda>m. case m of None \<Rightarrow> doS []
       | Some msg \<Rightarrow> listenS (\<lambda>s. LHistoryTruncatedByRetentionTime msg idx (getMsgStatus env s msg idx)))) (\<lambda>t. cBuf t = cBuf s) (\<lambda>_. False) s"
    by (simp add: plain_steps split: option.split)
  define chg where "chg = (idx \<ge> mLastSeenIdx s \<or> mLastSeenIdx s = CHATD_IDX_INVALID)"
  have tail: "keeps ?P (doS [
         removePendingRichLinks idx,
         getDbHistInfoAndInitOldestKnownMsgId env (\<lambda>_. doS []),
         whenS (\<lambda>s. mOldestIdxInDb s = CHATD_IDX_INVALID) [
           modS (\<lambda>s. s\<lparr>mLastIdxReceivedFromServer := CHATD_IDX_INVALID, mHaveAllHistory := True, mHasMoreHistoryInDb := False\<rparr>),
           dbS (\<lambda>d. Inr (setHaveAllHistoryDb d (eChatId env) True))],
         ifS (\<lambda>s. histEmpty (cBuf s)) [
           modS (\<lambda>s. s\<lparr>cBuf := (cBuf s)\<lparr>mForwardStart := CHATD_IDX_RANGE_MIDDLE\<rparr>, mLastSeenIdx := CHATD_IDX_INVALID, mLastSeenId := 0\<rparr>),
           dbS (\<lambda>d. setLastSeen d (eChatId env) 0),
           modS (\<lambda>s. s\<lparr>mLastReceivedIdx := CHATD_IDX_INVALID, mLastReceivedId := 0\<rparr>),
           dbS (\<lambda>d. setLastReceived d (eChatId env) 0),
           fhS (\<lambda>st. fhTruncateHistory (eChatId env) st Id_inval),
           modS (\<lambda>s. s\<lparr>mNextHistFetchIdx := CHATD_IDX_INVALID\<rparr>)]
         [truncateAttachmentHistory env],
         (if chg then calculateUnreadCount env else doS []),
         nextRetentionHistCheck env u])" (is "keeps _ (doS ?tail)")
    unfolding getDbHistInfoAndInitOldestKnownMsgId_def
    by (rule keeps_doS_Cons [OF finds.view_links(3)])
      (intro keeps_doS_Cons keeps_reset_empty keeps_intros finds.view_links finds.view_dbS finds.view_unread finds.view_retentionCheck; simp)
  have "wp (handleRetentionTime env u) ?P ?P s"
    unfolding handleRetentionTime_def wp_ifS using assms(1,2)
    apply (simp only: doS_simps wp_basic assms(3) if_not_P [OF assms(4)] simp_thms if_True chg_def [symmetric] HOL.not_False_eq_True)
    apply (rule wp_step, rule ls)
    apply (rule wp_step [where P = "\<lambda>t. cBuf t = cBuf s"], simp add: plain_steps)
    apply (rule wp_step [where P = "\<lambda>t. cBuf t = cBuf s"], simp add: plain_steps)
    apply (rule wp_step [where P = ?P], simp add: deleteOlder_def plain_steps b' r bindR_def)
    using tail unfolding keeps_def by blast
  then show ?thesis unfolding wp_same [of _ ?P] by simp
qed

text \<open>
  C13: The retention time deletes, of the messages in memory, exactly those up to the newest one that is too
  old, and none of those left in memory is; this holds even when a later step of the handler throws.
\<close>
theorem retention_deletes_expired:
  assumes "mRetentionTime s \<noteq> 0" "mOldestIdxInDb s \<noteq> CHATD_IDX_INVALID" "idx \<noteq> CHATD_IDX_INVALID"
    "newestExpired (cBuf s) (expireRetentionTs env s) = Some idx"
  shows "findOrNull (cBuf (fst (handleRetentionTime env u s))) n = (if n \<le> idx then None else findOrNull (cBuf s) n) \<and>
    (\<exists>m. findOrNull (cBuf s) idx = Some m \<and> uint (ts m) \<le> int (eNow env) - uint (mRetentionTime s)) \<and>
    (\<forall>m. findOrNull (cBuf (fst (handleRetentionTime env u s))) n = Some m \<longrightarrow> uint (ts m) > int (eNow env) - uint (mRetentionTime s))"
proof -
  note f = find_downTo [OF assms(4) [unfolded newestExpired_def]]
  have g: "getIdxByRetentionTime env s = idx" using assms(4) by (simp add: getIdxByRetentionTime_def)
  note cut = handleRetention_cuts [OF assms(1,2) g assms(3), of u n]
  have "\<exists>m. findOrNull (cBuf s) idx = Some m \<and> uint (ts m) \<le> expireRetentionTs env s" using f by (auto split: option.splits)
  moreover have "uint (ts m) > expireRetentionTs env s" if "idx < n" "findOrNull (cBuf s) n = Some m" for m
    using f that by (auto simp: findOrNull_list split: option.splits if_splits)
  ultimately show ?thesis using cut f by (auto simp: expireRetentionTs_def)
qed

theorem retention_deletes_expired_witness:
  "findOrNull (cBuf (fst (handleRetentionTime (sampleChatEnv 7) True (threeMessages\<lparr>mRetentionTime := 85, mOldestIdxInDb := 0\<rparr>)))) 1 = None \<and>
   findOrNull (cBuf (fst (handleRetentionTime (sampleChatEnv 7) True (threeMessages\<lparr>mRetentionTime := 85, mOldestIdxInDb := 0\<rparr>)))) 2 \<noteq> None"
proof -
  let ?s = "threeMessages\<lparr>mRetentionTime := 85, mOldestIdxInDb := 0\<rparr>"
  have "downTo 2 0 = [2, 1, 0::int]" by (simp add: downTo_def upto_rec1)
  moreover have "highnum (cBuf threeMessages) = 2" "lownum (cBuf threeMessages) = 0"
    by (simp_all add: threeMessages_def addNewest_def setIndex_def push_forward_def emptyBuf_def highnum_def lownum_def)
  ultimately have "newestExpired (cBuf threeMessages) 915 = Some 1"
    by (simp add: newestExpired_def threeMessages_find textMsg_def newMessage_def)
  moreover have "expireRetentionTs (sampleChatEnv 7) ?s = 915"
    by (simp add: expireRetentionTs_def sampleChatEnv_def)
  ultimately show ?thesis
    using retention_deletes_expired [of ?s 1 "sampleChatEnv 7" True 1] retention_deletes_expired [of ?s 1 "sampleChatEnv 7" True 2]
    by (simp add: threeMessages_find)
qed

section \<open>Pages of history\<close>

lemma for_listen:
  assumes "\<And>i. i \<in> set is \<Longrightarrow> findOrNull (cBuf s) i = Some (f i)"
  shows "forS is (\<lambda>i. getS (\<lambda>s. at (cBuf s) i) (\<lambda>m. listenS (\<lambda>s. LRecvHistoryMessage i m (getMsgStatus env s m i) True))) s =
    (s\<lparr>cOut := cOut s @ map (\<lambda>i. OListener (LRecvHistoryMessage i (f i) (getMsgStatus env s (f i) i) True)) is\<rparr>, None)"
  using assms
proof (induction "is" arbitrary: s)
  case (Cons i js)
  let ?s = "s\<lparr>cOut := cOut s @ [OListener (LRecvHistoryMessage i (f i) (getMsgStatus env s (f i) i) True)]\<rparr>"
  have st: "getMsgStatus env ?s m k = getMsgStatus env s m k" for m k unfolding getMsgStatus_def by auto
  show ?case using Cons.IH [of ?s] Cons.prems
    by (simp add: getS_def at_def listenS_def outS_def modS_def st)
qed simp

text \<open>The part of a page up to the first message that is still encrypted.\<close>

definition readable :: "HistBuf \<Rightarrow> Idx \<Rightarrow> bool" where
  "readable b i \<longleftrightarrow> (case findOrNull b i of None \<Rightarrow> False | Some m \<Rightarrow> \<not> isPendingToDecrypt m)"

definition page :: "Idx \<Rightarrow> nat \<Rightarrow> Idx list" where
  "page n count = downTo n (n - int count + 1)"

lemma getHistory_ram:
  assumes "\<not> isNotifyingOldHistFromServer s" "mNextHistFetchIdx s = n" "n \<noteq> CHATD_IDX_INVALID" "0 < count"
    "lownum (cBuf s) \<le> n - int count + 1" "n \<le> highnum (cBuf s)"
  shows "getHistory e count (\<lambda>_. doS []) s =
    (s\<lparr>mNextHistFetchIdx := n - int count,
       cOut := cOut s @ map (\<lambda>i. OListener (LRecvHistoryMessage i (the (findOrNull (cBuf s) i))
           (getMsgStatus (reEnv e) s (the (findOrNull (cBuf s) i)) i) True)) (takeWhile (readable (cBuf s)) (page n count))
         @ [OListener (LHistoryDone kHistSourceRam)]\<rparr>, None)"
proof -
  have m: "max (n - int count) (lownum (cBuf s) - 1) = n - int count" "n > lownum (cBuf s) - 1" "nat (n - (n - int count)) = count"
    using assms(4,5) by simp_all
  have rd: "(\<lambda>i. case findOrNull (cBuf s) i of None \<Rightarrow> False | Some m \<Rightarrow> \<not> isPendingToDecrypt m) = readable (cBuf s)"
    by (rule ext) (simp add: readable_def)
  have h: "historyFromRam (reEnv e) n (n - int count) s = (s\<lparr>cOut := cOut s @ map (\<lambda>i. OListener (LRecvHistoryMessage i (the (findOrNull (cBuf s) i))
           (getMsgStatus (reEnv e) s (the (findOrNull (cBuf s) i)) i) True)) (takeWhile (readable (cBuf s)) (page n count))\<rparr>, None)"
    unfolding historyFromRam_def readS_def rd page_def
    by (rule for_listen) (auto simp: readable_def dest!: set_takeWhileD split: option.splits)
  show ?thesis using assms(1-4)
    by (simp add: getHistory_def ifS_def readS_def m Let_def h modS_def listenS_def outS_def)
qed

text \<open>
  C15: A page of history that is in memory and readable is given to the application in full, newest first,
  followed by the end of the fetch, and the next page starts behind it.
\<close>
theorem history_page:
  assumes "\<not> isNotifyingOldHistFromServer s" "mNextHistFetchIdx s = n" "n \<noteq> CHATD_IDX_INVALID" "0 < count"
    "lownum (cBuf s) \<le> n - int count + 1" "n \<le> highnum (cBuf s)" "\<forall>i \<in> set (page n count). readable (cBuf s) i"
  shows "getHistory e count (\<lambda>_. doS []) s =
    (s\<lparr>mNextHistFetchIdx := n - int count,
       cOut := cOut s @ map (\<lambda>i. OListener (LRecvHistoryMessage i (the (findOrNull (cBuf s) i))
           (getMsgStatus (reEnv e) s (the (findOrNull (cBuf s) i)) i) True)) (page n count)
         @ [OListener (LHistoryDone kHistSourceRam)]\<rparr>, None)"
proof -
  have "takeWhile (readable (cBuf s)) (page n count) = page n count" using assms(7) by (simp add: takeWhile_eq_all_conv)
  with getHistory_ram [OF assms(1-6), of e] show ?thesis by simp
qed

lemma threeMessages_window: "highnum (cBuf threeMessages) = 2" "lownum (cBuf threeMessages) = 0"
  by (simp_all add: threeMessages_def addNewest_def setIndex_def push_forward_def emptyBuf_def highnum_def lownum_def)

lemma threeMessages_flags: "\<not> isNotifyingOldHistFromServer (threeMessages\<lparr>mNextHistFetchIdx := 2\<rparr>)" "cOut threeMessages = []"
  by (simp_all add: isNotifyingOldHistFromServer_def threeMessages_def blankChat_def)

lemma page_2_2: "page 2 2 = [2, 1]"
  by (simp add: page_def downTo_def upto_rec1)

theorem history_page_witness:
  "map (\<lambda>out. case out of OListener (LRecvHistoryMessage i m _ _) \<Rightarrow> (i, mId m) | _ \<Rightarrow> (0, 0))
     (cOut (fst (getHistory (recvEnv sampleClientEnv 7) 2 (\<lambda>_. doS []) (threeMessages\<lparr>mNextHistFetchIdx := 2\<rparr>)))) = [(2, 52), (1, 51), (0, 0)]"
proof -
  let ?s = "threeMessages\<lparr>mNextHistFetchIdx := 2\<rparr>"
  have "readable (cBuf ?s) i" if "i \<in> set (page 2 2)" for i
    using that by (auto simp: page_2_2 readable_def threeMessages_find textMsg_def newMessage_def isPendingToDecrypt_def kNotEncrypted_def kEncryptedPending_def)
  then have "getHistory (recvEnv sampleClientEnv 7) 2 (\<lambda>_. doS []) ?s =
    (?s\<lparr>mNextHistFetchIdx := 2 - int 2,
       cOut := cOut ?s @ map (\<lambda>i. OListener (LRecvHistoryMessage i (the (findOrNull (cBuf ?s) i))
           (getMsgStatus (reEnv (recvEnv sampleClientEnv 7)) ?s (the (findOrNull (cBuf ?s) i)) i) True)) (page 2 2)
         @ [OListener (LHistoryDone kHistSourceRam)]\<rparr>, None)"
    by (intro history_page) (simp_all add: threeMessages_window threeMessages_flags)
  then show ?thesis by (simp add: threeMessages_flags page_2_2 threeMessages_find textMsg_def newMessage_def)
qed

text \<open>
  A message that is still encrypted ends the page early, but not the position: that message and the
  older ones of the page are not given to the application, and the next page starts behind them.
\<close>
theorem history_page_skips:
  assumes "\<not> isNotifyingOldHistFromServer s" "mNextHistFetchIdx s = n" "n \<noteq> CHATD_IDX_INVALID" "0 < count"
    "lownum (cBuf s) \<le> n - int count + 1" "n \<le> highnum (cBuf s)"
    "page n count = js @ j # ks" "\<forall>i \<in> set js. readable (cBuf s) i" "\<not> readable (cBuf s) j"
  shows "getHistory e count (\<lambda>_. doS []) s =
    (s\<lparr>mNextHistFetchIdx := n - int count,
       cOut := cOut s @ map (\<lambda>i. OListener (LRecvHistoryMessage i (the (findOrNull (cBuf s) i))
           (getMsgStatus (reEnv e) s (the (findOrNull (cBuf s) i)) i) True)) js
         @ [OListener (LHistoryDone kHistSourceRam)]\<rparr>, None)"
  using getHistory_ram [OF assms(1-6), of e] assms(7-9) by (simp add: takeWhile_append2)

theorem history_page_skips_witness:
  "let s = threeMessages\<lparr>mNextHistFetchIdx := 2, cBuf := setAt (cBuf threeMessages) 2 ((textMsg 52 2 920 False)\<lparr>mIsEncrypted := kEncryptedPending\<rparr>)\<rparr>
   in cOut (fst (getHistory (recvEnv sampleClientEnv 7) 2 (\<lambda>_. doS []) s)) = [OListener (LHistoryDone kHistSourceRam)] \<and>
      mNextHistFetchIdx (fst (getHistory (recvEnv sampleClientEnv 7) 2 (\<lambda>_. doS []) s)) = 0"
proof -
  let ?s = "threeMessages\<lparr>mNextHistFetchIdx := 2, cBuf := setAt (cBuf threeMessages) 2 ((textMsg 52 2 920 False)\<lparr>mIsEncrypted := kEncryptedPending\<rparr>)\<rparr>"
  have "\<not> isNotifyingOldHistFromServer ?s" "cOut ?s = []"
    by (simp_all add: isNotifyingOldHistFromServer_def threeMessages_def blankChat_def)
  moreover have "\<not> readable (cBuf ?s) 2"
    by (simp add: readable_def findOrNull_setAt threeMessages_find isPendingToDecrypt_def)
  ultimately show ?thesis
    using history_page_skips [of ?s 2 2 "[]" 2 "[1]" "recvEnv sampleClientEnv 7"]
    by (simp add: threeMessages_window page_2_2 Let_def)
qed

end
