(* ===== verification/ChatEditProps.thy ===== *)
theory ChatEditProps
  imports ChatQueueProps
begin

text \<open>
  Edits that are overtaken, the back references of a message, messages that wait for a decryption, and the
  timer of the retention time.
\<close>

section \<open>Overtaken edits\<close>

lemma eraseEdits_none:
  "mNextUnsent s = None \<Longrightarrow> mNextUnsent (fst (eraseEdits c n k s acc)) = None"
  by (induction n arbitrary: k s acc) (simp_all add: Let_def eraseItem_def itErase_def)

lemma eraseEdits_dangling:
  "mNextUnsent s = Some i \<Longrightarrow> k \<le> i \<Longrightarrow> i < length (mSending s) \<Longrightarrow> length (mSending s) \<le> k + n \<Longrightarrow> editConfirmed c (mSending s ! i) \<Longrightarrow>
    mNextUnsent (fst (eraseEdits c n k s acc)) = None"
proof (induction n arbitrary: k s acc i)
  case (Suc n)
  show ?case
  proof (cases "editConfirmed c (mSending s ! k)")
    case True
    let ?s = "eraseItem k (s\<lparr>cDb := orElse (cDb s) (deleteSendingItem (cDb s) (siRowid (mSending s ! k))), mPendingEdits := (mPendingEdits s)(mId c := None)\<rparr>)"
    have "mNextUnsent (fst (eraseEdits c n k ?s (updated (siMsg (mSending s ! k)), richLinkRemoved (siMsg (mSending s ! k))))) = None"
    proof (cases "i = k")
      case True
      then show ?thesis using Suc.prems(1) by (intro eraseEdits_none) (simp add: eraseItem_def itErase_def)
    next
      case False
      then have "mSending ?s ! (i - Suc 0) = mSending s ! i" "mNextUnsent ?s = Some (i - Suc 0)" "k \<le> i - Suc 0" "i - Suc 0 < length (mSending ?s)"
          "length (mSending ?s) \<le> k + n"
        using Suc.prems by (simp_all add: eraseItem_def itErase_def eraseAt_def nth_append)
      then show ?thesis using Suc.prems(5) by (intro Suc.IH [of ?s "i - Suc 0"]) (simp_all only:)
    qed
    then show ?thesis using Suc.prems(2,3) True by (simp add: Let_def)
  next
    case False
    then have "k \<noteq> i" using Suc.prems(5) by auto
    then show ?thesis using Suc.prems False by (simp add: Let_def Suc.IH)
  qed
qed simp

lemma eraseEdits_online: "isLoggedIn (fst (eraseEdits c n k s acc)) = isLoggedIn s"
  by (induction n arbitrary: k s acc) (simp_all add: Let_def eraseItem_def isLoggedIn_def)

text \<open>
  C16: When the first unsent item of the queue is an edit that an arriving update of the same message
  outdates, the handler of the update deletes the item and leaves the iterator to it: the next message
  posted follows a dangling iterator.
\<close>
theorem overtaken_edit_dangles:
  assumes "userid c = eMyHandle env" "mNextUnsent s = Some i" "i < length (mSending s)" "editConfirmed c (mSending s ! i)" "isLoggedIn s"
  shows "mNextUnsent (fst (removeOwnEdits env c s)) = None \<and>
    snd (flushOutputQueue e False (fst (removeOwnEdits env c s))) = Some OutOfBounds"
proof -
  have n: "mNextUnsent (fst (removeOwnEdits env c s)) = None"
    using assms eraseEdits_dangling [of s i 0 "length (mSending s)" c "(0, False)"] by (simp add: removeOwnEdits_def)
  moreover have "isLoggedIn (fst (removeOwnEdits env c s))"
    using assms(1,5) by (simp add: removeOwnEdits_def eraseEdits_online)
  ultimately show ?thesis
    by (simp add: flushOutputQueue_def ifS_def readS_def throwS_def del: flushLoop.simps(1))
qed

definition editOnline :: Chat where
  "editOnline = sampleOnline\<lparr>mSending := [newSendingItem OP_MSGUPD (textMsg 30 1 900 False) {} 3]\<rparr>"

theorem overtaken_edit_dangles_witness:
  "snd (flushOutputQueue (sendEnv sampleClientEnv 7) False
     (fst (removeOwnEdits (sampleChatEnv 7) ((textMsg 30 1 900 False)\<lparr>updated := 9\<rparr>) editOnline))) = Some OutOfBounds"
proof -
  have "editConfirmed ((textMsg 30 1 900 False)\<lparr>updated := 9\<rparr>) (mSending editOnline ! 0)"
    by (simp add: editConfirmed_def editOnline_def newSendingItem_def textMsg_def newMessage_def)
  then show ?thesis
    using overtaken_edit_dangles [of "(textMsg 30 1 900 False)\<lparr>updated := 9\<rparr>" "sampleChatEnv 7" editOnline 0 "sendEnv sampleClientEnv 7"]
    by (simp add: editOnline_def isLoggedIn_def sampleChatEnv_def textMsg_def newMessage_def) (simp add: sampleOnline_def)
qed

section \<open>Back references\<close>



section \<open>The timer of the retention time\<close>

text \<open>
  The timer never fires at once: whatever the times are, it is set to a positive number of seconds, and
  to at least a minute when none was running or the time is past; otherwise it fires when the check is due.
\<close>
theorem retention_timer_bounds:
  "\<exists>p. clRetentionTimer (setRetentionTimer e cl) = Some p \<and> 0 < p \<and>
     (clRetentionTimer cl = None \<or> unat (clRetentionCheckTs cl) \<le> cnNow e \<longrightarrow> 60 \<le> p) \<and>
     (cnNow e + 60 \<le> unat (clRetentionCheckTs cl) \<longrightarrow> cnNow e + p = unat (clRetentionCheckTs cl))"
proof -
  obtain t where t: "uint (clRetentionCheckTs cl) = int t" "unat (clRetentionCheckTs cl) = t" using uint_nat by blast
  let ?p = "int t - int (cnNow e)"
  have r: "clRetentionTimer (setRetentionTimer e cl) = Some (nat (if ?p \<le> 0 \<or> (clRetentionTimer cl = None \<and> ?p < 60) then 60 else ?p))"
    by (simp add: setRetentionTimer_def Let_def kMinRetentionTimeout_def t(1))
  show ?thesis unfolding r t(2) by (cases "?p \<le> 0"; cases "clRetentionTimer cl = None \<and> ?p < 60") auto
qed

end
