(* ===== verification/DnsCache.thy ===== *)
theory DnsCache
  imports ChatProg Url
begin

text \<open>
  The cache of host names and addresses of the servers, class \<open>DNScache\<close> of \<open>src/net/websocketsIO.h\<close> and
  \<open>src/net/websocketsIO.cpp\<close>: the records in memory, by increasing shard, and the table \<open>dns_cache\<close>, which
  every change is written to and which is read when the library starts.  The servers for calls (SFU) have
  no shard: they take the negative numbers from \<open>-20\<close> down to \<open>-127\<close> in turn.

  A column that is \<open>NULL\<close> is read as an empty text.  An exception of \<open>Url::parse\<close> leaves the URL half
  changed, as the code does.
\<close>

section \<open>State\<close>

record DnsRecord =
  drUrl :: Url
  drIpv4 :: string
  drIpv6 :: string
  drResolveTs :: nat
  drConnectIpv4Ts :: nat
  drConnectIpv6Ts :: nat
  drTlsBlob :: "bytes option"

record DnsRow =
  rwShard :: int
  rwUrl :: string
  rwIpv4 :: string
  rwIpv6 :: string
  rwSess :: bytes

record DnsCache =
  dcRecords :: "(int \<times> DnsRecord) list"
  dcRows :: "DnsRow list"
  dcVersion :: nat
  dcSfuShard :: int

type_synonym dns_step = "DnsCache step"

abbreviation kSfuShardStart :: int where "kSfuShardStart \<equiv> - 20"
abbreviation kSfuShardEnd :: int where "kSfuShardEnd \<equiv> - 128"

definition newDnsCache :: "DnsRow list \<Rightarrow> nat \<Rightarrow> DnsCache" where
  "newDnsCache rows version = \<lparr>dcRecords = [], dcRows = rows, dcVersion = version, dcSfuShard = kSfuShardStart\<rparr>"

definition blobOf :: "bytes option \<Rightarrow> bytes option" where
  "blobOf sess = (case sess of None \<Rightarrow> None | Some b \<Rightarrow> if b = [] then None else Some b)"

definition newRecord :: "Url \<Rightarrow> DnsRecord" where
  "newRecord u = \<lparr>drUrl = u, drIpv4 = [], drIpv6 = [], drResolveTs = 0, drConnectIpv4Ts = 0, drConnectIpv6Ts = 0, drTlsBlob = None\<rparr>"

definition newHostRecord :: "string \<Rightarrow> bytes option \<Rightarrow> DnsRecord" where
  "newHostRecord hst sess = (newRecord (Url_ofHost hst ''wss''))\<lparr>drTlsBlob := blobOf sess\<rparr>"

section \<open>Records and rows\<close>

definition getRecord :: "DnsCache \<Rightarrow> int \<Rightarrow> DnsRecord option" where
  "getRecord c shard = map_of (dcRecords c) shard"

definition hasRecord :: "DnsCache \<Rightarrow> int \<Rightarrow> bool" where
  "hasRecord c shard \<longleftrightarrow> getRecord c shard \<noteq> None"

text \<open>\<open>std::map::emplace\<close> does nothing when the key is there.\<close>

definition emplace :: "int \<Rightarrow> DnsRecord \<Rightarrow> DnsCache \<Rightarrow> DnsCache" where
  "emplace shard r c = (if hasRecord c shard then c else c\<lparr>dcRecords := insort_key fst (shard, r) (dcRecords c)\<rparr>)"

definition updRecord :: "int \<Rightarrow> (DnsRecord \<Rightarrow> DnsRecord) \<Rightarrow> DnsCache \<Rightarrow> DnsCache" where
  "updRecord shard f c = c\<lparr>dcRecords := map (\<lambda>(s, r). (s, if s = shard then f r else r)) (dcRecords c)\<rparr>"

definition insertOrReplace :: "int \<Rightarrow> string \<Rightarrow> DnsCache \<Rightarrow> DnsCache" where
  "insertOrReplace shard url c = c\<lparr>dcRows := filter (\<lambda>r. rwShard r \<noteq> shard) (dcRows c) @
     [\<lparr>rwShard = shard, rwUrl = url, rwIpv4 = [], rwIpv6 = [], rwSess = []\<rparr>]\<rparr>"

definition updRows :: "(DnsRow \<Rightarrow> bool) \<Rightarrow> (DnsRow \<Rightarrow> DnsRow) \<Rightarrow> DnsCache \<Rightarrow> DnsCache" where
  "updRows p f c = c\<lparr>dcRows := map (\<lambda>r. if p r then f r else r) (dcRows c)\<rparr>"

definition isValidUrl :: "DnsCache \<Rightarrow> int \<Rightarrow> bool" where
  "isValidUrl c shard \<longleftrightarrow> (case getRecord c shard of None \<Rightarrow> False | Some r \<Rightarrow> Url_isValid (drUrl r))"

text \<open>A shard without record gives the end iterator, which is followed.\<close>

definition getUrl :: "DnsCache \<Rightarrow> int \<Rightarrow> Url res" where
  "getUrl c shard = (case getRecord c shard of None \<Rightarrow> Inl OutOfBounds | Some r \<Rightarrow> Inr (drUrl r))"

section \<open>Servers with a URL\<close>

definition withVersion :: "DnsCache \<Rightarrow> int \<Rightarrow> Url \<Rightarrow> Url" where
  "withVersion c shard u = (if 0 \<le> shard then u\<lparr>path := path u @ ''/'' @ showNat (dcVersion c)\<rparr> else u)"

definition addRecord :: "int \<Rightarrow> string \<Rightarrow> bytes option \<Rightarrow> bool \<Rightarrow> dns_step" where
  "addRecord shard url sess saveToDb = whenS (\<lambda>c. \<not> hasRecord c shard) [
     getS (\<lambda>c. Url_parse url) (\<lambda>u. modS (\<lambda>c.
       emplace shard ((newRecord (withVersion c shard u))\<lparr>drTlsBlob := blobOf sess\<rparr>) c)),
     (if saveToDb then modS (insertOrReplace shard url) else doS [])]"

definition removeRecord :: "int \<Rightarrow> DnsCache \<Rightarrow> DnsCache" where
  "removeRecord shard c = c\<lparr>dcRecords := filter (\<lambda>(s, _). s \<noteq> shard) (dcRecords c),
     dcRows := filter (\<lambda>r. rwShard r \<noteq> shard) (dcRows c)\<rparr>"

text \<open>What a failed \<open>Url::parse\<close> leaves in the object.\<close>

definition urlAfterFailure :: "string \<Rightarrow> Url \<Rightarrow> Url" where
  "urlAfterFailure url u =
    (if url = [] then u
     else
       let (proto, rest) = (case findSub ''://'' url of
             Some ss \<Rightarrow> (map tolower (take ss url), drop (ss + 3) url)
           | None \<Rightarrow> (''http'', url))
       in case scanAuthority rest of
            Inl _ \<Rightarrow> \<lparr>protocol = proto, host = takeWhile (\<lambda>c. \<not> hostStop c) rest, port = 0, path = [], isSecure = isSecureProtocol proto\<rparr>
          | Inr (h, p, consumed, r) \<Rightarrow> \<lparr>protocol = proto, host = (if h = [] then consumed else h),
              port = (if p = 0 then getPortFromProtocol proto else p),
              path = (if r \<noteq> [] then (if hd r = CHR ''/'' then tl r else r) else []), isSecure = isSecureProtocol proto\<rparr>)"

definition updateRecord :: "int \<Rightarrow> string \<Rightarrow> bool \<Rightarrow> dns_step" where
  "updateRecord shard url saveToDb = doS [
     whenS (\<lambda>c. \<not> hasRecord c shard) [addRecord shard url None True],
     (case Url_parse url of
        Inl e \<Rightarrow> doS [modS (updRecord shard (\<lambda>r. r\<lparr>drUrl := urlAfterFailure url (drUrl r)\<rparr>)), throwS e]
      | Inr u \<Rightarrow> modS (\<lambda>c. updRecord shard (\<lambda>r. r\<lparr>drUrl := withVersion c shard u, drIpv4 := [], drIpv6 := []\<rparr>) c)),
     (if saveToDb then modS (updRows (\<lambda>r. rwShard r = shard) (\<lambda>r. r\<lparr>rwUrl := url, rwIpv4 := [], rwIpv6 := []\<rparr>)) else doS [])]"

text \<open>One address of each family; the server's answer lists several.\<close>

definition isMatchIp :: "DnsCache \<Rightarrow> int \<Rightarrow> string \<Rightarrow> string \<Rightarrow> bool" where
  "isMatchIp c shard ipv4 ipv6 \<longleftrightarrow> (case getRecord c shard of None \<Rightarrow> False | Some r \<Rightarrow> drIpv4 r = ipv4 \<and> drIpv6 r = ipv6)"

definition matchRecord :: "string list \<Rightarrow> string list \<Rightarrow> DnsRecord \<Rightarrow> bool" where
  "matchRecord ipsv4 ipsv6 r \<longleftrightarrow>
     ((drIpv4 r = [] \<and> ipsv4 = []) \<or> drIpv4 r \<in> set ipsv4) \<and> ((drIpv6 r = [] \<and> ipsv6 = []) \<or> drIpv6 r \<in> set ipsv6)"

definition isMatch :: "DnsCache \<Rightarrow> int \<Rightarrow> string list \<Rightarrow> string list \<Rightarrow> bool" where
  "isMatch c shard ipsv4 ipsv6 \<longleftrightarrow> (case getRecord c shard of None \<Rightarrow> False | Some r \<Rightarrow> matchRecord ipsv4 ipsv6 r)"

definition front :: "string list \<Rightarrow> string" where
  "front xs = (if xs = [] then [] else hd xs)"

definition storeIp :: "nat \<Rightarrow> int \<Rightarrow> string \<Rightarrow> string \<Rightarrow> DnsCache \<Rightarrow> DnsCache" where
  "storeIp now shard ipv4 ipv6 c = updRows (\<lambda>r. rwShard r = shard) (\<lambda>r. r\<lparr>rwIpv4 := ipv4, rwIpv6 := ipv6\<rparr>)
     (updRecord shard (\<lambda>r. r\<lparr>drIpv4 := ipv4, drIpv6 := ipv6, drResolveTs := now\<rparr>) c)"

text \<open>Both throw for a shard without record, whose end iterator is written to.\<close>

definition setIps :: "nat \<Rightarrow> int \<Rightarrow> string list \<Rightarrow> string list \<Rightarrow> dns_step" where
  "setIps now shard ipsv4 ipsv6 = whenS (\<lambda>c. \<not> isMatch c shard ipsv4 ipsv6) [
     ifS (\<lambda>c. hasRecord c shard) [modS (storeIp now shard (front ipsv4) (front ipsv6))] [throwS OutOfBounds]]"

definition setIp :: "nat \<Rightarrow> int \<Rightarrow> string \<Rightarrow> string \<Rightarrow> dns_step" where
  "setIp now shard ipv4 ipv6 = whenS (\<lambda>c. \<not> isMatchIp c shard ipv4 ipv6) [
     ifS (\<lambda>c. hasRecord c shard) [modS (storeIp now shard ipv4 ipv6)] [throwS OutOfBounds]]"

definition invalidateIps :: "nat \<Rightarrow> int \<Rightarrow> dns_step" where
  "invalidateIps now shard = setIp now shard [] []"

definition getIp :: "DnsCache \<Rightarrow> int \<Rightarrow> (string \<times> string) \<times> bool" where
  "getIp c shard = (case getRecord c shard of None \<Rightarrow> (([], []), False)
     | Some r \<Rightarrow> ((drIpv4 r, drIpv6 r), drIpv4 r \<noteq> [] \<or> drIpv6 r \<noteq> []))"

definition markConnected :: "nat \<Rightarrow> string \<Rightarrow> DnsRecord \<Rightarrow> DnsRecord" where
  "markConnected now ip r = (if ip = drIpv4 r then r\<lparr>drConnectIpv4Ts := now\<rparr> else if ip = drIpv6 r then r\<lparr>drConnectIpv6Ts := now\<rparr> else r)"

definition connectDone :: "nat \<Rightarrow> int \<Rightarrow> string \<Rightarrow> DnsCache \<Rightarrow> DnsCache" where
  "connectDone now shard ip = updRecord shard (markConnected now ip)"

definition age :: "DnsCache \<Rightarrow> int \<Rightarrow> nat" where
  "age c shard = (case getRecord c shard of None \<Rightarrow> 0 | Some r \<Rightarrow> drResolveTs r)"

section \<open>Servers for calls\<close>

definition isSfuValidShard :: "int \<Rightarrow> bool" where
  "isSfuValidShard shard \<longleftrightarrow> shard \<le> kSfuShardStart \<and> shard \<ge> kSfuShardEnd"

definition calculateNextSfuShard :: "DnsCache \<Rightarrow> DnsCache \<times> int" where
  "calculateNextSfuShard c =
    (let c' = (if dcSfuShard c > kSfuShardStart \<or> dcSfuShard c \<le> kSfuShardEnd
               then removeRecord kSfuShardStart (c\<lparr>dcSfuShard := kSfuShardStart\<rparr>) else c)
     in (c'\<lparr>dcSfuShard := dcSfuShard c' - 1\<rparr>, dcSfuShard c'))"

definition updateCurrentShardForSfuFromDb :: "DnsCache \<Rightarrow> DnsCache \<times> bool" where
  "updateCurrentShardForSfuFromDb c =
    (let ss = filter (\<lambda>s. s \<le> kSfuShardStart \<and> s > kSfuShardEnd) (map rwShard (dcRows c))
     in if ss = [] then (c\<lparr>dcSfuShard := kSfuShardStart\<rparr>, False) else (c\<lparr>dcSfuShard := Min (set ss)\<rparr>, True))"

definition findByHost :: "DnsCache \<Rightarrow> string \<Rightarrow> (int \<times> DnsRecord) option" where
  "findByHost c hst = List.find (\<lambda>(_, r). host (drUrl r) = hst) (dcRecords c)"

definition getRecordByHost :: "DnsCache \<Rightarrow> string \<Rightarrow> DnsRecord option" where
  "getRecordByHost c hst = map_option snd (findByHost c hst)"

definition hasRecordByHost :: "DnsCache \<Rightarrow> string \<Rightarrow> bool" where
  "hasRecordByHost c hst \<longleftrightarrow> getRecordByHost c hst \<noteq> None"

definition addRecordByHost :: "string \<Rightarrow> bytes option \<Rightarrow> bool \<Rightarrow> int \<Rightarrow> DnsCache \<Rightarrow> DnsCache \<times> bool" where
  "addRecordByHost hst sess saveToDb shard c =
    (if hst = [] then (c, False)
     else if hasRecordByHost c hst \<and> saveToDb then (c, False)
     else let c' = emplace shard (newHostRecord hst sess) c
          in (if saveToDb then insertOrReplace shard hst c' else c', True))"

definition addSfuRecord :: "string \<Rightarrow> bytes option \<Rightarrow> bool \<Rightarrow> int \<Rightarrow> DnsCache \<Rightarrow> DnsCache \<times> bool" where
  "addSfuRecord hst sess saveToDb shard c =
    (if \<not> saveToDb \<and> \<not> isSfuValidShard shard then (c, False)
     else let (c', sfuShard) = (if saveToDb then calculateNextSfuShard c else (c, shard))
          in addRecordByHost hst sess saveToDb sfuShard c')"

definition isMatchByHost :: "DnsCache \<Rightarrow> string \<Rightarrow> string list \<Rightarrow> string list \<Rightarrow> bool" where
  "isMatchByHost c hst ipsv4 ipsv6 \<longleftrightarrow> (case getRecordByHost c hst of None \<Rightarrow> False | Some r \<Rightarrow> matchRecord ipsv4 ipsv6 r)"

definition setIpByHost :: "nat \<Rightarrow> string \<Rightarrow> string list \<Rightarrow> string list \<Rightarrow> DnsCache \<Rightarrow> DnsCache \<times> bool" where
  "setIpByHost now hst ipsv4 ipsv6 c =
    (if isMatchByHost c hst ipsv4 ipsv6 then (c, False)
     else case findByHost c hst of None \<Rightarrow> (c, False)
     | Some (shard, _) \<Rightarrow>
         (updRows (\<lambda>r. rwUrl r = hst) (\<lambda>r. r\<lparr>rwIpv4 := front ipsv4, rwIpv6 := front ipsv6\<rparr>)
           (updRecord shard (\<lambda>r. r\<lparr>drIpv4 := front ipsv4, drIpv6 := front ipsv6, drResolveTs := now\<rparr>) c), True))"

definition setSfuIp :: "nat \<Rightarrow> string \<Rightarrow> string list \<Rightarrow> string list \<Rightarrow> DnsCache \<Rightarrow> DnsCache \<times> bool" where
  "setSfuIp now hst ipsv4 ipsv6 c =
     setIpByHost now hst ipsv4 ipsv6 (if hasRecordByHost c hst then c else fst (addSfuRecord hst None True 0 c))"

definition addSfuRecordWithIp :: "nat \<Rightarrow> string \<Rightarrow> bytes option \<Rightarrow> bool \<Rightarrow> int \<Rightarrow> string list \<Rightarrow> string list \<Rightarrow> DnsCache \<Rightarrow> DnsCache \<times> bool" where
  "addSfuRecordWithIp now hst sess saveToDb shard ipsv4 ipsv6 c =
    (case addSfuRecord hst sess saveToDb shard c of (c', ok) \<Rightarrow> if ok then setIpByHost now hst ipsv4 ipsv6 c' else (c', False))"

definition connectDoneByHost :: "nat \<Rightarrow> string \<Rightarrow> string \<Rightarrow> DnsCache \<Rightarrow> DnsCache" where
  "connectDoneByHost now hst ip c = (case findByHost c hst of None \<Rightarrow> c
     | Some (shard, _) \<Rightarrow> updRecord shard (markConnected now ip) c)"

definition getIpByHost :: "DnsCache \<Rightarrow> string \<Rightarrow> (string \<times> string) \<times> bool" where
  "getIpByHost c hst = (case getRecordByHost c hst of None \<Rightarrow> (([], []), False)
     | Some r \<Rightarrow> ((drIpv4 r, drIpv6 r), drIpv4 r \<noteq> [] \<or> drIpv6 r \<noteq> []))"

section \<open>Sessions\<close>

text \<open>What \<open>CachedSession::disconnectAction\<close> asks for.\<close>

datatype SessAction = MEGA_IGNORE | MEGA_SAVE | MEGA_DROP

record CachedSession =
  csHostname :: string
  csPort :: int
  csBlob :: "bytes option"
  csAction :: SessAction

definition sessionShard :: "DnsCache \<Rightarrow> CachedSession \<Rightarrow> int option" where
  "sessionShard c sess = map_option fst (List.find (\<lambda>(s, r). host (drUrl r) = csHostname sess \<and>
     (uint (port (drUrl r)) = csPort sess \<or> isSfuValidShard s)) (dcRecords c))"

definition updateTlsSession :: "CachedSession \<Rightarrow> DnsCache \<Rightarrow> DnsCache \<times> bool" where
  "updateTlsSession sess c = (case sessionShard c sess of None \<Rightarrow> (c, False)
     | Some shard \<Rightarrow> (case csAction sess of
         MEGA_DROP \<Rightarrow> (updRows (\<lambda>r. rwShard r = shard) (\<lambda>r. r\<lparr>rwSess := []\<rparr>) c, True)
       | MEGA_SAVE \<Rightarrow> (case csBlob sess of None \<Rightarrow> (c, False)
           | Some b \<Rightarrow> (updRows (\<lambda>r. rwShard r = shard) (\<lambda>r. r\<lparr>rwSess := b\<rparr>) c, True))
       | MEGA_IGNORE \<Rightarrow> (c, True)))"

definition getTlsSessions :: "DnsCache \<Rightarrow> DnsCache \<times> CachedSession list" where
  "getTlsSessions c =
    (c\<lparr>dcRecords := map (\<lambda>(s, r). (s, r\<lparr>drTlsBlob := None\<rparr>)) (dcRecords c)\<rparr>,
     concat (map (\<lambda>(s, r). case drTlsBlob r of None \<Rightarrow> []
       | Some b \<Rightarrow> [\<lparr>csHostname = host (drUrl r), csPort = uint (port (drUrl r)), csBlob = Some b, csAction = MEGA_IGNORE\<rparr>]) (dcRecords c)))"

section \<open>Loading\<close>

definition removeRecordsByShards :: "int list \<Rightarrow> DnsCache \<Rightarrow> DnsCache" where
  "removeRecordsByShards ss c = c\<lparr>dcRows := filter (\<lambda>r. rwShard r \<notin> set ss) (dcRows c)\<rparr>"

text \<open>
  The rows are read one by one while the addresses that were just read are written back; \<open>bad\<close> collects
  the shards to remove.
\<close>

primrec loadRows :: "nat \<Rightarrow> bool \<Rightarrow> DnsRow list \<Rightarrow> int list \<Rightarrow> dns_step" where
  "loadRows now sfuUpdated [] bad = modS (removeRecordsByShards bad)"
| "loadRows now sfuUpdated (r # rs) bad =
    (if rwUrl r = [] then loadRows now sfuUpdated rs (rwShard r # bad)
     else if isSfuValidShard (rwShard r)
     then getS (\<lambda>c. Url_parse (rwUrl r)) (\<lambda>u.
       if \<not> Url_isValid u \<or> \<not> sfuUpdated then loadRows now sfuUpdated rs (rwShard r # bad)
       else readS (addSfuRecordWithIp now (host u) (Some (rwSess r)) False (rwShard r) [rwIpv4 r] [rwIpv6 r]) (\<lambda>(c', ok).
         doS [modS (\<lambda>_. c'), loadRows now sfuUpdated rs (if ok then bad else rwShard r # bad)]))
     else doS [addRecord (rwShard r) (rwUrl r) (Some (rwSess r)) False,
               setIp now (rwShard r) (rwIpv4 r) (rwIpv6 r),
               loadRows now sfuUpdated rs bad])"

definition loadFromDb :: "nat \<Rightarrow> dns_step" where
  "loadFromDb now = readS updateCurrentShardForSfuFromDb (\<lambda>(c', sfuUpdated). doS [
     modS (\<lambda>_. c'), readS dcRows (\<lambda>rows. loadRows now sfuUpdated rows [])])"

end
