(* ===== verification/DnsProps.thy ===== *)
theory DnsProps
  imports DnsCache
begin

text \<open>
  The cache of addresses: what is written to the table is what memory holds, so a restart finds it again;
  and how the numbers of the servers for calls break that.
\<close>

section \<open>Lookups\<close>

declare option.map_id [simp]

definition rowAt :: "DnsCache \<Rightarrow> int \<Rightarrow> DnsRow option" where
  "rowAt c s = map_of (map (\<lambda>r. (rwShard r, r)) (dcRows c)) s"

lemma map_of_insort [simp]: "k \<notin> fst ` set xs \<Longrightarrow> map_of (insort_key fst (k, v) xs) = (map_of xs)(k \<mapsto> v)"
  by (induction xs) (auto simp: fun_eq_iff)

lemma map_of_upd [simp]: "map_of (map (\<lambda>(s, r). (s, if s = k then f r else r)) xs) i = map_option (if i = k then f else id) (map_of xs i)"
  by (induction xs) auto

lemma map_of_del [simp]: "map_of (filter (\<lambda>(s, _). s \<noteq> k) xs) i = (if i = k then None else map_of xs i)"
  by (induction xs) auto

lemma rows_upd: "(\<And>r. rwShard (f r) = rwShard r) \<Longrightarrow>
    map_of (map (\<lambda>r. (rwShard r, r)) (map (\<lambda>r. if rwShard r = k then f r else r) xs)) i =
    map_option (if i = k then f else id) (map_of (map (\<lambda>r. (rwShard r, r)) xs) i)"
  by (induction xs) auto

lemma rows_del: "map_of (map (\<lambda>r. (rwShard r, r)) (filter (\<lambda>r. rwShard r \<noteq> k) xs)) i =
    (if i = k then None else map_of (map (\<lambda>r. (rwShard r, r)) xs) i)"
  by (induction xs) auto

lemma lookups [simp]:
  "getRecord (updRecord k f c) i = map_option (if i = k then f else id) (getRecord c i)"
  "getRecord (updRows p g c) i = getRecord c i"
  "getRecord (insertOrReplace k u c) i = getRecord c i"
  "\<not> hasRecord c k \<Longrightarrow> getRecord (emplace k r c) i = (if i = k then Some r else getRecord c i)"
  "getRecord (removeRecord k c) i = (if i = k then None else getRecord c i)"
  "rowAt (updRecord k f c) i = rowAt c i"
  "rowAt (emplace k r c) i = rowAt c i"
  "rowAt (removeRecord k c) i = (if i = k then None else rowAt c i)"
  by (auto simp: getRecord_def rowAt_def updRecord_def updRows_def insertOrReplace_def emplace_def removeRecord_def hasRecord_def
      map_of_eq_None_iff rows_del)

lemma rowAt_insert [simp]:
  "rowAt (insertOrReplace k u c) i =
     (if i = k then Some \<lparr>rwShard = k, rwUrl = u, rwIpv4 = [], rwIpv6 = [], rwSess = []\<rparr> else rowAt c i)"
  unfolding rowAt_def insertOrReplace_def by (simp add: rows_del map_add_def fun_upd_def split: option.split)

lemma rowAt_updRows [simp]:
  "(\<And>r. rwShard (f r) = rwShard r) \<Longrightarrow> rowAt (updRows (\<lambda>r. rwShard r = k) f c) i = map_option (if i = k then f else id) (rowAt c i)"
  unfolding rowAt_def updRows_def by (simp add: rows_upd del: map_map)

section \<open>Memory and table\<close>

type_synonym content = "Url \<times> string \<times> string"

definition recordContent :: "DnsRecord \<Rightarrow> content" where
  "recordContent r = (drUrl r, drIpv4 r, drIpv6 r)"

definition rowContent :: "DnsCache \<Rightarrow> DnsRow \<Rightarrow> content option" where
  "rowContent c r = (case Url_parse (rwUrl r) of Inl _ \<Rightarrow> None | Inr u \<Rightarrow> Some (withVersion c (rwShard r) u, rwIpv4 r, rwIpv6 r))"

definition shard_ok :: "DnsCache \<Rightarrow> int \<Rightarrow> bool" where
  "shard_ok c s \<longleftrightarrow> (case (getRecord c s, rowAt c s) of (None, None) \<Rightarrow> True
     | (Some d, Some r) \<Rightarrow> \<not> isSfuValidShard s \<and> rwUrl r \<noteq> [] \<and> rowContent c r = Some (recordContent d)
     | _ \<Rightarrow> False)"

definition dns_ok :: "DnsCache \<Rightarrow> bool" where
  "dns_ok c \<longleftrightarrow> distinct (map rwShard (dcRows c)) \<and> (\<forall>s. shard_ok c s)"

text \<open>The changes of the servers of chats and of presence.\<close>

datatype DnsOp = DnsAdd int string "bytes option" | DnsUpdate int string | DnsRemove int | DnsSetIps nat int "string list" "string list"
  | DnsInvalidate nat int | DnsConnected nat int string | DnsSession CachedSession

fun dnsOp :: "DnsOp \<Rightarrow> dns_step" where
  "dnsOp (DnsAdd s u sess) = addRecord s u sess True"
| "dnsOp (DnsUpdate s u) = updateRecord s u True"
| "dnsOp (DnsRemove s) = modS (removeRecord s)"
| "dnsOp (DnsSetIps now s v4 v6) = setIps now s v4 v6"
| "dnsOp (DnsInvalidate now s) = invalidateIps now s"
| "dnsOp (DnsConnected now s ip) = modS (connectDone now s ip)"
| "dnsOp (DnsSession sess) = modS (\<lambda>c. fst (updateTlsSession sess c))"

definition opShard :: "DnsOp \<Rightarrow> bool" where
  "opShard op = (case op of DnsAdd s u _ \<Rightarrow> \<not> isSfuValidShard s | DnsUpdate s u \<Rightarrow> \<not> isSfuValidShard s \<and> (\<exists>x. Url_parse u = Inr x) | _ \<Rightarrow> True)"

lemma parse_nonempty: "Url_parse u = Inr x \<Longrightarrow> u \<noteq> []"
  by (auto simp: Url_parse_def)

lemma versions [simp]:
  "dcVersion (updRecord k f c) = dcVersion c" "dcVersion (updRows p g c) = dcVersion c" "dcVersion (insertOrReplace k x c) = dcVersion c"
  "dcVersion (emplace k r c) = dcVersion c" "dcVersion (removeRecord k c) = dcVersion c"
  by (simp_all add: updRecord_def updRows_def insertOrReplace_def emplace_def removeRecord_def)

lemma rowContent_same: "dcVersion c' = dcVersion c \<Longrightarrow> rowContent c' = rowContent c"
  by (rule ext) (simp add: rowContent_def withVersion_def split: sum.split)

lemma rowAt_Some: "rowAt c s = Some r \<Longrightarrow> r \<in> set (dcRows c) \<and> rwShard r = s"
  by (auto simp: rowAt_def dest: map_of_SomeD)

lemma dns_okD: "dns_ok c \<Longrightarrow> shard_ok c s" "dns_ok c \<Longrightarrow> distinct (map rwShard (dcRows c))"
  by (simp_all add: dns_ok_def)

lemma distinct_rows [simp]:
  "dcRows (updRecord k f c) = dcRows c" "dcRows (emplace k d c) = dcRows c"
  "distinct (map rwShard (dcRows c)) \<Longrightarrow> distinct (map rwShard (dcRows (insertOrReplace k u c)))"
  "distinct (map rwShard (dcRows c)) \<Longrightarrow> distinct (map rwShard (dcRows (removeRecord k c)))"
  by (auto simp: updRecord_def emplace_def insertOrReplace_def removeRecord_def distinct_map_filter)

lemma distinct_updRows [simp]:
  assumes "\<And>r. rwShard (f r) = rwShard r"
  shows "distinct (map rwShard (dcRows (updRows p f c))) \<longleftrightarrow> distinct (map rwShard (dcRows c))"
proof -
  have "map rwShard (dcRows (updRows p f c)) = map rwShard (dcRows c)"
    by (simp add: updRows_def assms comp_def)
  then show ?thesis by simp
qed

text \<open>A change of one shard needs a look at that shard only.\<close>

lemma ok_change:
  assumes "dns_ok c" "dcVersion c' = dcVersion c" "distinct (map rwShard (dcRows c'))"
    "\<And>s. s \<noteq> k \<Longrightarrow> getRecord c' s = getRecord c s \<and> rowAt c' s = rowAt c s" "shard_ok c' k"
  shows "dns_ok c'"
proof -
  have "shard_ok c' s" for s
    using assms(4) [of s] assms(5) dns_okD(1) [OF assms(1), of s]
    by (cases "s = k") (simp_all add: shard_ok_def rowContent_same [OF assms(2)] split: option.splits)
  with assms(3) show ?thesis by (simp add: dns_ok_def)
qed

lemma rowContent_upd [simp]:
  "rowContent (updRows p g c) = rowContent c" "rowContent (updRecord k f c) = rowContent c"
  "rowContent (emplace k d c) = rowContent c" "rowContent (insertOrReplace k u c) = rowContent c"
  by (rule rowContent_same, simp)+

lemma ok_meta:
  assumes "\<And>r. recordContent (f r) = recordContent r" "dns_ok c"
  shows "dns_ok (updRecord k f c)"
  by (rule ok_change [OF assms(2), where k = k])
    (use dns_okD(1) [OF assms(2), of k] dns_okD(2) [OF assms(2)] in \<open>simp_all add: shard_ok_def assms(1) split: option.splits\<close>)

lemma ok_rowmeta:
  assumes "\<And>r. rwShard (f r) = rwShard r \<and> rwUrl (f r) = rwUrl r \<and> rwIpv4 (f r) = rwIpv4 r \<and> rwIpv6 (f r) = rwIpv6 r" "dns_ok c"
  shows "dns_ok (updRows (\<lambda>r. rwShard r = k) f c)"
proof -
  have c: "rowContent c (f r) = rowContent c r" for r
    using assms(1) [of r] by (simp add: rowContent_def split: sum.split)
  show ?thesis
    by (rule ok_change [OF assms(2), where k = k])
      (use dns_okD(1) [OF assms(2), of k] dns_okD(2) [OF assms(2)] in \<open>simp_all add: shard_ok_def assms(1) c split: option.splits\<close>)
qed

text \<open>New addresses, in memory and in the table.\<close>

lemma ok_storeIp:
  assumes "dns_ok c"
  shows "dns_ok (storeIp now k v4 v6 c)"
  unfolding storeIp_def
  by (rule ok_change [OF assms, where k = k])
    (use dns_okD(1) [OF assms, of k] dns_okD(2) [OF assms] in
      \<open>auto simp: shard_ok_def rowContent_def [of c] recordContent_def split: option.splits sum.splits\<close>)

lemma ok_setIps: "keeps dns_ok (setIps now k v4 v6)"
  unfolding setIps_def by (rule keepsI) (simp add: ifS_def ok_storeIp modS_def throwS_def)

lemma ok_setIp: "keeps dns_ok (setIp now k v4 v6)"
  unfolding setIp_def by (rule keepsI) (simp add: ifS_def ok_storeIp modS_def throwS_def)

lemma ok_removeRecord:
  assumes "dns_ok c"
  shows "dns_ok (removeRecord k c)"
  by (rule ok_change [OF assms, where k = k]) (use dns_okD(2) [OF assms] in \<open>simp_all add: shard_ok_def\<close>)

lemma ok_add:
  assumes "dns_ok c" "\<not> hasRecord c k" "Url_parse u = Inr x" "\<not> isSfuValidShard k"
  shows "dns_ok (insertOrReplace k u (emplace k ((newRecord (withVersion c k x))\<lparr>drTlsBlob := b\<rparr>) c))"
  by (rule ok_change [OF assms(1), where k = k])
    (use dns_okD(2) [OF assms(1)] assms parse_nonempty [OF assms(3)] in
      \<open>simp_all add: shard_ok_def rowContent_def recordContent_def newRecord_def\<close>)

lemma ok_addRecord: "\<not> isSfuValidShard k \<Longrightarrow> dns_ok c \<Longrightarrow> dns_ok (fst (addRecord k u sess True c))"
  by (auto simp: addRecord_def ifS_def getS_def modS_def ok_add split: sum.split)

lemma addRecord_has: "Url_parse u = Inr x \<Longrightarrow> hasRecord (fst (addRecord k u sess b c)) k \<and> snd (addRecord k u sess b c) = None"
  by (auto simp: addRecord_def ifS_def getS_def modS_def hasRecord_def)

lemma ok_updateUrl:
  assumes "dns_ok c" "Url_parse u = Inr x"
  shows "dns_ok (updRows (\<lambda>r. rwShard r = k) (\<lambda>r. r\<lparr>rwUrl := u, rwIpv4 := [], rwIpv6 := []\<rparr>)
    (updRecord k (\<lambda>r. r\<lparr>drUrl := withVersion c k x, drIpv4 := [], drIpv6 := []\<rparr>) c))"
  by (rule ok_change [OF assms(1), where k = k])
    (use dns_okD(1) [OF assms(1), of k] dns_okD(2) [OF assms(1)] rowAt_Some [of c k] assms parse_nonempty [OF assms(2)] in
      \<open>auto simp: shard_ok_def rowContent_def recordContent_def split: option.splits\<close>)

lemma ok_updateRecord:
  assumes "\<not> isSfuValidShard k" "dns_ok c" "Url_parse u = Inr x"
  shows "dns_ok (fst (updateRecord k u True c))"
proof -
  obtain c' where c': "doS [whenS (\<lambda>c. \<not> hasRecord c k) [addRecord k u None True]] c = (c', None)" "dns_ok c'"
    using ok_addRecord [OF assms(1,2), of u None] addRecord_has [OF assms(3), of k None True c] assms(2)
    by (cases "addRecord k u None True c"; cases "hasRecord c k") (simp_all add: ifS_def)
  then show ?thesis
    using ok_updateUrl [OF c'(2) assms(3), of k] assms(3) by (simp add: updateRecord_def modS_def)
qed

lemma ok_session: "dns_ok c \<Longrightarrow> dns_ok (fst (updateTlsSession sess c))"
  by (auto simp: updateTlsSession_def ok_rowmeta split: option.split SessAction.split)

theorem dnsOp_ok:
  assumes "opShard op" "dns_ok c"
  shows "dns_ok (fst (dnsOp op c))"
  using assms keepsD [OF ok_setIps] keepsD [OF ok_setIp]
  by (cases op) (auto simp: opShard_def ok_addRecord ok_updateRecord ok_removeRecord ok_session invalidateIps_def modS_def
      connectDone_def markConnected_def recordContent_def intro!: ok_meta)

section \<open>Reading the table\<close>

definition rowOfC :: "DnsCache \<Rightarrow> int \<Rightarrow> content option" where
  "rowOfC c i = Option.bind (rowAt c i) (rowContent c)"

definition plainRow :: "DnsCache \<Rightarrow> DnsRow \<Rightarrow> bool" where
  "plainRow c r \<longleftrightarrow> \<not> isSfuValidShard (rwShard r) \<and> rwUrl r \<noteq> [] \<and> rowContent c r \<noteq> None"

lemma rowAt_None: "i \<notin> rwShard ` set (dcRows c) \<Longrightarrow> rowAt c i = None"
  by (auto simp: rowAt_def map_of_eq_None_iff)

lemma rowAt_mem: "distinct (map rwShard (dcRows c)) \<Longrightarrow> r \<in> set (dcRows c) \<Longrightarrow> rowAt c (rwShard r) = Some r"
  by (force simp: rowAt_def comp_def intro: map_of_is_SomeI)

lemma store_same:
  assumes "distinct (map rwShard (dcRows c))" "r \<in> set (dcRows c)"
  shows "dcRows (storeIp now (rwShard r) (rwIpv4 r) (rwIpv6 r) c) = dcRows c"
proof -
  have "x\<lparr>rwIpv4 := rwIpv4 r, rwIpv6 := rwIpv6 r\<rparr> = x" if "x \<in> set (dcRows c)" "rwShard x = rwShard r" for x
    using rowAt_mem [OF assms] rowAt_mem [OF assms(1) that(1)] that(2) by (cases r) simp
  then show ?thesis by (auto simp: storeIp_def updRows_def intro!: map_idI)
qed

lemma load_row:
  assumes "distinct (map rwShard (dcRows c))" "r \<in> set (dcRows c)" "plainRow c r" "getRecord c (rwShard r) = None"
  shows "\<exists>c'. doS [addRecord (rwShard r) (rwUrl r) b False, setIp now (rwShard r) (rwIpv4 r) (rwIpv6 r), k] c = k c' \<and>
    dcRows c' = dcRows c \<and> dcVersion c' = dcVersion c \<and>
    (\<forall>i. map_option recordContent (getRecord c' i) = (if i = rwShard r then rowContent c r else map_option recordContent (getRecord c i)))"
proof -
  from assms(3) obtain u where u: "Url_parse (rwUrl r) = Inr u"
    by (auto simp: plainRow_def rowContent_def split: sum.splits)
  define d where "d = (newRecord (withVersion c (rwShard r) u))\<lparr>drTlsBlob := blobOf b\<rparr>"
  define c1 where "c1 = emplace (rwShard r) d c"
  have no: "\<not> hasRecord c (rwShard r)" by (simp add: hasRecord_def assms(4))
  have a: "addRecord (rwShard r) (rwUrl r) b False c = (c1, None)"
    by (simp add: addRecord_def ifS_def no getS_def u modS_def c1_def d_def)
  have g: "getRecord c1 i = (if i = rwShard r then Some d else getRecord c i)" for i
    by (simp add: c1_def no)
  have c1: "dcRows c1 = dcRows c" "dcVersion c1 = dcVersion c" by (simp_all add: c1_def)
  show ?thesis
  proof (cases "isMatchIp c1 (rwShard r) (rwIpv4 r) (rwIpv6 r)")
    case True
    then have "recordContent d = (withVersion c (rwShard r) u, rwIpv4 r, rwIpv6 r)"
      by (simp add: isMatchIp_def g recordContent_def d_def newRecord_def)
    then show ?thesis
      using True by (intro exI [of _ c1]) (simp add: a setIp_def ifS_def g c1 rowContent_def u)
  next
    case False
    let ?c = "storeIp now (rwShard r) (rwIpv4 r) (rwIpv6 r) c1"
    have "dcRows ?c = dcRows c" using store_same [of c1 r now] assms(1,2) by (simp add: c1)
    moreover have "setIp now (rwShard r) (rwIpv4 r) (rwIpv6 r) c1 = (?c, None)"
      using False by (simp add: setIp_def ifS_def hasRecord_def g modS_def)
    moreover have "map_option recordContent (getRecord ?c i) =
        (if i = rwShard r then rowContent c r else map_option recordContent (getRecord c i))" for i
      by (simp add: storeIp_def g recordContent_def d_def newRecord_def rowContent_def u)
    moreover have "dcVersion ?c = dcVersion c" by (simp add: storeIp_def c1)
    ultimately show ?thesis
      by (intro exI [of _ ?c]) (simp add: a)
  qed
qed

lemma load_rows:
  assumes "distinct (map rwShard (dcRows c))" "set rs \<subseteq> set (dcRows c)" "distinct (map rwShard rs)"
    "\<forall>r \<in> set (dcRows c). plainRow c r"
    "\<forall>i. map_option recordContent (getRecord c i) = (if i \<in> rwShard ` set rs then None else rowOfC c i)"
  shows "\<exists>c'. loadRows now sfu rs [] c = (c', None) \<and> dcRows c' = dcRows c \<and>
    (\<forall>i. map_option recordContent (getRecord c' i) = rowOfC c i)"
  using assms
proof (induction rs arbitrary: c)
  case Nil
  then show ?case by (auto simp: modS_def removeRecordsByShards_def getRecord_def)
next
  case (Cons r rs)
  have r: "r \<in> set (dcRows c)" "plainRow c r" "getRecord c (rwShard r) = None"
    using Cons.prems(2,4,5) by (auto dest: spec [of _ "rwShard r"])
  have s: "\<not> isSfuValidShard (rwShard r)" "rwUrl r \<noteq> []" using r(2) by (simp_all add: plainRow_def)
  obtain c' where c': "loadRows now sfu (r # rs) [] c = loadRows now sfu rs [] c'" "dcRows c' = dcRows c" "dcVersion c' = dcVersion c"
    and g: "\<And>i. map_option recordContent (getRecord c' i) = (if i = rwShard r then rowContent c r else map_option recordContent (getRecord c i))"
    using load_row [OF Cons.prems(1) r, of "Some (rwSess r)" now "loadRows now sfu rs []"] s by auto
  have k: "rowOfC c' = rowOfC c" "plainRow c' = plainRow c"
    by (simp_all add: fun_eq_iff rowOfC_def rowAt_def plainRow_def c'(2) rowContent_same [OF c'(3)])
  have rc: "rowOfC c (rwShard r) = rowContent c r"
    by (simp add: rowOfC_def rowAt_mem [OF Cons.prems(1) r(1)])
  have "\<exists>c''. loadRows now sfu rs [] c' = (c'', None) \<and> dcRows c'' = dcRows c' \<and>
      (\<forall>i. map_option recordContent (getRecord c'' i) = rowOfC c' i)"
    by (rule Cons.IH) (use Cons.prems g rc in \<open>auto simp: c'(2) k\<close>)
  then show ?case unfolding c'(1) by (simp only: c' k)
qed

text \<open>What the table says is what memory said when it was written.\<close>

lemma dns_ok_rows:
  assumes "dns_ok c"
  shows "map_option recordContent (getRecord c i) = rowOfC c i" "r \<in> set (dcRows c) \<Longrightarrow> plainRow c r"
proof -
  show "map_option recordContent (getRecord c i) = rowOfC c i"
    using dns_okD(1) [OF assms, of i] by (simp add: shard_ok_def rowOfC_def split: option.splits)
  assume "r \<in> set (dcRows c)"
  then show "plainRow c r"
    using dns_okD(1) [OF assms, of "rwShard r"] rowAt_mem [OF dns_okD(2) [OF assms], of r]
    by (auto simp: shard_ok_def plainRow_def recordContent_def split: option.splits)
qed

definition runDns :: "DnsOp list \<Rightarrow> DnsCache \<Rightarrow> DnsCache" where
  "runDns ops = fold (\<lambda>op c. fst (dnsOp op c)) ops"

lemma runDns_ok: "\<forall>op \<in> set ops. opShard op \<Longrightarrow> dns_ok c \<Longrightarrow> dns_ok (runDns ops c)"
  unfolding runDns_def by (induction ops arbitrary: c) (simp_all add: dnsOp_ok)

lemma dns_ok_new: "dns_ok (newDnsCache [] v)"
  by (simp add: dns_ok_def newDnsCache_def shard_ok_def getRecord_def rowAt_def)

lemma version_kept: "keeps (\<lambda>c. dcVersion c = v) (dnsOp op)"
proof (cases op)
  case (DnsSession sess)
  then show ?thesis
    by (auto simp: updateTlsSession_def modS_def intro!: keepsI split: option.split SessAction.split)
qed (auto simp: addRecord_def updateRecord_def setIps_def setIp_def invalidateIps_def storeIp_def connectDone_def
      intro!: keeps_intros split: sum.split)

lemma runDns_version: "dcVersion (runDns ops c) = dcVersion c"
  unfolding runDns_def by (induction ops arbitrary: c) (simp_all add: keepsD [OF version_kept [OF]])

text \<open>
  C30: Whatever records of chat and presence servers are added, changed, given addresses, invalidated or
  removed, in whatever order and whether or not an operation throws, reading the table at the next start
  ends without exception, keeps every row, and gives every server the URL and the two addresses it had
  in memory.  A URL that cannot be parsed is only excluded for an update, which leaves the record half changed.
\<close>

theorem restart_restores_addresses:
  assumes "\<forall>op \<in> set ops. opShard op"
  shows "let c = runDns ops (newDnsCache [] v); r = loadFromDb now (newDnsCache (dcRows c) v) in
    snd r = None \<and> dcRows (fst r) = dcRows c \<and>
    (\<forall>s. map_option recordContent (getRecord (fst r) s) = map_option recordContent (getRecord c s))"
proof -
  let ?c = "runDns ops (newDnsCache [] v)"
  let ?d = "(newDnsCache (dcRows ?c) v)\<lparr>dcSfuShard := kSfuShardStart\<rparr>"
  have ok: "dns_ok ?c" by (rule runDns_ok [OF assms dns_ok_new])
  have v: "dcVersion ?d = dcVersion ?c" by (simp add: runDns_version newDnsCache_def)
  have k: "rowOfC ?d = rowOfC ?c" "plainRow ?d = plainRow ?c"
    by (simp_all add: fun_eq_iff rowOfC_def rowAt_def plainRow_def rowContent_same [OF v]) (simp_all add: newDnsCache_def)
  have rows: "dcRows ?d = dcRows ?c" by (simp add: newDnsCache_def)
  have "filter (\<lambda>s. s \<le> kSfuShardStart \<and> s > kSfuShardEnd) (map rwShard (dcRows ?c)) = []"
    using dns_ok_rows(2) [OF ok] by (fastforce simp: filter_empty_conv plainRow_def isSfuValidShard_def)
  then have u: "updateCurrentShardForSfuFromDb (newDnsCache (dcRows ?c) v) = (?d, False)"
    by (simp add: updateCurrentShardForSfuFromDb_def newDnsCache_def)
  have "map_option recordContent (getRecord ?d i) = (if i \<in> rwShard ` set (dcRows ?c) then None else rowOfC ?d i)" for i
    using rowAt_None [of i ?d] by (auto simp: getRecord_def newDnsCache_def rowOfC_def)
  then have "\<exists>c'. loadRows now False (dcRows ?c) [] ?d = (c', None) \<and> dcRows c' = dcRows ?d \<and>
      (\<forall>i. map_option recordContent (getRecord c' i) = rowOfC ?d i)"
    using dns_okD(2) [OF ok] dns_ok_rows(2) [OF ok] by (intro load_rows) (simp_all add: rows k)
  then show ?thesis
    by (auto simp: loadFromDb_def readS_def u modS_def rows k dns_ok_rows(1) [OF ok])
qed

theorem restart_restores_addresses_witness:
  "let c = runDns [DnsAdd 0 ''wss://a.b/x'' None, DnsSetIps 7 0 [''1.2.3.4''] [''::1''], DnsRemove 5] (newDnsCache [] 2);
       r = loadFromDb 9 (newDnsCache (dcRows c) 2) in
    getRecord c 0 \<noteq> None \<and> snd r = None \<and> dcRows (fst r) = dcRows c \<and>
    (\<forall>s. map_option recordContent (getRecord (fst r) s) = map_option recordContent (getRecord c s))"
proof -
  let ?ops = "[DnsAdd 0 ''wss://a.b/x'' None, DnsSetIps 7 0 [''1.2.3.4''] [''::1''], DnsRemove 5]"
  have "Url_parse ''wss://a.b/x'' =
      Inr \<lparr>protocol = ''wss'', host = ''a.b'', port = 443, path = ''x'', isSecure = True\<rparr>"
    by code_simp
  then have "getRecord (runDns ?ops (newDnsCache [] 2)) 0 \<noteq> None"
    by (simp add: runDns_def addRecord_def ifS_def getS_def modS_def setIps_def storeIp_def newDnsCache_def hasRecord_def
        getRecord_def [of "newDnsCache _ _"])
  then show ?thesis
    using restart_restores_addresses [of ?ops 2] by (simp add: opShard_def isSfuValidShard_def Let_def)
qed

section \<open>The slots of the servers for calls\<close>

lemma records_insert [simp]: "dcRecords (insertOrReplace k u c) = dcRecords c"
  by (simp add: insertOrReplace_def)

text \<open>
  After a start, the next slot for a call server is the last one in use: adding a new host then
  reports success and overwrites the row of that slot, but the record in memory stays the old one and the
  new host is not found.  The comment says the oldest records are overwritten.
\<close>

theorem sfu_slot_lost:
  assumes "updateCurrentShardForSfuFromDb c = (c', True)" "hasRecord c (dcSfuShard c')"
    "h \<noteq> []" "\<not> hasRecordByHost c h" "dcSfuShard c' \<noteq> kSfuShardEnd"
  shows "case addSfuRecord h sess True k c' of (c'', ok) \<Rightarrow>
    ok \<and> dcRecords c'' = dcRecords c \<and> \<not> hasRecordByHost c'' h \<and>
    map_option rwUrl (rowAt c'' (dcSfuShard c')) = Some h"
proof -
  let ?k = "dcSfuShard c'"
  define c1 where "c1 = c'\<lparr>dcSfuShard := ?k - 1\<rparr>"
  let ?ss = "filter (\<lambda>s. s \<le> kSfuShardStart \<and> s > kSfuShardEnd) (map rwShard (dcRows c))"
  have c': "c' = c\<lparr>dcSfuShard := Min (set ?ss)\<rparr>" "?ss \<noteq> []"
    using assms(1) by (auto simp: updateCurrentShardForSfuFromDb_def Let_def split: if_splits)
  have "Min (set ?ss) \<in> set ?ss" by (rule Min_in) (simp, simp only: set_empty c'(2) not_False_eq_True)
  moreover have "?k = Min (set ?ss)" using c'(1) by (simp del: set_filter)
  ultimately have "?k \<in> set ?ss" by simp
  then have "calculateNextSfuShard c' = (c1, ?k)"
    by (auto simp: calculateNextSfuShard_def c1_def)
  moreover have r: "dcRecords c1 = dcRecords c"
    by (simp add: c1_def) (simp add: c')
  moreover have "hasRecord c1 ?k" "\<not> hasRecordByHost c1 h"
    using assms(2,4) by (simp_all add: hasRecord_def getRecord_def hasRecordByHost_def getRecordByHost_def findByHost_def r)
  ultimately show ?thesis
    using assms(3) by (simp add: addSfuRecord_def addRecordByHost_def emplace_def [of _ _ c1] hasRecordByHost_def getRecordByHost_def findByHost_def)
qed

definition sfuCache :: DnsCache where
  "sfuCache = fst (loadFromDb 9 (newDnsCache [\<lparr>rwShard = -21, rwUrl = ''a'', rwIpv4 = ''1.2.3.4'', rwIpv6 = [], rwSess = []\<rparr>] 2))"

theorem sfu_slot_lost_witness:
  "hasRecordByHost sfuCache ''a'' \<and>
   (case addSfuRecord ''b'' None True 0 (fst (updateCurrentShardForSfuFromDb sfuCache)) of (c'', ok) \<Rightarrow>
    ok \<and> dcRecords c'' = dcRecords sfuCache \<and> \<not> hasRecordByHost c'' ''b'' \<and>
    map_option rwUrl (rowAt c'' (-21)) = Some ''b'')"
proof -
  let ?c' = "fst (updateCurrentShardForSfuFromDb sfuCache)"
  have f: "updateCurrentShardForSfuFromDb sfuCache = (?c', True)" "dcSfuShard ?c' = -21"
    "hasRecord sfuCache (-21)" "\<not> hasRecordByHost sfuCache ''b''" "hasRecordByHost sfuCache ''a''"
    by (code_simp)+
  show ?thesis
    using sfu_slot_lost [OF f(1), unfolded f(2), OF f(3) _ f(4), of None 0] f(5) by simp
qed

text \<open>A row for a call server that has no address yet is removed by the next start.\<close>

theorem sfu_row_without_address_removed:
  "let c = fst (addSfuRecord ''a'' None True 0 (newDnsCache [] 2)); r = loadFromDb 9 (newDnsCache (dcRows c) 2) in
    hasRecordByHost c ''a'' \<and> map rwUrl (dcRows c) = [''a''] \<and> snd r = None \<and> dcRows (fst r) = []"
  by code_simp

end
