(* ===== verification/PresConfig.thy ===== *)
theory PresConfig
  imports ChatdFrame
begin

text \<open>
  Presence: the status bytes, the preferences of the user and their sixteen bits on the wire, and the
  commands of the presence protocol, \<open>karere::Presence\<close>, \<open>presenced::Config\<close> and \<open>presenced::Command\<close> of
  \<open>src/presenced.h\<close> and \<open>src/presenced.cpp\<close>.  Times are seconds, unbounded integers; the
  preferences are put together in 64 bits and cut to sixteen, as the code does.
\<close>

section \<open>Presence\<close>

type_synonym Presence = byte

abbreviation kOffline :: byte where "kOffline \<equiv> 1"
abbreviation kAway :: byte where "kAway \<equiv> 2"
abbreviation kOnline :: byte where "kOnline \<equiv> 3"
abbreviation kBusy :: byte where "kBusy \<equiv> 4"
abbreviation kUnknown :: byte where "kUnknown \<equiv> 0x0f"
abbreviation kFlagsMask :: byte where "kFlagsMask \<equiv> 0xf0"

definition presCode :: "Presence \<Rightarrow> byte" where
  "presCode p = p AND NOT kFlagsMask"

text \<open>Comparing two presences compares their codes: \<open>operator Code\<close>.\<close>

definition presEq :: "Presence \<Rightarrow> Presence \<Rightarrow> bool" where
  "presEq p q \<longleftrightarrow> presCode p = presCode q"

definition presIsValid :: "Presence \<Rightarrow> bool" where
  "presIsValid p \<longleftrightarrow> presCode p \<noteq> kUnknown"

definition canWebRtc :: "Presence \<Rightarrow> bool" where "canWebRtc p \<longleftrightarrow> p AND 0x80 \<noteq> 0"
definition presIsMobile :: "Presence \<Rightarrow> bool" where "presIsMobile p \<longleftrightarrow> p AND 0x40 \<noteq> 0"
definition canLastGreen :: "Presence \<Rightarrow> bool" where "canLastGreen p \<longleftrightarrow> p AND 0x20 \<noteq> 0"

definition presToString :: "Presence \<Rightarrow> string" where
  "presToString p =
    (if presCode p = kOffline then ''Offline'' else if presCode p = kOnline then ''Online''
     else if presCode p = kAway then ''Away'' else if presCode p = kBusy then ''Busy''
     else if presCode p = kUnknown then ''Unknown'' else ''(invalid)'')"

section \<open>Preferences\<close>

record Config =
  cfPresence :: Presence
  cfPersist :: bool
  cfAutoawayActive :: bool
  cfAutoawayTimeout :: int
  cfLastGreenVisible :: bool

definition defaultConfig :: Config where
  "defaultConfig = \<lparr>cfPresence = kUnknown, cfPersist = False, cfAutoawayActive = True, cfAutoawayTimeout = 600, cfLastGreenVisible = False\<rparr>"

abbreviation kMaxAutoawayTimeout :: int where "kMaxAutoawayTimeout \<equiv> 87420"
abbreviation kLastGreenVisibleMask :: u16 where "kLastGreenVisibleMask \<equiv> 0x8000"

definition autoAwayInEffect :: "Config \<Rightarrow> bool" where
  "autoAwayInEffect c \<longleftrightarrow> presIsValid (cfPresence c) \<and> cfAutoawayActive c \<and> cfAutoawayTimeout c \<noteq> 0 \<and>
     presEq (cfPresence c) kOnline \<and> \<not> cfPersist c"

text \<open>The timeout of ten minutes and more is sent in minutes above ten.\<close>

definition expandTimeout :: "int \<Rightarrow> int" where
  "expandTimeout t = (if t > 600 then 600 + (t - 600) * 60 else t)"

definition packTimeout :: "int \<Rightarrow> int" where
  "packTimeout t = (if t > 600 then 600 + (t - 600) div 60 else t)"

definition fromCode :: "u16 \<Rightarrow> Config" where
  "fromCode code = \<lparr>cfPresence = ucast (code AND 3) + kOffline,
     cfPersist = (code AND 4 \<noteq> 0),
     cfAutoawayActive = (code AND 8 = 0),
     cfAutoawayTimeout = expandTimeout (uint (drop_bit 4 (code AND NOT kLastGreenVisibleMask))),
     cfLastGreenVisible = (code AND kLastGreenVisibleMask = 0)\<rparr>"

definition toCode :: "Config \<Rightarrow> u16" where
  "toCode c = ((ucast (presCode (cfPresence c)) - ucast kOffline) AND 3)
     OR (if cfPersist c then 4 else 0) OR (if cfAutoawayActive c then 0 else 8)
     OR push_bit 4 (word_of_int (packTimeout (cfAutoawayTimeout c)))
     OR (if cfLastGreenVisible c then 0 else kLastGreenVisibleMask)"

definition configToString :: "Config \<Rightarrow> string" where
  "configToString c = ''pres: '' @ presToString (cfPresence c) @ '', persist: '' @ (if cfPersist c then ''1'' else ''0'')
     @ '', aaActive: '' @ (if cfAutoawayActive c then ''1'' else ''0'') @ '', aaTimeout: '' @ showNat (nat (cfAutoawayTimeout c))
     @ '', hideLastGreen: '' @ (if cfLastGreenVisible c then ''0'' else ''1'')"

section \<open>Commands\<close>

abbreviation P_KEEPALIVE :: byte where "P_KEEPALIVE \<equiv> 0"
abbreviation P_HELLO :: byte where "P_HELLO \<equiv> 1"
abbreviation P_USERACTIVE :: byte where "P_USERACTIVE \<equiv> 3"
abbreviation P_PEERSTATUS :: byte where "P_PEERSTATUS \<equiv> 6"
abbreviation P_PREFS :: byte where "P_PREFS \<equiv> 7"
abbreviation P_SNADDPEERS :: byte where "P_SNADDPEERS \<equiv> 8"
abbreviation P_SNDELPEERS :: byte where "P_SNDELPEERS \<equiv> 9"
abbreviation P_LASTGREEN :: byte where "P_LASTGREEN \<equiv> 10"
abbreviation P_SNSETPEERS :: byte where "P_SNSETPEERS \<equiv> 12"

abbreviation kProtoVersion :: byte where "kProtoVersion \<equiv> 1"

definition cmdKeepalive :: bytes where "cmdKeepalive = [P_KEEPALIVE]"
definition cmdHello :: "byte \<Rightarrow> bytes" where "cmdHello caps = [P_HELLO, kProtoVersion, caps]"
definition cmdUserActive :: "bool \<Rightarrow> bytes" where "cmdUserActive active = [P_USERACTIVE, if active then 1 else 0]"
definition cmdPrefs :: "Config \<Rightarrow> bytes" where "cmdPrefs c = P_PREFS # le16 (toCode c)"
definition cmdLastGreen :: "Id \<Rightarrow> bytes" where "cmdLastGreen u = P_LASTGREEN # le64 u"

text \<open>The list of peers, behind the sequence number and their number.\<close>

definition cmdPeers :: "byte \<Rightarrow> Id \<Rightarrow> Id list \<Rightarrow> bytes" where
  "cmdPeers op scsn peers = op # le64 scsn @ le32 (word_of_nat (length peers)) @ concat (map le64 peers)"

section \<open>Received commands\<close>

text \<open>One command: the reading ends with an exception that the loop catches, an unknown opcode ends it.\<close>

datatype PresCmd = PKeepalive | PPeerStatus Presence Id | PPrefs "u16 option" | PLastGreen Id u16

text \<open>
  \<open>OP_PREFS\<close> completes the login before its two bytes are read: it is a command even when they are missing.
\<close>

definition decPres :: "bytes \<Rightarrow> nat \<Rightarrow> (PresCmd \<times> nat) option" where
  "decPres buf pos =
    (case read8 buf pos of Inl _ \<Rightarrow> None | Inr op \<Rightarrow>
      (if op = P_KEEPALIVE then Some (PKeepalive, pos + 1)
       else if op = P_PEERSTATUS then
         (case thenD READ_8 (\<lambda>p. thenD READ_ID (\<lambda>u. doneD (PPeerStatus p u))) buf (pos + 1) of Inl _ \<Rightarrow> None | Inr r \<Rightarrow> Some r)
       else if op = P_PREFS then
         (case READ_16 buf (pos + 1) of Inl _ \<Rightarrow> Some (PPrefs None, pos + 1) | Inr (w, pos') \<Rightarrow> Some (PPrefs (Some w), pos'))
       else if op = P_LASTGREEN then
         (case thenD READ_ID (\<lambda>u. thenD READ_16 (\<lambda>m. doneD (PLastGreen u m))) buf (pos + 1) of Inl _ \<Rightarrow> None | Inr r \<Rightarrow> Some r)
       else None))"

definition isCut :: "PresCmd \<Rightarrow> bool" where
  "isCut c = (case c of PPrefs None \<Rightarrow> True | _ \<Rightarrow> False)"

text \<open>The commands of a frame, in order; every round reads at least one byte.\<close>

primrec presCmds :: "nat \<Rightarrow> bytes \<Rightarrow> nat \<Rightarrow> PresCmd list" where
  "presCmds 0 buf pos = []"
| "presCmds (Suc n) buf pos =
    (if pos < length buf
     then (case decPres buf pos of None \<Rightarrow> []
           | Some (c, pos') \<Rightarrow> c # (if isCut c then [] else presCmds n buf pos'))
     else [])"

section \<open>The preferences on the wire\<close>

lemma packTimeout_expand: "0 \<le> t \<Longrightarrow> packTimeout (expandTimeout t) = t"
  by (simp add: packTimeout_def expandTimeout_def)

lemma expandTimeout_pack: "expandTimeout (packTimeout t) = (if t > 600 then 600 + (t - 600) div 60 * 60 else t)"
  by (auto simp: packTimeout_def expandTimeout_def)

lemma low2_cases: "(w :: u16) AND 3 = 0 \<or> w AND 3 = 1 \<or> w AND 3 = 2 \<or> w AND 3 = 3"
proof -
  have "uint (w AND 3) = uint w mod 4"
    using take_bit_eq_mask [of 2 "uint w"] by (simp add: unsigned_and_eq take_bit_eq_mod mask_eq_exp_minus_1)
  moreover have "0 \<le> uint w mod 4" "uint w mod 4 < 4" by simp_all
  ultimately have "uint (w AND 3) \<in> {0, 1, 2, 3}" by auto
  then show ?thesis by (auto simp: word_uint_eq_iff)
qed

lemma code_bits:
  fixes w :: u16
  shows "(ucast (presCode (ucast (w AND 3) + 1)) - 1) AND 3 = w AND 3"
  using low2_cases [of w] by (auto simp: presCode_def)

lemma one_bit: "n < 16 \<Longrightarrow> (w :: u16) AND 2 ^ n = (if bit w n then 2 ^ n else 0)"
  by (rule bit_word_eqI) (auto simp: bit_simps)

lemma timeout_bits: "push_bit 4 (drop_bit 4 w) AND 0x7ff0 = (w :: u16) AND 0x7ff0"
proof -
  have "push_bit 4 (drop_bit 4 w) AND push_bit 4 (mask 11) = w AND push_bit 4 (mask 11)"
    by (rule bit_word_eqI) (auto simp: bit_simps)
  then show ?thesis by (simp add: mask_eq_exp_minus_1)
qed

lemma disjoint_bits:
  fixes t :: u16
  shows "push_bit 4 t AND 3 = 0" "push_bit 4 t AND 4 = 0" "push_bit 4 t AND 8 = 0"
    "drop_bit 4 (push_bit 4 t AND 0x7fff) = t AND 0x7ff"
proof -
  have z: "push_bit 4 t AND mask 4 = 0" and "drop_bit 4 (push_bit 4 t AND mask 15) = t AND mask 11"
    by (auto intro!: bit_word_eqI simp: bit_simps)
  then show "drop_bit 4 (push_bit 4 t AND 0x7fff) = t AND 0x7ff" by (simp add: mask_eq_exp_minus_1)
  have "push_bit 4 t AND m = 0" if "m = mask 4 AND m" for m
    by (subst that) (simp add: and.assoc [symmetric] z)
  then show "push_bit 4 t AND 3 = 0" "push_bit 4 t AND 4 = 0" "push_bit 4 t AND 8 = 0"
    by (simp_all add: mask_eq_exp_minus_1)
qed

lemma all_bits: "(w :: u16) AND 0xffff = w"
proof -
  have "(0xffff :: u16) = - 1" by simp
  then show ?thesis by (simp only: bit.conj_one_right)
qed

lemma toCode_fromCode:
  "toCode (fromCode w) = w"
proof -
  have "toCode (fromCode w) = (w AND 3) OR (w AND 4) OR (w AND 8) OR (w AND 0x7ff0) OR (w AND 0x8000)"
    using one_bit [of 2 w] one_bit [of 3 w] one_bit [of 15 w]
    by (simp add: toCode_def fromCode_def code_bits packTimeout_expand)
      (simp add: timeout_bits)
  also have "\<dots> = w AND (3 OR 4 OR 8 OR 0x7ff0 OR 0x8000)"
    by (simp only: bit.conj_disj_distrib or.assoc)
  also have "\<dots> = w" by (simp add: all_bits)
  finally show ?thesis .
qed

lemma fields_of_toCode:
  assumes "presCode (cfPresence c) \<in> {kOffline, kAway, kOnline, kBusy}" "0 \<le> cfAutoawayTimeout c" "cfAutoawayTimeout c \<le> kMaxAutoawayTimeout"
  shows "ucast (toCode c AND 3) + 1 = presCode (cfPresence c)" "toCode c AND 4 = (if cfPersist c then 4 else 0)"
    "toCode c AND 8 = (if cfAutoawayActive c then 0 else 8)"
    "uint (drop_bit 4 (toCode c AND NOT kLastGreenVisibleMask)) = packTimeout (cfAutoawayTimeout c)"
    "toCode c AND kLastGreenVisibleMask = (if cfLastGreenVisible c then 0 else kLastGreenVisibleMask)"
proof -
  show "ucast (toCode c AND 3) + 1 = presCode (cfPresence c)" "toCode c AND 4 = (if cfPersist c then 4 else 0)"
    "toCode c AND 8 = (if cfAutoawayActive c then 0 else 8)"
    using assms(1) by (auto simp: toCode_def bit.conj_disj_distrib2 disjoint_bits)
  let ?t = "packTimeout (cfAutoawayTimeout c)"
  have t: "0 \<le> ?t" "?t < 2048" using assms(2,3) by (auto simp: packTimeout_def)
  have u: "uint (word_of_int ?t :: u16) = ?t" using t by (simp add: uint_word_of_int take_bit_eq_mod)
  have m: "word_of_int ?t AND 0x7ff = (word_of_int ?t :: u16)"
  proof -
    have "?t AND mask 11 = ?t" using t by (simp flip: take_bit_eq_mask add: take_bit_eq_mod)
    then show ?thesis by (simp add: word_uint_eq_iff u unsigned_and_eq mask_eq_exp_minus_1)
  qed
  have p: "push_bit 4 (word_of_int ?t :: u16) AND 0x8000 = 0"
  proof -
    have "push_bit 4 (word_of_int ?t :: u16) = push_bit 4 (word_of_int ?t AND 0x7ff)" by (simp only: m)
    also have "\<dots> = push_bit 4 (word_of_int ?t) AND 0x7ff0" by (simp add: push_bit_and)
    finally have "push_bit 4 (word_of_int ?t :: u16) AND 0x8000 = (push_bit 4 (word_of_int ?t) AND 0x7ff0) AND 0x8000"
      by (rule arg_cong [where f = "\<lambda>x. x AND 0x8000"])
    then show ?thesis by (simp only: and.assoc) simp
  qed
  show "toCode c AND kLastGreenVisibleMask = (if cfLastGreenVisible c then 0 else kLastGreenVisibleMask)"
    using assms(1) by (auto simp: toCode_def bit.conj_disj_distrib2 p)
  have q: "drop_bit 4 (push_bit 4 (word_of_int ?t :: u16)) AND 0x7ff = word_of_int ?t"
    using disjoint_bits(4) [of "word_of_int ?t"] m by (simp add: drop_bit_and)
  have "drop_bit 4 ((ucast (presCode (cfPresence c)) - ucast kOffline) AND 3 :: u16) = 0"
    "drop_bit 4 (if cfPersist c then 4 else 0 :: u16) = 0" "drop_bit 4 (if cfAutoawayActive c then 0 else 8 :: u16) = 0"
    "drop_bit 4 (if cfLastGreenVisible c then 0 else kLastGreenVisibleMask) AND 0x7ff = 0"
    using assms(1) by auto
  then have "drop_bit 4 (toCode c) AND 0x7ff = (word_of_int ?t :: u16)"
    by (simp only: toCode_def drop_bit_or bit.conj_disj_distrib2 q or.left_neutral or.right_neutral bit.conj_zero_left)
  moreover have "drop_bit 4 (toCode c AND NOT kLastGreenVisibleMask) = drop_bit 4 (toCode c) AND 0x7ff"
    by (simp add: drop_bit_and)
  ultimately have "drop_bit 4 (toCode c AND NOT kLastGreenVisibleMask) = (word_of_int ?t :: u16)" by simp
  then show "uint (drop_bit 4 (toCode c AND NOT kLastGreenVisibleMask)) = ?t" by (simp only: u)
qed

text \<open>
  Whatever sixteen bits the server sends, the preferences read from them are sent as the same bits, so
  an acknowledgement is recognised; and preferences with a status and a timeout in the allowed range are
  read back as they were, the timeout above ten minutes rounded down to a minute.
\<close>

theorem prefs_roundtrip:
  assumes "presCode (cfPresence c) \<in> {kOffline, kAway, kOnline, kBusy}" "0 \<le> cfAutoawayTimeout c"
    "cfAutoawayTimeout c \<le> kMaxAutoawayTimeout"
  shows "toCode (fromCode w) = w \<and>
    fromCode (toCode c) = c\<lparr>cfPresence := presCode (cfPresence c),
      cfAutoawayTimeout := (if cfAutoawayTimeout c > 600 then 600 + (cfAutoawayTimeout c - 600) div 60 * 60 else cfAutoawayTimeout c)\<rparr>"
proof -
  have "fromCode (toCode c) = \<lparr>cfPresence = presCode (cfPresence c), cfPersist = cfPersist c, cfAutoawayActive = cfAutoawayActive c,
      cfAutoawayTimeout = expandTimeout (packTimeout (cfAutoawayTimeout c)), cfLastGreenVisible = cfLastGreenVisible c\<rparr>"
    unfolding fromCode_def using fields_of_toCode [OF assms] by (simp only: if_split) auto
  then show ?thesis by (cases c) (simp add: toCode_fromCode expandTimeout_pack)
qed

theorem prefs_roundtrip_witness:
  "toCode (fromCode 0x3a5f) = 0x3a5f \<and>
   fromCode (toCode \<lparr>cfPresence = 0x83, cfPersist = True, cfAutoawayActive = True, cfAutoawayTimeout = 700, cfLastGreenVisible = False\<rparr>) =
     \<lparr>cfPresence = kOnline, cfPersist = True, cfAutoawayActive = True, cfAutoawayTimeout = 660, cfLastGreenVisible = False\<rparr>"
  using prefs_roundtrip [where w = "0x3a5f" and c = "\<lparr>cfPresence = 0x83, cfPersist = True, cfAutoawayActive = True, cfAutoawayTimeout = 700, cfLastGreenVisible = False\<rparr>"]
  by (simp add: presCode_def)

end
