(* ===== verification/PresClient.thy ===== *)
theory PresClient
  imports PresConfig DnsCache RetryHandler
begin

text \<open>
  The client of the presence server, \<open>presenced::Client\<close> of \<open>src/presenced.h\<close> and \<open>src/presenced.cpp\<close>: its
  connection, which the retry controller and the address cache drive, the preferences, the peers and
  the commands received.

  What is outside is an argument (the time, the application's state, whether a name lookup can be started,
  a socket opened or a message sent) or an event of its own (answers of the API and of the name lookup,
  the socket's and the timers' callbacks).  Outputs are recorded in order.  An assertion that fails is
  recorded and the code goes on, as a release build does.  The callbacks of the listener do not call
  back, and an exception they throw is caught.
\<close>

section \<open>State\<close>

datatype ConnState = kConnNew | kFetchingUrl | kDisconnected | kResolving | kConnecting | kConnected | kLoggedIn

primrec connVal :: "ConnState \<Rightarrow> nat" where
  "connVal kConnNew = 0"
| "connVal kFetchingUrl = 1"
| "connVal kDisconnected = 2"
| "connVal kResolving = 3"
| "connVal kConnecting = 4"
| "connVal kConnected = 5"
| "connVal kLoggedIn = 6"

lemma connVal_inj [simp]: "connVal a = connVal b \<longleftrightarrow> a = b"
  by (cases a; cases b) simp_all

instantiation ConnState :: linorder
begin

definition less_eq_ConnState :: "ConnState \<Rightarrow> ConnState \<Rightarrow> bool" where
  "less_eq_ConnState a b \<longleftrightarrow> connVal a \<le> connVal b"

definition less_ConnState :: "ConnState \<Rightarrow> ConnState \<Rightarrow> bool" where
  "less_ConnState a b \<longleftrightarrow> connVal a < connVal b"

instance
  by standard (auto simp: less_eq_ConnState_def less_ConnState_def)

end

lemmas conn_order = less_eq_ConnState_def less_ConnState_def

text \<open>\<open>MegaUser::VISIBILITY_*\<close>, of the MEGA SDK.\<close>

datatype Visibility = VisUnknown | VisHidden | VisVisible | VisInactive | VisBlocked

datatype PromState = PromPending | PromResolved | PromRejected

text \<open>Why the URL of the server was asked for: the code that continues when it arrives.\<close>

datatype Fetch = FetchConnect | FetchRetry | FetchClose

text \<open>A name lookup: the controller and the attempt that started it, and whether addresses were cached.\<close>

record DnsReq =
  drGen :: nat
  drAttempt :: nat
  drCached :: bool

text \<open>Where an assertion is: in the connection's code, in the code of the peers or at the late answer to a name lookup.\<close>

datatype AssertAt = AtConn | AtPeers | AtLateLookup

datatype (plugins only: code) PresOut = PConnState ConnState | PPresence Id Presence bool | PConfigChanged Config bool | PLastGreenUpdated Id
  | PSent bytes | PConnectTo string Url | PWsDisconnect | PGetUrl | PResolveHost string | PStat nat | PRet bool | PAssert AssertAt

text \<open>Calls marshalled from the SDK's thread.\<close>

datatype Marshalled = MUsers Id "(Id \<times> Visibility) list" | MNodes Id "(Id \<times> Visibility) list"

record PC =
  pcState :: ConnState
  pcHeartbeat :: bool
  pcTargetIp :: string
  pcIpv6 :: bool
  pcRetry :: "(nat \<times> RC) option"
  pcGen :: nat
  pcPromise :: PromState
  pcPromFor :: "(nat \<times> nat) option"
  pcTimer :: bool
  pcFetching :: bool
  pcFetches :: "Fetch list"
  pcDnsReqs :: "DnsReq list"
  pcWs :: bool
  pcLastSentActive :: bool
  pcTsActivity :: int
  pcTsPing :: int
  pcTsRecv :: int
  pcTsSend :: int
  pcTsConn :: int
  pcConnCount :: nat
  pcConfig :: Config
  pcAckWait :: bool
  pcPeers :: "Id \<Rightarrow> Presence option"
  pcLastGreen :: "Id \<Rightarrow> int option"
  pcContacts :: "(Id \<times> Visibility) list"
  pcScsn :: Id
  pcDns :: DnsCache
  pcMarsh :: "Marshalled list"
  pcOut :: "PresOut list"

record PEnv =
  peNow :: int
  peTerminated :: bool
  peAnonymous :: bool
  peBackground :: bool
  peInCall :: bool
  peMyHandle :: Id
  peCaps :: byte
  peResolveFails :: bool
  peConnect1 :: bool
  peConnect2 :: bool
  peSend :: bool

type_synonym pstep = "PC step"

abbreviation kPresencedShard :: int where "kPresencedShard \<equiv> - 1"
abbreviation kKeepaliveSendInterval :: int where "kKeepaliveSendInterval \<equiv> 25"
abbreviation kKeepaliveReplyTimeout :: int where "kKeepaliveReplyTimeout \<equiv> 15"
abbreviation kMaxConnSucceededTimeframe :: int where "kMaxConnSucceededTimeframe \<equiv> 30"
abbreviation kMaxConnSuceeded :: nat where "kMaxConnSuceeded \<equiv> 16"

definition newPresClient :: "int \<Rightarrow> DnsCache \<Rightarrow> PC" where
  "newPresClient now dns = \<lparr>pcState = kConnNew, pcHeartbeat = False, pcTargetIp = [], pcIpv6 = False, pcRetry = None, pcGen = 0,
     pcPromise = PromPending, pcPromFor = None, pcTimer = False, pcFetching = False, pcFetches = [], pcDnsReqs = [], pcWs = False,
     pcLastSentActive = False, pcTsActivity = 0, pcTsPing = 0, pcTsRecv = 0, pcTsSend = 0, pcTsConn = now, pcConnCount = 0,
     pcConfig = defaultConfig, pcAckWait = False, pcPeers = (\<lambda>_. None), pcLastGreen = (\<lambda>_. None), pcContacts = [],
     pcScsn = Id_inval, pcDns = dns, pcMarsh = [], pcOut = []\<rparr>"

definition outP :: "PresOut \<Rightarrow> pstep" where
  "outP x = modS (\<lambda>s. s\<lparr>pcOut := pcOut s @ [x]\<rparr>)"

definition assertAt :: "AssertAt \<Rightarrow> (PC \<Rightarrow> bool) \<Rightarrow> pstep" where
  "assertAt loc b = whenS (\<lambda>s. \<not> b s) [outP (PAssert loc)]"

abbreviation assertP :: "(PC \<Rightarrow> bool) \<Rightarrow> pstep" where
  "assertP \<equiv> assertAt AtConn"

definition isOnline :: "PC \<Rightarrow> bool" where
  "isOnline s \<longleftrightarrow> kConnected \<le> pcState s"

definition validUrl :: "PC \<Rightarrow> bool" where
  "validUrl s \<longleftrightarrow> isValidUrl (pcDns s) kPresencedShard"

definition resetConnSuceededAttempts :: "int \<Rightarrow> pstep" where
  "resetConnSuceededAttempts t = modS (\<lambda>s. s\<lparr>pcTsConn := t, pcConnCount := 0\<rparr>)"

section \<open>Sending\<close>

text \<open>\<open>wsSendMessage\<close> asserts that there is a socket.\<close>

definition sendCommand :: "PEnv \<Rightarrow> bytes \<Rightarrow> (bool \<Rightarrow> pstep) \<Rightarrow> pstep" where
  "sendCommand env buf k = ifS isOnline
     [readS pcWs (\<lambda>ws. doS [outP (if ws then PSent buf else PAssert AtConn), modS (\<lambda>s. s\<lparr>pcTsSend := peNow env\<rparr>),
        readS isOnline (\<lambda>on. k (ws \<and> peSend env \<and> on))])]
     [k False]"

definition sendIgnored :: "PEnv \<Rightarrow> bytes \<Rightarrow> pstep" where
  "sendIgnored env buf = sendCommand env buf (\<lambda>_. doS [])"

definition configChanged :: "PEnv \<Rightarrow> pstep" where
  "configChanged env = readS (\<lambda>s. s) (\<lambda>s. doS [outP (PConfigChanged (pcConfig s) (pcAckWait s)),
     outP (PPresence (peMyHandle env) (cfPresence (pcConfig s)) (pcAckWait s))])"

definition sendPrefs :: "PEnv \<Rightarrow> (bool \<Rightarrow> pstep) \<Rightarrow> pstep" where
  "sendPrefs env k = doS [modS (\<lambda>s. s\<lparr>pcAckWait := True\<rparr>), configChanged env,
     readS pcConfig (\<lambda>c. sendCommand env (cmdPrefs c) k)]"

definition sendUserActive :: "PEnv \<Rightarrow> bool \<Rightarrow> bool \<Rightarrow> pstep" where
  "sendUserActive env active force = ifS (\<lambda>s. active = pcLastSentActive s \<and> \<not> force) []
     [sendCommand env (cmdUserActive active) (\<lambda>sent. if sent then modS (\<lambda>s. s\<lparr>pcLastSentActive := active\<rparr>) else doS [])]"

definition sendKeepalive :: "PEnv \<Rightarrow> (bool \<Rightarrow> pstep) \<Rightarrow> pstep" where
  "sendKeepalive env k = doS [modS (\<lambda>s. s\<lparr>pcTsPing := peNow env\<rparr>), sendCommand env cmdKeepalive k]"

definition scsnValid :: "PC \<Rightarrow> bool" where
  "scsnValid s \<longleftrightarrow> pcScsn s \<noteq> Id_inval"

definition pushPeers :: "PEnv \<Rightarrow> pstep" where
  "pushPeers env = whenS scsnValid [readS (\<lambda>s. s) (\<lambda>s. sendIgnored env (cmdPeers P_SNSETPEERS (pcScsn s) (map fst (pcContacts s))))]"

definition presLogin :: "PEnv \<Rightarrow> pstep" where
  "presLogin env = doS [sendIgnored env (cmdHello (peCaps env)),
     whenS pcAckWait [sendPrefs env (\<lambda>_. doS [])],
     whenS scsnValid [pushPeers env]]"

section \<open>Peers\<close>

definition contactVis :: "Id \<Rightarrow> PC \<Rightarrow> Visibility option" where
  "contactVis u s = map_of (pcContacts s) u"

definition isContact :: "Id \<Rightarrow> PC \<Rightarrow> bool" where
  "isContact u s \<longleftrightarrow> contactVis u s \<noteq> None"

definition isExContact :: "Id \<Rightarrow> PC \<Rightarrow> bool" where
  "isExContact u s \<longleftrightarrow> contactVis u s = Some VisHidden"

definition peerPresence :: "Id \<Rightarrow> PC \<Rightarrow> Presence" where
  "peerPresence u s = (case pcPeers s u of None \<Rightarrow> kUnknown | Some p \<Rightarrow> p)"

definition updatePeerPresence :: "PEnv \<Rightarrow> Id \<Rightarrow> Presence \<Rightarrow> pstep" where
  "updatePeerPresence env peer pres =
     ifS (\<lambda>s. case pcPeers s peer of None \<Rightarrow> False | Some p \<Rightarrow> presEq p pres) []
      [modS (\<lambda>s. s\<lparr>pcPeers := (pcPeers s)(peer \<mapsto> pres)\<rparr>),
       whenS (\<lambda>s. peer = peMyHandle env \<or> (isContact peer s \<and> \<not> isExContact peer s)
           \<or> (isExContact peer s \<and> presCode pres = kUnknown))
         [outP (PPresence peer pres False)]]"

definition addPeers :: "PEnv \<Rightarrow> Id list \<Rightarrow> pstep" where
  "addPeers env peers = (if peers = [] \<or> peAnonymous env then doS [] else doS [
     assertAt AtPeers scsnValid,
     forS peers (\<lambda>p. assertAt AtPeers (\<lambda>s. contactVis p s = Some VisVisible)),
     readS pcScsn (\<lambda>sn. sendIgnored env (cmdPeers P_SNADDPEERS sn peers))])"

definition removePeers :: "PEnv \<Rightarrow> Id list \<Rightarrow> pstep" where
  "removePeers env peers = (if peers = [] \<or> peAnonymous env then doS [] else doS [
     assertAt AtPeers scsnValid,
     readS pcScsn (\<lambda>sn. doS [
       forS peers (\<lambda>p. doS [
         assertAt AtPeers (\<lambda>s. contactVis p s = None \<or> contactVis p s = Some VisHidden),
         modS (\<lambda>s. s\<lparr>pcLastGreen := (pcLastGreen s)(p := None)\<rparr>),
         updatePeerPresence env p kUnknown]),
       sendIgnored env (cmdPeers P_SNDELPEERS sn peers)])])"

text \<open>\<open>mContacts\<close> is a map by handle.\<close>

definition putContact :: "Id \<Rightarrow> Visibility \<Rightarrow> (Id \<times> Visibility) list \<Rightarrow> (Id \<times> Visibility) list" where
  "putContact u v cs = insort_key fst (u, v) (filter (\<lambda>(x, _). x \<noteq> u) cs)"

definition delContact :: "Id \<Rightarrow> (Id \<times> Visibility) list \<Rightarrow> (Id \<times> Visibility) list" where
  "delContact u cs = filter (\<lambda>(x, _). x \<noteq> u) cs"

text \<open>The change of one user: the new contacts, and whether it is added to or removed from the peers.\<close>

definition userUpdate :: "Id \<times> Visibility \<Rightarrow> (Id \<times> Visibility) list \<Rightarrow> (Id \<times> Visibility) list \<times> Id list \<times> Id list" where
  "userUpdate uv cs = (case uv of (u, newVis) \<Rightarrow>
     (case map_of cs u of
        None \<Rightarrow> (putContact u newVis cs, if newVis = VisVisible then [u] else [], [])
      | Some oldVis \<Rightarrow>
          (if newVis = VisInactive then (delContact u cs, [], if oldVis = VisVisible then [u] else [])
           else (putContact u newVis cs,
             if oldVis = VisHidden \<and> newVis = VisVisible then [u] else [],
             if oldVis = VisVisible \<and> newVis = VisHidden then [u] else []))))"

primrec usersUpdate :: "Id \<Rightarrow> (Id \<times> Visibility) list \<Rightarrow> (Id \<times> Visibility) list \<Rightarrow> (Id \<times> Visibility) list \<times> Id list \<times> Id list" where
  "usersUpdate me [] cs = (cs, [], [])"
| "usersUpdate me (uv # us) cs =
    (if fst uv = me then usersUpdate me us cs
     else case userUpdate uv cs of (cs', a, d) \<Rightarrow>
       (case usersUpdate me us cs' of (cs'', as, ds) \<Rightarrow> (cs'', a @ as, d @ ds)))"

text \<open>On the SDK's thread: \<open>None\<close> is the list that is sent when nothing changed.\<close>

definition onUsersUpdate :: "Id \<Rightarrow> (Id \<times> Visibility) list option \<Rightarrow> pstep" where
  "onUsersUpdate scsn users = whenS scsnValid [
     (case users of None \<Rightarrow> doS [] | Some us \<Rightarrow> modS (\<lambda>s. s\<lparr>pcMarsh := pcMarsh s @ [MUsers scsn us]\<rparr>))]"

definition onNodesCurrent :: "Id \<Rightarrow> (Id \<times> Visibility) list \<Rightarrow> pstep" where
  "onNodesCurrent scsn contacts = modS (\<lambda>s. s\<lparr>pcScsn := Id_inval, pcContacts := [], pcMarsh := pcMarsh s @ [MNodes scsn contacts]\<rparr>)"

definition usersUpdated :: "PEnv \<Rightarrow> Id \<Rightarrow> (Id \<times> Visibility) list \<Rightarrow> pstep" where
  "usersUpdated env scsn users = whenS scsnValid [
     modS (\<lambda>s. s\<lparr>pcScsn := scsn\<rparr>),
     readS pcContacts (\<lambda>cs. case usersUpdate (peMyHandle env) users cs of (cs', as, ds) \<Rightarrow> doS [
       modS (\<lambda>s. s\<lparr>pcContacts := cs'\<rparr>), addPeers env as, removePeers env ds])]"

definition nodesCurrent :: "PEnv \<Rightarrow> Id \<Rightarrow> (Id \<times> Visibility) list \<Rightarrow> pstep" where
  "nodesCurrent env scsn contacts = doS [
     assertAt AtPeers (\<lambda>s. \<not> scsnValid s), assertAt AtPeers (\<lambda>s. pcContacts s = []),
     modS (\<lambda>s. s\<lparr>pcScsn := scsn,
       pcContacts := fold (\<lambda>(u, v) cs. if u = peMyHandle env then cs else putContact u v cs) contacts []\<rparr>),
     pushPeers env]"

definition runMarshalled :: "PEnv \<Rightarrow> pstep" where
  "runMarshalled env = readS pcMarsh (\<lambda>ms. case ms of [] \<Rightarrow> doS [] | m # rest \<Rightarrow> doS [
     modS (\<lambda>s. s\<lparr>pcMarsh := rest\<rparr>),
     (case m of MUsers sn us \<Rightarrow> usersUpdated env sn us | MNodes sn cs \<Rightarrow> nodesCurrent env sn cs)])"

end
