(* ===== verification/PresConn.thy ===== *)
theory PresConn
  imports PresClient
begin

text \<open>
  The connection of the presence client: its states, the retry controller's attempts, the name lookup, the
  socket and the timers, and the commands received.

  \<open>onSocketClose\<close>, \<open>reconnect\<close>, an attempt and \<open>doConnect\<close> call each other: \<open>onSocketClose\<close> takes what it
  calls to reconnect, and \<open>doConnect\<close>, which closes the socket of a state that never reconnects at once,
  gives it an unreachable step.  \<open>retryPendingConnection\<close> calls itself when the URL needs no request; it is
  given a depth.
\<close>

section \<open>The connect promise and the retry controller\<close>

definition rcSet :: "nat \<Rightarrow> (RC \<Rightarrow> rcResult) \<Rightarrow> PC \<Rightarrow> PC" where
  "rcSet g f s = (case pcRetry s of None \<Rightarrow> s | Some (g', c) \<Rightarrow>
     if g' = g then (case f c of Inl _ \<Rightarrow> s | Inr (c', _) \<Rightarrow> s\<lparr>pcRetry := Some (g, c')\<rparr>) else s)"

text \<open>A settled promise cannot be settled again.\<close>

definition connectReject :: pstep where
  "connectReject = ifS (\<lambda>s. pcPromise s = PromPending)
     [modS (\<lambda>s. s\<lparr>pcPromise := PromRejected\<rparr>),
      readS pcPromFor (\<lambda>p. case p of None \<Rightarrow> doS [] | Some (g, i) \<Rightarrow> modS (rcSet g (\<lambda>c. onFail c i ''connect'' 0)))]
     [throwS (RuntimeError ''Already settled'')]"

definition connectResolve :: "PEnv \<Rightarrow> pstep" where
  "connectResolve env = ifS (\<lambda>s. pcPromise s = PromPending)
     [modS (\<lambda>s. s\<lparr>pcPromise := PromResolved\<rparr>),
      readS pcPromFor (\<lambda>p. case p of None \<Rightarrow> doS [] | Some (g, i) \<Rightarrow> doS [
        assertP isOnline,
        modS (\<lambda>s. s\<lparr>pcTsPing := 0, pcTsRecv := peNow env, pcHeartbeat := True\<rparr>),
        presLogin env,
        modS (rcSet g (\<lambda>c. onSuccess c i))])]
     [throwS (RuntimeError ''Already settled'')]"

definition retryWaiting :: "PC \<Rightarrow> bool" where
  "retryWaiting s = (case pcRetry s of None \<Rightarrow> False | Some (g, c) \<Rightarrow> mState c = kStateRetryWait)"

definition delayPending :: "PC \<Rightarrow> bool" where
  "delayPending s = (case pcRetry s of None \<Rightarrow> False | Some (g, c) \<Rightarrow> mTimer c = DelayTimer)"

lemma retry_iff [simp]:
  "retryWaiting s \<longleftrightarrow> (\<exists>g c. pcRetry s = Some (g, c) \<and> mState c = kStateRetryWait)"
  "delayPending s \<longleftrightarrow> (\<exists>g c. pcRetry s = Some (g, c) \<and> mTimer c = DelayTimer)"
  by (auto simp: retryWaiting_def delayPending_def split: option.split)

section \<open>Connection states\<close>

definition onDisconnected :: "PEnv \<Rightarrow> pstep" where
  "onDisconnected env = doS [
     modS (\<lambda>s. s\<lparr>pcHeartbeat := False\<rparr>),
     whenS pcWs [outP PWsDisconnect, modS (\<lambda>s. s\<lparr>pcWs := False\<rparr>)],
     modS (\<lambda>s. s\<lparr>pcTimer := \<not> peTerminated env\<rparr>),
     readS pcContacts (\<lambda>cs. forS cs (\<lambda>(u, _). updatePeerPresence env u kUnknown)),
     updatePeerPresence env (peMyHandle env) kUnknown]"

definition onConnected :: "PEnv \<Rightarrow> pstep" where
  "onConnected env = doS [
     modS (\<lambda>s. s\<lparr>pcDns := connectDone (nat (peNow env)) kPresencedShard (pcTargetIp s) (pcDns s)\<rparr>),
     assertP (\<lambda>s. pcPromise s = PromPending),
     connectResolve env,
     modS (\<lambda>s. s\<lparr>pcRetry := None, pcTimer := False\<rparr>)]"

definition setConnState :: "PEnv \<Rightarrow> ConnState \<Rightarrow> pstep" where
  "setConnState env new = ifS (\<lambda>s. pcState s = new) []
     [modS (\<lambda>s. s\<lparr>pcState := new\<rparr>), outP (PConnState new),
      (if new = kDisconnected then onDisconnected env else if new = kConnected then onConnected env else doS [])]"

definition abortRetryController :: pstep where
  "abortRetryController = whenS (\<lambda>s. pcRetry s \<noteq> None) [assertP (\<lambda>s. \<not> isOnline s), modS (\<lambda>s. s\<lparr>pcRetry := None\<rparr>)]"

definition onSocketCloseG :: "PEnv \<Rightarrow> pstep \<Rightarrow> pstep" where
  "onSocketCloseG env recon =
    (if peTerminated env then doS [] else
     ifS (\<lambda>s. pcState s = kDisconnected) [whenS (\<lambda>s. pcRetry s = None) [outP (PStat 99013), recon]]
     [whenS (\<lambda>s. pcState s \<noteq> kFetchingUrl) [readS pcState (\<lambda>old. doS [
        setConnState env kDisconnected,
        modS (\<lambda>s. s\<lparr>pcIpv6 := \<not> pcIpv6 s, pcTargetIp := []\<rparr>),
        (if kConnected \<le> old then doS [assertP (\<lambda>s. pcRetry s = None), recon]
         else doS [assertP (\<lambda>s. pcRetry s \<noteq> None), assertP (\<lambda>s. pcPromise s \<noteq> PromResolved),
                   whenS (\<lambda>s. pcPromise s = PromPending) [connectReject]])])]])"

section \<open>Connecting\<close>

definition wsConnect :: "string \<Rightarrow> Url \<Rightarrow> bool \<Rightarrow> pstep" where
  "wsConnect ip url works = doS [
     assertP (\<lambda>s. \<not> pcWs s),
     whenS pcWs [outP (PStat 99010)],
     outP (PConnectTo ip url),
     modS (\<lambda>s. s\<lparr>pcWs := works\<rparr>)]"

definition otherIp :: "string \<Rightarrow> string \<Rightarrow> string \<Rightarrow> string" where
  "otherIp old ipv4 ipv6 = (if old = ipv6 \<and> ipv4 \<noteq> [] then ipv4 else if old = ipv4 \<and> ipv6 \<noteq> [] then ipv6 else [])"

definition doConnect :: "PEnv \<Rightarrow> pstep" where
  "doConnect env = readS (\<lambda>s. getIp (pcDns s) kPresencedShard) (\<lambda>((ipv4, ipv6), cachedIPs). doS [
     assertP (\<lambda>_. cachedIPs),
     modS (\<lambda>s. s\<lparr>pcTargetIp := (if pcIpv6 s \<and> ipv6 \<noteq> [] then ipv6 else ipv4)\<rparr>),
     getS (\<lambda>s. getUrl (pcDns s) kPresencedShard) (\<lambda>url. doS [
       assertP (\<lambda>_. Url_isValid url),
       setConnState env kConnecting,
       readS pcTargetIp (\<lambda>ip. wsConnect ip url (peConnect1 env)),
       (if peConnect1 env then doS [] else readS pcTargetIp (\<lambda>old. doS [
          modS (\<lambda>s. s\<lparr>pcTargetIp := otherIp old ipv4 ipv6\<rparr>),
          (if otherIp old ipv4 ipv6 = [] then doS [] else doS [
             wsConnect (otherIp old ipv4 ipv6) url (peConnect2 env),
             (if peConnect2 env then doS [] else onSocketCloseG env (throwS AssertFail))])]))])])"

text \<open>
  One attempt.  \<open>wsResolveDNS\<close> returns a \<open>bool\<close>, true when the lookup cannot be started, and its result is
  compared with zero as a number.
\<close>

definition resolveStatus :: "PEnv \<Rightarrow> int" where
  "resolveStatus env = (if peResolveFails env then 1 else 0)"

definition presAttempt :: "PEnv \<Rightarrow> nat \<Rightarrow> nat \<Rightarrow> nat \<Rightarrow> pstep" where
  "presAttempt env g attemptNo i = doS [
     setConnState env kDisconnected,
     modS (\<lambda>s. s\<lparr>pcPromise := PromPending, pcPromFor := Some (g, i)\<rparr>),
     getS (\<lambda>s. getUrl (pcDns s) kPresencedShard) (\<lambda>url.
       readS (\<lambda>s. snd (getIp (pcDns s) kPresencedShard)) (\<lambda>cachedIPs. doS [
         setConnState env kResolving,
         outP (PResolveHost (host url)),
         (if peResolveFails env then doS [] else modS (\<lambda>s. s\<lparr>pcDnsReqs := pcDnsReqs s @
            [\<lparr>drGen = g, drAttempt = attemptNo, drCached = cachedIPs\<rparr>]\<rparr>)),
         (if resolveStatus env < 0
          then doS [assertP (\<lambda>s. pcState s = kResolving), assertP (\<lambda>s. pcPromise s = PromPending), connectReject]
          else if cachedIPs then doConnect env else doS [])]))]"

definition calls :: "Action list \<Rightarrow> (nat \<times> nat) list" where
  "calls as = concat (map (\<lambda>a. case a of CallFunc n i \<Rightarrow> [(n, i)] | _ \<Rightarrow> []) as)"

text \<open>An operation of the controller and the attempt it starts.\<close>

definition rcRun :: "PEnv \<Rightarrow> (RC \<Rightarrow> rcResult) \<Rightarrow> pstep" where
  "rcRun env f = readS pcRetry (\<lambda>r. case r of None \<Rightarrow> doS [] | Some (g, c) \<Rightarrow>
     (case f c of Inl e \<Rightarrow> throwS e
      | Inr (c', as) \<Rightarrow> doS [modS (\<lambda>s. s\<lparr>pcRetry := Some (g, c')\<rparr>), forS (calls as) (\<lambda>(n, i). presAttempt env g n i)]))"

definition newController :: RC where
  "newController = newRetryController 1000 10000 5000 0 0 False"

definition presReconnect :: "PEnv \<Rightarrow> pstep" where
  "presReconnect env = (if peTerminated env then outP (PAssert AtConn) else doS [
     assertP (\<lambda>s. \<not> pcHeartbeat s),
     assertP (\<lambda>s. pcRetry s = None),
     tryS (whenS (\<lambda>s. pcState s < kResolving \<and> validUrl s) [
       setConnState env kResolving,
       abortRetryController,
       modS (\<lambda>s. s\<lparr>pcRetry := Some (pcGen s, newController), pcGen := Suc (pcGen s)\<rparr>),
       rcRun env (\<lambda>c. rcStart c 0)])])"

definition onSocketClose :: "PEnv \<Rightarrow> pstep" where
  "onSocketClose env = onSocketCloseG env (presReconnect env)"

definition fetchUrl :: "PEnv \<Rightarrow> Fetch \<Rightarrow> pstep \<Rightarrow> pstep" where
  "fetchUrl env why atOnce = ifS (\<lambda>s. peAnonymous env \<or> validUrl s) [atOnce]
     [setConnState env kFetchingUrl, outP PGetUrl, modS (\<lambda>s. s\<lparr>pcFetches := pcFetches s @ [why]\<rparr>)]"

primrec retryPending :: "nat \<Rightarrow> PEnv \<Rightarrow> bool \<Rightarrow> bool \<Rightarrow> pstep" where
  "retryPending 0 env disconnect refreshURL = throwS OutOfBounds"
| "retryPending (Suc n) env disconnect refreshURL = ifS (\<lambda>s. pcState s = kConnNew) []
     [ifS (\<lambda>s. refreshURL \<or> \<not> validUrl s)
       [whenS (\<lambda>s. \<not> (pcState s = kFetchingUrl \<or> pcFetching s))
         [setConnState env kDisconnected, abortRetryController,
          modS (\<lambda>s. s\<lparr>pcDns := removeRecord kPresencedShard (pcDns s)\<rparr>),
          fetchUrl env FetchRetry (doS [resetConnSuceededAttempts (peNow env), retryPending n env True False])]]
       [if disconnect then doS [setConnState env kDisconnected, abortRetryController, presReconnect env]
        else whenS retryWaiting
          [assertP (\<lambda>s. \<not> isOnline s), assertP (\<lambda>s. \<not> pcHeartbeat s), rcRun env (\<lambda>c. rcRestart c 0)]]]"

text \<open>Unbounded recursion in anonymous mode only; otherwise one call is enough.\<close>

definition retryPendingConnection :: "PEnv \<Rightarrow> bool \<Rightarrow> bool \<Rightarrow> pstep" where
  "retryPendingConnection env = retryPending 2 env"

definition presConnect :: "PEnv \<Rightarrow> pstep" where
  "presConnect env = doS [assertP (\<lambda>s. pcState s = kConnNew), fetchUrl env FetchConnect (presReconnect env)]"

section \<open>Answers\<close>

definition delNth :: "nat \<Rightarrow> 'a list \<Rightarrow> 'a list" where
  "delNth i xs = take i xs @ drop (Suc i) xs"

text \<open>The answer to a request of the URL: \<open>None\<close> for an error, after which nothing is run.  An exception ends the handler only.\<close>

definition dnsS :: "dns_step \<Rightarrow> pstep" where
  "dnsS st s = (case st (pcDns s) of (d, r) \<Rightarrow> (s\<lparr>pcDns := d\<rparr>, r))"

definition onUrl :: "PEnv \<Rightarrow> Fetch \<Rightarrow> string \<Rightarrow> pstep" where
  "onUrl env why url = (case why of
     FetchClose \<Rightarrow> doS [modS (\<lambda>s. s\<lparr>pcFetching := False\<rparr>),
       (if url = [] then doS [] else
        getS (\<lambda>s. Url_parse url) (\<lambda>u. getS (\<lambda>s. getUrl (pcDns s) kPresencedShard) (\<lambda>v.
          if host u = host v then doS [] else doS [
            resetConnSuceededAttempts (peNow env),
            dnsS (updateRecord kPresencedShard url True),
            retryPendingConnection env True False])))]
   | FetchConnect \<Rightarrow> doS [(if url = [] then doS [] else dnsS (addRecord kPresencedShard url None True)), presReconnect env]
   | FetchRetry \<Rightarrow> doS [(if url = [] then doS [] else dnsS (addRecord kPresencedShard url None True)),
       resetConnSuceededAttempts (peNow env), retryPendingConnection env True False])"

definition urlReply :: "PEnv \<Rightarrow> nat \<Rightarrow> string option \<Rightarrow> pstep" where
  "urlReply env i res = readS pcFetches (\<lambda>fs. if i < length fs then doS [
     modS (\<lambda>s. s\<lparr>pcFetches := delNth i fs\<rparr>),
     (case res of None \<Rightarrow> doS [] | Some url \<Rightarrow> tryS (onUrl env (fs ! i) url))] else doS [])"

text \<open>The answer to a name lookup: the status, negative on errors, and the addresses.  \<open>noName\<close> is the code of an unknown host.\<close>

definition onDns :: "PEnv \<Rightarrow> int \<Rightarrow> DnsReq \<Rightarrow> int \<Rightarrow> string list \<Rightarrow> string list \<Rightarrow> pstep" where
  "onDns env noName req status ipsv4 ipsv6 = (if peTerminated env then doS [] else
     readS (\<lambda>s. s) (\<lambda>s. case pcRetry s of
       None \<Rightarrow> if isOnline s then assertAt AtLateLookup (\<lambda>_. drCached req) else doS []
     | Some (g, c) \<Rightarrow>
        if g \<noteq> drGen req \<or> mCurrentAttemptNo c \<noteq> drAttempt req then doS []
        else if status < 0 \<or> (ipsv4 = [] \<and> ipsv6 = [])
        then (if isOnline s \<and> drCached req then outP (PAssert AtConn)
              else doS [assertP (\<lambda>s. \<not> isOnline s),
                (if status = noName then retryPendingConnection env True True
                 else whenS (\<lambda>s. pcState s = kResolving) [onSocketClose env])])
        else if \<not> drCached req
        then doS [dnsS (setIps (nat (peNow env)) kPresencedShard ipsv4 ipsv6), doConnect env]
        else if isMatch (pcDns s) kPresencedShard ipsv4 ipsv6 then doS []
        else doS [dnsS (setIps (nat (peNow env)) kPresencedShard ipsv4 ipsv6), retryPendingConnection env True False]))"

definition dnsReply :: "PEnv \<Rightarrow> int \<Rightarrow> nat \<Rightarrow> int \<Rightarrow> string list \<Rightarrow> string list \<Rightarrow> pstep" where
  "dnsReply env noName i status ipsv4 ipsv6 = readS pcDnsReqs (\<lambda>rs. if i < length rs then doS [
     modS (\<lambda>s. s\<lparr>pcDnsReqs := delNth i rs\<rparr>), onDns env noName (rs ! i) status ipsv4 ipsv6] else doS [])"

section \<open>The socket\<close>

definition wsConnectCb :: "PEnv \<Rightarrow> pstep" where
  "wsConnectCb env = whenS (\<lambda>s. pcState s = kConnecting) [readS (\<lambda>s. s) (\<lambda>s.
     if peNow env - pcTsConn s > kMaxConnSucceededTimeframe
     then doS [resetConnSuceededAttempts (peNow env), setConnState env kConnected]
     else doS [modS (\<lambda>s. s\<lparr>pcConnCount := Suc (pcConnCount s)\<rparr>),
       ifS (\<lambda>s. pcConnCount s > kMaxConnSuceeded)
         [resetConnSuceededAttempts (peNow env), retryPendingConnection env True True]
         [setConnState env kConnected]])]"

definition wsCloseCb :: "PEnv \<Rightarrow> pstep" where
  "wsCloseCb env = ifS (\<lambda>s. pcState s = kFetchingUrl \<or> pcFetching s) [onSocketClose env]
     [modS (\<lambda>s. s\<lparr>pcFetching := True\<rparr>), outP PGetUrl, modS (\<lambda>s. s\<lparr>pcFetches := pcFetches s @ [FetchClose]\<rparr>),
      onSocketClose env]"

definition wsCloseCbPrivate :: "PEnv \<Rightarrow> pstep" where
  "wsCloseCbPrivate env = whenS pcWs [modS (\<lambda>s. s\<lparr>pcWs := False\<rparr>), wsCloseCb env]"

definition wsSSLsessionUpdateCb :: "CachedSession \<Rightarrow> pstep" where
  "wsSSLsessionUpdateCb sess = modS (\<lambda>s. s\<lparr>pcDns := fst (updateTlsSession sess (pcDns s))\<rparr>)"

section \<open>Timers\<close>

definition connectTimeout :: "PEnv \<Rightarrow> pstep" where
  "connectTimeout env = whenS pcTimer [modS (\<lambda>s. s\<lparr>pcTimer := False\<rparr>), outP (PStat 99005), retryPendingConnection env True False]"

definition rcDelayTimer :: "PEnv \<Rightarrow> pstep" where
  "rcDelayTimer env = whenS delayPending [rcRun env onDelayTimer]"

definition rcAttemptTimer :: "PEnv \<Rightarrow> nat \<Rightarrow> pstep" where
  "rcAttemptTimer env rand = readS pcRetry (\<lambda>r. case r of Some (g, c) \<Rightarrow>
     (case mTimer c of AttemptTimer i \<Rightarrow> rcRun env (\<lambda>c. onAttemptTimeout None c i rand) | _ \<Rightarrow> doS []) | None \<Rightarrow> doS [])"

definition presHeartbeat :: "PEnv \<Rightarrow> pstep" where
  "presHeartbeat env = whenS pcHeartbeat [
     whenS (\<lambda>s. autoAwayInEffect (pcConfig s) \<and> pcLastSentActive s
         \<and> peNow env - pcTsActivity s > cfAutoawayTimeout (pcConfig s) \<and> \<not> peInCall env)
       [sendUserActive env False False],
     (let recon = doS [setConnState env kDisconnected, abortRetryController, presReconnect env];
          ping = sendKeepalive env (\<lambda>ok. if ok then doS [] else recon)
      in readS (\<lambda>s. s) (\<lambda>s.
        if peNow env - pcTsSend s > kKeepaliveSendInterval then ping
        else if pcTsPing s \<noteq> 0 then (if peNow env - pcTsPing s > kKeepaliveReplyTimeout then recon else doS [])
        else if peNow env - pcTsRecv s \<ge> kKeepaliveSendInterval then ping
        else doS []))]"

definition presDisconnect :: "PEnv \<Rightarrow> pstep" where
  "presDisconnect env = setConnState env kDisconnected"

section \<open>Preferences and activity\<close>

definition retS :: "bool \<Rightarrow> pstep" where
  "retS b = outP (PRet b)"

definition setPresence :: "PEnv \<Rightarrow> Presence \<Rightarrow> pstep" where
  "setPresence env p = ifS (\<lambda>s. presEq p (cfPresence (pcConfig s))) [retS True]
     [modS (\<lambda>s. s\<lparr>pcConfig := (pcConfig s)\<lparr>cfPresence := p\<rparr>\<rparr>), sendPrefs env retS]"

definition setPersist :: "PEnv \<Rightarrow> bool \<Rightarrow> pstep" where
  "setPersist env b = ifS (\<lambda>s. b = cfPersist (pcConfig s)) [retS True]
     [modS (\<lambda>s. s\<lparr>pcConfig := (pcConfig s)\<lparr>cfPersist := b\<rparr>\<rparr>), sendPrefs env retS]"

definition setLastGreenVisible :: "PEnv \<Rightarrow> bool \<Rightarrow> pstep" where
  "setLastGreenVisible env b = ifS (\<lambda>s. b = cfLastGreenVisible (pcConfig s)) [retS True]
     [modS (\<lambda>s. s\<lparr>pcConfig := (pcConfig s)\<lparr>cfLastGreenVisible := b\<rparr>\<rparr>), sendPrefs env retS]"

definition setAutoaway :: "PEnv \<Rightarrow> bool \<Rightarrow> int \<Rightarrow> pstep" where
  "setAutoaway env enable timeout =
     ifS (\<lambda>s. enable = cfAutoawayActive (pcConfig s) \<and> timeout = cfAutoawayTimeout (pcConfig s)) [retS True]
     [(if enable then modS (\<lambda>s. s\<lparr>pcConfig := (pcConfig s)\<lparr>cfPersist := False, cfPresence := kOnline\<rparr>\<rparr>) else doS []),
      modS (\<lambda>s. s\<lparr>pcConfig := (pcConfig s)\<lparr>cfAutoawayTimeout := timeout, cfAutoawayActive := enable\<rparr>\<rparr>),
      sendPrefs env retS]"

definition requestLastGreen :: "PEnv \<Rightarrow> Id \<Rightarrow> pstep" where
  "requestLastGreen env u = ifS (\<lambda>s. isExContact u s \<or> \<not> isContact u s) [retS False]
     [modS (\<lambda>s. s\<lparr>pcLastGreen := (pcLastGreen s)(u \<mapsto> 0)\<rparr>), sendCommand env (cmdLastGreen u) retS]"

definition getLastGreen :: "Id \<Rightarrow> PC \<Rightarrow> int" where
  "getLastGreen u s = (case pcLastGreen s u of None \<Rightarrow> 0 | Some t \<Rightarrow> t)"

definition updateLastGreen :: "Id \<Rightarrow> int \<Rightarrow> pstep" where
  "updateLastGreen u t = readS (getLastGreen u) (\<lambda>old.
     doS [modS (\<lambda>s. s\<lparr>pcLastGreen := (pcLastGreen s)(u \<mapsto> (if t \<ge> old then t else old))\<rparr>), retS (t \<ge> old)])"

definition signalActivity :: "PEnv \<Rightarrow> pstep" where
  "signalActivity env = whenS (\<lambda>s. autoAwayInEffect (pcConfig s) \<and> \<not> peBackground env)
     [modS (\<lambda>s. s\<lparr>pcTsActivity := peNow env\<rparr>), sendUserActive env True False]"

definition signalInactivity :: "PEnv \<Rightarrow> pstep" where
  "signalInactivity env = whenS (\<lambda>s. autoAwayInEffect (pcConfig s) \<and> peBackground env) [sendUserActive env False False]"

definition notifyUserStatus :: "PEnv \<Rightarrow> pstep" where
  "notifyUserStatus env = (if peBackground env then signalInactivity env else signalActivity env)"

definition isSignalActivityRequired :: "PEnv \<Rightarrow> PC \<Rightarrow> bool" where
  "isSignalActivityRequired env s \<longleftrightarrow> \<not> peBackground env \<and> autoAwayInEffect (pcConfig s)"

definition isConfigAcknowledged :: "PC \<Rightarrow> bool" where
  "isConfigAcknowledged s \<longleftrightarrow> pcAckWait s"

section \<open>Received commands\<close>

definition initialActivity :: "PEnv \<Rightarrow> pstep" where
  "initialActivity env = whenS (\<lambda>s. autoAwayInEffect (pcConfig s)) [
     readS (\<lambda>s. \<not> peBackground env \<and> (pcTsActivity s = 0 \<or> peNow env - pcTsActivity s < cfAutoawayTimeout (pcConfig s)))
      (\<lambda>isActive. doS [
        (if isActive then modS (\<lambda>s. s\<lparr>pcTsActivity := peNow env\<rparr>) else doS []),
        sendUserActive env isActive True])]"

definition onPrefs :: "PEnv \<Rightarrow> u16 option \<Rightarrow> pstep" where
  "onPrefs env prefs = readS (\<lambda>s. pcState s < kLoggedIn) (\<lambda>loginCompleted. doS [
     (if loginCompleted then setConnState env kLoggedIn else doS []),
     (case prefs of None \<Rightarrow> doS [] | Some w \<Rightarrow> doS [
        whenS (\<lambda>s. \<not> (pcAckWait s \<and> w = toCode (pcConfig s)))
          [modS (\<lambda>s. s\<lparr>pcConfig := fromCode w\<rparr>),
           whenS (\<lambda>s. \<not> pcAckWait s \<and> loginCompleted) [initialActivity env]],
        modS (\<lambda>s. s\<lparr>pcAckWait := False\<rparr>),
        configChanged env])])"

definition onLastGreen :: "PEnv \<Rightarrow> Id \<Rightarrow> u16 \<Rightarrow> pstep" where
  "onLastGreen env u m = doS [modS (\<lambda>s. s\<lparr>pcLastGreen := (pcLastGreen s)(u \<mapsto> peNow env - uint m * 60)\<rparr>),
     outP (PLastGreenUpdated u)]"

definition presCommand :: "PEnv \<Rightarrow> PresCmd \<Rightarrow> pstep" where
  "presCommand env c = (case c of
     PKeepalive \<Rightarrow> doS []
   | PPeerStatus p u \<Rightarrow> updatePeerPresence env u p
   | PPrefs w \<Rightarrow> onPrefs env w
   | PLastGreen u m \<Rightarrow> onLastGreen env u m)"

definition handleMessage :: "PEnv \<Rightarrow> bytes \<Rightarrow> pstep" where
  "handleMessage env buf = forS (presCmds (length buf) buf 0) (presCommand env)"

definition wsHandleMsgCb :: "PEnv \<Rightarrow> bytes \<Rightarrow> pstep" where
  "wsHandleMsgCb env buf = whenS pcWs [modS (\<lambda>s. s\<lparr>pcTsRecv := peNow env, pcTsPing := 0\<rparr>), handleMessage env buf]"

section \<open>Events\<close>

text \<open>The callbacks of a socket come while it exists.\<close>

datatype (plugins only: code) PEvent = EvConnect | EvUrlReply nat "string option" | EvDnsReply int nat int "string list" "string list"
  | EvWsConnected | EvWsClosed | EvWsMsg bytes | EvTlsSession CachedSession | EvConnectTimeout | EvDelayTimer | EvAttemptTimer nat
  | EvHeartbeat | EvRetryPending bool bool | EvSetPresence Presence | EvSetPersist bool | EvSetLastGreenVisible bool
  | EvSetAutoaway bool int | EvRequestLastGreen Id | EvUpdateLastGreen Id int | EvActivity | EvInactivity | EvNotifyUserStatus
  | EvUsersUpdate Id "(Id \<times> Visibility) list option" | EvNodesCurrent Id "(Id \<times> Visibility) list" | EvMarshalled

fun presEvent :: "PEnv \<Rightarrow> PEvent \<Rightarrow> pstep" where
  "presEvent env EvConnect = presConnect env"
| "presEvent env (EvUrlReply i r) = urlReply env i r"
| "presEvent env (EvDnsReply noName i st v4 v6) = dnsReply env noName i st v4 v6"
| "presEvent env EvWsConnected = whenS pcWs [wsConnectCb env]"
| "presEvent env EvWsClosed = wsCloseCbPrivate env"
| "presEvent env (EvWsMsg buf) = wsHandleMsgCb env buf"
| "presEvent env (EvTlsSession sess) = wsSSLsessionUpdateCb sess"
| "presEvent env EvConnectTimeout = connectTimeout env"
| "presEvent env EvDelayTimer = rcDelayTimer env"
| "presEvent env (EvAttemptTimer r) = rcAttemptTimer env r"
| "presEvent env EvHeartbeat = presHeartbeat env"
| "presEvent env (EvRetryPending d r) = retryPendingConnection env d r"
| "presEvent env (EvSetPresence p) = setPresence env p"
| "presEvent env (EvSetPersist b) = setPersist env b"
| "presEvent env (EvSetLastGreenVisible b) = setLastGreenVisible env b"
| "presEvent env (EvSetAutoaway b t) = setAutoaway env b t"
| "presEvent env (EvRequestLastGreen u) = requestLastGreen env u"
| "presEvent env (EvUpdateLastGreen u t) = updateLastGreen u t"
| "presEvent env EvActivity = signalActivity env"
| "presEvent env EvInactivity = signalInactivity env"
| "presEvent env EvNotifyUserStatus = notifyUserStatus env"
| "presEvent env (EvUsersUpdate sn us) = onUsersUpdate sn us"
| "presEvent env (EvNodesCurrent sn cs) = onNodesCurrent sn cs"
| "presEvent env EvMarshalled = runMarshalled env"

definition runPres :: "(PEnv \<times> PEvent) list \<Rightarrow> PC \<Rightarrow> PC" where
  "runPres es = fold (\<lambda>(env, e) s. fst (presEvent env e s)) es"

end
