(* ===== verification/PresProps.thy ===== *)
theory PresProps
  imports PresConn
begin

text \<open>
  What the presence client tells the server and the application: the frames it reads, the peers it asks
  for, the status it reports, and how it gets stuck without a URL.
\<close>

section \<open>Frames\<close>

definition encPres :: "PresCmd \<Rightarrow> bytes" where
  "encPres c = (case c of
     PKeepalive \<Rightarrow> [P_KEEPALIVE]
   | PPeerStatus p u \<Rightarrow> P_PEERSTATUS # p # le64 u
   | PPrefs w \<Rightarrow> (case w of None \<Rightarrow> [P_PREFS] | Some w \<Rightarrow> P_PREFS # le16 w)
   | PLastGreen u m \<Rightarrow> P_LASTGREEN # le64 u @ le16 m)"

lemma read8_at: "length (pre @ b # post) < 2 ^ 63 \<Longrightarrow> read8 (pre @ b # post) (length pre) = Inr b"
  by (simp add: read8_def readPtr_cases slice_def)

lemma decodes_at:
  assumes "decodes d bs v" "length (pre @ x # bs @ post) < 2 ^ 63"
  shows "d (pre @ x # bs @ post) (Suc (length pre)) = Inr (v, Suc (length pre) + length bs)"
proof -
  have "d ((pre @ [x]) @ bs @ post) (length (pre @ [x])) = Inr (v, length (pre @ [x]) + length bs)"
    by (rule mp [OF spec [OF spec [OF assms(1) [unfolded decodes_def]]]]) (use assms(2) in simp)
  then show ?thesis by simp
qed

lemma decPres_at:
  assumes "\<not> isCut c" "length (pre @ encPres c @ post) < 2 ^ 63"
  shows "decPres (pre @ encPres c @ post) (length pre) = Some (c, length pre + length (encPres c))"
proof (cases c)
  case PKeepalive
  with assms show ?thesis by (simp add: encPres_def decPres_def read8_at)
next
  case (PPeerStatus p u)
  have d: "decodes (thenD READ_8 (\<lambda>p. thenD READ_ID (\<lambda>u. doneD (PPeerStatus p u)))) ([p] @ le64 u) (PPeerStatus p u)"
    by (rule decodes_intros)+
  show ?thesis
    using assms PPeerStatus decodes_at [OF d, of pre P_PEERSTATUS post] by (simp add: encPres_def decPres_def read8_at)
next
  case (PPrefs w)
  with assms(1) obtain w' where w: "w = Some w'" by (cases w) (simp_all add: isCut_def)
  then show ?thesis
    using assms PPrefs decodes_at [OF decodes_basic(3), of pre P_PREFS w' post] by (simp add: encPres_def decPres_def read8_at)
next
  case (PLastGreen u m)
  have d: "decodes (thenD READ_ID (\<lambda>u. thenD READ_16 (\<lambda>m. doneD (PLastGreen u m)))) (le64 u @ le16 m) (PLastGreen u m)"
    by (rule decodes_intros)+
  show ?thesis
    using assms PLastGreen decodes_at [OF d, of pre P_LASTGREEN post] by (simp add: encPres_def decPres_def read8_at)
qed

lemma encPres_length: "Suc 0 \<le> length (encPres c)"
  by (simp add: encPres_def split: PresCmd.split option.split)

definition endsFrame :: "bytes \<Rightarrow> bool" where
  "endsFrame rest \<longleftrightarrow> rest = [] \<or> rest = [P_PREFS] \<or> hd rest \<notin> {P_KEEPALIVE, P_PEERSTATUS, P_PREFS, P_LASTGREEN}"

lemma presCmds_end:
  assumes "endsFrame rest" "length (pre @ rest) < 2 ^ 63" "length rest \<le> n"
  shows "presCmds n (pre @ rest) (length pre) = (if rest = [P_PREFS] then [PPrefs None] else [])"
proof (cases rest)
  case (Cons b bs)
  with assms(3) obtain m where n: "n = Suc m" by (cases n) auto
  have r: "read8 (pre @ rest) (length pre) = Inr b" using read8_at [of pre b bs] assms(2) Cons by simp
  show ?thesis
    using assms(1,2) Cons r by (auto simp: endsFrame_def n decPres_def isCut_def READ_16_def read16_def readPtr_cases)
qed (cases n; simp)

lemma presCmds_reads:
  assumes "\<forall>c \<in> set cs. \<not> isCut c" "endsFrame rest"
    "length (pre @ concat (map encPres cs) @ rest) < 2 ^ 63" "length (concat (map encPres cs) @ rest) \<le> n"
  shows "presCmds n (pre @ concat (map encPres cs) @ rest) (length pre) = cs @ (if rest = [P_PREFS] then [PPrefs None] else [])"
  using assms
proof (induction cs arbitrary: pre n)
  case Nil
  then show ?case using presCmds_end [of rest pre n] by simp
next
  case (Cons c cs)
  from Cons.prems(4) encPres_length [of c] obtain m where n: "n = Suc m" by (cases n) auto
  have d: "decPres (pre @ concat (map encPres (c # cs)) @ rest) (length pre) = Some (c, length (pre @ encPres c))"
    using decPres_at [of c pre "concat (map encPres cs) @ rest"] Cons.prems by simp
  have "presCmds m ((pre @ encPres c) @ concat (map encPres cs) @ rest) (length (pre @ encPres c)) =
      cs @ (if rest = [P_PREFS] then [PPrefs None] else [])"
    using Cons.prems encPres_length [of c] by (intro Cons.IH) (auto simp: n simp del: length_greater_0_conv)
  then show ?case
    using d Cons.prems(1) encPres_length [of c] by (auto simp add: n)
qed

text \<open>
  A frame of well-formed commands is carried out command by command, whatever they are and however many;
  an unknown opcode ends it without an exception, and preferences cut off at the end still complete the login.
\<close>

theorem pres_frame_executed:
  assumes "\<forall>c \<in> set cs. \<not> isCut c" "endsFrame rest" "length (concat (map encPres cs) @ rest) < 2 ^ 63"
  shows "handleMessage env (concat (map encPres cs) @ rest) =
    forS (cs @ (if rest = [P_PREFS] then [PPrefs None] else [])) (presCommand env)"
  using presCmds_reads [of cs rest "[]" "length (concat (map encPres cs) @ rest)"] assms
  by (simp add: handleMessage_def)

theorem pres_frame_executed_witness:
  "\<forall>env. handleMessage env (concat (map encPres [PKeepalive, PPeerStatus 0x83 7, PPrefs (Some 0x1234), PLastGreen 9 3]) @ [2, 0]) =
    forS [PKeepalive, PPeerStatus 0x83 7, PPrefs (Some 0x1234), PLastGreen 9 3] (presCommand env)"
  using pres_frame_executed [of "[PKeepalive, PPeerStatus 0x83 7, PPrefs (Some 0x1234), PLastGreen 9 3]" "[2, 0]"]
  by (intro allI) (simp add: isCut_def endsFrame_def encPres_def)

section \<open>Status of peers\<close>

definition shown :: "PEnv \<Rightarrow> Id \<Rightarrow> Presence \<Rightarrow> PC \<Rightarrow> bool" where
  "shown env u q s \<longleftrightarrow> u = peMyHandle env \<or> (isContact u s \<and> (isExContact u s \<longrightarrow> presCode q = kUnknown))"

lemma exContact_contact: "isExContact u s \<Longrightarrow> isContact u s"
  by (simp add: isExContact_def isContact_def)


section \<open>Peers the server knows\<close>

text \<open>The frames sent.\<close>

definition sentOf :: "PresOut list \<Rightarrow> bytes list" where
  "sentOf xs = concat (map (\<lambda>x. case x of PSent b \<Rightarrow> [b] | _ \<Rightarrow> []) xs)"

lemma sentOf_simps [simp]:
  "sentOf [] = []" "sentOf (xs @ ys) = sentOf xs @ sentOf ys" "sentOf (PSent b # xs) = b # sentOf xs"
  "sentOf (PAssert a # xs) = sentOf xs" "sentOf (PPresence u p i # xs) = sentOf xs" "sentOf (PConfigChanged c i # xs) = sentOf xs"
  by (simp_all add: sentOf_def)

definition visibleContacts :: "(Id \<times> Visibility) list \<Rightarrow> Id set" where
  "visibleContacts cs = {u. map_of cs u = Some VisVisible}"

lemma map_of_put [simp]: "map_of (putContact u v cs) = (map_of cs)(u \<mapsto> v)"
proof -
  have i: "k \<notin> fst ` set xs \<Longrightarrow> map_of (insort_key fst (k, w) xs) = (map_of xs)(k \<mapsto> w)" for k :: Id and w :: Visibility and xs
    by (induction xs) (auto simp: fun_eq_iff)
  have d: "map_of (filter (\<lambda>(x, _). x \<noteq> u) cs) = (map_of cs)(u := None)"
    by (induction cs) (auto simp: fun_eq_iff)
  show ?thesis unfolding putContact_def by (subst i) (auto simp: d)
qed

lemma map_of_delContact [simp]: "map_of (delContact u cs) = (map_of cs)(u := None)"
  unfolding delContact_def by (induction cs) (auto simp: fun_eq_iff)

text \<open>
  A contact known is visible or hidden, and becomes visible, hidden or inactive; a new one is visible or hidden.
\<close>

definition plainUpdate :: "(Id \<times> Visibility) list \<Rightarrow> Id \<times> Visibility \<Rightarrow> bool" where
  "plainUpdate cs uv \<longleftrightarrow> snd uv \<in> {VisHidden, VisVisible} \<and> map_of cs (fst uv) \<in> {None, Some VisHidden, Some VisVisible}
     \<or> snd uv = VisInactive \<and> map_of cs (fst uv) \<in> {Some VisHidden, Some VisVisible}"

lemma userUpdate_peers:
  assumes "userUpdate uv cs = (cs', as, ds)" "plainUpdate cs uv"
  shows "map_of cs' x = (if x = fst uv then (if snd uv = VisInactive then None else Some (snd uv)) else map_of cs x)"
    "set as = visibleContacts cs' - visibleContacts cs" "set ds = visibleContacts cs - visibleContacts cs'"
  using assms unfolding userUpdate_def plainUpdate_def visibleContacts_def
  by (cases uv; cases "map_of cs (fst uv)"; auto split: if_splits)+

lemma usersUpdate_peers:
  assumes "usersUpdate me us cs = (cs', as, ds)" "\<forall>uv \<in> set us. plainUpdate cs uv" "distinct (map fst us)"
  shows "\<forall>x. x \<notin> fst ` set us \<longrightarrow> map_of cs' x = map_of cs x"
    "set as = visibleContacts cs' - visibleContacts cs" "set ds = visibleContacts cs - visibleContacts cs'"
proof -
  have "(\<forall>x. x \<notin> fst ` set us \<longrightarrow> map_of cs' x = map_of cs x) \<and> set as = visibleContacts cs' - visibleContacts cs \<and>
      set ds = visibleContacts cs - visibleContacts cs'"
    using assms
  proof (induction us arbitrary: cs as ds)
    case Nil
    then show ?case by auto
  next
    case (Cons uv us)
    show ?case
    proof (cases "fst uv = me")
      case True
      then show ?thesis using Cons.IH [of cs as ds] Cons.prems by simp
    next
      case False
      obtain c1 a1 d1 where 1: "userUpdate uv cs = (c1, a1, d1)" by (cases "userUpdate uv cs")
      obtain a2 d2 where 2: "usersUpdate me us c1 = (cs', a2, d2)" "as = a1 @ a2" "ds = d1 @ d2"
        using Cons.prems(1) False 1 by (auto split: prod.splits)
      have p: "plainUpdate cs uv" using Cons.prems(2) by simp
      note u = userUpdate_peers [OF 1 p]
      have "map_of c1 (fst xv) = map_of cs (fst xv)" if "xv \<in> set us" for xv
        using u(1) [of "fst xv"] Cons.prems(3) that by (metis (no_types, lifting) distinct.simps(2) image_eqI list.simps(9) set_map)
      then have "\<forall>xv \<in> set us. plainUpdate c1 xv"
        using Cons.prems(2) by (simp add: plainUpdate_def)
      then have i: "\<forall>x. x \<notin> fst ` set us \<longrightarrow> map_of cs' x = map_of c1 x"
          "set a2 = visibleContacts cs' - visibleContacts c1" "set d2 = visibleContacts c1 - visibleContacts cs'"
        using Cons.IH [OF 2(1)] Cons.prems(3) by auto
      have k: "x \<in> visibleContacts cs' \<longleftrightarrow> x \<in> visibleContacts c1" if "x \<notin> fst ` set us" for x
        using i(1) that by (simp add: visibleContacts_def)
      have l: "x \<in> visibleContacts c1 \<longleftrightarrow> x \<in> visibleContacts cs" if "x \<noteq> fst uv" for x
        using u(1) that by (simp add: visibleContacts_def)
      have o: "x \<in> visibleContacts cs' \<longleftrightarrow> x \<in> visibleContacts c1" if "x = fst uv" for x
        using k [of x] that Cons.prems(3) by simp
      have "set as = visibleContacts cs' - visibleContacts cs" "set ds = visibleContacts cs - visibleContacts cs'"
      proof -
        have "(x \<in> set as) = (x \<in> visibleContacts cs' - visibleContacts cs) \<and>
            (x \<in> set ds) = (x \<in> visibleContacts cs - visibleContacts cs')" for x
          using o [of x] l [of x] by (cases "x = fst uv") (simp_all add: 2(2,3) i(2,3) u(2,3))
        then show "set as = visibleContacts cs' - visibleContacts cs" "set ds = visibleContacts cs - visibleContacts cs'"
          by blast+
      qed
      moreover have "\<forall>x. x \<notin> fst ` set (uv # us) \<longrightarrow> map_of cs' x = map_of cs x"
        using i(1) u(1) by simp
      ultimately show ?thesis by blast
    qed
  qed
  then show "\<forall>x. x \<notin> fst ` set us \<longrightarrow> map_of cs' x = map_of cs x"
    "set as = visibleContacts cs' - visibleContacts cs" "set ds = visibleContacts cs - visibleContacts cs'" by simp_all
qed

text \<open>What the loops over peers leave as it is.\<close>

definition peerView :: "PC \<Rightarrow> ConnState \<times> bool \<times> Id \<times> (Id \<times> Visibility) list \<times> bytes list" where
  "peerView s = (pcState s, pcWs s, pcScsn s, pcContacts s, sentOf (pcOut s))"

lemma wp_peers:
  "peerView s = v \<Longrightarrow> wp (updatePeerPresence env u q) (\<lambda>t. peerView t = v) (\<lambda>_. False) s"
  "peerView s = v \<Longrightarrow> wp (assertAt a b) (\<lambda>t. peerView t = v) (\<lambda>_. False) s"
  by (auto simp: updatePeerPresence_def assertAt_def outP_def wp_simps peerView_def)

definition sentPeers :: "PC \<Rightarrow> bytes list \<Rightarrow> PC \<Rightarrow> bool" where
  "sentPeers s bs t \<longleftrightarrow> peerView t = (pcState s, pcWs s, pcScsn s, pcContacts s, sentOf (pcOut s) @ bs)"

lemma peerView_same:
  assumes "peerView t = peerView s"
  shows "isOnline t = isOnline s" "pcWs t = pcWs s" "pcScsn t = pcScsn s" "sentPeers t bs = sentPeers s bs"
    "wp (readS pcScsn k) Q R t = wp (k (pcScsn s)) Q R t"
  using assms by (auto simp: peerView_def isOnline_def sentPeers_def wp_simps fun_eq_iff)

lemma wp_send:
  assumes "peerView t = peerView s" "isOnline s" "pcWs s"
  shows "wp (sendIgnored env b) (sentPeers s [b]) (\<lambda>_. False) t"
proof -
  have "isOnline t" "pcWs t" using assms peerView_same [OF assms(1)] by simp_all
  then have "wp (sendIgnored env b) (sentPeers t [b]) (\<lambda>_. False) t"
    by (auto simp: sendIgnored_def sendCommand_def outP_def wp_simps peerView_def sentPeers_def isOnline_def)
  then show ?thesis by (simp add: peerView_same(4) [OF assms(1)])
qed

lemma wp_addPeers:
  assumes "isOnline s" "pcWs s" "\<not> peAnonymous env"
  shows "wp (addPeers env ps) (sentPeers s (if ps = [] then [] else [cmdPeers P_SNADDPEERS (pcScsn s) ps])) (\<lambda>_. False) s"
proof (cases "ps = []")
  case True
  then show ?thesis by (simp add: addPeers_def wp_simps sentPeers_def peerView_def)
next
  case False
  have "wp (doS [assertAt AtPeers scsnValid, forS ps (\<lambda>p. assertAt AtPeers (\<lambda>s. contactVis p s = Some VisVisible)),
      readS pcScsn (\<lambda>sn. sendIgnored env (cmdPeers P_SNADDPEERS sn ps))]) (sentPeers s [cmdPeers P_SNADDPEERS (pcScsn s) ps]) (\<lambda>_. False) s"
    by (rule wp_step [OF wp_peers(2) [OF refl]], rule wp_step [OF wp_forS [where V = peerView and v = "peerView s"]])
      (simp_all add: wp_peers(2) peerView_same(5) [of _ s] wp_send [OF _ assms(1,2)])
  then show ?thesis using False assms(3) by (simp add: addPeers_def)
qed

lemma wp_removePeers:
  assumes "isOnline s" "pcWs s" "\<not> peAnonymous env"
  shows "wp (removePeers env ps) (sentPeers s (if ps = [] then [] else [cmdPeers P_SNDELPEERS (pcScsn s) ps])) (\<lambda>_. False) s"
proof (cases "ps = []")
  case True
  then show ?thesis by (simp add: removePeers_def wp_simps sentPeers_def peerView_def)
next
  case False
  let ?f = "\<lambda>p. doS [assertAt AtPeers (\<lambda>s. contactVis p s = None \<or> contactVis p s = Some VisHidden),
      modS (\<lambda>s. s\<lparr>pcLastGreen := (pcLastGreen s)(p := None)\<rparr>), updatePeerPresence env p kUnknown]"
  have m: "peerView (t\<lparr>pcLastGreen := x\<rparr>) = peerView t" for t x by (simp add: peerView_def)
  have f: "wp (?f p) (\<lambda>t. peerView t = peerView s) (\<lambda>_. False) t" if "peerView t = peerView s" for p t
    by (rule wp_step [OF wp_peers(2) [OF that]], rule wp_step [where P = "\<lambda>t. peerView t = peerView s"])
      (simp_all add: wp_basic(1) m wp_peers(1))
  have "wp (forS ps ?f) (\<lambda>t. peerView t = peerView s) (\<lambda>_. False) t" if "peerView t = peerView s" for t
    by (rule wp_forS) (use f that in blast)+
  then have "wp (doS [forS ps ?f, sendIgnored env (cmdPeers P_SNDELPEERS (pcScsn s) ps)])
      (sentPeers s [cmdPeers P_SNDELPEERS (pcScsn s) ps]) (\<lambda>_. False) t" if "peerView t = peerView s" for t
    by (rule wp_step) (use that in \<open>simp_all add: wp_send [OF _ assms(1,2)]\<close>)
  then have "wp (doS [assertAt AtPeers scsnValid, readS pcScsn (\<lambda>sn. doS [forS ps ?f, sendIgnored env (cmdPeers P_SNDELPEERS sn ps)])])
      (sentPeers s [cmdPeers P_SNDELPEERS (pcScsn s) ps]) (\<lambda>_. False) s"
    by (intro wp_step [OF wp_peers(2) [OF refl]]) (simp add: peerView_same(5) [of _ s] del: doS.simps)
  then show ?thesis using False assms(3) by (simp add: removePeers_def)
qed

text \<open>
  C34: A change of contacts sends exactly the difference: the contacts that have become visible are added to
  the peers, those that are no longer visible are removed, with the new sequence number, and nothing else is
  sent.
\<close>

theorem peers_follow_contacts:
  assumes "isOnline s" "pcWs s" "scsnValid s" "\<not> peAnonymous env"
    "\<forall>uv \<in> set us. plainUpdate (pcContacts s) uv" "distinct (map fst us)"
  shows "\<exists>t as ds. usersUpdated env sn us s = (t, None) \<and>
    set as = visibleContacts (pcContacts t) - visibleContacts (pcContacts s) \<and>
    set ds = visibleContacts (pcContacts s) - visibleContacts (pcContacts t) \<and>
    sentOf (pcOut t) = sentOf (pcOut s) @ (if as = [] then [] else [cmdPeers P_SNADDPEERS sn as])
      @ (if ds = [] then [] else [cmdPeers P_SNDELPEERS sn ds])"
proof -
  obtain cs as ds where u: "usersUpdate (peMyHandle env) us (pcContacts s) = (cs, as, ds)"
    by (cases "usersUpdate (peMyHandle env) us (pcContacts s)")
  note p = usersUpdate_peers [OF u assms(5,6)]
  let ?s = "s\<lparr>pcScsn := sn, pcContacts := cs\<rparr>"
  have on: "isOnline ?s" "pcWs ?s" using assms(1,2) by (simp_all add: isOnline_def)
  let ?a = "if as = [] then [] else [cmdPeers P_SNADDPEERS sn as]" and ?d = "if ds = [] then [] else [cmdPeers P_SNDELPEERS sn ds]"
  have "wp (usersUpdated env sn us) (sentPeers ?s (?a @ ?d)) (\<lambda>_. False) s"
  proof -
    have "wp (doS [addPeers env as, removePeers env ds]) (sentPeers ?s (?a @ ?d)) (\<lambda>_. False) ?s"
    proof (rule wp_step [OF wp_addPeers [OF on assms(4)]])
      fix t assume t: "sentPeers ?s (if as = [] then [] else [cmdPeers P_SNADDPEERS (pcScsn ?s) as]) t"
      then have "isOnline t" "pcWs t" "pcScsn t = sn" using on by (auto simp: sentPeers_def peerView_def isOnline_def)
      then show "wp (doS [removePeers env ds]) (sentPeers ?s (?a @ ?d)) (\<lambda>_. False) t"
        using t by (auto simp: sentPeers_def peerView_def intro!: wp_mono [OF wp_removePeers [OF _ _ assms(4)]])
    qed
    moreover define Q where "Q = sentPeers ?s (?a @ ?d)"
    ultimately have "wp (doS [addPeers env as, removePeers env ds]) Q (\<lambda>_. False) ?s" by simp
    then have "wp (usersUpdated env sn us) Q (\<lambda>_. False) s"
      using assms(3) by (simp add: usersUpdated_def wp_simps u)
    then show ?thesis by (simp only: Q_def)
  qed
  then obtain t where "usersUpdated env sn us s = (t, None)" "sentPeers ?s (?a @ ?d) t"
    by (auto simp: wp_def split: prod.splits option.splits)
  then show ?thesis using p by (intro exI [of _ t] exI [of _ as] exI [of _ ds]) (simp add: sentPeers_def peerView_def)
qed

definition samplePres :: PC where
  "samplePres = (newPresClient 0 (newDnsCache [] 2))\<lparr>pcState := kLoggedIn, pcWs := True, pcScsn := 5,
     pcContacts := [(7, VisVisible), (8, VisHidden)]\<rparr>"

definition samplePEnv :: PEnv where
  "samplePEnv = \<lparr>peNow = 1000, peTerminated = False, peAnonymous = False, peBackground = False, peInCall = False,
     peMyHandle = 1, peCaps = 0xa0, peResolveFails = False, peConnect1 = True, peConnect2 = True, peSend = True\<rparr>"

lemma samplePres_online: "isOnline samplePres" "pcWs samplePres" "scsnValid samplePres" "\<not> peAnonymous samplePEnv"
  by (simp_all add: samplePres_def samplePEnv_def isOnline_def conn_order scsnValid_def Id_inval_def)

theorem peers_follow_contacts_witness:
  "\<exists>t as ds. usersUpdated samplePEnv 6 [(7, VisHidden), (9, VisVisible)] samplePres = (t, None) \<and>
    set as = visibleContacts (pcContacts t) - visibleContacts (pcContacts samplePres) \<and>
    set ds = visibleContacts (pcContacts samplePres) - visibleContacts (pcContacts t) \<and>
    sentOf (pcOut t) = sentOf (pcOut samplePres) @ (if as = [] then [] else [cmdPeers P_SNADDPEERS 6 as])
      @ (if ds = [] then [] else [cmdPeers P_SNDELPEERS 6 ds])"
proof -
  have u: "\<forall>uv \<in> set [(7, VisHidden), (9, VisVisible)]. plainUpdate (pcContacts samplePres) uv"
    by (simp add: samplePres_def plainUpdate_def)
  show ?thesis by (rule peers_follow_contacts [OF samplePres_online u]) simp
qed

section \<open>Login\<close>

lemma login_sends:
  assumes "isOnline s" "pcWs s" "scsnValid s"
  shows "snd (presLogin env s) = None" "sentOf (pcOut (fst (presLogin env s))) = sentOf (pcOut s) @ [cmdHello (peCaps env)] @
      (if pcAckWait s then [cmdPrefs (pcConfig s)] else []) @ [cmdPeers P_SNSETPEERS (pcScsn s) (map fst (pcContacts s))]"
proof -
  have "wp (presLogin env) (\<lambda>t. sentOf (pcOut t) = sentOf (pcOut s) @ [cmdHello (peCaps env)] @
      (if pcAckWait s then [cmdPrefs (pcConfig s)] else []) @ [cmdPeers P_SNSETPEERS (pcScsn s) (map fst (pcContacts s))]) (\<lambda>_. False) s"
    using assms by (auto simp: presLogin_def sendPrefs_def configChanged_def pushPeers_def sendIgnored_def sendCommand_def outP_def
        wp_simps isOnline_def scsnValid_def)
  then show "snd (presLogin env s) = None" "sentOf (pcOut (fst (presLogin env s))) = sentOf (pcOut s) @ [cmdHello (peCaps env)] @
      (if pcAckWait s then [cmdPrefs (pcConfig s)] else []) @ [cmdPeers P_SNSETPEERS (pcScsn s) (map fst (pcContacts s))]"
    by (auto simp: wp_def split: prod.splits option.splits)
qed

text \<open>
  A contact that becomes an ex-contact is removed from the peers that see the user's status, but the next
  login sends it again: the list of peers set then has every contact known, ex-contacts included.
\<close>

theorem ex_contact_sees_again:
  assumes "isOnline s" "pcWs s" "scsnValid s" "\<not> peAnonymous env" "sn \<noteq> Id_inval" "u \<noteq> peMyHandle env"
    "map_of (pcContacts s) u = Some VisVisible"
  shows "\<exists>t ps. usersUpdated env sn [(u, VisHidden)] s = (t, None) \<and> isExContact u t \<and>
    last (sentOf (pcOut t)) = cmdPeers P_SNDELPEERS sn [u] \<and>
    u \<in> set ps \<and> last (sentOf (pcOut (fst (presLogin env t)))) = cmdPeers P_SNSETPEERS sn ps"
proof -
  let ?cs = "putContact u VisHidden (pcContacts s)" and ?s = "\<lambda>cs. s\<lparr>pcScsn := sn, pcContacts := cs\<rparr>"
  have u: "usersUpdate (peMyHandle env) [(u, VisHidden)] (pcContacts s) = (?cs, [], [u])"
    using assms(6,7) by (simp add: userUpdate_def)
  have on: "isOnline (?s ?cs)" "pcWs (?s ?cs)" using assms(1,2) by (simp_all add: isOnline_def)
  have "wp (usersUpdated env sn [(u, VisHidden)]) (sentPeers (?s ?cs) [cmdPeers P_SNDELPEERS sn [u]]) (\<lambda>_. False) s"
    using wp_removePeers [OF on assms(4), of "[u]"] assms(3)
    by (simp add: usersUpdated_def wp_simps u addPeers_def del: usersUpdate.simps)
  then obtain t where t: "usersUpdated env sn [(u, VisHidden)] s = (t, None)" "sentPeers (?s ?cs) [cmdPeers P_SNDELPEERS sn [u]] t"
    by (auto simp: wp_def split: prod.splits option.splits)
  then have f: "isOnline t" "pcWs t" "scsnValid t" "pcContacts t = ?cs" "pcScsn t = sn"
      "sentOf (pcOut t) = sentOf (pcOut s) @ [cmdPeers P_SNDELPEERS sn [u]]"
    using assms(1,2,5) by (auto simp: sentPeers_def peerView_def isOnline_def scsnValid_def)
  have "u \<in> set (map fst ?cs)" by (simp add: putContact_def set_insort_key)
  then show ?thesis
    using t(1) f login_sends(2) [OF f(1-3), of env]
    by (intro exI [of _ t] exI [of _ "map fst ?cs"]) (simp add: isExContact_def contactVis_def)
qed

theorem ex_contact_sees_again_witness:
  "\<exists>t ps. usersUpdated samplePEnv 6 [(7, VisHidden)] samplePres = (t, None) \<and> isExContact 7 t \<and>
    last (sentOf (pcOut t)) = cmdPeers P_SNDELPEERS 6 [7] \<and>
    7 \<in> set ps \<and> last (sentOf (pcOut (fst (presLogin samplePEnv t)))) = cmdPeers P_SNSETPEERS 6 ps"
  by (rule ex_contact_sees_again [OF samplePres_online]) (simp_all add: samplePEnv_def samplePres_def Id_inval_def)

section \<open>Stuck without a URL\<close>

definition stuckFetching :: "PC \<Rightarrow> bool" where
  "stuckFetching s \<longleftrightarrow> pcState s = kFetchingUrl \<and> \<not> validUrl s \<and> pcFetches s = [] \<and> pcRetry s = None \<and> \<not> pcHeartbeat s \<and> \<not> pcWs s"

lemma stuck_upd [simp]:
  "stuckFetching (s\<lparr>pcOut := x1\<rparr>) = stuckFetching s" "stuckFetching (s\<lparr>pcTsSend := x2\<rparr>) = stuckFetching s"
  "stuckFetching (s\<lparr>pcConfig := x3\<rparr>) = stuckFetching s" "stuckFetching (s\<lparr>pcAckWait := x4\<rparr>) = stuckFetching s"
  "stuckFetching (s\<lparr>pcLastSentActive := x5\<rparr>) = stuckFetching s" "stuckFetching (s\<lparr>pcPeers := x6\<rparr>) = stuckFetching s"
  "stuckFetching (s\<lparr>pcLastGreen := x7\<rparr>) = stuckFetching s" "stuckFetching (s\<lparr>pcContacts := x8\<rparr>) = stuckFetching s"
  "stuckFetching (s\<lparr>pcScsn := x9\<rparr>) = stuckFetching s" "stuckFetching (s\<lparr>pcMarsh := x10\<rparr>) = stuckFetching s"
  "stuckFetching (s\<lparr>pcTsActivity := x11\<rparr>) = stuckFetching s" "stuckFetching (s\<lparr>pcDnsReqs := x12\<rparr>) = stuckFetching s"
  "stuckFetching (s\<lparr>pcTimer := x13\<rparr>) = stuckFetching s" "stuckFetching (s\<lparr>pcScsn := x9, pcContacts := x14\<rparr>) = stuckFetching s"
  by (simp_all add: stuckFetching_def validUrl_def)

lemma keeps_silent [keeps_intros]:
  "keeps stuckFetching (outP x)" "keeps stuckFetching (assertAt a b)" "keeps stuckFetching (retS r)"
  by (auto simp: outP_def assertAt_def retS_def intro!: keeps_intros)

lemma keeps_send [keeps_intros]: "(\<And>ok. keeps stuckFetching (k ok)) \<Longrightarrow> keeps stuckFetching (sendCommand env b k)"
  unfolding sendCommand_def by (intro keeps_intros; simp)

lemma keeps_sends [keeps_intros]:
  "keeps stuckFetching (sendIgnored env b)" "keeps stuckFetching (configChanged env)" "keeps stuckFetching (sendUserActive env a f)"
  "(\<And>ok. keeps stuckFetching (k ok)) \<Longrightarrow> keeps stuckFetching (sendPrefs env k)"
  unfolding sendIgnored_def configChanged_def sendUserActive_def sendPrefs_def by (intro keeps_intros; simp)+

lemma keeps_peer [keeps_intros]: "keeps stuckFetching (updatePeerPresence env u q)"
  unfolding updatePeerPresence_def by (intro keeps_intros; simp)

lemma keeps_users [keeps_intros]:
  "keeps stuckFetching (addPeers env ps)" "keeps stuckFetching (removePeers env ps)" "keeps stuckFetching (pushPeers env)"
  unfolding addPeers_def removePeers_def pushPeers_def by (intro keeps_intros; simp)+

lemma keeps_marshalled: "keeps stuckFetching (usersUpdated env sn us)" "keeps stuckFetching (nodesCurrent env sn cs)"
  unfolding usersUpdated_def nodesCurrent_def by (auto intro!: keeps_intros split: prod.split)

lemma stuck_event:
  assumes "stuckFetching s" "e \<noteq> EvConnect"
  shows "stuckFetching (fst (presEvent env e s))"
proof (cases e)
  case (EvDnsReply n i st v4 v6)
  have "keeps stuckFetching (dnsReply env n i st v4 v6)"
    unfolding dnsReply_def onDns_def keeps_def
    by (auto simp: wp_simps assertAt_def outP_def stuckFetching_def validUrl_def)
  then show ?thesis using EvDnsReply assms(1) by (simp add: keepsD)
next
  case EvMarshalled
  have "keeps stuckFetching (runMarshalled env)"
    unfolding runMarshalled_def by (auto intro!: keeps_intros keeps_marshalled split: list.split Marshalled.split)
  then show ?thesis using EvMarshalled assms(1) by (simp add: keepsD)
next
  case (EvSetPresence p)
  then show ?thesis using assms(1)
    by simp (rule keepsD [of stuckFetching], auto simp: setPresence_def intro!: keeps_intros)
next
  case (EvSetPersist p)
  then show ?thesis using assms(1)
    by simp (rule keepsD [of stuckFetching], auto simp: setPersist_def intro!: keeps_intros)
next
  case (EvSetLastGreenVisible p)
  then show ?thesis using assms(1)
    by simp (rule keepsD [of stuckFetching], auto simp: setLastGreenVisible_def intro!: keeps_intros)
next
  case (EvSetAutoaway b t)
  then show ?thesis using assms(1)
    by simp (rule keepsD [of stuckFetching], auto simp: setAutoaway_def intro!: keeps_intros)
next
  case (EvRequestLastGreen u)
  then show ?thesis using assms(1)
    by simp (rule keepsD [of stuckFetching], auto simp: requestLastGreen_def intro!: keeps_intros)
next
  case (EvUpdateLastGreen u t)
  then show ?thesis using assms(1)
    by simp (rule keepsD [of stuckFetching], auto simp: updateLastGreen_def intro!: keeps_intros)
next
  case EvActivity
  then show ?thesis using assms(1)
    by simp (rule keepsD [of stuckFetching], auto simp: signalActivity_def intro!: keeps_intros)
next
  case EvInactivity
  then show ?thesis using assms(1)
    by simp (rule keepsD [of stuckFetching], auto simp: signalInactivity_def intro!: keeps_intros)
next
  case EvNotifyUserStatus
  then show ?thesis using assms(1)
    by simp (rule keepsD [of stuckFetching], auto simp: notifyUserStatus_def signalInactivity_def signalActivity_def intro!: keeps_intros)
next
  case (EvUsersUpdate sn us)
  then show ?thesis using assms(1)
    by simp (rule keepsD [of stuckFetching], auto simp: onUsersUpdate_def intro!: keeps_intros split: option.split)
next
  case (EvNodesCurrent sn cs)
  then show ?thesis using assms(1) by (simp add: onNodesCurrent_def modS_def stuckFetching_def validUrl_def)
next
  case (EvTlsSession sess)
  then show ?thesis using assms(1)
    by (auto simp: wsSSLsessionUpdateCb_def modS_def stuckFetching_def validUrl_def isValidUrl_def updateTlsSession_def
        getRecord_def updRows_def split: option.split SessAction.split)
qed (use assms in \<open>auto simp: urlReply_def readS_def wsCloseCbPrivate_def wsHandleMsgCb_def ifS_def connectTimeout_def outP_def modS_def
      retryPendingConnection_def numeral_2_eq_2 rcDelayTimer_def rcAttemptTimer_def presHeartbeat_def stuckFetching_def validUrl_def\<close>)

lemma stuck_run: "stuckFetching s \<Longrightarrow> \<forall>(env, e) \<in> set es. e \<noteq> EvConnect \<Longrightarrow> stuckFetching (runPres es s)"
  unfolding runPres_def by (induction es arbitrary: s) (auto simp: stuck_event)

text \<open>
  C33: When the API answers the first request of the server's URL without one, the client stays in the state
  of fetching it for good: no event, timer or request of the application to retry the connection, whatever
  its arguments, leads to another request, a lookup or a connection.
\<close>

theorem stuck_without_url:
  assumes "\<forall>(env, e) \<in> set es. e \<noteq> EvConnect" "\<not> peAnonymous env" "\<not> peTerminated env"
    "\<not> isValidUrl dns kPresencedShard"
  shows "let s = runPres ([(env, EvConnect), (env, EvUrlReply 0 (Some []))] @ es) (newPresClient now dns) in
    pcState s = kFetchingUrl \<and> pcFetches s = [] \<and> pcRetry s = None \<and> \<not> pcWs s"
proof -
  let ?s = "runPres [(env, EvConnect), (env, EvUrlReply 0 (Some []))] (newPresClient now dns)"
  have "stuckFetching ?s"
    using assms(2-4)
    by (simp add: runPres_def presConnect_def newPresClient_def assertAt_def outP_def modS_def ifS_def fetchUrl_def validUrl_def
        setConnState_def urlReply_def readS_def tryS_def onUrl_def presReconnect_def delNth_def stuckFetching_def)
  then have "stuckFetching (runPres es ?s)" using assms(1) by (rule stuck_run)
  then show ?thesis by (simp add: runPres_def stuckFetching_def Let_def)
qed

theorem stuck_without_url_witness:
  "let s = runPres ([(samplePEnv, EvConnect), (samplePEnv, EvUrlReply 0 (Some []))] @
      [(samplePEnv, EvRetryPending True True), (samplePEnv, EvConnectTimeout), (samplePEnv, EvHeartbeat)]) (newPresClient 5 (newDnsCache [] 2)) in
    pcState s = kFetchingUrl \<and> pcFetches s = [] \<and> pcRetry s = None \<and> \<not> pcWs s"
  by (rule stuck_without_url) (simp_all add: samplePEnv_def isValidUrl_def getRecord_def newDnsCache_def)

end
