(* ===== verification/PresInv.thy ===== *)
theory PresInv
  imports PresProps DnsProps
begin

text \<open>
  The connection of the presence client never gets into a state its assertions exclude: a heartbeat only
  while online, no retry controller while online, a pending connect promise while connecting.  The steps
  that only send, report or change preferences are \<open>silent\<close>: they leave what the invariant is about.
\<close>

section \<open>What the connection consists of\<close>

definition coreV :: "PC \<Rightarrow> _" where
  "coreV s = (pcState s, pcHeartbeat s, pcRetry s, pcGen s, pcPromise s, pcPromFor s, pcTimer s, pcFetching s, pcFetches s,
     pcDnsReqs s, pcWs s, pcDns s, PAssert AtConn \<in> set (pcOut s))"

definition wsOk :: "PC \<Rightarrow> bool" where
  "wsOk s \<longleftrightarrow> (isOnline s \<longrightarrow> pcWs s)"

definition silent :: "pstep \<Rightarrow> bool" where
  "silent st \<longleftrightarrow> (\<forall>s. wsOk s \<longrightarrow> wp st (\<lambda>t. coreV t = coreV s) (\<lambda>_. False) s)"

named_theorems silent_intros \<open>steps that leave the connection as it is\<close>

lemma coreV_wsOk: "coreV t = coreV s \<Longrightarrow> wsOk t = wsOk s"
  by (simp add: coreV_def wsOk_def isOnline_def)

lemma silentD: "silent st \<Longrightarrow> wsOk s \<Longrightarrow> coreV s = v \<Longrightarrow> wp st (\<lambda>t. coreV t = v) (\<lambda>_. False) s"
  by (auto simp: silent_def)

lemma silent_Nil [silent_intros]: "silent (doS [])"
  by (simp add: silent_def wp_simps)

lemma silent_Cons [silent_intros]:
  assumes "silent x" "silent (doS xs)"
  shows "silent (doS (x # xs))"
  unfolding silent_def
proof (intro allI impI)
  fix s assume w: "wsOk s"
  show "wp (doS (x # xs)) (\<lambda>t. coreV t = coreV s) (\<lambda>_. False) s"
  proof (rule wp_step [OF silentD [OF assms(1) w refl]])
    fix t :: PC assume t: "coreV t = coreV s"
    then have "wsOk t" using w coreV_wsOk [of t s] by simp
    then show "wp (doS xs) (\<lambda>t. coreV t = coreV s) (\<lambda>_. False) t"
      using t by (rule silentD [OF assms(2)])
  qed
qed

lemma silent_modS [silent_intros]: "(\<And>s. coreV (f s) = coreV s) \<Longrightarrow> silent (modS f)"
  by (simp add: silent_def wp_simps)

lemma silent_outP [silent_intros]: "x \<noteq> PAssert AtConn \<Longrightarrow> silent (outP x)"
  by (auto simp: silent_def outP_def wp_simps coreV_def)

lemma silent_assert [silent_intros]: "a \<noteq> AtConn \<Longrightarrow> silent (assertAt a b)"
  by (auto simp: silent_def assertAt_def outP_def wp_simps coreV_def)

lemma silent_readS [silent_intros]: "(\<And>x. silent (k x)) \<Longrightarrow> silent (readS f k)"
  by (simp add: silent_def wp_simps)

lemma silent_ifS [silent_intros]: "silent (doS xs) \<Longrightarrow> silent (doS ys) \<Longrightarrow> silent (ifS b xs ys)"
  by (simp add: silent_def wp_simps)

lemma silent_if [silent_intros]: "silent a \<Longrightarrow> silent b \<Longrightarrow> silent (if c then a else b)"
  by simp

lemma silent_forS [silent_intros]: "(\<And>x. silent (f x)) \<Longrightarrow> silent (forS xs f)"
  by (induction xs) (auto intro: silent_intros)

lemma silent_peer [silent_intros]: "silent (updatePeerPresence env u q)"
  unfolding updatePeerPresence_def by (intro silent_intros; simp add: coreV_def)

lemma silent_send [silent_intros]:
  assumes "\<And>ok. silent (k ok)"
  shows "silent (sendCommand env b k)"
  unfolding silent_def
proof (intro allI impI)
  fix s assume w: "wsOk s"
  have c: "coreV (s\<lparr>pcOut := pcOut s @ [PSent b], pcTsSend := n\<rparr>) = coreV s" for n by (simp add: coreV_def)
  then have o: "wsOk (s\<lparr>pcOut := pcOut s @ [PSent b], pcTsSend := n\<rparr>)" for n
    using w coreV_wsOk [OF c] by simp
  have k: "wp (k ok) (\<lambda>t. coreV t = coreV s) (\<lambda>_. False) (s\<lparr>pcOut := pcOut s @ [PSent b], pcTsSend := n\<rparr>)" for ok n
    by (rule silentD [OF assms o c])
  have "wp (k False) (\<lambda>t. coreV t = coreV s) (\<lambda>_. False) s"
    by (rule silentD [OF assms w refl])
  then show "wp (sendCommand env b k) (\<lambda>t. coreV t = coreV s) (\<lambda>_. False) s"
    using w k by (simp add: sendCommand_def outP_def wp_simps wsOk_def)
qed

lemma silent_sends [silent_intros]:
  "silent (sendIgnored env b)" "silent (configChanged env)" "silent (sendUserActive env a f)" "silent (retS r)"
  "(\<And>ok. silent (k ok)) \<Longrightarrow> silent (sendPrefs env k)" "silent (pushPeers env)" "(\<And>ok. silent (k ok)) \<Longrightarrow> silent (sendKeepalive env k)"
  unfolding sendIgnored_def configChanged_def sendUserActive_def sendPrefs_def retS_def pushPeers_def sendKeepalive_def
  by (intro silent_intros; simp add: coreV_def)+

lemma silent_peers [silent_intros]: "silent (addPeers env ps)" "silent (removePeers env ps)" "silent (presLogin env)"
  unfolding addPeers_def removePeers_def presLogin_def by (intro silent_intros; simp add: coreV_def)+

lemma silent_marshalled: "silent (runMarshalled env)"
  unfolding runMarshalled_def usersUpdated_def nodesCurrent_def
  by (auto intro!: silent_intros simp: coreV_def split: list.split Marshalled.split prod.split)

lemma silent_app:
  "silent (setPresence env p)" "silent (setPersist env b)" "silent (setLastGreenVisible env b)" "silent (setAutoaway env b n)"
  "silent (requestLastGreen env u)" "silent (updateLastGreen u n)" "silent (signalActivity env)" "silent (signalInactivity env)"
  "silent (notifyUserStatus env)" "silent (onUsersUpdate sn us)" "silent (onNodesCurrent sn cs)" "silent (initialActivity env)"
  "silent (onLastGreen env u m)"
  unfolding setPresence_def setPersist_def setLastGreenVisible_def setAutoaway_def requestLastGreen_def updateLastGreen_def
    signalActivity_def signalInactivity_def notifyUserStatus_def onUsersUpdate_def onNodesCurrent_def initialActivity_def onLastGreen_def
  by (auto intro!: silent_intros simp: coreV_def split: option.split)

section \<open>The invariant\<close>

definition rcOk :: "RC \<Rightarrow> bool" where
  "rcOk c \<longleftrightarrow> \<not> mDeleted c \<and> mAttemptTimeout c \<noteq> 0 \<and> mRestart c = 0 \<and> mMaxAttemptCount c = 0 \<and>
     (mState c = kStateInProgress \<and> mTimer c = AttemptTimer (mCurrentAttemptId c) \<or> mState c = kStateRetryWait \<and> mTimer c = DelayTimer)"

definition retryOk :: "PC \<Rightarrow> bool" where
  "retryOk s \<longleftrightarrow> (case pcRetry s of
     None \<Rightarrow> pcState s \<noteq> kResolving \<and> pcState s \<noteq> kConnecting
   | Some (g, c) \<Rightarrow> g < pcGen s \<and> rcOk c \<and> pcState s \<in> {kDisconnected, kResolving, kConnecting} \<and> pcPromise s \<noteq> PromResolved \<and>
       (\<exists>i. pcPromFor s = Some (g, i)) \<and> (pcState s \<noteq> kDisconnected \<longrightarrow> pcPromise s = PromPending) \<and> validUrl s)"

text \<open>A lookup belongs to a controller that was created and to an attempt that was started; one of the current attempt is the only one.\<close>

definition reqOk :: "PC \<Rightarrow> DnsReq \<Rightarrow> bool" where
  "reqOk s r \<longleftrightarrow> drGen r < pcGen s \<and> (case pcRetry s of None \<Rightarrow> True | Some (g, c) \<Rightarrow> g = drGen r \<longrightarrow>
     drAttempt r \<le> mCurrentAttemptNo c \<and>
     (drAttempt r = mCurrentAttemptNo c \<longrightarrow> mState c = kStateInProgress \<and> (\<not> drCached r \<longrightarrow> pcState s = kResolving)))"

definition reqsOk :: "PC \<Rightarrow> bool" where
  "reqsOk s \<longleftrightarrow> distinct (map (\<lambda>r. (drGen r, drAttempt r)) (pcDnsReqs s)) \<and> (\<forall>r \<in> set (pcDnsReqs s). reqOk s r)"

definition fetchOk :: "PC \<Rightarrow> bool" where
  "fetchOk s \<longleftrightarrow> length (filter (\<lambda>f. f \<noteq> FetchClose) (pcFetches s)) \<le> (if pcState s = kFetchingUrl then 1 else 0) \<and>
     length (filter (\<lambda>f. f = FetchClose) (pcFetches s)) \<le> (if pcFetching s then 1 else 0) \<and>
     (pcFetching s \<longrightarrow> pcState s \<noteq> kConnNew \<and> pcState s \<noteq> kFetchingUrl \<and> validUrl s) \<and>
     (filter (\<lambda>f. f \<noteq> FetchClose) (pcFetches s) \<noteq> [] \<longrightarrow> \<not> validUrl s)"

definition stateOk :: "PC \<Rightarrow> bool" where
  "stateOk s \<longleftrightarrow> PAssert AtConn \<notin> set (pcOut s) \<and> (pcHeartbeat s \<longrightarrow> isOnline s) \<and>
     (isOnline s \<longrightarrow> pcRetry s = None \<and> \<not> pcTimer s \<and> pcWs s \<and> validUrl s) \<and> (pcWs s \<longrightarrow> kConnecting \<le> pcState s)"

definition connInv :: "PC \<Rightarrow> bool" where
  "connInv s \<longleftrightarrow> stateOk s \<and> retryOk s \<and> reqsOk s \<and> fetchOk s"

lemma coreD:
  assumes "coreV t = coreV s"
  shows "pcState t = pcState s" "pcHeartbeat t = pcHeartbeat s" "pcRetry t = pcRetry s" "pcGen t = pcGen s"
    "pcPromise t = pcPromise s" "pcPromFor t = pcPromFor s" "pcTimer t = pcTimer s" "pcFetching t = pcFetching s"
    "pcFetches t = pcFetches s" "pcDnsReqs t = pcDnsReqs s" "pcWs t = pcWs s" "pcDns t = pcDns s"
    "(PAssert AtConn \<in> set (pcOut t)) = (PAssert AtConn \<in> set (pcOut s))" "isOnline t = isOnline s" "validUrl t = validUrl s"
  using assms by (simp_all add: coreV_def isOnline_def validUrl_def)

lemma connInv_core:
  assumes "coreV t = coreV s"
  shows "connInv t = connInv s"
proof -
  note c = coreD [OF assms]
  have "reqOk t = reqOk s" by (rule ext) (simp only: reqOk_def c)
  then show ?thesis by (simp only: connInv_def stateOk_def retryOk_def reqsOk_def fetchOk_def c)
qed

lemma connInv_wsOk: "connInv s \<Longrightarrow> wsOk s"
  by (simp add: connInv_def stateOk_def wsOk_def)

lemma inv_silent:
  assumes "silent st" "connInv s"
  shows "wp st connInv (\<lambda>_. False) s"
proof (rule wp_mono [OF silentD [OF assms(1) connInv_wsOk [OF assms(2)] refl]])
  fix t assume "coreV t = coreV s"
  then show "connInv t" using connInv_core assms(2) by blast
qed

section \<open>Disconnecting\<close>

definition disc :: "PC \<Rightarrow> PC" where
  "disc s = s\<lparr>pcState := kDisconnected, pcHeartbeat := False, pcWs := False,
     pcTimer := (if pcState s = kDisconnected then pcTimer s else True)\<rparr>"

lemma not_online [simp]: "isOnline s \<Longrightarrow> pcState s \<noteq> kDisconnected \<and> pcState s \<noteq> kResolving \<and> pcState s \<noteq> kConnecting \<and> pcState s \<noteq> kFetchingUrl \<and> pcState s \<noteq> kConnNew"
  by (auto simp: isOnline_def conn_order)

lemma disc_peers: "silent (doS [readS pcContacts (\<lambda>cs. forS cs (\<lambda>(u, _). updatePeerPresence env u kUnknown)),
     updatePeerPresence env (peMyHandle env) kUnknown])"
  by (auto intro!: silent_intros split: prod.split)

lemma wp_disc:
  assumes "\<not> peTerminated env" "pcState s = kDisconnected \<Longrightarrow> \<not> pcHeartbeat s \<and> \<not> pcWs s"
  shows "wp (setConnState env kDisconnected) (\<lambda>t. coreV t = coreV (disc s)) (\<lambda>_. False) s"
proof (cases "pcState s = kDisconnected")
  case True
  then show ?thesis using assms(2) by (simp add: setConnState_def wp_simps disc_def coreV_def)
next
  case False
  let ?P = "\<lambda>t. coreV t = coreV (s\<lparr>pcState := kDisconnected\<rparr>)" and ?Q = "\<lambda>t. coreV t = coreV (s\<lparr>pcState := kDisconnected, pcHeartbeat := False\<rparr>)"
  have "wp (onDisconnected env) (\<lambda>t. coreV t = coreV (disc s)) (\<lambda>_. False) u" if u: "?P u" for u
    unfolding onDisconnected_def
  proof (rule wp_step [where P = ?Q])
    show "wp (modS (pcHeartbeat_update (\<lambda>_. False))) ?Q (\<lambda>_. False) u" using coreD [OF u] by (simp add: wp_simps coreV_def)
    fix v assume v: "?Q v"
    show "wp (doS [whenS pcWs [outP PWsDisconnect, modS (pcWs_update (\<lambda>_. False))], modS (pcTimer_update (\<lambda>_. \<not> peTerminated env)),
        readS pcContacts (\<lambda>cs. forS cs (\<lambda>(u, _). updatePeerPresence env u kUnknown)), updatePeerPresence env (peMyHandle env) kUnknown])
        (\<lambda>t. coreV t = coreV (disc s)) (\<lambda>_. False) v"
    proof (rule wp_step [where P = "\<lambda>t. coreV t = coreV (s\<lparr>pcState := kDisconnected, pcHeartbeat := False, pcWs := False\<rparr>)"])
      show "wp (whenS pcWs [outP PWsDisconnect, modS (pcWs_update (\<lambda>_. False))])
          (\<lambda>t. coreV t = coreV (s\<lparr>pcState := kDisconnected, pcHeartbeat := False, pcWs := False\<rparr>)) (\<lambda>_. False) v"
        using coreD [OF v] by (simp add: wp_simps outP_def coreV_def)
      fix w assume w: "coreV w = coreV (s\<lparr>pcState := kDisconnected, pcHeartbeat := False, pcWs := False\<rparr>)"
      show "wp (doS [modS (pcTimer_update (\<lambda>_. \<not> peTerminated env)), readS pcContacts (\<lambda>cs. forS cs (\<lambda>(u, _). updatePeerPresence env u kUnknown)),
          updatePeerPresence env (peMyHandle env) kUnknown]) (\<lambda>t. coreV t = coreV (disc s)) (\<lambda>_. False) w"
      proof (rule wp_step [where P = "\<lambda>t. coreV t = coreV (disc s)"])
        show "wp (modS (pcTimer_update (\<lambda>_. \<not> peTerminated env))) (\<lambda>t. coreV t = coreV (disc s)) (\<lambda>_. False) w"
          using coreD [OF w] assms(1) False by (simp add: wp_simps coreV_def disc_def)
        fix x :: PC assume x: "coreV x = coreV (disc s)"
        then have "wsOk x" using coreV_wsOk [OF x] by (simp add: wsOk_def disc_def isOnline_def conn_order)
        then show "wp (doS [readS pcContacts (\<lambda>cs. forS cs (\<lambda>(u, _). updatePeerPresence env u kUnknown)), updatePeerPresence env (peMyHandle env) kUnknown])
            (\<lambda>t. coreV t = coreV (disc s)) (\<lambda>_. False) x"
          using x by (rule silentD [OF disc_peers])
      qed
    qed
  qed
  then have "wp (doS [onDisconnected env]) (\<lambda>t. coreV t = coreV (disc s)) (\<lambda>_. False)
      (s\<lparr>pcState := kDisconnected, pcOut := pcOut s @ [PConnState kDisconnected]\<rparr>)"
    by (simp add: coreV_def)
  then show ?thesis using False by (simp add: setConnState_def wp_simps outP_def)
qed

section \<open>Connecting\<close>

lemma wp_assertP: "b s \<Longrightarrow> wp (assertAt a b) Q R s = Q s"
  by (simp add: assertAt_def wp_simps)

lemma assert_core: "b s \<Longrightarrow> wp (assertAt a b) (\<lambda>t. t = s) (\<lambda>_. False) s"
  by (simp add: wp_assertP)

definition pendingFor :: "PC \<Rightarrow> nat \<Rightarrow> RC \<Rightarrow> bool" where
  "pendingFor s g c \<longleftrightarrow> pcRetry s = Some (g, c) \<and> rcOk c \<and> pcPromise s = PromPending \<and> (\<exists>i. pcPromFor s = Some (g, i))"

lemma pendingFor_core:
  assumes "coreV t = coreV s"
  shows "pendingFor t g c = pendingFor s g c"
  by (simp only: pendingFor_def coreD [OF assms])

lemma pendingFor_upd [simp]:
  "pendingFor (s\<lparr>pcState := a\<rparr>) g c = pendingFor s g c" "pendingFor (s\<lparr>pcWs := b\<rparr>) g c = pendingFor s g c"
  "pendingFor (disc s) g c = pendingFor s g c"
  by (simp_all add: pendingFor_def disc_def)

lemma wp_reject:
  assumes "pendingFor s g c"
  shows "wp connectReject (\<lambda>t. coreV t = coreV (s\<lparr>pcPromise := PromRejected\<rparr>)) (\<lambda>_. False) s"
  using assms by (auto simp: connectReject_def pendingFor_def wp_simps rcSet_def onFail_def rcOk_def coreV_def)

definition failed :: "PC \<Rightarrow> PC" where
  "failed s = s\<lparr>pcState := kDisconnected, pcHeartbeat := False, pcWs := False, pcTimer := True, pcPromise := PromRejected\<rparr>"

lemma wp_close_failed:
  assumes "\<not> peTerminated env" "pcState s = kResolving \<or> pcState s = kConnecting" "pendingFor s g c"
  shows "wp (onSocketCloseG env recon) (\<lambda>t. coreV t = coreV (failed s)) (\<lambda>_. False) s"
proof -
  let ?rest = "doS [modS (\<lambda>s. s\<lparr>pcIpv6 := \<not> pcIpv6 s, pcTargetIp := []\<rparr>),
    doS [assertP (\<lambda>s. pcRetry s \<noteq> None), assertP (\<lambda>s. pcPromise s \<noteq> PromResolved), whenS (\<lambda>s. pcPromise s = PromPending) [connectReject]]]"
  have d: "pcTimer (disc s)" using assms(2) by (auto simp: disc_def)
  have "wp ?rest (\<lambda>t. coreV t = coreV (failed s)) (\<lambda>_. False) u" if u: "coreV u = coreV (disc s)" for u
  proof -
    let ?u = "u\<lparr>pcIpv6 := \<not> pcIpv6 u, pcTargetIp := []\<rparr>"
    have "coreV ?u = coreV (disc s)" using u by (simp add: coreV_def)
    then have p: "pendingFor ?u g c" "coreV (?u\<lparr>pcPromise := PromRejected\<rparr>) = coreV (failed s)"
      using assms(3) pendingFor_core [of ?u "disc s"] d by (simp, simp add: coreV_def failed_def) (simp add: disc_def)
    have "wp connectReject (\<lambda>t. coreV t = coreV (failed s)) (\<lambda>_. False) ?u"
      using wp_reject [OF p(1)] p(2) by simp
    then show ?thesis using p(1) by (simp add: wp_simps wp_assertP pendingFor_def)
  qed
  then have "wp (doS [setConnState env kDisconnected, ?rest]) (\<lambda>t. coreV t = coreV (failed s)) (\<lambda>_. False) s"
    by (intro wp_step [OF wp_disc]) (use assms in auto)
  then show ?thesis
    using assms(1,2) by (auto simp: onSocketCloseG_def wp_simps conn_order)
qed

lemma validUrl_record:
  assumes "validUrl s"
  shows "\<exists>r. getRecord (pcDns s) kPresencedShard = Some r \<and> Url_isValid (drUrl r) \<and> getUrl (pcDns s) kPresencedShard = Inr (drUrl r)"
  using assms by (auto simp: validUrl_def isValidUrl_def getUrl_def split: option.splits)

lemma wp_doConnect:
  assumes "\<not> peTerminated env" "pcState s = kResolving" "pendingFor s g c" "validUrl s" "\<not> pcWs s" "\<not> pcHeartbeat s"
    "snd (getIp (pcDns s) kPresencedShard)"
  shows "wp (doConnect env) (\<lambda>t. (\<exists>b. coreV t = coreV (s\<lparr>pcState := kConnecting, pcWs := b\<rparr>)) \<or> coreV t = coreV (failed s)) (\<lambda>_. False) s"
    (is "wp _ ?Q _ _")
proof -
  obtain r :: DnsRecord where r: "Url_isValid (drUrl r)" "getUrl (pcDns s) kPresencedShard = Inr (drUrl r)"
    using validUrl_record [OF assms(4)] by blast
  obtain ip4 ip6 where ip: "getIp (pcDns s) kPresencedShard = ((ip4, ip6), True)"
    using assms(7) by (cases "getIp (pcDns s) kPresencedShard") auto
  have f: "wp (onSocketCloseG env (throwS AssertFail)) ?Q (\<lambda>_. False) u" if u: "coreV u = coreV (s\<lparr>pcState := kConnecting\<rparr>)" for u
  proof -
    have "pcState u = kResolving \<or> pcState u = kConnecting" "pendingFor u g c" "coreV (failed u) = coreV (failed s)"
      using u assms(3) pendingFor_core [OF u] by (simp_all add: coreV_def failed_def)
    then have "wp (onSocketCloseG env (throwS AssertFail)) (\<lambda>t. coreV t = coreV (failed s)) (\<lambda>_. False) u"
      using wp_close_failed [OF assms(1)] by metis
    then show ?thesis by (rule wp_mono) simp_all
  qed
  define Q where "Q = ?Q"
  have f': "wp (onSocketCloseG env (throwS AssertFail)) Q (\<lambda>_. False) u" if "coreV u = coreV (s\<lparr>pcState := kConnecting, pcWs := False\<rparr>)" for u
    unfolding Q_def by (rule f) (use that assms(5) in \<open>simp add: coreV_def\<close>)
  have q: "Q u" if "coreV u = coreV (s\<lparr>pcState := kConnecting, pcWs := pcWs u\<rparr>)" for u
    unfolding Q_def using that by blast
  have "wp (doConnect env) Q (\<lambda>_. False) s"
    using assms(2,5) r
    by (auto simp: doConnect_def ip wp_simps wp_assertP setConnState_def wsConnect_def outP_def Let_def)
      (auto simp: coreV_def intro!: f' q)
  then show ?thesis by (simp only: Q_def)
qed

section \<open>Attempts\<close>

text \<open>No lookup of the current attempt is waiting for its answer to connect.\<close>

definition noWaiting :: "PC \<Rightarrow> nat \<Rightarrow> RC \<Rightarrow> bool" where
  "noWaiting s g c \<longleftrightarrow> (\<forall>r \<in> set (pcDnsReqs s). drGen r = g \<longrightarrow> drAttempt r = mCurrentAttemptNo c \<longrightarrow> drCached r)"

lemma inv_connecting:
  assumes "connInv s" "pcState s = kResolving" "pendingFor s g c" "noWaiting s g c"
  shows "connInv (s\<lparr>pcState := kConnecting, pcWs := b\<rparr>)" "connInv (failed s)"
proof -
  have v: "validUrl (s\<lparr>pcState := kConnecting, pcWs := b\<rparr>) = validUrl s" "validUrl (failed s) = validUrl s"
    by (simp_all add: validUrl_def failed_def)
  show "connInv (s\<lparr>pcState := kConnecting, pcWs := b\<rparr>)" "connInv (failed s)"
    using assms v unfolding connInv_def stateOk_def retryOk_def reqsOk_def reqOk_def fetchOk_def noWaiting_def pendingFor_def
    by (auto simp: isOnline_def conn_order failed_def)
qed

definition attemptReady :: "PC \<Rightarrow> nat \<Rightarrow> RC \<Rightarrow> nat \<Rightarrow> bool" where
  "attemptReady s g c n \<longleftrightarrow> stateOk s \<and> fetchOk s \<and> \<not> isOnline s \<and> pcState s \<noteq> kConnNew \<and> pcState s \<noteq> kFetchingUrl \<and>
     pcRetry s = Some (g, c) \<and> rcOk c \<and> mState c = kStateInProgress \<and> mCurrentAttemptNo c = n \<and> g < pcGen s \<and> validUrl s \<and>
     distinct (map (\<lambda>r. (drGen r, drAttempt r)) (pcDnsReqs s)) \<and>
     (\<forall>r \<in> set (pcDnsReqs s). drGen r < pcGen s \<and> (drGen r = g \<longrightarrow> drAttempt r < n))"

definition attempted :: "PC \<Rightarrow> nat \<Rightarrow> nat \<Rightarrow> DnsReq list \<Rightarrow> PC" where
  "attempted s g i rs = (disc s)\<lparr>pcState := kResolving, pcPromise := PromPending, pcPromFor := Some (g, i), pcDnsReqs := pcDnsReqs s @ rs\<rparr>"

lemma attempted_inv:
  assumes "attemptReady s g c n" "\<forall>r \<in> set rs. drGen r = g \<and> drAttempt r = n" "length rs \<le> 1"
  shows "connInv (attempted s g i rs)" "pendingFor (attempted s g i rs) g c" "validUrl (attempted s g i rs)"
    "\<not> pcWs (attempted s g i rs)" "\<not> pcHeartbeat (attempted s g i rs)" "pcState (attempted s g i rs) = kResolving"
proof -
  have v: "validUrl (attempted s g i rs) = validUrl s" by (simp add: validUrl_def attempted_def disc_def)
  have d: "distinct (map (\<lambda>r. (drGen r, drAttempt r)) (pcDnsReqs s @ rs))"
  proof -
    have "distinct (map (\<lambda>r. (drGen r, drAttempt r)) rs)" using assms(3) by (cases rs) auto
    moreover have "distinct (map (\<lambda>r. (drGen r, drAttempt r)) (pcDnsReqs s))" using assms(1) by (simp add: attemptReady_def)
    moreover have "(drGen x, drAttempt x) \<noteq> (drGen y, drAttempt y)" if "x \<in> set (pcDnsReqs s)" "y \<in> set rs" for x y
      using assms(1,2) that by (auto simp: attemptReady_def)
    ultimately show ?thesis by fastforce
  qed
  have a: "stateOk s" "fetchOk s" "\<not> isOnline s" "pcState s \<noteq> kConnNew" "pcState s \<noteq> kFetchingUrl" "pcRetry s = Some (g, c)"
    "rcOk c" "mState c = kStateInProgress" "mCurrentAttemptNo c = n" "g < pcGen s" "validUrl s"
    "\<forall>r \<in> set (pcDnsReqs s). drGen r < pcGen s \<and> (drGen r = g \<longrightarrow> drAttempt r < n)"
    using assms(1) by (simp_all add: attemptReady_def)
  have "stateOk (attempted s g i rs)"
    using a(1) by (simp add: stateOk_def attempted_def disc_def isOnline_def conn_order)
  moreover have "retryOk (attempted s g i rs)"
    using a v by (simp add: retryOk_def) (simp add: attempted_def disc_def)
  moreover have "reqsOk (attempted s g i rs)"
    using d a assms(2) by (auto simp: reqsOk_def reqOk_def attempted_def disc_def)
  moreover have "fetchOk (attempted s g i rs)"
    using a(2,4,5) v by (auto simp: fetchOk_def attempted_def disc_def)
  ultimately show "connInv (attempted s g i rs)" by (simp add: connInv_def)
  show "pendingFor (attempted s g i rs) g c" "validUrl (attempted s g i rs)" "\<not> pcWs (attempted s g i rs)"
    "\<not> pcHeartbeat (attempted s g i rs)" "pcState (attempted s g i rs) = kResolving"
    using a v by (simp_all add: pendingFor_def attempted_def disc_def)
qed

lemma inv_doConnect:
  assumes "\<not> peTerminated env" "connInv s" "pcState s = kResolving" "pendingFor s g c" "noWaiting s g c" "validUrl s"
    "snd (getIp (pcDns s) kPresencedShard)"
  shows "wp (doConnect env) connInv (\<lambda>_. False) s"
proof (rule wp_mono [OF wp_doConnect [OF assms(1,3,4,6)]])
  show "\<not> pcWs s" "\<not> pcHeartbeat s" "snd (getIp (pcDns s) kPresencedShard)"
    using assms(2,3,7) by (auto simp: connInv_def stateOk_def isOnline_def conn_order)
  fix t assume "(\<exists>b. coreV t = coreV (s\<lparr>pcState := kConnecting, pcWs := b\<rparr>)) \<or> coreV t = coreV (failed s)"
  then show "connInv t" using inv_connecting [OF assms(2-5)] connInv_core by metis
qed simp

lemma resolveStatus_nonneg [simp]: "\<not> resolveStatus env < 0"
  by (simp add: resolveStatus_def)

lemma inv_attempt:
  assumes "\<not> peTerminated env" "attemptReady s g c n"
  shows "wp (presAttempt env g n i) connInv (\<lambda>_. False) s"
proof -
  have dd: "pcState s = kDisconnected \<Longrightarrow> \<not> pcHeartbeat s \<and> \<not> pcWs s"
    using assms(2) by (auto simp: attemptReady_def stateOk_def conn_order)
  have ok: "validUrl s" using assms(2) by (simp add: attemptReady_def)
  define rs where "rs = (\<lambda>u :: PC. if peResolveFails env then [] else [\<lparr>drGen = g, drAttempt = n, drCached = snd (getIp (pcDns s) kPresencedShard)\<rparr>])"
  have rest: "wp (if snd (getIp (pcDns s) kPresencedShard) then doConnect env else doS []) connInv (\<lambda>_. False) v"
    if v: "coreV v = coreV (attempted s g i (rs v))" for v
  proof -
    note a = attempted_inv [OF assms(2), of "rs v" i]
    have ci: "connInv v" and p: "pendingFor v g c" and vu: "validUrl v" and st: "pcState v = kResolving"
      using a connInv_core [OF v] pendingFor_core [OF v] coreD [OF v] by (auto simp: rs_def)
    have dn: "pcDns v = pcDns s" "pcDnsReqs v = pcDnsReqs s @ rs v"
      using coreD [OF v] by (simp_all add: attempted_def disc_def)
    show ?thesis
    proof (cases "snd (getIp (pcDns s) kPresencedShard)")
      case True
      have "noWaiting v g c" using assms(2) True by (auto simp: noWaiting_def dn(2) attemptReady_def rs_def)
      then show ?thesis using inv_doConnect [OF assms(1) ci st p _ vu] True dn(1) by simp
    next
      case False
      then show ?thesis using ci by (simp add: wp_simps)
    qed
  qed
  show ?thesis
    unfolding presAttempt_def
  proof (rule wp_step [OF wp_disc [OF assms(1) dd]])
    fix u :: PC assume u: "coreV u = coreV (disc s)"
    then have d: "pcState u = kDisconnected" "pcDns u = pcDns s" by (simp_all add: coreV_def disc_def)
    obtain url where url: "getUrl (pcDns s) kPresencedShard = Inr url" using validUrl_record [OF ok] by blast
    define v where "v = u\<lparr>pcPromise := PromPending, pcPromFor := Some (g, i), pcState := kResolving,
      pcOut := pcOut u @ [PConnState kResolving, PResolveHost (host url)]\<rparr>"
    have v: "coreV v = coreV (attempted s g i [])" "coreV (v\<lparr>pcDnsReqs := pcDnsReqs u @ x\<rparr>) = coreV (attempted s g i x)" for x
      using u by (simp_all add: v_def coreV_def attempted_def) (auto simp: disc_def)
    have w: "wp (if snd (getIp (pcDns s) kPresencedShard) then doConnect env else doS []) connInv (\<lambda>_. False)
        (if peResolveFails env then v else v\<lparr>pcDnsReqs := pcDnsReqs u @ [\<lparr>drGen = g, drAttempt = n, drCached = snd (getIp (pcDns s) kPresencedShard)\<rparr>]\<rparr>)"
      by (rule rest) (use v in \<open>simp add: rs_def\<close>)
    from w show "wp (doS [modS (\<lambda>s. s\<lparr>pcPromise := PromPending, pcPromFor := Some (g, i)\<rparr>),
     getS (\<lambda>s. getUrl (pcDns s) kPresencedShard) (\<lambda>url.
       readS (\<lambda>s. snd (getIp (pcDns s) kPresencedShard)) (\<lambda>cachedIPs. doS [
         setConnState env kResolving,
         outP (PResolveHost (host url)),
         (if peResolveFails env then doS [] else modS (\<lambda>s. s\<lparr>pcDnsReqs := pcDnsReqs s @
            [\<lparr>drGen = g, drAttempt = n, drCached = cachedIPs\<rparr>]\<rparr>)),
         (if resolveStatus env < 0
          then doS [assertP (\<lambda>s. pcState s = kResolving), assertP (\<lambda>s. pcPromise s = PromPending), connectReject]
          else if cachedIPs then doConnect env else doS [])]))]) connInv (\<lambda>_. False) u"
      using d by (cases "peResolveFails env"; cases "snd (getIp (pcDns s) kPresencedShard)") (simp_all add: wp_simps url setConnState_def outP_def v_def)
  qed
qed

section \<open>Reconnecting\<close>

lemma wp_Nil: "wp (doS []) Q R = Q"
  by (rule ext) (simp add: wp_simps)

lemma wp_modS_fun: "wp (modS f) Q R = (\<lambda>s. Q (f s))"
  by (rule ext) (simp add: wp_simps)

lemma wp_tryS: "wp st Q (\<lambda>_. False) s \<Longrightarrow> wp (tryS st) Q (\<lambda>_. False) s"
  by (auto simp: wp_def tryS_def split: prod.splits option.splits)

lemma calls_simps [simp]:
  "calls [] = []" "calls (SetTimeout n # as) = calls as" "calls (CancelTimeout # as) = calls as"
  "calls (CallFunc n i # as) = (n, i) # calls as"
  by (simp_all add: calls_def)

definition startedController :: RC where
  "startedController = newController\<lparr>mState := kStateInProgress, mCurrentAttemptNo := 1, mCurrentAttemptId := 1, mTimer := AttemptTimer 1\<rparr>"

lemma start_controller: "\<exists>n. rcStart newController 0 = Inr (startedController, [SetTimeout n, CallFunc 1 1])"
  by (simp add: rcStart_def nextTry_def newController_def newRetryController_def startedController_def Let_def)

lemma rcOk_started: "rcOk startedController"
  by (simp add: rcOk_def startedController_def newController_def newRetryController_def)

lemma inv_reconnect:
  assumes "\<not> peTerminated env" "connInv s" "pcRetry s = None" "\<not> pcHeartbeat s" "filter (\<lambda>f. f \<noteq> FetchClose) (pcFetches s) = []"
  shows "wp (presReconnect env) connInv (\<lambda>_. False) s"
proof -
  let ?body = "whenS (\<lambda>s. pcState s < kResolving \<and> validUrl s) [setConnState env kResolving, abortRetryController,
      modS (\<lambda>s. s\<lparr>pcRetry := Some (pcGen s, newController), pcGen := Suc (pcGen s)\<rparr>), rcRun env (\<lambda>c. rcStart c 0)]"
  have wrap: ?thesis if "wp ?body connInv (\<lambda>_. False) s"
    using wp_tryS [OF that] assms(1,3,4) by (simp add: presReconnect_def wp_doS wp_assertP wp_Nil del: doS_simps)
  show ?thesis
proof (cases "pcState s < kResolving \<and> validUrl s")
  case True
  then have on: "\<not> isOnline s" "pcState s \<noteq> kConnecting" "pcState s \<noteq> kResolving" by (auto simp: isOnline_def conn_order)
  let ?u = "s\<lparr>pcState := kResolving, pcOut := pcOut s @ [PConnState kResolving], pcRetry := Some (pcGen s, newController), pcGen := Suc (pcGen s)\<rparr>"
  let ?v = "?u\<lparr>pcRetry := Some (pcGen s, startedController)\<rparr>"
  have "attemptReady ?v (pcGen s) startedController 1"
    using assms(2-5) True on rcOk_started
    by (auto simp: attemptReady_def connInv_def stateOk_def fetchOk_def reqsOk_def reqOk_def isOnline_def conn_order validUrl_def startedController_def)
  then have "wp (presAttempt env (pcGen s) 1 1) connInv (\<lambda>_. False) ?v"
    by (rule inv_attempt [OF assms(1)])
  then have "wp (rcRun env (\<lambda>c. rcStart c 0)) connInv (\<lambda>_. False) ?u"
    using start_controller by (auto simp: rcRun_def wp_simps wp_Nil)
  then have "wp (?body) connInv (\<lambda>_. False) s"
    using True on assms(3) by (simp add: wp_simps setConnState_def outP_def abortRetryController_def)
  then show ?thesis by (rule wrap)
next
  case False
  then have "wp (?body) connInv (\<lambda>_. False) s"
    using assms(2) by (auto simp: wp_simps)
  then show ?thesis by (rule wrap)
qed
qed

text \<open>Disconnected and without controller.\<close>

definition idle :: "PC \<Rightarrow> PC" where
  "idle s = (disc s)\<lparr>pcRetry := None\<rparr>"

lemma inv_idle:
  assumes "connInv s" "pcState s \<noteq> kConnNew" "filter (\<lambda>f. f \<noteq> FetchClose) (pcFetches s) = []"
  shows "connInv (idle s)"
proof -
  have "stateOk (idle s)" using assms(1) by (simp add: connInv_def stateOk_def idle_def disc_def isOnline_def conn_order)
  moreover have "retryOk (idle s)" by (simp add: retryOk_def idle_def disc_def)
  moreover have "reqsOk (idle s)" using assms(1) by (simp add: connInv_def reqsOk_def reqOk_def idle_def disc_def)
  moreover have "fetchOk (idle s)" using assms by (simp add: connInv_def fetchOk_def idle_def disc_def validUrl_def)
  ultimately show ?thesis by (simp add: connInv_def)
qed

lemma inv_disconnected: "connInv s \<Longrightarrow> pcState s = kDisconnected \<Longrightarrow> \<not> pcHeartbeat s \<and> \<not> pcWs s"
  by (auto simp: connInv_def stateOk_def isOnline_def conn_order)

lemma wp_idle:
  assumes "\<not> peTerminated env" "connInv s" "\<And>t. coreV t = coreV (idle s) \<Longrightarrow> wp (doS k) Q (\<lambda>_. False) t"
  shows "wp (doS (setConnState env kDisconnected # abortRetryController # k)) Q (\<lambda>_. False) s"
proof (rule wp_step [OF wp_disc [OF assms(1) inv_disconnected [OF assms(2)]]])
  fix t :: PC assume t: "coreV t = coreV (disc s)"
  then have "pcState t = kDisconnected" by (simp add: coreV_def disc_def)
  then have "wp abortRetryController (\<lambda>t. coreV t = coreV (idle s)) (\<lambda>_. False) t"
  proof (cases "pcRetry (disc s) = None")
    case True
    then show ?thesis using t by (simp add: abortRetryController_def wp_simps coreV_def idle_def)
  next
    case False
    then have "pcRetry t \<noteq> None" "\<not> isOnline t"
      using coreD(3) [OF t] \<open>pcState t = kDisconnected\<close> by (simp_all add: isOnline_def conn_order)
    then show ?thesis using t by (simp add: abortRetryController_def wp_ifS wp_doS wp_basic wp_assertP) (simp add: coreV_def idle_def)
  qed
  then show "wp (doS (abortRetryController # k)) Q (\<lambda>_. False) t"
    by (rule wp_step) (rule assms(3))
qed

lemma inv_forced:
  assumes "\<not> peTerminated env" "connInv s" "pcState s \<noteq> kConnNew" "filter (\<lambda>f. f \<noteq> FetchClose) (pcFetches s) = []"
  shows "wp (doS [setConnState env kDisconnected, abortRetryController, presReconnect env]) connInv (\<lambda>_. False) s"
proof (rule wp_idle [OF assms(1,2)])
  fix t :: PC assume t: "coreV t = coreV (idle s)"
  then have "connInv t" "pcRetry t = None" "\<not> pcHeartbeat t" "filter (\<lambda>f. f \<noteq> FetchClose) (pcFetches t) = []"
    using inv_idle [OF assms(2-4)] connInv_core [OF t] assms(4) by (simp_all add: coreV_def idle_def disc_def)
  then show "wp (doS [presReconnect env]) connInv (\<lambda>_. False) t"
    using inv_reconnect [OF assms(1)] by simp
qed

lemma inv_fetches: "connInv s \<Longrightarrow> pcState s \<noteq> kFetchingUrl \<Longrightarrow> filter (\<lambda>f. f \<noteq> FetchClose) (pcFetches s) = []"
  by (simp add: connInv_def fetchOk_def)

section \<open>The timers of the controller\<close>

lemma inv_retry_state:
  assumes "connInv s" "pcRetry s = Some (g, c)"
  shows "g < pcGen s" "rcOk c" "\<not> isOnline s" "pcState s \<noteq> kConnNew" "pcState s \<noteq> kFetchingUrl" "validUrl s" "\<not> pcHeartbeat s"
  using assms by (auto simp: connInv_def retryOk_def stateOk_def isOnline_def conn_order)

text \<open>Changes of the controller alone.\<close>

lemma ready_changed:
  assumes "connInv s" "pcRetry s = Some (g, c)" "rcOk c'" "mState c' = kStateInProgress"
    "\<forall>r \<in> set (pcDnsReqs s). drGen r = g \<longrightarrow> drAttempt r < mCurrentAttemptNo c'"
  shows "attemptReady (s\<lparr>pcRetry := Some (g, c')\<rparr>) g c' (mCurrentAttemptNo c')"
  using assms inv_retry_state [OF assms(1,2)]
  by (auto simp: attemptReady_def connInv_def stateOk_def fetchOk_def reqsOk_def reqOk_def isOnline_def validUrl_def)

lemma inv_delayTimer:
  assumes "\<not> peTerminated env" "connInv s"
  shows "wp (rcDelayTimer env) connInv (\<lambda>_. False) s"
proof (cases "\<exists>g c. pcRetry s = Some (g, c) \<and> mTimer c = DelayTimer")
  case True
  then obtain g c where r: "pcRetry s = Some (g, c)" and t: "mTimer c = DelayTimer" by blast
  have c: "rcOk c" "mState c = kStateRetryWait"
    using inv_retry_state(2) [OF assms(2) r] t by (auto simp: rcOk_def)
  let ?c = "c\<lparr>mTimer := AttemptTimer (mCurrentAttemptId c), mState := kStateInProgress\<rparr>"
  obtain n where d: "onDelayTimer c = Inr (?c, [SetTimeout n, CallFunc (mCurrentAttemptNo c) (mCurrentAttemptId c)])"
    using c by (simp add: onDelayTimer_def nextTry_def rcOk_def Let_def)
  have "\<forall>q \<in> set (pcDnsReqs s). drGen q = g \<longrightarrow> drAttempt q < mCurrentAttemptNo ?c"
    using assms(2) r c(2) by (auto simp: connInv_def reqsOk_def reqOk_def le_less)
  then have "attemptReady (s\<lparr>pcRetry := Some (g, ?c)\<rparr>) g ?c (mCurrentAttemptNo c)"
    using ready_changed [OF assms(2) r, of ?c] c by (simp add: rcOk_def)
  then have "wp (presAttempt env g (mCurrentAttemptNo c) (mCurrentAttemptId c)) connInv (\<lambda>_. False) (s\<lparr>pcRetry := Some (g, ?c)\<rparr>)"
    by (rule inv_attempt [OF assms(1)])
  then have "wp (rcRun env onDelayTimer) connInv (\<lambda>_. False) s"
    by (simp add: rcRun_def wp_ifS wp_doS wp_basic r d wp_Nil)
  then show ?thesis using True by (simp add: rcDelayTimer_def wp_ifS)
next
  case False
  then show ?thesis using assms(2) by (auto simp: rcDelayTimer_def wp_ifS wp_Nil)
qed

lemma inv_restart:
  assumes "\<not> peTerminated env" "connInv s" "pcRetry s = Some (g, c)" "mState c = kStateRetryWait" "\<forall>r \<in> set (pcDnsReqs s). drGen r \<noteq> g"
  shows "wp (rcRun env (\<lambda>c. rcRestart c 0)) connInv (\<lambda>_. False) s"
proof -
  have c: "rcOk c" by (rule inv_retry_state(2) [OF assms(2,3)])
  let ?i = "mCurrentAttemptId c + 1"
  let ?c = "c\<lparr>mTimer := AttemptTimer ?i, mState := kStateInProgress, mCurrentAttemptId := ?i, mCurrentAttemptNo := 1\<rparr>"
  obtain n where d: "rcRestart c 0 = Inr (?c, [CancelTimeout, SetTimeout n, CallFunc 1 ?i])"
    using c assms(4) by (auto simp: rcRestart_def cancelTimer_def rcStart_def nextTry_def rcOk_def Let_def)
  have "attemptReady (s\<lparr>pcRetry := Some (g, ?c)\<rparr>) g ?c 1"
    using ready_changed [OF assms(2,3), of ?c] c assms(5) by (simp add: rcOk_def)
  then have "wp (presAttempt env g 1 ?i) connInv (\<lambda>_. False) (s\<lparr>pcRetry := Some (g, ?c)\<rparr>)"
    by (rule inv_attempt [OF assms(1)])
  then show ?thesis by (simp add: rcRun_def wp_ifS wp_doS wp_basic assms(3) d wp_Nil)
qed

lemma inv_attemptTimer:
  assumes "connInv s"
  shows "wp (rcAttemptTimer env rand) connInv (\<lambda>_. False) s"
proof (cases "\<exists>g c i. pcRetry s = Some (g, c) \<and> mTimer c = AttemptTimer i")
  case True
  then obtain g c i where r: "pcRetry s = Some (g, c)" and t: "mTimer c = AttemptTimer i" by blast
  have c: "rcOk c" "mState c = kStateInProgress" "i = mCurrentAttemptId c"
    using inv_retry_state(2) [OF assms r] t by (auto simp: rcOk_def)
  let ?c = "c\<lparr>mTimer := DelayTimer, mCurrentAttemptNo := mCurrentAttemptNo c + 1, mCurrentAttemptId := mCurrentAttemptId c + 1, mState := kStateRetryWait\<rparr>"
  obtain n where d: "onAttemptTimeout None c i rand = Inr (?c, [SetTimeout n])"
    using c by (simp add: onAttemptTimeout_def callCancel_def schedNextRetry_def rcOk_def Let_def)
  have "stateOk (s\<lparr>pcRetry := Some (g, ?c)\<rparr>)" using assms inv_retry_state(3) [OF assms r] by (simp add: connInv_def stateOk_def isOnline_def)
  moreover have "retryOk (s\<lparr>pcRetry := Some (g, ?c)\<rparr>)"
    using assms r c(1) by (auto simp: connInv_def retryOk_def rcOk_def validUrl_def)
  moreover have "reqsOk (s\<lparr>pcRetry := Some (g, ?c)\<rparr>)"
    using assms r by (auto simp: connInv_def reqsOk_def reqOk_def)
  moreover have "fetchOk (s\<lparr>pcRetry := Some (g, ?c)\<rparr>)" using assms by (simp add: connInv_def fetchOk_def validUrl_def)
  ultimately have "connInv (s\<lparr>pcRetry := Some (g, ?c)\<rparr>)" by (simp add: connInv_def)
  then have "wp (rcRun env (\<lambda>c. onAttemptTimeout None c i rand)) connInv (\<lambda>_. False) s"
    by (simp add: rcRun_def wp_ifS wp_doS wp_basic r d wp_Nil)
  then show ?thesis using r t by (simp add: rcAttemptTimer_def wp_basic)
next
  case False
  then show ?thesis using assms by (auto simp: rcAttemptTimer_def wp_basic wp_Nil split: option.split Timer.split)
qed

section \<open>Retrying and the socket\<close>

text \<open>No lookup of a waiting controller is still open when it is restarted.\<close>

definition noStale :: "PC \<Rightarrow> bool" where
  "noStale s \<longleftrightarrow> (\<forall>g c. pcRetry s = Some (g, c) \<longrightarrow> mState c = kStateRetryWait \<longrightarrow> (\<forall>r \<in> set (pcDnsReqs s). drGen r \<noteq> g))"

lemma removeRecord_invalid [simp]: "isValidUrl (removeRecord k c) k = False"
  by (simp add: isValidUrl_def)

lemma inv_retryPending:
  assumes "\<not> peTerminated env" "\<not> peAnonymous env" "connInv s" "d \<or> r \<or> noStale s"
  shows "wp (retryPendingConnection env d r) connInv (\<lambda>_. False) s"
proof -
  have fetch: "wp (doS [setConnState env kDisconnected, abortRetryController,
      modS (\<lambda>s. s\<lparr>pcDns := removeRecord kPresencedShard (pcDns s)\<rparr>), fetchUrl env FetchRetry k]) connInv (\<lambda>_. False) s"
    if "pcState s \<noteq> kConnNew" "pcState s \<noteq> kFetchingUrl" "\<not> pcFetching s" for k
  proof (rule wp_idle [OF assms(1,3)])
    fix t :: PC assume t: "coreV t = coreV (idle s)"
    have i: "connInv t" using inv_idle [OF assms(3) that(1) inv_fetches [OF assms(3) that(2)]] connInv_core [OF t] by simp
    have f: "pcState t = kDisconnected" "pcRetry t = None" "\<not> pcFetching t" "\<not> pcHeartbeat t" "\<not> pcWs t"
      "filter (\<lambda>f. f \<noteq> FetchClose) (pcFetches t) = []"
      using t that(3) inv_fetches [OF assms(3) that(2)] by (simp_all add: coreV_def idle_def disc_def)
    let ?t = "t\<lparr>pcDns := removeRecord kPresencedShard (pcDns t), pcState := kFetchingUrl, pcOut := pcOut t @ [PConnState kFetchingUrl, PGetUrl],
      pcFetches := pcFetches t @ [FetchRetry]\<rparr>"
    have "connInv ?t"
      using i f by (simp add: connInv_def stateOk_def retryOk_def reqsOk_def reqOk_def fetchOk_def isOnline_def conn_order validUrl_def)
    then show "wp (doS [modS (\<lambda>s. s\<lparr>pcDns := removeRecord kPresencedShard (pcDns s)\<rparr>), fetchUrl env FetchRetry k]) connInv (\<lambda>_. False) t"
      using f(1) assms(2) by (simp add: fetchUrl_def wp_doS wp_basic wp_ifS wp_Nil setConnState_def outP_def validUrl_def)
  qed
  have forced: "wp (doS [setConnState env kDisconnected, abortRetryController, presReconnect env]) connInv (\<lambda>_. False) s"
    if "pcState s \<noteq> kConnNew" "validUrl s"
    using that assms(3) by (intro inv_forced [OF assms(1,3)]) (auto simp: connInv_def fetchOk_def)
  have restart: "wp (rcRun env (\<lambda>c. rcRestart c 0)) connInv (\<lambda>_. False) s"
    if "pcRetry s = Some (g, c)" "mState c = kStateRetryWait" "\<not> d" "\<not> r" for g c
    using that assms(4) by (intro inv_restart [OF assms(1,3)]) (auto simp: noStale_def)
  show ?thesis
  proof (cases "pcState s = kConnNew \<or> ((r \<or> \<not> validUrl s) \<and> (pcState s = kFetchingUrl \<or> pcFetching s))")
    case True
    then show ?thesis
      using assms(3) by (auto simp: retryPendingConnection_def numeral_2_eq_2 wp_ifS wp_Nil simp del: doS.simps)
  next
    case n: False
    show ?thesis
    proof (cases "r \<or> \<not> validUrl s")
      case True
      then show ?thesis
        using n fetch by (simp add: retryPendingConnection_def numeral_2_eq_2 wp_ifS del: doS.simps)
    next
      case f: False
      show ?thesis
      proof (cases "d \<or> (\<exists>g c. pcRetry s = Some (g, c) \<and> mState c = kStateRetryWait)")
        case True
        then show ?thesis
          using n f forced restart inv_retry_state [OF assms(3)]
          by (auto simp: retryPendingConnection_def numeral_2_eq_2 wp_ifS wp_doS wp_assertP wp_Nil)
      next
        case False
        then show ?thesis
          using n f assms(3) by (auto simp: retryPendingConnection_def numeral_2_eq_2 wp_ifS wp_Nil)
      qed
    qed
  qed
qed

lemma connInv_time [simp]: "connInv (s\<lparr>pcTsConn := a\<rparr>) = connInv s" "connInv (s\<lparr>pcConnCount := b\<rparr>) = connInv s"
  by (rule connInv_core, simp add: coreV_def)+

lemma validUrl_connectDone [simp]: "isValidUrl (connectDone n k ip c) k' = isValidUrl c k'"
  by (cases "getRecord c k'") (auto simp: isValidUrl_def connectDone_def markConnected_def)

lemma inv_connected:
  assumes "connInv s" "pcState s = kConnecting" "pcWs s"
  shows "wp (setConnState env kConnected) connInv (\<lambda>_. False) s"
proof -
  obtain g c i where r: "pcRetry s = Some (g, c)" "pcPromise s = PromPending" "pcPromFor s = Some (g, i)"
    using assms(1,2) by (auto simp: connInv_def retryOk_def split: option.splits)
  note rs = inv_retry_state [OF assms(1) r(1)]
  let ?u = "s\<lparr>pcState := kConnected, pcOut := pcOut s @ [PConnState kConnected],
    pcDns := connectDone (nat (peNow env)) kPresencedShard (pcTargetIp s) (pcDns s), pcPromise := PromResolved,
    pcTsPing := 0, pcTsRecv := peNow env, pcHeartbeat := True\<rparr>"
  have fin: "connInv ((rcSet g f t)\<lparr>pcRetry := None, pcTimer := False\<rparr>)" if t: "coreV t = coreV ?u" for t :: PC and f
  proof -
    have o: "isOnline ?u" by (simp add: isOnline_def conn_order)
    have "connInv (?u\<lparr>pcRetry := None, pcTimer := False\<rparr>)"
      using assms rs(6) by (auto simp: connInv_def stateOk_def retryOk_def reqsOk_def reqOk_def fetchOk_def isOnline_def conn_order validUrl_def)
    moreover have "coreV ((rcSet g f t)\<lparr>pcRetry := None, pcTimer := False\<rparr>) = coreV (?u\<lparr>pcRetry := None, pcTimer := False\<rparr>)"
      using t by (simp add: coreV_def rcSet_def split: option.split sum.split prod.split)
    ultimately show ?thesis using connInv_core by blast
  qed
  have w: "wsOk ?u" using assms(3) by (simp add: wsOk_def)
  have "wp (presLogin env) (\<lambda>t. connInv ((rcSet g (\<lambda>c. onSuccess c i) t)\<lparr>pcRetry := None, pcTimer := False\<rparr>)) (\<lambda>_. False) ?u"
    by (rule wp_mono [OF silentD [OF silent_peers(3) w refl]]) (simp_all only: fin)
  then show ?thesis
    using assms(2) r by (simp add: setConnState_def onConnected_def connectResolve_def wp_ifS wp_doS wp_basic wp_assertP wp_Nil wp_modS_fun outP_def isOnline_def conn_order)
qed

lemma inv_wsConnectCb:
  assumes "\<not> peTerminated env" "\<not> peAnonymous env" "connInv s" "pcWs s"
  shows "wp (wsConnectCb env) connInv (\<lambda>_. False) s"
proof (cases "pcState s = kConnecting")
  case True
  have c: "wp (setConnState env kConnected) connInv (\<lambda>_. False) (s\<lparr>pcTsConn := a, pcConnCount := b\<rparr>)"
    "wp (setConnState env kConnected) connInv (\<lambda>_. False) (s\<lparr>pcConnCount := b\<rparr>)"
    "wp (retryPendingConnection env True True) connInv (\<lambda>_. False) (s\<lparr>pcTsConn := a, pcConnCount := 0\<rparr>)" for a b
    using True assms by (auto intro!: inv_connected inv_retryPending)
  show ?thesis
    using True c(1) [where a = "peNow env" and b = 0] c(2) c(3) by (simp add: wsConnectCb_def wp_ifS wp_basic wp_doS resetConnSuceededAttempts_def wp_Nil)
next
  case False
  then show ?thesis using assms(3) by (simp add: wsConnectCb_def wp_ifS wp_Nil)
qed

lemma inv_close:
  assumes "\<not> peTerminated env" "stateOk (s\<lparr>pcWs := True\<rparr>)" "retryOk s" "reqsOk s" "fetchOk s" "kConnecting \<le> pcState s" "\<not> pcWs s"
  shows "wp (onSocketClose env) connInv (\<lambda>_. False) s"
proof (cases "isOnline s")
  case True
  have st: "pcState s \<noteq> kDisconnected" "pcState s \<noteq> kFetchingUrl" "kConnected \<le> pcState s" using True by (auto simp: isOnline_def conn_order)
  have rn: "pcRetry s = None" using assms(2) True by (simp add: stateOk_def isOnline_def)
  have fe: "filter (\<lambda>f. f \<noteq> FetchClose) (pcFetches s) = []" using assms(5) st(2) by (simp add: fetchOk_def)
  have i: "connInv (disc s)"
    using assms(2-5) st rn by (simp add: connInv_def stateOk_def retryOk_def reqsOk_def reqOk_def fetchOk_def disc_def isOnline_def conn_order validUrl_def)
  have "wp (doS [modS (\<lambda>s. s\<lparr>pcIpv6 := \<not> pcIpv6 s, pcTargetIp := []\<rparr>), doS [assertP (\<lambda>s. pcRetry s = None), presReconnect env]])
      connInv (\<lambda>_. False) t" if t: "coreV t = coreV (disc s)" for t
  proof -
    let ?t = "t\<lparr>pcIpv6 := \<not> pcIpv6 t, pcTargetIp := []\<rparr>"
    have "coreV ?t = coreV (disc s)" using t by (simp add: coreV_def)
    then have "connInv ?t" using i connInv_core by blast
    moreover have "pcRetry t = None" "\<not> pcHeartbeat t" "pcFetches t = pcFetches s"
      using t rn by (simp_all add: coreV_def disc_def)
    ultimately have "wp (presReconnect env) connInv (\<lambda>_. False) ?t" "pcRetry ?t = None"
      using inv_reconnect [OF assms(1), of ?t] fe by simp_all
    then show ?thesis by (simp add: wp_doS wp_basic wp_assertP wp_Nil)
  qed
  then have "wp (doS [setConnState env kDisconnected, modS (\<lambda>s. s\<lparr>pcIpv6 := \<not> pcIpv6 s, pcTargetIp := []\<rparr>),
      doS [assertP (\<lambda>s. pcRetry s = None), presReconnect env]]) connInv (\<lambda>_. False) s"
    by (intro wp_step [OF wp_disc [OF assms(1)]]) (use st in auto)
  then show ?thesis
    using assms(1) st by (simp add: onSocketClose_def onSocketCloseG_def wp_ifS wp_basic del: doS.simps)
next
  case False
  then have st: "pcState s = kConnecting" using assms(6) by (cases "pcState s") (auto simp: isOnline_def conn_order)
  then obtain g c where r: "pendingFor s g c" "validUrl s"
    using assms(3) by (auto simp: retryOk_def pendingFor_def split: option.splits)
  have "stateOk s" "stateOk (failed s)" using assms(2,7) st by (simp_all add: stateOk_def isOnline_def failed_def conn_order)
  moreover have "retryOk (failed s)" using assms(3) st by (auto simp: retryOk_def failed_def validUrl_def split: option.splits prod.splits)
  moreover have "reqsOk (failed s)" using assms(4) st by (auto simp: reqsOk_def reqOk_def failed_def split: option.splits)
  moreover have "fetchOk (failed s)" using assms(5) st by (simp add: fetchOk_def failed_def validUrl_def)
  ultimately have "connInv (failed s)" by (simp add: connInv_def)
  then show ?thesis
    unfolding onSocketClose_def
    by (intro wp_mono [OF wp_close_failed [OF assms(1) _ r(1)]]) (use st connInv_core in blast)+
qed

lemma inv_wsClose:
  assumes "\<not> peTerminated env" "connInv s"
  shows "wp (wsCloseCbPrivate env) connInv (\<lambda>_. False) s"
proof (cases "pcWs s")
  case True
  have st: "kConnecting \<le> pcState s" "pcState s \<noteq> kFetchingUrl" "pcState s \<noteq> kConnNew" "validUrl s"
    using assms(2) True by (auto simp: connInv_def stateOk_def retryOk_def isOnline_def conn_order split: option.splits) (cases "pcState s"; simp)+
  let ?s = "s\<lparr>pcWs := False\<rparr>" and ?t = "s\<lparr>pcWs := False, pcFetching := True, pcOut := pcOut s @ [PGetUrl], pcFetches := pcFetches s @ [FetchClose]\<rparr>"
  have c: "wp (onSocketClose env) connInv (\<lambda>_. False) ?s"
    by (rule inv_close [OF assms(1)])
      (use assms(2) st True in \<open>simp_all add: connInv_def stateOk_def retryOk_def reqsOk_def reqOk_def fetchOk_def isOnline_def validUrl_def split: option.splits prod.splits\<close>)
  have d: "wp (onSocketClose env) connInv (\<lambda>_. False) ?t" if "\<not> pcFetching s"
    by (rule inv_close [OF assms(1)])
      (use assms(2) st True that in \<open>simp_all add: connInv_def stateOk_def retryOk_def reqsOk_def reqOk_def fetchOk_def isOnline_def validUrl_def split: option.splits prod.splits\<close>)
  show ?thesis
    using True st(2) c d by (simp add: wsCloseCbPrivate_def wsCloseCb_def wp_ifS wp_doS wp_basic outP_def wp_Nil)
next
  case False
  then show ?thesis using assms(2) by (simp add: wsCloseCbPrivate_def wp_ifS wp_Nil)
qed

lemma inv_connectTimeout:
  assumes "\<not> peTerminated env" "\<not> peAnonymous env" "connInv s"
  shows "wp (connectTimeout env) connInv (\<lambda>_. False) s"
proof (cases "pcTimer s")
  case True
  let ?s = "s\<lparr>pcTimer := False, pcOut := pcOut s @ [PStat 99005]\<rparr>"
  have "connInv ?s"
    using assms(3) by (simp add: connInv_def stateOk_def retryOk_def reqsOk_def reqOk_def fetchOk_def isOnline_def validUrl_def split: option.splits prod.splits)
  then have "wp (retryPendingConnection env True False) connInv (\<lambda>_. False) ?s"
    by (rule inv_retryPending [OF assms(1,2)]) simp
  then show ?thesis using True by (simp add: connectTimeout_def wp_ifS wp_doS wp_basic outP_def wp_Nil)
next
  case False
  then show ?thesis using assms(3) by (simp add: connectTimeout_def wp_ifS wp_Nil)
qed

section \<open>Heartbeat, messages and answers\<close>

lemma wp_sendK:
  assumes "connInv s" "\<And>ok t. coreV t = coreV s \<Longrightarrow> wp (k ok) connInv (\<lambda>_. False) t"
  shows "wp (sendCommand env b k) connInv (\<lambda>_. False) s"
proof -
  have w: "isOnline s \<Longrightarrow> pcWs s" using connInv_wsOk [OF assms(1)] by (simp add: wsOk_def)
  have "coreV (s\<lparr>pcOut := pcOut s @ [PSent b], pcTsSend := n\<rparr>) = coreV s" for n by (simp add: coreV_def)
  then have "wp (k ok) connInv (\<lambda>_. False) (s\<lparr>pcOut := pcOut s @ [PSent b], pcTsSend := n\<rparr>)" for ok n
    by (rule assms(2))
  then show ?thesis
    using w assms(2) [OF refl] by (simp add: sendCommand_def wp_ifS wp_doS wp_basic wp_Nil outP_def)
qed

lemma inv_heartbeat:
  assumes "\<not> peTerminated env" "connInv s"
  shows "wp (presHeartbeat env) connInv (\<lambda>_. False) s"
proof (cases "pcHeartbeat s")
  case True
  then have st: "pcState s \<noteq> kConnNew" "pcState s \<noteq> kFetchingUrl" using assms(2) by (auto simp: connInv_def stateOk_def)
  let ?recon = "doS [setConnState env kDisconnected, abortRetryController, presReconnect env]"
  let ?ping = "sendKeepalive env (\<lambda>ok. if ok then doS [] else ?recon)"
  have r: "wp ?recon connInv (\<lambda>_. False) t" "connInv t" if "coreV t = coreV s" for t
  proof -
    have "connInv t" using connInv_core [OF that] assms(2) by simp
    moreover have "pcState t \<noteq> kConnNew" "pcState t \<noteq> kFetchingUrl" using coreD(1) [OF that] st by simp_all
    ultimately show "wp ?recon connInv (\<lambda>_. False) t" "connInv t"
      using inv_forced [OF assms(1)] inv_fetches by blast+
  qed
  have p: "wp ?ping connInv (\<lambda>_. False) t" if t: "coreV t = coreV s" for t
  proof -
    have "coreV (t\<lparr>pcTsPing := n\<rparr>) = coreV s" for n using t by (simp add: coreV_def)
    then have "wp (sendCommand env cmdKeepalive (\<lambda>ok. if ok then doS [] else ?recon)) connInv (\<lambda>_. False) (t\<lparr>pcTsPing := n\<rparr>)" for n
      using r by (intro wp_sendK) (auto simp: wp_Nil simp del: doS.simps)
    then show ?thesis by (simp add: sendKeepalive_def wp_doS wp_basic wp_Nil)
  qed
  have si: "silent (whenS (\<lambda>s. autoAwayInEffect (pcConfig s) \<and> pcLastSentActive s
         \<and> peNow env - pcTsActivity s > cfAutoawayTimeout (pcConfig s) \<and> \<not> peInCall env) [sendUserActive env False False])"
    by (auto intro!: silent_intros)
  have "wp (doS [whenS (\<lambda>s. autoAwayInEffect (pcConfig s) \<and> pcLastSentActive s
         \<and> peNow env - pcTsActivity s > cfAutoawayTimeout (pcConfig s) \<and> \<not> peInCall env) [sendUserActive env False False],
       readS (\<lambda>s. s) (\<lambda>s.
        if peNow env - pcTsSend s > kKeepaliveSendInterval then ?ping
        else if pcTsPing s \<noteq> 0 then (if peNow env - pcTsPing s > kKeepaliveReplyTimeout then ?recon else doS [])
        else if peNow env - pcTsRecv s \<ge> kKeepaliveSendInterval then ?ping
        else doS [])]) connInv (\<lambda>_. False) s"
    by (rule wp_step [OF silentD [OF si connInv_wsOk [OF assms(2)] refl]])
      (use p r in \<open>auto simp: wp_basic wp_Nil simp del: doS.simps\<close>)
  then show ?thesis using True by (simp add: presHeartbeat_def Let_def wp_ifS del: doS.simps)
next
  case False
  then show ?thesis using assms(2) by (simp add: presHeartbeat_def wp_ifS wp_Nil)
qed

text \<open>Commands of the server, which it sends after the login.\<close>

lemma inv_command:
  assumes "connInv s" "isOnline s"
  shows "wp (presCommand env c) (\<lambda>t. connInv t \<and> isOnline t) (\<lambda>_. False) s"
proof -
  have sil: "wp st (\<lambda>t. connInv t \<and> isOnline t) (\<lambda>_. False) s" if "silent st" "connInv s" "isOnline s" for st and s :: PC
  proof (rule wp_mono [OF silentD [OF that(1) connInv_wsOk [OF that(2)] refl]])
    fix t assume t: "coreV t = coreV s"
    show "connInv t \<and> isOnline t" using connInv_core [OF t] coreD(14) [OF t] that by simp
  qed
  show ?thesis
  proof (cases c)
    case (PPrefs w)
    let ?s = "if pcState s < kLoggedIn then s\<lparr>pcState := kLoggedIn, pcOut := pcOut s @ [PConnState kLoggedIn]\<rparr> else s"
    have k: "connInv ?s" "isOnline ?s"
      using assms by (auto simp: connInv_def stateOk_def retryOk_def reqsOk_def reqOk_def fetchOk_def isOnline_def validUrl_def conn_order
          split: option.splits prod.splits)
    have "silent (case w of None \<Rightarrow> doS [] | Some w \<Rightarrow> doS [
        whenS (\<lambda>s. \<not> (pcAckWait s \<and> w = toCode (pcConfig s)))
          [modS (\<lambda>s. s\<lparr>pcConfig := fromCode w\<rparr>),
           whenS (\<lambda>s. \<not> pcAckWait s \<and> b) [initialActivity env]],
        modS (\<lambda>s. s\<lparr>pcAckWait := False\<rparr>),
        configChanged env])" for b
      by (auto intro!: silent_intros silent_app simp: coreV_def split: option.split)
    from sil [OF this k] show ?thesis
      using PPrefs by (auto simp: presCommand_def onPrefs_def wp_basic wp_doS wp_Nil setConnState_def wp_ifS outP_def split: if_splits)
  qed (use sil [OF _ assms] in \<open>auto simp: presCommand_def intro!: silent_intros silent_app\<close>)
qed

lemma inv_wsMsg:
  assumes "connInv s" "isOnline s"
  shows "wp (wsHandleMsgCb env buf) connInv (\<lambda>_. False) s"
proof -
  let ?s = "s\<lparr>pcTsRecv := peNow env, pcTsPing := 0\<rparr>"
  have c: "coreV ?s = coreV s" by (simp add: coreV_def)
  have "wp (handleMessage env buf) (\<lambda>t. (connInv t \<and> isOnline t) = True) (\<lambda>_. False) ?s"
    unfolding handleMessage_def
    by (rule wp_forS) (use inv_command connInv_core [OF c] coreD(14) [OF c] assms in auto)
  then have "wp (handleMessage env buf) connInv (\<lambda>_. False) ?s" by (rule wp_mono) simp_all
  moreover have "pcWs s" using assms connInv_wsOk by (simp add: wsOk_def)
  ultimately show ?thesis by (simp add: wsHandleMsgCb_def wp_ifS wp_doS wp_basic wp_Nil)
qed

lemma connInv_dns:
  assumes "connInv s" "isValidUrl d kPresencedShard = validUrl s \<or>
    pcState s = kFetchingUrl \<and> filter (\<lambda>f. f \<noteq> FetchClose) (pcFetches s) = []"
  shows "connInv (s\<lparr>pcDns := d\<rparr>)"
  using assms by (auto simp: connInv_def stateOk_def retryOk_def reqsOk_def reqOk_def fetchOk_def isOnline_def validUrl_def conn_order
      split: option.splits prod.splits)

lemma wp_dnsS: "wp (dnsS st) Q R s = (case st (pcDns s) of (d, None) \<Rightarrow> Q (s\<lparr>pcDns := d\<rparr>) | (d, Some e) \<Rightarrow> R (s\<lparr>pcDns := d\<rparr>))"
  by (auto simp: wp_def dnsS_def split: prod.splits option.splits)

lemma inv_connect:
  assumes "\<not> peTerminated env" "\<not> peAnonymous env" "connInv s" "pcState s = kConnNew"
  shows "wp (presConnect env) connInv (\<lambda>_. False) s"
proof (cases "validUrl s")
  case True
  have "wp (presReconnect env) connInv (\<lambda>_. False) s"
    by (rule inv_reconnect [OF assms(1,3)])
      (use assms(3,4) inv_fetches [OF assms(3)] in \<open>auto simp: connInv_def retryOk_def stateOk_def isOnline_def conn_order split: option.splits\<close>)
  then show ?thesis
    using True assms(4) by (simp add: presConnect_def fetchUrl_def wp_doS wp_ifS wp_assertP wp_Nil)
next
  case False
  let ?s = "s\<lparr>pcState := kFetchingUrl, pcOut := pcOut s @ [PConnState kFetchingUrl, PGetUrl], pcFetches := pcFetches s @ [FetchConnect]\<rparr>"
  have "connInv ?s"
    using assms(3,4) False by (auto simp: connInv_def stateOk_def retryOk_def reqsOk_def reqOk_def fetchOk_def isOnline_def conn_order validUrl_def
        split: option.splits prod.splits)
  then show ?thesis
    using False assms(2,4) by (simp add: presConnect_def fetchUrl_def wp_doS wp_ifS wp_basic wp_assertP wp_Nil setConnState_def outP_def)
qed

lemma stol_catch: "stol xs = Inl e \<Longrightarrow> catchable e"
  by (auto simp: stol_def Let_def catchable_def split: if_splits)

lemma Url_parse_catch: "Url_parse url = Inl e \<Longrightarrow> catchable e"
  by (auto simp: Url_parse_def scanAuthority_def Let_def bindR_def catchable_def dest!: stol_catch split: if_splits sum.splits prod.splits option.splits)

lemma addRecord_result:
  "snd (addRecord k url sess b c) = None \<or> (\<exists>e. addRecord k url sess b c = (c, Some e) \<and> catchable e)"
  using Url_parse_catch [of url]
  by (auto simp: addRecord_def ifS_def getS_def modS_def split: sum.split)

lemma Url_parse_valid: "Url_parse url = Inr u \<Longrightarrow> Url_isValid u"
  by (auto simp: Url_parse_def Url_isValid_def Let_def bindR_def split: if_splits sum.splits prod.splits option.splits)

lemma updateRecord_valid:
  assumes "hasRecord c k" "Url_parse url = Inr u"
  shows "\<exists>d. updateRecord k url True c = (d, None) \<and> isValidUrl d k"
  using assms Url_parse_valid [OF assms(2)]
  by (auto simp: updateRecord_def ifS_def modS_def isValidUrl_def hasRecord_def withVersion_def Url_isValid_def)

lemma connInv_fetches:
  assumes "connInv s" "length (filter (\<lambda>f. f \<noteq> FetchClose) fs) \<le> length (filter (\<lambda>f. f \<noteq> FetchClose) (pcFetches s))"
    "length (filter (\<lambda>f. f = FetchClose) fs) \<le> (if b then 1 else 0)" "b \<longrightarrow> pcFetching s"
  shows "connInv (s\<lparr>pcFetches := fs, pcFetching := b\<rparr>)"
proof -
  have "filter (\<lambda>f. f \<noteq> FetchClose) fs \<noteq> [] \<Longrightarrow> filter (\<lambda>f. f \<noteq> FetchClose) (pcFetches s) \<noteq> []"
    using assms(2) by auto
  then show ?thesis
    using assms by (auto simp: connInv_def stateOk_def retryOk_def reqsOk_def reqOk_def fetchOk_def isOnline_def validUrl_def
        split: option.splits prod.splits)
qed

lemma filter_delNth: "i < length xs \<Longrightarrow> length (filter P (delNth i xs)) + (if P (xs ! i) then 1 else 0) = length (filter P xs)"
  by (subst (3) id_take_nth_drop [of i xs]) (simp_all add: delNth_def)

lemma doS_flat: "doS [a, b, c] = doS [a, doS [b, c]]"
proof
  fix s
  obtain t e where "a s = (t, e)" by (cases "a s")
  then show "doS [a, b, c] s = doS [a, doS [b, c]] s" by (cases e) simp_all
qed

lemma inv_urlReply:
  assumes "\<not> peTerminated env" "\<not> peAnonymous env" "connInv s"
  shows "wp (urlReply env i res) connInv (\<lambda>_. False) s"
proof (cases "i < length (pcFetches s)")
  case i: True
  let ?fs = "delNth i (pcFetches s)"
  have len: "length (filter (\<lambda>f. f \<noteq> FetchClose) ?fs) \<le> length (filter (\<lambda>f. f \<noteq> FetchClose) (pcFetches s))"
    "length (filter (\<lambda>f. f = FetchClose) ?fs) \<le> length (filter (\<lambda>f. f = FetchClose) (pcFetches s))"
    using filter_delNth [OF i, of "\<lambda>f. f \<noteq> FetchClose"] filter_delNth [OF i, of "\<lambda>f. f = FetchClose"] by (simp_all split: if_splits)
  let ?s = "s\<lparr>pcFetches := ?fs\<rparr>"
  have k: "connInv ?s"
    using connInv_fetches [OF assms(3) len(1), of "pcFetching s"] len(2) assms(3) by (simp add: connInv_def fetchOk_def)
  have fetched: "wp (doS [(if url = [] then doS [] else dnsS (addRecord kPresencedShard url None True)), rest]) connInv (\<lambda>_. False) ?s \<or>
      (\<exists>t e. (doS [(if url = [] then doS [] else dnsS (addRecord kPresencedShard url None True)), rest]) ?s = (t, Some e) \<and> catchable e \<and> connInv t)"
    if st: "pcState s = kFetchingUrl" "filter (\<lambda>f. f \<noteq> FetchClose) ?fs = []"
      and rest: "\<And>t. connInv t \<Longrightarrow> pcState t = kFetchingUrl \<Longrightarrow> filter (\<lambda>f. f \<noteq> FetchClose) (pcFetches t) = [] \<Longrightarrow> wp rest connInv (\<lambda>_. False) t" for rest url
  proof (cases "url = []")
    case True
    then show ?thesis using rest [OF k] st by (simp add: wp_doS wp_Nil)
  next
    case False
    have d: "connInv (?s\<lparr>pcDns := d\<rparr>)" for d by (rule connInv_dns [OF k]) (use st in simp)
    obtain d r where ar: "addRecord kPresencedShard url None True (pcDns s) = (d, r)" by (cases "addRecord kPresencedShard url None True (pcDns s)")
    show ?thesis
    proof (cases r)
      case None
      then have "wp rest connInv (\<lambda>_. False) (?s\<lparr>pcDns := d\<rparr>)" using st by (intro rest d) simp_all
      then show ?thesis using False None ar by (simp add: wp_doS wp_Nil wp_dnsS)
    next
      case (Some e)
      then have "catchable e" using addRecord_result [of kPresencedShard url None True "pcDns s"] ar by auto
      then show ?thesis using False Some ar d by (simp add: dnsS_def)
    qed
  qed
  have tr: "wp (tryS st) connInv (\<lambda>_. False) ?s"
    if "wp st connInv (\<lambda>_. False) ?s \<or> (\<exists>t e. st ?s = (t, Some e) \<and> catchable e \<and> connInv t)" for st
    using that wp_tryS [of st connInv ?s] by (auto simp: wp_def tryS_def)
  have main: "wp (tryS (onUrl env (pcFetches s ! i) url)) connInv (\<lambda>_. False) ?s" for url
  proof (cases "pcFetches s ! i = FetchClose")
    case True
    then have "filter (\<lambda>f. f = FetchClose) (pcFetches s) \<noteq> []" using nth_mem [OF i] by (auto simp: filter_empty_conv)
    then have f: "pcFetching s" "validUrl s" "length (filter (\<lambda>f. f = FetchClose) (pcFetches s)) = 1"
      using assms(3) by (auto simp: connInv_def fetchOk_def le_Suc_eq split: if_splits)
    let ?u = "?s\<lparr>pcFetching := False\<rparr>"
    have u: "connInv ?u"
      using connInv_fetches [OF assms(3) len(1), of False] filter_delNth [OF i, of "\<lambda>f. f = FetchClose"] f(3) True by simp
    obtain r :: DnsRecord where r: "getRecord (pcDns s) kPresencedShard = Some r" "getUrl (pcDns s) kPresencedShard = Inr (drUrl r)"
      using validUrl_record [OF f(2)] by blast
    show ?thesis
    proof (cases "url = []")
      case True
      have "wp (onUrl env FetchClose url) connInv (\<lambda>_. False) ?s" using True u by (simp add: onUrl_def wp_doS wp_basic wp_Nil)
      then show ?thesis using \<open>pcFetches s ! i = FetchClose\<close> by (intro tr) simp
    next
      case False
      show ?thesis
      proof (cases "Url_parse url")
        case (Inl e)
        then have "onUrl env FetchClose url ?s = (?u, Some e)" using False by (simp add: onUrl_def modS_def getS_def)
        then show ?thesis using Url_parse_catch [OF Inl] u \<open>pcFetches s ! i = FetchClose\<close> by (intro tr) simp
      next
        case (Inr p)
        obtain d where d: "updateRecord kPresencedShard url True (pcDns s) = (d, None)" "isValidUrl d kPresencedShard"
          using updateRecord_valid [OF _ Inr, of "pcDns s" kPresencedShard] r(1) by (auto simp: hasRecord_def)
        let ?v = "?u\<lparr>pcTsConn := peNow env, pcConnCount := 0, pcDns := d\<rparr>"
        have "connInv ((?u\<lparr>pcTsConn := peNow env, pcConnCount := 0\<rparr>)\<lparr>pcDns := d\<rparr>)"
          by (rule connInv_dns) (use u d(2) f(2) in \<open>simp_all add: validUrl_def\<close>)
        then have "wp (retryPendingConnection env True False) connInv (\<lambda>_. False) ?v"
          by (intro inv_retryPending [OF assms(1,2)]) simp_all
        then have "wp (onUrl env FetchClose url) connInv (\<lambda>_. False) ?s"
          using u r(2) Inr d(1) False
          by (simp add: onUrl_def wp_doS wp_basic wp_Nil wp_dnsS resetConnSuceededAttempts_def)
        then show ?thesis using \<open>pcFetches s ! i = FetchClose\<close> by (intro tr) simp
      qed
    qed
  next
    case False
    then have "filter (\<lambda>f. f \<noteq> FetchClose) (pcFetches s) \<noteq> []" using nth_mem [OF i] by (auto simp: filter_empty_conv)
    then have f: "pcState s = kFetchingUrl" "length (filter (\<lambda>f. f \<noteq> FetchClose) (pcFetches s)) = 1"
      using assms(3) by (auto simp: connInv_def fetchOk_def le_Suc_eq split: if_splits)
    then have e: "filter (\<lambda>f. f \<noteq> FetchClose) ?fs = []"
      using filter_delNth [OF i, of "\<lambda>f. f \<noteq> FetchClose"] False by simp
    have recon: "wp (presReconnect env) connInv (\<lambda>_. False) t"
      if "connInv t" "pcState t = kFetchingUrl" "filter (\<lambda>f. f \<noteq> FetchClose) (pcFetches t) = []" for t
      by (rule inv_reconnect [OF assms(1) that(1) _ _ that(3)])
        (use that(1,2) in \<open>auto simp: connInv_def retryOk_def stateOk_def isOnline_def conn_order split: option.splits\<close>)
    have retr: "wp (doS [resetConnSuceededAttempts (peNow env), retryPendingConnection env True False]) connInv (\<lambda>_. False) t"
      if "connInv t" "pcState t = kFetchingUrl" "filter (\<lambda>f. f \<noteq> FetchClose) (pcFetches t) = []" for t
      using inv_retryPending [OF assms(1,2), of "t\<lparr>pcTsConn := peNow env, pcConnCount := 0\<rparr>" True False] that(1)
      by (simp add: wp_doS wp_basic wp_Nil resetConnSuceededAttempts_def)
    show ?thesis
    proof (cases "pcFetches s ! i")
      case FetchConnect
      show ?thesis unfolding FetchConnect onUrl_def Fetch.case
        by (rule tr [OF fetched [OF f(1) e]]) (rule recon)
    next
      case FetchRetry
      show ?thesis unfolding FetchRetry onUrl_def Fetch.case doS_flat
        by (rule tr [OF fetched [OF f(1) e]]) (rule retr)
    next
      case FetchClose
      with False show ?thesis by simp
    qed
  qed
  show ?thesis using i k main by (auto simp: urlReply_def wp_basic wp_doS wp_Nil split: option.split)
next
  case False
  then show ?thesis using assms(3) by (simp add: urlReply_def wp_basic wp_Nil)
qed

end
