(* ===== verification/PresSafe.thy ===== *)
theory PresSafe
  imports PresInv
begin

text \<open>
  The invariant of the presence connection over whole runs: the answers to name lookups, every event of the
  environment, and from there the safety of the connection's assertions.
\<close>

section \<open>Answers to name lookups\<close>

lemma setIps_valid:
  assumes "validUrl s" "v4 \<noteq> [] \<or> v6 \<noteq> []" "[] \<notin> set v4 \<union> set v6"
  shows "\<exists>d. setIps n kPresencedShard v4 v6 (pcDns s) = (d, None) \<and> isValidUrl d kPresencedShard \<and> snd (getIp d kPresencedShard)"
proof -
  obtain r :: DnsRecord where r: "getRecord (pcDns s) kPresencedShard = Some r" "Url_isValid (drUrl r)"
    using validUrl_record [OF assms(1)] by blast
  show ?thesis
  proof (cases "isMatch (pcDns s) kPresencedShard v4 v6")
    case True
    then have "drIpv4 r \<noteq> [] \<or> drIpv6 r \<noteq> []" using assms(2,3) r(1) by (auto simp: isMatch_def matchRecord_def)
    then show ?thesis using True r by (simp add: setIps_def ifS_def isValidUrl_def getIp_def)
  next
    case False
    have "front v4 \<noteq> [] \<or> front v6 \<noteq> []" using assms(2,3) by (cases v4; cases v6) (auto simp: front_def)
    then show ?thesis using False r by (auto simp: setIps_def ifS_def isValidUrl_def getIp_def hasRecord_def modS_def storeIp_def)
  qed
qed

lemma delNth_mem: "x \<in> set (delNth i xs) \<Longrightarrow> x \<in> set xs"
  by (auto simp: delNth_def dest: in_set_takeD in_set_dropD)

lemma delNth_distinct:
  assumes "distinct (map f xs)" "i < length xs"
  shows "distinct (map f (delNth i xs))" "x \<in> set (delNth i xs) \<Longrightarrow> f x \<noteq> f (xs ! i)"
proof -
  have d: "distinct (map f (take i xs @ xs ! i # drop (Suc i) xs))"
    using assms by (simp add: id_take_nth_drop [OF assms(2), symmetric])
  then show "distinct (map f (delNth i xs))" by (auto simp: delNth_def)
  have n: "f (xs ! i) \<notin> f ` set (take i xs)" "f (xs ! i) \<notin> f ` set (drop (Suc i) xs)"
    using d by (simp_all del: set_take_disj_set_drop_if_distinct)
  assume "x \<in> set (delNth i xs)"
  then have "x \<in> set (take i xs) \<or> x \<in> set (drop (Suc i) xs)" by (simp add: delNth_def)
  then have "f x \<in> f ` set (take i xs) \<or> f x \<in> f ` set (drop (Suc i) xs)" by (blast intro: imageI)
  with n show "f x \<noteq> f (xs ! i)" by metis
qed

lemma inv_dnsReply:
  assumes "\<not> peTerminated env" "\<not> peAnonymous env" "connInv s" "[] \<notin> set v4 \<union> set v6"
  shows "wp (dnsReply env noName i st v4 v6) connInv (\<lambda>_. False) s"
proof (cases "i < length (pcDnsReqs s)")
  case i: True
  let ?rs = "delNth i (pcDnsReqs s)" and ?r = "pcDnsReqs s ! i"
  let ?s = "s\<lparr>pcDnsReqs := ?rs\<rparr>"
  have rq: "reqOk s ?r" "distinct (map (\<lambda>r. (drGen r, drAttempt r)) (pcDnsReqs s))"
    using assms(3) nth_mem [OF i] by (simp_all add: connInv_def reqsOk_def)
  have k: "connInv ?s"
    using assms(3) delNth_distinct(1) [OF rq(2) i] delNth_mem [of _ i "pcDnsReqs s"]
    by (auto simp: connInv_def stateOk_def retryOk_def reqsOk_def reqOk_def fetchOk_def isOnline_def validUrl_def
        split: option.splits prod.splits)
  have "wp (onDns env noName ?r st v4 v6) connInv (\<lambda>_. False) ?s"
  proof (cases "pcRetry s")
    case None
    have "wp (assertAt AtLateLookup (\<lambda>_. drCached ?r)) connInv (\<lambda>_. False) ?s"
      by (rule inv_silent [OF silent_assert k]) simp
    then show ?thesis using None k by (simp add: onDns_def wp_basic wp_Nil)
  next
    case (Some gc)
    then obtain g c where r: "pcRetry s = Some (g, c)" by (cases gc) auto
    note rs = inv_retry_state [OF assms(3) r]
    show ?thesis
    proof (cases "g \<noteq> drGen ?r \<or> mCurrentAttemptNo c \<noteq> drAttempt ?r")
      case True
      then show ?thesis using r k by (simp add: onDns_def wp_basic wp_Nil)
    next
      case cur: False
      then have m: "\<not> drCached ?r \<Longrightarrow> pcState s = kResolving" using rq(1) r by (simp add: reqOk_def)
      have nw: "noWaiting ?s g c" using delNth_distinct(2) [OF rq(2) i] cur by (auto simp: noWaiting_def)
      have pf: "pendingFor ?s g c" if "pcState s = kResolving"
        using assms(3) r that by (auto simp: connInv_def retryOk_def pendingFor_def)
      have on: "\<not> isOnline ?s" using rs(3) by (simp add: isOnline_def)
      show ?thesis
      proof (cases "st < 0 \<or> (v4 = [] \<and> v6 = [])")
        case True
        have "wp (retryPendingConnection env True True) connInv (\<lambda>_. False) ?s"
          by (rule inv_retryPending [OF assms(1,2) k]) simp
        moreover have "wp (onSocketClose env) connInv (\<lambda>_. False) ?s" if s: "pcState s = kResolving"
          unfolding onSocketClose_def
        proof (rule wp_mono [OF wp_close_failed [OF assms(1)]])
          show "pcState ?s = kResolving \<or> pcState ?s = kConnecting" "pendingFor ?s g c" using s pf [OF s] by (simp_all add: pendingFor_def)
          fix t :: PC assume "coreV t = coreV (failed ?s)"
          moreover have "connInv (failed ?s)"
            by (rule inv_connecting(2) [OF k _ _ nw]) (use s pf [OF s] in \<open>simp_all add: pendingFor_def\<close>)
          ultimately show "connInv t" using connInv_core by metis
        qed simp
        ultimately show ?thesis
          using True r cur k by (cases "st = noName"; cases "pcState s = kResolving")
            (simp_all add: onDns_def wp_basic wp_doS(2) wp_ifS wp_assertP wp_Nil on del: doS_simps)
      next
        case ok: False
        obtain d where d: "setIps (nat (peNow env)) kPresencedShard v4 v6 (pcDns s) = (d, None)" "isValidUrl d kPresencedShard"
            "snd (getIp d kPresencedShard)"
          using setIps_valid [OF rs(6) _ assms(4)] ok by blast
        let ?t = "?s\<lparr>pcDns := d\<rparr>"
        have t: "connInv ?t" by (rule connInv_dns [OF k]) (use d(2) rs(6) in \<open>simp add: validUrl_def\<close>)
        have "wp (doConnect env) connInv (\<lambda>_. False) ?t" if "\<not> drCached ?r"
          by (rule inv_doConnect [OF assms(1) t, where g = g and c = c])
            (use m [OF that] pf [OF m [OF that]] nw d in \<open>simp_all add: pendingFor_def noWaiting_def validUrl_def\<close>)
        moreover have "wp (retryPendingConnection env True False) connInv (\<lambda>_. False) ?t"
          by (rule inv_retryPending [OF assms(1,2) t]) simp
        ultimately show ?thesis
          using ok r cur k d(1) assms(1) by (cases "v4 = []") (simp_all add: onDns_def wp_basic wp_doS wp_dnsS wp_Nil)
      qed
    qed
  qed
  then show ?thesis using i by (simp add: dnsReply_def wp_basic wp_doS wp_Nil)
next
  case False
  then show ?thesis using assms(3) by (simp add: dnsReply_def wp_basic wp_Nil)
qed

section \<open>Every run\<close>

text \<open>
  What the environment is: the client is used while it is not terminated nor anonymous; it is connected once;
  the server speaks after the login; addresses are not empty; and a waiting controller is not restarted while
  one of its lookups is still open.
\<close>

lemma noStale_code [code]:
  "noStale s \<longleftrightarrow> (case pcRetry s of None \<Rightarrow> True | Some (g, c) \<Rightarrow>
     mState c = kStateRetryWait \<longrightarrow> (\<forall>r \<in> set (pcDnsReqs s). drGen r \<noteq> g))"
  by (auto simp: noStale_def split: option.split)

definition allowed :: "PEnv \<Rightarrow> PEvent \<Rightarrow> PC \<Rightarrow> bool" where
  "allowed env e s \<longleftrightarrow> \<not> peTerminated env \<and> \<not> peAnonymous env \<and> (case e of
     EvConnect \<Rightarrow> pcState s = kConnNew
   | EvWsMsg buf \<Rightarrow> isOnline s
   | EvDnsReply noName i st v4 v6 \<Rightarrow> [] \<notin> set v4 \<union> set v6
   | EvRetryPending d r \<Rightarrow> d \<or> r \<or> noStale s
   | _ \<Rightarrow> True)"

lemma inv_event:
  assumes "connInv s" "allowed env e s"
  shows "wp (presEvent env e) connInv (\<lambda>_. False) s"
proof (cases e)
  case (EvTlsSession sess)
  have "isValidUrl (fst (updateTlsSession sess (pcDns s))) kPresencedShard = isValidUrl (pcDns s) kPresencedShard"
    by (auto simp: updateTlsSession_def isValidUrl_def split: option.split SessAction.split)
  then have "connInv (s\<lparr>pcDns := fst (updateTlsSession sess (pcDns s))\<rparr>)"
    by (intro connInv_dns [OF assms(1)]) (simp add: validUrl_def)
  then show ?thesis using EvTlsSession by (simp add: wsSSLsessionUpdateCb_def wp_basic)
next
  case EvWsConnected
  then show ?thesis using assms inv_wsConnectCb [of env s] by (auto simp: allowed_def wp_ifS wp_Nil)
next
  case EvConnect
  then show ?thesis using assms inv_connect [of env s] by (simp add: allowed_def)
next
  case (EvUrlReply i r)
  then show ?thesis using assms inv_urlReply [of env s i r] by (simp add: allowed_def)
next
  case (EvDnsReply noName i st v4 v6)
  then show ?thesis using assms inv_dnsReply [of env s v4 v6 noName i st] by (simp add: allowed_def)
next
  case EvWsClosed
  then show ?thesis using assms inv_wsClose [of env s] by (simp add: allowed_def)
next
  case (EvWsMsg buf)
  then show ?thesis using assms inv_wsMsg [of s env buf] by (simp add: allowed_def)
next
  case EvConnectTimeout
  then show ?thesis using assms inv_connectTimeout [of env s] by (simp add: allowed_def)
next
  case EvDelayTimer
  then show ?thesis using assms inv_delayTimer [of env s] by (simp add: allowed_def)
next
  case (EvAttemptTimer r)
  then show ?thesis using assms inv_attemptTimer [of s env r] by simp
next
  case EvHeartbeat
  then show ?thesis using assms inv_heartbeat [of env s] by (simp add: allowed_def)
next
  case (EvRetryPending d r)
  then show ?thesis using assms inv_retryPending [of env s d r] by (simp add: allowed_def)
qed (simp_all add: inv_silent [OF silent_app(1)] inv_silent [OF silent_app(2)] inv_silent [OF silent_app(3)] inv_silent [OF silent_app(4)]
    inv_silent [OF silent_app(5)] inv_silent [OF silent_app(6)] inv_silent [OF silent_app(7)] inv_silent [OF silent_app(8)]
    inv_silent [OF silent_app(9)] inv_silent [OF silent_app(10)] inv_silent [OF silent_app(11)] inv_silent [OF silent_marshalled] assms(1))

primrec calm :: "(PEnv \<times> PEvent) list \<Rightarrow> PC \<Rightarrow> bool" where
  "calm [] s \<longleftrightarrow> True"
| "calm (x # xs) s \<longleftrightarrow> allowed (fst x) (snd x) s \<and> calm xs (fst (presEvent (fst x) (snd x) s))"

lemma calm_append [simp]: "calm (xs @ ys) s \<longleftrightarrow> calm xs s \<and> calm ys (runPres xs s)"
  by (induction xs arbitrary: s) (simp_all add: runPres_def case_prod_beta)

lemma wp_result: "wp st Q (\<lambda>_. False) s \<Longrightarrow> snd (st s) = None \<and> Q (fst (st s))"
  by (auto simp: wp_def split: prod.splits option.splits)

lemma inv_run: "connInv s \<Longrightarrow> calm es s \<Longrightarrow> connInv (runPres es s)"
  unfolding runPres_def
proof (induction es arbitrary: s)
  case (Cons x es)
  then show ?case using wp_result [OF inv_event [of s "fst x" "snd x"]] by (auto simp: case_prod_beta)
qed simp

lemma inv_new: "connInv (newPresClient now dns)"
  by (simp add: connInv_def newPresClient_def stateOk_def retryOk_def reqsOk_def fetchOk_def isOnline_def conn_order)


definition sampleTrace :: "(PEnv \<times> PEvent) list" where
  "sampleTrace = [(samplePEnv, EvConnect), (samplePEnv, EvUrlReply 0 (Some ''wss://p.io'')),
     (samplePEnv, EvDnsReply (-3008) 0 0 [''1.2.3.4''] []), (samplePEnv, EvWsConnected)]"


section \<open>A stale answer\<close>

lemma restart_waiting:
  assumes "rcOk c" "mState c = kStateRetryWait"
  shows "\<exists>c' n. rcRestart c 0 = Inr (c', [CancelTimeout, SetTimeout n, CallFunc 1 (mCurrentAttemptId c + 1)]) \<and> mCurrentAttemptNo c' = 1"
  using assms by (auto simp: rcRestart_def cancelTimer_def rcStart_def nextTry_def rcOk_def Let_def)

lemma resolved_connects:
  assumes "\<not> peTerminated env" "peConnect1 env" "pcRetry s = Some (g, c)" "mCurrentAttemptNo c = n" "pcState s = kResolving \<or> pcState s = kConnecting"
    "validUrl s" "v4 \<noteq> [] \<or> v6 \<noteq> []" "[] \<notin> set v4 \<union> set v6"
  shows "\<exists>t. onDns env m \<lparr>drGen = g, drAttempt = n, drCached = False\<rparr> 0 v4 v6 s = (t, None) \<and> pcRetry t = pcRetry s \<and> pcState t = kConnecting \<and>
    validUrl t \<and> pcWs t \<and> pcDnsReqs t = pcDnsReqs s \<and> (pcWs s \<longrightarrow> PAssert AtConn \<in> set (pcOut t))"
proof -
  obtain d where d: "setIps (nat (peNow env)) kPresencedShard v4 v6 (pcDns s) = (d, None)" "isValidUrl d kPresencedShard"
      "snd (getIp d kPresencedShard)"
    using setIps_valid [OF assms(6-8)] by blast
  have v: "validUrl (s\<lparr>pcDns := d\<rparr>)" using d(2) by (simp add: validUrl_def)
  obtain r :: DnsRecord where r: "getUrl d kPresencedShard = Inr (drUrl r)" "Url_isValid (drUrl r)"
    using validUrl_record [OF v] by auto
  obtain i4 i6 where ip: "getIp d kPresencedShard = ((i4, i6), True)" using d(3) by (cases "getIp d kPresencedShard") auto
  have e: "\<not> (v4 = [] \<and> v6 = [])" using assms(7) by blast
  have "onDns env m \<lparr>drGen = g, drAttempt = n, drCached = False\<rparr> 0 v4 v6 s = doConnect env (s\<lparr>pcDns := d\<rparr>)"
    using assms(1,3,4) e d(1) by (cases "v4 = []") (simp_all add: onDns_def readS_def dnsS_def)
  moreover have "\<exists>t. doConnect env (s\<lparr>pcDns := d\<rparr>) = (t, None) \<and> pcRetry t = pcRetry s \<and> pcState t = kConnecting \<and>
    validUrl t \<and> pcWs t \<and> pcDnsReqs t = pcDnsReqs s \<and> (pcWs s \<longrightarrow> PAssert AtConn \<in> set (pcOut t))"
    using assms(2,5) d(2) r
    by (cases "pcWs s"; cases "pcState s = kConnecting")
      (simp_all add: doConnect_def readS_def ip assertAt_def outP_def modS_def getS_def ifS_def setConnState_def wsConnect_def validUrl_def)
  ultimately show ?thesis by simp
qed

text \<open>
  C32: While the controller waits before its second attempt and the lookup of its first is still open, a request to
  retry restarts it, as its first attempt again.  The answer to the new lookup connects; the answer to the old one
  is then taken for the current one and connects again, over the open socket.
\<close>

theorem stale_lookup_connects_twice:
  assumes "connInv s" "pcState s = kDisconnected" "pcRetry s = Some (g, c)" "mState c = kStateRetryWait"
    "pcDnsReqs s = [\<lparr>drGen = g, drAttempt = 1, drCached = False\<rparr>]" "\<not> snd (getIp (pcDns s) kPresencedShard)"
    "\<not> peTerminated env" "\<not> peResolveFails env" "peConnect1 env" "v4 \<noteq> [] \<or> v6 \<noteq> []" "[] \<notin> set v4 \<union> set v6"
  shows "PAssert AtConn \<in> set (pcOut (runPres [(env, EvRetryPending False False), (env, EvDnsReply m 1 0 v4 v6), (env, EvDnsReply m 0 0 v4 v6)] s))"
proof -
  note rs = inv_retry_state [OF assms(1,3)]
  let ?r = "\<lparr>drGen = g, drAttempt = 1, drCached = False\<rparr>"
  obtain c' n where c: "rcRestart c 0 = Inr (c', [CancelTimeout, SetTimeout n, CallFunc 1 (mCurrentAttemptId c + 1)])" "mCurrentAttemptNo c' = 1"
    using restart_waiting [OF rs(2) assms(4)] by blast
  obtain r :: DnsRecord where r: "getUrl (pcDns s) kPresencedShard = Inr (drUrl r)" using validUrl_record [OF rs(6)] by blast
  obtain t where t: "presEvent env (EvRetryPending False False) s = (t, None)" "pcRetry t = Some (g, c')" "pcState t = kResolving"
      "validUrl t" "pcDnsReqs t = [?r, ?r]"
    using assms(2-9) rs c r
    by (simp add: retryPendingConnection_def numeral_2_eq_2 ifS_def rcRun_def readS_def modS_def presAttempt_def setConnState_def getS_def
        assertAt_def outP_def validUrl_def)
  obtain u where u: "presEvent env (EvDnsReply m 1 0 v4 v6) t = (u, None)" "pcRetry u = Some (g, c')" "pcState u = kConnecting" "validUrl u"
      "pcDnsReqs u = [?r]" "pcWs u"
    using resolved_connects [of env "t\<lparr>pcDnsReqs := [?r]\<rparr>" g c' 1 v4 v6 m] assms(7,9-11) t c(2)
    by (auto simp: dnsReply_def readS_def modS_def delNth_def validUrl_def)
  obtain w where "presEvent env (EvDnsReply m 0 0 v4 v6) u = (w, None)" "PAssert AtConn \<in> set (pcOut w)"
    using resolved_connects [of env "u\<lparr>pcDnsReqs := []\<rparr>" g c' 1 v4 v6 m] assms(7,9-11) u c(2)
    by (auto simp: dnsReply_def readS_def modS_def delNth_def validUrl_def)
  then show ?thesis using t(1) u(1) by (simp add: runPres_def)
qed

definition waitingPres :: PC where
  "waitingPres = (newPresClient 5 ((newDnsCache [] 2)\<lparr>dcRecords := [(kPresencedShard, newRecord (Url_ofHost ''p.io'' ''wss''))]\<rparr>))
     \<lparr>pcState := kDisconnected, pcGen := 1, pcPromFor := Some (0, 1), pcPromise := PromPending,
      pcRetry := Some (0, startedController\<lparr>mState := kStateRetryWait, mTimer := DelayTimer, mCurrentAttemptNo := 2, mCurrentAttemptId := 2\<rparr>),
      pcDnsReqs := [\<lparr>drGen = 0, drAttempt = 1, drCached = False\<rparr>]\<rparr>"

lemma waitingPres_inv: "connInv waitingPres"
  by (simp add: waitingPres_def newPresClient_def connInv_def stateOk_def retryOk_def reqsOk_def reqOk_def fetchOk_def isOnline_def conn_order
      rcOk_def startedController_def newController_def newRetryController_def validUrl_def isValidUrl_def getRecord_def newDnsCache_def
      newRecord_def Url_ofHost_def Url_isValid_def)

theorem stale_lookup_connects_twice_witness:
  "PAssert AtConn \<in> set (pcOut (runPres [(samplePEnv, EvRetryPending False False), (samplePEnv, EvDnsReply (-3008) 1 0 [''1.2.3.4''] []),
     (samplePEnv, EvDnsReply (-3008) 0 0 [''1.2.3.4''] [])] waitingPres))"
  by (rule stale_lookup_connects_twice [OF waitingPres_inv])
    (simp add: waitingPres_def newPresClient_def startedController_def samplePEnv_def getIp_def getRecord_def newDnsCache_def newRecord_def)+

end
