(* ===== verification/ChatdConn.thy ===== *)
theory ChatdConn
  imports ChatClientInv PresConn
begin

text \<open>
  The connections of chatd, class \<open>chatd::Connection\<close> and the part of \<open>chatd::Client\<close> that works on all of them,
  of \<open>src/chatd.cpp\<close> and \<open>src/chatd.h\<close>: one connection per shard, shared by the chats of the shard, which are the
  chats of \<open>ChatClient\<close>.

  As for the presence client, what is outside is an argument or an event of its own, outputs are recorded in
  order, an assertion that fails is recorded and the code goes on.  A chat sees its connection online when its
  shard's connection is; what chats send goes through \<open>sendBuf\<close> in the order of each chat.  The promise of a send
  (\<open>mSendPromise\<close>) keeps how many keepalives wait for it.  Statistics and the database's commit mode are left out.
\<close>

section \<open>State\<close>

datatype ShardState = kStateNew | kStateFetchingUrl | kStateDisconnected | kStateResolving | kStateConnecting | kStateConnected

primrec shardVal :: "ShardState \<Rightarrow> nat" where
  "shardVal kStateNew = 0"
| "shardVal kStateFetchingUrl = 1"
| "shardVal kStateDisconnected = 2"
| "shardVal kStateResolving = 3"
| "shardVal kStateConnecting = 4"
| "shardVal kStateConnected = 5"

abbreviation kIdleTimeout :: int where "kIdleTimeout \<equiv> 64"

record Conn =
  koState :: ShardState
  koHeartbeat :: bool
  koTargetIp :: string
  koIpv6 :: bool
  koRetry :: "(nat \<times> RC) option"
  koGen :: nat
  koPromise :: PromState
  koPromFor :: "(nat \<times> nat) option"
  koTsRecv :: int
  koTsConn :: int
  koConnCount :: nat
  koEcho :: bool
  koTimer :: bool
  koSend :: PromState
  koWaiters :: nat
  koFetching :: bool
  koFetches :: "Fetch list"
  koDnsReqs :: "DnsReq list"
  koWs :: bool
  koClientId :: u32

datatype (plugins only: code) ConnOut = KSent nat bytes | KConnectTo nat string Url | KWsDisconnect nat | KGetUrl nat Id
  | KResolveHost nat string | KStat nat | KKeepalivesSent bool | KCancelSeenTimers | KAssert

record CN =
  cnClient :: Client
  cnConns :: "(nat \<times> Conn) list"
  cnDns :: DnsCache
  cnKaCount :: nat
  cnKaFailed :: bool
  cnKaPromise :: PromState
  cnOut :: "ConnOut list"

record CEnv =
  ceNow :: int
  ceTerminated :: bool
  ceAnonymous :: bool
  ceBackground :: bool
  ceIdentity :: Id
  ceResolveFails :: bool
  ceConnect1 :: bool
  ceConnect2 :: bool
  ceSend :: bool
  ceClient :: ClientEnv
  ceRoute :: RouteEnv

type_synonym cn_step = "CN step"

definition newConn :: "int \<Rightarrow> Conn" where
  "newConn now = \<lparr>koState = kStateNew, koHeartbeat = False, koTargetIp = [], koIpv6 = False, koRetry = None, koGen = 0,
     koPromise = PromPending, koPromFor = None, koTsRecv = 0, koTsConn = now, koConnCount = 0, koEcho = False, koTimer = False,
     koSend = PromResolved, koWaiters = 0, koFetching = False, koFetches = [], koDnsReqs = [], koWs = False, koClientId = 0\<rparr>"

definition newCN :: "Client \<Rightarrow> DnsCache \<Rightarrow> CN" where
  "newCN cl dns = \<lparr>cnClient = cl, cnConns = [], cnDns = dns, cnKaCount = 0, cnKaFailed = False, cnKaPromise = PromPending, cnOut = []\<rparr>"

section \<open>One connection\<close>

definition connOf :: "nat \<Rightarrow> CN \<Rightarrow> Conn" where
  "connOf sh s = (case map_of (cnConns s) sh of None \<Rightarrow> newConn 0 | Some c \<Rightarrow> c)"

definition putConn :: "nat \<Rightarrow> Conn \<Rightarrow> CN \<Rightarrow> CN" where
  "putConn sh c s = s\<lparr>cnConns := map (\<lambda>(i, x). (i, if i = sh then c else x)) (cnConns s)\<rparr>"

definition modK :: "nat \<Rightarrow> (Conn \<Rightarrow> Conn) \<Rightarrow> cn_step" where
  "modK sh f = modS (\<lambda>s. putConn sh (f (connOf sh s)) s)"

abbreviation readK :: "nat \<Rightarrow> (Conn \<Rightarrow> 'a) \<Rightarrow> ('a \<Rightarrow> cn_step) \<Rightarrow> cn_step" where
  "readK sh f \<equiv> readS (\<lambda>s. f (connOf sh s))"

abbreviation ifK :: "nat \<Rightarrow> (Conn \<Rightarrow> bool) \<Rightarrow> cn_step list \<Rightarrow> cn_step list \<Rightarrow> cn_step" where
  "ifK sh b \<equiv> ifS (\<lambda>s. b (connOf sh s))"

abbreviation whenK :: "nat \<Rightarrow> (Conn \<Rightarrow> bool) \<Rightarrow> cn_step list \<Rightarrow> cn_step" where
  "whenK sh b xs \<equiv> ifK sh b xs []"

definition outK :: "ConnOut \<Rightarrow> cn_step" where
  "outK x = modS (\<lambda>s. s\<lparr>cnOut := cnOut s @ [x]\<rparr>)"

definition assertK :: "(CN \<Rightarrow> bool) \<Rightarrow> cn_step" where
  "assertK b = whenS (\<lambda>s. \<not> b s) [outK KAssert]"

abbreviation assertC :: "nat \<Rightarrow> (Conn \<Rightarrow> bool) \<Rightarrow> cn_step" where
  "assertC sh b \<equiv> assertK (\<lambda>s. b (connOf sh s))"

definition koOnline :: "Conn \<Rightarrow> bool" where
  "koOnline c \<longleftrightarrow> koState c = kStateConnected"

definition dnsK :: "dns_step \<Rightarrow> cn_step" where
  "dnsK st s = (case st (cnDns s) of (d, r) \<Rightarrow> (s\<lparr>cnDns := d\<rparr>, r))"

definition shardUrl :: "nat \<Rightarrow> CN \<Rightarrow> bool" where
  "shardUrl sh s = isValidUrl (cnDns s) (int sh)"

definition shardChats :: "nat \<Rightarrow> CN \<Rightarrow> Id list" where
  "shardChats sh s = (case clShards (cnClient s) sh of None \<Rightarrow> [] | Some cs \<Rightarrow> sorted_list_of_set cs)"

definition kResetConnSucceeded :: "int \<Rightarrow> nat \<Rightarrow> cn_step" where
  "kResetConnSucceeded now sh = modK sh (\<lambda>c. c\<lparr>koTsConn := now, koConnCount := 0\<rparr>)"

section \<open>Sending and the keepalives\<close>

text \<open>A promise that is settled already throws; what a continuation throws is caught and fails the next one.\<close>

definition settleKeepalives :: "bool \<Rightarrow> cn_step" where
  "settleKeepalives ok = ifS (\<lambda>s. cnKaPromise s = PromPending)
     [modS (\<lambda>s. s\<lparr>cnKaPromise := (if ok then PromResolved else PromRejected)\<rparr>), outK (KKeepalivesSent ok)]
     [throwS (RuntimeError ''Already settled'')]"

definition failS :: "cn_step \<Rightarrow> cn_step \<Rightarrow> cn_step" where
  "failS st h s = (case st s of (s', Some x) \<Rightarrow> if catchable x then h s' else (s', Some x) | r \<Rightarrow> r)"

definition keepaliveSent :: cn_step where
  "keepaliveSent = doS [
     modS (\<lambda>s. s\<lparr>cnKaCount := (cnKaCount s + (2 ^ 64 - 1)) mod 2 ^ 64\<rparr>),
     whenS (\<lambda>s. cnKaCount s = 0) [readS cnKaFailed (\<lambda>f. settleKeepalives (\<not> f))]]"

text \<open>The continuations of a keepalive: \<open>fail\<close> follows \<open>then\<close>, and so also runs when that throws.\<close>

definition onKeepaliveSent :: "bool \<Rightarrow> cn_step" where
  "onKeepaliveSent ok = (let failed = tryS (doS [modS (\<lambda>s. s\<lparr>cnKaFailed := True\<rparr>), keepaliveSent]) in
     if ok then failS keepaliveSent failed else failed)"

definition settleSend :: "nat \<Rightarrow> bool \<Rightarrow> cn_step" where
  "settleSend sh ok = ifK sh (\<lambda>c. koSend c = PromPending)
     [readK sh koWaiters (\<lambda>n. doS [
        modK sh (\<lambda>c. c\<lparr>koSend := (if ok then PromResolved else PromRejected), koWaiters := 0\<rparr>),
        forS (replicate n ok) onKeepaliveSent])]
     [throwS (RuntimeError ''Already settled'')]"

definition kSendBuf :: "CEnv \<Rightarrow> nat \<Rightarrow> bytes \<Rightarrow> cn_step" where
  "kSendBuf e sh b = whenK sh koOnline [
     whenK sh (\<lambda>c. koSend c \<noteq> PromPending) [modK sh (\<lambda>c. c\<lparr>koSend := PromPending, koWaiters := 0\<rparr>)],
     outK (KSent sh b),
     (if ceSend e then doS [] else settleSend sh False)]"

definition keepaliveType :: "CEnv \<Rightarrow> Opcode" where
  "keepaliveType e = (if ceBackground e then OP_KEEPALIVEAWAY else OP_KEEPALIVE)"

definition kSendKeepalive :: "CEnv \<Rightarrow> nat \<Rightarrow> cn_step" where
  "kSendKeepalive e sh = kSendBuf e sh (newCommand (keepaliveType e))"

definition kWsSendMsgCb :: "nat \<Rightarrow> cn_step" where
  "kWsSendMsgCb sh = doS [assertC sh (\<lambda>c. koSend c = PromPending), settleSend sh True]"

section \<open>The chats of the connection\<close>

text \<open>What the chats are asked with: their connection is online when their shard's connection is.\<close>

definition chatOnline :: "CN \<Rightarrow> Id \<Rightarrow> bool" where
  "chatOnline s c = (case clConnOf (cnClient s) c of None \<Rightarrow> False | Some sh \<Rightarrow> koOnline (connOf sh s))"

definition chatsEnv :: "CEnv \<Rightarrow> CN \<Rightarrow> ClientEnv" where
  "chatsEnv e s = (ceClient e)\<lparr>cnChat := (\<lambda>c. (cnChat (ceClient e) c)\<lparr>eConnOnline := chatOnline s c\<rparr>)\<rparr>"

definition sends :: "Client \<Rightarrow> Client \<Rightarrow> (Id \<times> bytes) list" where
  "sends old new = concat (map (\<lambda>(c, ch). concat (map (\<lambda>x. case x of OSend b \<Rightarrow> [(c, b)] | _ \<Rightarrow> [])
     (drop (case chatFromId old c of None \<Rightarrow> 0 | Some ch' \<Rightarrow> length (cOut ch')) (cOut ch)))) (clChats new))"

text \<open>A step of the chats, and what they have sent.\<close>

definition clientS :: "CEnv \<Rightarrow> (ClientEnv \<Rightarrow> client_step) \<Rightarrow> cn_step" where
  "clientS e st s = (case st (chatsEnv e s) (cnClient s) of (cl, r) \<Rightarrow>
     doS [forS (sends (cnClient s) cl) (\<lambda>(c, b). readS (\<lambda>s. clConnOf (cnClient s) c) (\<lambda>k. case k of
            None \<Rightarrow> doS [] | Some sh \<Rightarrow> kSendBuf e sh b)),
          (case r of None \<Rightarrow> doS [] | Some x \<Rightarrow> throwS x)] (s\<lparr>cnClient := cl\<rparr>))"

definition chatS :: "CEnv \<Rightarrow> Id \<Rightarrow> (ChatEnv \<Rightarrow> chat_step) \<Rightarrow> cn_step" where
  "chatS e c st = clientS e (\<lambda>ce. runChat ce c (st (cnChat ce c)))"

definition chatDisabled :: "Id \<Rightarrow> CN \<Rightarrow> bool" where
  "chatDisabled c s = (case chatFromId (cnClient s) c of None \<Rightarrow> False | Some ch \<Rightarrow> mIsDisabled ch)"

text \<open>The first exception ends the loop.\<close>

definition rejoinExistingChats :: "CEnv \<Rightarrow> nat \<Rightarrow> cn_step" where
  "rejoinExistingChats e sh = readS (shardChats sh) (\<lambda>cs. tryS (forS cs (\<lambda>c.
     ifS (chatDisabled c) [] [chatS e c login])))"

section \<open>The connect promise\<close>

definition rcSetK :: "nat \<Rightarrow> nat \<Rightarrow> (RC \<Rightarrow> rcResult) \<Rightarrow> cn_step" where
  "rcSetK sh g f = modK sh (\<lambda>k. case koRetry k of None \<Rightarrow> k | Some (g', c) \<Rightarrow>
     if g' = g then (case f c of Inl _ \<Rightarrow> k | Inr (c', _) \<Rightarrow> k\<lparr>koRetry := Some (g, c')\<rparr>) else k)"

definition kConnectReject :: "nat \<Rightarrow> cn_step" where
  "kConnectReject sh = ifK sh (\<lambda>c. koPromise c = PromPending)
     [modK sh (\<lambda>c. c\<lparr>koPromise := PromRejected\<rparr>),
      readK sh koPromFor (\<lambda>p. case p of None \<Rightarrow> doS [] | Some (g, i) \<Rightarrow> rcSetK sh g (\<lambda>c. onFail c i ''connect'' 0))]
     [throwS (RuntimeError ''Already settled'')]"

definition kConnectResolve :: "CEnv \<Rightarrow> nat \<Rightarrow> cn_step" where
  "kConnectResolve e sh = ifK sh (\<lambda>c. koPromise c = PromPending)
     [modK sh (\<lambda>c. c\<lparr>koPromise := PromResolved\<rparr>),
      readK sh koPromFor (\<lambda>p. case p of None \<Rightarrow> doS [] | Some (g, i) \<Rightarrow> doS [
        tryS (doS [
          assertC sh koOnline,
          kSendBuf e sh (cmdAddId (newCommand OP_CLIENTID) (ceIdentity e)),
          modK sh (\<lambda>c. c\<lparr>koTsRecv := ceNow e, koHeartbeat := True\<rparr>),
          kSendKeepalive e sh,
          rejoinExistingChats e sh]),
        rcSetK sh g (\<lambda>c. onSuccess c i)])]
     [throwS (RuntimeError ''Already settled'')]"

section \<open>Connection states\<close>

definition onShardDisconnected :: "CEnv \<Rightarrow> nat \<Rightarrow> cn_step" where
  "onShardDisconnected e sh = doS [
     readS (shardChats sh) (\<lambda>cs. forS cs (\<lambda>c. chatS e c (\<lambda>env. onRetentionTimeUpdated env 0))),
     modK sh (\<lambda>c. c\<lparr>koHeartbeat := False\<rparr>),
     whenK sh koWs [outK (KWsDisconnect sh), modK sh (\<lambda>c. c\<lparr>koWs := False\<rparr>)],
     modK sh (\<lambda>c. c\<lparr>koEcho := False, koTimer := \<not> ceTerminated e\<rparr>),
     readS (shardChats sh) (\<lambda>cs. forS cs (\<lambda>c. chatS e c onDisconnect)),
     whenK sh (\<lambda>c. koSend c = PromPending) [settleSend sh False]]"

definition onShardConnected :: "CEnv \<Rightarrow> nat \<Rightarrow> cn_step" where
  "onShardConnected e sh = doS [
     readK sh koTargetIp (\<lambda>ip. modS (\<lambda>s. s\<lparr>cnDns := connectDone (nat (ceNow e)) (int sh) ip (cnDns s)\<rparr>)),
     assertC sh (\<lambda>c. koPromise c = PromPending),
     kConnectResolve e sh,
     modK sh (\<lambda>c. c\<lparr>koRetry := None, koTimer := False\<rparr>)]"

definition kSetState :: "CEnv \<Rightarrow> nat \<Rightarrow> ShardState \<Rightarrow> cn_step" where
  "kSetState e sh new = ifK sh (\<lambda>c. koState c = new) []
     [modK sh (\<lambda>c. c\<lparr>koState := new\<rparr>),
      (if new = kStateDisconnected then onShardDisconnected e sh else if new = kStateConnected then onShardConnected e sh else doS [])]"

definition kAbortRetryController :: "nat \<Rightarrow> cn_step" where
  "kAbortRetryController sh = whenK sh (\<lambda>c. koRetry c \<noteq> None) [assertC sh (\<lambda>c. \<not> koOnline c), modK sh (\<lambda>c. c\<lparr>koRetry := None\<rparr>)]"

definition kOnSocketCloseG :: "CEnv \<Rightarrow> nat \<Rightarrow> cn_step \<Rightarrow> cn_step" where
  "kOnSocketCloseG e sh recon =
    (if ceTerminated e then doS [] else
     ifK sh (\<lambda>c. koState c = kStateDisconnected) [whenK sh (\<lambda>c. koRetry c = None) [outK (KStat 99013), recon]]
     [whenK sh (\<lambda>c. koState c \<noteq> kStateFetchingUrl) [readK sh koState (\<lambda>old. doS [
        kSetState e sh kStateDisconnected,
        modK sh (\<lambda>c. c\<lparr>koIpv6 := \<not> koIpv6 c, koTargetIp := []\<rparr>),
        (if old = kStateConnected then doS [assertC sh (\<lambda>c. koRetry c = None), recon]
         else doS [assertC sh (\<lambda>c. koRetry c \<noteq> None), assertC sh (\<lambda>c. koPromise c \<noteq> PromResolved),
                   whenK sh (\<lambda>c. koPromise c = PromPending) [kConnectReject sh]])])]])"

section \<open>Connecting\<close>

definition kWsConnect :: "nat \<Rightarrow> string \<Rightarrow> Url \<Rightarrow> bool \<Rightarrow> cn_step" where
  "kWsConnect sh ip url works = doS [
     assertC sh (\<lambda>c. \<not> koWs c),
     whenK sh koWs [outK (KStat 99010)],
     outK (KConnectTo sh ip url),
     modK sh (\<lambda>c. c\<lparr>koWs := works\<rparr>)]"

definition kDoConnect :: "CEnv \<Rightarrow> nat \<Rightarrow> cn_step" where
  "kDoConnect e sh = readS (\<lambda>s. getIp (cnDns s) (int sh)) (\<lambda>((ipv4, ipv6), cachedIPs). doS [
     assertK (\<lambda>_. cachedIPs),
     modK sh (\<lambda>c. c\<lparr>koTargetIp := (if koIpv6 c \<and> ipv6 \<noteq> [] then ipv6 else ipv4)\<rparr>),
     getS (\<lambda>s. getUrl (cnDns s) (int sh)) (\<lambda>url. doS [
       assertK (\<lambda>_. Url_isValid url),
       kSetState e sh kStateConnecting,
       readK sh koTargetIp (\<lambda>ip. kWsConnect sh ip url (ceConnect1 e)),
       (if ceConnect1 e then doS [] else readK sh koTargetIp (\<lambda>old. doS [
          modK sh (\<lambda>c. c\<lparr>koTargetIp := otherIp old ipv4 ipv6\<rparr>),
          (if otherIp old ipv4 ipv6 = [] then doS [] else doS [
             kWsConnect sh (otherIp old ipv4 ipv6) url (ceConnect2 e),
             (if ceConnect2 e then doS [] else kOnSocketCloseG e sh (throwS AssertFail))])]))])])"

text \<open>\<open>wsResolveDNS\<close> returns a \<open>bool\<close>, which is never negative: a lookup that cannot be started goes unnoticed.\<close>

definition kAttempt :: "CEnv \<Rightarrow> nat \<Rightarrow> nat \<Rightarrow> nat \<Rightarrow> nat \<Rightarrow> cn_step" where
  "kAttempt e sh g attemptNo i = doS [
     kSetState e sh kStateDisconnected,
     modK sh (\<lambda>c. c\<lparr>koPromise := PromPending, koPromFor := Some (g, i)\<rparr>),
     getS (\<lambda>s. getUrl (cnDns s) (int sh)) (\<lambda>url.
       readS (\<lambda>s. snd (getIp (cnDns s) (int sh))) (\<lambda>cachedIPs. doS [
         kSetState e sh kStateResolving,
         readS (shardChats sh) (\<lambda>cs. forS cs (\<lambda>c. ifS (chatDisabled c) [] [chatS e c (\<lambda>_. setOnlineState kChatStateConnecting)])),
         outK (KResolveHost sh (host url)),
         (if ceResolveFails e then doS [] else modK sh (\<lambda>c. c\<lparr>koDnsReqs := koDnsReqs c @
            [\<lparr>drGen = g, drAttempt = attemptNo, drCached = cachedIPs\<rparr>]\<rparr>)),
         (if cachedIPs then kDoConnect e sh else doS [])]))]"

definition kRun :: "CEnv \<Rightarrow> nat \<Rightarrow> (RC \<Rightarrow> rcResult) \<Rightarrow> cn_step" where
  "kRun e sh f = readK sh koRetry (\<lambda>r. case r of None \<Rightarrow> doS [] | Some (g, c) \<Rightarrow>
     (case f c of Inl x \<Rightarrow> throwS x
      | Inr (c', as) \<Rightarrow> doS [modK sh (\<lambda>k. k\<lparr>koRetry := Some (g, c')\<rparr>), forS (calls as) (\<lambda>(n, i). kAttempt e sh g n i)]))"

definition kReconnect :: "CEnv \<Rightarrow> nat \<Rightarrow> cn_step" where
  "kReconnect e sh = (if ceTerminated e then outK KAssert else doS [
     assertC sh (\<lambda>c. \<not> koHeartbeat c),
     assertC sh (\<lambda>c. koRetry c = None),
     tryS (whenS (\<lambda>s. shardVal (koState (connOf sh s)) < shardVal kStateResolving \<and> shardUrl sh s) [
       kSetState e sh kStateResolving,
       kAbortRetryController sh,
       modK sh (\<lambda>c. c\<lparr>koRetry := Some (koGen c, newController), koGen := Suc (koGen c)\<rparr>),
       kRun e sh (\<lambda>c. rcStart c 0)])])"

definition kOnSocketClose :: "CEnv \<Rightarrow> nat \<Rightarrow> cn_step" where
  "kOnSocketClose e sh = kOnSocketCloseG e sh (kReconnect e sh)"

text \<open>The request of the URL names the first chat of the shard; without a chat the end of the set is followed.\<close>

definition kGetUrl :: "nat \<Rightarrow> Fetch \<Rightarrow> cn_step" where
  "kGetUrl sh why = readS (shardChats sh) (\<lambda>cs. case cs of
     [] \<Rightarrow> throwS OutOfBounds
   | c # _ \<Rightarrow> doS [outK (KGetUrl sh c), modK sh (\<lambda>k. k\<lparr>koFetches := koFetches k @ [why]\<rparr>)])"

definition kFetchUrl :: "CEnv \<Rightarrow> nat \<Rightarrow> Fetch \<Rightarrow> cn_step \<Rightarrow> cn_step" where
  "kFetchUrl e sh why atOnce = doS [
     assertK (\<lambda>s. shardChats sh s \<noteq> []),
     ifS (\<lambda>s. ceAnonymous e \<or> shardUrl sh s) [atOnce] [kSetState e sh kStateFetchingUrl, kGetUrl sh why]]"

primrec kRetryPending :: "nat \<Rightarrow> CEnv \<Rightarrow> nat \<Rightarrow> bool \<Rightarrow> bool \<Rightarrow> cn_step" where
  "kRetryPending 0 e sh disconnect refreshURL = throwS OutOfBounds"
| "kRetryPending (Suc n) e sh disconnect refreshURL = ifK sh (\<lambda>c. koState c = kStateNew) []
     [ifS (\<lambda>s. refreshURL \<or> \<not> shardUrl sh s)
       [whenK sh (\<lambda>c. \<not> (koState c = kStateFetchingUrl \<or> koFetching c))
         [kSetState e sh kStateDisconnected, kAbortRetryController sh,
          modS (\<lambda>s. s\<lparr>cnDns := removeRecord (int sh) (cnDns s)\<rparr>),
          kFetchUrl e sh FetchRetry (doS [kResetConnSucceeded (ceNow e) sh, kRetryPending n e sh True False])]]
       [if disconnect then doS [kSetState e sh kStateDisconnected, kAbortRetryController sh, kReconnect e sh]
        else whenK sh (\<lambda>c. case koRetry c of None \<Rightarrow> False | Some (g, r) \<Rightarrow> mState r = kStateRetryWait)
          [assertC sh (\<lambda>c. \<not> koOnline c), assertC sh (\<lambda>c. \<not> koHeartbeat c), assertC sh (\<lambda>c. \<not> koEcho c),
           kRun e sh (\<lambda>c. rcRestart c 0)]]]"

text \<open>As for the presence client, unbounded recursion in anonymous mode only.\<close>

definition kRetryPendingConnection :: "CEnv \<Rightarrow> nat \<Rightarrow> bool \<Rightarrow> bool \<Rightarrow> cn_step" where
  "kRetryPendingConnection e sh = kRetryPending 2 e sh"

definition connConnect :: "CEnv \<Rightarrow> nat \<Rightarrow> cn_step" where
  "connConnect e sh = kFetchUrl e sh FetchConnect (kReconnect e sh)"

section \<open>Answers\<close>

definition kOnUrl :: "CEnv \<Rightarrow> nat \<Rightarrow> Fetch \<Rightarrow> string \<Rightarrow> cn_step" where
  "kOnUrl e sh why url = (case why of
     FetchClose \<Rightarrow> doS [modK sh (\<lambda>c. c\<lparr>koFetching := False\<rparr>),
       (if url = [] then doS [] else
        getS (\<lambda>s. Url_parse url) (\<lambda>u. getS (\<lambda>s. getUrl (cnDns s) (int sh)) (\<lambda>v.
          if host u = host v then doS [] else doS [
            kResetConnSucceeded (ceNow e) sh,
            dnsK (updateRecord (int sh) url True),
            kRetryPendingConnection e sh True False])))]
   | FetchConnect \<Rightarrow> doS [(if url = [] then doS [] else dnsK (addRecord (int sh) url None True)), kReconnect e sh]
   | FetchRetry \<Rightarrow> doS [(if url = [] then doS [] else dnsK (addRecord (int sh) url None True)),
       kResetConnSucceeded (ceNow e) sh, kRetryPendingConnection e sh True False])"

definition kUrlReply :: "CEnv \<Rightarrow> nat \<Rightarrow> nat \<Rightarrow> string option \<Rightarrow> cn_step" where
  "kUrlReply e sh i res = readK sh koFetches (\<lambda>fs. if i < length fs then doS [
     modK sh (\<lambda>c. c\<lparr>koFetches := delNth i fs\<rparr>),
     (case res of None \<Rightarrow> doS [] | Some url \<Rightarrow> tryS (kOnUrl e sh (fs ! i) url))] else doS [])"

definition kOnDns :: "CEnv \<Rightarrow> nat \<Rightarrow> int \<Rightarrow> DnsReq \<Rightarrow> int \<Rightarrow> string list \<Rightarrow> string list \<Rightarrow> cn_step" where
  "kOnDns e sh noName req status ipsv4 ipsv6 = (if ceTerminated e then doS [] else
     readK sh (\<lambda>c. c) (\<lambda>k. case koRetry k of
       None \<Rightarrow> if koOnline k then assertK (\<lambda>_. drCached req) else doS []
     | Some (g, c) \<Rightarrow>
        if g \<noteq> drGen req \<or> mCurrentAttemptNo c \<noteq> drAttempt req then doS []
        else if status < 0 \<or> (ipsv4 = [] \<and> ipsv6 = [])
        then (if koOnline k \<and> drCached req then outK KAssert
              else doS [assertC sh (\<lambda>c. \<not> koOnline c),
                (if status = noName then kRetryPendingConnection e sh True True
                 else whenK sh (\<lambda>c. koState c = kStateResolving) [kOnSocketClose e sh])])
        else if \<not> drCached req
        then doS [dnsK (setIps (nat (ceNow e)) (int sh) ipsv4 ipsv6), kDoConnect e sh]
        else readS (\<lambda>s. isMatch (cnDns s) (int sh) ipsv4 ipsv6) (\<lambda>m. if m then doS []
             else doS [dnsK (setIps (nat (ceNow e)) (int sh) ipsv4 ipsv6), kRetryPendingConnection e sh True False])))"

definition kDnsReply :: "CEnv \<Rightarrow> nat \<Rightarrow> int \<Rightarrow> nat \<Rightarrow> int \<Rightarrow> string list \<Rightarrow> string list \<Rightarrow> cn_step" where
  "kDnsReply e sh noName i status ipsv4 ipsv6 = readK sh koDnsReqs (\<lambda>rs. if i < length rs then doS [
     modK sh (\<lambda>c. c\<lparr>koDnsReqs := delNth i rs\<rparr>), kOnDns e sh noName (rs ! i) status ipsv4 ipsv6] else doS [])"

section \<open>The socket\<close>

definition kWsConnectCb :: "CEnv \<Rightarrow> nat \<Rightarrow> cn_step" where
  "kWsConnectCb e sh = whenK sh (\<lambda>c. koState c = kStateConnecting) [readK sh (\<lambda>c. c) (\<lambda>k.
     if ceNow e - koTsConn k > kMaxConnSucceededTimeframe
     then doS [kResetConnSucceeded (ceNow e) sh, kSetState e sh kStateConnected]
     else doS [modK sh (\<lambda>c. c\<lparr>koConnCount := Suc (koConnCount c)\<rparr>),
       ifK sh (\<lambda>c. koConnCount c > kMaxConnSuceeded)
         [kResetConnSucceeded (ceNow e) sh, kRetryPendingConnection e sh True True]
         [kSetState e sh kStateConnected]])]"

definition kWsCloseCb :: "CEnv \<Rightarrow> nat \<Rightarrow> cn_step" where
  "kWsCloseCb e sh = ifK sh (\<lambda>c. koState c = kStateFetchingUrl \<or> koFetching c) [kOnSocketClose e sh]
     [modK sh (\<lambda>c. c\<lparr>koFetching := True\<rparr>), kGetUrl sh FetchClose, kOnSocketClose e sh]"

definition kWsClosed :: "CEnv \<Rightarrow> nat \<Rightarrow> cn_step" where
  "kWsClosed e sh = whenK sh koWs [modK sh (\<lambda>c. c\<lparr>koWs := False\<rparr>), kWsCloseCb e sh]"

text \<open>A frame: the calls of chats go to \<open>clientCall\<close>, those that concern the connection are done here.\<close>

definition frameEnv :: "CEnv \<Rightarrow> nat \<Rightarrow> CN \<Rightarrow> RouteEnv" where
  "frameEnv e sh s = (clientRoutes (ceRoute e) (chatsEnv e s) (cnClient s))\<lparr>echoTimer := koEcho (connOf sh s)\<rparr>"

definition connCall :: "CEnv \<Rightarrow> nat \<Rightarrow> ChatdCall \<Rightarrow> cn_step" where
  "connCall e sh call = (case call of
     CSendKeepalive \<Rightarrow> kSendKeepalive e sh
   | CSetClientId i \<Rightarrow> modK sh (\<lambda>c. c\<lparr>koClientId := i\<rparr>)
   | CCancelEchoTimer \<Rightarrow> modK sh (\<lambda>c. c\<lparr>koEcho := False\<rparr>)
   | _ \<Rightarrow> clientS e (\<lambda>ce. clientCall ce call))"

definition kWsHandleMsgCb :: "CEnv \<Rightarrow> nat \<Rightarrow> bytes \<Rightarrow> cn_step" where
  "kWsHandleMsgCb e sh b = doS [modK sh (\<lambda>c. c\<lparr>koTsRecv := ceNow e\<rparr>),
     (\<lambda>s. case execCommand (routeH (frameEnv e sh) (connCall e sh)) b 0 s of
        (s', FrameCrash x) \<Rightarrow> (s', Some x) | (s', _) \<Rightarrow> (s', None))]"

definition kTlsSession :: "CachedSession \<Rightarrow> cn_step" where
  "kTlsSession sess = modS (\<lambda>s. s\<lparr>cnDns := fst (updateTlsSession sess (cnDns s))\<rparr>)"

section \<open>Timers\<close>

definition kConnectTimeout :: "CEnv \<Rightarrow> nat \<Rightarrow> cn_step" where
  "kConnectTimeout e sh = whenK sh koTimer [modK sh (\<lambda>c. c\<lparr>koTimer := False\<rparr>), outK (KStat 99004), kRetryPendingConnection e sh True False]"

definition kEchoTimeout :: "CEnv \<Rightarrow> nat \<Rightarrow> cn_step" where
  "kEchoTimeout e sh = whenK sh koEcho [modK sh (\<lambda>c. c\<lparr>koEcho := False\<rparr>), outK (KStat 99001),
     kSetState e sh kStateDisconnected, kAbortRetryController sh, kReconnect e sh]"

definition kDelayTimer :: "CEnv \<Rightarrow> nat \<Rightarrow> cn_step" where
  "kDelayTimer e sh = whenK sh (\<lambda>k. case koRetry k of None \<Rightarrow> False | Some (g, c) \<Rightarrow> mTimer c = DelayTimer) [kRun e sh onDelayTimer]"

definition kAttemptTimer :: "CEnv \<Rightarrow> nat \<Rightarrow> nat \<Rightarrow> cn_step" where
  "kAttemptTimer e sh rand = readK sh koRetry (\<lambda>r. case r of Some (g, c) \<Rightarrow>
     (case mTimer c of AttemptTimer i \<Rightarrow> kRun e sh (\<lambda>c. onAttemptTimeout None c i rand) | _ \<Rightarrow> doS []) | None \<Rightarrow> doS [])"

definition connSendEcho :: "CEnv \<Rightarrow> nat \<Rightarrow> cn_step" where
  "connSendEcho e sh = whenS (\<lambda>s. shardUrl sh s \<and> \<not> koEcho (connOf sh s) \<and> koOnline (connOf sh s)) [
     modK sh (\<lambda>c. c\<lparr>koEcho := True\<rparr>), kSendBuf e sh (newCommand OP_ECHO)]"

definition connHeartbeat :: "CEnv \<Rightarrow> nat \<Rightarrow> cn_step" where
  "connHeartbeat e sh = whenK sh (\<lambda>c. koHeartbeat c \<and> ceNow e - koTsRecv c \<ge> kIdleTimeout) [
     clientS e (\<lambda>_. modS (cancelRetentionTimer True)),
     kSetState e sh kStateDisconnected, kAbortRetryController sh, kReconnect e sh]"

section \<open>All connections\<close>

abbreviation shards :: "CN \<Rightarrow> nat list" where "shards s \<equiv> map fst (cnConns s)"

definition clientHeartbeat :: "CEnv \<Rightarrow> cn_step" where
  "clientHeartbeat e = readS shards (\<lambda>ss. forS ss (connHeartbeat e))"

definition retryPendingConnections :: "CEnv \<Rightarrow> bool \<Rightarrow> bool \<Rightarrow> cn_step" where
  "retryPendingConnections e d r = readS shards (\<lambda>ss. forS ss (\<lambda>sh. kRetryPendingConnection e sh d r))"

definition clientDisconnect :: "CEnv \<Rightarrow> cn_step" where
  "clientDisconnect e = readS shards (\<lambda>ss. forS ss (\<lambda>sh. kSetState e sh kStateDisconnected))"

definition clientSendEcho :: "CEnv \<Rightarrow> cn_step" where
  "clientSendEcho e = readS shards (\<lambda>ss. forS ss (\<lambda>sh. whenK sh koOnline [connSendEcho e sh]))"

text \<open>A keepalive waits for the promise of its send; a promise that is settled already runs its continuation at once.\<close>

definition awaitSend :: "nat \<Rightarrow> cn_step" where
  "awaitSend sh = readK sh koSend (\<lambda>p. case p of
     PromPending \<Rightarrow> modK sh (\<lambda>c. c\<lparr>koWaiters := Suc (koWaiters c)\<rparr>)
   | PromResolved \<Rightarrow> onKeepaliveSent True
   | PromRejected \<Rightarrow> onKeepaliveSent False)"

definition clientSendKeepalive :: "CEnv \<Rightarrow> cn_step" where
  "clientSendKeepalive e = doS [
     whenS (\<lambda>s. cnKaPromise s \<noteq> PromPending) [
       assertK (\<lambda>s. cnKaCount s = 0),
       modS (\<lambda>s. s\<lparr>cnKaCount := 0, cnKaFailed := False, cnKaPromise := PromPending\<rparr>)],
     readS shards (\<lambda>ss. if ss = [] then settleKeepalives True else doS [
       modS (\<lambda>s. s\<lparr>cnKaCount := (cnKaCount s + length ss) mod 2 ^ 64\<rparr>),
       forS ss (\<lambda>sh. doS [kSendKeepalive e sh, awaitSend sh])])]"

definition clientNotifyUserStatus :: "CEnv \<Rightarrow> cn_step" where
  "clientNotifyUserStatus e = doS [
     (if ceBackground e then outK KCancelSeenTimers else clientSendEcho e),
     clientSendKeepalive e]"

section \<open>Chats and their connections\<close>

definition connCreateChat :: "(nat \<Rightarrow> byte) \<Rightarrow> CEnv \<Rightarrow> Id \<Rightarrow> nat \<Rightarrow> Id set \<Rightarrow> u32 \<Rightarrow> cn_step" where
  "connCreateChat fr e c sh users chatCreationTs = ifS (\<lambda>s. chatFromId (cnClient s) c \<noteq> None) [] [
     whenS (\<lambda>s. map_of (cnConns s) sh = None) [modS (\<lambda>s. s\<lparr>cnConns := insort_key fst (sh, newConn (ceNow e)) (cnConns s)\<rparr>)],
     clientS e (\<lambda>ce. createChat fr ce c sh users chatCreationTs)]"

text \<open>The chat that leaves still sends on its connection.\<close>

definition connLeaveChat :: "CEnv \<Rightarrow> Id \<Rightarrow> cn_step" where
  "connLeaveChat e c = readS (\<lambda>s. clConnOf (cnClient s) c) (\<lambda>k. case k of
     None \<Rightarrow> doS []
   | Some sh \<Rightarrow> readS (\<lambda>s. chatFromId (cnClient s) c \<noteq> None \<and> ePreviewMode (cnChat (ceClient e) c)) (\<lambda>preview. doS [
       clientS e (\<lambda>ce. leaveChat ce c),
       (if preview then kSendBuf e sh (newCommand OP_HANDLELEAVE @ phBytes (ePublicHandle (cnChat (ceClient e) c))) else doS [])]))"

definition chatConnect :: "CEnv \<Rightarrow> Id \<Rightarrow> cn_step" where
  "chatConnect e c = readS (\<lambda>s. clConnOf (cnClient s) c) (\<lambda>k. case k of
     None \<Rightarrow> doS []
   | Some sh \<Rightarrow> ifK sh (\<lambda>k. koState k = kStateNew) [connConnect e sh] [whenK sh koOnline [chatS e c login]])"

section \<open>Events\<close>

text \<open>The callbacks of a socket come while it exists.  What the application does to a chat is \<open>ChatOp\<close>.\<close>

datatype (plugins only: code) CnEvent = KCreateChat "nat \<Rightarrow> byte" Id nat "Id set" u32 | KLeaveChat Id | KChatConnect Id | KChatOp Id ChatOp | KRetentionTimer | KRichLinks
  | KUrlReply nat nat "string option" | KDnsReply nat int nat int "string list" "string list"
  | KWsConnected nat | KWsClosed nat | KWsMsg nat bytes | KWsSent nat | KTlsSession CachedSession
  | KConnectTimeout nat | KEchoTimeout nat | KDelayTimer nat | KAttemptTimer nat nat
  | KHeartbeat | KRetryPending bool bool | KDisconnect | KNotifyUserStatus

fun cnEvent :: "CEnv \<Rightarrow> CnEvent \<Rightarrow> cn_step" where
  "cnEvent e (KCreateChat fr c sh us t) = connCreateChat fr e c sh us t"
| "cnEvent e (KLeaveChat c) = connLeaveChat e c"
| "cnEvent e (KChatConnect c) = chatConnect e c"
| "cnEvent e (KChatOp c op) = clientS e (\<lambda>ce. runChat ce c (chatOp ce c op))"
| "cnEvent e KRetentionTimer = clientS e onRetentionTimer"
| "cnEvent e KRichLinks = clientS e onRichLinkState"
| "cnEvent e (KUrlReply sh i r) = kUrlReply e sh i r"
| "cnEvent e (KDnsReply sh noName i st v4 v6) = kDnsReply e sh noName i st v4 v6"
| "cnEvent e (KWsConnected sh) = whenK sh koWs [kWsConnectCb e sh]"
| "cnEvent e (KWsClosed sh) = kWsClosed e sh"
| "cnEvent e (KWsMsg sh b) = whenK sh koWs [kWsHandleMsgCb e sh b]"
| "cnEvent e (KWsSent sh) = whenK sh koWs [kWsSendMsgCb sh]"
| "cnEvent e (KTlsSession sess) = kTlsSession sess"
| "cnEvent e (KConnectTimeout sh) = kConnectTimeout e sh"
| "cnEvent e (KEchoTimeout sh) = kEchoTimeout e sh"
| "cnEvent e (KDelayTimer sh) = kDelayTimer e sh"
| "cnEvent e (KAttemptTimer sh r) = kAttemptTimer e sh r"
| "cnEvent e KHeartbeat = clientHeartbeat e"
| "cnEvent e (KRetryPending d r) = retryPendingConnections e d r"
| "cnEvent e KDisconnect = clientDisconnect e"
| "cnEvent e KNotifyUserStatus = clientNotifyUserStatus e"

definition runCn :: "(CEnv \<times> CnEvent) list \<Rightarrow> CN \<Rightarrow> CN" where
  "runCn es = fold (\<lambda>(e, x) s. fst (cnEvent e x s)) es"

end
