(* ===== verification/ChatdConnInv.thy ===== *)
theory ChatdConnInv
  imports ChatdConn
begin

text \<open>
  The chats, their connections and the keepalives together: what the network, the timers, the server and the
  application do, in any order, keeps the invariants of all chats and the account of the keepalives in flight.
\<close>

section \<open>The invariant\<close>

definition waiting :: "CN \<Rightarrow> nat" where
  "waiting s = sum_list (map (\<lambda>x. koWaiters (snd x)) (cnConns s))"

text \<open>
  While the keepalives of \<open>k\<close> connections are being sent they are counted but do not wait yet.  \<open>B\<close> bounds those
  in flight; \<open>b\<close> tells that keepalives have been sent before.
\<close>

definition sysInv :: "bool \<Rightarrow> nat \<Rightarrow> nat \<Rightarrow> CN \<Rightarrow> bool" where
  "sysInv b B k s \<longleftrightarrow> client_inv (cnClient s) \<and> distinct (map fst (cnConns s)) \<and>
     (\<forall>x \<in> set (cnConns s). koWaiters (snd x) \<noteq> 0 \<longrightarrow> koSend (snd x) = PromPending) \<and>
     cnKaCount s = waiting s + k \<and> waiting s + k \<le> B \<and> B < 2 ^ 64 \<and>
     (cnKaCount s \<noteq> 0 \<longrightarrow> cnKaPromise s = PromPending) \<and> (b \<longrightarrow> cnKaPromise s = PromPending \<longrightarrow> cnKaCount s \<noteq> 0)"

lemma waiting_upd [simp]:
  "waiting (s\<lparr>cnClient := x1\<rparr>) = waiting s" "waiting (s\<lparr>cnDns := x2\<rparr>) = waiting s" "waiting (s\<lparr>cnKaCount := x3\<rparr>) = waiting s"
  "waiting (s\<lparr>cnKaFailed := x4\<rparr>) = waiting s" "waiting (s\<lparr>cnKaPromise := x5\<rparr>) = waiting s" "waiting (s\<lparr>cnOut := x6\<rparr>) = waiting s"
  by (simp_all add: waiting_def)

lemma sys_upd [simp]:
  "sysInv b B k (s\<lparr>cnDns := x2\<rparr>) = sysInv b B k s" "sysInv b B k (s\<lparr>cnKaFailed := x4\<rparr>) = sysInv b B k s"
  "sysInv b B k (s\<lparr>cnOut := x6\<rparr>) = sysInv b B k s"
  by (simp_all add: sysInv_def)

lemma sys_client: "sysInv b B k s \<Longrightarrow> client_inv cl \<Longrightarrow> sysInv b B k (s\<lparr>cnClient := cl\<rparr>)"
  by (auto simp: sysInv_def)

lemma conn_mem: "distinct (map fst (cnConns s)) \<Longrightarrow> (i, x) \<in> set (cnConns s) \<Longrightarrow> connOf i s = x"
  by (simp add: connOf_def)

lemma put_keys [simp]: "map fst (cnConns (putConn sh c s)) = map fst (cnConns s)"
  by (simp add: putConn_def comp_def case_prod_beta)

lemma put_fields [simp]:
  "cnClient (putConn sh c s) = cnClient s" "cnKaCount (putConn sh c s) = cnKaCount s" "cnKaPromise (putConn sh c s) = cnKaPromise s"
  "cnDns (putConn sh c s) = cnDns s" "cnKaFailed (putConn sh c s) = cnKaFailed s"
  by (simp_all add: putConn_def)

lemma put_waiting:
  assumes "distinct (map fst (cnConns s))" "sh \<in> set (shards s)"
  shows "waiting (putConn sh c s) + koWaiters (connOf sh s) = waiting s + koWaiters c"
proof -
  have "sum_list (map (\<lambda>x. koWaiters (snd x)) (map (\<lambda>(i, x). (i, if i = sh then c else x)) xs)) + koWaiters y =
      sum_list (map (\<lambda>x. koWaiters (snd x)) xs) + koWaiters c"
    if "distinct (map fst xs)" "map_of xs sh = Some y" for xs y
    using that
  proof (induction xs)
    case (Cons a xs)
    obtain i x where a: "a = (i, x)" by (cases a)
    show ?case
    proof (cases "i = sh")
      case True
      then have "map (\<lambda>(i, x). (i, if i = sh then c else x)) xs = xs"
        using Cons.prems(1) a by (intro map_idI) (force simp: case_prod_beta)
      then show ?thesis using True a Cons.prems(2) by simp
    next
      case False
      then show ?thesis using Cons a by auto
    qed
  qed simp
  moreover have "map_of (cnConns s) sh = Some (connOf sh s)"
    using assms(2) by (cases "map_of (cnConns s) sh") (simp_all add: connOf_def map_of_eq_None_iff)
  ultimately show ?thesis using assms(1) by (simp add: waiting_def putConn_def)
qed

lemma put_absent: "sh \<notin> set (shards s) \<Longrightarrow> putConn sh c s = s"
proof -
  assume "sh \<notin> set (shards s)"
  then have "map (\<lambda>(i, x). (i, if i = sh then c else x)) (cnConns s) = cnConns s"
    by (intro map_idI) (force simp: case_prod_beta)
  then show ?thesis by (simp add: putConn_def)
qed

lemma conn_absent: "sh \<notin> set (shards s) \<Longrightarrow> connOf sh s = newConn 0"
proof -
  assume "sh \<notin> set (shards s)"
  then have "map_of (cnConns s) sh = None" by (simp add: map_of_eq_None_iff)
  then show ?thesis by (simp add: connOf_def)
qed

lemma newConn_simps [simp]: "koSend (newConn t) = PromResolved" "\<not> koOnline (newConn t)" "koWaiters (newConn t) = 0"
  by (simp_all add: newConn_def koOnline_def)

lemma put_conns: "x \<in> set (cnConns (putConn sh c s)) \<Longrightarrow> x = (sh, c) \<or> x \<in> set (cnConns s)"
  by (auto simp: putConn_def split: if_splits)

lemma sys_put:
  assumes "sysInv b B k s" "koSend c = koSend (connOf sh s)" "koWaiters c = koWaiters (connOf sh s)"
  shows "sysInv b B k (putConn sh c s)"
proof (cases "sh \<in> set (shards s)")
  case True
  then have w: "waiting (putConn sh c s) = waiting s" using put_waiting [of s sh c] assms(1,3) by (simp add: sysInv_def)
  have "koWaiters (connOf sh s) \<noteq> 0 \<Longrightarrow> koSend (connOf sh s) = PromPending"
    using assms(1) True conn_mem [of s sh] by (force simp: sysInv_def)
  then show ?thesis using assms w put_conns [of _ sh c s] by (fastforce simp: sysInv_def)
qed (simp add: put_absent assms(1))

named_theorems sys_intros \<open>what keeps the invariant of the chats, connections and keepalives\<close>

lemmas sys_basic = keeps_doS_Nil keeps_doS_Cons keeps_throwS keeps_readS keeps_getS keeps_ifS keeps_forS keeps_tryS keeps_if keeps_option keeps_cases
declare sys_basic [sys_intros]

lemma keeps_triple [sys_intros]: "(\<And>x y. keeps P (f x y z)) \<Longrightarrow> keeps P ((case p of (x, y) \<Rightarrow> f x y) z)"
  by (simp split: prod.split)

lemma sys_modK [sys_intros]:
  "(\<And>c. koSend (f c) = koSend c) \<Longrightarrow> (\<And>c. koWaiters (f c) = koWaiters c) \<Longrightarrow> keeps (sysInv b B k) (modK sh f)"
  unfolding modK_def by (rule keeps_modS) (simp add: sys_put)

lemma sys_out [sys_intros]: "keeps (sysInv b B k) (outK x)" "keeps (sysInv b B k) (assertK p)"
  unfolding outK_def assertK_def by (intro keeps_modS keeps_ifS keeps_doS_Cons keeps_doS_Nil; simp)+

lemma sys_dns [sys_intros]: "keeps (sysInv b B k) (dnsK st)" "(\<And>s. keeps (sysInv b B k) (modS (\<lambda>s. s\<lparr>cnDns := f s\<rparr>)))"
  by (auto simp: keeps_wp dnsK_def modS_def split: prod.split)

section \<open>Keepalives in flight\<close>

lemma keeps_failS [keeps_intros]: "keeps P st \<Longrightarrow> keeps P h \<Longrightarrow> keeps P (failS st h)"
  by (fastforce simp: keeps_wp failS_def split: prod.splits option.splits)

lemmas keepalive_defs = onKeepaliveSent_def keepaliveSent_def settleKeepalives_def outK_def Let_def

lemma wp_onKeepaliveSent:
  assumes "sysInv b B (Suc k) s"
  shows "wp (onKeepaliveSent ok) (\<lambda>t. sysInv b B k t \<and> cnConns t = cnConns s) (\<lambda>_. False) s"
proof -
  have c: "cnKaCount s = waiting s + Suc k" "cnKaPromise s = PromPending" "waiting s + Suc k < 2 ^ 64"
    using assms by (simp_all add: sysInv_def)
  have m: "(cnKaCount s + (2 ^ 64 - 1)) mod 2 ^ 64 = waiting s + k"
  proof -
    have "cnKaCount s + (2 ^ 64 - 1) = waiting s + k + 2 ^ 64" using c(1) by simp
    then show ?thesis using c(3) by simp
  qed
  show ?thesis
    using assms c(2) m unfolding keepalive_defs
    by (cases ok) (auto simp: wp_def tryS_def failS_def modS_def ifS_def readS_def sysInv_def)
qed

lemma wp_keepalivesSent:
  "sysInv b B (k + n) s \<Longrightarrow> wp (forS (replicate n ok) onKeepaliveSent) (sysInv b B k) (\<lambda>_. False) s"
proof (induction n arbitrary: s)
  case 0
  then show ?case by (simp add: wp_def)
next
  case (Suc n)
  show ?case unfolding replicate_Suc forS_simps
    by (rule wp_step [OF wp_onKeepaliveSent [of b B "k + n"]]) (use Suc in auto)
qed

lemma wp_settleSend:
  assumes "sysInv b B k s" "koSend (connOf sh s) = PromPending"
  shows "wp (settleSend sh ok) (sysInv b B k) (\<lambda>_. False) s"
proof -
  have sh: "sh \<in> set (shards s)" using assms(2) conn_absent [of sh s] by (cases "sh \<in> set (shards s)") simp_all
  let ?n = "koWaiters (connOf sh s)" and ?c = "(connOf sh s)\<lparr>koSend := (if ok then PromResolved else PromRejected), koWaiters := 0\<rparr>"
  have "waiting (putConn sh ?c s) + ?n = waiting s" using put_waiting [of s sh ?c] assms(1) sh by (simp add: sysInv_def)
  then have "sysInv b B (k + ?n) (putConn sh ?c s)"
    using assms(1) put_conns [of _ sh ?c s] by (fastforce simp: sysInv_def)
  from wp_keepalivesSent [OF this, of ok] show ?thesis
    using assms(2) by (simp add: settleSend_def wp_simps modK_def)
qed

lemma sys_settleSend [sys_intros]: "keeps (sysInv b B k) (settleSend sh ok)"
proof (rule keepsI)
  fix s assume s: "sysInv b B k s"
  show "sysInv b B k (fst (settleSend sh ok s))"
  proof (cases "koSend (connOf sh s) = PromPending")
    case True
    from wp_settleSend [OF s this, of ok] show ?thesis by (auto simp: wp_def split: prod.splits option.splits)
  qed (simp add: settleSend_def ifS_def throwS_def s)
qed

lemma connOf_put: "sh \<in> set (shards s) \<Longrightarrow> connOf sh (putConn sh c s) = c"
proof -
  have "map_of (map (\<lambda>(i, x). (i, if i = sh then c else x)) xs) sh = Some c" if "sh \<in> fst ` set xs" for xs :: "(nat \<times> Conn) list"
    using that by (induction xs) auto
  then show "sh \<in> set (shards s) \<Longrightarrow> connOf sh (putConn sh c s) = c" by (simp add: connOf_def putConn_def)
qed

lemma online_shard: "koOnline (connOf sh s) \<Longrightarrow> sh \<in> set (shards s)"
  using conn_absent [of sh s] by (cases "sh \<in> set (shards s)") simp_all

lemma wp_sendBuf:
  assumes "sysInv b B k s"
  shows "wp (kSendBuf e sh x) (sysInv b B k) (\<lambda>_. False) s"
proof (cases "koOnline (connOf sh s)")
  case True
  note sh = online_shard [OF True]
  let ?c = "(connOf sh s)\<lparr>koSend := PromPending, koWaiters := 0\<rparr>"
  have new: "sysInv b B k (putConn sh ?c s)" if "koSend (connOf sh s) \<noteq> PromPending"
  proof -
    have "koWaiters (connOf sh s) = 0" using that assms sh conn_mem [of s sh] by (force simp: sysInv_def)
    then have "waiting (putConn sh ?c s) = waiting s" using put_waiting [of s sh ?c] assms sh by (simp add: sysInv_def)
    then show ?thesis using assms put_conns [of _ sh ?c s] by (fastforce simp: sysInv_def)
  qed
  have rest: "wp (doS [outK (KSent sh x), (if ceSend e then doS [] else settleSend sh False)]) (sysInv b B k) (\<lambda>_. False) t"
    if "sysInv b B k t" "koSend (connOf sh t) = PromPending" for t
    using that wp_settleSend [of b B k "t\<lparr>cnOut := cnOut t @ [KSent sh x]\<rparr>" sh False]
    by (simp add: wp_simps outK_def connOf_def)
  show ?thesis
    using True new rest assms connOf_put [OF sh, of ?c]
    by (cases "koSend (connOf sh s) = PromPending") (simp_all add: kSendBuf_def wp_ifS wp_doS(1) wp_doS(2) [of "ifS a b c" for a b c] modK_def wp_basic)
next
  case False
  then show ?thesis using assms by (simp add: kSendBuf_def wp_simps)
qed

lemma sys_sendBuf [sys_intros]: "keeps (sysInv b B k) (kSendBuf e sh x)"
  unfolding keeps_def using wp_sendBuf by (blast intro: wp_mono)

section \<open>Steps of the chats\<close>

lemma env_chats [simp]: "env_ok (ceClient e) \<Longrightarrow> env_ok (chatsEnv e s)"
  by (simp add: env_ok_def chatsEnv_def)

lemma clientS_at:
  assumes s: "sysInv b B k s" and c: "client_inv (fst (st (chatsEnv e s) (cnClient s)))"
  shows "sysInv b B k (fst (clientS e st s))"
proof -
  obtain cl r where r: "st (chatsEnv e s) (cnClient s) = (cl, r)" by fastforce
  have "sysInv b B k (s\<lparr>cnClient := cl\<rparr>)" using c r by (intro sys_client [OF s]) simp
  moreover have "keeps (sysInv b B k) (doS [forS xs (\<lambda>(c, b). readS (\<lambda>s. clConnOf (cnClient s) c) (\<lambda>k. case k of
            None \<Rightarrow> doS [] | Some sh \<Rightarrow> kSendBuf e sh b)), (case r of None \<Rightarrow> doS [] | Some x \<Rightarrow> throwS x)])" for xs
    by (intro sys_intros)
  ultimately show ?thesis using r by (simp add: clientS_def keepsD del: doS.simps forS_simps)
qed

lemma sys_clientS:
  assumes "\<And>s. client_inv (cnClient s) \<Longrightarrow> client_inv (fst (st (chatsEnv e s) (cnClient s)))"
  shows "keeps (sysInv b B k) (clientS e st)"
  using assms by (intro keepsI clientS_at) (auto simp: sysInv_def)

lemma sys_chatS:
  assumes "env_ok (ceClient e)" "\<And>ce ks. env_ok ce \<Longrightarrow> keeps (chat_inv c ks) (st (cnChat ce c))"
  shows "keeps (sysInv b B k) (chatS e c st)"
  unfolding chatS_def
  by (rule sys_clientS) (use assms in \<open>auto intro: keepsD [OF keeps_runChat]\<close>)

lemma sys_call: "env_ok (ceClient e) \<Longrightarrow> keeps (sysInv b B k) (clientS e (\<lambda>ce. clientCall ce call))"
  by (rule sys_clientS) (auto intro: keepsD [OF keeps_clientCall])

section \<open>Every operation\<close>

lemma sys_chats [sys_intros]:
  assumes "env_ok (ceClient e)"
  shows "keeps (sysInv b B k) (chatS e c login)" "keeps (sysInv b B k) (chatS e c onDisconnect)"
    "keeps (sysInv b B k) (chatS e c (\<lambda>env. onRetentionTimeUpdated env p))" "keeps (sysInv b B k) (chatS e c (\<lambda>_. setOnlineState st))"
    "keeps (sysInv b B k) (clientS e (\<lambda>_. modS (cancelRetentionTimer r)))"
proof -
  show "keeps (sysInv b B k) (clientS e (\<lambda>_. modS (cancelRetentionTimer r)))"
    by (rule sys_clientS) (auto simp: modS_def cancelRetentionTimer_def Let_def client_inv_def)
qed (rule sys_chatS [OF assms], intro keeps_intros)+

lemma sys_keepalives [sys_intros]: "keeps (sysInv b B k) (kSendKeepalive e sh)" "keeps (sysInv b B k) (kWsSendMsgCb sh)"
  unfolding kSendKeepalive_def kWsSendMsgCb_def by (intro sys_intros)+

lemma sys_rejoin [sys_intros]: "env_ok (ceClient e) \<Longrightarrow> keeps (sysInv b B k) (rejoinExistingChats e sh)"
  unfolding rejoinExistingChats_def by (intro sys_intros; assumption)

lemma sys_small [sys_intros]:
  "keeps (sysInv b B k) (kResetConnSucceeded now sh)" "keeps (sysInv b B k) (rcSetK sh g f)" "keeps (sysInv b B k) (kConnectReject sh)"
  "keeps (sysInv b B k) (kAbortRetryController sh)" "keeps (sysInv b B k) (kWsConnect sh ip url w)" "keeps (sysInv b B k) (kGetUrl sh why)"
  "keeps (sysInv b B k) (kTlsSession sess)"
proof -
  show r: "keeps (sysInv b B k) (rcSetK sh g f)" for sh g f
    unfolding rcSetK_def by (intro sys_intros) (simp_all split: option.split sum.split)
  show "keeps (sysInv b B k) (kConnectReject sh)" unfolding kConnectReject_def by (intro sys_intros r; simp)
qed (simp_all only: kResetConnSucceeded_def kAbortRetryController_def kWsConnect_def kGetUrl_def kTlsSession_def, (intro sys_intros; simp)+)

lemma sys_resolve [sys_intros]: "env_ok (ceClient e) \<Longrightarrow> keeps (sysInv b B k) (kConnectResolve e sh)"
  unfolding kConnectResolve_def by (intro sys_intros; simp)

lemma sys_states [sys_intros]:
  assumes "env_ok (ceClient e)"
  shows "keeps (sysInv b B k) (onShardDisconnected e sh)" "keeps (sysInv b B k) (onShardConnected e sh)" "keeps (sysInv b B k) (kSetState e sh st)"
proof -
  show d: "keeps (sysInv b B k) (onShardDisconnected e sh)"
    unfolding onShardDisconnected_def by (intro sys_intros assms; simp)
  show c: "keeps (sysInv b B k) (onShardConnected e sh)"
    unfolding onShardConnected_def by (intro sys_intros assms; simp)
  show "keeps (sysInv b B k) (kSetState e sh st)"
    unfolding kSetState_def by (intro sys_intros d c; simp)
qed

lemma sys_close:
  assumes "env_ok (ceClient e)" "keeps (sysInv b B k) recon"
  shows "keeps (sysInv b B k) (kOnSocketCloseG e sh recon)"
  unfolding kOnSocketCloseG_def by (intro sys_intros assms; simp)

lemma sys_connect [sys_intros]:
  assumes "env_ok (ceClient e)"
  shows "keeps (sysInv b B k) (kDoConnect e sh)" "keeps (sysInv b B k) (kAttempt e sh g n i)" "keeps (sysInv b B k) (kRun e sh f)"
    "keeps (sysInv b B k) (kReconnect e sh)" "keeps (sysInv b B k) (kOnSocketClose e sh)"
proof -
  show d: "keeps (sysInv b B k) (kDoConnect e sh)"
    unfolding kDoConnect_def by (intro sys_intros sys_close assms; simp)
  show a: "keeps (sysInv b B k) (kAttempt e sh g n i)" for g n i
    unfolding kAttempt_def by (intro sys_intros d assms; simp)
  show r: "keeps (sysInv b B k) (kRun e sh f)" for f
    unfolding kRun_def by (intro sys_intros) (auto intro!: sys_intros a split: sum.split)
  show c: "keeps (sysInv b B k) (kReconnect e sh)"
    unfolding kReconnect_def by (intro sys_intros r assms; simp)
  show "keeps (sysInv b B k) (kOnSocketClose e sh)"
    unfolding kOnSocketClose_def by (intro sys_close c assms)
qed

lemma sys_fetchUrl:
  assumes "env_ok (ceClient e)" "keeps (sysInv b B k) st"
  shows "keeps (sysInv b B k) (kFetchUrl e sh why st)"
  unfolding kFetchUrl_def by (intro sys_intros assms; simp)

lemma sys_retryPending: "env_ok (ceClient e) \<Longrightarrow> keeps (sysInv b B k) (kRetryPending n e sh d r)"
proof (induction n arbitrary: d r)
  case 0
  show ?case by (simp only: kRetryPending.simps) (intro sys_intros)
next
  case (Suc n)
  show ?case unfolding kRetryPending.simps by (intro sys_intros sys_fetchUrl Suc; simp)
qed

lemma sys_retry [sys_intros]: "env_ok (ceClient e) \<Longrightarrow> keeps (sysInv b B k) (kRetryPendingConnection e sh d r)"
  unfolding kRetryPendingConnection_def by (rule sys_retryPending)

lemma sys_answers [sys_intros]:
  assumes "env_ok (ceClient e)"
  shows "keeps (sysInv b B k) (kUrlReply e sh i res)" "keeps (sysInv b B k) (kDnsReply e sh noName i st v4 v6)"
proof -
  have "keeps (sysInv b B k) (kOnUrl e sh why url)" for why url
    unfolding kOnUrl_def by (cases why) (simp_all only: Fetch.case, (intro sys_intros assms; simp)+)
  then show "keeps (sysInv b B k) (kUrlReply e sh i res)" unfolding kUrlReply_def by (intro sys_intros; simp)
  have "keeps (sysInv b B k) (kOnDns e sh noName r st v4 v6)" for r
    unfolding kOnDns_def by (intro sys_intros assms; simp)
  then show "keeps (sysInv b B k) (kDnsReply e sh noName i st v4 v6)" unfolding kDnsReply_def by (intro sys_intros; simp)
qed

lemma sys_connCall: "env_ok (ceClient e) \<Longrightarrow> keeps (sysInv b B k) (connCall e sh call)"
proof -
  assume e: "env_ok (ceClient e)"
  show ?thesis
  proof (cases call)
    case CSendKeepalive
    show ?thesis unfolding CSendKeepalive connCall_def ChatdCall.case by (rule sys_keepalives)
  next
    case (CSetClientId i)
    show ?thesis unfolding CSetClientId connCall_def ChatdCall.case by (rule sys_modK) simp_all
  next
    case CCancelEchoTimer
    show ?thesis unfolding CCancelEchoTimer connCall_def ChatdCall.case by (rule sys_modK) simp_all
  qed (simp_all only: connCall_def ChatdCall.case sys_call [OF e])
qed

lemma sys_socket [sys_intros]:
  assumes "env_ok (ceClient e)"
  shows "keeps (sysInv b B k) (kWsConnectCb e sh)" "keeps (sysInv b B k) (kWsClosed e sh)" "keeps (sysInv b B k) (kWsHandleMsgCb e sh x)"
proof -
  show "keeps (sysInv b B k) (kWsConnectCb e sh)" unfolding kWsConnectCb_def by (intro sys_intros assms; simp)
  show "keeps (sysInv b B k) (kWsClosed e sh)" unfolding kWsClosed_def kWsCloseCb_def by (intro sys_intros assms; simp)
  have "keeps (sysInv b B k) (\<lambda>s. case execCommand (routeH (frameEnv e sh) (connCall e sh)) x 0 s of
        (s', FrameCrash x) \<Rightarrow> (s', Some x) | (s', _) \<Rightarrow> (s', None))"
  proof (rule keepsI)
    fix s assume "sysInv b B k s"
    then have "sysInv b B k (fst (execCommand (routeH (frameEnv e sh) (connCall e sh)) x 0 s))"
      by (rule keeps_exec [rotated]) (rule keeps_routeH, rule sys_connCall, rule assms)
    then show "sysInv b B k (fst (case execCommand (routeH (frameEnv e sh) (connCall e sh)) x 0 s of
        (s', FrameCrash x) \<Rightarrow> (s', Some x) | (s', _) \<Rightarrow> (s', None)))"
      by (auto split: prod.splits frame_end.splits)
  qed
  then show "keeps (sysInv b B k) (kWsHandleMsgCb e sh x)" unfolding kWsHandleMsgCb_def by (intro sys_intros; simp)
qed

lemma sys_timers [sys_intros]:
  assumes "env_ok (ceClient e)"
  shows "keeps (sysInv b B k) (kConnectTimeout e sh)" "keeps (sysInv b B k) (kEchoTimeout e sh)" "keeps (sysInv b B k) (kDelayTimer e sh)"
    "keeps (sysInv b B k) (kAttemptTimer e sh r)" "keeps (sysInv b B k) (connSendEcho e sh)" "keeps (sysInv b B k) (connHeartbeat e sh)"
  unfolding kConnectTimeout_def kEchoTimeout_def kDelayTimer_def connSendEcho_def connHeartbeat_def
  by (intro sys_intros assms; simp)
    (auto simp: kAttemptTimer_def intro!: sys_intros assms split: Timer.split)

section \<open>A round of keepalives\<close>

lemma wp_forS_inv: "(\<And>x t. x \<in> set xs \<Longrightarrow> P t \<Longrightarrow> wp (f x) P (\<lambda>_. False) t) \<Longrightarrow> P s \<Longrightarrow> wp (forS xs f) P (\<lambda>_. False) s"
  using wp_forS [of xs P True f s] by simp

lemma wp_sendEcho:
  assumes "sysInv b B k s"
  shows "wp (clientSendEcho e) (sysInv b B k) (\<lambda>_. False) s"
proof -
  have "wp (connSendEcho e sh) (sysInv b B k) (\<lambda>_. False) t" if "sysInv b B k t" for sh t
    using that wp_sendBuf [OF sys_put [OF that, of "(connOf sh t)\<lparr>koEcho := True\<rparr>" sh], of e sh "newCommand OP_ECHO"]
    by (simp add: connSendEcho_def wp_ifS wp_doS wp_basic modK_def)
  then show ?thesis
    using assms by (auto simp: clientSendEcho_def wp_basic wp_ifS wp_doS intro!: wp_forS_inv)
qed

lemma wp_awaitSend:
  assumes "sysInv b B (Suc k) s"
  shows "wp (awaitSend sh) (sysInv b B k) (\<lambda>_. False) s"
proof (cases "koSend (connOf sh s) = PromPending")
  case True
  then have sh: "sh \<in> set (shards s)" using conn_absent [of sh s] by (cases "sh \<in> set (shards s)") simp_all
  let ?c = "(connOf sh s)\<lparr>koWaiters := Suc (koWaiters (connOf sh s))\<rparr>"
  have "waiting (putConn sh ?c s) = Suc (waiting s)" using put_waiting [of s sh ?c] assms sh by (simp add: sysInv_def)
  then have "sysInv b B k (putConn sh ?c s)" using assms True put_conns [of _ sh ?c s] by (fastforce simp: sysInv_def)
  then show ?thesis using True by (simp add: awaitSend_def wp_basic modK_def)
next
  case False
  have "wp (onKeepaliveSent ok) (sysInv b B k) (\<lambda>_. False) s" for ok
    by (rule wp_mono [OF wp_onKeepaliveSent [OF assms]]) simp_all
  then show ?thesis using False by (cases "koSend (connOf sh s)") (simp_all add: awaitSend_def wp_basic)
qed

lemma wp_round:
  "sysInv b B (length ss) s \<Longrightarrow> wp (forS ss (\<lambda>sh. doS [kSendKeepalive e sh, awaitSend sh])) (sysInv b B 0) (\<lambda>_. False) s"
proof (induction ss arbitrary: s)
  case Nil
  then show ?case by (simp add: wp_def)
next
  case (Cons sh ss)
  have "wp (doS [kSendKeepalive e sh, awaitSend sh]) (sysInv b B (length ss)) (\<lambda>_. False) s"
    unfolding kSendKeepalive_def
    by (rule wp_step [OF wp_sendBuf]) (use Cons.prems wp_awaitSend in \<open>auto simp: wp_doS\<close>)
  then show ?case unfolding forS_simps
  proof (rule wp_step)
    fix t assume "sysInv b B (length ss) t"
    from Cons.IH [OF this] show "wp (doS [forS ss (\<lambda>sh. doS [kSendKeepalive e sh, awaitSend sh])]) (sysInv b B 0) (\<lambda>_. False) t"
      by (simp only: doS_simps)
  qed
qed

lemma wp_sendKeepalive:
  assumes s: "sysInv b B 0 s" and B: "B + length (cnConns s) < 2 ^ 64"
  shows "wp (clientSendKeepalive e) (sysInv True (B + length (cnConns s)) 0) (\<lambda>_. False) s"
proof -
  let ?rest = "readS shards (\<lambda>ss. if ss = [] then settleKeepalives True else doS [
       modS (\<lambda>s. s\<lparr>cnKaCount := (cnKaCount s + length ss) mod 2 ^ 64\<rparr>),
       forS ss (\<lambda>sh. doS [kSendKeepalive e sh, awaitSend sh])])"
  have rest: "wp ?rest (sysInv True (B + length (cnConns s)) 0) (\<lambda>_. False) t"
    if t: "sysInv False B 0 t" "cnKaPromise t = PromPending" "cnConns t = cnConns s" for t
  proof (cases "shards t = []")
    case True
    then show ?thesis using t by (auto simp: wp_simps settleKeepalives_def outK_def sysInv_def waiting_def)
  next
    case False
    let ?n = "length (shards t)" and ?t = "t\<lparr>cnKaCount := (cnKaCount t + length (shards t)) mod 2 ^ 64\<rparr>"
    have "cnKaCount t = waiting t" "waiting t \<le> B" using t(1) by (simp_all add: sysInv_def)
    then have "(cnKaCount t + ?n) mod 2 ^ 64 = waiting t + ?n" using B t(3) by simp
    then have "sysInv True (B + length (cnConns s)) ?n ?t"
      using t False B by (simp add: sysInv_def)
    from wp_round [OF this, of e] show ?thesis using False by (simp add: wp_basic wp_doS)
  qed
  show ?thesis
  proof (cases "cnKaPromise s = PromPending")
    case True
    have "sysInv False B 0 s" using s by (simp add: sysInv_def)
    from rest [OF this True] show ?thesis using True by (simp add: clientSendKeepalive_def wp_doS wp_ifS)
  next
    case False
    then have "cnKaCount s = 0" using s by (auto simp: sysInv_def)
    moreover have "sysInv False B 0 (s\<lparr>cnKaCount := 0, cnKaFailed := False, cnKaPromise := PromPending\<rparr>)"
      using s calculation by (simp add: sysInv_def)
    ultimately show ?thesis
      using False rest [of "s\<lparr>cnKaCount := 0, cnKaFailed := False, cnKaPromise := PromPending\<rparr>"]
      by (simp add: clientSendKeepalive_def wp_doS wp_ifS wp_basic assertK_def)
  qed
qed

section \<open>Every run\<close>

text \<open>
  The chats know their own handles; a queue can be read back when its chat is created; and fewer than \<open>2 ^ 64\<close>
  keepalives are in flight.
\<close>

definition cnAllowed :: "CEnv \<Rightarrow> CnEvent \<Rightarrow> CN \<Rightarrow> bool" where
  "cnAllowed e x s \<longleftrightarrow> env_ok (ceClient e) \<and> (case x of
     KCreateChat fr c sh us t \<Rightarrow> isOk (loadSendQueue (clDb (cnClient s)) c (eMyHandle (cnChat (ceClient e) c)))
   | KNotifyUserStatus \<Rightarrow> waiting s + length (cnConns s) < 2 ^ 64
   | _ \<Rightarrow> True)"

lemma sys_create:
  assumes "sysInv b B k s" "env_ok (ceClient e)" "isOk (loadSendQueue (clDb (cnClient s)) c (eMyHandle (cnChat (ceClient e) c)))"
  shows "sysInv b B k (fst (connCreateChat fr e c sh us t s))"
proof (cases "chatFromId (cnClient s) c = None")
  case True
  let ?t = "if map_of (cnConns s) sh = None then s\<lparr>cnConns := insort_key fst (sh, newConn (ceNow e)) (cnConns s)\<rparr> else s"
  have "sum_list (map f (insort_key fst x xs)) = f x + sum_list (map f xs)" for f :: "nat \<times> Conn \<Rightarrow> nat" and x xs
    by (induction xs) auto
  moreover have "distinct (map fst (insort_key fst (sh, y) xs))" if "distinct (map fst xs)" "sh \<notin> fst ` set xs" for y and xs :: "(nat \<times> Conn) list"
    using that by (induction xs) (auto simp: set_insort_key)
  ultimately have t: "sysInv b B k ?t"
    using assms(1) by (auto simp: sysInv_def waiting_def set_insort_key map_of_eq_None_iff)
  have cl: "cnClient ?t = cnClient s" by simp
  obtain q where q: "loadSendQueue (clDb (cnClient s)) c (eMyHandle (cnChat (ceClient e) c)) = Inr q"
    using assms(3) by (auto simp: isOk_def split: sum.splits)
  have "client_inv (fst (createChat fr (chatsEnv e ?t) c sh us t (cnClient s)))"
    by (rule create_inv [OF _ _ ]) (use assms(1,2) q in \<open>auto simp: sysInv_def chatsEnv_def env_ok_def\<close>)
  then have "sysInv b B k (fst (clientS e (\<lambda>ce. createChat fr ce c sh us t) ?t))"
    by (intro clientS_at [OF t]) (simp only: cl)
  moreover have "connCreateChat fr e c sh us t s = clientS e (\<lambda>ce. createChat fr ce c sh us t) ?t"
    using True by (simp add: connCreateChat_def ifS_def modS_def)
  ultimately show ?thesis by simp
qed (simp add: connCreateChat_def ifS_def assms(1))

lemma sys_all [sys_intros]:
  assumes "env_ok (ceClient e)"
  shows "keeps (sysInv b B k) (clientHeartbeat e)" "keeps (sysInv b B k) (retryPendingConnections e d r)" "keeps (sysInv b B k) (clientDisconnect e)"
    "keeps (sysInv b B k) (connLeaveChat e c)" "keeps (sysInv b B k) (chatConnect e c)"
    "keeps (sysInv b B k) (clientS e (\<lambda>ce. runChat ce c (chatOp ce c op)))" "keeps (sysInv b B k) (clientS e onRetentionTimer)"
    "keeps (sysInv b B k) (clientS e onRichLinkState)"
proof -
  show "keeps (sysInv b B k) (connLeaveChat e c)"
    unfolding connLeaveChat_def by (intro sys_intros sys_clientS keepsD [OF keeps_leave])
  show "keeps (sysInv b B k) (chatConnect e c)"
    unfolding chatConnect_def connConnect_def by (intro sys_intros sys_fetchUrl assms)
  show "keeps (sysInv b B k) (clientS e (\<lambda>ce. runChat ce c (chatOp ce c op)))"
    by (rule sys_clientS, rule keepsD [OF keeps_runChat]) (use assms keeps_chatOp in auto)
  show "keeps (sysInv b B k) (clientHeartbeat e)" "keeps (sysInv b B k) (retryPendingConnections e d r)" "keeps (sysInv b B k) (clientDisconnect e)"
    unfolding clientHeartbeat_def retryPendingConnections_def clientDisconnect_def by (intro sys_intros assms)+
qed (rule sys_clientS, erule keepsD [OF keeps_retentionTimer] keepsD [OF keeps_richLinkState])+

lemma keeps_shards:
  "keeps (\<lambda>s. shards s = ss) (clientSendEcho e)"
proof -
  have "keeps (\<lambda>s. shards s = ss) (modK sh f)" for sh f
    unfolding modK_def by (rule keeps_modS) simp
  moreover have "keeps (\<lambda>s. shards s = ss) (outK x)" "keeps (\<lambda>s. shards s = ss) (onKeepaliveSent ok)" for x ok
    unfolding keepalive_defs by (intro keeps_intros; simp)+
  ultimately show ?thesis
    unfolding clientSendEcho_def connSendEcho_def kSendBuf_def settleSend_def by (intro keeps_intros)
qed

lemma wp_and_keeps: "wp st Q (\<lambda>_. False) s \<Longrightarrow> keeps P st \<Longrightarrow> P s \<Longrightarrow> wp st (\<lambda>t. Q t \<and> P t) (\<lambda>_. False) s"
  by (auto simp: wp_def keeps_wp split: prod.splits option.splits)

lemma sys_event:
  assumes "sysInv b (waiting s) 0 s" "cnAllowed e x s"
  shows "sysInv (b \<or> x = KNotifyUserStatus) (waiting (fst (cnEvent e x s))) 0 (fst (cnEvent e x s))"
proof -
  let ?t = "fst (cnEvent e x s)"
  have e: "env_ok (ceClient e)" using assms(2) by (simp add: cnAllowed_def)
  have shrink: "sysInv b' (waiting u) 0 u" if "sysInv b' B 0 u" for b' B u using that by (auto simp: sysInv_def)
  show ?thesis
  proof (cases "x = KNotifyUserStatus")
    case True
    let ?B = "waiting s + length (cnConns s)"
    have "wp (clientNotifyUserStatus e) (\<lambda>u. \<exists>B. sysInv True B 0 u) (\<lambda>_. False) s"
      unfolding clientNotifyUserStatus_def
    proof (rule wp_step)
      show "wp (if ceBackground e then outK KCancelSeenTimers else clientSendEcho e)
          (\<lambda>u. sysInv b (waiting s) 0 u \<and> shards u = shards s) (\<lambda>_. False) s"
        using assms(1) wp_and_keeps [OF wp_sendEcho [OF assms(1), of e] keeps_shards [of "shards s"]]
        by (simp add: outK_def wp_basic)
      fix u assume u: "sysInv b (waiting s) 0 u \<and> shards u = shards s"
      then have "length (cnConns u) = length (cnConns s)" by (metis length_map)
      then have "waiting s + length (cnConns u) < 2 ^ 64" using assms(2) True by (simp add: cnAllowed_def)
      from wp_sendKeepalive [OF conjunct1 [OF u] this, of e]
      have "wp (clientSendKeepalive e) (\<lambda>u. \<exists>B. sysInv True B 0 u) (\<lambda>_. False) u" by (rule wp_mono) blast+
      then show "wp (doS [clientSendKeepalive e]) (\<lambda>u. \<exists>B. sysInv True B 0 u) (\<lambda>_. False) u" by (simp only: doS_simps)
    qed
    then have "\<exists>B. sysInv True B 0 ?t" using True by (auto simp: wp_def split: prod.splits option.splits)
    then show ?thesis using True shrink by auto
  next
    case False
    have "sysInv b (waiting s) 0 ?t"
    proof (cases x)
      case (KCreateChat fr c sh us t)
      then show ?thesis using sys_create [OF assms(1) e] assms(2) by (simp add: cnAllowed_def)
    next
      case KNotifyUserStatus
      with False show ?thesis by simp
    qed (simp_all only: cnEvent.simps, (rule keepsD [where P = "sysInv b (waiting s) 0", OF _ assms(1)], intro sys_intros; (rule e)?)+)
    then show ?thesis using False shrink by simp
  qed
qed

end
