(* ===== verification/ChatdConnProps.thy ===== *)
theory ChatdConnProps
  imports ChatdConnInv ChatQueueProps
begin

text \<open>
  Properties of the chats with their connections: the invariants of every run, what a lost connection does to its
  chats, and two errors of the connections.
\<close>

section \<open>Runs\<close>

primrec calmCn :: "(CEnv \<times> CnEvent) list \<Rightarrow> CN \<Rightarrow> bool" where
  "calmCn [] s \<longleftrightarrow> True"
| "calmCn (x # xs) s \<longleftrightarrow> cnAllowed (fst x) (snd x) s \<and> calmCn xs (fst (cnEvent (fst x) (snd x) s))"

lemma sys_run:
  "sysInv b (waiting s) 0 s \<Longrightarrow> calmCn es s \<Longrightarrow>
    sysInv (b \<or> (\<exists>x \<in> set es. snd x = KNotifyUserStatus)) (waiting (runCn es s)) 0 (runCn es s)"
  unfolding runCn_def
proof (induction es arbitrary: b s)
  case (Cons x es)
  from Cons.prems have "sysInv (b \<or> snd x = KNotifyUserStatus) (waiting (fst (cnEvent (fst x) (snd x) s))) 0 (fst (cnEvent (fst x) (snd x) s))"
    by (intro sys_event) simp_all
  from Cons.IH [OF this] Cons.prems(2) show ?case by (simp add: case_prod_beta disj_assoc)
qed simp

lemma sys_start:
  "db_ok d \<Longrightarrow> sorted (map snd (sendKeys d)) \<Longrightarrow> sysInv False 0 0 (newCN (newClient d) dns)"
  using client_reach_inv [OF cr_start [of d]] by (simp add: sysInv_def newCN_def waiting_def)

text \<open>
  C1: In every run of the chats with their connections - sockets that open, close and deliver frames, name lookups,
  answers of the API, timers, keepalives and calls of the application, in any order - the cache stays intact, and every
  chat's sending queue in memory holds exactly the rows of the chat in the cache, in the increasing order of their
  row ids, with \<open>mNextUnsent\<close> inside the queue or at its end.
\<close>

theorem system_queue_invariant:
  assumes "db_ok d" "sorted (map snd (sendKeys d))" "calmCn es (newCN (newClient d) dns)"
    "(c, ch) \<in> set (clChats (cnClient (runCn es (newCN (newClient d) dns))))"
  shows "let cl = cnClient (runCn es (newCN (newClient d) dns)) in db_ok (clDb cl) \<and>
    map siRowid (mSending ch) = map sRowid (filter (\<lambda>r. sChat r = c) (dSending (clDb cl))) \<and>
    sorted_wrt (<) (map siRowid (mSending ch)) \<and>
    (\<forall>i. mNextUnsent ch = Some i \<longrightarrow> i \<le> length (mSending ch))"
proof -
  have "sysInv False (waiting (newCN (newClient d) dns)) 0 (newCN (newClient d) dns)"
    using sys_start [OF assms(1,2)] by (simp add: sysInv_def)
  from sys_run [OF this assms(3)] have inv: "client_inv (cnClient (runCn es (newCN (newClient d) dns)))"
    by (simp add: sysInv_def)
  show ?thesis unfolding Let_def by (rule queue_inv_view [OF inv assms(4)])
qed

definition sampleCEnv :: CEnv where
  "sampleCEnv = \<lparr>ceNow = 1000, ceTerminated = False, ceAnonymous = False, ceBackground = False, ceIdentity = 9, ceResolveFails = False,
     ceConnect1 = True, ceConnect2 = False, ceSend = True, ceClient = sampleClientEnv, ceRoute = sampleEnv\<rparr>"

definition sampleEvents :: "(CEnv \<times> CnEvent) list" where
  "sampleEvents = [(sampleCEnv, KCreateChat (\<lambda>_. 0) 7 0 {1, 2} 900), (sampleCEnv, KChatConnect 7)]"

abbreviation sampleStart :: CN where "sampleStart \<equiv> newCN (newClient sampleChatDb) (newDnsCache [] 2)"

lemma sampleDb_ok: "db_ok sampleChatDb" "sorted (map snd (sendKeys sampleChatDb))"
  by (simp_all add: sampleChatDb_def db_ok_def emptyDb_def hist_ok_def sendKeys_def)

lemma sample_allowed:
  "env_ok (ceClient sampleCEnv)" "cnAllowed sampleCEnv (KCreateChat (\<lambda>_. 0) 7 0 {1, 2} 900) sampleStart"
  using sampleClientEnv_ok
  by (simp_all add: sampleCEnv_def cnAllowed_def newCN_def newClient_def loadSendQueue_def sample_simps isOk_def)

lemma sampleEvents_calm: "calmCn sampleEvents sampleStart"
  using sample_allowed by (simp add: sampleEvents_def del: cnEvent.simps) (simp add: cnAllowed_def)

lemma newChat_offline:
  "newChat fr (recvEnv (chatsEnv sampleCEnv s) 7) sampleChatDb {1, 2} 900 = (sampleChat, None)"
proof -
  let ?e = "(sampleChatEnv 7)\<lparr>eConnOnline := chatOnline s 7\<rparr>"
  have e: "recvEnv (chatsEnv sampleCEnv s) 7 = \<lparr>reEnv = ?e, reDecrypt = cnDecrypt sampleClientEnv 7\<rparr>"
    by (simp add: recvEnv_def chatsEnv_def sampleCEnv_def sampleClientEnv_def)
  have u: "unreadCount ?e sampleChat = Inr 0"
    by (simp add: unreadCount_def blankChat_def getUnreadMsgCountAfterIdx_def rowsOf_def sample_simps Let_def)
  have c: "calculateUnreadCount ?e sampleChat = (sampleChat, None)"
    using u by (simp add: calculateUnreadCount_def getS_def ifS_def blankChat_def)
  show ?thesis
    using c by (simp add: e newChat_def startChat_def sampleChatEnv_def Let_def initChat_def modS_def blankChat_def
        loadSendQueue_def getIdxOfMsgidFromHistory_def getIdxOfMsgid_def findRow_def
        emptyBuf_def ltClear_def newLastTextMsg_def getDbHistInfoAndInitOldestKnownMsgId_def getS_def getHistoryInfo_def rowsOf_def
        sample_simps ifS_def emptyDbInfo_def Id_null_def getReactionSn_def chatVar_def loadAndProcessUnsent_def)
qed

definition sampleConnected :: CN where
  "sampleConnected = runCn sampleEvents sampleStart"

lemma sampleConnected_state:
  "sampleConnected = sampleStart\<lparr>cnClient := (newClient sampleChatDb)\<lparr>clChats := [(7, sampleChat)], clConnOf := [7 \<mapsto> 0], clShards := [0 \<mapsto> {7}]\<rparr>,
     cnConns := [(0, (newConn 1000)\<lparr>koState := kStateFetchingUrl, koFetches := [FetchConnect]\<rparr>)], cnOut := [KGetUrl 0 7]\<rparr>"
proof -
  have s: "cOut sampleChat = []" "cDb sampleChat = sampleChatDb" by (simp_all add: blankChat_def)
  show ?thesis
    using newChat_offline [of "\<lambda>_. 0"] s
    by (simp add: sampleConnected_def runCn_def sampleEvents_def connCreateChat_def newCN_def ifS_def modS_def newClient_def chatFromId_def
        clientS_def createChat_def sends_def chatConnect_def readS_def connOf_def connConnect_def kFetchUrl_def assertK_def outK_def
        shardChats_def shardUrl_def isValidUrl_def getRecord_def newDnsCache_def kSetState_def modK_def putConn_def kGetUrl_def newConn_def)
      (simp add: sampleCEnv_def)
qed

theorem system_queue_invariant_witness:
  "\<exists>ch. clChats (cnClient (runCn sampleEvents sampleStart)) = [(7, ch)] \<and>
    map siRowid (mSending ch) = map sRowid (filter (\<lambda>r. sChat r = 7) (dSending (clDb (cnClient (runCn sampleEvents sampleStart)))))"
  using system_queue_invariant [OF sampleDb_ok sampleEvents_calm, of 7 sampleChat] sampleConnected_state
  by (simp add: sampleConnected_def Let_def)

section \<open>Keepalives\<close>

text \<open>
  C6: Once the application has told its status, in every run: the keepalives counted are those that wait for their
  socket, and the promise given to the application is settled exactly when none is left, so it never stays open.
\<close>

theorem keepalives_settle:
  assumes "db_ok d" "sorted (map snd (sendKeys d))" "calmCn es (newCN (newClient d) dns)"
    "\<exists>x \<in> set es. snd x = KNotifyUserStatus"
  shows "let s = runCn es (newCN (newClient d) dns) in
    cnKaCount s = waiting s \<and> (cnKaPromise s = PromPending \<longleftrightarrow> (\<exists>x \<in> set (cnConns s). koWaiters (snd x) \<noteq> 0))"
proof -
  have "sysInv False (waiting (newCN (newClient d) dns)) 0 (newCN (newClient d) dns)"
    using sys_start [OF assms(1,2)] by (simp add: sysInv_def)
  from sys_run [OF this assms(3)] assms(4)
  have inv: "sysInv True (waiting (runCn es (newCN (newClient d) dns))) 0 (runCn es (newCN (newClient d) dns))" by simp
  let ?s = "runCn es (newCN (newClient d) dns)"
  have "waiting ?s = 0 \<longleftrightarrow> (\<forall>x \<in> set (cnConns ?s). koWaiters (snd x) = 0)"
    by (simp add: waiting_def)
  moreover have "cnKaCount ?s = waiting ?s" "cnKaPromise ?s = PromPending \<longleftrightarrow> waiting ?s \<noteq> 0" using inv by (auto simp: sysInv_def)
  ultimately show ?thesis by (simp add: Let_def)
qed

lemma calmCn_append: "calmCn (xs @ ys) s \<longleftrightarrow> calmCn xs s \<and> calmCn ys (runCn xs s)"
  by (induction xs arbitrary: s) (simp_all add: runCn_def case_prod_beta)

theorem keepalives_settle_witness:
  "let s = runCn (sampleEvents @ [(sampleCEnv, KNotifyUserStatus)]) sampleStart in
    cnKaCount s = waiting s \<and> (cnKaPromise s = PromPending \<longleftrightarrow> (\<exists>x \<in> set (cnConns s). koWaiters (snd x) \<noteq> 0))"
proof (rule keepalives_settle [OF sampleDb_ok])
  have "cnAllowed sampleCEnv KNotifyUserStatus (runCn sampleEvents sampleStart)"
    using sampleConnected_state sample_allowed(1) by (simp add: sampleConnected_def cnAllowed_def waiting_def newConn_def)
  then show "calmCn (sampleEvents @ [(sampleCEnv, KNotifyUserStatus)]) sampleStart"
    using sampleEvents_calm by (simp add: calmCn_append)
qed simp

lemma forS_next: "f x s = (t, None) \<Longrightarrow> forS (x # xs) f s = forS xs f t"
  by simp

text \<open>
  A keepalive of a connection that was never opened counts as sent: with only such connections the application
  is told that its keepalives have been sent although nothing was.
\<close>

theorem keepalive_reported_unsent:
  assumes "cnConns s \<noteq> []" "distinct (shards s)" "length (cnConns s) < 2 ^ 64" "cnKaCount s = 0"
    "\<forall>x \<in> set (cnConns s). \<not> koOnline (snd x) \<and> koSend (snd x) = PromResolved" "cnKaPromise s = PromPending \<longrightarrow> \<not> cnKaFailed s"
  shows "\<exists>t. clientSendKeepalive e s = (t, None) \<and> cnOut t = cnOut s @ [KKeepalivesSent True] \<and> cnKaPromise t = PromResolved"
proof -
  have round: "\<exists>t. forS ss (\<lambda>sh. doS [kSendKeepalive e sh, awaitSend sh]) u = (t, None) \<and>
      cnOut t = cnOut s @ [KKeepalivesSent True] \<and> cnKaPromise t = PromResolved"
    if "ss \<noteq> []" "set ss \<subseteq> set (shards u)" "cnConns u = cnConns s" "cnKaCount u = length ss" "\<not> cnKaFailed u" "cnKaPromise u = PromPending"
      "cnOut u = cnOut s" "length ss < 2 ^ 64" for ss u
    using that
  proof (induction ss arbitrary: u)
    case (Cons sh ss)
    have "sh \<in> set (shards u)" using Cons.prems(2) by simp
    then obtain x where x: "(sh, x) \<in> set (cnConns s)" using Cons.prems(3) by auto
    then have "connOf sh u = x" using conn_mem [of u sh x] assms(2) Cons.prems(3) by simp
    then have o: "\<not> koOnline (connOf sh u)" "koSend (connOf sh u) = PromResolved" using x assms(5) by auto
    have m: "(Suc (length ss) + (2 ^ 64 - 1)) mod 2 ^ 64 = length ss" using Cons.prems(8) by simp
    show ?case
    proof (cases ss)
      case Nil
      then show ?thesis
        using o m Cons.prems
        by (simp add: kSendKeepalive_def kSendBuf_def awaitSend_def ifS_def readS_def keepalive_defs modS_def failS_def)
    next
      case (Cons a as)
      let ?v = "u\<lparr>cnKaCount := length ss\<rparr>"
      have "doS [kSendKeepalive e sh, awaitSend sh] u = (?v, None)"
        using o m Cons \<open>cnKaCount u = length (sh # ss)\<close>
        by (simp add: kSendKeepalive_def kSendBuf_def awaitSend_def ifS_def readS_def onKeepaliveSent_def keepaliveSent_def modS_def failS_def Let_def)
      moreover have "\<exists>t. forS ss (\<lambda>sh. doS [kSendKeepalive e sh, awaitSend sh]) ?v = (t, None) \<and>
          cnOut t = cnOut s @ [KKeepalivesSent True] \<and> cnKaPromise t = PromResolved"
        by (rule Cons.IH) (use Cons Cons.prems in auto)
      ultimately show ?thesis by (simp only: forS_next)
    qed
  qed simp
  let ?u = "(if cnKaPromise s = PromPending then s else s\<lparr>cnKaCount := 0, cnKaFailed := False, cnKaPromise := PromPending\<rparr>)
    \<lparr>cnKaCount := length (shards s)\<rparr>"
  have "\<exists>t. forS (shards s) (\<lambda>sh. doS [kSendKeepalive e sh, awaitSend sh]) ?u = (t, None) \<and>
      cnOut t = cnOut s @ [KKeepalivesSent True] \<and> cnKaPromise t = PromResolved"
    by (rule round) (use assms in auto)
  moreover have "clientSendKeepalive e s = forS (shards s) (\<lambda>sh. doS [kSendKeepalive e sh, awaitSend sh]) ?u"
    using assms(1,3,4) by (simp add: clientSendKeepalive_def ifS_def modS_def readS_def assertK_def)
  ultimately show ?thesis by simp
qed


theorem keepalive_reported_unsent_witness:
  "\<exists>t. clientSendKeepalive sampleCEnv sampleConnected = (t, None) \<and> cnOut t = [KGetUrl 0 7, KKeepalivesSent True] \<and> cnKaPromise t = PromResolved"
  using keepalive_reported_unsent [of sampleConnected sampleCEnv]
  by (simp add: sampleConnected_state newCN_def koOnline_def newConn_def)

section \<open>A shard without chats\<close>

lemma sends_same:
  assumes "distinct (map fst (clChats old))" "set (clChats new) \<subseteq> set (clChats old)"
  shows "sends old new = []"
proof -
  have "chatFromId old c = Some ch" if "(c, ch) \<in> set (clChats new)" for c ch
    using that assms by (auto simp: chatFromId_def)
  then show ?thesis by (auto simp: sends_def)
qed

text \<open>
  C36: When the last chat of a shard has been left, the end of its connection asks for a new URL in the name of
  the first chat of an empty set: the end iterator of the set is followed.
\<close>

theorem close_after_last_chat_crashes:
  assumes "clShards (cnClient s) sh = Some {c}" "clConnOf (cnClient s) c = Some sh" "chatFromId (cnClient s) c \<noteq> None"
    "client_inv (cnClient s)" "\<not> ePreviewMode (cnChat (ceClient e) c)" "koWs (connOf sh s)" "koState (connOf sh s) \<noteq> kStateFetchingUrl" "\<not> koFetching (connOf sh s)"
  shows "snd (doS [connLeaveChat e c, kWsClosed e' sh] s) = Some OutOfBounds"
proof -
  let ?cl = "(cnClient s)\<lparr>clShards := (clShards (cnClient s))(sh := Some {}), clConnOf := (clConnOf (cnClient s))(c := None),
     clChats := filter (\<lambda>(i, _). i \<noteq> c) (clChats (cnClient s))\<rparr>"
  have "leaveChat (chatsEnv e s) c (cnClient s) = (?cl, None)"
    using assms(1-3,5) by (simp add: leaveChat_def readS_def modS_def ifS_def chatsEnv_def chatFromId_def)
  moreover have "sends (cnClient s) ?cl = []"
    by (rule sends_same) (use assms(4) in \<open>auto simp: client_inv_def\<close>)
  ultimately have "connLeaveChat e c s = (s\<lparr>cnClient := ?cl\<rparr>, None)"
    using assms(2,5) by (simp add: connLeaveChat_def readS_def clientS_def)
  moreover have "snd (kWsClosed e' sh (s\<lparr>cnClient := ?cl\<rparr>)) = Some OutOfBounds"
  proof -
    let ?t = "s\<lparr>cnClient := ?cl\<rparr>"
    have o: "connOf sh ?t = connOf sh s" by (simp add: connOf_def)
    have m: "sh \<in> set (shards ?t)"
    proof (rule ccontr)
      assume "sh \<notin> set (shards ?t)"
      then have "connOf sh s = newConn 0" by (intro conn_absent) simp
      then show False using assms(6) by (simp add: newConn_def)
    qed
    have c: "shardChats sh (putConn sh x (putConn sh y ?t)) = []" for x y by (simp add: shardChats_def putConn_def)
    show ?thesis
      using assms(6-8) o m by (simp add: kWsClosed_def kWsCloseCb_def kGetUrl_def ifS_def modK_def modS_def readS_def connOf_put c throwS_def)
  qed
  ultimately show ?thesis by simp
qed

text \<open>A connection that is up, as the case the theorem is about.\<close>

definition sampleUp :: CN where
  "sampleUp = sampleConnected\<lparr>cnConns := [(0, (newConn 1000)\<lparr>koState := kStateConnected, koWs := True\<rparr>)]\<rparr>"

theorem close_after_last_chat_crashes_witness:
  "snd (doS [connLeaveChat sampleCEnv 7, kWsClosed sampleCEnv 0] sampleUp) = Some OutOfBounds"
proof (rule close_after_last_chat_crashes)
  have "sysInv False (waiting sampleStart) 0 sampleStart" using sys_start [OF sampleDb_ok] by (simp add: sysInv_def)
  from sys_run [OF this sampleEvents_calm] show "client_inv (cnClient sampleUp)"
    by (simp add: sysInv_def sampleUp_def sampleConnected_def)
qed (simp_all add: sampleUp_def sampleConnected_state newCN_def chatFromId_def connOf_def newConn_def sampleCEnv_def sampleClientEnv_def sampleChatEnv_def)

end
