(* ===== verification/ChatdConnDown.thy ===== *)
theory ChatdConnDown
  imports ChatdConnProps ChatConfirm
begin

text \<open>
  What the loss of a connection does: it closes the socket, stops the timers, gives up the keepalives in flight and
  takes all chats of the shard, and only them, offline.
\<close>

section \<open>Chats whose connection is not online\<close>

lemma sendBuf_offline: "\<not> koOnline (connOf sh s) \<Longrightarrow> kSendBuf e sh b s = (s, None)"
  by (simp add: kSendBuf_def ifS_def)

lemma runChat_client [simp]:
  "clConnOf (fst (runChat e c st cl)) = clConnOf cl" "clShards (fst (runChat e c st cl)) = clShards cl"
proof -
  have "clConnOf (fold (\<lambda>t. updateRetentionCheckTs e t False) xs cl) = clConnOf cl \<and>
      clShards (fold (\<lambda>t. updateRetentionCheckTs e t False) xs cl) = clShards cl" for xs cl
    by (induction xs arbitrary: cl) (simp_all add: updateRetentionCheckTs_def setRetentionTimer_def cancelRetentionTimer_def Let_def)
  then show "clConnOf (fst (runChat e c st cl)) = clConnOf cl" "clShards (fst (runChat e c st cl)) = clShards cl"
    by (auto simp: runChat_def putChat_def split: option.split prod.split)
qed

lemma sends_one:
  assumes "distinct (map fst (clChats cl))" "chatFromId cl c = Some ch" "x \<in> set (sends cl (fst (runChat e c st cl)))"
  shows "fst x = c"
proof -
  let ?new = "fst (runChat e c st cl)"
  from assms(3) obtain i ch' where i: "(i, ch') \<in> set (clChats ?new)" and x: "fst x = i"
    and n: "drop (case chatFromId cl i of None \<Rightarrow> 0 | Some ch' \<Rightarrow> length (cOut ch')) (cOut ch') \<noteq> []"
    by (fastforce simp: sends_def)
  have "chatFromId ?new i = Some ch'" using i assms(1) by (simp add: chatFromId_def)
  then show ?thesis using n x runChat_chat(1) [OF assms(2), of e st i] by (cases "i = c") (auto simp: runChat_chat(1) [OF assms(2)])
qed

lemma forS_idle: "(\<And>x. x \<in> set xs \<Longrightarrow> f x s = (s, None)) \<Longrightarrow> forS xs f s = (s, None)"
  by (induction xs) simp_all

text \<open>A step of such a chat sends nothing, whatever it does.\<close>

lemma chatS_offline:
  assumes "distinct (map fst (clChats (cnClient s)))" "chatFromId (cnClient s) c = Some ch" "clConnOf (cnClient s) c = Some sh"
    "\<not> koOnline (connOf sh s)"
  shows "chatS e c st s = (s\<lparr>cnClient := fst (runChat (chatsEnv e s) c (st (cnChat (chatsEnv e s) c)) (cnClient s))\<rparr>,
    snd (st (cnChat (chatsEnv e s) c) (ch\<lparr>cDb := clDb (cnClient s)\<rparr>)))"
proof -
  let ?st = "st (cnChat (chatsEnv e s) c)"
  obtain cl r where cl: "runChat (chatsEnv e s) c ?st (cnClient s) = (cl, r)" by fastforce
  then have c: "cl = fst (runChat (chatsEnv e s) c ?st (cnClient s))" and r: "r = snd (?st (ch\<lparr>cDb := clDb (cnClient s)\<rparr>))"
    using runChat_chat(2) [OF assms(2), of "chatsEnv e s" ?st] by simp_all
  let ?s = "s\<lparr>cnClient := cl\<rparr>"
  have "forS (sends (cnClient s) cl) (\<lambda>(c, b). readS (\<lambda>s. clConnOf (cnClient s) c) (\<lambda>k. case k of
            None \<Rightarrow> doS [] | Some sh \<Rightarrow> kSendBuf e sh b)) ?s = (?s, None)"
  proof (rule forS_idle)
    fix x assume "x \<in> set (sends (cnClient s) cl)"
    then have "fst x = c" using sends_one [OF assms(1,2)] c by blast
    then show "(\<lambda>(c, b). readS (\<lambda>s. clConnOf (cnClient s) c) (\<lambda>k. case k of
            None \<Rightarrow> doS [] | Some sh \<Rightarrow> kSendBuf e sh b)) x ?s = (?s, None)"
      using assms(3,4) c by (cases x) (simp add: readS_def sendBuf_offline connOf_def)
  qed
  then have "clientS e (\<lambda>ce. runChat ce c (st (cnChat ce c))) s = (?s, r)"
    using cl by (cases r) (simp_all add: clientS_def throwS_def)
  then show ?thesis using c r by (simp add: chatS_def)
qed

text \<open>The same step on all chats of the shard.\<close>

lemma chats_loop:
  assumes "\<And>env ch. P ch \<Longrightarrow> \<exists>ch'. st env ch = (ch', None) \<and> Q ch'" "\<And>ch d. P (ch\<lparr>cDb := d\<rparr>) = P ch"
    and "distinct (map fst (clChats (cnClient s)))" "\<not> koOnline (connOf sh s)" "distinct cs"
    "\<forall>c \<in> set cs. clConnOf (cnClient s) c = Some sh \<and> (\<exists>ch. chatFromId (cnClient s) c = Some ch \<and> P ch)"
  shows "\<exists>cl. forS cs (\<lambda>c. chatS e c st) s = (s\<lparr>cnClient := cl\<rparr>, None) \<and> clConnOf cl = clConnOf (cnClient s) \<and>
    clShards cl = clShards (cnClient s) \<and> map fst (clChats cl) = map fst (clChats (cnClient s)) \<and>
    (\<forall>c \<in> set cs. \<exists>ch. chatFromId cl c = Some ch \<and> Q ch) \<and> (\<forall>c. c \<notin> set cs \<longrightarrow> chatFromId cl c = chatFromId (cnClient s) c)"
  using assms(3-)
proof (induction cs arbitrary: s)
  case Nil
  then show ?case by (intro exI [of _ "cnClient s"]) simp
next
  case (Cons c cs)
  from Cons.prems(4) obtain ch where ch: "chatFromId (cnClient s) c = Some ch" "P ch" "clConnOf (cnClient s) c = Some sh" by auto
  let ?st = "st (cnChat (chatsEnv e s) c)" and ?ch = "ch\<lparr>cDb := clDb (cnClient s)\<rparr>"
  let ?cl = "fst (runChat (chatsEnv e s) c ?st (cnClient s))"
  have q: "snd (?st ?ch) = None" "Q (fst (?st ?ch))"
    using assms(1) [of ?ch "cnChat (chatsEnv e s) c"] assms(2) ch(2) by force+
  have first: "chatS e c st s = (s\<lparr>cnClient := ?cl\<rparr>, None)"
    using chatS_offline [OF Cons.prems(1) ch(1,3) Cons.prems(2), of e st] q(1) by simp
  have at: "chatFromId ?cl i = (if i = c then Some (fst (?st ?ch)) else chatFromId (cnClient s) i)" for i
    by (rule runChat_chat(1) [OF ch(1)])
  have "\<exists>cl. forS cs (\<lambda>c. chatS e c st) (s\<lparr>cnClient := ?cl\<rparr>) = (s\<lparr>cnClient := ?cl\<rparr>\<lparr>cnClient := cl\<rparr>, None) \<and>
      clConnOf cl = clConnOf (cnClient (s\<lparr>cnClient := ?cl\<rparr>)) \<and> clShards cl = clShards (cnClient (s\<lparr>cnClient := ?cl\<rparr>)) \<and>
      map fst (clChats cl) = map fst (clChats (cnClient (s\<lparr>cnClient := ?cl\<rparr>))) \<and>
      (\<forall>c \<in> set cs. \<exists>ch. chatFromId cl c = Some ch \<and> Q ch) \<and>
      (\<forall>c. c \<notin> set cs \<longrightarrow> chatFromId cl c = chatFromId (cnClient (s\<lparr>cnClient := ?cl\<rparr>)) c)"
    by (rule Cons.IH) (use Cons.prems at in \<open>auto simp: connOf_def\<close>)
  then obtain cl where cl: "forS cs (\<lambda>c. chatS e c st) (s\<lparr>cnClient := ?cl\<rparr>) = (s\<lparr>cnClient := cl\<rparr>, None)"
      "clConnOf cl = clConnOf (cnClient s)" "clShards cl = clShards (cnClient s)" "map fst (clChats cl) = map fst (clChats (cnClient s))"
      "\<forall>c \<in> set cs. \<exists>ch. chatFromId cl c = Some ch \<and> Q ch" "\<forall>i. i \<notin> set cs \<longrightarrow> chatFromId cl i = chatFromId ?cl i"
    by auto
  have "chatFromId cl c = Some (fst (?st ?ch))" using cl(6) Cons.prems(3) at [of c] by simp
  moreover have "forS (c # cs) (\<lambda>c. chatS e c st) s = forS cs (\<lambda>c. chatS e c st) (s\<lparr>cnClient := ?cl\<rparr>)"
    by (rule forS_next) (rule first)
  ultimately show ?case using cl q(2) at by (intro exI [of _ cl]) auto
qed

section \<open>One chat\<close>

text \<open>A request for attachments waits only while the list of attachments is being fetched.\<close>

definition fetchesKnown :: "Chat \<Rightarrow> bool" where
  "fetchesKnown ch \<longleftrightarrow> count_list (mFetchRequest ch) kFetchNodeHistory \<le> (if fhFetchingFromServer (cFh ch) then 1 else 0)"

definition isDown :: "Chat \<Rightarrow> bool" where
  "isDown ch \<longleftrightarrow> mOnlineState ch = kChatStateOffline \<and> mFetchRequest ch = [] \<and> mServerFetchState ch = kHistNotFetching \<and> mRetentionTime ch = 0"

lemma retention_reset:
  assumes "fetchesKnown ch"
  shows "\<exists>ch'. onRetentionTimeUpdated env 0 ch = (ch', None) \<and> fetchesKnown ch' \<and> mRetentionTime ch' = 0"
  using assms
  by (simp add: onRetentionTimeUpdated_def handleRetentionTime_def ifS_def modS_def listenS_def outS_def fetchesKnown_def)

lemma drop_fetches:
  assumes "fetchesKnown ch" "q = mFetchRequest ch"
  shows "\<exists>ch'. forS q (\<lambda>ft. doS [modS (\<lambda>s. s\<lparr>mFetchRequest := tl (mFetchRequest s)\<rparr>), dropFetch ft]) ch = (ch', None) \<and>
    mFetchRequest ch' = [] \<and> mRetentionTime ch' = mRetentionTime ch"
  using assms
proof (induction q arbitrary: ch)
  case (Cons ft q)
  have m: "mFetchRequest ch = ft # q" using Cons.prems(2) by simp
  have "\<exists>ch'. doS [modS (\<lambda>s. s\<lparr>mFetchRequest := tl (mFetchRequest s)\<rparr>), dropFetch ft] ch = (ch', None) \<and>
      fetchesKnown ch' \<and> mFetchRequest ch' = q \<and> mRetentionTime ch' = mRetentionTime ch"
  proof (cases ft)
    case kFetchMessages
    then show ?thesis using Cons.prems(1) m
      by (simp add: dropFetch_def modS_def ifS_def listenS_def outS_def fetchesKnown_def)
  next
    case kFetchNodeHistory
    then have "fhFetchingFromServer (cFh ch)" "count_list q kFetchNodeHistory = 0"
      using Cons.prems(1) m by (auto simp: fetchesKnown_def split: if_splits)
    then show ?thesis using kFetchNodeHistory m
      by (simp add: dropFetch_def modS_def fhS_def updS_def fhFinishFetchingFromServer_def Let_def fetchesKnown_def)
  qed
  then obtain ch1 where c: "doS [modS (\<lambda>s. s\<lparr>mFetchRequest := tl (mFetchRequest s)\<rparr>), dropFetch ft] ch = (ch1, None)"
      "fetchesKnown ch1" "mFetchRequest ch1 = q" "mRetentionTime ch1 = mRetentionTime ch"
    by blast
  have e: "forS (ft # q) (\<lambda>ft. doS [modS (\<lambda>s. s\<lparr>mFetchRequest := tl (mFetchRequest s)\<rparr>), dropFetch ft]) ch =
      forS q (\<lambda>ft. doS [modS (\<lambda>s. s\<lparr>mFetchRequest := tl (mFetchRequest s)\<rparr>), dropFetch ft]) ch1"
    by (rule forS_next) (rule c(1))
  show ?case unfolding e using Cons.IH [OF c(2) c(3) [symmetric]] unfolding c(4) .
qed simp

lemma disconnect_chat:
  assumes "fetchesKnown ch" "mRetentionTime ch = 0"
  shows "\<exists>ch'. onDisconnect env ch = (ch', None) \<and> isDown ch'"
proof -
  from drop_fetches [OF assms(1) refl] obtain ch' where
    "forS (mFetchRequest ch) (\<lambda>ft. doS [modS (\<lambda>s. s\<lparr>mFetchRequest := tl (mFetchRequest s)\<rparr>), dropFetch ft]) ch = (ch', None)"
    "mFetchRequest ch' = []" "mRetentionTime ch' = 0"
    using assms(2) by auto
  then show ?thesis
    by (simp add: onDisconnect_def readS_def onPreviewersUpdate_def setOnlineState_def ifS_def modS_def listenS_def outS_def isDown_def)
qed

section \<open>The keepalives in flight\<close>

lemma keepaliveSent_total:
  "\<exists>t. onKeepaliveSent ok s = (t, None) \<and> cnClient t = cnClient s \<and> cnConns t = cnConns s"
  by (simp add: keepalive_defs failS_def tryS_def modS_def ifS_def readS_def throwS_def catchable_def)

lemma keepalivesSent_total:
  "\<exists>t. forS xs onKeepaliveSent s = (t, None) \<and> cnClient t = cnClient s \<and> cnConns t = cnConns s"
proof (induction xs arbitrary: s)
  case (Cons x xs)
  from keepaliveSent_total [of x s] obtain u where u: "onKeepaliveSent x s = (u, None)" "cnClient u = cnClient s" "cnConns u = cnConns s"
    by blast
  from Cons.IH [of u] show ?case using u(2,3) by (simp only: forS_next [where f = onKeepaliveSent, OF u(1)])
qed simp

lemma settleSend_total:
  assumes "koSend (connOf sh s) = PromPending" "sh \<in> set (shards s)"
  shows "\<exists>t. settleSend sh ok s = (t, None) \<and> cnClient t = cnClient s \<and>
    connOf sh t = (connOf sh s)\<lparr>koSend := (if ok then PromResolved else PromRejected), koWaiters := 0\<rparr>"
proof -
  let ?c = "(connOf sh s)\<lparr>koSend := (if ok then PromResolved else PromRejected), koWaiters := 0\<rparr>"
  from keepalivesSent_total [of "replicate (koWaiters (connOf sh s)) ok" "putConn sh ?c s"]
  obtain t where t: "forS (replicate (koWaiters (connOf sh s)) ok) onKeepaliveSent (putConn sh ?c s) = (t, None)"
    "cnClient t = cnClient s" "cnConns t = cnConns (putConn sh ?c s)" by auto
  have "connOf sh t = connOf sh (putConn sh ?c s)" using t(3) by (simp add: connOf_def)
  then have "connOf sh t = ?c" by (simp only: connOf_put [OF assms(2)])
  moreover have "settleSend sh ok s = (t, None)"
    using assms(1) t(1) by (simp add: settleSend_def ifS_def readS_def modK_def modS_def del: forS_simps)
  ultimately show ?thesis using t(2) by blast
qed

section \<open>The connection\<close>

lemma modK_next:
  "sh \<in> set (shards s) \<Longrightarrow> modK sh f s = (putConn sh (f (connOf sh s)) s, None)"
  by (simp add: modK_def modS_def)

lemma client_conn [simp]:
  "connOf sh (s\<lparr>cnClient := cl\<rparr>) = connOf sh s" "putConn sh c (s\<lparr>cnClient := cl\<rparr>) = (putConn sh c s)\<lparr>cnClient := cl\<rparr>"
  "connOf sh (s\<lparr>cnOut := x\<rparr>) = connOf sh s"
  by (simp_all add: connOf_def putConn_def)

text \<open>What becomes of the connection before its chats are told.\<close>

definition downConn :: "bool \<Rightarrow> Conn \<Rightarrow> Conn" where
  "downConn terminated k = k\<lparr>koState := kStateDisconnected, koHeartbeat := False, koWs := False, koEcho := False, koTimer := \<not> terminated\<rparr>"

lemma close_socket:
  assumes "sh \<in> set (shards s)" "koState (connOf sh s) = kStateDisconnected"
  shows "\<exists>t. doS [modK sh (\<lambda>c. c\<lparr>koHeartbeat := False\<rparr>),
     whenK sh koWs [outK (KWsDisconnect sh), modK sh (\<lambda>c. c\<lparr>koWs := False\<rparr>)],
     modK sh (\<lambda>c. c\<lparr>koEcho := False, koTimer := \<not> x\<rparr>)] s = (t, None) \<and>
   cnClient t = cnClient s \<and> shards t = shards s \<and> connOf sh t = downConn x (connOf sh s)"
proof (cases "koWs (connOf sh s)")
  case True
  then show ?thesis using assms by (simp add: modK_def modS_def ifS_def outK_def connOf_put downConn_def)
next
  case False
  then have "downConn x (connOf sh s) = (connOf sh s)\<lparr>koHeartbeat := False, koEcho := False, koTimer := \<not> x\<rparr>"
    using assms(2) by (simp add: downConn_def)
  then show ?thesis using False assms by (simp add: modK_def modS_def ifS_def connOf_put)
qed

lemma doS_then: "doS xs s = (t, None) \<Longrightarrow> doS (xs @ ys) s = doS ys t"
proof (induction xs arbitrary: s)
  case (Cons x xs)
  then show ?case by (auto split: prod.splits option.splits)
qed simp

lemma doS_next: "x s = (t, None) \<Longrightarrow> doS (x # xs) s = doS xs t"
  by simp



end
