(* ===== verification/Strongvelope.thy ===== *)
theory Strongvelope
  imports Tlv ChatCommand ChatMessage SchedMeeting
begin

text \<open>
  The format of encrypted messages: \<open>ParsedMessage\<close>, \<open>EncryptedMessage\<close> and the stateless operations of
  \<open>ProtocolHandler\<close> of \<open>src/strongvelope/strongvelope.cpp\<close>.

  The cryptographic primitives are those of libsodium, Crypto++ and the SDK, which are not part of the
  repository: they are the functions of \<open>Crypto\<close>, and what is relied upon is \<open>crypto_ok\<close>.  Members that the
  code leaves uninitialised are the argument \<open>junk\<close>.  Following a null pointer and reading outside a buffer is
  \<open>OutOfBounds\<close>; an assertion that is followed by its own handling of the case lets the code go on.
\<close>

section \<open>Primitives\<close>

record Crypto =
  crHmac :: "bytes \<Rightarrow> bytes \<Rightarrow> bytes"
  crCtrEnc :: "bytes \<Rightarrow> bytes \<Rightarrow> bytes \<Rightarrow> bytes"
  crCtrDec :: "bytes \<Rightarrow> bytes \<Rightarrow> bytes \<Rightarrow> bytes"
  crEcbEnc :: "bytes \<Rightarrow> bytes \<Rightarrow> bytes"
  crEcbDec :: "bytes \<Rightarrow> bytes \<Rightarrow> bytes"
  crSign :: "bytes \<Rightarrow> bytes \<Rightarrow> bytes"
  crVerify :: "bytes \<Rightarrow> bytes \<Rightarrow> bytes \<Rightarrow> bool"
  crPub :: "bytes \<Rightarrow> bytes"
  crCuPub :: "bytes \<Rightarrow> bytes"
  crDh :: "bytes \<Rightarrow> bytes \<Rightarrow> bytes"
  crXxEnc :: "u32 list \<Rightarrow> u32 list \<Rightarrow> u32 list"
  crXxDec :: "u32 list \<Rightarrow> u32 list \<Rightarrow> u32 list"
  crA32 :: "bytes \<Rightarrow> u32 list"
  crStr32 :: "u32 list \<Rightarrow> bytes"
  crAtob :: "bytes \<Rightarrow> bytes"

definition strBytes :: "string \<Rightarrow> bytes" where
  "strBytes s = map of_char s"

section \<open>Records of a message\<close>

definition TLV_TYPE_SIGNATURE :: byte where "TLV_TYPE_SIGNATURE = 0x01"
definition TLV_TYPE_MESSAGE_TYPE :: byte where "TLV_TYPE_MESSAGE_TYPE = 0x02"
definition TLV_TYPE_NONCE :: byte where "TLV_TYPE_NONCE = 0x03"
definition TLV_TYPE_RECIPIENT :: byte where "TLV_TYPE_RECIPIENT = 0x04"
definition TLV_TYPE_KEYS :: byte where "TLV_TYPE_KEYS = 0x05"
definition TLV_TYPE_KEY_IDS :: byte where "TLV_TYPE_KEY_IDS = 0x06"
definition TLV_TYPE_PAYLOAD :: byte where "TLV_TYPE_PAYLOAD = 0x07"
definition TLV_TYPE_INC_PARTICIPANT :: byte where "TLV_TYPE_INC_PARTICIPANT = 0x08"
definition TLV_TYPE_EXC_PARTICIPANT :: byte where "TLV_TYPE_EXC_PARTICIPANT = 0x09"
definition TLV_TYPE_INVITOR :: byte where "TLV_TYPE_INVITOR = 0x0b"
definition TLV_TYPE_PRIVILEGE :: byte where "TLV_TYPE_PRIVILEGE = 0x0c"
definition TLV_TYPE_KEYBLOB :: byte where "TLV_TYPE_KEYBLOB = 0x0f"
definition TLV_TYPE_OPENMODE :: byte where "TLV_TYPE_OPENMODE = 0x10"
definition TLV_TYPE_SCHED_ID :: byte where "TLV_TYPE_SCHED_ID = 0x11"
definition TLV_TYPE_SCHED_CHANGESET :: byte where "TLV_TYPE_SCHED_CHANGESET = 0x12"

lemmas tlvType_defs = TLV_TYPE_SIGNATURE_def TLV_TYPE_MESSAGE_TYPE_def TLV_TYPE_NONCE_def TLV_TYPE_RECIPIENT_def
  TLV_TYPE_KEYS_def TLV_TYPE_KEY_IDS_def TLV_TYPE_PAYLOAD_def TLV_TYPE_INC_PARTICIPANT_def TLV_TYPE_EXC_PARTICIPANT_def
  TLV_TYPE_INVITOR_def TLV_TYPE_PRIVILEGE_def TLV_TYPE_KEYBLOB_def TLV_TYPE_OPENMODE_def TLV_TYPE_SCHED_ID_def
  TLV_TYPE_SCHED_CHANGESET_def

definition SVCRYPTO_PROTOCOL_VERSION :: byte where "SVCRYPTO_PROTOCOL_VERSION = 0x03"
definition SVCRYPTO_MSGTYPE_FOLLOWUP :: byte where "SVCRYPTO_MSGTYPE_FOLLOWUP = 0x01"

abbreviation (input) SVCRYPTO_NONCE_SIZE :: nat where "SVCRYPTO_NONCE_SIZE \<equiv> 12"
abbreviation (input) SVCRYPTO_KEY_SIZE :: nat where "SVCRYPTO_KEY_SIZE \<equiv> 16"
abbreviation (input) SVCRYPTO_KEY_ID_SIZE :: nat where "SVCRYPTO_KEY_ID_SIZE \<equiv> 4"

record Parsed =
  pmVersion :: byte
  pmSender :: Id
  pmNonce :: bytes
  pmPayload :: bytes
  pmSigned :: bytes
  pmSignature :: bytes
  pmType :: byte
  pmActionId :: Id
  pmOpenmode :: bool
  pmKeyId :: u32
  pmPrevKeyId :: u32
  pmEncKey :: bytes
  pmMgmt :: "ManagementInfo option"
  pmCall :: "CallEndedInfo option"

section \<open>Parsing\<close>

definition isMgmtType :: "byte \<Rightarrow> bool" where
  "isMgmtType t \<longleftrightarrow> t = kMsgAlterParticipants \<or> t = kMsgPrivChange"

text \<open>A participant record of a management message; the management information may be missing.\<close>

definition pmParticipant :: "bytes \<Rightarrow> TlvRecord \<Rightarrow> Priv \<Rightarrow> Parsed \<Rightarrow> Parsed res" where
  "pmParticipant src r p pm = (case pmMgmt pm of
     None \<Rightarrow> Inl OutOfBounds
   | Some i \<Rightarrow> if miTarget i \<noteq> 0 \<or> miPrivilege i \<noteq> privVal PRIV_INVALID
       then Inl (RuntimeError ''Already parsed an incompatible TLV record'')
       else bindR (tlvRead64 src r) (\<lambda>t. Inr (pm\<lparr>pmMgmt := Some \<lparr>miTarget = t, miPrivilege = privVal p\<rparr>\<rparr>)))"

definition pmRecord :: "Crypto \<Rightarrow> bytes \<Rightarrow> TlvRecord \<Rightarrow> Parsed \<Rightarrow> Parsed res" where
  "pmRecord cr src r pm = (let t = tlvType r; v = tlvBuf src r in
    if t = TLV_TYPE_SIGNATURE then Inr (pm\<lparr>pmSignature := v, pmSigned := drop (dataOffset r + dataLen r) src\<rparr>)
    else if t = TLV_TYPE_NONCE
      then (if dataLen r > 32 then Inl (RuntimeError ''Key::assign: source buffer is larger than our size'') else Inr (pm\<lparr>pmNonce := v\<rparr>))
    else if t = TLV_TYPE_MESSAGE_TYPE then bindR (tlvRead8 src r) (\<lambda>x. Inr (pm\<lparr>pmType := x\<rparr>))
    else if t = TLV_TYPE_INC_PARTICIPANT then
      (if pmType pm = kMsgCallEnd
       then (case pmCall pm of None \<Rightarrow> Inl OutOfBounds
             | Some i \<Rightarrow> bindR (tlvRead64 src r) (\<lambda>u. Inr (pm\<lparr>pmCall := Some (i\<lparr>ceParticipants := ceParticipants i @ [u]\<rparr>)\<rparr>)))
       else if isMgmtType (pmType pm) then pmParticipant src r PRIV_NOCHANGE pm
       else Inr pm)
    else if t = TLV_TYPE_EXC_PARTICIPANT then (if isMgmtType (pmType pm) then pmParticipant src r PRIV_NOTPRESENT pm else Inr pm)
    else if t = TLV_TYPE_INVITOR then bindR (tlvRead64 src r) (\<lambda>u. Inr (pm\<lparr>pmSender := u\<rparr>))
    else if t = TLV_TYPE_PRIVILEGE then
      (if isMgmtType (pmType pm)
       then (case pmMgmt pm of None \<Rightarrow> Inl OutOfBounds
             | Some i \<Rightarrow> bindR (tlvRead8 src r) (\<lambda>p. Inr (pm\<lparr>pmMgmt := Some (i\<lparr>miPrivilege := privOfByte p\<rparr>)\<rparr>)))
       else Inr pm)
    else if t = TLV_TYPE_KEYBLOB \<or> t = TLV_TYPE_KEYS then Inr (pm\<lparr>pmEncKey := v\<rparr>)
    else if t = TLV_TYPE_RECIPIENT then
      (case pmMgmt pm of None \<Rightarrow> Inr pm
       | Some i \<Rightarrow> if miTarget i \<noteq> 0 then Inl (RuntimeError ''Already had one RECIPIENT tlv record'')
           else bindR (tlvRead64 src r) (\<lambda>u. Inr (pm\<lparr>pmMgmt := Some (i\<lparr>miTarget := u\<rparr>)\<rparr>)))
    else if t = TLV_TYPE_KEY_IDS then
      (if dataLen r \<noteq> SVCRYPTO_KEY_ID_SIZE then Inl (RuntimeError ''Key id length is not appropriate for this protocol version'')
       else bindR (readPtr src (dataOffset r) 4) (\<lambda>b. Inr (pm\<lparr>pmKeyId := word_of_nat (of_be b), pmPrevKeyId := 0\<rparr>)))
    else if t = TLV_TYPE_PAYLOAD then Inr (pm\<lparr>pmPayload := v\<rparr>)
    else if t = TLV_TYPE_OPENMODE then Inr (pm\<lparr>pmOpenmode := True\<rparr>)
    else if t = TLV_TYPE_SCHED_ID then bindR (tlvRead64 src r) (\<lambda>u. Inr (pm\<lparr>pmActionId := u\<rparr>))
    else if t = TLV_TYPE_SCHED_CHANGESET then Inr (pm\<lparr>pmEncKey := crAtob cr v\<rparr>)
    else Inl (RuntimeError ''Unknown TLV record type''))"

function pmLoop :: "Crypto \<Rightarrow> bytes \<Rightarrow> nat \<Rightarrow> Parsed \<Rightarrow> Parsed res" where
  "pmLoop cr src off pm =
    (case getRecord src off of
       Inl e \<Rightarrow> Inl e
     | Inr (None, off') \<Rightarrow> Inr pm
     | Inr (Some r, off') \<Rightarrow> (case pmRecord cr src r pm of Inl e \<Rightarrow> Inl e | Inr pm' \<Rightarrow> pmLoop cr src off' pm'))"
  by pat_completeness auto
termination
proof (relation "measure (\<lambda>(cr, src, off, pm). if off = kNotFound then 0 else Suc (length src - off))")
  fix cr :: Crypto and src off and pm :: Parsed and b and r :: "TlvRecord option" and off' and r' and pm'
  assume g: "getRecord src off = Inr b" and p: "(r, off') = b" and s: "r = Some r'"
  then have "getRecord src off = Inr (Some r', off')" by simp
  from getRecord_progress(3-5) [OF this]
  show "((cr, src, off', pm'), cr, src, off, pm) \<in> measure (\<lambda>(cr, src, off, pm). if off = kNotFound then 0 else Suc (length src - off))"
    by auto
qed simp

declare pmLoop.simps [simp del]

definition newParsed :: "bytes \<Rightarrow> Message \<Rightarrow> byte \<Rightarrow> byte \<Rightarrow> Parsed" where
  "newParsed junk m v t = \<lparr>pmVersion = v, pmSender = userid m, pmNonce = junk, pmPayload = [], pmSigned = [], pmSignature = [],
     pmType = t, pmActionId = 0, pmOpenmode = False, pmKeyId = 0, pmPrevKeyId = 0, pmEncKey = [],
     pmMgmt = (if isMgmtType t then Some \<lparr>miTarget = 0, miPrivilege = privVal PRIV_INVALID\<rparr> else None),
     pmCall = (if t = kMsgCallEnd then Some \<lparr>ceCallid = 0, ceTermCode = 0, ceDuration = 0, ceParticipants = []\<rparr> else None)\<rparr>"

definition parseMessage :: "Crypto \<Rightarrow> bytes \<Rightarrow> Message \<Rightarrow> Parsed res" where
  "parseMessage cr junk m =
    (if mData m = [] then Inl (RuntimeError ''parsedMessage::parse: Empty binary message'')
     else bindR (read8 (mData m) 0) (\<lambda>v.
       if v > SVCRYPTO_PROTOCOL_VERSION then Inl (RuntimeError ''Message protocol version is newer than the latest supported'')
       else if v < 2 then Inl (RuntimeError ''Message protocol version is older than the first supported'')
       else bindR (read8 (mData m) 1) (\<lambda>t. pmLoop cr (mData m) 2 (newParsed junk m v t))))"

section \<open>Keys and nonces\<close>

definition SVCRYPTO_PAIRWISE_KEY :: bytes where "SVCRYPTO_PAIRWISE_KEY = strBytes ''strongvelope pairwise key'' @ [1]"
definition SVCRYPTO_SIG :: bytes where "SVCRYPTO_SIG = strBytes ''strongvelopesig''"

text \<open>A null recipient stands for the payload of the message.\<close>

definition deriveNonceSecret :: "Crypto \<Rightarrow> bytes \<Rightarrow> Id \<Rightarrow> bytes" where
  "deriveNonceSecret cr masterNonce recipient =
    crHmac cr (if recipient = Id_null then strBytes ''payload'' else le64 recipient) masterNonce"

text \<open>The first twelve bytes are the nonce of the counter mode, the other four its counter.\<close>

definition payloadIv :: "Crypto \<Rightarrow> bytes \<Rightarrow> bytes" where
  "payloadIv cr nonce = take SVCRYPTO_NONCE_SIZE (deriveNonceSecret cr nonce Id_null) @ le32 0"

definition deriveSharedKey :: "Crypto \<Rightarrow> bytes \<Rightarrow> bytes \<Rightarrow> bytes" where
  "deriveSharedKey cr sharedSecret padString = take 16 (crHmac cr padString (crHmac cr sharedSecret []))"

definition toSign :: "byte \<Rightarrow> byte \<Rightarrow> bytes \<Rightarrow> bytes \<Rightarrow> bytes" where
  "toSign protoVersion mtype key sdata = SVCRYPTO_SIG @ [protoVersion] @ [mtype] @ key @ sdata"

definition signMessage :: "Crypto \<Rightarrow> bytes \<Rightarrow> bytes \<Rightarrow> bytes \<Rightarrow> byte \<Rightarrow> byte \<Rightarrow> bytes \<Rightarrow> bytes" where
  "signMessage cr privEd pubEd sdata protoVersion mtype key = crSign cr (toSign protoVersion mtype key sdata) (privEd @ pubEd)"

text \<open>The size of the signature is not looked at: a signature has 64 bytes for the library.\<close>

definition verifySignature :: "Crypto \<Rightarrow> Parsed \<Rightarrow> bytes \<Rightarrow> bytes \<Rightarrow> bool res" where
  "verifySignature cr pm pubKey sendKey =
    (if length pubKey \<noteq> 32 \<or> length sendKey \<noteq> SVCRYPTO_KEY_SIZE then Inl AssertFail
     else if length (pmSignature pm) < 64 then Inl OutOfBounds
     else Inr (crVerify cr (take 64 (pmSignature pm)) (toSign (pmVersion pm) (pmType pm) sendKey (pmSigned pm)) pubKey))"

section \<open>Encryption\<close>

definition plainPayload :: "Message \<Rightarrow> bytes" where
  "plainPayload m = le64 (backRefId m) @ le16 (word_of_nat (8 * length (backRefs m))) @ concat (map le64 (backRefs m)) @ mData m"

definition encryptedMessage :: "Crypto \<Rightarrow> bytes \<Rightarrow> Message \<Rightarrow> bytes \<Rightarrow> bytes" where
  "encryptedMessage cr nonce m key = crCtrEnc cr (plainPayload m) key (payloadIv cr nonce)"

definition sigTlv :: "Crypto \<Rightarrow> bytes \<Rightarrow> bytes \<Rightarrow> byte \<Rightarrow> bytes \<Rightarrow> bytes \<Rightarrow> bytes" where
  "sigTlv cr privEd pubEd mtype key tlv =
    addRecord TLV_TYPE_SIGNATURE (signMessage cr privEd pubEd tlv SVCRYPTO_PROTOCOL_VERSION mtype key) []"

definition sealMessage :: "Crypto \<Rightarrow> bytes \<Rightarrow> bytes \<Rightarrow> byte \<Rightarrow> bytes \<Rightarrow> bytes \<Rightarrow> bytes" where
  "sealMessage cr privEd pubEd mtype key tlv = [SVCRYPTO_PROTOCOL_VERSION, mtype] @ sigTlv cr privEd pubEd mtype key tlv @ tlv"

definition contentTlv :: "Crypto \<Rightarrow> bytes \<Rightarrow> Message \<Rightarrow> bytes \<Rightarrow> bytes" where
  "contentTlv cr nonce m key =
    addRecord TLV_TYPE_PAYLOAD (encryptedMessage cr nonce m key) (addRecord TLV_TYPE_NONCE nonce [])"

definition msgEncryptWithKey :: "Crypto \<Rightarrow> bytes \<Rightarrow> bytes \<Rightarrow> bytes \<Rightarrow> Message \<Rightarrow> bytes \<Rightarrow> bytes \<Rightarrow> bytes" where
  "msgEncryptWithKey cr privEd pubEd nonce src dest key =
    mcUpdateMsgSize (dest @ sealMessage cr privEd pubEd SVCRYPTO_MSGTYPE_FOLLOWUP key (contentTlv cr nonce src key))"

section \<open>Decryption\<close>

text \<open>
  The back references of version 2 were text: the standard library's conversion between UTF-8 and UTF-16 gives the
  empty string for malformed input and drops an incomplete character at the end.
\<close>

definition cont :: "byte \<Rightarrow> bool" where
  "cont c \<longleftrightarrow> c AND 0xC0 = 0x80"

definition low6 :: "byte \<Rightarrow> nat" where
  "low6 c = unat (c AND 0x3F)"

definition units :: "nat \<Rightarrow> u16 list" where
  "units c = (if c < 0x10000 then [word_of_nat c]
     else [word_of_nat (0xD800 + (c - 0x10000) div 0x400), word_of_nat (0xDC00 + (c - 0x10000) mod 0x400)])"

fun utf8ToUtf16 :: "bytes \<Rightarrow> u16 list option" where
  "utf8ToUtf16 [] = Some []"
| "utf8ToUtf16 (c1 # r) =
    (if c1 < 0x80 then map_option ((@) (units (unat c1))) (utf8ToUtf16 r)
     else if c1 < 0xC2 then None
     else if c1 < 0xE0 then (case r of [] \<Rightarrow> Some [] | c2 # r2 \<Rightarrow>
       if \<not> cont c2 then None else map_option ((@) (units (unat (c1 AND 0x1F) * 64 + low6 c2))) (utf8ToUtf16 r2))
     else if c1 < 0xF0 then (case r of [] \<Rightarrow> Some [] | c2 # r2 \<Rightarrow>
       if \<not> cont c2 \<or> c1 = 0xE0 \<and> c2 < 0xA0 \<or> c1 = 0xED \<and> c2 > 0x9F then None
       else (case r2 of [] \<Rightarrow> Some [] | c3 # r3 \<Rightarrow> if \<not> cont c3 then None
         else map_option ((@) (units (unat (c1 AND 0x0F) * 4096 + low6 c2 * 64 + low6 c3))) (utf8ToUtf16 r3)))
     else if c1 < 0xF5 then (case r of [] \<Rightarrow> Some [] | c2 # r2 \<Rightarrow>
       if \<not> cont c2 \<or> c1 = 0xF0 \<and> c2 < 0x90 \<or> c1 = 0xF4 \<and> c2 \<ge> 0x90 then None
       else (case r2 of [] \<Rightarrow> Some [] | c3 # r3 \<Rightarrow> if \<not> cont c3 then None
         else (case r3 of [] \<Rightarrow> Some [] | c4 # r4 \<Rightarrow> if \<not> cont c4 then None
           else map_option ((@) (units (unat (c1 AND 0x07) * 262144 + low6 c2 * 4096 + low6 c3 * 64 + low6 c4))) (utf8ToUtf16 r4))))
     else None)"

text \<open>The size of the UTF-8 form; \<open>None\<close> for a surrogate that is not part of a pair.\<close>

fun utf8Size :: "u16 list \<Rightarrow> nat option" where
  "utf8Size [] = Some 0"
| "utf8Size (c # r) =
    (if 0xD800 \<le> c \<and> c \<le> 0xDBFF then (case r of [] \<Rightarrow> Some 0 | c2 # r2 \<Rightarrow>
       if 0xDC00 \<le> c2 \<and> c2 \<le> 0xDFFF then map_option ((+) 4) (utf8Size r2) else None)
     else if 0xDC00 \<le> c \<and> c \<le> 0xDFFF then None
     else map_option ((+) (if c < 0x80 then 1 else if c < 0x800 then 2 else 3)) (utf8Size r))"

definition convertError :: bytes where
  "convertError = strBytes ''parsePayload: Error doing utf8/16 conversion''"

text \<open>These work on the message itself, which they may have changed before an exception.\<close>

type_synonym msg_step = "Message \<Rightarrow> Message \<times> exn option"

definition parsePayloadWithUtfBackrefs :: "bytes \<Rightarrow> msg_step" where
  "parsePayloadWithUtfBackrefs data m =
    (if data = [] then (m, None)
     else let u16 = (case utf8ToUtf16 data of None \<Rightarrow> [] | Some u \<Rightarrow> u) in
       if length u16 < 10 then (m, Some (RuntimeError ''parsePayload: payload is less than backrefs minimum size''))
       else let data8 = map (\<lambda>c. ucast (c AND 0xff)) (take 10 u16) :: bytes;
                refsSize = of_le (drop 8 data8); m' = m\<lparr>backRefId := word_of_nat (of_le (take 8 data8))\<rparr> in
         if refsSize + 10 > length u16 then (m', Some OutOfBounds)
         else let binlen8 = (case utf8Size (take (refsSize + 10) u16) of None \<Rightarrow> length convertError | Some n \<Rightarrow> n)
              in (m'\<lparr>mData := drop binlen8 data\<rparr>, None))"

text \<open>The references are read eight bytes at a time up to the end of their run, whatever its size.\<close>

definition parsePayload :: "Parsed \<Rightarrow> bytes \<Rightarrow> msg_step" where
  "parsePayload pm data m =
    (if pmVersion pm < 3 then parsePayloadWithUtfBackrefs data m
     else if length data < 10 then (m, Some (RuntimeError ''parsePayload: payload is less than backrefs minimum size''))
     else let refsSize = of_le (slice data 8 2); binsize = 10 + refsSize; m' = m\<lparr>backRefId := word_of_nat (of_le (take 8 data))\<rparr> in
       if backRefs m \<noteq> [] then (m', Some AssertFail)
       else if length data < binsize then (m', Some (RuntimeError ''parsePayload: Payload size is less than size of backrefs''))
       else (case readIds data 10 ((refsSize + 7) div 8) of
           Inl e \<Rightarrow> (m', Some e)
         | Inr refs \<Rightarrow> (m'\<lparr>backRefs := refs, mData := drop binsize data\<rparr>, None)))"

definition notEncrypted :: "Message \<Rightarrow> Message" where
  "notEncrypted m = m\<lparr>mIsEncrypted := kNotEncrypted\<rparr>"

definition symmetricDecrypt :: "Crypto \<Rightarrow> Parsed \<Rightarrow> bytes \<Rightarrow> msg_step" where
  "symmetricDecrypt cr pm key m =
    (if pmPayload pm = [] then (m\<lparr>mData := []\<rparr>, None)
     else (case parsePayload pm (crCtrDec cr (pmPayload pm) key (payloadIv cr (pmNonce pm))) m of
         (m', None) \<Rightarrow> (notEncrypted m', None) | r \<Rightarrow> r))"

section \<open>Reactions\<close>

text \<open>The reaction is padded on the left to whole words of four bytes.\<close>

definition cypherKey :: "Crypto \<Rightarrow> bytes \<Rightarrow> Id \<Rightarrow> u32 list" where
  "cypherKey cr key i = (let key32 = crA32 cr key; msgId32 = crA32 cr (strBytes (Id_toString i 8))
     in map (\<lambda>j. key32 ! j XOR msgId32 ! (j mod length msgId32)) [0 ..< length key32])"

definition reactionEncryptWith :: "Crypto \<Rightarrow> bytes \<Rightarrow> Id \<Rightarrow> bytes \<Rightarrow> bytes" where
  "reactionEncryptWith cr key i reaction = (let paddingSize = (length reaction + 3) div 4 * 4 - length reaction
     in crStr32 cr (crXxEnc cr (crA32 cr (take 4 (strBytes (Id_toString i 8)) @ replicate paddingSize 0 @ reaction)) (cypherKey cr key i)))"

definition reactionDecryptWith :: "Crypto \<Rightarrow> bytes \<Rightarrow> Id \<Rightarrow> bytes \<Rightarrow> bytes res" where
  "reactionDecryptWith cr key i reaction = (let decrypted = crStr32 cr (crXxDec cr (crA32 cr reaction) (cypherKey cr key i))
     in if length decrypted < 4 then Inl OutOfBounds
        else Inr (dropWhile (\<lambda>b. b = 0) (drop 4 decrypted)))"

section \<open>Titles\<close>

text \<open>The key encrypted for us among those of a title; the entries are read without looking at the end.\<close>

definition titleKey :: "bytes \<Rightarrow> Id \<Rightarrow> bytes res" where
  "titleKey encKey own = bindR (seekKey encKey own 0) (\<lambda>pos.
     if pos \<ge> length encKey then Inl (RuntimeError ''Error getting a version of the encryption key encrypted for us'')
     else if length encKey - pos < SVCRYPTO_KEY_SIZE then Inl (RuntimeError ''Unexpected key entry length - must be 16 bytes'')
     else Inr (slice encKey pos SVCRYPTO_KEY_SIZE))"

text \<open>The blob of a title; the keys are those of the key command, behind its header of 17 bytes.\<close>

definition titleMessage :: "Id \<Rightarrow> BackRefId \<Rightarrow> bytes \<Rightarrow> Message" where
  "titleMessage own ref data = (newMessage 0 own 0 0 data False 0 kMsgInvalid 0 [])\<lparr>backRefId := ref\<rparr>"

definition titleTlv :: "Crypto \<Rightarrow> Id \<Rightarrow> bytes \<Rightarrow> bytes \<Rightarrow> bytes \<Rightarrow> bool \<Rightarrow> bytes \<Rightarrow> BackRefId \<Rightarrow> bytes" where
  "titleTlv cr own nonce key keys createNewKey data ref =
    (let t = addRecord TLV_TYPE_PAYLOAD (encryptedMessage cr nonce (titleMessage own ref data) key)
           (addRecord TLV_TYPE_KEYBLOB keys (addRecord TLV_TYPE_NONCE nonce (addRecordPod TLV_TYPE_INVITOR (le64 own) [])))
     in if createNewKey then t else addRecordPod TLV_TYPE_OPENMODE [1] t)"

definition titleBlob :: "Crypto \<Rightarrow> bytes \<Rightarrow> bytes \<Rightarrow> Id \<Rightarrow> bytes \<Rightarrow> bytes \<Rightarrow> bytes \<Rightarrow> bool \<Rightarrow> bytes \<Rightarrow> BackRefId \<Rightarrow> bytes" where
  "titleBlob cr privEd pubEd own nonce key kcmd createNewKey data ref =
    sealMessage cr privEd pubEd kMsgChatTitle key (titleTlv cr own nonce key (drop 17 kcmd) createNewKey data ref)"

section \<open>Management messages\<close>

datatype SvError = ENOTYPE | ENOKEY | EMALFORMED | ESIGNATURE | EEXPIRED | ENOMSG | EOTHER

text \<open>What a step of the decryption comes to; the message may have been changed before an error.\<close>

datatype Outcome = ODone | OFail SvError | OCrash exn | OTitle | OWait

text \<open>An exception becomes the error of the promise.\<close>

definition settle :: "SvError \<Rightarrow> Message \<times> exn option \<Rightarrow> Message \<times> Outcome" where
  "settle err r = (case r of (m, None) \<Rightarrow> (m, ODone)
     | (m, Some x) \<Rightarrow> (m, (case x of RuntimeError _ \<Rightarrow> OFail err | RangeError \<Rightarrow> OFail err | _ \<Rightarrow> OCrash x)))"

definition orElseMsg :: "Message \<Rightarrow> Message res \<Rightarrow> Message \<times> exn option" where
  "orElseMsg m r = (case r of Inl x \<Rightarrow> (m, Some x) | Inr m' \<Rightarrow> (m', None))"

definition handleManagementMessage :: "bytes \<Rightarrow> Parsed \<Rightarrow> Message \<Rightarrow> Message \<times> Outcome" where
  "handleManagementMessage pad pm m0 =
    (let m = (if isManagementMessageKnownType m0 then m0\<lparr>userid := pmSender pm, mData := []\<rparr> else m0); t = pmType pm in
     if isMgmtType t then
       settle EMALFORMED (orElseMsg m (case pmMgmt pm of None \<Rightarrow> Inl OutOfBounds
         | Some i \<Rightarrow> bindR (createMgmtInfo pad m i) (\<lambda>m. Inr (notEncrypted m))))
     else if t = kMsgCallStarted \<or> t = kMsgTruncate then (notEncrypted m, ODone)
     else if t = kMsgChatTitle then (m, OTitle)
     else if t = kMsgCallEnd then
       settle EMALFORMED (orElseMsg m (case pmCall pm of None \<Rightarrow> Inl OutOfBounds
         | Some i \<Rightarrow> bindR (read64 (pmPayload pm) 0) (\<lambda>callid. bindR (read8 (pmPayload pm) 8) (\<lambda>code.
             bindR (read32 (pmPayload pm) 9) (\<lambda>duration.
             bindR (createCallEndedInfo m (i\<lparr>ceCallid := callid, ceTermCode := code, ceDuration := duration\<rparr>)) (\<lambda>m. Inr (notEncrypted m)))))))
     else if t = kMsgSetPrivateMode \<or> t = kMsgPublicHandleCreate \<or> t = kMsgPublicHandleDelete then (notEncrypted m, ODone)
     else if t = kMsgSetRetentionTime then
       settle EMALFORMED (orElseMsg m (bindR (read32 (pmPayload pm) 0) (\<lambda>r. Inr (notEncrypted (m\<lparr>mData := mData m @ le32 r\<rparr>)))))
     else if t = kMsgSchedMeeting then
       settle EMALFORMED (orElseMsg (m\<lparr>userid := pmSender pm\<rparr>) (if mData m \<noteq> [] then Inl AssertFail
         else Inr (notEncrypted (m\<lparr>userid := pmSender pm, mData := encSchedMeetingInfo (pmActionId pm) (pmEncKey pm)\<rparr>))))
     else (m, OFail ENOTYPE))"

section \<open>The steps of a decryption\<close>

text \<open>With the keys at hand: the signature is only checked outside public chats.\<close>

definition finishDecrypt :: "Crypto \<Rightarrow> bool \<Rightarrow> bytes \<Rightarrow> bytes \<Rightarrow> Parsed \<Rightarrow> Message \<Rightarrow> Message \<times> Outcome" where
  "finishDecrypt cr checked edKey sendKey pm m =
    (case (if checked then verifySignature cr pm edKey sendKey else Inr True) of
       Inl x \<Rightarrow> (m, OCrash x)
     | Inr False \<Rightarrow> (m, OFail ESIGNATURE)
     | Inr True \<Rightarrow> settle EOTHER (symmetricDecrypt cr pm sendKey m))"

text \<open>The title is not encrypted any more, even without a payload.\<close>

definition finishTitle :: "Crypto \<Rightarrow> bytes \<Rightarrow> bytes \<Rightarrow> Parsed \<Rightarrow> Message \<Rightarrow> Message \<times> Outcome" where
  "finishTitle cr edKey sendKey pm m =
    (case finishDecrypt cr (\<not> pmOpenmode pm) edKey sendKey pm m of (m', ODone) \<Rightarrow> (notEncrypted m', ODone) | r \<Rightarrow> r)"

end
