(* ===== verification/StrongvelopeProps.thy ===== *)
theory StrongvelopeProps
  imports Strongvelope
begin

text \<open>
  Properties of the message format: what is encrypted is read back, and which messages are followed outside their
  buffers.
\<close>

section \<open>What is relied upon\<close>

text \<open>
  Documented behaviour of the libraries: AES in counter and codebook mode are inverted with the same key, HMAC-SHA-256
  has 32 bytes, Ed25519 signatures have 64 bytes and verify with the public key of the seed, both sides of X25519
  compute the same secret, XXTEA is inverted with the same key, and the conversion to 32-bit words loses nothing but
  the padding of the last word.
\<close>

definition crypto_ok :: "Crypto \<Rightarrow> bool" where
  "crypto_ok cr \<longleftrightarrow>
    (\<forall>t k iv. length k = 16 \<and> length iv = 16 \<longrightarrow> crCtrDec cr (crCtrEnc cr t k iv) k iv = t \<and> length (crCtrEnc cr t k iv) = length t) \<and>
    (\<forall>p k. length (crHmac cr p k) = 32) \<and>
    (\<forall>m seed. length seed = 32 \<longrightarrow> length (crPub cr seed) = 32 \<and> length (crSign cr m (seed @ crPub cr seed)) = 64 \<and>
       crVerify cr (crSign cr m (seed @ crPub cr seed)) m (crPub cr seed)) \<and>
    (\<forall>t k. length t = 16 \<and> length k = 16 \<longrightarrow> length (crEcbEnc cr t k) = 16 \<and> crEcbDec cr (crEcbEnc cr t k) k = t) \<and>
    (\<forall>a. length (crCuPub cr a) = 32) \<and> (\<forall>a b. crDh cr a (crCuPub cr b) = crDh cr b (crCuPub cr a)) \<and>
    (\<forall>v k. 2 \<le> length v \<longrightarrow> crXxDec cr (crXxEnc cr v k) k = v) \<and>
    (\<forall>v. crA32 cr (crStr32 cr v) = v) \<and>
    (\<forall>b. length (crA32 cr b) = (length b + 3) div 4 \<and> (length b mod 4 = 0 \<longrightarrow> crStr32 cr (crA32 cr b) = b))"

lemma crypto_okD:
  assumes "crypto_ok cr"
  shows "length k = 16 \<Longrightarrow> length iv = 16 \<Longrightarrow> crCtrDec cr (crCtrEnc cr t k iv) k iv = t"
    "length k = 16 \<Longrightarrow> length iv = 16 \<Longrightarrow> length (crCtrEnc cr t k iv) = length t" "length (crHmac cr p k) = 32"
    "length seed = 32 \<Longrightarrow> length (crPub cr seed) = 32" "length seed = 32 \<Longrightarrow> length (crSign cr d (seed @ crPub cr seed)) = 64"
    "length seed = 32 \<Longrightarrow> crVerify cr (crSign cr d (seed @ crPub cr seed)) d (crPub cr seed)"
    "length b = 16 \<Longrightarrow> length k = 16 \<Longrightarrow> length (crEcbEnc cr b k) = 16" "length b = 16 \<Longrightarrow> length k = 16 \<Longrightarrow> crEcbDec cr (crEcbEnc cr b k) k = b"
    "length (crCuPub cr p) = 32" "crDh cr p (crCuPub cr q) = crDh cr q (crCuPub cr p)" "2 \<le> length v \<Longrightarrow> crXxDec cr (crXxEnc cr v w) w = v"
    "crA32 cr (crStr32 cr v) = v" "length (crA32 cr p) = (length p + 3) div 4" "length p mod 4 = 0 \<Longrightarrow> crStr32 cr (crA32 cr p) = p"
  using assms unfolding crypto_ok_def by simp_all

text \<open>A model of these laws: nothing is encrypted, and a signature is the public key twice.\<close>

definition plainCrypto :: Crypto where
  "plainCrypto = \<lparr>crHmac = (\<lambda>_ _. replicate 32 0), crCtrEnc = (\<lambda>t _ _. t), crCtrDec = (\<lambda>t _ _. t), crEcbEnc = (\<lambda>t _. t), crEcbDec = (\<lambda>t _. t),
     crSign = (\<lambda>_ k. drop 32 k @ drop 32 k), crVerify = (\<lambda>sig _ pub. sig = pub @ pub), crPub = (\<lambda>k. k), crCuPub = (\<lambda>_. replicate 32 9),
     crDh = (\<lambda>_ _. replicate 32 1), crXxEnc = (\<lambda>v _. v), crXxDec = (\<lambda>v _. v),
     crA32 = (\<lambda>b. map (\<lambda>i. word_of_nat (of_be (take 4 (drop (4 * i) b)))) [0 ..< (length b + 3) div 4]),
     crStr32 = (\<lambda>v. concat (map (\<lambda>w. rev (le32 w)) v)), crAtob = (\<lambda>b. b)\<rparr>"

lemma of_be_four: "length b = 4 \<Longrightarrow> rev (le32 (word_of_nat (of_be b))) = b"
proof -
  assume l: "length b = 4"
  have "of_le (rev b) < 2 ^ 32" using of_le_less [of "rev b"] l by simp
  then have "unat (word_of_nat (of_le (rev b)) :: u32) = of_le (rev b)" by (simp add: unat_of_nat take_bit_nat_eq_self)
  then show ?thesis using l by (simp add: le32_def of_be_def)
qed

lemma words_of_bytes:
  "length b = 4 * n \<Longrightarrow> concat (map (\<lambda>i. take 4 (drop (4 * i) b)) [0 ..< n]) = b"
proof (induction n arbitrary: b)
  case (Suc n)
  have "map (\<lambda>i. take 4 (drop (4 * i) b)) [0 ..< Suc n] = take 4 b # map (\<lambda>i. take 4 (drop (4 * i) (drop 4 b))) [0 ..< n]"
    by (simp add: upt_conv_Cons map_Suc_upt [symmetric] comp_def add.commute del: upt_Suc)
  moreover have "concat (map (\<lambda>i. take 4 (drop (4 * i) (drop 4 b))) [0 ..< n]) = drop 4 b" using Suc.IH [of "drop 4 b"] Suc.prems by (simp add: add.commute)
  ultimately show ?case by simp
qed simp

lemma be_words:
  "map (\<lambda>i. word_of_nat (of_be (take 4 (drop (4 * i) (concat (map (\<lambda>w. rev (le32 w)) v))))) :: u32) [0 ..< length v] = v"
proof (induction v)
  case (Cons w v)
  let ?b = "concat (map (\<lambda>w. rev (le32 w)) v)"
  have "map (\<lambda>i. word_of_nat (of_be (take 4 (drop (4 * i) (rev (le32 w) @ ?b)))) :: u32) [0 ..< Suc (length v)] =
      word_of_nat (of_be (rev (le32 w))) # map (\<lambda>i. word_of_nat (of_be (take 4 (drop (4 * i) ?b)))) [0 ..< length v]"
    by (simp add: upt_conv_Cons map_Suc_upt [symmetric] comp_def del: upt_Suc)
  then show ?case using Cons by (simp add: of_be_def del: upt_Suc)
qed simp

lemma length_words: "length (concat (map (\<lambda>w. rev (le32 w)) v)) = 4 * length v"
  by (induction v) simp_all

lemma plainCrypto_ok: "crypto_ok plainCrypto"
proof -
  have "crStr32 plainCrypto (crA32 plainCrypto b) = b" if "length b mod 4 = 0" for b
  proof -
    from that obtain n where n: "length b = 4 * n" by fastforce
    then have "(length b + 3) div 4 = n" by simp
    then have "crStr32 plainCrypto (crA32 plainCrypto b) = concat (map (\<lambda>i. rev (le32 (word_of_nat (of_be (take 4 (drop (4 * i) b)))))) [0 ..< n])"
      by (simp add: plainCrypto_def comp_def)
    also have "map (\<lambda>i. rev (le32 (word_of_nat (of_be (take 4 (drop (4 * i) b)))))) [0 ..< n] = map (\<lambda>i. take 4 (drop (4 * i) b)) [0 ..< n]"
      using n by (intro map_cong refl) (simp add: of_be_four)
    finally show ?thesis using words_of_bytes [OF n] by simp
  qed
  moreover have "crA32 plainCrypto (crStr32 plainCrypto v) = v" for v
    using be_words [of v] by (simp add: plainCrypto_def length_words)
  ultimately show ?thesis unfolding crypto_ok_def by (simp add: plainCrypto_def)
qed

section \<open>Parsing what has been written\<close>

lemma pmLoop_end: "pmLoop cr src kNotFound pm = Inr pm"
  by (subst pmLoop.simps) (simp add: getRecord_def)

lemma pmLoop_written:
  assumes "src = pre @ addRecord t v [] @ post" "length src < kNotFound" "length v < 0xffff \<or> post = []"
  shows "pmLoop cr src (length pre) pm =
    (case pmRecord cr src \<lparr>tlvType = t, dataOffset = length pre + 3, dataLen = length v\<rparr> pm of Inl e \<Rightarrow> Inl e
     | Inr pm' \<Rightarrow> if post = [] then Inr pm' else pmLoop cr src (length (pre @ addRecord t v [])) pm')"
proof -
  have "getRecord src (length pre) = Inr (Some \<lparr>tlvType = t, dataOffset = length pre + 3, dataLen = length v\<rparr>,
         if post = [] then kNotFound else length pre + 3 + length v)"
    unfolding assms(1) using assms by (intro getRecord_written) (auto simp: add.assoc)
  then show ?thesis
    by (subst pmLoop.simps) (auto simp: pmLoop_end add.assoc split: sum.split)
qed

lemma record_written:
  assumes "src = pre @ addRecord t v [] @ post"
  shows "tlvBuf src \<lparr>tlvType = t', dataOffset = length pre + 3, dataLen = length v\<rparr> = v" "drop (length pre + 3 + length v) src = post"
  by (simp_all add: assms tlvBuf_def addRecord_def slice_def numeral_3_eq_3)

text \<open>What a message starts with: its version, its type and its signature.\<close>

lemma parse_sealed:
  assumes "mData r = [SVCRYPTO_PROTOCOL_VERSION, t] @ addRecord TLV_TYPE_SIGNATURE sig [] @ tlv" "tlv \<noteq> []" "length sig < 0xffff"
    "length (mData r) < kNotFound"
  shows "parseMessage cr junk r = pmLoop cr (mData r) (length ([SVCRYPTO_PROTOCOL_VERSION, t] @ addRecord TLV_TYPE_SIGNATURE sig []))
    ((newParsed junk r SVCRYPTO_PROTOCOL_VERSION t)\<lparr>pmSignature := sig, pmSigned := tlv\<rparr>)"
proof -
  let ?pre = "[SVCRYPTO_PROTOCOL_VERSION, t]" and ?src = "mData r"
    and ?pm = "(newParsed junk r SVCRYPTO_PROTOCOL_VERSION t)\<lparr>pmSignature := sig, pmSigned := tlv\<rparr>"
  have l: "length ?pre = 2" by simp
  have "parseMessage cr junk r = pmLoop cr ?src (length ?pre) (newParsed junk r SVCRYPTO_PROTOCOL_VERSION t)"
    unfolding l using assms(1) by (simp add: parseMessage_def read8_def readPtr_def slice_def SVCRYPTO_PROTOCOL_VERSION_def)
  also have "\<dots> = pmLoop cr ?src (length (?pre @ addRecord TLV_TYPE_SIGNATURE sig [])) ?pm"
  proof -
    note w = record_written [OF assms(1)]
    have "pmRecord cr ?src \<lparr>tlvType = TLV_TYPE_SIGNATURE, dataOffset = length ?pre + 3, dataLen = length sig\<rparr>
        (newParsed junk r SVCRYPTO_PROTOCOL_VERSION t) = Inr ?pm"
      unfolding pmRecord_def Let_def TlvRecord.simps w by simp
    moreover have "length sig < 0xffff \<or> tlv = []" using assms(3) by simp
    ultimately show ?thesis
      unfolding pmLoop_written [OF assms(1,4) \<open>length sig < 0xffff \<or> tlv = []\<close>] using assms(2) by simp
  qed
  finally show ?thesis .
qed

lemma parse_content:
  assumes "src = pre @ addRecord TLV_TYPE_NONCE nonce [] @ addRecord TLV_TYPE_PAYLOAD ct []" "length src < kNotFound" "length nonce \<le> 32"
  shows "pmLoop cr src (length pre) pm = Inr (pm\<lparr>pmNonce := nonce, pmPayload := ct\<rparr>)"
proof -
  let ?pre = "pre @ addRecord TLV_TYPE_NONCE nonce []"
  have a2: "src = ?pre @ addRecord TLV_TYPE_PAYLOAD ct [] @ []" using assms(1) by simp
  note w1 = record_written [OF assms(1)] and w2 = record_written [OF a2]
  have 1: "pmRecord cr src \<lparr>tlvType = TLV_TYPE_NONCE, dataOffset = length pre + 3, dataLen = length nonce\<rparr> pm = Inr (pm\<lparr>pmNonce := nonce\<rparr>)"
    unfolding pmRecord_def Let_def TlvRecord.simps w1 using assms(3) by (simp add: tlvType_defs)
  have 2: "pmRecord cr src \<lparr>tlvType = TLV_TYPE_PAYLOAD, dataOffset = length ?pre + 3, dataLen = length ct\<rparr> (pm\<lparr>pmNonce := nonce\<rparr>) =
      Inr (pm\<lparr>pmNonce := nonce, pmPayload := ct\<rparr>)"
    unfolding pmRecord_def Let_def TlvRecord.simps w2 by (simp add: tlvType_defs)
  have s: "length nonce < 0xffff \<or> addRecord TLV_TYPE_PAYLOAD ct [] = []" using assms(3) by simp
  show ?thesis
    unfolding pmLoop_written [OF assms(1,2) s] 1
    using pmLoop_written [OF a2 assms(2), of cr "pm\<lparr>pmNonce := nonce\<rparr>"] 2 by (simp add: addRecord_def)
qed

section \<open>Payloads\<close>

lemma readIds_middle:
  "readIds (pre @ concat (map le64 ids) @ post) (length pre) (length ids) = Inr ids"
proof (induction ids arbitrary: pre)
  case (Cons i ids)
  have "readIds ((pre @ le64 i) @ concat (map le64 ids) @ post) (length pre + 8) (length ids) = Inr ids"
    using Cons.IH [of "pre @ le64 i"] by simp
  then show ?case by (simp add: slice_def)
qed simp

definition decrypted :: "Message \<Rightarrow> Message \<Rightarrow> Message" where
  "decrypted m r = r\<lparr>backRefId := backRefId m, backRefs := backRefs m, mData := mData m, mIsEncrypted := kNotEncrypted\<rparr>"

lemma payload_read:
  assumes "pmVersion pm = SVCRYPTO_PROTOCOL_VERSION" "backRefs r = []" "8 * length (backRefs m) < 65536"
  shows "parsePayload pm (plainPayload m) r = (r\<lparr>backRefId := backRefId m, backRefs := backRefs m, mData := mData m\<rparr>, None)"
proof -
  let ?n = "8 * length (backRefs m)" and ?h = "le64 (backRefId m) @ le16 (word_of_nat (8 * length (backRefs m)))"
  have p: "plainPayload m = ?h @ concat (map le64 (backRefs m)) @ mData m" by (simp add: plainPayload_def)
  have w: "unat (word_of_nat x :: u16) = x" if "x < 65536" for x using that by (simp add: unat_of_nat take_bit_nat_eq_self)
  have n: "of_le (slice (plainPayload m) 8 2) = ?n"
    unfolding p by (simp add: slice_def w [OF assms(3)] del: of_nat_mult Word.of_nat_unat)
  have ids: "readIds (plainPayload m) 10 ((?n + 7) div 8) = Inr (backRefs m)"
    using readIds_middle [of ?h "backRefs m" "mData m"] by (simp add: p)
  have d: "drop (10 + ?n) (plainPayload m) = mData m" by (simp add: p length_concat_le64)
  show ?thesis
    using assms(1,2) n ids d by (simp add: parsePayload_def SVCRYPTO_PROTOCOL_VERSION_def Let_def p length_concat_le64)
qed

lemma length_iv: "crypto_ok cr \<Longrightarrow> length (payloadIv cr nonce) = 16"
  by (simp add: payloadIv_def deriveNonceSecret_def crypto_ok_def)

lemma ctr_back: "crypto_ok cr \<Longrightarrow> length k = 16 \<Longrightarrow> crCtrDec cr (crCtrEnc cr t k (payloadIv cr n)) k (payloadIv cr n) = t \<and>
    length (crCtrEnc cr t k (payloadIv cr n)) = length t"
  by (simp add: crypto_okD length_iv)

lemma payload_decrypted:
  assumes "crypto_ok cr" "length key = 16" "pmVersion pm = SVCRYPTO_PROTOCOL_VERSION" "backRefs r = []" "8 * length (backRefs m) < 65536"
    "pmPayload pm = encryptedMessage cr (pmNonce pm) m key"
  shows "symmetricDecrypt cr pm key r = (decrypted m r, None)"
proof -
  have "length (pmPayload pm) = length (plainPayload m)" using ctr_back [OF assms(1,2)] assms(6) by (simp add: encryptedMessage_def)
  then have "pmPayload pm \<noteq> []" by (auto simp: plainPayload_def)
  then show ?thesis
    using payload_read [OF assms(3-5)] ctr_back [OF assms(1,2)] assms(6)
    by (simp add: symmetricDecrypt_def encryptedMessage_def decrypted_def notEncrypted_def)
qed

section \<open>Messages\<close>

lemma mcMsg_appended:
  assumes "length dest = 39" "length d < 2 ^ 32"
  shows "mcMsg (mcUpdateMsgSize (dest @ d)) = Inr d"
proof -
  let ?c = "take 35 dest @ le32 (word_of_nat (length d)) @ d"
  have "mcUpdateMsgSize (dest @ d) = ?c" using assms by (simp add: mcUpdateMsgSize_def bwrite_def)
  moreover have "mcMsglen ?c = Inr (word_of_nat (length d))"
    using assms by (simp add: mcMsglen_def reads_ok slice_def)
  moreover have "unat (word_of_nat (length d) :: u32) = length d" using assms(2) by (simp add: unat_of_nat take_bit_nat_eq_self)
  moreover have "readPtr ?c 39 (length d) = Inr d" using assms by (simp add: readPtr_def slice_def)
  ultimately show ?thesis by (simp add: mcMsg_def)
qed

text \<open>Every sealed message has a signature that verifies.\<close>

lemma sealed_verifies:
  assumes "crypto_ok cr" "length privEd = 32" "length key = 16" "pmVersion pm = SVCRYPTO_PROTOCOL_VERSION" "pmType pm = t" "pmSigned pm = tlv"
    "pmSignature pm = signMessage cr privEd (crPub cr privEd) tlv SVCRYPTO_PROTOCOL_VERSION t key"
  shows "verifySignature cr pm (crPub cr privEd) key = Inr True"
proof -
  have "length (crPub cr privEd) = 32" "length (pmSignature pm) = 64"
    "crVerify cr (pmSignature pm) (toSign SVCRYPTO_PROTOCOL_VERSION t key tlv) (crPub cr privEd)"
    using assms(1,2,7) by (simp_all add: crypto_okD signMessage_def)
  then show ?thesis using assms(3-6) by (simp add: verifySignature_def)
qed

lemma length_signMessage: "crypto_ok cr \<Longrightarrow> length privEd = 32 \<Longrightarrow> length (signMessage cr privEd (crPub cr privEd) sdata v t key) = 64"
  by (simp add: crypto_okD signMessage_def)

lemma sealed_command:
  assumes "crypto_ok cr" "length privEd = 32" "length key = 16" "length nonce = 12" "8 * length (backRefs m) < 65536"
    "length (mData m) < 2 ^ 31" "length dest = 39"
  shows "length (sealMessage cr privEd (crPub cr privEd) t key (contentTlv cr nonce m key)) = 97 + 8 * length (backRefs m) + length (mData m)"
    "mcMsg (msgEncryptWithKey cr privEd (crPub cr privEd) nonce m dest key) =
      Inr (sealMessage cr privEd (crPub cr privEd) SVCRYPTO_MSGTYPE_FOLLOWUP key (contentTlv cr nonce m key))"
proof -
  have ct: "length (encryptedMessage cr nonce m key) = 10 + 8 * length (backRefs m) + length (mData m)"
    using ctr_back [OF assms(1,3)] by (simp add: encryptedMessage_def plainPayload_def length_concat_le64)
  show len: "length (sealMessage cr privEd (crPub cr privEd) t key (contentTlv cr nonce m key)) = 97 + 8 * length (backRefs m) + length (mData m)" for t
    unfolding contentTlv_def using ct assms(4) length_signMessage [OF assms(1,2)]
    by (subst addRecord_buf) (simp add: sealMessage_def sigTlv_def)
  show "mcMsg (msgEncryptWithKey cr privEd (crPub cr privEd) nonce m dest key) =
      Inr (sealMessage cr privEd (crPub cr privEd) SVCRYPTO_MSGTYPE_FOLLOWUP key (contentTlv cr nonce m key))"
    unfolding msgEncryptWithKey_def by (rule mcMsg_appended) (use assms(5-7) len in auto)
qed

text \<open>
  C4: A message that has been encrypted is read back: the message command holds a text that the receiver parses, whose
  signature verifies with the public key of the sender, and which the key decrypts to the same content and back
  references.
\<close>

theorem message_roundtrip:
  assumes "crypto_ok cr" "length privEd = 32" "length key = 16" "length nonce = 12" "8 * length (backRefs m) < 65536"
    "length (mData m) < 2 ^ 31" "length dest = 39" "backRefs r = []"
    "mcMsg (msgEncryptWithKey cr privEd (crPub cr privEd) nonce m dest key) = Inr (mData r)"
  shows "\<exists>pm. parseMessage cr junk r = Inr pm \<and> pmSender pm = userid r \<and> pmType pm = SVCRYPTO_MSGTYPE_FOLLOWUP \<and>
    verifySignature cr pm (crPub cr privEd) key = Inr True \<and> symmetricDecrypt cr pm key r = (decrypted m r, None)"
proof -
  let ?tlv = "contentTlv cr nonce m key" and ?t = SVCRYPTO_MSGTYPE_FOLLOWUP
  let ?sig = "signMessage cr privEd (crPub cr privEd) ?tlv SVCRYPTO_PROTOCOL_VERSION ?t key"
  let ?ct = "encryptedMessage cr nonce m key"
  have tlv: "?tlv = addRecord TLV_TYPE_NONCE nonce [] @ addRecord TLV_TYPE_PAYLOAD ?ct []"
    unfolding contentTlv_def by (subst addRecord_buf) simp
  note sig = length_signMessage [OF assms(1,2), of ?tlv SVCRYPTO_PROTOCOL_VERSION ?t key]
  let ?seal = "sealMessage cr privEd (crPub cr privEd) ?t key ?tlv"
  have seal: "?seal = [SVCRYPTO_PROTOCOL_VERSION, ?t] @ addRecord TLV_TYPE_SIGNATURE ?sig [] @ ?tlv"
    by (simp add: sealMessage_def sigTlv_def)
  note len = sealed_command(1) [OF assms(1-7), of ?t]
  have r: "mData r = ?seal" using sealed_command(2) [OF assms(1-7)] assms(9) by simp
  let ?pm = "(newParsed junk r SVCRYPTO_PROTOCOL_VERSION ?t)\<lparr>pmSignature := ?sig, pmSigned := ?tlv\<rparr>\<lparr>pmNonce := nonce, pmPayload := ?ct\<rparr>"
  have small: "length (mData r) < kNotFound" using len assms(5,6) by (simp add: r kNotFound_def)
  have "parseMessage cr junk r = Inr ?pm"
  proof -
    have r': "mData r = [SVCRYPTO_PROTOCOL_VERSION, ?t] @ addRecord TLV_TYPE_SIGNATURE ?sig [] @ ?tlv" using r seal by simp
    have "?tlv \<noteq> []" "length ?sig < 0xffff" using sig by (simp_all add: tlv addRecord_def)
    then have "parseMessage cr junk r = pmLoop cr (mData r) (length ([SVCRYPTO_PROTOCOL_VERSION, ?t] @ addRecord TLV_TYPE_SIGNATURE ?sig []))
        ((newParsed junk r SVCRYPTO_PROTOCOL_VERSION ?t)\<lparr>pmSignature := ?sig, pmSigned := ?tlv\<rparr>)"
      by (rule parse_sealed [OF r' _ _ small])
    also have "\<dots> = Inr ?pm"
      by (rule parse_content) (use r' tlv small assms(4) in simp_all)
    finally show ?thesis .
  qed
  moreover have "verifySignature cr ?pm (crPub cr privEd) key = Inr True"
    by (rule sealed_verifies [OF assms(1-3)]) (simp_all add: newParsed_def)
  moreover have "symmetricDecrypt cr ?pm key r = (decrypted m r, None)"
    by (rule payload_decrypted [OF assms(1,3) _ assms(8,5)]) (simp_all add: newParsed_def)
  ultimately show ?thesis by (intro exI [of _ ?pm]) (simp add: newParsed_def)
qed

definition sampleText :: Message where
  "sampleText = (newMessage 5 9 100 0 [72, 105] False 7 kMsgNormal 0 [])\<lparr>backRefId := 77, backRefs := [3, 4]\<rparr>"

definition sampleSealed :: bytes where
  "sampleSealed = msgEncryptWithKey plainCrypto (replicate 32 5) (replicate 32 5) (replicate 12 1) sampleText (replicate 39 0) (replicate 16 8)"

theorem message_roundtrip_witness:
  "\<exists>pm r. parseMessage plainCrypto (replicate 32 0) r = Inr pm \<and> mcMsg sampleSealed = Inr (mData r) \<and>
    (\<exists>r'. symmetricDecrypt plainCrypto pm (replicate 16 8) r = (r', None) \<and> mData r' = [72, 105] \<and> backRefs r' = [3, 4])"
proof -
  have l: "length (sealMessage plainCrypto (replicate 32 5) (replicate 32 5) SVCRYPTO_MSGTYPE_FOLLOWUP (replicate 16 8)
      (contentTlv plainCrypto (replicate 12 1) sampleText (replicate 16 8))) < 2 ^ 32" (is "length ?d < _")
    by (simp add: sealMessage_def sigTlv_def contentTlv_def encryptedMessage_def plainCrypto_def signMessage_def plainPayload_def
        sampleText_def newMessage_def addRecord_def)
  have m: "mcMsg sampleSealed = Inr ?d"
    unfolding sampleSealed_def msgEncryptWithKey_def by (rule mcMsg_appended [OF _ l]) simp
  let ?r = "newMessage 5 9 100 0 ?d False 7 kMsgNormal 0 []"
  have pub: "crPub plainCrypto (replicate 32 5) = replicate 32 5" by (simp add: plainCrypto_def)
  have m': "mcMsg (msgEncryptWithKey plainCrypto (replicate 32 5) (crPub plainCrypto (replicate 32 5)) (replicate 12 1) sampleText
      (replicate 39 0) (replicate 16 8)) = Inr (mData ?r)"
    using m unfolding pub by (simp add: sampleSealed_def newMessage_def)
  from message_roundtrip [OF plainCrypto_ok _ _ _ _ _ _ _ m', of "replicate 32 0"]
  obtain pm where "parseMessage plainCrypto (replicate 32 0) ?r = Inr pm" "symmetricDecrypt plainCrypto pm (replicate 16 8) ?r = (decrypted sampleText ?r, None)"
    by (auto simp: sampleText_def newMessage_def)
  then show ?thesis using m by (intro exI [of _ pm] exI [of _ ?r]) (simp add: decrypted_def sampleText_def newMessage_def)
qed

section \<open>Messages made to crash the reader\<close>

text \<open>
  C40: Any participant can make the others follow a null pointer: a message whose type is changed by a record to one that
  needs additional information, followed by a participant record.  The information is only created for the type in the
  header.
\<close>

theorem changed_type_crashes:
  assumes "mData m = [SVCRYPTO_PROTOCOL_VERSION, t0] @ addRecord TLV_TYPE_MESSAGE_TYPE [t] [] @ addRecord TLV_TYPE_INC_PARTICIPANT v [] @ rest"
    "isMgmtType t \<and> \<not> isMgmtType t0 \<or> t = kMsgCallEnd \<and> t0 \<noteq> kMsgCallEnd" "length v < 0xffff" "length (mData m) < kNotFound"
  shows "parseMessage cr junk m = Inl OutOfBounds"
proof -
  let ?pre = "[SVCRYPTO_PROTOCOL_VERSION, t0]" and ?post = "addRecord TLV_TYPE_INC_PARTICIPANT v [] @ rest" and ?src = "mData m"
  let ?pm = "newParsed junk m SVCRYPTO_PROTOCOL_VERSION t0" and ?pre2 = "[SVCRYPTO_PROTOCOL_VERSION, t0] @ addRecord TLV_TYPE_MESSAGE_TYPE [t] []"
  have l: "length ?pre = 2" by simp
  have a2: "?src = ?pre2 @ addRecord TLV_TYPE_INC_PARTICIPANT v [] @ rest" using assms(1) by simp
  have start: "parseMessage cr junk m = pmLoop cr ?src (length ?pre) ?pm"
    unfolding l using assms(1) by (simp add: parseMessage_def read8_def readPtr_def slice_def SVCRYPTO_PROTOCOL_VERSION_def)
  have rd: "read8 ?src (length ?pre + 3) = Inr t"
    using assms(1) by (simp add: read8_def readPtr_def slice_def addRecord_def be16_def to_le_numeral)
  have 1: "pmRecord cr ?src \<lparr>tlvType = TLV_TYPE_MESSAGE_TYPE, dataOffset = length ?pre + 3, dataLen = length [t]\<rparr> ?pm = Inr (?pm\<lparr>pmType := t\<rparr>)"
    unfolding pmRecord_def Let_def TlvRecord.simps tlvRead8_def rd by (simp add: tlvType_defs validateDataLen_def)
  have 2: "pmRecord cr ?src \<lparr>tlvType = TLV_TYPE_INC_PARTICIPANT, dataOffset = length ?pre2 + 3, dataLen = length v\<rparr> (?pm\<lparr>pmType := t\<rparr>) = Inl OutOfBounds"
    using assms(2) unfolding pmRecord_def Let_def TlvRecord.simps
    by (auto simp: tlvType_defs newParsed_def pmParticipant_def isMgmtType_def msgType_defs kMsgPrivChange_def)
  have s1: "length [t] < 0xffff \<or> ?post = []" and s2: "length v < 0xffff \<or> rest = []" using assms(3) by simp_all
  show ?thesis
    unfolding start pmLoop_written [OF assms(1,4) s1] 1 using pmLoop_written [OF a2 assms(4) s2] 2 by (simp add: addRecord_def)
qed

theorem changed_type_crashes_witness:
  "parseMessage plainCrypto [] (newMessage 5 9 100 0 [3, 1, 2, 0, 1, 2, 8, 0, 0] False 7 kMsgNormal 0 []) = Inl OutOfBounds"
proof (rule changed_type_crashes)
  show "mData (newMessage 5 9 100 0 [3, 1, 2, 0, 1, 2, 8, 0, 0] False 7 kMsgNormal 0 []) =
      [SVCRYPTO_PROTOCOL_VERSION, 1] @ addRecord TLV_TYPE_MESSAGE_TYPE [2] [] @ addRecord TLV_TYPE_INC_PARTICIPANT [] [] @ []"
    by (simp add: newMessage_def addRecord_def tlvType_defs SVCRYPTO_PROTOCOL_VERSION_def be16_def to_le_numeral)
qed (simp_all add: isMgmtType_def msgType_defs kNotFound_def newMessage_def)

text \<open>
  In a private chat a message without a signature makes the verification read a signature that is not there.
\<close>

theorem unsigned_message_crashes:
  assumes "mData m = [SVCRYPTO_PROTOCOL_VERSION, t] @ addRecord TLV_TYPE_NONCE nonce [] @ addRecord TLV_TYPE_PAYLOAD ct []"
    "length nonce \<le> 32" "length (mData m) < kNotFound" "length edKey = 32" "length key = 16"
  shows "\<exists>pm. parseMessage cr junk m = Inr pm \<and> finishDecrypt cr True edKey key pm m = (m, OCrash OutOfBounds)"
proof -
  let ?pre = "[SVCRYPTO_PROTOCOL_VERSION, t]"
  have l: "length ?pre = 2" by simp
  have "parseMessage cr junk m = pmLoop cr (mData m) (length ?pre) (newParsed junk m SVCRYPTO_PROTOCOL_VERSION t)"
    unfolding l using assms(1) by (simp add: parseMessage_def read8_def readPtr_def slice_def SVCRYPTO_PROTOCOL_VERSION_def)
  also have "\<dots> = Inr ((newParsed junk m SVCRYPTO_PROTOCOL_VERSION t)\<lparr>pmNonce := nonce, pmPayload := ct\<rparr>)"
    by (rule parse_content [OF assms(1,3,2)])
  finally show ?thesis using assms(4,5) by (simp add: finishDecrypt_def verifySignature_def newParsed_def)
qed

theorem unsigned_message_crashes_witness:
  "\<exists>pm. parseMessage plainCrypto [] (newMessage 5 9 100 0 [3, 1, 3, 0, 0, 7, 0, 1, 65] False 7 kMsgNormal 0 []) = Inr pm \<and>
    snd (finishDecrypt plainCrypto True (replicate 32 1) (replicate 16 2) pm (newMessage 5 9 100 0 [3, 1, 3, 0, 0, 7, 0, 1, 65] False 7 kMsgNormal 0 [])) =
      OCrash OutOfBounds"
proof -
  let ?m = "newMessage 5 9 100 0 [3, 1, 3, 0, 0, 7, 0, 1, 65] False 7 kMsgNormal 0 []"
  have "mData ?m = [SVCRYPTO_PROTOCOL_VERSION, 1] @ addRecord TLV_TYPE_NONCE [] [] @ addRecord TLV_TYPE_PAYLOAD [65] []"
    by (simp add: newMessage_def addRecord_def tlvType_defs SVCRYPTO_PROTOCOL_VERSION_def be16_def to_le_numeral)
  from unsigned_message_crashes [OF this, of "replicate 32 1" "replicate 16 2" plainCrypto "[]"] show ?thesis
    by (auto simp: newMessage_def kNotFound_def)
qed

section \<open>Reactions\<close>

lemma dropWhile_zeros: "dropWhile (\<lambda>b. b = 0) (replicate n 0 @ xs) = dropWhile (\<lambda>b. b = (0 :: byte)) xs"
  by (induction n) simp_all

lemma length_idText: "length (strBytes (Id_toString i 8)) \<ge> 4"
  by (simp add: strBytes_def Id_toString_def length_base64urlencode)



section \<open>What does not crash\<close>

text \<open>The types of the records a reader sees.\<close>

function recordTypes :: "bytes \<Rightarrow> nat \<Rightarrow> byte list" where
  "recordTypes src off =
    (case getRecord src off of Inr (Some r, off') \<Rightarrow> tlvType r # recordTypes src off' | _ \<Rightarrow> [])"
  by pat_completeness auto
termination
proof (relation "measure (\<lambda>(src, off). if off = kNotFound then 0 else Suc (length src - off))")
  fix src off b and r :: "TlvRecord option" and off' r'
  assume g: "getRecord src off = Inr b" and p: "(r, off') = b" and s: "r = Some r'"
  then have "getRecord src off = Inr (Some r', off')" by simp
  from getRecord_progress(3-5) [OF this]
  show "((src, off'), src, off) \<in> measure (\<lambda>(src, off). if off = kNotFound then 0 else Suc (length src - off))"
    by auto
qed simp

declare recordTypes.simps [simp del]

text \<open>The additional information is there when the type needs it.\<close>

definition typeInfo :: "Parsed \<Rightarrow> bool" where
  "typeInfo pm \<longleftrightarrow> (isMgmtType (pmType pm) \<longrightarrow> pmMgmt pm \<noteq> None) \<and> (pmType pm = kMsgCallEnd \<longrightarrow> pmCall pm \<noteq> None)"

lemma read_safe: "off + n < size_max \<Longrightarrow> length b < size_max \<Longrightarrow> readPtr b off n \<noteq> Inl OutOfBounds"
  by (simp add: readPtr_def)

lemma tlvReads_safe:
  assumes "dataOffset r + dataLen r \<le> length src" "length src < size_max"
  shows "tlvRead8 src r \<noteq> Inl OutOfBounds" "tlvRead64 src r \<noteq> Inl OutOfBounds"
  using assms by (auto simp: tlvRead8_def tlvRead64_def validateDataLen_def read8_def read64_def readPtr_def bindR_def)

definition safeR :: "Parsed res \<Rightarrow> bool" where
  "safeR x = (case x of Inl e \<Rightarrow> e \<noteq> OutOfBounds | Inr pm \<Rightarrow> typeInfo pm)"

lemma safe_bind: "x \<noteq> Inl OutOfBounds \<Longrightarrow> (\<And>y. safeR (f y)) \<Longrightarrow> safeR (bindR x f)"
  by (cases x) (simp_all add: safeR_def)

lemma safe_cases:
  "typeInfo pm \<Longrightarrow> safeR (Inr pm)" "safeR (Inl (RuntimeError e))" "safeR (Inl RangeError)"
  "(P \<Longrightarrow> safeR a) \<Longrightarrow> (\<not> P \<Longrightarrow> safeR b) \<Longrightarrow> safeR (if P then a else b)"
  "(z = None \<Longrightarrow> safeR a) \<Longrightarrow> (\<And>y. z = Some y \<Longrightarrow> safeR (g y)) \<Longrightarrow> safeR (case z of None \<Rightarrow> a | Some y \<Rightarrow> g y)"
  by (simp_all add: safeR_def split: option.split)

lemmas safe_intros = safe_bind safe_cases

lemma pmRecord_safe:
  assumes "typeInfo pm" "tlvType r \<noteq> TLV_TYPE_MESSAGE_TYPE" "dataOffset r + dataLen r \<le> length src" "length src < size_max"
  shows "safeR (pmRecord cr src r pm)"
proof -
  note t = tlvReads_safe [OF assms(3,4)]
  have k: "readPtr src (dataOffset r) 4 \<noteq> Inl OutOfBounds" if "\<not> dataLen r \<noteq> 4" using that assms(3,4) by (intro read_safe) auto
  show ?thesis
    unfolding pmRecord_def Let_def pmParticipant_def
    by (intro safe_intros t k; (use assms(1,2) in \<open>simp add: typeInfo_def\<close>)?)
qed

lemma pmLoop_safe:
  "typeInfo pm \<Longrightarrow> length src + 3 < size_max \<Longrightarrow> TLV_TYPE_MESSAGE_TYPE \<notin> set (recordTypes src off) \<Longrightarrow>
    off = kNotFound \<or> off \<le> length src \<Longrightarrow> safeR (pmLoop cr src off pm)"
proof (induction cr src off pm rule: pmLoop.induct)
  case (1 cr src off pm)
  show ?case
  proof (cases "getRecord src off")
    case (Inl e)
    then have "e \<noteq> OutOfBounds"
      using 1(3,5) by (auto simp: getRecord_def bindR_def read8_def readPtr_def Let_def split: if_splits sum.splits)
    then show ?thesis using Inl by (subst pmLoop.simps) (simp add: safeR_def)
  next
    case (Inr p)
    obtain r off' where p: "p = (r, off')" by (cases p)
    show ?thesis
    proof (cases r)
      case None
      then show ?thesis using Inr p 1(2) by (subst pmLoop.simps) (simp add: safeR_def)
    next
      case (Some x)
      have g: "getRecord src off = Inr (Some x, off')" using Inr p Some by simp
      have types: "recordTypes src off = tlvType x # recordTypes src off'" by (subst recordTypes.simps) (simp add: g)
      have safe: "safeR (pmRecord cr src x pm)"
        by (rule pmRecord_safe [OF 1(2) _ getRecord_inside [OF g] _]) (use 1(3,4) types in auto)
      show ?thesis
      proof (cases "pmRecord cr src x pm")
        case (Inl e)
        then show ?thesis using safe g by (subst pmLoop.simps) (simp add: safeR_def)
      next
        case (Inr pm')
        have "safeR (pmLoop cr src off' pm')"
          by (rule 1(1) [OF \<open>getRecord src off = Inr p\<close> p [symmetric] Some Inr]) (use safe Inr 1(3,4) types getRecord_progress(3) [OF g] in \<open>auto simp: safeR_def\<close>)
        then show ?thesis using g Inr by (subst pmLoop.simps) simp
      qed
    qed
  qed
qed

text \<open>
  C37: Whatever the bytes of a message, reading it stays inside its buffer and follows no null pointer as long as it has
  no record that changes its type: it is parsed or refused.
\<close>

theorem parse_safe:
  assumes "length (mData m) + 3 < size_max" "TLV_TYPE_MESSAGE_TYPE \<notin> set (recordTypes (mData m) 2)"
  shows "parseMessage cr junk m \<noteq> Inl OutOfBounds \<and> (\<forall>pm. parseMessage cr junk m = Inr pm \<longrightarrow> typeInfo pm)"
proof -
  have "typeInfo (newParsed junk m v t)" for v t by (simp add: typeInfo_def newParsed_def)
  from pmLoop_safe [OF this assms] have s: "safeR (pmLoop cr (mData m) 2 (newParsed junk m v t))" if "length (mData m) \<ge> 2" for v t
    using that by blast
  have "read8 (mData m) i \<noteq> Inl OutOfBounds" if "i < 2" for i
    using that assms(1) by (simp add: read8_def readPtr_def bindR_def)
  then have r: "read8 (mData m) 0 \<noteq> Inl OutOfBounds" "read8 (mData m) 1 \<noteq> Inl OutOfBounds" by simp_all
  have "safeR (parseMessage cr junk m)"
  proof (cases "length (mData m) \<ge> 2")
    case True
    show ?thesis unfolding parseMessage_def by (intro safe_intros r s True)
  next
    case False
    then have e: "read8 (mData m) 1 = Inl RangeError" by (simp add: read8_def readPtr_def)
    show ?thesis unfolding parseMessage_def e bindR_simps(1) by (intro safe_intros r)
  qed
  then show ?thesis by (auto simp: safeR_def)
qed

theorem parse_safe_witness:
  "parseMessage plainCrypto [] (newMessage 5 9 100 0 [3, 1, 8, 0, 0] False 7 kMsgNormal 0 []) \<noteq> Inl OutOfBounds"
proof -
  let ?m = "newMessage 5 9 100 0 [3, 1, 8, 0, 0] False 7 kMsgNormal 0 []"
  have g: "getRecord [3, 1, 8, 0, 0] 2 = Inr (Some \<lparr>tlvType = 8, dataOffset = 5, dataLen = 0\<rparr>, kNotFound)"
    by (simp add: getRecord_def kNotFound_def reads_ok slice_def Let_def of_be_def)
  have "recordTypes (mData ?m) 2 = [8]"
    by (subst recordTypes.simps, simp add: newMessage_def g, subst recordTypes.simps, simp add: getRecord_def)
  then show ?thesis using parse_safe [of ?m plainCrypto "[]"] by (simp add: newMessage_def tlvType_defs)
qed

end
