(* ===== verification/SvKeys.thy ===== *)
theory SvKeys
  imports Strongvelope ChatProg
begin

text \<open>
  The keys of a chat, class \<open>ProtocolHandler\<close> of \<open>src/strongvelope/strongvelope.cpp\<close>: the current key and those not
  confirmed yet, received keys, encryption and decryption that wait for the public keys of other users.

  What waits for a promise is a job of the state, and the answer of the attribute cache is an event.  Random bytes
  come from the argument \<open>seRand\<close>, which is given how many have been drawn; uninitialised keys and nonces are \<open>seJunk\<close>.
  What is handed back, at once or later, is recorded in order; an assertion that fails is recorded and the code goes
  on.  Null pointers and references that outlive their target are \<open>OutOfBounds\<close>.
\<close>

section \<open>State\<close>

datatype Attr = ED25519_PUBLIC_KEY | CU25519_PUBLIC_KEY

text \<open>A promise of bytes.\<close>

datatype Prom = KWait | KOk bytes | KErr

record KeyEntry =
  keKey :: "bytes option"
  kePms :: "nat option"

record NewKeyEntry =
  neKey :: bytes
  neRecipients :: "Id set"
  neLocalKeyid :: KeyId

text \<open>What waits for the shared key with a user.\<close>

datatype CuTask = CuReceived Id KeyId bytes | CuEncrypt nat Id | CuUnified bytes | CuTitle nat bytes | CuLoad "Id set" KeyId bytes
  | CuDecrypt bytes | CuSend "bytes option"

text \<open>What is encrypted: a message with its command, a title (with a key of its own or not), or the unified key for some users.\<close>

datatype EncKind = EkMsg Message bytes | EkTitle bytes bool | EkUnified "Id set"

record EncJob =
  ejKind :: EncKind
  ejKey :: bytes
  ejKc :: KeyCommand
  ejLeft :: nat
  ejOpen :: bool

datatype KeySrc = KsReady bytes | KsFailed | KsError | KsNull | KsProm nat | KsUnified | KsTitle

datatype JobKind = JMsg | JTitle | JApiTitle | JReact

record DecJob =
  djKind :: JobKind
  djMsg :: Message
  djParsed :: Parsed
  djKey :: KeySrc
  djEd :: Prom
  djVersion :: nat
  djOpen :: bool

datatype (plugins only: code) SvOut = SvGetAttr Id Attr | SvEncrypted Message bytes "KeyCommand option" | SvNotEncrypted SvError
  | SvDecrypted Message Outcome | SvApiTitle bytes | SvNoApiTitle SvError | SvReaction bytes | SvNoReaction | SvTitle bytes | SvUnifiedKeys KeyCommand
  | SvKey bytes | SvNoKey | SvAssert

record SV =
  svOwn :: Id
  svChat :: Id
  svPrivCu :: bytes
  svPrivEd :: bytes
  svPubEd :: bytes
  svCurKey :: "bytes option"
  svCurKeyId :: KeyId
  svCurParts :: "Id set"
  svNextLocal :: KeyId
  svUnconfirmed :: "NewKeyEntry list"
  svKeys :: "Id \<times> KeyId \<Rightarrow> KeyEntry option"
  svSymm :: "Id \<Rightarrow> bytes option"
  svParticipants :: "Id set"
  svCacheVersion :: nat
  svPublic :: bool
  svUnified :: Prom
  svHasUnified :: bool
  svPh :: Id
  svDbKeys :: "(Id \<times> KeyId \<times> bytes) list"
  svDbUnified :: "(nat \<times> bytes) option"
  svAttrs :: "Id \<Rightarrow> Attr \<Rightarrow> Prom"
  svCuWait :: "(Id \<times> CuTask) list"
  svProms :: "Prom list"
  svEnc :: "EncJob list"
  svEncWait :: "(KeySrc \<times> EncKind) list"
  svDec :: "DecJob list"
  svDrawn :: nat
  svOut :: "SvOut list"

record SvEnv =
  seCr :: Crypto
  seRand :: "nat \<Rightarrow> bytes"
  seJunk :: bytes
  sePad :: bytes
  seRef :: BackRefId

type_synonym sv_step = "SV step"

section \<open>Helpers\<close>

definition outV :: "SvOut \<Rightarrow> sv_step" where
  "outV x = modS (\<lambda>s. s\<lparr>svOut := svOut s @ [x]\<rparr>)"

definition assertV :: "(SV \<Rightarrow> bool) \<Rightarrow> sv_step" where
  "assertV b = whenS (\<lambda>s. \<not> b s) [outV SvAssert]"

definition draw :: "SvEnv \<Rightarrow> nat \<Rightarrow> (bytes \<Rightarrow> sv_step) \<Rightarrow> sv_step" where
  "draw e n k = readS (\<lambda>s. take n (seRand e (svDrawn s))) (\<lambda>b. doS [modS (\<lambda>s. s\<lparr>svDrawn := Suc (svDrawn s)\<rparr>), k b])"

text \<open>A request to the attribute cache that it cannot answer at once.\<close>

definition askAttr :: "Id \<Rightarrow> Attr \<Rightarrow> sv_step" where
  "askAttr u a = outV (SvGetAttr u a)"

definition resetSendKey :: sv_step where
  "resetSendKey = modS (\<lambda>s. s\<lparr>svCurKey := None, svCurKeyId := CHATD_KEYID_INVALID, svCurParts := {}\<rparr>)"

text \<open>The counter of local key ids goes down and starts again; all chats share it.\<close>

definition getNextValidLocalKeyId :: "(KeyId \<Rightarrow> sv_step) \<Rightarrow> sv_step" where
  "getNextValidLocalKeyId k = readS svNextLocal (\<lambda>ret. doS [
     modS (\<lambda>s. s\<lparr>svNextLocal := (if isValidKeyxId (svNextLocal s - 1) then svNextLocal s - 1 else CHATD_KEYID_MAX)\<rparr>),
     k ret])"

section \<open>Shared keys\<close>

text \<open>The library reads 32 bytes of the public key whatever its size.\<close>

definition deriveSymm :: "SvEnv \<Rightarrow> Id \<Rightarrow> bytes \<Rightarrow> (Prom \<Rightarrow> sv_step) \<Rightarrow> sv_step" where
  "deriveSymm e u pubKey k = readS (\<lambda>s. svSymm s u) (\<lambda>c. case c of
     Some sk \<Rightarrow> k (KOk sk)
   | None \<Rightarrow> if pubKey = [] then k KErr
       else if length pubKey < 32 then throwS OutOfBounds
       else readS (\<lambda>s. deriveSharedKey (seCr e) (crDh (seCr e) (svPrivCu s) pubKey) SVCRYPTO_PAIRWISE_KEY) (\<lambda>sk. doS [
         modS (\<lambda>s. s\<lparr>svSymm := (svSymm s)(u := Some sk)\<rparr>), k (KOk sk)]))"

definition computeSymmetricKey :: "SvEnv \<Rightarrow> Id \<Rightarrow> (Prom \<Rightarrow> sv_step) \<Rightarrow> sv_step" where
  "computeSymmetricKey e u k = readS (\<lambda>s. svSymm s u) (\<lambda>c. case c of
     Some sk \<Rightarrow> k (KOk sk)
   | None \<Rightarrow> readS (\<lambda>s. svAttrs s u CU25519_PUBLIC_KEY) (\<lambda>a. case a of KOk pub \<Rightarrow> deriveSymm e u pub k | _ \<Rightarrow> k a))"

text \<open>One block is decrypted into a key of 16 bytes; the library writes as many bytes as it is given.\<close>

definition aesECBDecrypt :: "SvEnv \<Rightarrow> bytes \<Rightarrow> bytes \<Rightarrow> bytes res" where
  "aesECBDecrypt e enc symm = (if enc = [] then Inr (take 16 (seJunk e))
     else if length enc > 16 then Inl OutOfBounds else Inr (crEcbDec (seCr e) enc symm))"

definition otherParty :: "SV \<Rightarrow> Id \<Rightarrow> Id \<Rightarrow> Id" where
  "otherParty s sender receiver = (if sender = svOwn s then receiver else sender)"

section \<open>Known keys\<close>

definition setProm :: "nat \<Rightarrow> Prom \<Rightarrow> sv_step" where
  "setProm i p = modS (\<lambda>s. s\<lparr>svProms := (svProms s)[i := p]\<rparr>)"

definition saveKey :: "Id \<Rightarrow> KeyId \<Rightarrow> bytes \<Rightarrow> SV \<Rightarrow> SV" where
  "saveKey u k key s = (if \<exists>key'. (u, k, key') \<in> set (svDbKeys s) then s else s\<lparr>svDbKeys := svDbKeys s @ [(u, k, key)]\<rparr>)"

definition keyEntryOf :: "Id \<times> KeyId \<Rightarrow> SV \<Rightarrow> KeyEntry" where
  "keyEntryOf ukid s = (case svKeys s ukid of None \<Rightarrow> \<lparr>keKey = None, kePms = None\<rparr> | Some en \<Rightarrow> en)"

definition putKey :: "Id \<times> KeyId \<Rightarrow> KeyEntry \<Rightarrow> SV \<Rightarrow> SV" where
  "putKey ukid en s = s\<lparr>svKeys := (svKeys s)(ukid := Some en)\<rparr>"

definition addDecryptedKey :: "Id \<times> KeyId \<Rightarrow> bytes \<Rightarrow> sv_step" where
  "addDecryptedKey ukid key = doS [
     assertV (\<lambda>_. length key = SVCRYPTO_KEY_SIZE),
     modS (\<lambda>s. putKey ukid (keyEntryOf ukid s) s),
     readS (\<lambda>s. keKey (keyEntryOf ukid s)) (\<lambda>old. case old of
       Some key' \<Rightarrow> if key' \<noteq> key then throwS (RuntimeError ''addDecryptedKey: Key already known but different'') else doS []
     | None \<Rightarrow> modS (\<lambda>s. saveKey (fst ukid) (snd ukid) key (putKey ukid ((keyEntryOf ukid s)\<lparr>keKey := Some key\<rparr>) s))),
     readS (\<lambda>s. keyEntryOf ukid s) (\<lambda>en. case kePms en of None \<Rightarrow> doS []
     | Some i \<Rightarrow> doS [
         setProm i (case keKey en of None \<Rightarrow> KErr | Some k \<Rightarrow> KOk k),
         modS (\<lambda>s. putKey ukid (en\<lparr>kePms := None\<rparr>) s)])]"

text \<open>The key of an entry that could not be decrypted; the entry goes with it.\<close>

definition keyFailed :: "Id \<times> KeyId \<Rightarrow> sv_step" where
  "keyFailed ukid = readS (\<lambda>s. keyEntryOf ukid s) (\<lambda>en. doS [
     (case kePms en of None \<Rightarrow> throwS OutOfBounds | Some i \<Rightarrow> setProm i KErr),
     modS (\<lambda>s. s\<lparr>svKeys := (svKeys s)(ukid := None)\<rparr>)])"

definition getKey :: "SV \<Rightarrow> Id \<times> KeyId \<Rightarrow> KeySrc" where
  "getKey s ukid = (case svKeys s ukid of None \<Rightarrow> KsFailed
     | Some en \<Rightarrow> (case keKey en of Some k \<Rightarrow> KsReady k | None \<Rightarrow> (case kePms en of Some i \<Rightarrow> KsProm i | None \<Rightarrow> KsNull)))"

section \<open>Encryption\<close>

definition encryptMsg :: "SvEnv \<Rightarrow> Message \<Rightarrow> bytes \<Rightarrow> bytes \<Rightarrow> (bytes \<Rightarrow> sv_step) \<Rightarrow> sv_step" where
  "encryptMsg e m cmd key k = draw e SVCRYPTO_NONCE_SIZE (\<lambda>nonce.
     readS (\<lambda>s. msgEncryptWithKey (seCr e) (svPrivEd s) (svPubEd s) nonce m cmd key) k)"

definition setEnc :: "nat \<Rightarrow> (EncJob \<Rightarrow> EncJob) \<Rightarrow> sv_step" where
  "setEnc i f = modS (\<lambda>s. s\<lparr>svEnc := (svEnc s)[i := f (svEnc s ! i)]\<rparr>)"

text \<open>
  The key is encrypted for all: a new message gets the id of its key, its command the id of what is the current key
  at that time.
\<close>

definition encMsgDone :: "SvEnv \<Rightarrow> EncJob \<Rightarrow> Message \<Rightarrow> bytes \<Rightarrow> sv_step" where
  "encMsgDone e j m cmd = readS svCurKeyId (\<lambda>kid. encryptMsg e m (mcSetKeyId cmd kid) (ejKey j) (\<lambda>cmd'.
     outV (SvEncrypted (m\<lparr>keyid := mLocalKeyid (ejKc j)\<rparr>) cmd' (Some (ejKc j)))))"

definition encTitleDone :: "SvEnv \<Rightarrow> EncJob \<Rightarrow> bytes \<Rightarrow> bool \<Rightarrow> sv_step" where
  "encTitleDone e j data own = draw e SVCRYPTO_NONCE_SIZE (\<lambda>nonce. doS [
     assertV (\<lambda>_. length (kcBuf (ejKc j)) \<ge> 17),
     readS (\<lambda>s. titleBlob (seCr e) (svPrivEd s) (svPubEd s) (svOwn s) nonce (ejKey j) (kcBuf (ejKc j)) own data (seRef e)) (\<lambda>b. outV (SvTitle b))])"

definition encUnifiedDone :: "EncJob \<Rightarrow> sv_step" where
  "encUnifiedDone j = doS [assertV (\<lambda>_. length (kcBuf (ejKc j)) \<ge> 17), outV (SvUnifiedKeys (ejKc j))]"

definition encDone :: "SvEnv \<Rightarrow> EncJob \<Rightarrow> sv_step" where
  "encDone e j = (case ejKind j of EkMsg m cmd \<Rightarrow> encMsgDone e j m cmd | EkTitle data own \<Rightarrow> encTitleDone e j data own
     | EkUnified _ \<Rightarrow> encUnifiedDone j)"

definition encFailed :: "EncKind \<Rightarrow> SvError \<Rightarrow> sv_step" where
  "encFailed k err = outV (case k of EkMsg _ _ \<Rightarrow> SvNotEncrypted err | EkTitle _ _ \<Rightarrow> SvNoKey | EkUnified _ \<Rightarrow> SvNoKey)"

text \<open>The key of one user; the job fails with the first key that cannot be had.\<close>

definition encUser :: "SvEnv \<Rightarrow> nat \<Rightarrow> Id \<Rightarrow> Prom \<Rightarrow> sv_step" where
  "encUser e i u r = (case r of
     KOk symm \<Rightarrow> readS (\<lambda>s. svEnc s ! i) (\<lambda>j. getS (\<lambda>_. addKey (ejKc j) u (crEcbEnc (seCr e) (ejKey j) symm)) (\<lambda>kc.
       setEnc i (\<lambda>j. j\<lparr>ejKc := kc, ejLeft := ejLeft j - 1\<rparr>)))
   | _ \<Rightarrow> readS (\<lambda>s. svEnc s ! i) (\<lambda>j. if ejOpen j then doS [setEnc i (\<lambda>j. j\<lparr>ejOpen := False\<rparr>), encFailed (ejKind j) EOTHER] else doS []))"

definition encCheck :: "SvEnv \<Rightarrow> nat \<Rightarrow> sv_step" where
  "encCheck e i = readS (\<lambda>s. svEnc s ! i) (\<lambda>j. if ejOpen j \<and> ejLeft j = 0
     then doS [setEnc i (\<lambda>j. j\<lparr>ejOpen := False\<rparr>), encDone e j] else doS [])"

definition waitCu :: "Id \<Rightarrow> CuTask \<Rightarrow> sv_step" where
  "waitCu u t = doS [modS (\<lambda>s. s\<lparr>svCuWait := svCuWait s @ [(u, t)]\<rparr>), askAttr u CU25519_PUBLIC_KEY]"

definition encryptKeyToAllParticipants :: "SvEnv \<Rightarrow> bytes \<Rightarrow> Id set \<Rightarrow> KeyId \<Rightarrow> EncKind \<Rightarrow> sv_step" where
  "encryptKeyToAllParticipants e key parts kid kind =
    getS (\<lambda>s. newKeyCommand (svChat s) kid) (\<lambda>kc. readS (\<lambda>s. length (svEnc s)) (\<lambda>i. let us = sorted_list_of_set parts in doS [
      modS (\<lambda>s. s\<lparr>svEnc := svEnc s @ [\<lparr>ejKind = kind, ejKey = key, ejKc = kc, ejLeft = length us, ejOpen = True\<rparr>]\<rparr>),
      forS us (\<lambda>u. computeSymmetricKey e u (\<lambda>r. if r = KWait then waitCu u (CuEncrypt i u) else encUser e i u r)),
      encCheck e i]))"

definition createNewKey :: "SvEnv \<Rightarrow> Id set \<Rightarrow> EncKind \<Rightarrow> sv_step" where
  "createNewKey e recipients kind = doS [
     assertV (\<lambda>s. \<not> svPublic s),
     draw e 16 (\<lambda>key. getNextValidLocalKeyId (\<lambda>kid. doS [
       modS (\<lambda>s. s\<lparr>svCurKey := Some key, svCurKeyId := kid, svCurParts := recipients,
         svUnconfirmed := svUnconfirmed s @ [\<lparr>neKey = key, neRecipients = recipients, neLocalKeyid = kid\<rparr>]\<rparr>),
       encryptKeyToAllParticipants e key recipients kid kind]))]"

definition srcNow :: "SV \<Rightarrow> KeySrc \<Rightarrow> Prom" where
  "srcNow s src = (case src of KsReady k \<Rightarrow> KOk k | KsProm i \<Rightarrow> svProms s ! i | KsUnified \<Rightarrow> svUnified s
     | KsTitle \<Rightarrow> KWait | KsNull \<Rightarrow> KWait | KsFailed \<Rightarrow> KErr | KsError \<Rightarrow> KErr)"

definition srcError :: "KeySrc \<Rightarrow> SvError" where
  "srcError src = (if src = KsFailed then ENOKEY else EOTHER)"

text \<open>What waits for one key: the title of a public chat comes with no keys.\<close>

definition encWithKey :: "SvEnv \<Rightarrow> KeySrc \<Rightarrow> bytes \<Rightarrow> EncKind \<Rightarrow> sv_step" where
  "encWithKey e src key kind = (case kind of
     EkMsg m cmd \<Rightarrow> encryptMsg e m (if src = KsUnified then cmd else mcSetKeyId cmd (keyid m)) key (\<lambda>cmd'. outV (SvEncrypted m cmd' None))
   | EkTitle _ _ \<Rightarrow> encryptKeyToAllParticipants e key {} CHATD_KEYID_INVALID kind
   | EkUnified ps \<Rightarrow> encryptKeyToAllParticipants e key ps CHATD_KEYID_INVALID kind)"

definition encWhenKey :: "SvEnv \<Rightarrow> KeySrc \<Rightarrow> EncKind \<Rightarrow> sv_step" where
  "encWhenKey e src kind = (if src = KsNull then throwS OutOfBounds else readS (\<lambda>s. srcNow s src) (\<lambda>r. case r of
     KOk key \<Rightarrow> encWithKey e src key kind
   | KErr \<Rightarrow> encFailed kind (srcError src)
   | KWait \<Rightarrow> modS (\<lambda>s. s\<lparr>svEncWait := svEncWait s @ [(src, kind)]\<rparr>)))"

definition isNewMsgCmd :: "bytes \<Rightarrow> bool" where
  "isNewMsgCmd cmd \<longleftrightarrow> cmdOpcode cmd = Inr (opcodeVal OP_NEWMSG) \<or> cmdOpcode cmd = Inr (opcodeVal OP_NEWNODEMSG)"

definition msgEncrypt :: "SvEnv \<Rightarrow> Message \<Rightarrow> Id set \<Rightarrow> bytes \<Rightarrow> sv_step" where
  "msgEncrypt e m recipients cmd =
    (if keyid m = CHATD_KEYID_INVALID then
       ifS svPublic [encWhenKey e KsUnified (EkMsg m cmd)]
         [assertV (\<lambda>_. isNewMsgCmd cmd),
          readS svCurKey (\<lambda>cur. readS (\<lambda>s. svCurParts s = recipients) (\<lambda>same. case cur of
            Some key \<Rightarrow> if same then readS svCurKeyId (\<lambda>kid. encryptMsg e m (mcSetKeyId cmd kid) key (\<lambda>cmd'.
                outV (SvEncrypted (m\<lparr>keyid := kid\<rparr>) cmd' None)))
              else createNewKey e recipients (EkMsg m cmd)
          | None \<Rightarrow> createNewKey e recipients (EkMsg m cmd)))]
     else if isLocalKeyid m then
       doS [assertV (\<lambda>_. cmdOpcode cmd = Inr (opcodeVal OP_MSGUPDX)),
         readS (\<lambda>s. find (\<lambda>n. neRecipients n = recipients \<and> neLocalKeyid n = keyid m) (svUnconfirmed s)) (\<lambda>n. case n of
           Some n \<Rightarrow> doS [assertV (\<lambda>_. isValidKeyxId (keyid m)),
             encryptMsg e m (mcSetKeyId cmd (keyid m)) (neKey n) (\<lambda>cmd'. outV (SvEncrypted m cmd' None))]
         | None \<Rightarrow> outV (SvNotEncrypted ENOKEY))]
     else doS [assertV (\<lambda>_. \<not> isNewMsgCmd cmd), readS (\<lambda>s. getKey s (svOwn s, keyid m)) (\<lambda>src. encWhenKey e src (EkMsg m cmd))])"

text \<open>A private chat, or one that is becoming so, gets a key of its own for the title.\<close>

definition encryptChatTitle :: "SvEnv \<Rightarrow> bytes \<Rightarrow> Id \<Rightarrow> bool \<Rightarrow> sv_step" where
  "encryptChatTitle e data extraUser encryptAsPrivate = readS (\<lambda>s. \<not> svPublic s \<or> encryptAsPrivate) (\<lambda>own.
     if own then draw e 16 (\<lambda>key. readS (\<lambda>s. svParticipants s \<union> (if extraUser \<noteq> 0 then {extraUser} else {})) (\<lambda>ps.
       encryptKeyToAllParticipants e key ps CHATD_KEYID_INVALID (EkTitle data True)))
     else encWhenKey e KsUnified (EkTitle data False))"

definition encryptUnifiedKeyForAllParticipants :: "SvEnv \<Rightarrow> Id \<Rightarrow> sv_step" where
  "encryptUnifiedKeyForAllParticipants e extraUser =
    readS (\<lambda>s. svParticipants s \<union> (if extraUser \<noteq> 0 then {extraUser} else {})) (\<lambda>ps. encWhenKey e KsUnified (EkUnified ps))"

section \<open>Decryption\<close>

definition setDec :: "nat \<Rightarrow> (DecJob \<Rightarrow> DecJob) \<Rightarrow> sv_step" where
  "setDec i f = modS (\<lambda>s. s\<lparr>svDec := (svDec s)[i := f (svDec s ! i)]\<rparr>)"

definition outDec :: "JobKind \<Rightarrow> Message \<Rightarrow> Outcome \<Rightarrow> sv_step" where
  "outDec k m oc = (case oc of
     OCrash x \<Rightarrow> throwS x
   | OFail err \<Rightarrow> outV (case k of JMsg \<Rightarrow> SvDecrypted m oc | JTitle \<Rightarrow> SvDecrypted m oc | JApiTitle \<Rightarrow> SvNoApiTitle err | JReact \<Rightarrow> SvNoReaction)
   | _ \<Rightarrow> outV (case k of JApiTitle \<Rightarrow> SvApiTitle (mData m) | _ \<Rightarrow> SvDecrypted m oc))"

definition msgDecDone :: "SvEnv \<Rightarrow> DecJob \<Rightarrow> bytes \<Rightarrow> bytes \<Rightarrow> sv_step" where
  "msgDecDone e j key ed = readS (\<lambda>s. djVersion j \<noteq> svCacheVersion s) (\<lambda>reloaded. readS (\<lambda>s. \<not> svPublic s) (\<lambda>checked.
     if reloaded then outDec JMsg (djMsg j) (OFail ENOMSG)
     else (case finishDecrypt (seCr e) checked ed key (djParsed j) (djMsg j) of (m, oc) \<Rightarrow> outDec JMsg m oc)))"

text \<open>Only a title in the history can be overtaken by a reload.\<close>

definition titleDecDone :: "SvEnv \<Rightarrow> DecJob \<Rightarrow> bytes \<Rightarrow> bytes \<Rightarrow> sv_step" where
  "titleDecDone e j key ed = readS (\<lambda>s. djKind j = JTitle \<and> djVersion j \<noteq> svCacheVersion s) (\<lambda>reloaded.
     if reloaded then outDec (djKind j) (djMsg j) (OFail ENOMSG)
     else (case finishTitle (seCr e) ed key (djParsed j) (djMsg j) of (m, oc) \<Rightarrow> outDec (djKind j) m oc))"

text \<open>A reaction whose key comes late has lost what it was called with.\<close>

definition decDone :: "SvEnv \<Rightarrow> DecJob \<Rightarrow> bytes \<Rightarrow> bytes \<Rightarrow> sv_step" where
  "decDone e j key ed = (case djKind j of JMsg \<Rightarrow> msgDecDone e j key ed | JReact \<Rightarrow> throwS OutOfBounds | _ \<Rightarrow> titleDecDone e j key ed)"

definition settleJob :: "SvEnv \<Rightarrow> nat \<Rightarrow> sv_step" where
  "settleJob e i = readS (\<lambda>s. svDec s ! i) (\<lambda>j. if \<not> djOpen j then doS []
     else if djKey j = KsNull \<and> djEd j \<noteq> KWait \<and> djEd j \<noteq> KErr then throwS OutOfBounds
     else readS (\<lambda>s. srcNow s (djKey j)) (\<lambda>r. let closed = setDec i (\<lambda>j. j\<lparr>djOpen := False\<rparr>) in case r of
       KErr \<Rightarrow> doS [closed, outDec (djKind j) (djMsg j) (OFail (srcError (djKey j)))]
     | KWait \<Rightarrow> if djEd j = KErr then doS [closed, outDec (djKind j) (djMsg j) (OFail EOTHER)] else doS []
     | KOk key \<Rightarrow> (case djEd j of
         KErr \<Rightarrow> doS [closed, outDec (djKind j) (djMsg j) (OFail EOTHER)]
       | KWait \<Rightarrow> doS []
       | KOk ed \<Rightarrow> doS [closed, decDone e j key ed])))"

text \<open>The public key has room for 32 bytes.\<close>

definition edProm :: "Prom \<Rightarrow> Prom" where
  "edProm r = (case r of KOk pub \<Rightarrow> if length pub > 32 then KErr else r | _ \<Rightarrow> r)"

definition startJob :: "SvEnv \<Rightarrow> JobKind \<Rightarrow> Message \<Rightarrow> Parsed \<Rightarrow> KeySrc \<Rightarrow> bool \<Rightarrow> sv_step" where
  "startJob e kind m pm src withEd = readS (\<lambda>s. length (svDec s)) (\<lambda>i.
     readS (\<lambda>s. if withEd then svAttrs s (pmSender pm) ED25519_PUBLIC_KEY else KOk (seJunk e)) (\<lambda>a. doS [
       (if a = KWait then askAttr (pmSender pm) ED25519_PUBLIC_KEY else doS []),
       modS (\<lambda>s. s\<lparr>svDec := svDec s @ [\<lparr>djKind = kind, djMsg = m, djParsed = pm, djKey = src, djEd = edProm a,
         djVersion = svCacheVersion s, djOpen = True\<rparr>]\<rparr>),
       settleJob e i]))"

definition decryptChatTitle :: "SvEnv \<Rightarrow> JobKind \<Rightarrow> Message \<Rightarrow> Parsed \<Rightarrow> sv_step" where
  "decryptChatTitle e kind m pm = (if pmOpenmode pm then startJob e kind m pm KsUnified False
     else readS (\<lambda>s. titleKey (pmEncKey pm) (svOwn s)) (\<lambda>r. case r of
       Inl x \<Rightarrow> outDec kind m (snd (settle EMALFORMED (m, Some x)))
     | Inr enc \<Rightarrow> readS (\<lambda>s. otherParty s (pmSender pm) (svOwn s)) (\<lambda>u. computeSymmetricKey e u (\<lambda>r. case r of
         KOk symm \<Rightarrow> getS (\<lambda>_. aesECBDecrypt e enc symm) (\<lambda>key. startJob e kind m pm (KsReady key) True)
       | KErr \<Rightarrow> startJob e kind m pm KsError True
       | KWait \<Rightarrow> readS (\<lambda>s. length (svDec s)) (\<lambda>i. doS [waitCu u (CuTitle i enc), startJob e kind m pm KsTitle True])))))"

definition msgDecrypt :: "SvEnv \<Rightarrow> Message \<Rightarrow> sv_step" where
  "msgDecrypt e m = (if mData m = [] then outDec JMsg (notEncrypted m) ODone
     else (case parseMessage (seCr e) (seJunk e) m of
       Inl x \<Rightarrow> outDec JMsg m (snd (settle EMALFORMED (m, Some x)))
     | Inr pm \<Rightarrow> let m1 = m\<lparr>msgType := pmType pm\<rparr> in
         if isManagementMessage m1 then (case handleManagementMessage (sePad e) pm m1 of (m2, oc) \<Rightarrow>
           if oc = OTitle then decryptChatTitle e JTitle m2 pm else outDec JMsg m2 oc)
         else if userid m1 = Id_COMMANDER then outDec JMsg m1 (OFail EMALFORMED)
         else readS (\<lambda>s. (getKey s (userid m1, keyid m1), svHasUnified s, \<not> svPublic s)) (\<lambda>(src, has, private).
           if keyid m1 = CHATD_KEYID_INVALID
           then (if has then startJob e JMsg m1 pm KsUnified private else outDec JMsg m1 (OFail ENOKEY))
           else startJob e JMsg m1 pm src private)))"

definition decryptChatTitleFromApi :: "SvEnv \<Rightarrow> bytes \<Rightarrow> sv_step" where
  "decryptChatTitleFromApi e data = (let m = newMessage 0 0 0 0 data False 0 kMsgInvalid 0 [] in
     case parseMessage (seCr e) (seJunk e) m of
       Inl x \<Rightarrow> outDec JApiTitle m (snd (settle EOTHER (m, Some x)))
     | Inr pm \<Rightarrow> decryptChatTitle e JApiTitle m pm)"

definition reactionDecrypt :: "SvEnv \<Rightarrow> Id \<Rightarrow> Id \<Rightarrow> KeyId \<Rightarrow> bytes \<Rightarrow> sv_step" where
  "reactionDecrypt e msgid u kid reaction = readS (\<lambda>s. (svHasUnified s, getKey s (u, kid))) (\<lambda>(has, src).
     if kid = CHATD_KEYID_INVALID \<and> \<not> has then outV SvNoReaction
     else let src = (if kid = CHATD_KEYID_INVALID then KsUnified else src) in if src = KsNull then throwS OutOfBounds
     else readS (\<lambda>s. srcNow s src) (\<lambda>r. case r of
       KErr \<Rightarrow> outV SvNoReaction
     | KOk key \<Rightarrow> getS (\<lambda>_. reactionDecryptWith (seCr e) key msgid reaction) (\<lambda>d. outV (SvReaction d))
     | KWait \<Rightarrow> modS (\<lambda>s. s\<lparr>svDec := svDec s @ [\<lparr>djKind = JReact, djMsg = newMessage msgid u 0 0 reaction False kid kMsgInvalid 0 [],
         djParsed = newParsed (seJunk e) (newMessage msgid u 0 0 reaction False kid kMsgInvalid 0 []) 0 0, djKey = src,
         djEd = KOk [], djVersion = svCacheVersion s, djOpen = True\<rparr>]\<rparr>)))"

text \<open>The key must be there: without it a null pointer or the end of the map is followed.\<close>

definition reactionEncrypt :: "SvEnv \<Rightarrow> SV \<Rightarrow> Message \<Rightarrow> bytes \<Rightarrow> bytes res" where
  "reactionEncrypt e s m reaction =
    (case srcNow s (if keyid m = 0 then KsUnified else getKey s (userid m, keyid m)) of
       KOk key \<Rightarrow> Inr (reactionEncryptWith (seCr e) key (mId m) reaction) | _ \<Rightarrow> Inl OutOfBounds)"

section \<open>Answers\<close>

definition settleEncs :: "SvEnv \<Rightarrow> sv_step" where
  "settleEncs e = readS (\<lambda>s. partition (\<lambda>(src, _). srcNow s src = KWait) (svEncWait s)) (\<lambda>(waiting, ready). doS [
     modS (\<lambda>s. s\<lparr>svEncWait := waiting\<rparr>),
     forS ready (\<lambda>(src, kind). encWhenKey e src kind)])"

definition settleAll :: "SvEnv \<Rightarrow> sv_step" where
  "settleAll e = doS [settleEncs e, readS (\<lambda>s. [0 ..< length (svDec s)]) (\<lambda>js. forS js (settleJob e))]"

definition onUnifiedKey :: "Prom \<Rightarrow> bytes \<Rightarrow> sv_step" where
  "onUnifiedKey r enc = modS (\<lambda>s. s\<lparr>svUnified := r, svDbUnified := Some (case r of KOk key \<Rightarrow> (0, key) | _ \<Rightarrow> (2, enc))\<rparr>)"

definition loadedKey :: "Id set \<Rightarrow> KeyId \<Rightarrow> bytes \<Rightarrow> sv_step" where
  "loadedKey parts kid key = modS (\<lambda>s. s\<lparr>svCurKey := Some key, svCurKeyId := kid, svCurParts := parts, svNextLocal := kid,
     svUnconfirmed := svUnconfirmed s @ [\<lparr>neKey = key, neRecipients = parts, neLocalKeyid = kid\<rparr>]\<rparr>)"

text \<open>A task goes on with the shared key, or without it; a promise catches what it throws.\<close>

definition cuTask :: "SvEnv \<Rightarrow> CuTask \<Rightarrow> Prom \<Rightarrow> sv_step" where
  "cuTask e task r = (let dec = (\<lambda>enc k. case r of KOk symm \<Rightarrow> getS (\<lambda>_. aesECBDecrypt e enc symm) k | _ \<Rightarrow> doS []) in case task of
     CuReceived sender kid enc \<Rightarrow> (case r of KOk _ \<Rightarrow> tryS (dec enc (addDecryptedKey (sender, kid))) | _ \<Rightarrow> keyFailed (sender, kid))
   | CuEncrypt i u \<Rightarrow> doS [encUser e i u r, encCheck e i]
   | CuUnified enc \<Rightarrow> (case r of KOk _ \<Rightarrow> dec enc (\<lambda>key. onUnifiedKey (KOk key) enc) | _ \<Rightarrow> onUnifiedKey KErr enc)
   | CuTitle i enc \<Rightarrow> (case r of KOk _ \<Rightarrow> dec enc (\<lambda>key. setDec i (\<lambda>j. j\<lparr>djKey := KsReady key\<rparr>)) | _ \<Rightarrow> setDec i (\<lambda>j. j\<lparr>djKey := KsError\<rparr>))
   | CuLoad parts kid enc \<Rightarrow> dec enc (loadedKey parts kid)
   | CuDecrypt enc \<Rightarrow> (case r of KOk _ \<Rightarrow> dec enc (\<lambda>key. outV (SvKey key)) | _ \<Rightarrow> outV SvNoKey)
   | CuSend key \<Rightarrow> (case r of
       KOk symm \<Rightarrow> (case key of None \<Rightarrow> throwS OutOfBounds | Some k \<Rightarrow> outV (SvKey (crEcbEnc (seCr e) k symm)))
     | _ \<Rightarrow> outV SvNoKey))"

definition whenSymm :: "SvEnv \<Rightarrow> Id \<Rightarrow> CuTask \<Rightarrow> sv_step" where
  "whenSymm e u task = computeSymmetricKey e u (\<lambda>r. if r = KWait then waitCu u task else cuTask e task r)"

text \<open>The attribute cache remembers what it has got, and some errors.\<close>

definition onAttr :: "SvEnv \<Rightarrow> Id \<Rightarrow> Attr \<Rightarrow> Prom \<Rightarrow> bool \<Rightarrow> sv_step" where
  "onAttr e u a r cached = (if r = KWait then doS [] else doS [
     (if r \<noteq> KErr \<or> cached then modS (\<lambda>s. s\<lparr>svAttrs := (svAttrs s)(u := (svAttrs s u)(a := r))\<rparr>) else doS []),
     (case a of
        CU25519_PUBLIC_KEY \<Rightarrow> readS (\<lambda>s. map snd (filter (\<lambda>(v, _). v = u) (svCuWait s))) (\<lambda>tasks. doS [
          modS (\<lambda>s. s\<lparr>svCuWait := filter (\<lambda>(v, _). v \<noteq> u) (svCuWait s)\<rparr>),
          forS tasks (\<lambda>t. case r of KOk pub \<Rightarrow> deriveSymm e u pub (cuTask e t) | _ \<Rightarrow> cuTask e t r)])
      | ED25519_PUBLIC_KEY \<Rightarrow> modS (\<lambda>s. s\<lparr>svDec := map (\<lambda>j. if djOpen j \<and> djEd j = KWait \<and> pmSender (djParsed j) = u
          then j\<lparr>djEd := edProm r\<rparr> else j) (svDec s)\<rparr>)),
     settleAll e])"

section \<open>Keys from the server\<close>

definition onKeyReceived :: "SvEnv \<Rightarrow> KeyId \<Rightarrow> Id \<Rightarrow> Id \<Rightarrow> bytes \<Rightarrow> bool \<Rightarrow> sv_step" where
  "onKeyReceived e kid sender receiver data isEncrypted = doS [
     (if \<not> isEncrypted then
        (if length data > 16 then throwS (RuntimeError ''Key::assign: source buffer is larger than our size'') else addDecryptedKey (sender, kid) data)
      else if length data mod 16 \<noteq> 0 then throwS (RuntimeError ''decryptKey: invalid aes-encrypted key size'')
      else readS (\<lambda>s. otherParty s sender receiver) (\<lambda>u. computeSymmetricKey e u (\<lambda>r. case r of
          KOk symm \<Rightarrow> getS (\<lambda>_. aesECBDecrypt e data symm) (addDecryptedKey (sender, kid))
        | _ \<Rightarrow> doS [
            modS (\<lambda>s. putKey (sender, kid) (keyEntryOf (sender, kid) s) s),
            readS (\<lambda>s. kePms (keyEntryOf (sender, kid) s)) (\<lambda>p. case p of
              Some _ \<Rightarrow> if r = KWait then askAttr u CU25519_PUBLIC_KEY else doS []
            | None \<Rightarrow> doS [
                modS (\<lambda>s. putKey (sender, kid) ((keyEntryOf (sender, kid) s)\<lparr>kePms := Some (length (svProms s))\<rparr>) (s\<lparr>svProms := svProms s @ [KWait]\<rparr>)),
                (if r = KWait then waitCu u (CuReceived sender kid data) else keyFailed (sender, kid))])]))),
     settleAll e]"

definition onKeyConfirmed :: "SvEnv \<Rightarrow> KeyId \<Rightarrow> KeyId \<Rightarrow> sv_step" where
  "onKeyConfirmed e localkeyid kid = readS svUnconfirmed (\<lambda>un. case un of
     [] \<Rightarrow> doS []
   | entry # rest \<Rightarrow> doS [
       assertV (\<lambda>_. neLocalKeyid entry = localkeyid),
       assertV (\<lambda>s. svKeys s (svOwn s, kid) = None),
       readS svOwn (\<lambda>own. addDecryptedKey (own, kid) (neKey entry)),
       whenS (\<lambda>s. svCurKey s \<noteq> None \<and> rest = []) [
         assertV (\<lambda>s. svCurKey s = Some (neKey entry)),
         assertV (\<lambda>s. svCurKeyId s = localkeyid),
         assertV (\<lambda>s. svCurParts s = neRecipients entry),
         modS (\<lambda>s. s\<lparr>svCurKeyId := kid\<rparr>)],
       modS (\<lambda>s. s\<lparr>svUnconfirmed := tl (svUnconfirmed s)\<rparr>),
       settleAll e])"

definition onKeyRejected :: sv_step where
  "onKeyRejected = readS svUnconfirmed (\<lambda>un. case un of
     [] \<Rightarrow> doS []
   | entry # rest \<Rightarrow> doS [
       whenS (\<lambda>s. svCurKey s \<noteq> None \<and> rest = []) [
         assertV (\<lambda>s. svCurKey s = Some (neKey entry)),
         assertV (\<lambda>s. svCurKeyId s = neLocalKeyid entry),
         assertV (\<lambda>s. svCurParts s = neRecipients entry),
         resetSendKey],
       modS (\<lambda>s. s\<lparr>svUnconfirmed := tl (svUnconfirmed s)\<rparr>)])"

section \<open>Start and modes\<close>

text \<open>Our own version of a key that was being sent, or none; the entries are read without looking at the end.\<close>

function ownBlob :: "bytes \<Rightarrow> Id \<Rightarrow> nat \<Rightarrow> bytes option res" where
  "ownBlob blobs own pos =
    (if pos < length blobs
     then (if pos + 10 > length blobs then Inl OutOfBounds
           else if word_of_nat (of_le (slice blobs pos 8)) = own
           then (if pos + 26 > length blobs then Inl OutOfBounds else Inr (Some (slice blobs (pos + 10) 16)))
           else ownBlob blobs own (pos + 10 + of_le (slice blobs (pos + 8) 2)))
     else Inr None)"
  by pat_completeness auto
termination by (relation "measure (\<lambda>(blobs, own, pos). length blobs - pos)") auto

declare ownBlob.simps [simp del]

definition loadUnconfirmedKeys :: "SvEnv \<Rightarrow> (bytes \<times> bytes \<times> KeyId) list \<Rightarrow> sv_step" where
  "loadUnconfirmedKeys e rows = doS [
     forS rows (\<lambda>(recpts, blobs, kid). getS (\<lambda>_. SetOfIds_load recpts) (\<lambda>parts. doS [
       assertV (\<lambda>_. isLocalKeyId kid),
       getS (\<lambda>s. ownBlob blobs (svOwn s) 0) (\<lambda>enc. case enc of
         None \<Rightarrow> outV SvAssert
       | Some enc \<Rightarrow> readS svOwn (\<lambda>own. doS [
           whenSymm e own (CuLoad parts kid enc),
           assertV (\<lambda>s. svSymm s own \<noteq> None)]))])),
     getNextValidLocalKeyId (\<lambda>_. doS [])]"

abbreviation (input) kDecrypted :: nat where "kDecrypted \<equiv> 0"
abbreviation (input) kEncrypted :: nat where "kEncrypted \<equiv> 1"
abbreviation (input) kUndecryptable :: nat where "kUndecryptable \<equiv> 2"

text \<open>The handler of a chat before its keys are loaded.\<close>

definition newHandler :: "Crypto \<Rightarrow> Id \<Rightarrow> Id \<Rightarrow> bytes \<Rightarrow> bytes \<Rightarrow> (Id \<Rightarrow> Attr \<Rightarrow> Prom) \<Rightarrow> bool \<Rightarrow> bool \<Rightarrow> Id \<Rightarrow> KeyId \<Rightarrow> SV" where
  "newHandler cr own chat privCu privEd attrs isPublic hasUnified ph nextLocal =
    \<lparr>svOwn = own, svChat = chat, svPrivCu = privCu, svPrivEd = privEd, svPubEd = crPub cr privEd, svCurKey = None,
     svCurKeyId = CHATD_KEYID_INVALID, svCurParts = {}, svNextLocal = nextLocal, svUnconfirmed = [], svKeys = (\<lambda>_. None),
     svSymm = (\<lambda>_. None), svParticipants = {}, svCacheVersion = 0, svPublic = isPublic, svUnified = KWait, svHasUnified = hasUnified,
     svPh = ph, svDbKeys = [], svDbUnified = None, svAttrs = attrs, svCuWait = [], svProms = [], svEnc = [], svEncWait = [], svDec = [],
     svDrawn = 0, svOut = []\<rparr>"

definition loadKeys :: "(Id \<times> KeyId \<times> bytes) list \<Rightarrow> sv_step" where
  "loadKeys rows = modS (\<lambda>s. s\<lparr>svDbKeys := rows,
     svKeys := (\<lambda>(u, k). map_option (\<lambda>r. \<lparr>keKey = Some (snd (snd r)), kePms = None\<rparr>) (find (\<lambda>(v, l, _). v = u \<and> l = k) rows))\<rparr>)"

definition loadUnifiedKey :: "SvEnv \<Rightarrow> bytes \<Rightarrow> nat \<Rightarrow> sv_step" where
  "loadUnifiedKey e key status = doS [
     assertV (\<lambda>s. \<not> svPublic s \<or> key \<noteq> []),
     (if key = [] then doS []
      else if status = kDecrypted
      then (if length key > 16 then throwS (RuntimeError ''Key::assign: source buffer is larger than our size'')
            else modS (\<lambda>s. s\<lparr>svUnified := KOk key\<rparr>))
      else if status = kEncrypted
      then (if length key < 24 then throwS OutOfBounds
            else whenSymm e (word_of_nat (of_le (take 8 key))) (CuUnified (slice key 8 16)))
      else modS (\<lambda>s. s\<lparr>svUnified := KErr\<rparr>))]"

definition startHandler :: "SvEnv \<Rightarrow> (Id \<times> KeyId \<times> bytes) list \<Rightarrow> (bytes \<times> bytes \<times> KeyId) list \<Rightarrow> bytes \<Rightarrow> nat \<Rightarrow> sv_step" where
  "startHandler e dbKeys unconfirmed unified status = doS [loadKeys dbKeys, loadUnconfirmedKeys e unconfirmed, loadUnifiedKey e unified status]"

definition setPrivateChatMode :: sv_step where
  "setPrivateChatMode = doS [assertV svPublic, modS (\<lambda>s. s\<lparr>svPublic := False, svPh := Id_inval\<rparr>), resetSendKey]"

definition setPublicHandle :: "Id \<Rightarrow> sv_step" where
  "setPublicHandle ph = modS (\<lambda>s. s\<lparr>svPh := ph\<rparr>)"

definition previewMode :: "SV \<Rightarrow> bool" where
  "previewMode s \<longleftrightarrow> Id_isValid (svPh s)"

definition onHistoryReload :: sv_step where
  "onHistoryReload = modS (\<lambda>s. s\<lparr>svCacheVersion := Suc (svCacheVersion s)\<rparr>)"

definition fetchUserKeys :: "Id \<Rightarrow> sv_step" where
  "fetchUserKeys u = doS [
     whenS (\<lambda>s. svAttrs s u ED25519_PUBLIC_KEY = KWait) [askAttr u ED25519_PUBLIC_KEY],
     whenS (\<lambda>s. \<not> previewMode s \<and> svAttrs s u CU25519_PUBLIC_KEY = KWait) [askAttr u CU25519_PUBLIC_KEY]]"

definition setUsers :: "Id set \<Rightarrow> sv_step" where
  "setUsers us = doS [modS (\<lambda>s. s\<lparr>svParticipants := us\<rparr>),
     whenS (\<lambda>s. \<not> svPublic s) [forS (sorted_list_of_set us) fetchUserKeys]]"

text \<open>The participants are those of the chat, which changes them itself.\<close>

definition onUserJoin :: "Id \<Rightarrow> sv_step" where
  "onUserJoin u = doS [modS (\<lambda>s. s\<lparr>svParticipants := insert u (svParticipants s)\<rparr>), fetchUserKeys u]"

definition onUserLeave :: "Id \<Rightarrow> sv_step" where
  "onUserLeave u = modS (\<lambda>s. s\<lparr>svParticipants := svParticipants s - {u}\<rparr>)"

definition encryptUnifiedKeyToUser :: "SvEnv \<Rightarrow> Id \<Rightarrow> sv_step" where
  "encryptUnifiedKeyToUser e u = readS (\<lambda>s. case svUnified s of KOk key \<Rightarrow> Some key | _ \<Rightarrow> None) (\<lambda>key. whenSymm e u (CuSend key))"

definition decryptUnifiedKey :: "SvEnv \<Rightarrow> bytes \<Rightarrow> Id \<Rightarrow> Id \<Rightarrow> sv_step" where
  "decryptUnifiedKey e enc sender receiver =
    (if length enc mod 16 \<noteq> 0 then throwS (RuntimeError ''decryptKey: invalid aes-encrypted key size'')
     else readS (\<lambda>s. otherParty s sender receiver) (\<lambda>u. whenSymm e u (CuDecrypt enc)))"

section \<open>Events\<close>

text \<open>What the chat calls, and the answers of the attribute cache; \<open>SvOther\<close> is a key created by another chat.\<close>

datatype SvEvent = SvEncrypt Message "Id set" bytes | SvDecrypt Message | SvKeyReceived KeyId Id Id bytes bool | SvKeyConfirmed KeyId KeyId
  | SvKeyRejected | SvResetKey | SvAttr Id Attr Prom bool | SvTitleEncrypt bytes Id bool | SvTitleDecrypt bytes | SvUnifiedForAll Id
  | SvReactionDecrypt Id Id KeyId bytes | SvSetUsers "Id set" | SvJoin Id | SvLeave Id | SvPrivate | SvHandle Id | SvReload
  | SvUnifiedTo Id | SvUnifiedDecrypt bytes Id Id | SvOther

fun svEvent :: "SvEnv \<Rightarrow> SvEvent \<Rightarrow> sv_step" where
  "svEvent e (SvEncrypt m rs cmd) = msgEncrypt e m rs cmd"
| "svEvent e (SvDecrypt m) = msgDecrypt e m"
| "svEvent e (SvKeyReceived k s r d enc) = onKeyReceived e k s r d enc"
| "svEvent e (SvKeyConfirmed l k) = onKeyConfirmed e l k"
| "svEvent e SvKeyRejected = onKeyRejected"
| "svEvent e SvResetKey = resetSendKey"
| "svEvent e (SvAttr u a r c) = onAttr e u a r c"
| "svEvent e (SvTitleEncrypt d x p) = encryptChatTitle e d x p"
| "svEvent e (SvTitleDecrypt d) = decryptChatTitleFromApi e d"
| "svEvent e (SvUnifiedForAll x) = encryptUnifiedKeyForAllParticipants e x"
| "svEvent e (SvReactionDecrypt i u k r) = reactionDecrypt e i u k r"
| "svEvent e (SvSetUsers us) = setUsers us"
| "svEvent e (SvJoin u) = onUserJoin u"
| "svEvent e (SvLeave u) = onUserLeave u"
| "svEvent e SvPrivate = setPrivateChatMode"
| "svEvent e (SvHandle ph) = setPublicHandle ph"
| "svEvent e SvReload = onHistoryReload"
| "svEvent e (SvUnifiedTo u) = encryptUnifiedKeyToUser e u"
| "svEvent e (SvUnifiedDecrypt enc s r) = decryptUnifiedKey e enc s r"
| "svEvent e SvOther = getNextValidLocalKeyId (\<lambda>_. doS [])"

definition runSv :: "(SvEnv \<times> SvEvent) list \<Rightarrow> SV \<Rightarrow> SV" where
  "runSv es = fold (\<lambda>(e, x) s. fst (svEvent e x s)) es"

end
