(* ===== verification/SvKeysProps.thy ===== *)
theory SvKeysProps
  imports SvKeys StrongvelopeProps
begin

text \<open>
  Properties of the keys of a chat: what one participant encrypts another one reads, the current key after a
  confirmation, and what goes wrong when a key cannot be encrypted at once.
\<close>

section \<open>Steps that are known\<close>

lemma step_next: "x s = (t, None) \<Longrightarrow> doS (x # xs) s = doS xs t"
  by simp

lemma readS_eq: "readS f k s = k (f s) s"
  by (simp add: readS_def)

lemma getS_eq: "f s = Inr x \<Longrightarrow> getS f k s = k x s"
  by (simp add: getS_def)

section \<open>Keys for all participants\<close>

text \<open>The key shared with a user, when it can be had at once.\<close>

definition symmOf :: "SvEnv \<Rightarrow> SV \<Rightarrow> Id \<Rightarrow> bytes" where
  "symmOf e s u = (case svSymm s u of Some k \<Rightarrow> k | None \<Rightarrow>
     deriveSharedKey (seCr e) (crDh (seCr e) (svPrivCu s) (case svAttrs s u CU25519_PUBLIC_KEY of KOk pub \<Rightarrow> pub | _ \<Rightarrow> [])) SVCRYPTO_PAIRWISE_KEY)"

definition hasCu :: "SV \<Rightarrow> Id \<Rightarrow> bool" where
  "hasCu s u \<longleftrightarrow> svSymm s u \<noteq> None \<or> (\<exists>pub. svAttrs s u CU25519_PUBLIC_KEY = KOk pub \<and> 32 \<le> length pub)"

definition noCu :: "SV \<Rightarrow> Id \<Rightarrow> bool" where
  "noCu s u \<longleftrightarrow> svSymm s u = None \<and> svAttrs s u CU25519_PUBLIC_KEY = KErr"

definition cached :: "SvEnv \<Rightarrow> Id \<Rightarrow> SV \<Rightarrow> SV" where
  "cached e u s = s\<lparr>svSymm := (svSymm s)(u := Some (symmOf e s u))\<rparr>"

lemma symm_now: "hasCu s u \<Longrightarrow> computeSymmetricKey e u k s = k (KOk (symmOf e s u)) (cached e u s)"
  by (cases "svSymm s u")
    (auto simp: hasCu_def computeSymmetricKey_def deriveSymm_def readS_def modS_def symmOf_def cached_def fun_upd_idem)

lemma symm_failed: "noCu s u \<Longrightarrow> computeSymmetricKey e u k s = k KErr s"
  by (simp add: noCu_def computeSymmetricKey_def readS_def)

lemma cached_same [simp]: "symmOf e (cached e u s) v = symmOf e s v" "hasCu (cached e u s) v = (hasCu s v \<or> v = u)"
  by (simp_all add: cached_def symmOf_def hasCu_def split: option.split)

lemma cached_no: "v \<noteq> u \<Longrightarrow> noCu (cached e u s) v = noCu s v"
  by (auto simp: cached_def noCu_def)

text \<open>The state after the keys of some users have been encrypted.\<close>

definition allCached :: "SvEnv \<Rightarrow> Id list \<Rightarrow> SV \<Rightarrow> SV" where
  "allCached e us s = fold (cached e) us s"

lemma cached_fields [simp]:
  "svEnc (cached e u s) = svEnc s" "svOut (cached e u s) = svOut s" "svCurKeyId (cached e u s) = svCurKeyId s"
  "svAttrs (cached e u s) = svAttrs s" "svPrivCu (cached e u s) = svPrivCu s"
  by (simp_all add: cached_def)

lemma cached_enc: "(cached e u s)\<lparr>svEnc := x\<rparr> = cached e u (s\<lparr>svEnc := x\<rparr>)"
  by (simp add: cached_def symmOf_def split: option.split)

lemma symmOf_enc [simp]: "symmOf e (s\<lparr>svEnc := x\<rparr>) u = symmOf e s u" "hasCu (s\<lparr>svEnc := x\<rparr>) u = hasCu s u"
  by (simp_all add: symmOf_def hasCu_def split: option.split)

definition userKeys :: "SvEnv \<Rightarrow> SV \<Rightarrow> bytes \<Rightarrow> Id list \<Rightarrow> (Id \<times> bytes) list" where
  "userKeys e s key us = map (\<lambda>u. (u, crEcbEnc (seCr e) key (symmOf e s u))) us"

abbreviation (input) encStep :: "SvEnv \<Rightarrow> nat \<Rightarrow> Id \<Rightarrow> sv_step" where
  "encStep e i u \<equiv> computeSymmetricKey e u (\<lambda>r. if r = KWait then waitCu u (CuEncrypt i u) else encUser e i u r)"

abbreviation (input) withKey :: "Id \<Rightarrow> KeyId \<Rightarrow> (Id \<times> bytes) list \<Rightarrow> EncJob \<Rightarrow> EncJob" where
  "withKey c kid ks j \<equiv> j\<lparr>ejKc := (ejKc j)\<lparr>kcBuf := kcLayout c kid ks\<rparr>, ejLeft := ejLeft j - 1\<rparr>"

lemma enc_step:
  assumes "i < length (svEnc s)" "svEnc s ! i = j" "kcBuf (ejKc j) = kcLayout c kid ks" "hasCu s u"
    "length (crEcbEnc (seCr e) (ejKey j) (symmOf e s u)) = 16" "length (keyEntries ks) + 26 < 2 ^ 32"
  shows "encStep e i u s =
    (cached e u (s\<lparr>svEnc := (svEnc s)[i := withKey c kid (ks @ [(u, crEcbEnc (seCr e) (ejKey j) (symmOf e s u))]) j]\<rparr>), None)"
proof -
  let ?k = "crEcbEnc (seCr e) (ejKey j) (symmOf e s u)"
  have "?k \<noteq> []" using assms(5) by auto
  then have "addKey (ejKc j) u ?k = Inr ((ejKc j)\<lparr>kcBuf := kcLayout c kid (ks @ [(u, ?k)])\<rparr>)"
    using assms(3,5,6) by (intro addKey_layout) auto
  then show ?thesis
    using assms(2) by (simp add: symm_now [OF assms(4)] encUser_def readS_def getS_def setEnc_def modS_def cached_enc)
qed

lemma enc_loop:
  assumes "i < length (svEnc s)" "svEnc s ! i = j" "kcBuf (ejKc j) = kcLayout c kid ks"
    "\<forall>u \<in> set us. hasCu s u \<and> length (crEcbEnc (seCr e) (ejKey j) (symmOf e s u)) = 16"
    "length (keyEntries ks) + 26 * length us < 2 ^ 32"
  shows "forS us (encStep e i) s =
    (allCached e us (s\<lparr>svEnc := (svEnc s)[i := j\<lparr>ejKc := (ejKc j)\<lparr>kcBuf := kcLayout c kid (ks @ userKeys e s (ejKey j) us)\<rparr>,
       ejLeft := ejLeft j - length us\<rparr>]\<rparr>), None)"
  using assms
proof (induction us arbitrary: s j ks)
  case Nil
  have "(ejKc j)\<lparr>kcBuf := kcLayout c kid ks\<rparr> = ejKc j" by (simp flip: Nil(3))
  then have "(svEnc s)[i := j\<lparr>ejKc := (ejKc j)\<lparr>kcBuf := kcLayout c kid ks\<rparr>, ejLeft := ejLeft j\<rparr>] = svEnc s"
    using Nil(2) by (metis EncJob.surjective EncJob.update_convs(3) EncJob.update_convs(4) list_update_id)
  then show ?case by (simp add: allCached_def userKeys_def)
next
  case (Cons u us)
  let ?f = "encStep e i" and ?k = "crEcbEnc (seCr e) (ejKey j) (symmOf e s u)"
  let ?kc = "(ejKc j)\<lparr>kcBuf := kcLayout c kid (ks @ [(u, ?k)])\<rparr>"
  let ?j = "j\<lparr>ejKc := ?kc, ejLeft := ejLeft j - 1\<rparr>"
  let ?s = "cached e u (s\<lparr>svEnc := (svEnc s)[i := ?j]\<rparr>)"
  have u: "hasCu s u" "length ?k = 16" using Cons.prems(4) by simp_all
  have "?f u s = (?s, None)" by (rule enc_step) (use Cons.prems u in auto)
  then have "forS (u # us) ?f s = forS us ?f ?s" by (simp add: step_next)
  also have "\<dots> = (allCached e us (?s\<lparr>svEnc := (svEnc ?s)[i := ?j\<lparr>ejKc := (ejKc ?j)\<lparr>kcBuf :=
      kcLayout c kid ((ks @ [(u, ?k)]) @ userKeys e ?s (ejKey ?j) us)\<rparr>, ejLeft := ejLeft ?j - length us\<rparr>]\<rparr>), None)"
    by (rule Cons.IH) (use Cons.prems u in auto)
  also have "\<dots> = (allCached e (u # us) (s\<lparr>svEnc := (svEnc s)[i := j\<lparr>ejKc := (ejKc j)\<lparr>kcBuf := kcLayout c kid (ks @ userKeys e s (ejKey j) (u # us))\<rparr>,
      ejLeft := ejLeft j - length (u # us)\<rparr>]\<rparr>), None)"
    by (simp add: allCached_def userKeys_def cached_enc diff_diff_eq)
  finally show ?case .
qed

lemma allCached_fields [simp]:
  "svEnc (allCached e us s) = svEnc s" "svOut (allCached e us s) = svOut s" "svCurKeyId (allCached e us s) = svCurKeyId s"
  "svDrawn (allCached e us s) = svDrawn s" "svPrivEd (allCached e us s) = svPrivEd s" "svPubEd (allCached e us s) = svPubEd s"
  "svKeys (allCached e us s) = svKeys s"
proof -
  have "svEnc (allCached e us s) = svEnc s \<and> svOut (allCached e us s) = svOut s \<and> svCurKeyId (allCached e us s) = svCurKeyId s \<and>
      svDrawn (allCached e us s) = svDrawn s \<and> svPrivEd (allCached e us s) = svPrivEd s \<and> svPubEd (allCached e us s) = svPubEd s \<and>
      svKeys (allCached e us s) = svKeys s"
    unfolding allCached_def by (induction us arbitrary: s) (simp_all add: cached_def)
  then show "svEnc (allCached e us s) = svEnc s" "svOut (allCached e us s) = svOut s" "svCurKeyId (allCached e us s) = svCurKeyId s"
    "svDrawn (allCached e us s) = svDrawn s" "svPrivEd (allCached e us s) = svPrivEd s" "svPubEd (allCached e us s) = svPubEd s"
    "svKeys (allCached e us s) = svKeys s"
    by simp_all
qed

text \<open>When the key of some user cannot be had, the job fails once; the other users go on with a job that is closed.\<close>

lemma no_has: "noCu s u \<Longrightarrow> \<not> hasCu s u"
  by (simp add: noCu_def hasCu_def)

lemma noCu_enc [simp]: "noCu (s\<lparr>svEnc := x\<rparr>) u = noCu s u" "noCu (s\<lparr>svEnc := x, svOut := y\<rparr>) u = noCu s u"
  "hasCu (s\<lparr>svEnc := x, svOut := y\<rparr>) u = hasCu s u" "symmOf e (s\<lparr>svEnc := x, svOut := y\<rparr>) u = symmOf e s u"
  by (simp_all add: noCu_def hasCu_def symmOf_def split: option.split)

lemma mixed_loop:
  assumes "i < length (svEnc s)" "svEnc s ! i = j" "kcBuf (ejKc j) = kcLayout c kid ks" "ejKind j = EkMsg m cmd"
    "\<forall>u \<in> set us. hasCu s u \<and> length (crEcbEnc (seCr e) (ejKey j) (symmOf e s u)) = 16 \<or> noCu s u" "distinct us"
    "length (keyEntries ks) + 26 * length us < 2 ^ 32" "ejOpen j \<longrightarrow> (\<exists>u \<in> set us. noCu s u)"
  shows "\<exists>t. forS us (encStep e i) s = (t, None) \<and> svOut t = svOut s @ (if ejOpen j then [SvNotEncrypted EOTHER] else []) \<and>
    \<not> ejOpen (svEnc t ! i)"
  using assms
proof (induction us arbitrary: s j ks)
  case (Cons u us)
  show ?case
  proof (cases "noCu s u")
    case True
    let ?j = "j\<lparr>ejOpen := False\<rparr>"
    let ?s = "if ejOpen j then s\<lparr>svEnc := (svEnc s)[i := ?j], svOut := svOut s @ [SvNotEncrypted EOTHER]\<rparr> else s"
    have "encStep e i u s = (?s, None)"
      using Cons.prems(1,2,4) by (simp add: symm_failed [OF True] encUser_def readS_def setEnc_def modS_def encFailed_def outV_def)
    then have "forS (u # us) (encStep e i) s = forS us (encStep e i) ?s" by (simp add: step_next)
    moreover have "\<exists>t. forS us (encStep e i) ?s = (t, None) \<and>
        svOut t = svOut ?s @ (if ejOpen (if ejOpen j then ?j else j) then [SvNotEncrypted EOTHER] else []) \<and> \<not> ejOpen (svEnc t ! i)"
      by (rule Cons.IH [of ?s "if ejOpen j then ?j else j" ks]) (use Cons.prems in auto)
    ultimately show ?thesis by auto
  next
    case False
    let ?k = "crEcbEnc (seCr e) (ejKey j) (symmOf e s u)"
    let ?j = "withKey c kid (ks @ [(u, ?k)]) j"
    let ?s = "cached e u (s\<lparr>svEnc := (svEnc s)[i := ?j]\<rparr>)"
    have u: "hasCu s u" "length ?k = 16" using Cons.prems(5) False by simp_all
    have "encStep e i u s = (?s, None)" by (rule enc_step) (use Cons.prems u in auto)
    then have "forS (u # us) (encStep e i) s = forS us (encStep e i) ?s" by (simp add: step_next)
    moreover have "noCu ?s v = noCu s v" if "v \<in> set us" for v
    proof -
      have "v \<noteq> u" using that Cons.prems(6) by auto
      then show ?thesis by (simp add: cached_no)
    qed
    then have "\<exists>t. forS us (encStep e i) ?s = (t, None) \<and> svOut t = svOut ?s @ (if ejOpen ?j then [SvNotEncrypted EOTHER] else []) \<and>
        \<not> ejOpen (svEnc t ! i)"
      by (intro Cons.IH [of ?s ?j "ks @ [(u, ?k)]"]) (use Cons.prems u False in auto)
    ultimately show ?thesis by auto
  qed
qed (simp add: forS_def)

text \<open>When the keys of all can be had, the job is done at once.\<close>

lemma encrypt_to_all:
  assumes "isLocalKeyId kid" "length key = 16" "crypto_ok (seCr e)" "finite ps" "26 * card ps < 2 ^ 32"
    "\<forall>u \<in> ps. hasCu s u \<and> length (symmOf e s u) = 16"
  shows "\<exists>t. encryptKeyToAllParticipants e key ps kid (EkMsg m cmd) s = (t, None) \<and> svKeys t = svKeys s \<and> svOut t = svOut s @
      [SvEncrypted (m\<lparr>keyid := kid\<rparr>) (msgEncryptWithKey (seCr e) (svPrivEd s) (svPubEd s) (take 12 (seRand e (svDrawn s))) m
          (mcSetKeyId cmd (svCurKeyId s)) key)
        (Some \<lparr>mLocalKeyid = kid, kcBuf = kcLayout (svChat s) kid (userKeys e s key (sorted_list_of_set ps))\<rparr>)]"
proof -
  let ?us = "sorted_list_of_set ps" and ?i = "length (svEnc s)"
  let ?kc = "\<lparr>mLocalKeyid = kid, kcBuf = kcLayout (svChat s) kid []\<rparr>"
  let ?j = "\<lparr>ejKind = EkMsg m cmd, ejKey = key, ejKc = ?kc, ejLeft = length ?us, ejOpen = True\<rparr>"
  let ?s = "s\<lparr>svEnc := svEnc s @ [?j]\<rparr>"
  let ?kc' = "?kc\<lparr>kcBuf := kcLayout (svChat s) kid ([] @ userKeys e ?s key ?us)\<rparr>"
  let ?j' = "?j\<lparr>ejKc := ?kc', ejLeft := ejLeft ?j - length ?us\<rparr>"
  let ?t = "allCached e ?us (?s\<lparr>svEnc := (svEnc ?s)[?i := ?j']\<rparr>)"
  have loop: "forS ?us (encStep e ?i) ?s = (?t, None)"
    using enc_loop [of ?i ?s ?j "svChat s" kid "[]" ?us e] assms by (simp add: crypto_okD)
  have at: "svEnc ?t ! ?i = ?j'" by simp
  have "newKeyCommand (svChat s) kid = Inr ?kc" by (rule newKeyCommand_layout) (simp add: assms(1))
  then have "encryptKeyToAllParticipants e key ps kid (EkMsg m cmd) s = doS [
      modS (\<lambda>s. s\<lparr>svEnc := svEnc s @ [?j]\<rparr>),
      forS ?us (encStep e ?i),
      encCheck e ?i] s"
    unfolding encryptKeyToAllParticipants_def Let_def readS_eq by (rule getS_eq)
  also have "\<dots> = doS [forS ?us (encStep e ?i),
      encCheck e ?i] ?s"
    by (rule step_next) (simp add: modS_def)
  also have "\<dots> = doS [encCheck e ?i] ?t" by (rule step_next) (rule loop)
  also have "\<dots> = encCheck e ?i ?t" by (simp only: doS_simps)
  also have "\<dots> = doS [setEnc ?i (\<lambda>j. j\<lparr>ejOpen := False\<rparr>), encDone e ?j'] ?t"
    unfolding encCheck_def readS_eq at by simp
  finally show ?thesis
    by (simp add: setEnc_def modS_def encDone_def encMsgDone_def readS_def encryptMsg_def draw_def outV_def userKeys_def)
qed

text \<open>The state in which the key of a new message has been made, and is encrypted for all.\<close>

definition newKeyState :: "SvEnv \<Rightarrow> Id set \<Rightarrow> SV \<Rightarrow> SV" where
  "newKeyState e ps s = (let key = take 16 (seRand e (svDrawn s)); kid = svNextLocal s in
     s\<lparr>svDrawn := Suc (svDrawn s), svNextLocal := (if isValidKeyxId (kid - 1) then kid - 1 else CHATD_KEYID_MAX),
       svCurKey := Some key, svCurKeyId := kid, svCurParts := ps,
       svUnconfirmed := svUnconfirmed s @ [\<lparr>neKey = key, neRecipients = ps, neLocalKeyid = kid\<rparr>]\<rparr>)"

lemma newKeyState_same [simp]:
  "symmOf e (newKeyState e' ps s) v = symmOf e s v" "hasCu (newKeyState e' ps s) v = hasCu s v" "noCu (newKeyState e' ps s) v = noCu s v"
  "svOut (newKeyState e' ps s) = svOut s" "svPrivEd (newKeyState e' ps s) = svPrivEd s" "svPubEd (newKeyState e' ps s) = svPubEd s"
  "svKeys (newKeyState e' ps s) = svKeys s" "svChat (newKeyState e' ps s) = svChat s" "svDrawn (newKeyState e' ps s) = Suc (svDrawn s)" "svCurKeyId (newKeyState e' ps s) = svNextLocal s"
  "userKeys e (newKeyState e' ps s) key us = userKeys e s key us"
  by (simp_all add: newKeyState_def Let_def symmOf_def hasCu_def noCu_def userKeys_def split: option.split)

lemma encrypt_makes_key:
  assumes "\<not> svPublic s" "keyid m = CHATD_KEYID_INVALID" "isNewMsgCmd cmd" "svCurKey s = None \<or> svCurParts s \<noteq> ps"
  shows "msgEncrypt e m ps cmd s =
    encryptKeyToAllParticipants e (take 16 (seRand e (svDrawn s))) ps (svNextLocal s) (EkMsg m cmd) (newKeyState e ps s)"
proof -
  have "createNewKey e ps (EkMsg m cmd) s =
      encryptKeyToAllParticipants e (take 16 (seRand e (svDrawn s))) ps (svNextLocal s) (EkMsg m cmd) (newKeyState e ps s)"
    using assms(1) by (simp add: createNewKey_def assertV_def ifS_def draw_def readS_def modS_def getNextValidLocalKeyId_def newKeyState_def Let_def)
  moreover have "msgEncrypt e m ps cmd s = createNewKey e ps (EkMsg m cmd) s"
    using assms by (auto simp: msgEncrypt_def ifS_def assertV_def readS_def split: option.split)
  ultimately show ?thesis by simp
qed

lemma encrypt_new_key:
  assumes "\<not> svPublic s" "keyid m = CHATD_KEYID_INVALID" "isNewMsgCmd cmd" "svCurKey s = None \<or> svCurParts s \<noteq> ps"
    "isLocalKeyId (svNextLocal s)" "length (seRand e (svDrawn s)) = 32" "crypto_ok (seCr e)" "finite ps" "26 * card ps < 2 ^ 32"
    "\<forall>u \<in> ps. hasCu s u \<and> length (symmOf e s u) = 16"
  shows "\<exists>t. msgEncrypt e m ps cmd s = (t, None) \<and> svKeys t = svKeys s \<and> svOut t = svOut s @
      [SvEncrypted (m\<lparr>keyid := svNextLocal s\<rparr>) (msgEncryptWithKey (seCr e) (svPrivEd s) (svPubEd s) (take 12 (seRand e (Suc (svDrawn s)))) m
          (mcSetKeyId cmd (svNextLocal s)) (take 16 (seRand e (svDrawn s))))
        (Some \<lparr>mLocalKeyid = svNextLocal s,
          kcBuf = kcLayout (svChat s) (svNextLocal s) (userKeys e s (take 16 (seRand e (svDrawn s))) (sorted_list_of_set ps))\<rparr>)]"
  using encrypt_to_all [of "svNextLocal s" "take 16 (seRand e (svDrawn s))" e ps "newKeyState e ps s" m cmd] assms
  by (simp add: encrypt_makes_key [OF assms(1-4)])

text \<open>When some cannot, the encryption fails.\<close>

lemma encrypt_fails:
  assumes "isLocalKeyId kid" "length key = 16" "crypto_ok (seCr e)" "finite ps" "26 * card ps < 2 ^ 32"
    "\<forall>u \<in> ps. hasCu s u \<and> length (symmOf e s u) = 16 \<or> noCu s u" "\<exists>u \<in> ps. noCu s u"
  shows "\<exists>t. encryptKeyToAllParticipants e key ps kid (EkMsg m cmd) s = (t, None) \<and> svOut t = svOut s @ [SvNotEncrypted EOTHER]"
proof -
  let ?us = "sorted_list_of_set ps" and ?i = "length (svEnc s)"
  let ?kc = "\<lparr>mLocalKeyid = kid, kcBuf = kcLayout (svChat s) kid []\<rparr>"
  let ?j = "\<lparr>ejKind = EkMsg m cmd, ejKey = key, ejKc = ?kc, ejLeft = length ?us, ejOpen = True\<rparr>"
  let ?s = "s\<lparr>svEnc := svEnc s @ [?j]\<rparr>"
  have "\<exists>t. forS ?us (encStep e ?i) ?s = (t, None) \<and> svOut t = svOut ?s @ (if ejOpen ?j then [SvNotEncrypted EOTHER] else []) \<and>
      \<not> ejOpen (svEnc t ! ?i)"
    by (rule mixed_loop [where j = ?j and c = "svChat s" and kid = kid and ks = "[]" and m = m and cmd = cmd]) (use assms in \<open>auto simp: crypto_okD\<close>)
  then obtain t where t: "forS ?us (encStep e ?i) ?s = (t, None)" "svOut t = svOut s @ [SvNotEncrypted EOTHER]" "\<not> ejOpen (svEnc t ! ?i)"
    by auto
  have "newKeyCommand (svChat s) kid = Inr ?kc" by (rule newKeyCommand_layout) (simp add: assms(1))
  then have "encryptKeyToAllParticipants e key ps kid (EkMsg m cmd) s = doS [
      modS (\<lambda>s. s\<lparr>svEnc := svEnc s @ [?j]\<rparr>), forS ?us (encStep e ?i), encCheck e ?i] s"
    unfolding encryptKeyToAllParticipants_def Let_def readS_eq by (rule getS_eq)
  also have "\<dots> = doS [forS ?us (encStep e ?i), encCheck e ?i] ?s" by (rule step_next) (simp add: modS_def)
  also have "\<dots> = doS [encCheck e ?i] t" by (rule step_next) (rule t(1))
  also have "\<dots> = (t, None)" using t(3) by (simp add: encCheck_def readS_eq)
  finally show ?thesis using t(2) by blast
qed

section \<open>The current key\<close>

lemma keeps_sv [keeps_intros]:
  "(\<And>b. keeps P (f b)) \<Longrightarrow> keeps P g \<Longrightarrow> keeps P h \<Longrightarrow> keeps P (case p of KOk b \<Rightarrow> f b | KWait \<Rightarrow> g | KErr \<Rightarrow> h)"
  "(\<And>m c. keeps P (f1 m c)) \<Longrightarrow> (\<And>d o'. keeps P (f2 d o')) \<Longrightarrow> (\<And>us. keeps P (f3 us)) \<Longrightarrow>
     keeps P (case k of EkMsg m c \<Rightarrow> f1 m c | EkTitle d o' \<Rightarrow> f2 d o' | EkUnified us \<Rightarrow> f3 us)"
  "keeps P a1 \<Longrightarrow> keeps P a2 \<Longrightarrow> keeps P a3 \<Longrightarrow> keeps P a4 \<Longrightarrow>
     keeps P (case jk of JMsg \<Rightarrow> a1 | JTitle \<Rightarrow> a2 | JApiTitle \<Rightarrow> a3 | JReact \<Rightarrow> a4)"
  "(\<And>x. keeps P (g1 x)) \<Longrightarrow> (\<And>y. keeps P (g2 y)) \<Longrightarrow> keeps P (case r of Inl x \<Rightarrow> g1 x | Inr y \<Rightarrow> g2 y)"
  "keeps P c1 \<Longrightarrow> keeps P c2 \<Longrightarrow> keeps P (case at of CU25519_PUBLIC_KEY \<Rightarrow> c1 | ED25519_PUBLIC_KEY \<Rightarrow> c2)"
  by (simp_all split: Prom.split EncKind.split JobKind.split sum.split Attr.split)

text \<open>What the encryption of a message depends on besides the shared keys.\<close>

definition keyView :: "SV \<Rightarrow> _" where
  "keyView s = (svCurKey s, svCurKeyId s, svCurParts s, svUnconfirmed s, svOwn s, svPublic s, svPrivEd s, svPubEd s)"

lemma still_basic [keeps_intros]:
  "keeps (\<lambda>s. keyView s = v) (outV x)" "keeps (\<lambda>s. keyView s = v) (assertV b)" "keeps (\<lambda>s. keyView s = v) (askAttr u a)"
  "keeps (\<lambda>s. keyView s = v) (setProm i p)" "keeps (\<lambda>s. keyView s = v) (setEnc i f)" "keeps (\<lambda>s. keyView s = v) (setDec i g)"
  "keeps (\<lambda>s. keyView s = v) (waitCu u t)" "keeps (\<lambda>s. keyView s = v) (encFailed kind err)"
  unfolding outV_def assertV_def askAttr_def setProm_def setEnc_def setDec_def waitCu_def encFailed_def
  by (intro keeps_intros; simp add: keyView_def)+

lemma still_draw [keeps_intros]: "(\<And>b. keeps (\<lambda>s. keyView s = v) (k b)) \<Longrightarrow> keeps (\<lambda>s. keyView s = v) (draw e n k)"
  unfolding draw_def by (intro keeps_intros; simp add: keyView_def)

lemma still_outDec [keeps_intros]: "keeps (\<lambda>s. keyView s = v) (outDec jk m oc)"
  unfolding outDec_def by (cases oc) (simp_all add: keeps_intros)

lemma still_symm [keeps_intros]:
  assumes "\<And>r. keeps (\<lambda>s. keyView s = v) (k r)"
  shows "keeps (\<lambda>s. keyView s = v) (deriveSymm e u pub k)" "keeps (\<lambda>s. keyView s = v) (computeSymmetricKey e u k)"
  unfolding deriveSymm_def computeSymmetricKey_def by (intro keeps_intros assms; simp add: keyView_def)+

lemma still_enc [keeps_intros]:
  "keeps (\<lambda>s. keyView s = v) (encDone e j)" "keeps (\<lambda>s. keyView s = v) (encUser e i u r)"
  "keeps (\<lambda>s. keyView s = v) (encryptKeyToAllParticipants e key ps kid kind)"
  "keeps (\<lambda>s. keyView s = v) (encWithKey e src key kind)" "keeps (\<lambda>s. keyView s = v) (encWhenKey e src kind)"
  unfolding encDone_def encMsgDone_def encTitleDone_def encUnifiedDone_def encUser_def encryptKeyToAllParticipants_def encCheck_def encWithKey_def encWhenKey_def encryptMsg_def
  by (intro keeps_intros; simp add: keyView_def)+

lemma still_keys [keeps_intros]:
  "keeps (\<lambda>s. keyView s = v) (addDecryptedKey ukid key)" "keeps (\<lambda>s. keyView s = v) (keyFailed ukid)"
  unfolding addDecryptedKey_def keyFailed_def by (intro keeps_intros; simp add: keyView_def putKey_def saveKey_def)+

lemma still_dec [keeps_intros]:
  "keeps (\<lambda>s. keyView s = v) (settleJob e i)" "keeps (\<lambda>s. keyView s = v) (startJob e jk m pm src w)"
  "keeps (\<lambda>s. keyView s = v) (decryptChatTitle e jk m pm)" "keeps (\<lambda>s. keyView s = v) (settleAll e)"
  unfolding decryptChatTitle_def startJob_def settleJob_def decDone_def msgDecDone_def titleDecDone_def settleAll_def settleEncs_def Let_def
  by (intro keeps_intros; simp add: keyView_def)+

lemma still_events [keeps_intros]:
  "keeps (\<lambda>s. keyView s = v) (onKeyReceived e kid u r d enc)" "keeps (\<lambda>s. keyView s = v) (encryptChatTitle e d u b)"
  "keeps (\<lambda>s. keyView s = v) (encryptUnifiedKeyForAllParticipants e u)" "keeps (\<lambda>s. keyView s = v) (reactionDecrypt e i u kid d)"
  "keeps (\<lambda>s. keyView s = v) (decryptChatTitleFromApi e d)" "keeps (\<lambda>s. keyView s = v) (onHistoryReload)"
  unfolding onKeyReceived_def encryptChatTitle_def encryptUnifiedKeyForAllParticipants_def reactionDecrypt_def decryptChatTitleFromApi_def
    onHistoryReload_def Let_def
  by (intro keeps_intros; simp add: keyView_def putKey_def)+

lemma still_users [keeps_intros]:
  "keeps (\<lambda>s. keyView s = v) (fetchUserKeys u)" "keeps (\<lambda>s. keyView s = v) (setUsers us)" "keeps (\<lambda>s. keyView s = v) (onUserJoin u)"
  "keeps (\<lambda>s. keyView s = v) (onUserLeave u)" "keeps (\<lambda>s. keyView s = v) (setPublicHandle ph)"
  unfolding setUsers_def onUserJoin_def onUserLeave_def setPublicHandle_def fetchUserKeys_def
  by (intro keeps_intros; simp add: keyView_def)+

lemma still_decrypt [keeps_intros]: "keeps (\<lambda>s. keyView s = v) (msgDecrypt e m)"
  unfolding msgDecrypt_def Let_def by (intro keeps_intros)

text \<open>The current key, until it is confirmed, is the newest of those that wait for a confirmation.\<close>

definition keyInv :: "SV \<Rightarrow> bool" where
  "keyInv s \<longleftrightarrow> (\<forall>k. svCurKey s = Some k \<and> svUnconfirmed s \<noteq> [] \<longrightarrow>
     last (svUnconfirmed s) = \<lparr>neKey = k, neRecipients = svCurParts s, neLocalKeyid = svCurKeyId s\<rparr>)"

lemma keyInv_view: "keyView t = keyView s \<Longrightarrow> keyInv t = keyInv s"
  by (simp add: keyView_def keyInv_def)

lemma still_inv:
  assumes "\<And>v. keeps (\<lambda>s. keyView s = v) st"
  shows "keeps keyInv st"
proof (rule keepsI)
  fix s assume inv: "keyInv s"
  have "keyView (fst (st s)) = keyView s" using keepsD [OF assms, of s "keyView s"] by simp
  from keyInv_view [OF this] show "keyInv (fst (st s))" using inv by simp
qed

lemma after_still:
  assumes "\<And>v. keeps (\<lambda>s. keyView s = v) st" "keyInv s0" "keyView s = keyView s0"
    "\<And>t. keyView t = keyView s0 \<Longrightarrow> keyInv (fst (doS xs t))"
  shows "keyInv (fst (doS (st # xs) s))"
proof (cases "st s")
  case (Pair t x)
  have "keyView t = keyView s0" using keepsD [OF assms(1), of s "keyView s0"] Pair assms(3) by simp
  then show ?thesis using Pair assms(2,4) keyInv_view [of t s0] by (cases x) simp_all
qed

lemma inv_symm [keeps_intros]:
  assumes "\<And>r. keeps keyInv (k r)"
  shows "keeps keyInv (deriveSymm e u pub k)" "keeps keyInv (computeSymmetricKey e u k)"
  unfolding deriveSymm_def computeSymmetricKey_def by (intro keeps_intros assms; simp add: keyInv_def)+

lemma inv_draw [keeps_intros]:
  "(\<And>b. keeps keyInv (k1 b)) \<Longrightarrow> keeps keyInv (draw e n k1)" "(\<And>i. keeps keyInv (k2 i)) \<Longrightarrow> keeps keyInv (getNextValidLocalKeyId k2)"
  unfolding draw_def getNextValidLocalKeyId_def by (intro keeps_intros; simp add: keyInv_def)+

lemma inv_encrypt [keeps_intros]: "keeps keyInv (createNewKey e ps kind)" "keeps keyInv (msgEncrypt e m ps cmd)"
proof -
  show new: "keeps keyInv (createNewKey e ps kind)" for kind
    unfolding createNewKey_def by (intro keeps_intros still_inv [OF still_enc(3)] still_inv [OF still_basic(2)]; simp add: keyInv_def)
  have enc: "keeps keyInv (encryptMsg e m c k f)" if "\<And>x. keeps keyInv (f x)" for m c k f
    unfolding encryptMsg_def by (intro keeps_intros that)
  show "keeps keyInv (msgEncrypt e m ps cmd)"
    unfolding msgEncrypt_def
    by (intro keeps_intros new enc still_inv [OF still_enc(5)] still_inv [OF still_basic(1)] still_inv [OF still_basic(2)])
qed

lemma inv_reset [keeps_intros]: "keeps keyInv resetSendKey"
  unfolding resetSendKey_def by (intro keeps_intros; simp add: keyInv_def)

lemma inv_confirmed [keeps_intros]: "keeps keyInv (onKeyConfirmed e l kid)"
  unfolding onKeyConfirmed_def
proof (rule keeps_readS_dep)
  fix s assume inv: "keyInv s"
  show "keyInv (fst ((case svUnconfirmed s of [] \<Rightarrow> doS [] | entry # rest \<Rightarrow> doS [
       assertV (\<lambda>_. neLocalKeyid entry = l),
       assertV (\<lambda>s. svKeys s (svOwn s, kid) = None),
       readS svOwn (\<lambda>own. addDecryptedKey (own, kid) (neKey entry)),
       whenS (\<lambda>s. svCurKey s \<noteq> None \<and> rest = []) [
         assertV (\<lambda>s. svCurKey s = Some (neKey entry)), assertV (\<lambda>s. svCurKeyId s = l), assertV (\<lambda>s. svCurParts s = neRecipients entry),
         modS (\<lambda>s. s\<lparr>svCurKeyId := kid\<rparr>)],
       modS (\<lambda>s. s\<lparr>svUnconfirmed := tl (svUnconfirmed s)\<rparr>),
       settleAll e]) s))"
  proof (cases "svUnconfirmed s")
    case (Cons entry rest)
    have "keyInv (fst (doS [whenS (\<lambda>s. svCurKey s \<noteq> None \<and> rest = []) [
         assertV (\<lambda>s. svCurKey s = Some (neKey entry)), assertV (\<lambda>s. svCurKeyId s = l), assertV (\<lambda>s. svCurParts s = neRecipients entry),
         modS (\<lambda>s. s\<lparr>svCurKeyId := kid\<rparr>)],
       modS (\<lambda>s. s\<lparr>svUnconfirmed := tl (svUnconfirmed s)\<rparr>), settleAll e] t))" if t: "keyView t = keyView s" for t
    proof -
      have "keyInv t" "svUnconfirmed t = entry # rest" using t inv keyInv_view [OF t] Cons by (simp_all add: keyView_def)
      then have "keyInv (u\<lparr>svUnconfirmed := rest\<rparr>)" if "u = t \<and> \<not> (svCurKey t \<noteq> None \<and> rest = []) \<or> rest = []" for u :: SV
        using that by (auto simp: keyInv_def)
      then show ?thesis
        using \<open>svUnconfirmed t = entry # rest\<close>
        by (auto simp: ifS_def assertV_def outV_def modS_def intro!: keepsD [OF still_inv [OF still_dec(4)]])
    qed
    then have "keyInv (fst (doS (readS svOwn (\<lambda>own. addDecryptedKey (own, kid) (neKey entry)) # [whenS (\<lambda>s. svCurKey s \<noteq> None \<and> rest = []) [
         assertV (\<lambda>s. svCurKey s = Some (neKey entry)), assertV (\<lambda>s. svCurKeyId s = l), assertV (\<lambda>s. svCurParts s = neRecipients entry),
         modS (\<lambda>s. s\<lparr>svCurKeyId := kid\<rparr>)],
       modS (\<lambda>s. s\<lparr>svUnconfirmed := tl (svUnconfirmed s)\<rparr>), settleAll e]) t))" if t: "keyView t = keyView s" for t
      by (intro after_still [OF keeps_readS [OF still_keys(1)] inv t])
    then show ?thesis
      unfolding Cons list.case by (intro after_still [OF still_basic(2) inv]) simp_all
  qed (simp add: inv)
qed

lemma inv_rejected [keeps_intros]: "keeps keyInv onKeyRejected"
  unfolding onKeyRejected_def
proof (rule keeps_readS_dep)
  fix s assume inv: "keyInv s"
  show "keyInv (fst ((case svUnconfirmed s of [] \<Rightarrow> doS [] | entry # rest \<Rightarrow> doS [
       whenS (\<lambda>s. svCurKey s \<noteq> None \<and> rest = []) [
         assertV (\<lambda>s. svCurKey s = Some (neKey entry)), assertV (\<lambda>s. svCurKeyId s = neLocalKeyid entry),
         assertV (\<lambda>s. svCurParts s = neRecipients entry), resetSendKey],
       modS (\<lambda>s. s\<lparr>svUnconfirmed := tl (svUnconfirmed s)\<rparr>)]) s))"
  proof (cases "svUnconfirmed s")
    case (Cons entry rest)
    let ?w = "whenS (\<lambda>s. svCurKey s \<noteq> None \<and> rest = []) [
         assertV (\<lambda>s. svCurKey s = Some (neKey entry)), assertV (\<lambda>s. svCurKeyId s = neLocalKeyid entry),
         assertV (\<lambda>s. svCurParts s = neRecipients entry), resetSendKey]"
    have "\<exists>u. ?w s = (u, None) \<and> svUnconfirmed u = entry # rest \<and> (rest \<noteq> [] \<longrightarrow> u = s)"
      using Cons by (simp add: ifS_def assertV_def outV_def modS_def resetSendKey_def)
    then obtain u where "?w s = (u, None)" "svUnconfirmed u = entry # rest" "rest \<noteq> [] \<longrightarrow> u = s" by blast
    then show ?thesis unfolding Cons list.case using inv by (cases "rest = []") (simp_all add: modS_def keyInv_def)
  qed (simp add: inv)
qed

lemma inv_load [keeps_intros]: "keeps keyInv (loadedKey ps kid key)"
  unfolding loadedKey_def by (intro keeps_intros; simp add: keyInv_def)

lemma inv_task [keeps_intros]: "keeps keyInv (cuTask e task r)"
proof -
  have check: "keeps keyInv (encCheck e i)" for i
    unfolding encCheck_def by (intro keeps_intros still_inv [OF still_enc(1)] still_inv [OF still_basic(5)])
  have unified: "keeps keyInv (onUnifiedKey p enc)" for p enc
    unfolding onUnifiedKey_def by (intro keeps_intros; simp add: keyInv_def)
  note steps = keeps_intros check unified still_inv [OF still_enc(2)] still_inv [OF still_keys(1)] still_inv [OF still_keys(2)]
    still_inv [OF still_basic(1)] still_inv [OF still_basic(6)]
  show ?thesis unfolding cuTask_def Let_def by (cases task; simp only: CuTask.case; intro steps)
qed

lemma inv_wait [keeps_intros]: "keeps keyInv (whenSymm e u task)"
  unfolding whenSymm_def by (intro keeps_intros still_inv [OF still_basic(7)])

lemma inv_attr [keeps_intros]: "keeps keyInv (onAttr e u a r b)"
  unfolding onAttr_def by (intro keeps_intros still_inv [OF still_dec(4)]; simp add: keyInv_def)

lemma inv_start: "keyInv (fst (startHandler e db un uni st (newHandler cr own chat cu ed at pub has ph nl)))"
proof (rule keepsD)
  show "keeps keyInv (startHandler e db un uni st)"
    unfolding startHandler_def loadKeys_def loadUnconfirmedKeys_def loadUnifiedKey_def
    by (intro keeps_intros still_inv [OF still_basic(1)] still_inv [OF still_basic(2)]; simp add: keyInv_def)
  show "keyInv (newHandler cr own chat cu ed at pub has ph nl)" by (simp add: keyInv_def newHandler_def)
qed

lemma inv_modes:
  "keeps keyInv setPrivateChatMode" "keeps keyInv (encryptUnifiedKeyToUser e u)" "keeps keyInv (decryptUnifiedKey e enc u r)"
  "keeps keyInv (getNextValidLocalKeyId (\<lambda>_. doS []))"
  unfolding setPrivateChatMode_def encryptUnifiedKeyToUser_def decryptUnifiedKey_def
  by (intro keeps_intros still_inv [OF still_basic(2)]; simp add: keyInv_def)+

lemma keyInv_event: "keeps keyInv (svEvent e x)"
  by (cases x) (simp_all add: inv_modes inv_encrypt inv_reset inv_confirmed inv_rejected inv_attr still_inv [OF still_decrypt]
    still_inv [OF still_events(1)] still_inv [OF still_events(2)] still_inv [OF still_events(3)] still_inv [OF still_events(4)]
    still_inv [OF still_events(5)] still_inv [OF still_events(6)] still_inv [OF still_users(2)] still_inv [OF still_users(3)]
    still_inv [OF still_users(4)] still_inv [OF still_users(5)])

lemma keyInv_run: "keyInv s \<Longrightarrow> keyInv (runSv es s)"
  unfolding runSv_def by (induction es arbitrary: s) (auto simp: keepsD [OF keyInv_event])

text \<open>A message for the same participants is encrypted with the current key.\<close>

lemma encrypt_current:
  assumes "\<not> svPublic s" "keyid m = CHATD_KEYID_INVALID" "isNewMsgCmd cmd" "svCurKey s = Some key"
  shows "\<exists>t. msgEncrypt e m (svCurParts s) cmd s = (t, None) \<and> svOut t = svOut s @ [SvEncrypted (m\<lparr>keyid := svCurKeyId s\<rparr>)
    (msgEncryptWithKey (seCr e) (svPrivEd s) (svPubEd s) (take 12 (seRand e (svDrawn s))) m (mcSetKeyId cmd (svCurKeyId s)) key) None]"
  using assms by (simp add: msgEncrypt_def ifS_def assertV_def readS_def encryptMsg_def draw_def modS_def outV_def)

section \<open>Receiving\<close>

lemma settle_nothing: "svEncWait s = [] \<Longrightarrow> svDec s = [] \<Longrightarrow> settleAll e s = (s, None)"
  by (simp add: settleAll_def settleEncs_def readS_def modS_def)

lemma key_received:
  assumes "sender \<noteq> svOwn s" "hasCu s sender" "length enc = 16" "svKeys s (sender, kid) = None" "svEncWait s = []" "svDec s = []"
    "length (crEcbDec (seCr e) enc (symmOf e s sender)) = 16"
  shows "\<exists>t. onKeyReceived e kid sender receiver enc True s = (t, None) \<and>
    svKeys t = (svKeys s)((sender, kid) \<mapsto> \<lparr>keKey = Some (crEcbDec (seCr e) enc (symmOf e s sender)), kePms = None\<rparr>) \<and>
    svAttrs t = svAttrs s \<and> svPublic t = svPublic s \<and> svDec t = [] \<and> svOut t = svOut s"
proof -
  let ?key = "crEcbDec (seCr e) enc (symmOf e s sender)"
  have "enc \<noteq> []" using assms(3) by auto
  then have dec: "aesECBDecrypt e enc (symmOf e s sender) = Inr ?key" using assms(3) by (simp add: aesECBDecrypt_def)
  have "otherParty s sender receiver = sender" using assms(1) by (simp add: otherParty_def)
  moreover have "\<exists>t. addDecryptedKey (sender, kid) ?key (cached e sender s) = (t, None) \<and>
      svKeys t = (svKeys s)((sender, kid) \<mapsto> \<lparr>keKey = Some ?key, kePms = None\<rparr>) \<and>
      svAttrs t = svAttrs s \<and> svPublic t = svPublic s \<and> svDec t = [] \<and> svOut t = svOut s \<and> svEncWait t = []"
    using assms(4-7)
    by (simp add: addDecryptedKey_def assertV_def ifS_def modS_def readS_def putKey_def keyEntryOf_def saveKey_def cached_def)
  ultimately show ?thesis
    using assms(2,3) dec by (auto simp: onKeyReceived_def readS_eq symm_now getS_def settle_nothing)
qed

lemma parse_type: "parseMessage cr junk (m\<lparr>msgType := t\<rparr>) = parseMessage cr junk m"
  by (simp add: parseMessage_def newParsed_def cong: if_cong)

lemma decrypt_with_key:
  assumes "mData m \<noteq> []" "parseMessage (seCr e) (seJunk e) m = Inr pm" "pmType pm = SVCRYPTO_MSGTYPE_FOLLOWUP" "pmSender pm = userid m"
    "userid m \<noteq> Id_COMMANDER" "keyid m \<noteq> CHATD_KEYID_INVALID" "svKeys s (userid m, keyid m) = Some \<lparr>keKey = Some key, kePms = None\<rparr>"
    "svAttrs s (userid m) ED25519_PUBLIC_KEY = KOk ed" "length ed = 32" "\<not> svPublic s" "svDec s = []"
    "verifySignature (seCr e) pm ed key = Inr True"
    "symmetricDecrypt (seCr e) pm key (m\<lparr>msgType := SVCRYPTO_MSGTYPE_FOLLOWUP\<rparr>) = (m', None)"
  shows "\<exists>t. msgDecrypt e m s = (t, None) \<and> svOut t = svOut s @ [SvDecrypted m' ODone]"
proof -
  let ?m = "m\<lparr>msgType := SVCRYPTO_MSGTYPE_FOLLOWUP\<rparr>"
  have "\<not> isManagementMessage ?m"
    using assms(5) by (simp add: isManagementMessage_def isManagementMessageKnownType_def SVCRYPTO_MSGTYPE_FOLLOWUP_def kMsgManagementLowest_def word_le_nat_alt)
  then have "msgDecrypt e m s = startJob e JMsg ?m pm (KsReady key) True s"
    using assms(1-3,5-7,10) by (simp add: msgDecrypt_def Let_def readS_eq getKey_def)
  moreover have "finishDecrypt (seCr e) True ed key pm ?m = (m', ODone)"
    using assms(12,13) by (simp add: finishDecrypt_def settle_def)
  ultimately show ?thesis
    using assms(4,8-11)
    by (simp add: startJob_def readS_def modS_def settleJob_def edProm_def srcNow_def setDec_def decDone_def msgDecDone_def outDec_def outV_def)
qed

section \<open>From one participant to another\<close>

text \<open>What the attribute cache tells one participant of another: the public keys of the private ones.\<close>

definition knowsKeys :: "Crypto \<Rightarrow> SV \<Rightarrow> SV \<Rightarrow> bool" where
  "knowsKeys cr s t \<longleftrightarrow> svSymm s (svOwn t) = None \<and> svAttrs s (svOwn t) CU25519_PUBLIC_KEY = KOk (crCuPub cr (svPrivCu t)) \<and>
     svAttrs s (svOwn t) ED25519_PUBLIC_KEY = KOk (svPubEd t)"

lemma same_secret:
  assumes "crypto_ok cr" "seCr e = cr" "seCr e' = cr" "knowsKeys cr s t" "knowsKeys cr t s"
  shows "symmOf e s (svOwn t) = symmOf e' t (svOwn s)" "length (symmOf e s (svOwn t)) = 16" "hasCu s (svOwn t)" "hasCu t (svOwn s)"
proof -
  have "crDh cr (svPrivCu s) (crCuPub cr (svPrivCu t)) = crDh cr (svPrivCu t) (crCuPub cr (svPrivCu s))"
    by (rule crypto_okD(10) [OF assms(1)])
  then show "symmOf e s (svOwn t) = symmOf e' t (svOwn s)" using assms(2-5) by (simp add: symmOf_def knowsKeys_def)
  show "length (symmOf e s (svOwn t)) = 16"
    using assms(2,4) crypto_okD(3) [OF assms(1)] by (simp add: symmOf_def knowsKeys_def deriveSharedKey_def)
  show "hasCu s (svOwn t)" "hasCu t (svOwn s)"
    using assms(4,5) crypto_okD(9) [OF assms(1)] by (simp_all add: hasCu_def knowsKeys_def)
qed

text \<open>A participant whose own key pair is known, in a private chat.\<close>

definition privateChat :: "Crypto \<Rightarrow> SV \<Rightarrow> bool" where
  "privateChat cr s \<longleftrightarrow> \<not> svPublic s \<and> length (svPrivEd s) = 32 \<and> svPubEd s = crPub cr (svPrivEd s)"

lemma userKeys_map: "u \<in> set us \<Longrightarrow> map_of (userKeys e s key us) u = Some (crEcbEnc (seCr e) key (symmOf e s u))"
  unfolding userKeys_def by (induction us) auto

lemma mc_length: "length (mcSetKeyId cmd k) = length cmd" if "length cmd = 39"
  using that by (simp add: mcSetKeyId_def bwrite_def)

text \<open>
  C2: What one participant of a private chat writes, the others read.  The first message after the participants have
  changed makes a new key; every participant finds that key in the key command, encrypted for him, and with the key and
  the message that the server passes on, under the key id that it has given, decrypts the message to the same content
  and the same back references.
\<close>

theorem end_to_end:
  assumes cr: "crypto_ok cr" "seCr ea = cr" "seCr eb = cr"
    and chat: "privateChat cr a" "privateChat cr b" "knowsKeys cr a b" "knowsKeys cr b a" "svOwn a \<noteq> svOwn b"
    and new: "keyid m = CHATD_KEYID_INVALID" "isNewMsgCmd cmd" "length cmd = 39" "svCurKey a = None \<or> svCurParts a \<noteq> ps"
      "isLocalKeyId (svNextLocal a)" "\<forall>n. length (seRand ea n) = 32"
    and users: "finite ps" "26 * card ps < 2 ^ 32" "svOwn b \<in> ps" "\<forall>u \<in> ps. hasCu a u \<and> length (symmOf ea a u) = 16"
    and sizes: "8 * length (backRefs m) < 65536" "length (mData m) < 2 ^ 31"
    and fresh: "svKeys b (svOwn a, kid) = None" "svEncWait b = []" "svDec b = []"
    and r: "userid r = svOwn a" "keyid r = kid" "kid \<noteq> CHATD_KEYID_INVALID" "svOwn a \<noteq> Id_COMMANDER" "backRefs r = []"
  shows "\<exists>a' cmd' kc key sealed b' b''. msgEncrypt ea m ps cmd a = (a', None) \<and>
    svOut a' = svOut a @ [SvEncrypted (m\<lparr>keyid := svNextLocal a\<rparr>) cmd' (Some kc)] \<and>
    getKeyByUserId kc (svOwn b) = Inr key \<and> mcMsg cmd' = Inr sealed \<and>
    onKeyReceived eb kid (svOwn a) receiver key True b = (b', None) \<and> msgDecrypt eb (r\<lparr>mData := sealed\<rparr>) b' = (b'', None) \<and>
    svOut b'' = svOut b @ [SvDecrypted (decrypted m (r\<lparr>msgType := SVCRYPTO_MSGTYPE_FOLLOWUP\<rparr>)) ODone]"
proof -
  let ?key = "take 16 (seRand ea (svDrawn a))" and ?nonce = "take 12 (seRand ea (Suc (svDrawn a)))" and ?kid = "svNextLocal a"
  let ?us = "sorted_list_of_set ps" and ?dest = "mcSetKeyId cmd (svNextLocal a)"
  let ?kc = "\<lparr>mLocalKeyid = ?kid, kcBuf = kcLayout (svChat a) ?kid (userKeys ea a ?key ?us)\<rparr>"
  let ?cmd = "msgEncryptWithKey cr (svPrivEd a) (svPubEd a) ?nonce m ?dest ?key" and ?enc = "crEcbEnc cr ?key (symmOf ea a (svOwn b))"
  let ?sealed = "sealMessage cr (svPrivEd a) (svPubEd a) SVCRYPTO_MSGTYPE_FOLLOWUP ?key (contentTlv cr ?nonce m ?key)"
  let ?r = "r\<lparr>mData := ?sealed, msgType := SVCRYPTO_MSGTYPE_FOLLOWUP\<rparr>"
  note secret = same_secret [OF cr chat(3,4)]
  have key: "length ?key = 16" "length ?nonce = 12" "length ?dest = 39" using new(3,6) by (simp_all add: mc_length)
  have ed: "svPubEd a = crPub cr (svPrivEd a)" "length (svPrivEd a) = 32" using chat(1) by (simp_all add: privateChat_def)
  have enc: "length ?enc = 16" "crEcbDec cr ?enc (symmOf eb b (svOwn a)) = ?key"
    using crypto_okD(7,8) [OF cr(1) key(1) secret(2)] secret(1) by simp_all
  have sealed: "mcMsg ?cmd = Inr ?sealed" unfolding ed(1) by (rule sealed_command(2)) (use cr ed key sizes in simp_all)
  obtain a' where a': "msgEncrypt ea m ps cmd a = (a', None)" "svOut a' = svOut a @ [SvEncrypted (m\<lparr>keyid := ?kid\<rparr>) ?cmd (Some ?kc)]"
    using encrypt_new_key [of a m cmd ps ea] chat(1) new users cr by (auto simp: privateChat_def)
  have "\<forall>(v, k) \<in> set (userKeys ea a ?key ?us). length k = 16"
    using users cr(2) crypto_okD(7) [OF cr(1) key(1)] by (auto simp: userKeys_def)
  then have found: "getKeyByUserId ?kc (svOwn b) = Inr ?enc"
    using getKey_layout [of ?kc "svChat a" ?kid "userKeys ea a ?key ?us" "svOwn b"] users cr(2) by (simp add: userKeys_map)
  obtain b' where b': "onKeyReceived eb kid (svOwn a) receiver ?enc True b = (b', None)"
      "svKeys b' (svOwn a, kid) = Some \<lparr>keKey = Some ?key, kePms = None\<rparr>" "svAttrs b' = svAttrs b" "svPublic b' = svPublic b" "svDec b' = []" "svOut b' = svOut b"
    using key_received [OF chat(5) secret(4) enc(1) fresh, of eb receiver] enc key cr(3) by auto
  obtain pm where pm: "parseMessage cr (seJunk eb) ?r = Inr pm" "pmSender pm = userid ?r" "pmType pm = SVCRYPTO_MSGTYPE_FOLLOWUP"
      "verifySignature cr pm (crPub cr (svPrivEd a)) ?key = Inr True" "symmetricDecrypt cr pm ?key ?r = (decrypted m ?r, None)"
    using message_roundtrip [OF cr(1) ed(2) key(1,2) sizes key(3), of ?r "seJunk eb"] r(5) sealed ed(1) by auto
  have "mData (r\<lparr>mData := ?sealed\<rparr>) \<noteq> []" by (simp add: sealMessage_def)
  then have "\<exists>b''. msgDecrypt eb (r\<lparr>mData := ?sealed\<rparr>) b' = (b'', None) \<and> svOut b'' = svOut b' @ [SvDecrypted (decrypted m ?r) ODone]"
    by (rule decrypt_with_key [where pm = pm and key = ?key and ed = "crPub cr (svPrivEd a)"])
      (use pm r b' chat cr ed crypto_okD(4) [OF cr(1) ed(2)] parse_type [where m = "r\<lparr>mData := ?sealed\<rparr>"] in
        \<open>simp_all add: knowsKeys_def privateChat_def\<close>)
  moreover have "decrypted m ?r = decrypted m (r\<lparr>msgType := SVCRYPTO_MSGTYPE_FOLLOWUP\<rparr>)" by (simp add: decrypted_def)
  ultimately show ?thesis using a' found sealed b' by metis
qed

text \<open>Two participants of a chat, users 1 and 2.\<close>

definition sampleSv :: "Id \<Rightarrow> SV" where
  "sampleSv u = newHandler plainCrypto u 9 (replicate 32 5) (replicate 32 (if u = 1 then 1 else 2))
     (\<lambda>v t. if t = CU25519_PUBLIC_KEY then KOk (replicate 32 9) else KOk (replicate 32 (if v = 1 then 1 else 2))) False False Id_inval 0xffffffff"

definition sampleSvEnv :: SvEnv where
  "sampleSvEnv = \<lparr>seCr = plainCrypto, seRand = (\<lambda>n. replicate 32 7), seJunk = replicate 32 0, sePad = [], seRef = 0\<rparr>"

definition newMsgCmd :: bytes where
  "newMsgCmd = opcodeVal OP_NEWMSG # replicate 38 0"

lemma sample_facts:
  "knowsKeys plainCrypto (sampleSv 1) (sampleSv 2)" "knowsKeys plainCrypto (sampleSv 2) (sampleSv 1)"
  "privateChat plainCrypto (sampleSv 1)" "privateChat plainCrypto (sampleSv 2)"
  "hasCu (sampleSv v) u" "length (symmOf sampleSvEnv (sampleSv v) u) = 16" "isNewMsgCmd newMsgCmd" "length newMsgCmd = 39"
  by (simp_all add: knowsKeys_def privateChat_def sampleSv_def newHandler_def plainCrypto_def hasCu_def symmOf_def deriveSharedKey_def
      sampleSvEnv_def newMsgCmd_def isNewMsgCmd_def cmdOpcode_def read8_def readPtr_def slice_def)

lemma sampleSv_fields:
  "svOwn (sampleSv u) = u" "svCurKey (sampleSv u) = None" "svNextLocal (sampleSv u) = 0xffffffff" "svKeys (sampleSv u) x = None"
  "svEncWait (sampleSv u) = []" "svDec (sampleSv u) = []" "svOut (sampleSv u) = []" "seCr sampleSvEnv = plainCrypto"
  "length (seRand sampleSvEnv n) = 32"
  by (simp_all add: sampleSv_def newHandler_def sampleSvEnv_def)

theorem end_to_end_witness:
  "\<exists>a cmd kc key sealed b b'. msgEncrypt sampleSvEnv (newMessage 5 1 100 0 [72, 105] True 0 kMsgNormal 0 []) {1, 2} newMsgCmd (sampleSv 1) = (a, None) \<and>
    svOut a = [SvEncrypted (newMessage 5 1 100 0 [72, 105] True 0xffffffff kMsgNormal 0 []) cmd (Some kc)] \<and>
    getKeyByUserId kc 2 = Inr key \<and> mcMsg cmd = Inr sealed \<and> onKeyReceived sampleSvEnv 7 1 0 key True (sampleSv 2) = (b, None) \<and>
    msgDecrypt sampleSvEnv (newMessage 5 1 100 0 sealed True 7 kMsgNormal 0 []) b = (b', None) \<and>
    svOut b' = [SvDecrypted (newMessage 5 1 100 0 [72, 105] True 7 SVCRYPTO_MSGTYPE_FOLLOWUP 0 []) ODone]"
proof -
  let ?m = "newMessage 5 1 100 0 [72, 105] True 0 kMsgNormal 0 []" and ?r = "newMessage 5 1 100 0 [] True 7 kMsgNormal 0 []"
  have m: "?m\<lparr>keyid := k\<rparr> = newMessage 5 1 100 0 [72, 105] True k kMsgNormal 0 []"
    "?r\<lparr>mData := d\<rparr> = newMessage 5 1 100 0 d True 7 kMsgNormal 0 []"
    "decrypted ?m (?r\<lparr>msgType := SVCRYPTO_MSGTYPE_FOLLOWUP\<rparr>) = newMessage 5 1 100 0 [72, 105] True 7 SVCRYPTO_MSGTYPE_FOLLOWUP 0 []" for k d
    by (simp_all add: newMessage_def decrypted_def)
  have r: "userid ?r = 1" "keyid ?r = 7" "backRefs ?r = []" "keyid ?m = CHATD_KEYID_INVALID" "backRefs ?m = []" "length (mData ?m) = 2"
    "(7 :: KeyId) \<noteq> CHATD_KEYID_INVALID" "(1 :: Id) \<noteq> Id_COMMANDER" "isLocalKeyId 0xffffffff"
    by (simp_all add: newMessage_def CHATD_KEYID_INVALID_def Id_COMMANDER_def isLocalKeyId_def CHATD_KEYID_MIN_def)
  show ?thesis
    using end_to_end [where ea = sampleSvEnv and eb = sampleSvEnv and m = ?m and ps = "{1, 2}" and kid = 7 and r = ?r and receiver = 0,
        OF plainCrypto_ok _ _ sample_facts(3,4,1,2) _ _ sample_facts(7,8)]
    by (simp add: sampleSv_fields sample_facts(5,6) r m)
qed

section \<open>Properties of the current key\<close>

lemma new_key_view:
  assumes "\<not> svPublic s" "keyid m = CHATD_KEYID_INVALID" "isNewMsgCmd cmd" "svCurKey s = None \<or> svCurParts s \<noteq> ps" "msgEncrypt e m ps cmd s = (t, x)"
  shows "keyView t = keyView (newKeyState e ps s)"
proof -
  have "keyView (fst (msgEncrypt e m ps cmd s)) = keyView (newKeyState e ps s)"
    unfolding encrypt_makes_key [OF assms(1-4)] by (rule keepsD [OF still_enc(3)]) (rule refl)
  then show ?thesis by (simp add: assms(5))
qed

definition firstMsg :: Message where
  "firstMsg = newMessage 5 1 100 0 [72, 105] True 0 kMsgNormal 0 []"

lemma firstMsg_keyid: "keyid firstMsg = CHATD_KEYID_INVALID"
  by (simp add: firstMsg_def newMessage_def CHATD_KEYID_INVALID_def)

text \<open>
  C5: However the messages, keys, answers and confirmations have come so far: when the server confirms the only key that
  waits for it, that key is the current one, as the code asserts, and from then on messages for the same participants
  are encrypted with it under the key id that the server has given, without sending it again.
\<close>

theorem confirmed_key_is_used:
  assumes s: "s = runSv es (fst (startHandler e db un uni st (newHandler cr own chat cu ed at pub has ph nl)))"
    and now: "svUnconfirmed s = [entry]" "svCurKey s = Some key" "svKeys s (svOwn s, kid) = None" "\<not> svPublic s"
    and new: "keyid m = CHATD_KEYID_INVALID" "isNewMsgCmd cmd"
  shows "entry = \<lparr>neKey = key, neRecipients = svCurParts s, neLocalKeyid = svCurKeyId s\<rparr> \<and>
    (\<exists>t x u. onKeyConfirmed e' (svCurKeyId s) kid s = (t, x) \<and> svUnconfirmed t = [] \<and> svCurKeyId t = kid \<and>
      msgEncrypt e' m (svCurParts s) cmd t = (u, None) \<and> svOut u = svOut t @ [SvEncrypted (m\<lparr>keyid := kid\<rparr>)
        (msgEncryptWithKey (seCr e') (svPrivEd s) (svPubEd s) (take 12 (seRand e' (svDrawn t))) m (mcSetKeyId cmd kid) key) None])"
proof -
  have entry: "entry = \<lparr>neKey = key, neRecipients = svCurParts s, neLocalKeyid = svCurKeyId s\<rparr>"
    using keyInv_run [OF inv_start, of es e db un uni st cr own chat cu ed at pub has ph nl] now(1,2) unfolding s [symmetric] by (simp add: keyInv_def)
  have "\<exists>v. doS [assertV (\<lambda>_. neLocalKeyid entry = svCurKeyId s), assertV (\<lambda>s. svKeys s (svOwn s, kid) = None),
      readS svOwn (\<lambda>own. addDecryptedKey (own, kid) (neKey entry))] s = (v, None) \<and> keyView v = keyView s"
    using now(3) by (simp add: entry addDecryptedKey_def assertV_def ifS_def outV_def modS_def readS_def keyEntryOf_def putKey_def saveKey_def keyView_def)
  then obtain v where v: "doS [assertV (\<lambda>_. neLocalKeyid entry = svCurKeyId s), assertV (\<lambda>s. svKeys s (svOwn s, kid) = None),
      readS svOwn (\<lambda>own. addDecryptedKey (own, kid) (neKey entry))] s = (v, None)" "keyView v = keyView s" by blast
  let ?w = "v\<lparr>svCurKeyId := kid, svUnconfirmed := []\<rparr>"
  let ?u = "v\<lparr>svCurKeyId := kid\<rparr>"
  have cur: "whenS (\<lambda>s. svCurKey s \<noteq> None \<and> [] = ([] :: NewKeyEntry list)) [
      assertV (\<lambda>s. svCurKey s = Some (neKey entry)), assertV (\<lambda>s'. svCurKeyId s' = svCurKeyId s),
      assertV (\<lambda>s. svCurParts s = neRecipients entry), modS (\<lambda>s. s\<lparr>svCurKeyId := kid\<rparr>)] v = (?u, None)"
    using v(2) now(2) by (simp add: ifS_def assertV_def modS_def entry keyView_def)
  have tl: "modS (\<lambda>s. s\<lparr>svUnconfirmed := tl (svUnconfirmed s)\<rparr>) ?u = (?w, None)"
    using v(2) now(1) by (simp add: modS_def keyView_def)
  have "onKeyConfirmed e' (svCurKeyId s) kid s = doS ([assertV (\<lambda>_. neLocalKeyid entry = svCurKeyId s), assertV (\<lambda>s. svKeys s (svOwn s, kid) = None),
      readS svOwn (\<lambda>own. addDecryptedKey (own, kid) (neKey entry))] @ [whenS (\<lambda>s. svCurKey s \<noteq> None \<and> [] = ([] :: NewKeyEntry list)) [
      assertV (\<lambda>s. svCurKey s = Some (neKey entry)), assertV (\<lambda>s'. svCurKeyId s' = svCurKeyId s),
      assertV (\<lambda>s. svCurParts s = neRecipients entry), modS (\<lambda>s. s\<lparr>svCurKeyId := kid\<rparr>)],
      modS (\<lambda>s. s\<lparr>svUnconfirmed := tl (svUnconfirmed s)\<rparr>), settleAll e']) s"
    unfolding onKeyConfirmed_def readS_eq now(1) list.case by (simp only: append_Cons append_Nil)
  also have "\<dots> = doS [whenS (\<lambda>s. svCurKey s \<noteq> None \<and> [] = ([] :: NewKeyEntry list)) [
      assertV (\<lambda>s. svCurKey s = Some (neKey entry)), assertV (\<lambda>s'. svCurKeyId s' = svCurKeyId s),
      assertV (\<lambda>s. svCurParts s = neRecipients entry), modS (\<lambda>s. s\<lparr>svCurKeyId := kid\<rparr>)],
      modS (\<lambda>s. s\<lparr>svUnconfirmed := tl (svUnconfirmed s)\<rparr>), settleAll e'] v"
    unfolding doS_append v(1) by (simp only: prod.case option.case)
  also have "\<dots> = doS [modS (\<lambda>s. s\<lparr>svUnconfirmed := tl (svUnconfirmed s)\<rparr>), settleAll e'] ?u" by (rule step_next) (rule cur)
  also have "\<dots> = doS [settleAll e'] ?w" by (rule step_next) (rule tl)
  also have "\<dots> = settleAll e' ?w" by (simp only: doS_simps)
  finally have "onKeyConfirmed e' (svCurKeyId s) kid s = settleAll e' ?w" .
  moreover have "keyView (fst (settleAll e' ?w)) = keyView ?w" by (rule keepsD [OF still_dec(4)]) (rule refl)
  ultimately obtain t x where t: "onKeyConfirmed e' (svCurKeyId s) kid s = (t, x)" "keyView t = keyView ?w"
    by (cases "settleAll e' ?w") auto
  have "\<not> svPublic t" "svCurKey t = Some key" "svCurKeyId t = kid" "svUnconfirmed t = []" "svCurParts t = svCurParts s"
    "svPrivEd t = svPrivEd s" "svPubEd t = svPubEd s"
    using t(2) v(2) now by (simp_all add: keyView_def)
  then show ?thesis
    using entry t(1) encrypt_current [OF _ new, where s = t and key = key and e = e'] by auto
qed

text \<open>The chat of user 1 after a first message.\<close>

definition startedSv :: SV where
  "startedSv = fst (startHandler sampleSvEnv [] [] [] 0 (sampleSv 1))"

definition sentSv :: SV where
  "sentSv = runSv [(sampleSvEnv, SvEncrypt firstMsg {1, 2} newMsgCmd)] startedSv"

lemma startedSv_state: "startedSv = (sampleSv 1)\<lparr>svNextLocal := 0xfffffffe\<rparr>"
  by (simp add: startedSv_def startHandler_def loadKeys_def loadUnconfirmedKeys_def loadUnifiedKey_def getNextValidLocalKeyId_def modS_def
      readS_def assertV_def ifS_def sampleSv_def newHandler_def isValidKeyxId_def CHATD_KEYID_MAX_def CHATD_KEYID_MIN_def fun_eq_iff)

lemma sent_facts:
  "svUnconfirmed sentSv = [\<lparr>neKey = replicate 16 7, neRecipients = {1, 2}, neLocalKeyid = 0xfffffffe\<rparr>]" "svCurKey sentSv = Some (replicate 16 7)"
  "svCurParts sentSv = {1, 2}" "svKeys sentSv x = None" "\<not> svPublic sentSv"
proof -
  have s: "\<not> svPublic startedSv" "svCurKey startedSv = None" "svNextLocal startedSv = 0xfffffffe" "svKeys startedSv x = None"
    "hasCu startedSv u" "length (symmOf sampleSvEnv startedSv u) = 16" "svUnconfirmed startedSv = []" for x u
    using sample_facts(5,6) by (simp_all add: startedSv_state sampleSv_def newHandler_def hasCu_def symmOf_def split: option.split)
  obtain t where t: "msgEncrypt sampleSvEnv firstMsg {1, 2} newMsgCmd startedSv = (t, None)" "svKeys t = svKeys startedSv"
    using encrypt_new_key [OF s(1) firstMsg_keyid sample_facts(7), where ps = "{1, 2}" and e = sampleSvEnv] s
    by (auto simp: sampleSv_fields plainCrypto_ok isLocalKeyId_def CHATD_KEYID_MIN_def)
  have "keyView t = keyView (newKeyState sampleSvEnv {1, 2} startedSv)"
    by (rule new_key_view [OF s(1) firstMsg_keyid sample_facts(7) _ t(1)]) (simp add: s)
  moreover have "sentSv = t" using t(1) by (simp add: sentSv_def runSv_def)
  ultimately show "svUnconfirmed sentSv = [\<lparr>neKey = replicate 16 7, neRecipients = {1, 2}, neLocalKeyid = 0xfffffffe\<rparr>]"
      "svCurKey sentSv = Some (replicate 16 7)" "svCurParts sentSv = {1, 2}" "svKeys sentSv x = None" "\<not> svPublic sentSv"
    using s t(2) by (simp_all add: keyView_def newKeyState_def Let_def sampleSvEnv_def)
qed

theorem confirmed_key_is_used_witness:
  "\<exists>t x u cmd'. onKeyConfirmed sampleSvEnv (svCurKeyId sentSv) 7 sentSv = (t, x) \<and> svCurKeyId t = 7 \<and>
    msgEncrypt sampleSvEnv firstMsg {1, 2} newMsgCmd t = (u, None) \<and> svOut u = svOut t @ [SvEncrypted (firstMsg\<lparr>keyid := 7\<rparr>) cmd' None]"
  using confirmed_key_is_used [OF sentSv_def [unfolded startedSv_def sampleSv_def] sent_facts(1,2,4,5) firstMsg_keyid sample_facts(7),
      of sampleSvEnv]
  unfolding sent_facts(3) by blast

text \<open>
  C39: A key that cannot be sent is used all the same: when the keys of some participant cannot be had, the first message
  fails, but the key that was made for it stays the current one, and the next message for the same participants is
  encrypted with it and handed over without any key command, so that nobody can read it.
\<close>

theorem failed_key_is_reused:
  assumes "\<not> svPublic s" "keyid m = CHATD_KEYID_INVALID" "isNewMsgCmd cmd" "svCurKey s = None \<or> svCurParts s \<noteq> ps"
    and "isLocalKeyId (svNextLocal s)" "length (seRand e (svDrawn s)) = 32" "crypto_ok (seCr e)" "finite ps" "26 * card ps < 2 ^ 32"
    and "\<forall>u \<in> ps. hasCu s u \<and> length (symmOf e s u) = 16 \<or> noCu s u" "\<exists>u \<in> ps. noCu s u"
    and "keyid m' = CHATD_KEYID_INVALID" "isNewMsgCmd cmd'"
  shows "\<exists>t u. msgEncrypt e m ps cmd s = (t, None) \<and> svOut t = svOut s @ [SvNotEncrypted EOTHER] \<and>
    msgEncrypt e' m' ps cmd' t = (u, None) \<and> svOut u = svOut t @ [SvEncrypted (m'\<lparr>keyid := svNextLocal s\<rparr>)
      (msgEncryptWithKey (seCr e') (svPrivEd s) (svPubEd s) (take 12 (seRand e' (svDrawn t))) m' (mcSetKeyId cmd' (svNextLocal s))
        (take 16 (seRand e (svDrawn s)))) None]"
proof -
  let ?key = "take 16 (seRand e (svDrawn s))"
  obtain t where t: "msgEncrypt e m ps cmd s = (t, None)" "svOut t = svOut s @ [SvNotEncrypted EOTHER]"
    using encrypt_fails [of "svNextLocal s" ?key e ps "newKeyState e ps s" m cmd] assms(5-11) by (auto simp: encrypt_makes_key [OF assms(1-4)])
  have "keyView t = keyView (newKeyState e ps s)" using new_key_view [OF assms(1-4)] t(1) by simp
  then have "\<not> svPublic t" "svCurKey t = Some ?key" "svCurKeyId t = svNextLocal s" "svCurParts t = ps" "svPrivEd t = svPrivEd s" "svPubEd t = svPubEd s"
    using assms(1) by (simp_all add: keyView_def newKeyState_def Let_def)
  then show ?thesis
    using t encrypt_current [OF _ assms(12,13), where s = t and key = ?key and e = e'] by auto
qed

text \<open>The keys of user 2 cannot be had.\<close>

definition lonelySv :: SV where
  "lonelySv = (sampleSv 1)\<lparr>svAttrs := (\<lambda>v t. if v = 2 then KErr else KOk (replicate 32 9))\<rparr>"

lemma lonely_facts:
  "\<not> svPublic lonelySv" "svCurKey lonelySv = None" "isLocalKeyId (svNextLocal lonelySv)" "noCu lonelySv 2" "hasCu lonelySv 1"
  "length (symmOf sampleSvEnv lonelySv 1) = 16" "svOut lonelySv = []"
  by (simp_all add: lonelySv_def sampleSv_def newHandler_def isLocalKeyId_def CHATD_KEYID_MIN_def noCu_def hasCu_def symmOf_def deriveSharedKey_def
      plainCrypto_def sampleSvEnv_def)

theorem failed_key_is_reused_witness:
  "\<exists>t u m' cmd'. msgEncrypt sampleSvEnv firstMsg {1, 2} newMsgCmd lonelySv = (t, None) \<and> svOut t = [SvNotEncrypted EOTHER] \<and>
    msgEncrypt sampleSvEnv firstMsg {1, 2} newMsgCmd t = (u, None) \<and> svOut u = [SvNotEncrypted EOTHER, SvEncrypted m' cmd' None]"
  using failed_key_is_reused [OF lonely_facts(1) firstMsg_keyid sample_facts(7) _ lonely_facts(3) _ _ _ _ _ _ firstMsg_keyid sample_facts(7),
      of "{1, 2}" sampleSvEnv sampleSvEnv]
  by (auto simp: lonely_facts sampleSv_fields plainCrypto_ok)

section \<open>Keys of the wrong size\<close>

text \<open>
  A received key of more than one block is written outside the key it is decrypted into: only a size that is not a
  multiple of the block size is refused.
\<close>

theorem long_key_overflows:
  assumes "hasCu s (otherParty s sender receiver)" "length enc mod 16 = 0" "16 < length enc"
  shows "snd (onKeyReceived e kid sender receiver enc True s) = Some OutOfBounds"
proof -
  have "enc \<noteq> []" using assms(3) by auto
  then show ?thesis
    using assms(2,3) by (simp add: onKeyReceived_def readS_eq symm_now [OF assms(1)] getS_def aesECBDecrypt_def)
qed

theorem long_key_overflows_witness:
  "snd (onKeyReceived sampleSvEnv 7 2 1 (replicate 32 0) True (sampleSv 1)) = Some OutOfBounds"
  by (rule long_key_overflows [OF sample_facts(5)]) simp_all

end
