(* ===== verification/Spec2Isabelle.thy ===== *)
theory Spec2Isabelle
  imports Prelude Base64url Buffer KarereId Tlv Url RetryHandler ChatdTypes ChatMessage SchedMeeting ChatCommand ChatdDb ChatHistory
    ChatdFrame ChatdRoute FilteredHist ChatProg ChatState ChatPointers ChatSending ChatIncoming ChatFetch ChatClient
    ChatInv ChatKeeps ChatKeepsQueue ChatKeepsSend ChatKeepsRecv ChatClientInv ChatFlush ChatSample ChatViews ChatQueueProps ChatConfirm ChatPointerProps ChatEditProps
    DnsCache DnsProps PresConfig PresClient PresConn PresProps PresInv PresSafe ChatdConn ChatdConnInv ChatdConnProps ChatdConnDown
    Strongvelope StrongvelopeProps SvKeys SvKeysProps
begin

text \<open>
  The core of the MEGAchat client library: the chats and their connections to the chat servers, the local cache, the
  encryption of messages with its keys, the presence client, and what they rest on.

  The program and its parts.  The application posts messages and reads the history of chat rooms.  Class
  \<open>chatd::Client\<close> (\<open>src/chatd.h\<close>, \<open>src/chatd.cpp\<close>) owns one \<open>chatd::Chat\<close> for each room and one \<open>chatd::Connection\<close>
  for each server (shard).  A chat keeps a window of its history in memory, a queue of what is being sent, and pointers
  to the last message received and seen; both are copied to the tables of the cache (\<open>src/chatdDb.h\<close>).  Messages go through
  \<open>strongvelope::ProtocolHandler\<close> (\<open>src/strongvelope\<close>), which makes keys, encrypts them for all participants and signs and
  decrypts messages.  A connection looks its server up in the cache of addresses (\<open>src/net/websocketsIO.cpp\<close>), runs
  its attempts under a retry controller (\<open>src/base/retryHandler.h\<close>), sends commands and hands the commands of a received
  frame to the chats.  The presence client (\<open>src/presenced.cpp\<close>) is a second user of the same network layer.

  Theories, definitions and code.  Records and datatypes carry the members and enumerators of the classes, and each operation
  is one definition with the name of its method where the name is free (a prefix tells classes apart: \<open>b\<close> for buffers,
  \<open>rc\<close> for the retry controller, \<open>fh\<close> for the attachment list, \<open>mc\<close> and \<open>kc\<close> for commands, \<open>k\<close> for connections).

    \<^item> \<open>Prelude\<close>: bytes, machine words, \<open>size_t\<close> arithmetic, results with the exceptions of the code, byte orders,
      and the locale \<open>codec\<close> of everything that is written and read back.  \<open>ChatProg\<close>: handlers as lists of steps that
      change a state and may throw half way, what they do (\<open>wp\<close>), what they keep (\<open>keeps\<close>) and leave alone (\<open>preserves\<close>).
    \<^item> \<open>Base64url\<close> (\<open>src/base64url.cpp\<close>), \<open>Buffer\<close> (\<open>src/buffer.h\<close>), \<open>KarereId\<close> (\<open>src/karereId.h\<close>), \<open>Tlv\<close>
      (\<open>src/strongvelope/tlvstore.h\<close>), \<open>Url\<close> (\<open>src/url.cpp\<close>), \<open>RetryHandler\<close> (\<open>src/base/retryHandler.h\<close>).
    \<^item> \<open>ChatdTypes\<close>, \<open>ChatMessage\<close>, \<open>SchedMeeting\<close>, \<open>ChatCommand\<close>: opcodes and enumerations, messages with their reactions,
      payloads of management messages and the commands sent (\<open>src/chatdMsg.h\<close>).
    \<^item> \<open>ChatdDb\<close>: the tables of \<open>src/dbSchema.sql\<close> as lists of rows and every statement of \<open>ChatdSqliteDb\<close>.
    \<^item> \<open>ChatHistory\<close>, \<open>FilteredHist\<close>: the window of the history and the list of attachments.
    \<^item> \<open>ChatdFrame\<close>, \<open>ChatdRoute\<close>: \<open>Connection::execCommand\<close>, first the decoding of a frame, then the calls of each command.
    \<^item> \<open>ChatState\<close>, \<open>ChatPointers\<close>, \<open>ChatSending\<close>, \<open>ChatIncoming\<close>, \<open>ChatFetch\<close>: the handlers of \<open>chatd::Chat\<close>: unread
      count and reactions, pointers with truncation and retention, the sending queue, arriving messages, and the fetch of the
      history with login and members.  \<open>ChatClient\<close>: \<open>chatd::Client\<close>, which routes confirmations and executes frames.
    \<^item> \<open>ChatdConn\<close>: the connections and what the client does with all of them; its state holds the state of \<open>ChatClient\<close>
      and its handlers call those of the chats.
    \<^item> \<open>Strongvelope\<close>, \<open>SvKeys\<close>: the format of encrypted messages, and the keys of a chat with all that waits for them.
    \<^item> \<open>DnsCache\<close> (\<open>DNScache\<close>), \<open>PresConfig\<close>, \<open>PresClient\<close>, \<open>PresConn\<close> (\<open>src/presenced.h\<close>, \<open>src/presenced.cpp\<close>).

  What the lemmas show.
    \<^item> \<open>ChatInv\<close>, \<open>ChatKeeps\<close>, \<open>ChatKeepsQueue\<close>, \<open>ChatKeepsSend\<close>, \<open>ChatKeepsRecv\<close>, \<open>ChatClientInv\<close>, \<open>ChatdConnInv\<close>: every
      handler keeps the invariant of a chat (tables intact, queue in memory equal to the rows of the cache, iterators in
      range) whether it returns or throws; hence so does every event of the client, and of the chats with their connections.
      \<open>ChatdConnProps\<close> and \<open>ChatQueueProps\<close> state it for whole runs.
    \<^item> \<open>ChatViews\<close>: what handlers leave alone, as locales over views of the state.  \<open>ChatPointerProps\<close>, \<open>ChatEditProps\<close>,
      \<open>ChatConfirm\<close>, \<open>ChatFlush\<close>: what single handlers do, that the queue is sent in order and where a confirmation goes.
    \<^item> \<open>ChatdConnDown\<close>: what the loss of a connection does.  \<open>DnsProps\<close>, \<open>PresProps\<close>, \<open>PresInv\<close>, \<open>PresSafe\<close>: the address
      cache against its table, the presence client's dialogue, and the safety of its connection over whole runs.
    \<^item> \<open>StrongvelopeProps\<close>, \<open>SvKeysProps\<close>: an encrypted message is read back, from the format up to two participants that
      exchange a key and a message; bytes that are safe to parse and bytes that are not; the current key and its confirmation.
    \<^item> The other theories hold the properties of their component beside its definitions.  \<open>ChatSample\<close> has the data on which
      properties of chats are applied.

  Conventions.  A value of type \<open>'a res\<close> is an exception of the code or a result.  \<open>RuntimeError\<close> and \<open>RangeError\<close> are
  exceptions that a \<open>catch\<close> of the code may handle.  \<open>AssertFail\<close> is a failed assertion and \<open>OutOfBounds\<close> undefined behaviour
  (memory outside a buffer, a null or dangling pointer); nothing handles these two.  In the presence client, the connections
  and the keys a failed assertion is recorded in the output and the code goes on, as it does in a release build, unless what
  follows has no meaning.  What an object tells its listeners, sends or asks for is appended to an output list, in order;
  listeners do not call back.  Timers, promises, answers of the servers, of the name lookup and of the attribute cache are
  events, and a promise that something waits for is part of the state.  The host has 64-bit sizes and is little-endian.

  Parameters.  The cryptographic primitives (libsodium, Crypto++, the SDK) are the record \<open>Crypto\<close>; the laws used of them are
  \<open>crypto_ok\<close>, which \<open>plainCrypto\<close> satisfies.  The answers of the crypto module to the chats, random choices, the clock and the
  JSON parser are arguments.  The allocation of memory does not fail, except where \<open>Buffer\<close> says so.

  Bounds.  \<open>flushOutputQueue\<close> runs \<open>flushLoop\<close> for one round more than the queue has items: \<open>flush_terminates\<close> shows that more
  rounds change nothing.  \<open>decryptLoop\<close> and \<open>nodeLoop\<close> have a round for each message that is there.  \<open>presCmds\<close> has a round for each
  byte, and each round reads one.  \<open>execCommand\<close>, \<open>pmLoop\<close> and the other readers terminate because every round consumes input.
  \<open>retryPendingConnection\<close> of both clients calls itself once, after it has invalidated the URL: two levels are enough, except
  in anonymous mode without a URL, where the code recurses without end and the model ends with \<open>OutOfBounds\<close>.

  Not modelled.  The application's own model (\<open>src/chatClient.cpp\<close>) and interface (\<open>src/megachatapi_impl.cpp\<close>), which tie the
  SDK's callbacks to the components above; calls (\<open>src/sfu.cpp\<close>, \<open>src/rtcModule\<close>, \<open>src/rtcCrypto.cpp\<close>), which drive libraries
  outside the repository; the user attribute cache, whose answers are events; libwebsockets, libuv and SQLite with their wrappers;
  logging and statistics; bindings, examples, tests and third-party code.
\<close>

end
